(* ===== verification/Prelude.thy ===== *)
theory Prelude
  imports Complex_Main "HOL-Library.AList" "HOL-Library.Multiset" "HOL-Library.Sublist"
    "HOL-Library.Product_Lexorder" "HOL-Library.List_Lexorder" "HOL-Library.Char_ord"
begin

section \<open>Shared vocabulary: Python containers as HOL lists\<close>

text \<open>
  The source keeps its results in Python dictionaries and lists, and its consensus argument
  depends on their iteration order (floating point sums are order dependent). A dictionary is
  therefore an association list in insertion order: assigning to a key that is present replaces
  the value in place, assigning to a new key appends, which is \<^const>\<open>AList.update\<close>.
  The rest of the theory collects what several components share: the loops
  ``keep the first entry of every hotkey'' and ``group the values of a key'', the stable
  \<^verbatim>\<open>sorted(..., key=...)\<close>, and the exceptions the modelled functions raise.
\<close>

named_theorems dict_simps "association lists as Python dictionaries"

text \<open>The exceptions of the modelled functions; \<open>Inl\<close> carries one, \<open>Inr\<close> a result.\<close>

datatype py_error = ValueError string | IndexError | OverflowError | TypeError | KeyError

type_synonym ('k, 'v) dict = "('k \<times> 'v) list"

abbreviation dict_set :: "'k \<Rightarrow> 'v \<Rightarrow> ('k, 'v) dict \<Rightarrow> ('k, 'v) dict" where
  "dict_set \<equiv> AList.update"

abbreviation dict_get :: "('k, 'v) dict \<Rightarrow> 'k \<Rightarrow> 'v option" where
  "dict_get \<equiv> map_of"

abbreviation dict_keys :: "('k, 'v) dict \<Rightarrow> 'k list" where
  "dict_keys d \<equiv> map fst d"

abbreviation dict_values :: "('k, 'v) dict \<Rightarrow> 'v list" where
  "dict_values d \<equiv> map snd d"

text \<open>A dictionary comprehension: the pairs are stored one after the other.\<close>

fun dict_store :: "('k, 'v) dict \<Rightarrow> ('k \<times> 'v) list \<Rightarrow> ('k, 'v) dict" where
  "dict_store d [] = d"
| "dict_store d ((k, v) # kvs) = dict_store (dict_set k v d) kvs"

abbreviation dict_of :: "('k \<times> 'v) list \<Rightarrow> ('k, 'v) dict" where
  "dict_of \<equiv> dict_store []"

text \<open>The slice \<^verbatim>\<open>xs[:n]\<close>, whose negative bounds count from the end.\<close>

definition slice_to :: "int \<Rightarrow> 'a list \<Rightarrow> 'a list" where
  "slice_to n xs = take (if n \<ge> 0 then nat n else length xs - nat (- n)) xs"

text \<open>\<^verbatim>\<open>grouped.setdefault(k, []).append(v)\<close>.\<close>

definition dict_append :: "'k \<Rightarrow> 'v \<Rightarrow> ('k, 'v list) dict \<Rightarrow> ('k, 'v list) dict" where
  "dict_append k v d = dict_set k ((case dict_get d k of None \<Rightarrow> [] | Some vs \<Rightarrow> vs) @ [v]) d"

fun group_pairs :: "('k, 'v list) dict \<Rightarrow> ('k \<times> 'v) list \<Rightarrow> ('k, 'v list) dict" where
  "group_pairs d [] = d"
| "group_pairs d ((k, v) # kvs) = group_pairs (dict_append k v d) kvs"

text \<open>
  The loop ``skip an entry whose key was seen, else remember the key and keep the entry'',
  with the keys seen before the loop as its first argument.
\<close>

fun keep_first :: "('a \<Rightarrow> 'k) \<Rightarrow> 'k set \<Rightarrow> 'a list \<Rightarrow> 'a list" where
  "keep_first f seen [] = []"
| "keep_first f seen (x # xs) =
     (if f x \<in> seen then keep_first f seen xs else x # keep_first f (insert (f x) seen) xs)"

subsection \<open>Dictionaries\<close>

lemma distinct_dict_store [simp]:
  "distinct (dict_keys d) \<Longrightarrow> distinct (dict_keys (dict_store d kvs))"
  by (induction d kvs rule: dict_store.induct) (auto simp: distinct_update)

lemma map_of_dict_store [dict_simps]: "map_of (dict_store d kvs) = map_of d ++ map_of (rev kvs)"
proof (induction d kvs rule: dict_store.induct)
  case (2 d k v kvs)
  then show ?case by (auto simp: update_conv' fun_eq_iff map_add_def split: option.splits)
qed simp

lemma keys_dict_store [dict_simps]: "set (dict_keys (dict_store d kvs)) = set (dict_keys d) \<union> fst ` set kvs"
  by (induction d kvs rule: dict_store.induct) (auto simp: dom_update)

lemma update_new: "k \<notin> set (dict_keys d) \<Longrightarrow> dict_set k v d = d @ [(k, v)]"
  by (induction d) auto

lemma dict_store_fresh:
  "distinct (dict_keys d @ map fst kvs) \<Longrightarrow> dict_store d kvs = d @ kvs"
  by (induction d kvs rule: dict_store.induct) (auto simp: update_new)

lemma dict_of_distinct [simp]: "distinct (map fst kvs) \<Longrightarrow> dict_of kvs = kvs"
  using dict_store_fresh [of "[]" kvs] by simp

subsection \<open>Keeping the first entry of a key\<close>

lemma keep_first_subseq: "subseq (keep_first f S xs) xs"
  by (induction f S xs rule: keep_first.induct) auto

lemma set_keep_first: "set (keep_first f S xs) \<subseteq> set xs"
  by (induction f S xs rule: keep_first.induct) auto

lemma keep_first_keys: "f ` set (keep_first f S xs) = f ` set xs - S"
  by (induction f S xs rule: keep_first.induct) auto

lemma distinct_keep_first [simp]: "distinct (map f (keep_first f S xs))"
proof (induction f S xs rule: keep_first.induct)
  case (2 f S x xs)
  then show ?case using keep_first_keys [of f "insert (f x) S" xs] by (auto simp flip: set_map)
qed simp

lemma keep_first_id: "distinct (map f xs) \<Longrightarrow> f ` set xs \<inter> S = {} \<Longrightarrow> keep_first f S xs = xs"
  by (induction f S xs rule: keep_first.induct) auto

lemma sorted_keep_first: "sorted (map g xs) \<Longrightarrow> sorted (map g (keep_first f S xs))"
proof (induction f S xs rule: keep_first.induct)
  case (2 f S x xs)
  then show ?case using set_keep_first [of f "insert (f x) S" xs] by auto
qed simp

text \<open>The entry kept for a key is the first one of the list that carries it.\<close>

lemma keep_first_find:
  "k \<notin> S \<Longrightarrow> find (\<lambda>x. f x = k) (keep_first f S xs) = find (\<lambda>x. f x = k) xs"
  by (induction f S xs rule: keep_first.induct) auto

subsection \<open>Grouping\<close>

lemma dict_append_keys [dict_simps]:
  "set (dict_keys (dict_append k v d)) = insert k (set (dict_keys d))"
  by (auto simp: dict_append_def dom_update)

lemma dict_append_get:
  "dict_get (dict_append k v d) j =
     (if j = k then Some ((case dict_get d k of None \<Rightarrow> [] | Some vs \<Rightarrow> vs) @ [v]) else dict_get d j)"
  by (auto simp: dict_append_def update_conv')

lemma distinct_dict_append [simp]:
  "distinct (dict_keys d) \<Longrightarrow> distinct (dict_keys (dict_append k v d))"
  by (simp add: dict_append_def distinct_update)

lemma distinct_group_pairs [simp]:
  "distinct (dict_keys d) \<Longrightarrow> distinct (dict_keys (group_pairs d kvs))"
  by (induction d kvs rule: group_pairs.induct) auto

lemma group_pairs_keys [dict_simps]:
  "set (dict_keys (group_pairs d kvs)) = set (dict_keys d) \<union> fst ` set kvs"
proof (induction d kvs rule: group_pairs.induct)
  case (2 d k v kvs)
  then show ?case using dict_append_keys [of k v d] by simp
qed simp

text \<open>A group holds, in order, exactly the values paired with its key.\<close>

lemma group_pairs_get:
  "dict_get (group_pairs d kvs) k =
     (let new = map snd (filter (\<lambda>p. fst p = k) kvs) in
      case dict_get d k of None \<Rightarrow> if new = [] then None else Some new | Some vs \<Rightarrow> Some (vs @ new))"
proof (induction d kvs rule: group_pairs.induct)
  case (2 d k' v kvs)
  then show ?case by (auto simp: dict_append_get Let_def split: option.splits)
qed (simp split: option.splits)

lemma group_pairs_nonempty:
  assumes "(k, vs) \<in> set (group_pairs [] kvs)" shows "vs \<noteq> []" and "set vs \<subseteq> snd ` set kvs"
proof -
  have "dict_get (group_pairs [] kvs) k = Some vs"
    using assms by (intro map_of_is_SomeI) auto
  then show "vs \<noteq> []" "set vs \<subseteq> snd ` set kvs"
    by (auto simp: group_pairs_get Let_def split: if_splits)
qed

subsection \<open>Stable sorting by a key\<close>

lemma sort_key_perm:
  assumes "mset xs = mset ys" and "inj_on f (set xs)"
  shows "sort_key f xs = sort_key f ys"
  using assms by (intro sort_key_inj_key_eq) auto

lemma sort_key_sorted_id: "sorted (map f xs) \<Longrightarrow> sort_key f xs = xs"
  by (induction xs) (auto simp: insort_is_Cons)

lemma sort_key_filter: "filter P (sort_key f xs) = sort_key f (filter P xs)"
  by (rule filter_sort)

lemma sort_key_map: "sort_key f (map g xs) = map g (sort_key (f \<circ> g) xs)"
proof (induction xs)
  case (Cons x xs)
  have "insort_key f (g x) (map g ys) = map g (insort_key (f \<circ> g) x ys)" for ys
    by (induction ys) auto
  with Cons show ?case by (simp add: comp_def)
qed simp

lemma sort_key_cong_key:
  "(\<And>x. x \<in> set xs \<Longrightarrow> f x = g x) \<Longrightarrow> sort_key f xs = sort_key g xs"
proof (induction xs)
  case (Cons x xs)
  have "set ys \<subseteq> set (x # xs) \<Longrightarrow> insort_key f x ys = insort_key g x ys" for ys
    using Cons.prems by (induction ys) auto
  then have "insort_key f x (sort_key g xs) = insort_key g x (sort_key g xs)" by (simp add: subset_insertI)
  with Cons show ?case by simp
qed simp

text \<open>
  The interface of a canonical order: a sort key that determines the identity of an entry. A
  list whose identities are distinct is then sorted the same way whatever order it arrived in,
  which is what lets every reader of the same ledger compute the same result.
\<close>

locale canonical_order =
  fixes key :: "'e \<Rightarrow> 'k :: linorder" and ident :: "'e \<Rightarrow> 'i"
  assumes key_ident: "key a = key b \<Longrightarrow> ident a = ident b"
begin

lemma inj_on_key: "distinct (map ident xs) \<Longrightarrow> inj_on key (set xs)"
  by (auto intro!: inj_onI dest!: key_ident simp: distinct_map dest: inj_onD)

lemma order_free:
  assumes "mset xs = mset ys" "distinct (map ident xs)"
  shows "sort_key key xs = sort_key key ys"
  using assms by (intro sort_key_perm inj_on_key)

lemma order_free_filter:
  assumes "mset xs = mset ys" "distinct (map ident xs)"
  shows "sort_key key (filter P xs) = sort_key key (filter P ys)"
  using order_free [OF assms] by (metis sort_key_filter)

end

lemma distinct_map_perm: "mset xs = mset ys \<Longrightarrow> distinct (map f xs) \<longleftrightarrow> distinct (map f ys)"
  by (metis mset_eq_imp_distinct_iff mset_map)

lemma find_perm:
  assumes "mset xs = mset ys" "distinct (map f xs)" "\<And>x y. P x \<Longrightarrow> P y \<Longrightarrow> f x = f y"
  shows "find P xs = find P ys"
proof -
  have uniq: "x = y" if "x \<in> set xs" "y \<in> set xs" "P x" "P y" for x y
    using that assms(2,3) by (auto simp: distinct_map dest: inj_onD)
  have set_eq: "set xs = set ys" using assms(1) by (rule mset_eq_setD)
  show ?thesis
  proof (cases "find P xs")
    case None
    then show ?thesis using set_eq by (metis find_None_iff)
  next
    case (Some x)
    then have x: "x \<in> set xs" "P x" by (auto simp: find_Some_iff)
    then obtain y where y: "find P ys = Some y" using set_eq by (metis find_None_iff not_None_eq)
    then have "y \<in> set xs" "P y" using set_eq by (auto simp: find_Some_iff)
    with x y Some uniq show ?thesis by auto
  qed
qed

lemma list_ex_perm: "mset xs = mset ys \<Longrightarrow> list_ex P xs = list_ex P ys"
  by (metis list_ex_iff mset_eq_setD)

subsection \<open>Sequencing computations that raise\<close>

text \<open>\<open>and_then\<close> runs the rest of a body unless an exception was raised, \<open>collect\<close> is a comprehension
  whose element expression may raise (the first exception wins), and \<open>require\<close> is the guard
  \<^verbatim>\<open>if not ok: raise ValueError(message)\<close>.\<close>

fun and_then :: "'e + 'a \<Rightarrow> ('a \<Rightarrow> 'e + 'b) \<Rightarrow> 'e + 'b" where
  "and_then (Inl err) f = Inl err"
| "and_then (Inr x) f = f x"

fun collect :: "('a \<Rightarrow> 'e + 'b) \<Rightarrow> 'a list \<Rightarrow> 'e + 'b list" where
  "collect f [] = Inr []"
| "collect f (x # xs) = and_then (f x) (\<lambda>y. and_then (collect f xs) (\<lambda>ys. Inr (y # ys)))"

definition require :: "bool \<Rightarrow> string \<Rightarrow> py_error + unit" where
  "require ok message = (if ok then Inr () else Inl (ValueError message))"

lemma and_then_Inr: "and_then r f = Inr y \<longleftrightarrow> (\<exists>x. r = Inr x \<and> f x = Inr y)"
  by (cases r) auto

lemma and_then_Inl: "and_then r f = Inl err \<longleftrightarrow> r = Inl err \<or> (\<exists>x. r = Inr x \<and> f x = Inl err)"
  by (cases r) auto

lemma require_Inr [simp]: "require ok message = Inr u \<longleftrightarrow> ok"
  by (cases u) (simp add: require_def)

lemma require_Inl [simp]: "require ok message = Inl err \<longleftrightarrow> \<not> ok \<and> err = ValueError message"
  by (auto simp: require_def)

lemma require_True [simp]: "require True message = Inr ()"
  by (simp add: require_def)

lemma collect_Inr: "collect f xs = Inr ys \<longleftrightarrow> list_all2 (\<lambda>x y. f x = Inr y) xs ys"
  by (induction xs arbitrary: ys) (auto simp: and_then_Inr list_all2_Cons1)

lemma collect_total: "(\<And>x. x \<in> set xs \<Longrightarrow> f x = Inr (g x)) \<Longrightarrow> collect f xs = Inr (map g xs)"
  by (induction xs) auto

end
