(* ===== verification/Binary64.thy ===== *)
theory Binary64
  imports Prelude "HOL-Library.Log_Nat"
begin

section \<open>Python floats: IEEE 754 binary64 on rationals\<close>

text \<open>
  The scoring folds are float arithmetic whose results must agree bit for bit on every
  validator, so floats are not idealised to reals here. A float is a finite rational, an
  infinity or a NaN; every operation computes the exact rational result and rounds it
  to the nearest binary64 value, ties to even (\<open>rnd64\<close>), which is what IEEE 754 prescribes
  for \<open>+\<close>, \<open>-\<close>, \<open>*\<close>, \<open>/\<close> and \<open>sqrt\<close> and what CPython does
  for a true division of two ints and for \<^verbatim>\<open>math.fsum\<close>. The sign of a zero is not
  represented: \<open>-0.0 == 0.0\<close>, and the modelled code never prints a float, divides by one
  or reads its sign bit. \<^verbatim>\<open>math.exp\<close> and the \<^verbatim>\<open>**\<close> operator call the C
  library, whose results IEEE 754 does not fix; they are the parameter \<open>libm\<close> of the
  definitions that use them.

  The interface \<open>rounding\<close> states what proofs need of a rounding (monotone, exact on the
  representable numbers, closed); \<open>rnd64\<close> implements it, and the lemmas on float operations
  rest on the interface.
\<close>

named_theorems float_simps "evaluation of float operations on finite values"

datatype pyfloat = Fin rat | PInf | NInf | NaN

subsection \<open>Rounding\<close>

text \<open>Round half to even, the binary exponent of a positive rational, and the spacing of
  binary64 numbers at a rational (subnormal below \<open>2 powi (-1022)\<close>).\<close>

definition rne :: "rat \<Rightarrow> int" where
  "rne x = (let f = \<lfloor>x\<rfloor>; r = x - of_int f in
     if r < 1 / 2 then f else if r > 1 / 2 then f + 1 else if even f then f else f + 1)"

definition expo :: "rat \<Rightarrow> int" where
  "expo q = (case quotient_of q of (n, d) \<Rightarrow>
     let k = bitlen n - bitlen d in if 2 powi k \<le> q then k else k - 1)"

definition ulp :: "rat \<Rightarrow> rat" where
  "ulp q = 2 powi (max (expo q) (-1022) - 52)"

definition grid :: "rat \<Rightarrow> rat" where
  "grid q = (if q = 0 then 0 else of_int (rne (q / ulp q)) * ulp q)"

definition max64 :: rat where
  "max64 = 2 ^ 1024"

definition rnd_pos :: "rat \<Rightarrow> pyfloat" where
  "rnd_pos q = (let v = grid q in if v < max64 then Fin v else PInf)"

fun fneg :: "pyfloat \<Rightarrow> pyfloat" where
  "fneg (Fin q) = Fin (- q)"
| "fneg PInf = NInf"
| "fneg NInf = PInf"
| "fneg NaN = NaN"

definition rnd64 :: "rat \<Rightarrow> pyfloat" where
  "rnd64 q = (if q < 0 then fneg (rnd_pos (- q)) else rnd_pos q)"

definition is64 :: "rat \<Rightarrow> bool" where
  "is64 q \<longleftrightarrow> rnd64 q = Fin q"

subsection \<open>Order and comparisons\<close>

text \<open>
  Sort keys are compared in the order of the extended number line. A NaN is placed last, which
  only matters for totality: no sort key of the modelled code is a NaN. The program's own
  comparisons are the IEEE ones, false whenever an operand is a NaN.
\<close>

fun rank_of :: "pyfloat \<Rightarrow> nat \<times> rat" where
  "rank_of NInf = (0, 0)"
| "rank_of (Fin q) = (1, q)"
| "rank_of PInf = (2, 0)"
| "rank_of NaN = (3, 0)"

instantiation pyfloat :: linorder
begin

definition less_eq_pyfloat :: "pyfloat \<Rightarrow> pyfloat \<Rightarrow> bool" where
  "x \<le> y \<longleftrightarrow> rank_of x \<le> rank_of y"

definition less_pyfloat :: "pyfloat \<Rightarrow> pyfloat \<Rightarrow> bool" where
  "x < y \<longleftrightarrow> rank_of x < rank_of y"

lemma rank_of_inject: "rank_of x = rank_of y \<Longrightarrow> x = y"
  by (cases x; cases y) auto

instance
  by standard (auto simp: less_eq_pyfloat_def less_pyfloat_def intro: rank_of_inject)

end

definition flt :: "pyfloat \<Rightarrow> pyfloat \<Rightarrow> bool" where
  "flt x y \<longleftrightarrow> x \<noteq> NaN \<and> y \<noteq> NaN \<and> x < y"

definition fle :: "pyfloat \<Rightarrow> pyfloat \<Rightarrow> bool" where
  "fle x y \<longleftrightarrow> x \<noteq> NaN \<and> y \<noteq> NaN \<and> x \<le> y"

definition feq :: "pyfloat \<Rightarrow> pyfloat \<Rightarrow> bool" where
  "feq x y \<longleftrightarrow> x \<noteq> NaN \<and> x = y"

definition isfinite :: "pyfloat \<Rightarrow> bool" where
  "isfinite x \<longleftrightarrow> (case x of Fin _ \<Rightarrow> True | _ \<Rightarrow> False)"

text \<open>\<^verbatim>\<open>max(a, b)\<close> and \<^verbatim>\<open>min(a, b)\<close> keep the first argument unless the second
  compares strictly larger, respectively smaller.\<close>

definition pmax :: "pyfloat \<Rightarrow> pyfloat \<Rightarrow> pyfloat" where
  "pmax a b = (if flt a b then b else a)"

definition pmin :: "pyfloat \<Rightarrow> pyfloat \<Rightarrow> pyfloat" where
  "pmin a b = (if flt b a then b else a)"

subsection \<open>Arithmetic\<close>

fun fadd :: "pyfloat \<Rightarrow> pyfloat \<Rightarrow> pyfloat" where
  "fadd (Fin a) (Fin b) = rnd64 (a + b)"
| "fadd NaN _ = NaN"
| "fadd _ NaN = NaN"
| "fadd PInf NInf = NaN"
| "fadd NInf PInf = NaN"
| "fadd PInf _ = PInf"
| "fadd _ PInf = PInf"
| "fadd NInf _ = NInf"
| "fadd _ NInf = NInf"

definition fsub :: "pyfloat \<Rightarrow> pyfloat \<Rightarrow> pyfloat" where
  "fsub x y = fadd x (fneg y)"

definition signed_inf :: "rat \<Rightarrow> pyfloat" where
  "signed_inf s = (if s > 0 then PInf else if s < 0 then NInf else NaN)"

fun sign_of :: "pyfloat \<Rightarrow> rat" where
  "sign_of (Fin q) = sgn q"
| "sign_of PInf = 1"
| "sign_of NInf = -1"
| "sign_of NaN = 0"

definition fmul :: "pyfloat \<Rightarrow> pyfloat \<Rightarrow> pyfloat" where
  "fmul x y = (case (x, y) of
     (Fin a, Fin b) \<Rightarrow> rnd64 (a * b)
   | (NaN, _) \<Rightarrow> NaN
   | (_, NaN) \<Rightarrow> NaN
   | _ \<Rightarrow> signed_inf (sign_of x * sign_of y))"

text \<open>Python raises \<^verbatim>\<open>ZeroDivisionError\<close> on a zero divisor; every division of the model
  is guarded by its caller, and the unreachable value is NaN.\<close>

definition fdiv :: "pyfloat \<Rightarrow> pyfloat \<Rightarrow> pyfloat" where
  "fdiv x y = (case (x, y) of
     (Fin a, Fin b) \<Rightarrow> if b = 0 then NaN else rnd64 (a / b)
   | (Fin a, PInf) \<Rightarrow> Fin 0
   | (Fin a, NInf) \<Rightarrow> Fin 0
   | (PInf, Fin b) \<Rightarrow> if b = 0 then NaN else signed_inf (sgn b)
   | (NInf, Fin b) \<Rightarrow> if b = 0 then NaN else signed_inf (- sgn b)
   | _ \<Rightarrow> NaN)"

definition fabs :: "pyfloat \<Rightarrow> pyfloat" where
  "fabs x = (case x of Fin q \<Rightarrow> Fin \<bar>q\<bar> | NInf \<Rightarrow> PInf | _ \<Rightarrow> x)"

text \<open>\<^verbatim>\<open>float(n)\<close> and the true division of two ints.\<close>

definition fint :: "int \<Rightarrow> pyfloat" where
  "fint n = rnd64 (of_int n)"

definition itruediv :: "int \<Rightarrow> int \<Rightarrow> pyfloat" where
  "itruediv a b = rnd64 (of_int a / of_int b)"

text \<open>
  \<^verbatim>\<open>math.sqrt\<close> on a non-negative float is correctly rounded. With the exponent of the
  root's unit fixed (\<open>expo q div 2 - 52\<close>), the root is the integer square root of the scaled
  argument, rounded half to even. A negative argument raises \<^verbatim>\<open>ValueError\<close> in Python; the
  model's value there is NaN and no caller reaches it.
\<close>

fun isqrt_between :: "nat \<Rightarrow> nat \<Rightarrow> nat \<Rightarrow> nat \<Rightarrow> nat" where
  "isqrt_between 0 n lo hi = lo"
| "isqrt_between (Suc k) n lo hi =
     (let m = (lo + hi) div 2 in
      if m * m \<le> n then isqrt_between k n m hi else isqrt_between k n lo m)"

definition isqrt :: "nat \<Rightarrow> nat" where
  "isqrt n = isqrt_between (nat (bitlen (int n)) + 1) n 0 (Suc n)"

definition rne_sqrt :: "rat \<Rightarrow> nat" where
  "rne_sqrt s = (let f = isqrt (nat \<lfloor>s\<rfloor>); h = (of_nat f + 1 / 2)\<^sup>2 in
     if s < h then f else if s > h then f + 1 else if even f then f else f + 1)"

definition fsqrt :: "pyfloat \<Rightarrow> pyfloat" where
  "fsqrt x = (case x of
     Fin q \<Rightarrow> if q < 0 then NaN else if q = 0 then Fin 0
       else let u = 2 powi (expo q div 2 - 52) in Fin (of_nat (rne_sqrt (q / u\<^sup>2)) * u)
   | PInf \<Rightarrow> PInf | _ \<Rightarrow> NaN)"

subsection \<open>Sums\<close>

text \<open>
  \<^verbatim>\<open>math.fsum\<close> returns the correctly rounded sum of finite floats. The built-in
  \<^verbatim>\<open>sum\<close> of floats (CPython 3.12 and later) is the compensated summation of Neumaier: a
  running sum and a running correction, added at the end when the correction is finite and
  not zero. The sum of no floats is the int 0.
\<close>

definition fin_val :: "pyfloat \<Rightarrow> rat" where
  "fin_val x = (case x of Fin q \<Rightarrow> q | _ \<Rightarrow> 0)"

definition fsum :: "pyfloat list \<Rightarrow> pyfloat" where
  "fsum xs = (if list_all isfinite xs then rnd64 (sum_list (map fin_val xs)) else foldl fadd (Fin 0) xs)"

fun sum_loop :: "pyfloat \<Rightarrow> pyfloat \<Rightarrow> pyfloat list \<Rightarrow> pyfloat" where
  "sum_loop s c [] = (if c \<noteq> Fin 0 \<and> isfinite c then fadd s c else s)"
| "sum_loop s c (x # xs) =
     (let t = fadd s x;
          e = (if fle (fabs x) (fabs s) then fadd (fsub s t) x else fadd (fsub x t) s)
      in sum_loop t (fadd c e) xs)"

fun py_sum :: "pyfloat list \<Rightarrow> pyfloat" where
  "py_sum [] = Fin 0"
| "py_sum (x # xs) = sum_loop x (Fin 0) xs"

text \<open>The C library functions behind \<^verbatim>\<open>math.exp\<close> and \<^verbatim>\<open>x ** y\<close>.\<close>

record libm =
  lm_exp :: "pyfloat \<Rightarrow> pyfloat"
  lm_pow :: "pyfloat \<Rightarrow> pyfloat \<Rightarrow> pyfloat"

text \<open>What the C standard documents of \<^verbatim>\<open>exp\<close> on the arguments the code passes: a finite,
  representable result between 0 and 1 for an argument that is not positive, 1 at 0 and NaN at NaN.\<close>

definition exp_documented :: "libm \<Rightarrow> bool" where
  "exp_documented M \<longleftrightarrow> lm_exp M (Fin 0) = Fin 1 \<and> lm_exp M NaN = NaN \<and>
     (\<forall>q. q \<le> 0 \<longrightarrow> (\<exists>r. lm_exp M (Fin q) = Fin r \<and> 0 \<le> r \<and> r \<le> 1 \<and> is64 r))"

subsection \<open>Facts about the rounding\<close>

lemma rne_of_int [simp]: "rne (of_int n) = n"
  by (simp add: rne_def)

lemma rne_floor: "rne x = \<lfloor>x\<rfloor> \<or> rne x = \<lfloor>x\<rfloor> + 1"
  by (simp add: rne_def Let_def)

lemma rne_mono:
  assumes "x \<le> y" shows "rne x \<le> rne y"
proof (cases "\<lfloor>x\<rfloor> = \<lfloor>y\<rfloor>")
  case True
  with assms show ?thesis by (auto simp: rne_def Let_def)
next
  case False
  with assms have "\<lfloor>x\<rfloor> + 1 \<le> \<lfloor>y\<rfloor>" using floor_mono [OF assms] by linarith
  with rne_floor [of x] rne_floor [of y] show ?thesis by linarith
qed

lemma rne_error: "\<bar>of_int (rne x) - x\<bar> \<le> 1 / 2"
  by (auto simp: rne_def Let_def abs_if) (linarith+)

lemma expo_bounds:
  assumes "0 < q" shows "2 powi (expo q) \<le> q" and "q < 2 powi (expo q + 1)"
proof -
  obtain n d where nd: "quotient_of q = (n, d)" by force
  have d: "0 < d" using quotient_of_denom_pos [OF nd] .
  have q: "q = of_int n / of_int d" using quotient_of_div [OF nd] .
  with assms d have n: "0 < n" by (simp add: zero_less_divide_iff)
  define a b where "a = bitlen n" and "b = bitlen d"
  have ab: "a \<ge> 1" "b \<ge> 1"
    using n d bitlen_bounds [OF n] bitlen_bounds [OF d] bitlen_nonneg[of n] bitlen_nonneg[of d]
    by (auto simp: a_def b_def) (metis bitlen_eq_zero_iff dual_order.irrefl int_one_le_iff_zero_less less_le not_less)+
  have pw: "(2::rat) powi k = of_int (2 ^ nat k)" if "k \<ge> 0" for k
    using that by (simp add: power_int_def)
  have n1: "2 powi (a - 1) \<le> (of_int n :: rat)" and n2: "(of_int n :: rat) < 2 powi a"
    using bitlen_bounds [OF n] ab by (simp_all add: pw a_def flip: of_int_power of_int_le_iff of_int_less_iff del: of_int_power)
  have d1: "2 powi (b - 1) \<le> (of_int d :: rat)" and d2: "(of_int d :: rat) < 2 powi b"
    using bitlen_bounds [OF d] ab by (simp_all add: pw b_def flip: of_int_power of_int_le_iff of_int_less_iff del: of_int_power)
  have lo: "2 powi (a - b - 1) \<le> q"
  proof -
    have "2 powi (a - b - 1) = (2::rat) powi (a - 1) / 2 powi b"
      by (simp add: algebra_simps flip: power_int_diff)
    also have "\<dots> \<le> of_int n / of_int d"
      using n1 d2 d n by (intro frac_le) auto
    finally show ?thesis using q by simp
  qed
  have hi: "q < 2 powi (a - b + 1)"
  proof -
    have "q \<le> of_int n / 2 powi (b - 1)"
      using d1 d n q by (auto intro!: divide_left_mono)
    also have "\<dots> < 2 powi a / 2 powi (b - 1)"
      using n2 by (intro divide_strict_right_mono) auto
    also have "\<dots> = 2 powi (a - b + 1)"
      by (simp add: algebra_simps flip: power_int_diff)
    finally show ?thesis .
  qed
  show "2 powi (expo q) \<le> q" "q < 2 powi (expo q + 1)"
    using lo hi by (auto simp: expo_def nd Let_def a_def b_def algebra_simps)
qed

lemma ulp_pos [simp]: "0 < ulp q"
  by (simp add: ulp_def)

lemma ulp_nonneg [simp]: "0 \<le> ulp q"
  by (simp add: less_imp_le)

lemma expo_unique:
  assumes "2 powi e \<le> q" and "q < 2 powi (e + 1)" shows "expo q = e"
proof -
  have "0 < q" using assms(1) by (rule less_le_trans [rotated]) simp
  note b = expo_bounds [OF this]
  have "\<not> expo q + 1 \<le> e"
    using b(2) assms(1) power_int_increasing [of "expo q + 1" e "2 :: rat"] by linarith
  moreover have "\<not> e + 1 \<le> expo q"
    using b(1) assms(2) power_int_increasing [of "e + 1" "expo q" "2 :: rat"] by linarith
  ultimately show ?thesis by linarith
qed

lemma expo_mono:
  assumes "0 < p" "p \<le> q" shows "expo p \<le> expo q"
proof (rule ccontr)
  assume "\<not> expo p \<le> expo q"
  then have "2 powi (expo q + 1) \<le> (2 :: rat) powi (expo p)"
    by (intro power_int_increasing) auto
  with expo_bounds [of p] expo_bounds [of q] assms show False by linarith
qed

lemma rnd_grid:
  assumes "0 < q" and q: "q = of_int m * 2 powi k" and m: "m \<le> 2 ^ 53" and k: "-1074 \<le> k"
  shows "\<exists>n. q / ulp q = of_int n"
proof -
  define e where "e = max (expo q) (-1022) - 52"
  show ?thesis
  proof (cases "e \<le> k")
    case True
    have "q / ulp q = of_int m * 2 powi (k - e)"
      by (simp add: q ulp_def e_def power_int_diff)
    also have "\<dots> = of_int (m * 2 ^ nat (k - e))"
      using True by (simp add: power_int_def)
    finally show ?thesis by blast
  next
    case False
    then have "k + 53 \<le> expo q" using k by (simp add: e_def)
    then have lo: "2 powi (k + 53) \<le> q"
      using expo_bounds(1) [OF \<open>0 < q\<close>] power_int_increasing [of "k + 53" "expo q" "2 :: rat"] by simp
    have "of_int m * 2 powi k \<le> (2 ^ 53 :: rat) * 2 powi k"
      using m by (intro mult_right_mono) (simp_all flip: of_int_le_iff)
    also have "\<dots> = 2 powi (k + 53)" by (simp add: power_int_add)
    finally have eq: "q = 2 powi (k + 53)" using lo q by simp
    have "expo q = k + 53" unfolding eq by (rule expo_unique) (auto intro: power_int_strict_increasing)
    then have "q / ulp q = of_int (2 ^ 52)"
      using k by (simp add: eq ulp_def power_int_diff power_int_add)
    then show ?thesis by blast
  qed
qed

lemma rnd_pos_grid:
  assumes "0 \<le> q" "q = of_int m * 2 powi k" "m \<le> 2 ^ 53" "-1074 \<le> k" "q < max64"
  shows "rnd_pos q = Fin q"
proof (cases "q = 0")
  case True then show ?thesis by (simp add: rnd_pos_def grid_def max64_def)
next
  case False
  with assms(1) have "0 < q" by simp
  from rnd_grid [OF this assms(2-4)] obtain n where n: "q / ulp q = of_int n" ..
  then have "of_int n * ulp q = q" by (metis less_irrefl nonzero_eq_divide_eq ulp_pos)
  with False assms(5) n show ?thesis by (simp add: rnd_pos_def grid_def)
qed

lemma ratio_bounds:
  assumes "0 < q" shows "q / ulp q < 2 ^ 53" "expo q \<ge> -1022 \<Longrightarrow> 2 ^ 52 \<le> q / ulp q"
proof -
  have "q < 2 powi (max (expo q) (-1022) + 1)"
    using expo_bounds(2) [OF assms] power_int_increasing [of "expo q + 1" "max (expo q) (-1022) + 1" "2::rat"] by simp
  also have "\<dots> = 2 ^ 53 * ulp q"
    by (simp add: ulp_def power_int_add power_int_diff)
  finally show "q / ulp q < 2 ^ 53" by (simp add: pos_divide_less_eq)
next
  assume "expo q \<ge> -1022"
  then have "ulp q * 2 ^ 52 = 2 powi (expo q)" by (simp add: ulp_def max_absorb1 power_int_diff)
  then have "2 ^ 52 * ulp q \<le> q" using expo_bounds(1) [OF assms] by (simp add: mult.commute)
  then show "2 ^ 52 \<le> q / ulp q" by (simp add: pos_le_divide_eq)
qed

lemma rne_ratio:
  assumes "0 < q" shows "0 \<le> rne (q / ulp q)" "rne (q / ulp q) \<le> 2 ^ 53"
    "expo q \<ge> -1022 \<Longrightarrow> 2 ^ 52 \<le> rne (q / ulp q)"
proof -
  have "rne (of_int 0) \<le> rne (q / ulp q)" by (rule rne_mono) (use assms in \<open>simp add: less_imp_le\<close>)
  then show "0 \<le> rne (q / ulp q)" by (simp only: rne_of_int)
  have "rne (q / ulp q) \<le> rne (of_int (2 ^ 53))"
    by (rule rne_mono) (use ratio_bounds(1) [OF assms] in simp)
  then show "rne (q / ulp q) \<le> 2 ^ 53" by (simp only: rne_of_int)
  assume "expo q \<ge> -1022"
  then have "rne (of_int (2 ^ 52)) \<le> rne (q / ulp q)"
    using ratio_bounds(2) [OF assms] by (intro rne_mono) simp
  then show "2 ^ 52 \<le> rne (q / ulp q)" by (simp only: rne_of_int)
qed


lemma grid_mono:
  assumes "0 \<le> p" "p \<le> q" shows "grid p \<le> grid q"
proof (cases "p = 0")
  case True
  with assms show ?thesis using rne_ratio(1) [of q] by (cases "q = 0") (simp_all add: grid_def)
next
  case False
  with assms have pos: "0 < p" "0 < q" by auto
  have le: "expo p \<le> expo q" using pos assms by (intro expo_mono) auto
  show ?thesis
  proof (cases "ulp p = ulp q")
    case True
    then show ?thesis using pos assms
      by (auto simp: grid_def intro!: mult_right_mono rne_mono divide_right_mono ulp_nonneg)
  next
    case False
    then have "expo p \<noteq> expo q" by (auto simp: ulp_def)
    moreover have "\<not> (expo p \<le> -1022 \<and> expo q \<le> -1022)" using False by (auto simp: ulp_def max_def)
    ultimately have lt: "expo p < expo q" "-1022 < expo q" using le by auto
    have "2 * ulp p \<le> ulp q"
    proof -
      have "2 * ulp p = 2 powi (max (expo p) (-1022) - 52 + 1)"
        unfolding ulp_def by (subst power_int_add_1') simp_all
      also have "\<dots> \<le> ulp q" unfolding ulp_def using lt by (intro power_int_increasing) auto
      finally show ?thesis .
    qed
    have "grid p \<le> 2 ^ 53 * ulp p"
      using rne_ratio(2) [OF pos(1)] pos by (auto simp: grid_def intro!: mult_right_mono ulp_nonneg simp flip: of_int_le_iff)
    also have "\<dots> \<le> 2 ^ 52 * ulp q" using \<open>2 * ulp p \<le> ulp q\<close> by simp
    also have "\<dots> \<le> grid q"
      using rne_ratio(3) [OF pos(2)] lt pos by (auto simp: grid_def intro!: mult_right_mono ulp_nonneg simp flip: of_int_le_iff)
    finally show ?thesis .
  qed
qed

lemma grid_nonneg: "0 \<le> q \<Longrightarrow> 0 \<le> grid q"
  using grid_mono [of 0 q] by (simp add: grid_def)

lemma rnd_pos_idem:
  assumes "0 \<le> q" "rnd_pos q = Fin v" shows "rnd_pos v = Fin v"
proof (cases "q = 0")
  case True with assms show ?thesis by (simp add: rnd_pos_def grid_def max64_def)
next
  case False
  with assms(1) have pos: "0 < q" by simp
  have v: "v = grid q" "v < max64" using assms(2) by (simp_all add: rnd_pos_def Let_def split: if_splits)
  show ?thesis
  proof (rule rnd_pos_grid)
    show "0 \<le> v" using v grid_nonneg assms by simp
    show "v = of_int (rne (q / ulp q)) * 2 powi (max (expo q) (-1022) - 52)"
      using v False by (simp add: grid_def ulp_def)
    show "rne (q / ulp q) \<le> 2 ^ 53" by (rule rne_ratio(2) [OF pos])
  qed (use v in auto)
qed

text \<open>The order on floats, unfolded.\<close>

lemma pyfloat_le_simps [simp]:
  "Fin a \<le> Fin b \<longleftrightarrow> a \<le> b" "NInf \<le> x" "Fin a \<le> PInf" "\<not> PInf \<le> Fin a" "\<not> Fin a \<le> NInf"
  "\<not> NaN \<le> Fin a" "Fin a \<le> NaN" "PInf \<le> NaN" "\<not> PInf \<le> NInf" "\<not> NaN \<le> PInf" "\<not> NaN \<le> NInf"
  by (cases x; simp add: less_eq_pyfloat_def less_eq_prod_def)+

lemma pyfloat_less_simps [simp]:
  "Fin a < Fin b \<longleftrightarrow> a < b" "Fin a < PInf" "NInf < Fin a" "\<not> PInf < Fin a" "\<not> Fin a < NInf"
  "Fin a < NaN" "NInf < PInf" "\<not> PInf < NInf"
  by (simp_all add: less_pyfloat_def less_prod_def)

lemma fneg_mono: "x \<noteq> NaN \<Longrightarrow> y \<noteq> NaN \<Longrightarrow> fneg x \<le> fneg y \<longleftrightarrow> y \<le> x"
  by (cases x; cases y) auto

lemma rnd_pos_mono: "0 \<le> p \<Longrightarrow> p \<le> q \<Longrightarrow> rnd_pos p \<le> rnd_pos q"
  using grid_mono [of p q] by (auto simp: rnd_pos_def Let_def)

lemma rnd_pos_nonneg: "0 \<le> q \<Longrightarrow> Fin 0 \<le> rnd_pos q"
  using grid_nonneg [of q] by (auto simp: rnd_pos_def Let_def)

lemma rnd_pos_cases: obtains v where "rnd_pos q = Fin v" | "rnd_pos q = PInf"
  by (cases "grid q < max64") (auto simp: rnd_pos_def Let_def)

lemma rnd64_not_NaN [simp]: "rnd64 q \<noteq> NaN"
  by (cases rule: rnd_pos_cases [of q]; cases rule: rnd_pos_cases [of "- q"]) (auto simp: rnd64_def)

lemma rnd64_mono: "p \<le> q \<Longrightarrow> rnd64 p \<le> rnd64 q"
proof (cases "0 \<le> p")
  case True
  then show "p \<le> q \<Longrightarrow> ?thesis" by (simp add: rnd64_def rnd_pos_mono)
next
  case False
  assume le: "p \<le> q"
  show ?thesis
  proof (cases "0 \<le> q")
    case True
    have "fneg (rnd_pos (- p)) \<le> Fin 0"
      using rnd_pos_nonneg [of "- p"] False by (cases rule: rnd_pos_cases [of "- p"]) auto
    also have "\<dots> \<le> rnd_pos q" using rnd_pos_nonneg True by simp
    finally show ?thesis using False True by (simp add: rnd64_def)
  next
    case q: False
    have "rnd_pos (- q) \<le> rnd_pos (- p)" using q le by (intro rnd_pos_mono) auto
    then have "fneg (rnd_pos (- p)) \<le> fneg (rnd_pos (- q))"
      by (cases rule: rnd_pos_cases [of "- p"]; cases rule: rnd_pos_cases [of "- q"]) auto
    then show ?thesis using False q by (simp add: rnd64_def)
  qed
qed

lemma rnd64_0 [simp]: "rnd64 0 = Fin 0"
  by (simp add: rnd64_def rnd_pos_def grid_def max64_def)

lemma rnd64_uminus: "rnd64 (- q) = fneg (rnd64 q)"
proof (cases q "0 :: rat" rule: linorder_cases)
  case less
  then show ?thesis by (cases rule: rnd_pos_cases [of "- q"]) (simp_all add: rnd64_def)
next
  case greater
  then show ?thesis by (simp add: rnd64_def)
qed simp

lemma rnd64_Fin_is64: assumes "rnd64 q = Fin v" shows "is64 v"
proof (cases "0 \<le> q")
  case True
  with assms have "rnd_pos q = Fin v" by (simp add: rnd64_def)
  moreover have "0 \<le> v" using rnd_pos_nonneg [OF True] calculation by simp
  ultimately show ?thesis using rnd_pos_idem [OF True] by (simp add: is64_def rnd64_def)
next
  case False
  with assms have v: "rnd_pos (- q) = Fin (- v)"
    by (cases rule: rnd_pos_cases [of "- q"]) (auto simp: rnd64_def)
  have "0 \<le> - v" using rnd_pos_nonneg [of "- q"] False v by simp
  with v have "rnd64 (- v) = Fin (- v)" using rnd_pos_idem [of "- q" "- v"] False by (simp add: rnd64_def)
  then show ?thesis using rnd64_uminus [of "- v"] by (simp add: is64_def)
qed

lemma is64_uminus [simp]: "is64 (- q) \<longleftrightarrow> is64 q"
  using rnd64_uminus [of q] rnd64_uminus [of "- q"] by (auto simp: is64_def)

text \<open>Integers up to \<open>2 ^ 53\<close>, scaled by a power of two, are representable.\<close>

lemma is64_scaled:
  assumes "\<bar>m\<bar> \<le> 2 ^ 53" "-1074 \<le> k" "k \<le> 900"
  shows "is64 (of_int m * 2 powi k)"
proof -
  have *: "is64 (of_int i * 2 powi k)" if "0 \<le> i" "i \<le> 2 ^ 53" for i
  proof -
    have "of_int i * 2 powi k \<le> (2 ^ 53 :: rat) * 2 powi k"
      using that by (intro mult_right_mono) (simp_all flip: of_int_le_iff)
    also have "\<dots> = 2 powi (k + 53)" by (simp add: power_int_add)
    also have "\<dots> < 2 powi 1024" using assms by (intro power_int_strict_increasing) auto
    finally have "of_int i * 2 powi k < max64" by (simp add: max64_def)
    then have "rnd_pos (of_int i * 2 powi k) = Fin (of_int i * 2 powi k)"
      using that assms by (intro rnd_pos_grid [of _ i k]) auto
    moreover have "\<not> of_int i * 2 powi k < (0 :: rat)" using that by (simp add: not_less)
    ultimately show ?thesis by (simp add: is64_def rnd64_def)
  qed
  show ?thesis
  proof (cases "0 \<le> m")
    case False
    then have "is64 (of_int (- m) * 2 powi k)" using assms by (intro *) auto
    then show ?thesis by simp
  qed (use * assms in auto)
qed

lemma is64_of_int: "\<bar>m\<bar> \<le> 2 ^ 53 \<Longrightarrow> is64 (of_int m)"
  using is64_scaled [of m 0] by simp

lemma is64_numerals [simp]: "is64 0" "is64 1" "is64 2" "is64 (1 / 2)"
proof -
  show "is64 0" "is64 1" "is64 2" using is64_of_int [of 0] is64_of_int [of 1] is64_of_int [of 2] by simp_all
  show "is64 (1 / 2)" using is64_scaled [of 1 "-1"] by (simp add: power_int_def)
qed

subsection \<open>The interface of a rounding\<close>

locale rounding =
  fixes rd :: "rat \<Rightarrow> pyfloat" and repr :: "rat \<Rightarrow> bool"
  assumes rd_mono: "p \<le> q \<Longrightarrow> rd p \<le> rd q"
    and rd_repr: "repr q \<Longrightarrow> rd q = Fin q"
    and rd_Fin: "rd q = Fin v \<Longrightarrow> repr v"
begin

lemma rd_le: "p \<le> c \<Longrightarrow> repr c \<Longrightarrow> rd p \<le> Fin c"
  using rd_mono [of p c] by (simp add: rd_repr)

lemma rd_ge: "c \<le> p \<Longrightarrow> repr c \<Longrightarrow> Fin c \<le> rd p"
  using rd_mono [of c p] by (simp add: rd_repr)

lemma rd_between:
  assumes "repr a" "repr b" "a \<le> p" "p \<le> b"
  obtains v where "rd p = Fin v" "a \<le> v" "v \<le> b" "repr v"
proof -
  have "Fin a \<le> rd p" "rd p \<le> Fin b" using assms rd_ge rd_le by auto
  then obtain v where "rd p = Fin v" "a \<le> v" "v \<le> b" by (cases "rd p") auto
  then show ?thesis using that rd_Fin by blast
qed

lemma rd_strict: "rd p < rd q \<Longrightarrow> p < q"
  using rd_mono [of q p] by (auto simp: not_le [symmetric])

end

interpretation b64: rounding rnd64 is64
  by unfold_locales (simp add: rnd64_mono, simp add: is64_def, rule rnd64_Fin_is64)

subsection \<open>Comparisons and arithmetic on finite values\<close>

lemma cmp_Fin [simp, float_simps]:
  "flt (Fin a) (Fin b) \<longleftrightarrow> a < b" "fle (Fin a) (Fin b) \<longleftrightarrow> a \<le> b" "feq (Fin a) (Fin b) \<longleftrightarrow> a = b"
  by (simp_all add: flt_def fle_def feq_def)

lemma cmp_NaN [simp]: "\<not> flt NaN x" "\<not> flt x NaN" "\<not> fle NaN x" "\<not> fle x NaN" "\<not> feq NaN x" "\<not> feq x NaN"
  by (auto simp: flt_def fle_def feq_def)

lemma isfinite_simps [simp, float_simps]:
  "isfinite (Fin q)" "\<not> isfinite PInf" "\<not> isfinite NInf" "\<not> isfinite NaN"
  by (simp_all add: isfinite_def)

lemma isfinite_iff: "isfinite x \<longleftrightarrow> (\<exists>q. x = Fin q)"
  by (cases x) auto

lemma arith_Fin [float_simps]:
  "fsub (Fin a) (Fin b) = rnd64 (a - b)" "fmul (Fin a) (Fin b) = rnd64 (a * b)"
  "b \<noteq> 0 \<Longrightarrow> fdiv (Fin a) (Fin b) = rnd64 (a / b)" "fabs (Fin a) = Fin \<bar>a\<bar>"
  by (simp_all add: fsub_def fmul_def fdiv_def fabs_def)

lemma flt_irrefl [simp]: "\<not> flt x x"
  by (simp add: flt_def)

lemma flt_trans: "flt x y \<Longrightarrow> flt y z \<Longrightarrow> flt x z"
  by (auto simp: flt_def)

lemma flt_not_fle: "flt x y \<Longrightarrow> \<not> fle y x"
  by (auto simp: flt_def fle_def)

lemma fle_flt_trans: "fle x y \<Longrightarrow> flt y z \<Longrightarrow> flt x z"
  by (auto simp: flt_def fle_def)

lemma fle_trans: "fle x y \<Longrightarrow> fle y z \<Longrightarrow> fle x z"
  by (auto simp: fle_def)

subsection \<open>Floats of the unit interval\<close>

text \<open>Scores live in \<open>[0, 1]\<close>; the operations of the score transforms stay there.\<close>

definition unit64 :: "pyfloat \<Rightarrow> bool" where
  "unit64 x \<longleftrightarrow> (\<exists>q. x = Fin q \<and> 0 \<le> q \<and> q \<le> 1 \<and> is64 q)"

lemma unit64E: assumes "unit64 x" obtains q where "x = Fin q" "0 \<le> q" "q \<le> 1" "is64 q"
  using assms by (auto simp: unit64_def)

lemma unit64I: "0 \<le> q \<Longrightarrow> q \<le> 1 \<Longrightarrow> is64 q \<Longrightarrow> unit64 (Fin q)"
  by (simp add: unit64_def)

lemma rnd64_unit: "0 \<le> q \<Longrightarrow> q \<le> 1 \<Longrightarrow> unit64 (rnd64 q)"
  by (rule b64.rd_between [of 0 1 q]) (auto intro: unit64I)

lemma unit64_simps [simp]: "unit64 (Fin 0)" "unit64 (Fin 1)"
  by (simp_all add: unit64I)

lemma unit64_isfinite: "unit64 x \<Longrightarrow> isfinite x"
  by (auto elim: unit64E)

lemma unit64_bounds: "unit64 x \<longleftrightarrow> isfinite x \<and> fle (Fin 0) x \<and> fle x (Fin 1) \<and> is64 (fin_val x)"
  by (cases x) (auto simp: unit64_def fin_val_def)

lemma fmul_unit: "unit64 x \<Longrightarrow> unit64 y \<Longrightarrow> unit64 (fmul x y)"
  by (auto elim!: unit64E simp: float_simps intro!: rnd64_unit mult_le_one)

lemma one_minus_unit: "unit64 x \<Longrightarrow> unit64 (fsub (Fin 1) x)"
  by (auto elim!: unit64E simp: float_simps intro!: rnd64_unit)

subsection \<open>Values that are not negative\<close>

text \<open>A float that does not compare below zero; a NaN counts, because every test of the code
  against a NaN fails. The bands of the folds are built from such values.\<close>

definition nonneg :: "pyfloat \<Rightarrow> bool" where
  "nonneg x \<longleftrightarrow> \<not> flt x (Fin 0)"

lemma nonneg_simps [simp]: "nonneg (Fin q) \<longleftrightarrow> 0 \<le> q" "nonneg PInf" "\<not> nonneg NInf" "nonneg NaN"
  by (auto simp: nonneg_def flt_def)

lemma nonneg_rnd64: "0 \<le> q \<Longrightarrow> nonneg (rnd64 q)"
  using b64.rd_ge [of 0 q] by (cases "rnd64 q") auto

lemma nonneg_fle: "fle (Fin 0) x \<Longrightarrow> nonneg x"
  by (cases x) (auto simp: fle_def)

lemma nonneg_pmax: "nonneg a \<Longrightarrow> nonneg (pmax a b)"
  by (cases a; cases b) (auto simp: pmax_def flt_def)

lemma nonneg_pmin: "nonneg a \<Longrightarrow> nonneg b \<Longrightarrow> nonneg (pmin a b)"
  by (simp add: pmin_def)

lemma nonneg_fmul: "nonneg a \<Longrightarrow> nonneg b \<Longrightarrow> nonneg (fmul a b)"
  by (cases a; cases b) (auto simp: fmul_def signed_inf_def sgn_if intro: nonneg_rnd64)

text \<open>A sum that exceeds the sum with a value that is not negative has a positive summand, so
  a lead of zero never exceeds a required lead.\<close>

lemma rnd64_le_PInf [simp]: "rnd64 q \<le> PInf"
  using rnd64_not_NaN [of q] by (cases "rnd64 q") auto

lemma lead_positive:
  assumes "nonneg b" "flt (fadd x b) (fadd x d)"
  shows "flt (Fin 0) d"
proof (rule ccontr)
  assume "\<not> flt (Fin 0) d"
  moreover have "rnd64 (q + s) \<le> rnd64 (q + r)" if "0 \<le> r" "s \<le> 0" for q r s
    using that by (intro rnd64_mono) simp
  ultimately show False using assms
    by (cases x; cases b; cases d) (auto simp: flt_def simp flip: not_le)
qed

lemma fsub_self: "fsub x x = Fin 0 \<or> fsub x x = NaN"
  by (cases x) (auto simp: fsub_def)

definition null :: "pyfloat \<Rightarrow> bool" where
  "null x \<longleftrightarrow> x = Fin 0 \<or> x = NaN"

lemma null_fadd: "null x \<Longrightarrow> null y \<Longrightarrow> null (fadd x y)"
  by (auto simp: null_def)

lemma null_sum_loop: "null s \<Longrightarrow> null c \<Longrightarrow> list_all null xs \<Longrightarrow> null (sum_loop s c xs)"
proof (induction s c xs rule: sum_loop.induct)
  case (2 s c x xs)
  have "null (fsub a b)" if "null a" "null b" for a b
    using that by (auto simp: null_def fsub_def)
  with 2 show ?case by (simp add: Let_def null_fadd)
qed (auto intro: null_fadd)

lemma null_py_sum: "list_all null xs \<Longrightarrow> null (py_sum xs)"
  by (cases xs) (auto intro: null_sum_loop simp: null_def [of "Fin 0"])

subsection \<open>Rounding error in the unit interval\<close>

lemma rnd64_unit_error:
  assumes "0 \<le> q" "q \<le> 1" "rnd64 q = Fin v" shows "v \<le> q + 1 / 2 ^ 54"
proof (cases "q = 0 \<or> q = 1")
  case True
  with assms(3) is64_numerals(2) show ?thesis by (auto simp: is64_def)
next
  case False
  with assms have q: "0 < q" "q < 1" by auto
  have "expo q \<le> -1"
  proof (rule ccontr)
    assume "\<not> expo q \<le> -1"
    then have "(2 :: rat) powi 0 \<le> 2 powi expo q" by (intro power_int_increasing) auto
    with expo_bounds(1) [OF q(1)] q(2) show False by simp
  qed
  then have "ulp q \<le> 2 powi (-53)" unfolding ulp_def by (intro power_int_increasing) auto
  then have ulp: "ulp q / 2 \<le> 1 / 2 ^ 54" by (simp add: power_int_def field_simps)
  have "v = of_int (rne (q / ulp q)) * ulp q"
    using assms(3) q by (auto simp: rnd64_def rnd_pos_def grid_def Let_def split: if_splits)
  moreover have "of_int (rne (q / ulp q)) \<le> q / ulp q + 1 / 2" using rne_error [of "q / ulp q"] by linarith
  then have "of_int (rne (q / ulp q)) * ulp q \<le> (q / ulp q + 1 / 2) * ulp q" by (rule mult_right_mono) simp
  ultimately show ?thesis using ulp ulp_pos [of q] by (simp add: distrib_right)
qed

text \<open>A score plus a rounded share of its headroom is at most one.\<close>

lemma headroom_sum:
  assumes "0 \<le> q" "q \<le> 1" "rnd64 (1 - q) = Fin v" "h \<le> v" shows "rnd64 (q + h) \<le> Fin 1"
proof -
  have "v \<le> 1 - q + 1 / 2 ^ 54" using rnd64_unit_error [of "1 - q" v] assms by simp
  then have "rnd64 (q + h) \<le> rnd64 (1 + 1 / 2 ^ 54)" using assms(4) by (intro rnd64_mono) simp
  also have "rnd64 (1 + 1 / 2 ^ 54) = Fin 1" by code_simp
  finally show ?thesis .
qed

subsection \<open>Evaluation\<close>

text \<open>On small arguments the overflow test of \<open>rnd_pos\<close> is decided without its bound.\<close>

lemma rnd_pos_code [code]:
  "rnd_pos q = (if 0 \<le> q \<and> q \<le> 4503599627370496 then Fin (grid q)
     else let v = grid q in if v < max64 then Fin v else PInf)"
proof -
  have "grid q \<le> grid 4503599627370496" if "0 \<le> q" "q \<le> 4503599627370496" using that by (rule grid_mono)
  moreover have "grid 4503599627370496 = 4503599627370496"
    using is64_of_int [of 4503599627370496] by (auto simp: is64_def rnd64_def rnd_pos_def Let_def split: if_splits)
  moreover have "(4503599627370496 :: rat) < max64"
  proof -
    have "(4503599627370496 :: rat) = 2 ^ 52" by simp
    also have "\<dots> < 2 ^ 1024" by (rule power_strict_increasing) simp_all
    finally show ?thesis by (simp only: max64_def)
  qed
  ultimately show ?thesis by (auto simp: rnd_pos_def Let_def)
qed

text \<open>Rounding to an integer on the numerator and denominator.\<close>

definition rne_div :: "int \<Rightarrow> int \<Rightarrow> int \<Rightarrow> int" where
  "rne_div f r d = (if 2 * r < d then f else if 2 * r > d then f + 1 else if even f then f else f + 1)"

lemma rne_code [code]:
  "rne x = (case quotient_of x of (n, d) \<Rightarrow> rne_div (n div d) (n mod d) d)"
proof -
  obtain n d where nd: "quotient_of x = (n, d)" by force
  have d: "0 < d" using quotient_of_denom_pos [OF nd] .
  have x: "x = of_int n / of_int d" using quotient_of_div [OF nd] .
  have f: "\<lfloor>x\<rfloor> = n div d" unfolding x by (rule floor_divide_of_int_eq)
  have "x - of_int (n div d) = of_int (n mod d) / of_int d"
  proof -
    have "(of_int n :: rat) = of_int (n div d) * of_int d + of_int (n mod d)"
      by (metis div_mult_mod_eq of_int_add of_int_mult)
    with d show ?thesis unfolding x by (simp add: field_simps)
  qed
  moreover have twice: "(2 * rat_of_int a < rat_of_int b) = (2 * a < b)" "(rat_of_int b < 2 * rat_of_int a) = (b < 2 * a)" for a b
    by (metis of_int_less_iff of_int_mult of_int_numeral)+
  moreover have "(of_int (n mod d) / of_int d < (1 / 2 :: rat)) = (2 * (n mod d) < d)"
    "((1 / 2 :: rat) < of_int (n mod d) / of_int d) = (d < 2 * (n mod d))"
    unfolding twice [symmetric] using d by (simp_all add: field_simps)
  ultimately show ?thesis
    unfolding rne_def Let_def f nd prod.case rne_div_def by (simp only:)
qed

definition sum_error :: "pyfloat \<Rightarrow> pyfloat \<Rightarrow> pyfloat \<Rightarrow> pyfloat" where
  "sum_error s x t = (if fle (fabs x) (fabs s) then fadd (fsub s t) x else fadd (fsub x t) s)"

lemma sum_loop_code [code]:
  "sum_loop s c [] = (if c \<noteq> Fin 0 \<and> isfinite c then fadd s c else s)"
  "sum_loop s c (x # xs) = sum_loop (fadd s x) (fadd c (sum_error s x (fadd s x))) xs"
  by (simp_all add: sum_error_def Let_def)

subsection \<open>A C library for examples\<close>

text \<open>It squares exactly and rounds, and its \<^verbatim>\<open>exp\<close> is the coarsest the documentation allows.\<close>

definition example_libm :: libm where
  "example_libm = \<lparr>lm_exp = (\<lambda>x. if x = NaN then NaN else Fin 1), lm_pow = (\<lambda>x y. fmul x x)\<rparr>"

lemma example_libm_documented: "exp_documented example_libm"
  by (simp add: exp_documented_def example_libm_def)

end
