(* ===== verification/Dueling.thy ===== *)
theory Dueling
  imports Binary64
begin

section \<open>Dueling bench: seasons, slices and masked composites\<close>

text \<open>
  Models \<^verbatim>\<open>ditto_screening_protocol/dueling.py\<close> (bench version 16 and later). A run is a
  datagen half and five generator columns, each owned by a miner; a column owned by somebody in
  the mask does not count and its weight returns to the datagen half. SHA-256 is the parameter
  \<open>sha256\<close>, a function from bytes to bytes; bytes are \<^typ>\<open>char\<close>s. The Pydantic models are
  records together with the checks their fields and validators make; the case count of a column
  is within the float range, beyond which Python's conversion would raise.
\<close>

definition DUELING_MIN_BENCH_VERSION :: int where "DUELING_MIN_BENCH_VERSION = 16"
definition DUELING_SLICE_COLUMNS :: nat where "DUELING_SLICE_COLUMNS = 5"
definition DUELING_COLUMN_WEIGHT :: pyfloat where "DUELING_COLUMN_WEIGHT = rnd64 (1 / 10)"

definition is_dueling_bench_version :: "int \<Rightarrow> bool" where
  "is_dueling_bench_version v \<longleftrightarrow> v \<ge> DUELING_MIN_BENCH_VERSION"

subsection \<open>Seeds and commitments\<close>

type_synonym bytes = string
type_synonym hash_fun = "bytes \<Rightarrow> bytes"

fun bytes_be :: "nat \<Rightarrow> int \<Rightarrow> bytes" where
  "bytes_be 0 v = []"
| "bytes_be (Suc k) v = bytes_be k (v div 256) @ [char_of (nat (v mod 256))]"

definition u64be :: "int \<Rightarrow> bytes" where
  "u64be v = bytes_be 8 v"

definition hex_digit :: "nat \<Rightarrow> char" where
  "hex_digit n = ''0123456789abcdef'' ! n"

fun hex_of :: "bytes \<Rightarrow> string" where
  "hex_of [] = []"
| "hex_of (b # bs) = hex_digit (of_char b div 16) # hex_digit (of_char b mod 16) # hex_of bs"

definition is_hex :: "char \<Rightarrow> bool" where
  "is_hex c \<longleftrightarrow> c \<in> set ''0123456789abcdef''"

definition sha256_pattern :: "string \<Rightarrow> bool" where
  "sha256_pattern s \<longleftrightarrow> length s = 64 \<and> list_all is_hex s"

definition hex_val :: "char \<Rightarrow> nat" where
  "hex_val c = length (takeWhile (\<lambda>d. d \<noteq> c) ''0123456789abcdef'')"

fun bytes_fromhex :: "string \<Rightarrow> bytes" where
  "bytes_fromhex (a # b # s) = char_of (16 * hex_val a + hex_val b) # bytes_fromhex s"
| "bytes_fromhex _ = []"

text \<open>\<^verbatim>\<open>str.encode("utf-8")\<close>; a \<^typ>\<open>char\<close> is a code point below 256.\<close>

fun utf8 :: "string \<Rightarrow> bytes" where
  "utf8 [] = []"
| "utf8 (c # s) = (let n = (of_char c :: nat) in
     if n < 128 then c # utf8 s else char_of (192 + n div 64) # char_of (128 + n mod 64) # utf8 s)"

text \<open>\<^verbatim>\<open>crn_block_binding.normalize_block_hash\<close>: strip blanks, lower case, drop \<open>0x\<close>.\<close>

definition is_blank :: "char \<Rightarrow> bool" where
  "is_blank c \<longleftrightarrow> (of_char c :: nat) \<in> {9, 10, 11, 12, 13, 28, 29, 30, 31, 32, 133, 160}"

definition lower_char :: "char \<Rightarrow> char" where
  "lower_char c = (let n = (of_char c :: nat) in if (65 \<le> n \<and> n \<le> 90) \<or> (192 \<le> n \<and> n \<le> 222 \<and> n \<noteq> 215) then char_of (n + 32) else c)"

definition strip :: "string \<Rightarrow> string" where
  "strip s = rev (dropWhile is_blank (rev (dropWhile is_blank s)))"

definition normalize_block_hash :: "string \<Rightarrow> string" where
  "normalize_block_hash s = (let h = map lower_char (strip s) in
     if take 2 h = ''0x'' then drop 2 h else h)"

definition check_season :: "int \<Rightarrow> bytes \<Rightarrow> py_error + unit" where
  "check_season season secret =
     (if \<not> (0 \<le> season \<and> season \<le> 2 ^ 64 - 1) then Inl (ValueError ''season index must be a u64'')
      else if length secret \<noteq> 32 then Inl (ValueError ''season secret must be 32 bytes'')
      else Inr ())"

definition NUL :: char where "NUL = char_of (0 :: nat)"

definition season_commit_message :: "int \<Rightarrow> bytes \<Rightarrow> bytes" where
  "season_commit_message season secret =
     ''dittobench-dueling-season-commit/v1'' @ [NUL] @ u64be season @ secret"

definition season_commitment :: "hash_fun \<Rightarrow> int \<Rightarrow> bytes \<Rightarrow> py_error + string" where
  "season_commitment sha256 season secret =
     (case check_season season secret of Inl e \<Rightarrow> Inl e
      | Inr _ \<Rightarrow> Inr (hex_of (sha256 (season_commit_message season secret))))"

definition season_seed :: "hash_fun \<Rightarrow> int \<Rightarrow> bytes \<Rightarrow> string \<Rightarrow> py_error + string" where
  "season_seed sha256 season secret anchor =
     (case check_season season secret of Inl e \<Rightarrow> Inl e
      | Inr _ \<Rightarrow>
        (let block = normalize_block_hash anchor in
         if \<not> sha256_pattern block
         then Inl (ValueError ''season anchor block hash must be 32 bytes of hex'')
         else Inr (hex_of (sha256 (''dittobench-dueling-season-seed/v1'' @ [NUL] @ u64be season
                     @ secret @ bytes_fromhex block)))))"

definition slice_message :: "string \<Rightarrow> int \<Rightarrow> string \<Rightarrow> bytes" where
  "slice_message season_seed_hex run_seed column =
     ''dittobench-dueling-slice/v1'' @ [NUL] @ season_seed_hex @ [NUL] @ u64be run_seed @ [NUL] @ utf8 column"

definition slice_seed :: "hash_fun \<Rightarrow> string \<Rightarrow> int \<Rightarrow> string \<Rightarrow> py_error + string" where
  "slice_seed sha256 season_seed_hex run_seed column =
     (if \<not> sha256_pattern season_seed_hex
      then Inl (ValueError ''season seed must be 64 lowercase hex characters'')
      else if \<not> (0 \<le> run_seed \<and> run_seed \<le> 2 ^ 63 - 1)
      then Inl (ValueError ''slice run seed must be a non-negative int64'')
      else if column = [] then Inl (ValueError ''slice column id must be non-empty'')
      else Inr (hex_of (sha256 (slice_message season_seed_hex run_seed column))))"

subsection \<open>Columns and reports\<close>

record dueling_column =
  column_id :: string
  col_owner_key :: string
  col_submission_id :: "string option"
  grading_bench_version :: "int option"
  col_n :: int
  col_sum :: pyfloat
  col_sum_sq :: pyfloat
  substituted :: bool

record dueling_report =
  season_id :: string
  season_index :: int
  slice_sha256 :: string
  owner_key :: string
  datagen_raw :: pyfloat
  datagen_gate :: pyfloat
  column_weight :: pyfloat
  columns :: "dueling_column list"
  dr_composite_stderr :: pyfloat

definition is_digit_char :: "char \<Rightarrow> bool" where
  "is_digit_char c \<longleftrightarrow> c \<in> set ''0123456789''"

definition is_alnum :: "char \<Rightarrow> bool" where
  "is_alnum c \<longleftrightarrow> (let n = (of_char c :: nat) in
     (48 \<le> n \<and> n \<le> 57) \<or> (65 \<le> n \<and> n \<le> 90) \<or> (97 \<le> n \<and> n \<le> 122))"

definition column_id_pattern :: "string \<Rightarrow> bool" where
  "column_id_pattern s \<longleftrightarrow> (case s of c # ds \<Rightarrow>
     c = CHR ''c'' \<and> (length ds = 1 \<or> length ds = 2) \<and> list_all is_digit_char ds | [] \<Rightarrow> False)"

definition ident_pattern :: "string \<Rightarrow> bool" where
  "ident_pattern s \<longleftrightarrow> (case s of c # cs \<Rightarrow>
     is_alnum c \<and> length cs \<le> 127 \<and> list_all (\<lambda>d. is_alnum d \<or> d \<in> set ''_.:-'') cs | [] \<Rightarrow> False)"

text \<open>The field constraints and the validator of \<^verbatim>\<open>DuelingColumnAggregate\<close>.\<close>

definition substituted_is_unowned :: "dueling_column \<Rightarrow> py_error + dueling_column" where
  "substituted_is_unowned c =
     (if substituted c \<and> col_owner_key c \<noteq> []
      then Inl (ValueError ''a substituted column carries the public default and has no owner'')
      else if col_n c = 0 \<and> (\<not> feq (col_sum c) (Fin 0) \<or> \<not> feq (col_sum_sq c) (Fin 0))
      then Inl (ValueError ''a column with no cases has zero sums'')
      else Inr c)"

definition column_fields_ok :: "dueling_column \<Rightarrow> bool" where
  "column_fields_ok c \<longleftrightarrow> column_id_pattern (column_id c) \<and> length (col_owner_key c) \<le> 256
     \<and> (case col_submission_id c of None \<Rightarrow> True | Some s \<Rightarrow> ident_pattern s)
     \<and> (case grading_bench_version c of None \<Rightarrow> True | Some v \<Rightarrow> v \<ge> 13)
     \<and> col_n c \<ge> 0 \<and> isfinite (col_sum c) \<and> isfinite (col_sum_sq c) \<and> fle (Fin 0) (col_sum_sq c)"

definition column_mean :: "dueling_column \<Rightarrow> pyfloat" where
  "column_mean c = (if col_n c \<le> 0 then Fin 0 else fdiv (col_sum c) (fint (col_n c)))"

definition counted :: "dueling_column list \<Rightarrow> string set \<Rightarrow> dueling_column list" where
  "counted cols owners = sort_key column_id (filter (\<lambda>c. col_owner_key c = [] \<or> col_owner_key c \<notin> owners) cols)"

definition dueling_composite ::
  "pyfloat \<Rightarrow> pyfloat \<Rightarrow> dueling_column list \<Rightarrow> string set \<Rightarrow> pyfloat" where
  "dueling_composite raw gate cols owners =
     (let w = DUELING_COLUMN_WEIGHT;
          kept = counted cols owners;
          generator = foldl (\<lambda>g c. fadd g (fmul w (column_mean c))) (Fin 0) kept;
          share = fsub (Fin 1) (fmul w (fint (int (length kept))));
          inner = fadd (fmul share raw) generator
      in fmul gate inner)"

definition column_variance :: "dueling_column \<Rightarrow> pyfloat" where
  "column_variance c =
     (let n = fint (col_n c);
          ss = fsub (col_sum_sq c) (fdiv (fmul (col_sum c) (col_sum c)) n);
          variance = fdiv ss (fsub n (Fin 1))
      in if flt variance (Fin 0) \<or> variance = NaN then Fin 0 else variance)"

definition dueling_composite_stderr ::
  "pyfloat \<Rightarrow> pyfloat \<Rightarrow> dueling_column list \<Rightarrow> string set \<Rightarrow> pyfloat" where
  "dueling_composite_stderr stderr gate cols owners =
     (let w = DUELING_COLUMN_WEIGHT;
          kept = counted cols owners;
          strata = foldl (\<lambda>s c. if col_n c < 2 then s
                                 else fadd s (fdiv (column_variance c) (fint (col_n c)))) (Fin 0) kept;
          share = fsub (Fin 1) (fmul w (fint (int (length kept))));
          datagen_var = fmul (fmul share share) (fmul stderr stderr);
          total = fadd datagen_var (fmul (fmul w w) strata)
      in fmul gate (fsqrt total))"

text \<open>The field constraints and the validator of \<^verbatim>\<open>DuelingReport\<close>.\<close>

definition report_contract :: "dueling_report \<Rightarrow> py_error + dueling_report" where
  "report_contract r =
     (if \<not> feq (column_weight r) DUELING_COLUMN_WEIGHT
      then Inl (ValueError ''column_weight must be the contract weight'')
      else if sort (map column_id (columns r)) \<noteq> [''c0'', ''c1'', ''c2'', ''c3'', ''c4'']
      then Inl (ValueError ''dueling columns must be the unique ids c0..c4'')
      else Inr r)"

definition report_fields_ok :: "dueling_report \<Rightarrow> bool" where
  "report_fields_ok r \<longleftrightarrow> ident_pattern (season_id r) \<and> 0 \<le> season_index r \<and> season_index r \<le> 2 ^ 64 - 1
     \<and> sha256_pattern (slice_sha256 r) \<and> length (owner_key r) \<le> 256
     \<and> isfinite (datagen_raw r) \<and> fle (Fin 0) (datagen_raw r) \<and> fle (datagen_raw r) (Fin 1)
     \<and> isfinite (datagen_gate r) \<and> fle (Fin 0) (datagen_gate r) \<and> fle (datagen_gate r) (Fin 1)
     \<and> isfinite (column_weight r) \<and> length (columns r) = DUELING_SLICE_COLUMNS
     \<and> list_all column_fields_ok (columns r)
     \<and> list_all (\<lambda>c. substituted_is_unowned c = Inr c) (columns r)
     \<and> isfinite (dr_composite_stderr r) \<and> fle (Fin 0) (dr_composite_stderr r)"

definition report_composite :: "dueling_report \<Rightarrow> string set \<Rightarrow> pyfloat" where
  "report_composite r owners = dueling_composite (datagen_raw r) (datagen_gate r) (columns r) owners"

definition self_composite :: "dueling_report \<Rightarrow> pyfloat" where
  "self_composite r = report_composite r {owner_key r}"

subsection \<open>Laws of the masked composite\<close>

interpretation columns_by_id: canonical_order column_id column_id
  by unfold_locales

lemma counted_masked:
  assumes "\<And>c. col_owner_key (f c) = col_owner_key c"
  shows "counted (map (\<lambda>c. if col_owner_key c \<noteq> [] \<and> col_owner_key c \<in> owners then f c else c) cols) owners
    = counted cols owners"
proof -
  have "filter (\<lambda>c. col_owner_key c = [] \<or> col_owner_key c \<notin> owners)
      (map (\<lambda>c. if col_owner_key c \<noteq> [] \<and> col_owner_key c \<in> owners then f c else c) cols)
    = filter (\<lambda>c. col_owner_key c = [] \<or> col_owner_key c \<notin> owners) cols"
    by (induction cols) (auto simp: assms)
  then show ?thesis by (simp only: counted_def)
qed

lemma counted_order_free:
  "mset cols = mset cols' \<Longrightarrow> distinct (map column_id cols) \<Longrightarrow> counted cols owners = counted cols' owners"
  unfolding counted_def by (rule columns_by_id.order_free_filter)

lemma length_counted: "length (counted cols owners) \<le> length cols"
  by (simp add: counted_def)

definition column_sum :: "dueling_column list \<Rightarrow> pyfloat" where
  "column_sum cols = foldl (\<lambda>g c. fadd g (fmul DUELING_COLUMN_WEIGHT (column_mean c))) (Fin 0) cols"

text \<open>The largest value the generator half can take with \<open>k\<close> counted columns: every mean is one.\<close>

fun column_bound :: "nat \<Rightarrow> pyfloat" where
  "column_bound 0 = Fin 0"
| "column_bound (Suc k) = fadd (column_bound k) DUELING_COLUMN_WEIGHT"

definition datagen_share :: "nat \<Rightarrow> pyfloat" where
  "datagen_share k = fsub (Fin 1) (fmul DUELING_COLUMN_WEIGHT (fint (int k)))"

lemma column_weight_unit: "unit64 DUELING_COLUMN_WEIGHT"
  unfolding DUELING_COLUMN_WEIGHT_def by (rule rnd64_unit) simp_all

text \<open>Evaluated for the six possible numbers of counted columns.\<close>

lemma DUELING_COLUMN_WEIGHT_value [simp, code]: "DUELING_COLUMN_WEIGHT = Fin (3602879701896397 / 36028797018963968)"
  unfolding DUELING_COLUMN_WEIGHT_def by code_simp

lemma column_bound_values:
  "column_bound 0 = Fin (0)"
  "column_bound 1 = Fin (3602879701896397/36028797018963968)"
  "column_bound 2 = Fin (3602879701896397/18014398509481984)"
  "column_bound 3 = Fin (1351079888211149/4503599627370496)"
  "column_bound 4 = Fin (3602879701896397/9007199254740992)"
  "column_bound 5 = Fin (1/2)"
  by code_simp+

lemma datagen_share_values:
  "datagen_share 0 = Fin (1)"
  "datagen_share 1 = Fin (8106479329266893/9007199254740992)"
  "datagen_share 2 = Fin (3602879701896397/4503599627370496)"
  "datagen_share 3 = Fin (3152519739159347/4503599627370496)"
  "datagen_share 4 = Fin (5404319552844595/9007199254740992)"
  "datagen_share 5 = Fin (1/2)"
  by code_simp+

lemma half_sum_values:
  "rnd64 (1 + 0) = Fin 1"
  "rnd64 (8106479329266893/9007199254740992 + 3602879701896397/36028797018963968) = Fin 1"
  "rnd64 (3602879701896397/4503599627370496 + 3602879701896397/18014398509481984) = Fin 1"
  "rnd64 (3152519739159347/4503599627370496 + 1351079888211149/4503599627370496) = Fin 1"
  "rnd64 (5404319552844595/9007199254740992 + 3602879701896397/9007199254740992) = Fin 1"
  "rnd64 (1/2 + 1/2) = Fin 1"
  by code_simp+

lemma fadd_Fin_is64: "fadd x y = Fin b \<Longrightarrow> is64 b"
  by (cases x; cases y) (auto intro: rnd64_Fin_is64)

lemma bounds_evaluated:
  assumes "k \<le> 5"
  obtains b d where "column_bound k = Fin b" "0 \<le> b" "b \<le> 1" "is64 b"
    "datagen_share k = Fin d" "0 \<le> d" "d \<le> 1" "is64 d" "rnd64 (d + b) = Fin 1"
proof -
  have b: "column_bound k = Fin b \<Longrightarrow> is64 b" for b by (cases k) (auto dest: fadd_Fin_is64)
  have d: "datagen_share k = Fin d \<Longrightarrow> is64 d" for d by (auto simp: datagen_share_def fsub_def dest: fadd_Fin_is64)
  have pick: "\<exists>b d. column_bound k = Fin b \<and> 0 \<le> b \<and> b \<le> 1 \<and> datagen_share k = Fin d
      \<and> 0 \<le> d \<and> d \<le> 1 \<and> rnd64 (d + b) = Fin 1"
    if "column_bound n = Fin b" "datagen_share n = Fin d" "rnd64 (d + b) = Fin 1" "0 \<le> b" "b \<le> 1" "0 \<le> d" "d \<le> 1" "k = n"
    for n b d using that by blast
  have "k = 0 \<or> k = 1 \<or> k = 2 \<or> k = 3 \<or> k = 4 \<or> k = 5" using assms by auto
  then have "\<exists>b d. column_bound k = Fin b \<and> 0 \<le> b \<and> b \<le> 1 \<and> datagen_share k = Fin d
      \<and> 0 \<le> d \<and> d \<le> 1 \<and> rnd64 (d + b) = Fin 1"
    by (elim disjE)
      (erule pick [OF column_bound_values(1) datagen_share_values(1) half_sum_values(1), rotated -1]
        pick [OF column_bound_values(2) datagen_share_values(2) half_sum_values(2), rotated -1]
        pick [OF column_bound_values(3) datagen_share_values(3) half_sum_values(3), rotated -1]
        pick [OF column_bound_values(4) datagen_share_values(4) half_sum_values(4), rotated -1]
        pick [OF column_bound_values(5) datagen_share_values(5) half_sum_values(5), rotated -1]
        pick [OF column_bound_values(6) datagen_share_values(6) half_sum_values(6), rotated -1]; simp)+
  with b d that show ?thesis by blast
qed

lemma column_sum_bounded:
  assumes "list_all (\<lambda>c. unit64 (column_mean c)) cols" "length cols \<le> 5"
  obtains g where "column_sum cols = Fin g" "0 \<le> g" "Fin g \<le> column_bound (length cols)"
  using assms
proof (induction cols arbitrary: thesis rule: rev_induct)
  case Nil
  then show ?case by (simp add: column_sum_def)
next
  case (snoc c cols)
  obtain g where g: "column_sum cols = Fin g" "0 \<le> g" "Fin g \<le> column_bound (length cols)"
    using snoc by auto
  obtain b where b: "column_bound (length cols) = Fin b" "b \<le> 1"
    using snoc.prems(3) by (auto intro: bounds_evaluated [of "length cols"])
  obtain w where w: "DUELING_COLUMN_WEIGHT = Fin w" "0 \<le> w" "w \<le> 1" "is64 w"
    using column_weight_unit by (elim unit64E)
  obtain m where m: "column_mean c = Fin m" "0 \<le> m" "m \<le> 1"
    using snoc.prems(2) by (auto elim: unit64E)
  have "w * m \<le> w" "0 \<le> w * m" using w m by (simp_all add: mult_left_le)
  then obtain v where v: "rnd64 (w * m) = Fin v" "0 \<le> v" "v \<le> w"
    using w by (auto intro: b64.rd_between [of 0 w "w * m"])
  have "rnd64 (g + v) \<le> rnd64 (b + w)" using g b v by (intro rnd64_mono) simp
  moreover have "Fin 0 \<le> rnd64 (g + v)" using g v by (intro b64.rd_ge) simp_all
  moreover obtain t where "rnd64 (b + w) = Fin t"
    using bounds_evaluated [of "Suc (length cols)"] snoc.prems(3) b w by (metis column_bound.simps(2) fadd.simps(1) length_append_singleton)
  ultimately obtain u where "rnd64 (g + v) = Fin u" "0 \<le> u" "Fin u \<le> rnd64 (b + w)"
    by (cases "rnd64 (g + v)") auto
  moreover have "column_sum (cols @ [c]) = fadd (column_sum cols) (fmul DUELING_COLUMN_WEIGHT (column_mean c))"
    by (simp add: column_sum_def)
  then have "column_sum (cols @ [c]) = rnd64 (g + v)"
    unfolding g(1) w(1) m(1) by (simp add: float_simps v)
  moreover have "column_bound (length (cols @ [c])) = fadd (column_bound (length cols)) DUELING_COLUMN_WEIGHT" by simp
  then have "column_bound (length (cols @ [c])) = rnd64 (b + w)" unfolding b(1) w(1) by simp
  ultimately show ?case using snoc.prems(1) by simp
qed

lemma composite_unit:
  assumes "unit64 raw" "unit64 gate" "list_all (\<lambda>c. unit64 (column_mean c)) cols" "length cols \<le> 5"
  shows "unit64 (dueling_composite raw gate cols owners)"
proof -
  let ?k = "counted cols owners"
  have means: "list_all (\<lambda>c. unit64 (column_mean c)) ?k" using assms(3) by (auto simp: counted_def list_all_iff)
  have len: "length ?k \<le> 5" using length_counted [of cols owners] assms(4) by simp
  obtain g where g: "column_sum ?k = Fin g" "0 \<le> g" "Fin g \<le> column_bound (length ?k)"
    using column_sum_bounded [OF means len] by blast
  obtain b d where bd: "column_bound (length ?k) = Fin b" "datagen_share (length ?k) = Fin d"
      "0 \<le> d" "d \<le> 1" "is64 d" "rnd64 (d + b) = Fin 1"
    using bounds_evaluated [OF len] by metis
  obtain r where r: "raw = Fin r" "0 \<le> r" "r \<le> 1" using assms(1) by (elim unit64E)
  have "d * r \<le> d" "0 \<le> d * r" using bd r by (simp_all add: mult_left_le)
  then obtain h where h: "rnd64 (d * r) = Fin h" "0 \<le> h" "h \<le> d"
    using bd by (auto intro: b64.rd_between [of 0 d "d * r"])
  have "rnd64 (h + g) \<le> Fin 1" using rnd64_mono [of "h + g" "d + b"] bd g h by simp
  moreover have "Fin 0 \<le> rnd64 (h + g)" using g h by (intro b64.rd_ge) simp_all
  ultimately have "unit64 (rnd64 (h + g))"
    by (cases "rnd64 (h + g)") (auto intro: unit64I rnd64_Fin_is64)
  moreover have "dueling_composite raw gate cols owners = fmul gate (rnd64 (h + g))"
    using g(1) bd(2) r(1) h(1) unfolding dueling_composite_def Let_def column_sum_def datagen_share_def
    by (simp add: float_simps del: DUELING_COLUMN_WEIGHT_value)
  ultimately show ?thesis using assms(2) by (simp add: fmul_unit)
qed

subsection \<open>Properties\<close>

text \<open>Owner neutrality: nothing a masked owner's generator does to its column moves the
  composite. Replacing every masked column by any other column of the same owner leaves the
  composite and its standard error unchanged.\<close>

theorem masked_columns_are_neutral:
  assumes "\<And>c. col_owner_key (f c) = col_owner_key c"
  shows "dueling_composite raw gate
       (map (\<lambda>c. if col_owner_key c \<noteq> [] \<and> col_owner_key c \<in> owners then f c else c) cols) owners
     = dueling_composite raw gate cols owners
    \<and> dueling_composite_stderr se gate
       (map (\<lambda>c. if col_owner_key c \<noteq> [] \<and> col_owner_key c \<in> owners then f c else c) cols) owners
     = dueling_composite_stderr se gate cols owners"
  unfolding dueling_composite_def dueling_composite_stderr_def counted_masked [OF assms] by simp

definition example_column :: "string \<Rightarrow> string \<Rightarrow> pyfloat \<Rightarrow> dueling_column" where
  "example_column cid owner score = \<lparr>column_id = cid, col_owner_key = owner, col_submission_id = None,
     grading_bench_version = None, col_n = 1, col_sum = score, col_sum_sq = score, substituted = False\<rparr>"

theorem masked_columns_are_neutral_witness:
  "dueling_composite (Fin 1) (Fin 1) [example_column ''c0'' ''eve'' (Fin 0)] {''eve''}
     = dueling_composite (Fin 1) (Fin 1) [example_column ''c0'' ''eve'' (Fin 1)] {''eve''}"
  using masked_columns_are_neutral [of "\<lambda>c. c\<lparr>col_sum := Fin 0, col_sum_sq := Fin 0\<rparr>" "Fin 1" "Fin 1" "{''eve''}"
      "[example_column ''c0'' ''eve'' (Fin 1)]" "Fin 0"]
  by (simp add: example_column_def)

text \<open>C37: The composite of a run is a score: with a datagen score, a gate and column means in the
  unit interval it stays in the unit interval in float arithmetic, whatever is masked; no rounding
  of the five weighted columns pushes it past one.\<close>

theorem dueling_composite_range:
  assumes "unit64 raw" and "unit64 gate" and "\<forall>c\<in>set cols. unit64 (column_mean c)"
    and "length cols = DUELING_SLICE_COLUMNS"
  shows "unit64 (dueling_composite raw gate cols owners)"
  using assms by (intro composite_unit) (simp_all add: list_all_iff DUELING_SLICE_COLUMNS_def)

theorem dueling_composite_range_witness:
  "unit64 (dueling_composite (Fin 1) (Fin 1) (replicate 5 (example_column ''c0'' [] (Fin 1))) {})"
proof (rule dueling_composite_range)
  have "column_mean (example_column ''c0'' [] (Fin 1)) = Fin 1" by code_simp
  then show "\<forall>c\<in>set (replicate 5 (example_column ''c0'' [] (Fin 1))). unit64 (column_mean c)" by simp
qed (simp_all add: DUELING_SLICE_COLUMNS_def)

text \<open>The composite does not depend on the order in which the columns are reported.\<close>

theorem columns_order_free:
  assumes "mset cols = mset cols'" and "distinct (map column_id cols)"
  shows "dueling_composite raw gate cols owners = dueling_composite raw gate cols' owners
    \<and> dueling_composite_stderr se gate cols owners = dueling_composite_stderr se gate cols' owners"
  unfolding dueling_composite_def dueling_composite_stderr_def counted_order_free [OF assms] by simp

theorem columns_order_free_witness:
  "dueling_composite (Fin 1) (Fin 1) [example_column ''c0'' [] (Fin 0), example_column ''c1'' [] (Fin 1)] {}
     = dueling_composite (Fin 1) (Fin 1) [example_column ''c1'' [] (Fin 1), example_column ''c0'' [] (Fin 0)] {}"
  using columns_order_free [of "[example_column ''c0'' [] (Fin 0), example_column ''c1'' [] (Fin 1)]"
      "[example_column ''c1'' [] (Fin 1), example_column ''c0'' [] (Fin 0)]"]
  by (simp add: example_column_def)

end
