(* ===== verification/Title_Duel.thy ===== *)
theory Title_Duel
  imports Binary64
begin

section \<open>The sequential paired title duel\<close>

text \<open>
  Models \<^verbatim>\<open>ditto_screening_protocol/title_duel.py\<close>: the arithmetic that the validator's
  and the platform's fold share for comparing two rows over the dueling seasons. A pair is one
  season and seed both agents were scored on; the newest pairs up to a window enter, and the
  challenger's mean lead has to exceed the frozen boundary times its standard error.
\<close>

text \<open>The median the folds compute: sort, then the middle value or the mean of the middle two.\<close>

definition median :: "pyfloat list \<Rightarrow> pyfloat" where
  "median values =
     (let ordered = sort values; middle = length ordered div 2 in
      if odd (length ordered) then ordered ! middle
      else fdiv (fadd (ordered ! (middle - 1)) (ordered ! middle)) (Fin 2))"

definition TITLE_DUEL_WINDOW_PAIRS :: int where "TITLE_DUEL_WINDOW_PAIRS = 15"

definition TITLE_DUEL_BOUNDARY :: "(nat, pyfloat) dict" where
  "TITLE_DUEL_BOUNDARY = map (\<lambda>(n, q). (n, rnd64 (q / 1000)))
     [(3, 6965), (4, 4541), (5, 3747), (6, 3365), (7, 3143), (8, 2998), (9, 2896), (10, 2821),
      (11, 2764), (12, 2718), (13, 2681), (14, 2650), (15, 2624)]"

record duel_pair =
  dp_season_index :: int
  dp_season_id :: string
  dp_seed :: int
  dp_challenger :: pyfloat
  dp_champion :: pyfloat

definition dp_difference :: "duel_pair \<Rightarrow> pyfloat" where
  "dp_difference p = fsub (dp_challenger p) (dp_champion p)"

record duel_stat =
  ds_pairs :: "duel_pair list"
  ds_mean_difference :: pyfloat
  ds_champion_reference :: pyfloat
  ds_standard_error :: pyfloat

definition ds_count :: "duel_stat \<Rightarrow> nat" where
  "ds_count s = length (ds_pairs s)"

type_synonym season_records = "(string \<times> int, int \<times> pyfloat) dict"

definition season_seed_key :: "string \<Rightarrow> int \<Rightarrow> int \<Rightarrow> string \<times> int \<times> int" where
  "season_seed_key sid ix seed = (sid, ix, seed)"

text \<open>\<^verbatim>\<open>collapse_records\<close>: the values and the season indices are grouped by season and seed;
  a group whose records disagree on the season index is dropped.\<close>

definition collapse_records :: "((string \<times> int \<times> int) \<times> pyfloat) list \<Rightarrow> season_records" where
  "collapse_records values =
     (let grouped = group_pairs [] (map (\<lambda>((sid, ix, seed), v). ((sid, seed), v)) values);
          indices = group_pairs [] (map (\<lambda>((sid, ix, seed), v). ((sid, seed), ix)) values)
      in concat (map (\<lambda>(key, samples).
           case dict_get indices key of
             Some ixs \<Rightarrow> (case remdups ixs of [ix] \<Rightarrow> [(key, (ix, median samples))] | _ \<Rightarrow> [])
           | None \<Rightarrow> []) grouped))"

definition pair_key :: "duel_pair \<Rightarrow> int \<times> string \<times> int" where
  "pair_key p = (- dp_season_index p, dp_season_id p, dp_seed p)"

definition duel_pairs :: "season_records \<Rightarrow> season_records \<Rightarrow> int \<Rightarrow> duel_pair list" where
  "duel_pairs challenger champion window =
     (let pairs = concat (map (\<lambda>((sid, seed), (ix, v)).
            case dict_get champion (sid, seed) of
              Some (ix', v') \<Rightarrow> if ix = ix' then [\<lparr>dp_season_index = ix, dp_season_id = sid,
                 dp_seed = seed, dp_challenger = v, dp_champion = v'\<rparr>] else []
            | None \<Rightarrow> []) challenger)
      in take (nat (max 0 window)) (sort_key pair_key pairs))"

text \<open>Mean, reference and standard error over the values of the paired comparison; the same
  arithmetic serves the shared-seed test of the folds.\<close>

definition mean_of :: "pyfloat list \<Rightarrow> pyfloat" where
  "mean_of xs = fdiv (py_sum xs) (fint (int (length xs)))"

definition sample_variance :: "libm \<Rightarrow> pyfloat list \<Rightarrow> pyfloat \<Rightarrow> pyfloat" where
  "sample_variance M xs mean =
     fdiv (py_sum (map (\<lambda>d. lm_pow M (fsub d mean) (Fin 2)) xs)) (fint (int (length xs) - 1))"

definition standard_error_of :: "libm \<Rightarrow> pyfloat list \<Rightarrow> pyfloat \<Rightarrow> pyfloat" where
  "standard_error_of M xs mean =
     fsqrt (fdiv (sample_variance M xs mean) (fint (int (length xs))))"

definition duel_statistic :: "libm \<Rightarrow> duel_pair list \<Rightarrow> duel_stat option" where
  "duel_statistic M pairs =
     (if length pairs < 2 then None
      else let differences = map dp_difference pairs; mean = mean_of differences in
        Some \<lparr>ds_pairs = pairs, ds_mean_difference = mean,
              ds_champion_reference = mean_of (map dp_champion pairs),
              ds_standard_error = standard_error_of M differences mean\<rparr>)"

definition duel_required_lead :: "duel_stat \<Rightarrow> pyfloat \<Rightarrow> pyfloat option" where
  "duel_required_lead stat margin_floor =
     (case dict_get TITLE_DUEL_BOUNDARY (ds_count stat) of
        None \<Rightarrow> None
      | Some critical \<Rightarrow> Some (pmax margin_floor (fmul critical (ds_standard_error stat))))"

subsection \<open>Laws\<close>

interpretation newest: canonical_order pair_key "\<lambda>p. (dp_season_index p, dp_season_id p, dp_seed p)"
  by unfold_locales (simp add: pair_key_def)

lemma is_median:
  assumes "xs \<noteq> []"
  shows "median xs \<in> set xs \<or> (\<exists>a\<in>set xs. \<exists>b\<in>set xs. median xs = fdiv (fadd a b) (Fin 2))"
proof -
  let ?m = "length xs div 2"
  have "sort xs ! i \<in> set xs" if "i < length xs" for i
    using that by (metis length_sort nth_mem set_sort)
  moreover have "?m < length xs" "?m - 1 < length xs" using assms by (auto intro: le_less_trans [of _ ?m])
  ultimately show ?thesis by (auto simp: median_def Let_def)
qed

lemma half_sum_unit:
  assumes "unit64 a" "unit64 b" shows "unit64 (fdiv (fadd a b) (Fin 2))"
proof -
  from assms obtain p q where pq: "a = Fin p" "b = Fin q" "0 \<le> p" "p \<le> 1" "0 \<le> q" "q \<le> 1"
    by (auto elim!: unit64E)
  obtain v where "rnd64 (p + q) = Fin v" "0 \<le> v" "v \<le> 2"
    by (rule b64.rd_between [of 0 2 "p + q"]) (use pq in auto)
  with pq show ?thesis by (simp add: float_simps rnd64_unit)
qed

lemma median_unit: "xs \<noteq> [] \<Longrightarrow> list_all unit64 xs \<Longrightarrow> unit64 (median xs)"
  using is_median [of xs] half_sum_unit by (fastforce simp: list_all_iff)

lemma collapse_records_distinct: "distinct (dict_keys (collapse_records vs))"
proof -
  have sub: "distinct (map fst (concat (map g xs)))"
    if "distinct (map fst xs)" "\<And>x. x \<in> set xs \<Longrightarrow> g x = [] \<or> (\<exists>y. g x = [(fst x, y)])"
    for xs :: "((string \<times> int) \<times> pyfloat list) list" and g :: "_ \<Rightarrow> ((string \<times> int) \<times> (int \<times> pyfloat)) list"
    using that
  proof (induction xs)
    case (Cons x xs)
    have "fst y = fst z" if "z \<in> set xs" "y \<in> set (g z)" for y z
      using Cons.prems(2) [of z] that by auto
    then have "fst ` set (concat (map g xs)) \<subseteq> fst ` set xs" by force
    then have "fst x \<notin> fst ` set (concat (map g xs))" using Cons.prems(1) by auto
    moreover have "distinct (map fst (concat (map g xs)))" using Cons by auto
    moreover have "g x = [] \<or> (\<exists>y. g x = [(fst x, y)])" using Cons.prems(2) by simp
    ultimately show ?case by (elim disjE exE) (simp_all del: set_concat)
  qed simp
  show ?thesis
    unfolding collapse_records_def Let_def
    by (rule sub) (simp, simp split: prod.split option.split list.split)
qed

lemma length_duel_pairs: "int (length (duel_pairs a b w)) \<le> max 0 w"
  by (simp add: duel_pairs_def Let_def)

text \<open>A pair of the window carries the values both sides recorded for one season and seed.\<close>

lemma duel_pairs_member:
  assumes "p \<in> set (duel_pairs a b w)"
  shows "((dp_season_id p, dp_seed p), (dp_season_index p, dp_challenger p)) \<in> set a"
    and "dict_get b (dp_season_id p, dp_seed p) = Some (dp_season_index p, dp_champion p)"
proof -
  from assms have "p \<in> set (concat (map (\<lambda>((sid, seed), (ix, v)).
            case dict_get b (sid, seed) of
              Some (ix', v') \<Rightarrow> if ix = ix' then [\<lparr>dp_season_index = ix, dp_season_id = sid,
                 dp_seed = seed, dp_challenger = v, dp_champion = v'\<rparr>] else []
            | None \<Rightarrow> []) a))"
    unfolding duel_pairs_def Let_def by (meson in_set_takeD set_sort[THEN equalityD1, THEN subsetD])
  then show "((dp_season_id p, dp_seed p), (dp_season_index p, dp_challenger p)) \<in> set a"
    "dict_get b (dp_season_id p, dp_seed p) = Some (dp_season_index p, dp_champion p)"
    by (auto split: option.splits if_splits)
qed

lemma duel_pairs_self:
  assumes "p \<in> set (duel_pairs a a w)" "distinct (dict_keys a)"
  shows "dp_challenger p = dp_champion p"
  using duel_pairs_member [OF assms(1)] map_of_is_SomeI [OF assms(2)] by fastforce

lemma null_mean: "list_all null xs \<Longrightarrow> xs \<noteq> [] \<Longrightarrow> null (mean_of xs)"
proof -
  assume "list_all null xs" "xs \<noteq> []"
  then have "null (py_sum xs)" by (intro null_py_sum)
  then show ?thesis by (cases "fint (int (length xs))") (auto simp: null_def mean_of_def fdiv_def)
qed

lemma duel_boundary_floor:
  assumes "duel_required_lead stat f = Some r" shows "3 \<le> ds_count stat" and "ds_count stat \<le> 15"
  using assms map_of_SomeD [of TITLE_DUEL_BOUNDARY "ds_count stat"]
  by (auto simp: duel_required_lead_def TITLE_DUEL_BOUNDARY_def split: option.splits)

end
