(* ===== verification/Ledger.thy ===== *)
theory Ledger
  imports Dueling
begin

section \<open>The public score ledger\<close>

text \<open>
  The wire rows of \<^verbatim>\<open>ditto/api_models/validator.py\<close> as the folds read them. Identifiers:
  an agent id is a UUID, compared by its 128-bit integer value, so it is a \<^typ>\<open>nat\<close>; a
  \<^verbatim>\<open>datetime\<close> is its UTC microsecond count, an \<^typ>\<open>int\<close>. Fields no fold reads (digests,
  run ids, signatures, the platform's own projection of the effective composite, the status) are
  left out. \<open>None\<close> is an absent optional field. \<open>n_cases\<close> is \<^verbatim>\<open>n\<close>, which the wire model
  requires but the fold reads with a default, so its absence is representable.

  \<open>wire_entry\<close> states the constraints Pydantic checks on the fields that are kept, together
  with the fact that a parsed number is a binary64 value.
\<close>

record confirmation_record =
  cr_seed :: int
  cr_composite :: pyfloat
  cr_bench_version :: int
  cr_dueling :: "dueling_report option"

record score_proof =
  sp_composite :: pyfloat

record v9_receipt =
  full_effective_micros :: int

record ledger_entry =
  miner_hotkey :: string
  agent_id :: nat
  composite :: pyfloat
  n_cases :: "int option"
  first_seen :: int
  bench_version :: "int option"
  score_proofs :: "score_proof list"
  composite_stderr :: "pyfloat option"
  confirmation_composites :: "pyfloat list option"
  confirmation_seeds :: "int list option"
  confirmation_history :: "confirmation_record list option"
  duel_history :: "confirmation_record list option"
  continual_aggregate_method :: "string option"
  efficiency_bonus :: "pyfloat option"
  efficiency_factor :: "pyfloat option"
  efficiency_curve_version :: "int option"
  v9_confirmation :: "v9_receipt option"
  dueling_season_id :: "string option"
  dueling :: "dueling_report option"

definition opt_all :: "('a \<Rightarrow> bool) \<Rightarrow> 'a option \<Rightarrow> bool" where
  "opt_all P x \<longleftrightarrow> (case x of None \<Rightarrow> True | Some y \<Rightarrow> P y)"

text \<open>A parsed JSON number: not necessarily finite, but a binary64 value.\<close>

definition is_double :: "pyfloat \<Rightarrow> bool" where
  "is_double x \<longleftrightarrow> (case x of Fin q \<Rightarrow> is64 q | _ \<Rightarrow> True)"

definition wire_record :: "confirmation_record \<Rightarrow> bool" where
  "wire_record r \<longleftrightarrow> cr_seed r \<ge> 0 \<and> unit64 (cr_composite r) \<and> cr_bench_version r \<ge> 1"

definition wire_entry :: "ledger_entry \<Rightarrow> bool" where
  "wire_entry e \<longleftrightarrow> unit64 (composite e)
     \<and> opt_all (\<lambda>n. n \<ge> 0) (n_cases e)
     \<and> opt_all (\<lambda>v. v \<ge> 1) (bench_version e)
     \<and> list_all (\<lambda>p. unit64 (sp_composite p)) (score_proofs e)
     \<and> opt_all (\<lambda>s. is_double s \<and> fle (Fin 0) s) (composite_stderr e)
     \<and> opt_all (list_all is_double) (confirmation_composites e)
     \<and> opt_all (list_all wire_record) (confirmation_history e)
     \<and> opt_all (list_all wire_record) (duel_history e)
     \<and> opt_all (\<lambda>m. m = ''mean_after_quorum'') (continual_aggregate_method e)
     \<and> opt_all (\<lambda>b. is_double b \<and> fle (Fin 0) b \<and> fle b (rnd64 (1 / 10))) (efficiency_bonus e)
     \<and> opt_all (\<lambda>f. is_double f \<and> flt (Fin 0) f) (efficiency_factor e)
     \<and> opt_all (\<lambda>v. v \<ge> 3) (efficiency_curve_version e)
     \<and> opt_all (\<lambda>r. 0 \<le> full_effective_micros r \<and> full_effective_micros r \<le> 1000000) (v9_confirmation e)"

text \<open>The crown rules served with the ledger (\<^verbatim>\<open>weights.CrownGate\<close>, \<^verbatim>\<open>koth.CrownGate\<close>).\<close>

record crown_gate =
  min_shared_seeds :: int
  standing_rank :: int
  duel_window :: "int option"

text \<open>A row with only the required fields, for examples.\<close>

definition plain_entry :: "string \<Rightarrow> nat \<Rightarrow> pyfloat \<Rightarrow> int \<Rightarrow> ledger_entry" where
  "plain_entry hk aid c seen =
     \<lparr>miner_hotkey = hk, agent_id = aid, composite = c, n_cases = Some 114, first_seen = seen,
      bench_version = None, score_proofs = [], composite_stderr = None,
      confirmation_composites = None, confirmation_seeds = None, confirmation_history = None,
      duel_history = None, continual_aggregate_method = None, efficiency_bonus = None,
      efficiency_factor = None, efficiency_curve_version = None, v9_confirmation = None,
      dueling_season_id = None, dueling = None\<rparr>"

subsection \<open>Results of float operations are doubles\<close>

lemma is_double_simps [simp]: "is_double (Fin q) \<longleftrightarrow> is64 q" "is_double PInf" "is_double NInf" "is_double NaN"
  by (simp_all add: is_double_def)

lemma is_double_rnd64 [simp]: "is_double (rnd64 q)"
  by (cases "rnd64 q") (auto intro: rnd64_Fin_is64)

lemma is_double_ops [simp]:
  "is_double (fadd x y)" "is_double (fmul x y)" "is_double (fdiv x y)" "is_double (itruediv a b)" "is_double (fint a)"
proof -
  show "is_double (fadd x y)" by (cases x; cases y) auto
  show "is_double (fmul x y)" by (cases x; cases y) (auto simp: fmul_def signed_inf_def)
  show "is_double (fdiv x y)" by (cases x; cases y) (auto simp: fdiv_def signed_inf_def)
  show "is_double (itruediv a b)" "is_double (fint a)" by (simp_all add: itruediv_def fint_def)
qed

lemma unit64_is_double: "unit64 x \<Longrightarrow> is_double x"
  by (auto elim: unit64E)

lemma fadd_nonneg_ge:
  assumes "nonneg b" "is_double x" "flt (fadd x b) y" shows "flt x y"
proof (cases x)
  case (Fin q)
  have *: "Fin q \<le> rnd64 (q + r)" if "0 \<le> r" for r
    using that assms(2) Fin by (intro b64.rd_ge) auto
  have "Fin q \<le> fadd x b" using assms(1,3) Fin * by (cases b) auto
  with assms(3) Fin show ?thesis by (auto simp: flt_def)
qed (use assms in \<open>cases b; auto simp: flt_def\<close>)+

end
