(* ===== verification/Weights_Score.thy ===== *)
theory Weights_Score
  imports Ledger Title_Duel
begin

section \<open>The validator's reading of one ledger row\<close>

text \<open>
  Models the per-row half of \<^verbatim>\<open>ditto/validator/weights.py\<close>: eligibility, dueling season,
  confirmation evidence, the continual aggregate, the relative-efficiency transform and the
  score the fold ranks on. The checks \<^verbatim>\<open>isinstance(x, (int, float))\<close> of the source are
  discharged by the types of the wire row; its finiteness and range checks are kept.
\<close>

definition DEFAULT_BENCH_VERSION :: int where "DEFAULT_BENCH_VERSION = 1"
definition MIN_ELIGIBLE_CASES :: int where "MIN_ELIGIBLE_CASES = 100"
definition RECEIPT_CONTRACT_VERSIONS :: "int set" where
  "RECEIPT_CONTRACT_VERSIONS = {9, 10, 11, 12, 13, 14, 15, 16, 17}"
definition TOP5_MIN_CONFIRMATION_SEEDS :: int where "TOP5_MIN_CONFIRMATION_SEEDS = 8"
definition TOP5_MAX_CONFIRMATION_SEEDS :: nat where "TOP5_MAX_CONFIRMATION_SEEDS = 15"

subsection \<open>Version, eligibility, dueling season\<close>

definition entry_version :: "ledger_entry \<Rightarrow> int" where
  "entry_version e = (case bench_version e of Some v \<Rightarrow> if v > 0 then v else DEFAULT_BENCH_VERSION
                      | None \<Rightarrow> DEFAULT_BENCH_VERSION)"

definition max_bench_version :: "ledger_entry list \<Rightarrow> int" where
  "max_bench_version es = (case map entry_version es of [] \<Rightarrow> DEFAULT_BENCH_VERSION | v # vs \<Rightarrow> foldl max v vs)"

definition entry_eligible :: "ledger_entry \<Rightarrow> bool" where
  "entry_eligible e = (case n_cases e of None \<Rightarrow> True | Some n \<Rightarrow> n \<ge> MIN_ELIGIBLE_CASES)"

definition is_dueling_entry :: "ledger_entry \<Rightarrow> bool" where
  "is_dueling_entry e = is_dueling_bench_version (entry_version e)"

definition entry_dueling :: "ledger_entry \<Rightarrow> dueling_report option" where
  "entry_dueling e = dueling e"

definition entry_season :: "ledger_entry \<Rightarrow> string option" where
  "entry_season e = (case entry_dueling e of
     None \<Rightarrow> None
   | Some report \<Rightarrow> (case dueling_season_id e of
       None \<Rightarrow> Some (season_id report)
     | Some season \<Rightarrow> if season = season_id report then Some season else None))"

definition dueling_fold_ready :: "ledger_entry \<Rightarrow> bool" where
  "dueling_fold_ready e \<longleftrightarrow> \<not> is_dueling_entry e \<or> entry_season e \<noteq> None"

definition dueling_fold_dropped :: "ledger_entry list \<Rightarrow> ledger_entry list" where
  "dueling_fold_dropped es = filter (\<lambda>e. \<not> dueling_fold_ready e) es"

definition filter_eligible :: "ledger_entry list \<Rightarrow> ledger_entry list" where
  "filter_eligible es = filter (\<lambda>e. entry_eligible e \<and> dueling_fold_ready e) es"

definition dueling_incomparable :: "ledger_entry \<Rightarrow> ledger_entry \<Rightarrow> bool" where
  "dueling_incomparable a b =
     (if \<not> (is_dueling_entry a \<and> is_dueling_entry b) then False
      else entry_season a = None \<or> entry_season a \<noteq> entry_season b
           \<or> entry_version a \<noteq> entry_version b)"

definition dueling_pair_mask :: "ledger_entry \<Rightarrow> ledger_entry \<Rightarrow> string set option" where
  "dueling_pair_mask a b =
     (if \<not> (is_dueling_entry a \<and> is_dueling_entry b) then None
      else if dueling_incomparable a b then None
      else case (entry_dueling a, entry_dueling b) of
        (Some ra, Some rb) \<Rightarrow> Some {owner_key ra, owner_key rb}
      | _ \<Rightarrow> None)"

definition filter_weight_confirmed :: "ledger_entry list \<Rightarrow> bool \<Rightarrow> ledger_entry list" where
  "filter_weight_confirmed es enforce =
     filter (\<lambda>e. entry_version e \<notin> RECEIPT_CONTRACT_VERSIONS \<or> \<not> enforce
                  \<or> v9_confirmation e \<noteq> None) es"

definition filter_to_latest_version :: "ledger_entry list \<Rightarrow> ledger_entry list" where
  "filter_to_latest_version es = (let latest = max_bench_version es in
     filter (\<lambda>e. entry_version e = latest) es)"

subsection \<open>Confirmation evidence\<close>

definition in_score_range :: "pyfloat \<Rightarrow> bool" where
  "in_score_range x \<longleftrightarrow> isfinite x \<and> fle (Fin 0) x \<and> fle x (Fin 1)"

definition entry_confirmations :: "ledger_entry \<Rightarrow> pyfloat list option" where
  "entry_confirmations e = (case confirmation_composites e of
     None \<Rightarrow> None
   | Some v \<Rightarrow> if length v < 2 then None
               else if list_all in_score_range v then Some v else None)"

text \<open>The append-only history collapses to one median per seed, the smallest seeds first and at
  most the compiled ceiling of them.\<close>

definition entry_confirmation_history :: "ledger_entry \<Rightarrow> (int, pyfloat) dict option" where
  "entry_confirmation_history e = (case confirmation_history e of
     None \<Rightarrow> None
   | Some records \<Rightarrow>
      (let grouped = group_pairs [] (map (\<lambda>r. (cr_seed r, cr_composite r))
             (filter (\<lambda>r. cr_seed r \<ge> 0 \<and> in_score_range (cr_composite r)) records));
           collapsed = map (\<lambda>(seed, values). (seed, median values)) grouped
       in if grouped = [] then None
          else Some (take TOP5_MAX_CONFIRMATION_SEEDS (sort_key fst collapsed))))"

definition record_masked_composite ::
  "ledger_entry \<Rightarrow> confirmation_record \<Rightarrow> string set \<Rightarrow> pyfloat option" where
  "record_masked_composite e record owners = (case (cr_dueling record, entry_dueling e) of
     (Some report, Some entry_report) \<Rightarrow>
       if Some (season_id report) \<noteq> entry_season e \<or> owner_key report \<noteq> owner_key entry_report
          \<or> cr_bench_version record \<noteq> entry_version e then None
       else let v = dueling_composite (datagen_raw report) (datagen_gate report) (columns report) owners
            in if in_score_range v then Some v else None
   | _ \<Rightarrow> None)"

definition dueling_seed_composites ::
  "ledger_entry \<Rightarrow> string set \<Rightarrow> (int, pyfloat) dict option" where
  "dueling_seed_composites e owners =
     (case (entry_confirmation_history e, confirmation_history e) of
        (Some window, Some records) \<Rightarrow>
          (let grouped = group_pairs [] (concat (map (\<lambda>r.
                  if cr_seed r \<notin> set (dict_keys window) then []
                  else case record_masked_composite e r owners of
                         None \<Rightarrow> [] | Some v \<Rightarrow> [(cr_seed r, v)]) records))
           in if grouped = [] then None
              else Some (map (\<lambda>(seed, values). (seed, median values)) (sort_key fst grouped)))
      | _ \<Rightarrow> None)"

text \<open>The loop over zipped seeds and composites, which gives up at the first bad or repeated seed.\<close>

fun align_seeds :: "(int, pyfloat) dict \<Rightarrow> (int \<times> pyfloat) list \<Rightarrow> (int, pyfloat) dict option" where
  "align_seeds out [] = Some out"
| "align_seeds out ((s, c) # rest) =
     (if s < 0 \<or> s \<in> set (dict_keys out) then None else align_seeds (dict_set s c out) rest)"

definition entry_seed_composites ::
  "ledger_entry \<Rightarrow> string set option \<Rightarrow> (int, pyfloat) dict option" where
  "entry_seed_composites e owners =
     (if entry_version e \<in> RECEIPT_CONTRACT_VERSIONS \<and> v9_confirmation e \<noteq> None then None
      else case owners of
        Some m \<Rightarrow> dueling_seed_composites e m
      | None \<Rightarrow> (case entry_confirmation_history e of
          Some history \<Rightarrow> Some history
        | None \<Rightarrow> (case (entry_confirmations e, confirmation_seeds e) of
            (Some comps, Some seeds) \<Rightarrow>
              if length seeds \<noteq> length comps then None else align_seeds [] (zip seeds comps)
          | _ \<Rightarrow> None)))"

subsection \<open>Relative efficiency\<close>

definition efficiency_curve :: "ledger_entry \<Rightarrow> int" where
  "efficiency_curve e = (case efficiency_curve_version e of
     Some v \<Rightarrow> if v \<ge> 3 then v else 3 | None \<Rightarrow> 3)"

definition bounded_efficiency_factor :: "ledger_entry \<Rightarrow> pyfloat option" where
  "bounded_efficiency_factor e = (case efficiency_factor e of
     None \<Rightarrow> None
   | Some factor \<Rightarrow>
       if entry_version e < 9 then Some (Fin 1)
       else if entry_version e = 9 \<and> v9_confirmation e = None then Some (Fin 1)
       else if \<not> isfinite factor \<or> fle factor (Fin 0) then Some (Fin 1)
       else if efficiency_curve e < 4
               \<and> \<not> (fle (rnd64 (85 / 100)) factor \<and> fle factor (rnd64 (11 / 10))) then Some (Fin 1)
       else Some factor)"

definition efficiency_multiplier :: "ledger_entry \<Rightarrow> pyfloat" where
  "efficiency_multiplier e = (case bounded_efficiency_factor e of
     Some factor \<Rightarrow> factor
   | None \<Rightarrow> (case efficiency_bonus e of
       None \<Rightarrow> Fin 1
     | Some bonus \<Rightarrow> if \<not> isfinite bonus \<or> \<not> (fle (Fin 0) bonus \<and> fle bonus (rnd64 (1 / 10))) then Fin 1
                     else fadd (Fin 1) bonus))"

definition efficiency_adjusted_composite :: "ledger_entry \<Rightarrow> pyfloat \<Rightarrow> pyfloat" where
  "efficiency_adjusted_composite e quality = (case bounded_efficiency_factor e of
     Some factor \<Rightarrow>
       if fle factor (Fin 1) then fmul quality factor
       else if efficiency_curve e \<ge> 4
       then fadd quality (fmul (fsub (Fin 1) quality) (fsub (Fin 1) (fdiv (Fin 1) factor)))
       else fadd quality (fmul (fsub factor (Fin 1)) (fsub (Fin 1) quality))
   | None \<Rightarrow> fmul quality (efficiency_multiplier e))"

definition effective_score_ceiling :: "ledger_entry \<Rightarrow> pyfloat" where
  "effective_score_ceiling e = (case bounded_efficiency_factor e of
     Some factor \<Rightarrow> if fle factor (Fin 1) then factor else Fin 1
   | None \<Rightarrow> efficiency_multiplier e)"

definition efficiency_stderr_scale :: "ledger_entry \<Rightarrow> pyfloat" where
  "efficiency_stderr_scale e = (case bounded_efficiency_factor e of
     Some factor \<Rightarrow> if fle factor (Fin 1) then factor
       else if efficiency_curve e \<ge> 4 then fdiv (Fin 1) factor
       else fsub (Fin 2) factor
   | None \<Rightarrow> efficiency_multiplier e)"

definition quality_primary_efficiency_active :: "ledger_entry list \<Rightarrow> bool" where
  "quality_primary_efficiency_active es = list_ex (\<lambda>e. bounded_efficiency_factor e \<noteq> None) es"

subsection \<open>Quality and effective score\<close>

definition continual_composite :: "ledger_entry \<Rightarrow> pyfloat" where
  "continual_composite e =
     (let history = entry_confirmation_history e;
          quorum = map sp_composite (score_proofs e);
          fallback = (case (case history of Some h \<Rightarrow> Some (sort (dict_values h))
                             | None \<Rightarrow> entry_confirmations e) of
              None \<Rightarrow> composite e
            | Some vals \<Rightarrow> if length vals < 2 then composite e else median vals)
      in case history of
           Some h \<Rightarrow>
             if continual_aggregate_method e = Some ''mean_after_quorum'' \<and> length quorum = 3 \<and> h \<noteq> []
                \<and> list_all in_score_range quorum
             then let samples = quorum @ map snd (sort_key fst h)
                  in fdiv (fsum samples) (fint (int (length samples)))
             else fallback
         | None \<Rightarrow> fallback)"

definition quality_composite :: "ledger_entry \<Rightarrow> pyfloat" where
  "quality_composite e = (case v9_confirmation e of
     Some receipt \<Rightarrow> if entry_version e \<in> RECEIPT_CONTRACT_VERSIONS
       then itruediv (full_effective_micros receipt) 1000000 else continual_composite e
   | None \<Rightarrow> continual_composite e)"

definition effective_composite :: "ledger_entry \<Rightarrow> pyfloat" where
  "effective_composite e = efficiency_adjusted_composite e (quality_composite e)"

definition dethrone_composite :: "ledger_entry \<Rightarrow> bool \<Rightarrow> pyfloat" where
  "dethrone_composite e quality_primary =
     (if quality_primary then quality_composite e else effective_composite e)"

definition entry_stderr :: "ledger_entry \<Rightarrow> pyfloat option" where
  "entry_stderr e = (case composite_stderr e of
     None \<Rightarrow> None | Some v \<Rightarrow> if isfinite v \<and> fle (Fin 0) v then Some v else None)"

type_synonym rank_key = "pyfloat \<times> pyfloat \<times> int \<times> nat"

definition ranking_key :: "bool \<Rightarrow> ledger_entry \<Rightarrow> rank_key" where
  "ranking_key quality_primary e =
     (let effective = effective_composite e;
          primary = (if quality_primary then quality_composite e else effective)
      in (fneg primary, fneg effective, first_seen e, agent_id e))"

definition scored_pool :: "ledger_entry list \<Rightarrow> ledger_entry list" where
  "scored_pool es = filter (\<lambda>e. flt (Fin 0) (effective_composite e)) (filter_eligible es)"

subsection \<open>Laws of the pool\<close>

interpretation rank: canonical_order "ranking_key q" agent_id
  by unfold_locales (simp add: ranking_key_def Let_def)

lemma filter_perm: "mset xs = mset ys \<Longrightarrow> mset (filter P xs) = mset (filter P ys)"
  by (simp add: mset_filter)

lemma scored_pool_perm: "mset es = mset es' \<Longrightarrow> mset (scored_pool es) = mset (scored_pool es')"
  by (simp add: scored_pool_def filter_eligible_def mset_filter)

lemma distinct_scored_pool: "distinct (map agent_id es) \<Longrightarrow> distinct (map agent_id (scored_pool es))"
  by (simp add: scored_pool_def filter_eligible_def distinct_map_filter)

lemma in_scored_pool:
  "e \<in> set (scored_pool es) \<longleftrightarrow>
     e \<in> set es \<and> entry_eligible e \<and> dueling_fold_ready e \<and> flt (Fin 0) (effective_composite e)"
  by (auto simp: scored_pool_def filter_eligible_def)

lemma quality_primary_perm:
  "mset es = mset es' \<Longrightarrow> quality_primary_efficiency_active es = quality_primary_efficiency_active es'"
  unfolding quality_primary_efficiency_active_def by (rule list_ex_perm)

subsection \<open>Scores of wire rows\<close>

lemma wire_record_unit: "wire_record r \<Longrightarrow> unit64 (cr_composite r)"
  by (simp add: wire_record_def)

lemma history_distinct:
  assumes "entry_confirmation_history e = Some h" shows "distinct (dict_keys h)"
proof -
  from assms obtain kvs where h: "h = take TOP5_MAX_CONFIRMATION_SEEDS
      (sort_key fst (map (\<lambda>(s, vs). (s, median vs)) (group_pairs [] kvs)))"
    by (auto simp: entry_confirmation_history_def Let_def split: option.splits if_splits)
  have "map fst (map (\<lambda>(s, vs). (s, median vs)) (group_pairs [] kvs)) = dict_keys (group_pairs [] kvs)"
    by (simp add: case_prod_beta comp_def)
  then have "distinct (map fst (map (\<lambda>(s, vs). (s, median vs)) (group_pairs [] kvs)))"
    by (simp only: distinct_group_pairs distinct.simps list.map)
  then have "distinct (map fst (sort_key fst (map (\<lambda>(s, vs). (s, median vs)) (group_pairs [] kvs))))"
    by (metis distinct_map_perm mset_sort)
  then show ?thesis unfolding h by (metis distinct_take take_map)
qed

lemma history_sorted:
  "entry_confirmation_history e = Some h \<Longrightarrow> sorted (dict_keys h)"
  by (auto simp: entry_confirmation_history_def Let_def take_map [symmetric] intro: sorted_wrt_take
      split: option.splits if_splits)

lemma history_length:
  "entry_confirmation_history e = Some h \<Longrightarrow> 1 \<le> length h \<and> length h \<le> TOP5_MAX_CONFIRMATION_SEEDS"
proof -
  assume "entry_confirmation_history e = Some h"
  then obtain kvs where ne: "group_pairs [] kvs \<noteq> []" and h: "h = take TOP5_MAX_CONFIRMATION_SEEDS
      (sort_key fst (map (\<lambda>(s, vs). (s, median vs)) (group_pairs [] kvs)))"
    by (auto simp: entry_confirmation_history_def Let_def split: option.splits if_splits)
  have "length h = min (length (group_pairs [] kvs)) TOP5_MAX_CONFIRMATION_SEEDS" by (simp add: h)
  moreover have "1 \<le> length (group_pairs [] kvs)" using ne by (cases "group_pairs [] kvs") auto
  ultimately show ?thesis by (simp add: TOP5_MAX_CONFIRMATION_SEEDS_def)
qed

lemma history_unit:
  assumes "wire_entry e" "entry_confirmation_history e = Some h" "v \<in> set (dict_values h)"
  shows "unit64 v"
proof -
  from assms(2) obtain records where rs: "confirmation_history e = Some records"
    and h: "h = take TOP5_MAX_CONFIRMATION_SEEDS (sort_key fst (map (\<lambda>(s, vs). (s, median vs))
       (group_pairs [] (map (\<lambda>r. (cr_seed r, cr_composite r))
         (filter (\<lambda>r. cr_seed r \<ge> 0 \<and> in_score_range (cr_composite r)) records)))))"
    by (auto simp: entry_confirmation_history_def Let_def split: option.splits if_splits)
  let ?kvs = "map (\<lambda>r. (cr_seed r, cr_composite r)) (filter (\<lambda>r. cr_seed r \<ge> 0 \<and> in_score_range (cr_composite r)) records)"
  from assms(3) h obtain s vs where g: "(s, vs) \<in> set (group_pairs [] ?kvs)" "v = median vs"
    by (auto dest!: in_set_takeD)
  have "\<forall>r\<in>set records. unit64 (cr_composite r)"
    using assms(1) rs by (auto simp: wire_entry_def opt_all_def list_all_iff wire_record_unit)
  then have "\<forall>x\<in>snd ` set ?kvs. unit64 x" by auto
  with group_pairs_nonempty [OF g(1)] have "vs \<noteq> []" "list_all unit64 vs"
    by (auto simp: list_all_iff)
  with g(2) show ?thesis by (simp add: median_unit)
qed

lemma median_double: "xs \<noteq> [] \<Longrightarrow> list_all is_double xs \<Longrightarrow> is_double (median xs)"
  using is_median [of xs] by (auto simp: list_all_iff)

lemma efficiency_adjusted_double: "is_double (efficiency_adjusted_composite e q)"
  by (auto simp: efficiency_adjusted_composite_def split: option.splits)

lemma continual_double:
  assumes "wire_entry e" shows "is_double (continual_composite e)"
proof -
  have c: "is_double (composite e)" using assms by (auto simp: wire_entry_def unit64_is_double)
  have "is_double (median (sort (dict_values h)))" if "entry_confirmation_history e = Some h" "\<not> length h < 2" for h
  proof (rule median_double)
    have "length (sort (dict_values h)) \<noteq> 0" using that(2) by auto
    then show "sort (dict_values h) \<noteq> []" by (metis list.size(3))
    show "list_all is_double (sort (dict_values h))"
      using history_unit [OF assms that(1)] by (simp add: list_all_iff unit64_is_double)
  qed
  moreover have "is_double (median v)" if "entry_confirmations e = Some v" "\<not> length v < 2" for v
  proof (rule median_double)
    show "v \<noteq> []" using that(2) by auto
    have "confirmation_composites e = Some v"
      using that(1) by (auto simp: entry_confirmations_def split: option.splits if_splits)
    moreover have "opt_all (list_all is_double) (confirmation_composites e)"
      using assms by (simp add: wire_entry_def)
    ultimately show "list_all is_double v" by (simp add: opt_all_def)
  qed
  ultimately show ?thesis using c
    by (auto simp: continual_composite_def Let_def split: option.splits)
qed

lemma dethrone_composite_double: "wire_entry e \<Longrightarrow> is_double (dethrone_composite e q)"
  by (auto simp: dethrone_composite_def quality_composite_def effective_composite_def
      continual_double efficiency_adjusted_double split: option.splits)

subsection \<open>The ceiling of the efficiency transform\<close>

lemma fmul_le_factor:
  assumes "unit64 q" "is_double f" "fle (Fin 0) f" "isfinite f" shows "fle (fmul q f) f"
proof -
  obtain x where x: "q = Fin x" "0 \<le> x" "x \<le> 1" using assms(1) by (elim unit64E)
  obtain y where y: "f = Fin y" "0 \<le> y" "is64 y" using assms by (auto simp: isfinite_iff)
  have "x * y \<le> y" using x y by (intro mult_left_le_one_le) simp_all
  with y have "rnd64 (x * y) \<le> Fin y" by (intro b64.rd_le)
  with x y show ?thesis by (simp add: float_simps fle_def)
qed

lemma asymptotic_le_one:
  assumes "unit64 q" "unit64 a"
  shows "fle (fadd q (fmul (fsub (Fin 1) q) a)) (Fin 1)"
proof -
  obtain x where x: "q = Fin x" "0 \<le> x" "x \<le> 1" using assms(1) by (elim unit64E)
  obtain y where y: "a = Fin y" "0 \<le> y" "y \<le> 1" using assms(2) by (elim unit64E)
  obtain v where v: "rnd64 (1 - x) = Fin v" "0 \<le> v" "v \<le> 1" "is64 v"
    by (rule b64.rd_between [of 0 1 "1 - x"]) (use x in auto)
  have "v * y \<le> v" "0 \<le> v * y" using v y by (simp_all add: mult_left_le)
  then obtain h where h: "rnd64 (v * y) = Fin h" "h \<le> v" "0 \<le> h"
    using v by (auto intro: b64.rd_between [of 0 v "v * y"])
  have "rnd64 (x + h) \<le> Fin 1" by (rule headroom_sum [OF x(2,3) v(1) h(2)])
  with x y v h show ?thesis by (simp add: float_simps fle_def)
qed

lemma bounded_factor_cases:
  assumes "wire_entry e" "bounded_efficiency_factor e = Some f"
  shows "is_double f" and "flt (Fin 0) f" and "isfinite f"
    and "efficiency_curve e < 4 \<Longrightarrow> fle f (rnd64 (11 / 10))"
proof -
  have w: "opt_all (\<lambda>f. is_double f \<and> flt (Fin 0) f) (efficiency_factor e)" using assms(1) by (simp add: wire_entry_def)
  have "Fin 1 \<le> rnd64 (11 / 10)" by (rule b64.rd_ge) simp_all
  then show "is_double f" "flt (Fin 0) f" "isfinite f" "efficiency_curve e < 4 \<Longrightarrow> fle f (rnd64 (11 / 10))"
    using w assms(2) by (auto simp: bounded_efficiency_factor_def opt_all_def fle_def split: option.splits if_splits)
qed

lemma inverse_unit: "is_double f \<Longrightarrow> isfinite f \<Longrightarrow> \<not> fle f (Fin 1) \<Longrightarrow> unit64 (fdiv (Fin 1) f)"
  by (auto simp: isfinite_iff float_simps intro!: rnd64_unit)

lemma factor_minus_one_unit:
  assumes "\<not> fle f (Fin 1)" "fle f (rnd64 (11 / 10))" shows "unit64 (fsub f (Fin 1))"
proof -
  have "rnd64 (11 / 10) \<le> Fin 2" by (rule b64.rd_le) simp_all
  with assms have "fle f (Fin 2)" by (auto simp: fle_def)
  with assms(1) obtain y where "f = Fin y" "1 < y" "y \<le> 2" by (cases f) (auto simp: fle_def)
  then show ?thesis by (simp add: float_simps rnd64_unit)
qed

lemma fmul_commute: "fmul x y = fmul y x"
  by (cases x; cases y) (simp_all add: fmul_def mult.commute)

lemma adjusted_below_ceiling:
  assumes w: "wire_entry e" and q: "unit64 q"
  shows "fle (efficiency_adjusted_composite e q) (effective_score_ceiling e)"
proof (cases "bounded_efficiency_factor e")
  case None
  have "is_double (efficiency_multiplier e) \<and> fle (Fin 0) (efficiency_multiplier e) \<and> isfinite (efficiency_multiplier e)"
  proof -
    have bonus: "fle (Fin 0) (fadd (Fin 1) (Fin b)) \<and> isfinite (fadd (Fin 1) (Fin b))" if "0 \<le> b" "Fin b \<le> rnd64 (1 / 10)" for b
    proof -
      have "rnd64 (1 / 10) \<le> Fin 1" by (rule b64.rd_le) simp_all
      with that(2) have "b \<le> 1" by (meson order_trans pyfloat_le_simps(1))
      with that(1) show ?thesis by (auto simp: fle_def intro: b64.rd_between [of 0 2 "1 + b"])
    qed
    then show ?thesis
      using None by (auto simp: efficiency_multiplier_def isfinite_iff fle_def split: option.splits)
  qed
  with None q show ?thesis by (simp add: efficiency_adjusted_composite_def effective_score_ceiling_def fmul_le_factor)
next
  case (Some f)
  note f = bounded_factor_cases [OF w Some]
  have f0: "fle (Fin 0) f" using f(2) by (auto simp: flt_def fle_def)
  show ?thesis
  proof (cases "fle f (Fin 1)")
    case True
    with Some f f0 q show ?thesis
      by (simp add: efficiency_adjusted_composite_def effective_score_ceiling_def fmul_le_factor)
  next
    case False
    have a4: "fle (fadd q (fmul (fsub (Fin 1) q) (fsub (Fin 1) (fdiv (Fin 1) f)))) (Fin 1)"
      by (rule asymptotic_le_one [OF q one_minus_unit [OF inverse_unit [OF f(1,3) False]]])
    have a3: "fle (fadd q (fmul (fsub f (Fin 1)) (fsub (Fin 1) q))) (Fin 1)" if "efficiency_curve e < 4"
      unfolding fmul_commute [of "fsub f (Fin 1)"]
      by (rule asymptotic_le_one [OF q factor_minus_one_unit [OF False f(4) [OF that]]])
    from Some False a4 a3 show ?thesis
      by (simp add: efficiency_adjusted_composite_def effective_score_ceiling_def)
  qed
qed

subsection \<open>Properties\<close>

text \<open>C30: The score ceiling is a ceiling: no quality a wire row could reach is transformed by its
  efficiency factor or bonus to more than the row's effective score ceiling, in float arithmetic,
  on every curve version.\<close>

theorem score_ceiling_sound:
  assumes "wire_entry e" and "unit64 quality"
  shows "fle (efficiency_adjusted_composite e quality) (effective_score_ceiling e)"
  by (rule adjusted_below_ceiling [OF assms])

theorem score_ceiling_sound_witness:
  "fle (efficiency_adjusted_composite (plain_entry ''m'' 1 (Fin 1) 0) (Fin 1))
       (effective_score_ceiling (plain_entry ''m'' 1 (Fin 1) 0))"
  by (rule score_ceiling_sound) (simp_all add: wire_entry_def plain_entry_def opt_all_def)

text \<open>The confirmation evidence of a row is a window of at most fifteen seeds, each once, in
  increasing order, however many records its append-only history holds.\<close>

theorem confirmation_window:
  "case entry_confirmation_history e of
     None \<Rightarrow> opt_all (\<lambda>rs. filter (\<lambda>r. cr_seed r \<ge> 0 \<and> in_score_range (cr_composite r)) rs = []) (confirmation_history e)
   | Some h \<Rightarrow> distinct (dict_keys h) \<and> sorted (dict_keys h) \<and> 1 \<le> length h \<and> length h \<le> 15"
proof (cases "entry_confirmation_history e")
  case None
  have "kvs = []" if "group_pairs [] kvs = []" for kvs :: "(int \<times> pyfloat) list"
    using group_pairs_keys [of "[]" kvs] that by simp
  with None show ?thesis
    by (auto simp: entry_confirmation_history_def opt_all_def Let_def split: option.splits if_splits)
next
  case (Some h)
  then show ?thesis
    using history_distinct [OF Some] history_sorted [OF Some] history_length [OF Some]
    by (simp add: TOP5_MAX_CONFIRMATION_SEEDS_def)
qed

end
