(* ===== verification/Weights_Dethrone.thy ===== *)
theory Weights_Dethrone
  imports Weights_Score
begin

section \<open>The validator's dethrone test\<close>

text \<open>
  Models the pairwise half of \<^verbatim>\<open>ditto/validator/weights.py\<close>: the indifference band with its
  high-score decay and its ceiling cap, the paired shared-seed statistic, the protocol-35 title
  duel, and \<open>beats\<close>, the test by which a challenger takes the crown. The C library's
  \<^verbatim>\<open>exp\<close> and \<^verbatim>\<open>pow\<close> are the argument \<open>M\<close>.
\<close>

definition KOTH_BAND_DECAY_MIN_BENCH_VERSION :: int where "KOTH_BAND_DECAY_MIN_BENCH_VERSION = 6"
definition KOTH_BAND_DECAY_START_COMPOSITE :: pyfloat where "KOTH_BAND_DECAY_START_COMPOSITE = rnd64 (60 / 100)"
definition KOTH_BAND_DECAY_RATE :: pyfloat where "KOTH_BAND_DECAY_RATE = Fin 2"
definition KOTH_CEILING_HEADROOM_SHARE :: pyfloat where "KOTH_CEILING_HEADROOM_SHARE = Fin (1 / 2)"
definition KOTH_STATISTICAL_BAND_CAP_MULTIPLE :: pyfloat where "KOTH_STATISTICAL_BAND_CAP_MULTIPLE = Fin 2"
definition KOTH_MARGIN :: pyfloat where "KOTH_MARGIN = rnd64 (7 / 1000)"
definition KOTH_DETHRONE_Z :: pyfloat where "KOTH_DETHRONE_Z = rnd64 (164 / 100)"
definition KOTH_TAIL_SIZE :: int where "KOTH_TAIL_SIZE = 4"
definition KOTH_RANK_SHARES :: "pyfloat list" where
  "KOTH_RANK_SHARES = [rnd64 (65 / 100), rnd64 (14 / 100), rnd64 (10 / 100), rnd64 (7 / 100), rnd64 (4 / 100)]"

subsection \<open>The band\<close>

definition dethrone_band_scale :: "libm \<Rightarrow> ledger_entry \<Rightarrow> ledger_entry \<Rightarrow> pyfloat \<Rightarrow> pyfloat" where
  "dethrone_band_scale M challenger champion champion_composite =
     (if min (entry_version challenger) (entry_version champion) < KOTH_BAND_DECAY_MIN_BENCH_VERSION
      then Fin 1
      else let bounded = pmin (pmax champion_composite KOTH_BAND_DECAY_START_COMPOSITE) (Fin 1)
           in lm_exp M (fmul (fneg KOTH_BAND_DECAY_RATE) (fsub bounded KOTH_BAND_DECAY_START_COMPOSITE)))"

definition ceiling_capped_band ::
  "pyfloat \<Rightarrow> ledger_entry \<Rightarrow> ledger_entry \<Rightarrow> pyfloat \<Rightarrow> bool \<Rightarrow> pyfloat" where
  "ceiling_capped_band band challenger champion champion_score active =
     (if \<not> active then band
      else if min (entry_version challenger) (entry_version champion) < KOTH_BAND_DECAY_MIN_BENCH_VERSION
      then band
      else let quality_primary = quality_primary_efficiency_active [challenger, champion];
               ceiling = (if quality_primary then Fin 1 else effective_score_ceiling challenger);
               headroom = fsub ceiling champion_score
           in if fle headroom (Fin 0) then Fin 0
              else pmin band (fmul KOTH_CEILING_HEADROOM_SHARE headroom))"

definition capped_statistical_band :: "pyfloat \<Rightarrow> pyfloat \<Rightarrow> pyfloat" where
  "capped_statistical_band margin statistical =
     pmin statistical (fmul KOTH_STATISTICAL_BAND_CAP_MULTIPLE margin)"

definition indifference_band :: "pyfloat \<Rightarrow> pyfloat option \<Rightarrow> bool \<Rightarrow> pyfloat" where
  "indifference_band margin statistical capped = (case statistical of
     None \<Rightarrow> margin
   | Some s \<Rightarrow> pmax margin (if capped then capped_statistical_band margin s else s))"

definition unpaired_statistical_band ::
  "ledger_entry \<Rightarrow> ledger_entry \<Rightarrow> pyfloat \<Rightarrow> pyfloat option" where
  "unpaired_statistical_band challenger champion dethrone_z =
     (if fle dethrone_z (Fin 0) then None
      else case (entry_stderr challenger, entry_stderr champion) of
        (Some se_c, Some se_champ) \<Rightarrow>
          (let qp = quality_primary_efficiency_active [challenger, champion];
               c = (if qp then se_c else fmul se_c (efficiency_stderr_scale challenger));
               k = (if qp then se_champ else fmul se_champ (efficiency_stderr_scale champion))
           in Some (fmul dethrone_z (fsqrt (fadd (fmul c c) (fmul k k)))))
      | _ \<Rightarrow> None)"

subsection \<open>The paired statistic\<close>

definition paired_seed_maps ::
  "ledger_entry \<Rightarrow> ledger_entry \<Rightarrow> ((int, pyfloat) dict \<times> (int, pyfloat) dict) option" where
  "paired_seed_maps a b =
     (let owners = dueling_pair_mask a b in
      if is_dueling_entry a \<and> is_dueling_entry b \<and> owners = None then None
      else let m = (if is_dueling_entry a \<and> is_dueling_entry b then owners else None)
           in case (entry_seed_composites a m, entry_seed_composites b m) of
                (Some am, Some bm) \<Rightarrow> Some (am, bm) | _ \<Rightarrow> None)"

text \<open>\<^verbatim>\<open>sorted(set(a) & set(b))\<close>: the shared seeds in increasing order.\<close>

definition common_seeds :: "(int, pyfloat) dict \<Rightarrow> (int, pyfloat) dict \<Rightarrow> int list" where
  "common_seeds a b = sort (remdups (filter (\<lambda>s. s \<in> set (dict_keys b)) (dict_keys a)))"

definition seed_value :: "(int, pyfloat) dict \<Rightarrow> int \<Rightarrow> pyfloat" where
  "seed_value d s = (case dict_get d s of Some v \<Rightarrow> v | None \<Rightarrow> NaN)"

definition seed_score :: "bool \<Rightarrow> ledger_entry \<Rightarrow> pyfloat \<Rightarrow> pyfloat" where
  "seed_score quality_primary e quality =
     (if quality_primary then quality else efficiency_adjusted_composite e quality)"

definition paired_statistic ::
  "libm \<Rightarrow> ledger_entry \<Rightarrow> ledger_entry \<Rightarrow> (pyfloat \<times> pyfloat \<times> pyfloat) option" where
  "paired_statistic M challenger champion = (case paired_seed_maps challenger champion of
     None \<Rightarrow> None
   | Some (chall_map, champ_map) \<Rightarrow>
      (let common = common_seeds chall_map champ_map;
           qp = quality_primary_efficiency_active [challenger, champion];
           champs = map (\<lambda>s. seed_score qp champion (seed_value champ_map s)) common;
           diffs = map (\<lambda>s. fsub (seed_score qp challenger (seed_value chall_map s))
                                   (seed_score qp champion (seed_value champ_map s))) common;
           mean_diff = mean_of diffs
       in if length common < 2 then None
          else Some (mean_diff, mean_of champs, standard_error_of M diffs mean_diff)))"

definition paired_dethrone ::
  "libm \<Rightarrow> ledger_entry \<Rightarrow> ledger_entry \<Rightarrow> pyfloat \<Rightarrow> (pyfloat \<times> pyfloat \<times> pyfloat) option" where
  "paired_dethrone M challenger champion dethrone_z =
     (if fle dethrone_z (Fin 0) then None else paired_statistic M challenger champion)"

definition shared_seed_count :: "ledger_entry \<Rightarrow> ledger_entry \<Rightarrow> nat" where
  "shared_seed_count a b = (case paired_seed_maps a b of
     None \<Rightarrow> 0 | Some (am, bm) \<Rightarrow> length (common_seeds am bm))"

subsection \<open>The title duel\<close>

definition duel_governs :: "ledger_entry \<Rightarrow> ledger_entry \<Rightarrow> crown_gate option \<Rightarrow> bool" where
  "duel_governs challenger champion gate = (case gate of
     None \<Rightarrow> False
   | Some g \<Rightarrow> duel_window g \<noteq> None \<and> is_dueling_entry challenger \<and> is_dueling_entry champion)"

definition entry_duel_records :: "ledger_entry \<Rightarrow> string set \<Rightarrow> season_records option" where
  "entry_duel_records e owners = (case (duel_history e, entry_dueling e) of
     (Some records, Some entry_report) \<Rightarrow>
       (let values = concat (map (\<lambda>r. case cr_dueling r of
              None \<Rightarrow> []
            | Some report \<Rightarrow>
                if cr_seed r < 0 \<or> owner_key report \<noteq> owner_key entry_report
                   \<or> cr_bench_version r \<noteq> entry_version e then []
                else let v = dueling_composite (datagen_raw report) (datagen_gate report) (columns report) owners
                     in if in_score_range v
                        then [(season_seed_key (season_id report) (season_index report) (cr_seed r), v)]
                        else []) records);
            collapsed = collapse_records values
        in if collapsed = [] then None else Some collapsed)
   | _ \<Rightarrow> None)"

definition duel_scored :: "bool \<Rightarrow> ledger_entry \<Rightarrow> season_records \<Rightarrow> season_records" where
  "duel_scored quality_primary e records =
     (if quality_primary then records
      else map (\<lambda>(key, (ix, v)). (key, (ix, efficiency_adjusted_composite e v))) records)"

definition entry_duel_statistic :: "libm \<Rightarrow> ledger_entry \<Rightarrow> ledger_entry \<Rightarrow> int \<Rightarrow> duel_stat option" where
  "entry_duel_statistic M challenger champion window = (case dueling_pair_mask challenger champion of
     None \<Rightarrow> None
   | Some owners \<Rightarrow> (case (entry_duel_records challenger owners, entry_duel_records champion owners) of
       (Some chall, Some champ) \<Rightarrow>
         (let qp = quality_primary_efficiency_active [challenger, champion]
          in duel_statistic M (duel_pairs (duel_scored qp challenger chall)
                                          (duel_scored qp champion champ) window))
     | _ \<Rightarrow> None))"

definition duel_beats ::
  "libm \<Rightarrow> ledger_entry \<Rightarrow> ledger_entry \<Rightarrow> pyfloat \<Rightarrow> int \<Rightarrow> int \<Rightarrow> bool \<Rightarrow> bool" where
  "duel_beats M challenger champion margin window min_shared ceiling_band_clamp =
     (case entry_duel_statistic M challenger champion window of
        None \<Rightarrow> False
      | Some stat \<Rightarrow>
          if int (ds_count stat) < min_shared then False
          else let reference = ds_champion_reference stat;
                   floor = fmul margin (dethrone_band_scale M challenger champion reference)
               in case duel_required_lead stat floor of
                    None \<Rightarrow> False
                  | Some lead \<Rightarrow>
                      let lead' = ceiling_capped_band lead challenger champion reference ceiling_band_clamp
                      in flt (fadd reference lead') (fadd reference (ds_mean_difference stat)))"

definition crown_evidence_count :: "libm \<Rightarrow> ledger_entry \<Rightarrow> ledger_entry \<Rightarrow> crown_gate \<Rightarrow> int" where
  "crown_evidence_count M a b gate =
     (case duel_window gate of
        Some window \<Rightarrow>
          if duel_governs a b (Some gate)
          then (case entry_duel_statistic M a b window of None \<Rightarrow> 0 | Some stat \<Rightarrow> int (ds_count stat))
          else int (shared_seed_count a b)
      | None \<Rightarrow> int (shared_seed_count a b))"

subsection \<open>Taking the crown\<close>

text \<open>The parameters every comparison of one fold shares.\<close>

record fold_rules =
  fr_margin :: pyfloat
  fr_dethrone_z :: pyfloat
  fr_ceiling_band_clamp :: bool
  fr_statistical_band_cap :: bool
  fr_crown_gate :: "crown_gate option"

definition dethrone_scores :: "libm \<Rightarrow> fold_rules \<Rightarrow> ledger_entry \<Rightarrow> ledger_entry \<Rightarrow> pyfloat \<times> pyfloat" where
  "dethrone_scores M R challenger champion =
     (let qp = quality_primary_efficiency_active [challenger, champion] in
      case paired_dethrone M challenger champion (fr_dethrone_z R) of
        Some (mean_diff, champ_ref, se_diff) \<Rightarrow>
          (let base_band = indifference_band (fr_margin R) (Some (fmul (fr_dethrone_z R) se_diff)) True;
               band = fmul base_band (dethrone_band_scale M challenger champion champ_ref);
               band' = ceiling_capped_band band challenger champion champ_ref (fr_ceiling_band_clamp R)
           in (fadd champ_ref mean_diff, fadd champ_ref band'))
      | None \<Rightarrow>
          (let chall = dethrone_composite challenger qp;
               champ = dethrone_composite champion qp;
               band = indifference_band (fr_margin R)
                 (unpaired_statistical_band challenger champion (fr_dethrone_z R)) (fr_statistical_band_cap R);
               band' = fmul band (dethrone_band_scale M challenger champion champ);
               band'' = ceiling_capped_band band' challenger champion champ (fr_ceiling_band_clamp R)
           in (chall, fadd champ band'')))"

definition beats :: "libm \<Rightarrow> fold_rules \<Rightarrow> ledger_entry \<Rightarrow> ledger_entry \<Rightarrow> bool" where
  "beats M R challenger champion =
     (if dueling_incomparable challenger champion then False
      else case fr_crown_gate R of
        None \<Rightarrow> (let (observed, required) = dethrone_scores M R challenger champion in flt required observed)
      | Some gate \<Rightarrow>
          if duel_governs challenger champion (Some gate)
          then (case duel_window gate of
                  Some window \<Rightarrow> duel_beats M challenger champion (fr_margin R) window
                                   (min_shared_seeds gate) (fr_ceiling_band_clamp R)
                | None \<Rightarrow> False)
          else if int (shared_seed_count challenger champion) < min_shared_seeds gate
                  \<or> paired_dethrone M challenger champion (fr_dethrone_z R) = None
          then False
          else let (observed, required) = dethrone_scores M R challenger champion in flt required observed)"

definition score_ceiling_deadlocked :: "libm \<Rightarrow> fold_rules \<Rightarrow> ledger_entry \<Rightarrow> ledger_entry \<Rightarrow> bool" where
  "score_ceiling_deadlocked M R challenger champion =
     (let (observed, required) = dethrone_scores M R challenger champion;
          qp = quality_primary_efficiency_active [challenger, champion];
          ceiling = (if qp then Fin 1 else effective_score_ceiling challenger)
      in fle observed required \<and> fle ceiling required)"

definition weight_tied :: "libm \<Rightarrow> fold_rules \<Rightarrow> ledger_entry \<Rightarrow> ledger_entry \<Rightarrow> bool" where
  "weight_tied M R candidate anchor =
     (if dueling_incomparable candidate anchor then False
      else if quality_primary_efficiency_active [candidate, anchor]
      then feq (quality_composite candidate) (quality_composite anchor)
           \<and> feq (effective_composite candidate) (effective_composite anchor)
      else if feq (effective_composite candidate) (effective_composite anchor) then True
      else case paired_dethrone M candidate anchor (fr_dethrone_z R) of
        None \<Rightarrow> False
      | Some (mean_diff, _, se_diff) \<Rightarrow>
          if \<not> fr_statistical_band_cap R then fle (fabs mean_diff) (fmul (fr_dethrone_z R) se_diff)
          else fle (fabs mean_diff)
                 (capped_statistical_band (fr_margin R) (fmul (fr_dethrone_z R) se_diff)))"

definition unpaired_band :: "libm \<Rightarrow> fold_rules \<Rightarrow> ledger_entry \<Rightarrow> ledger_entry \<Rightarrow> pyfloat" where
  "unpaired_band M R challenger champion =
     (let band = indifference_band (fr_margin R)
            (unpaired_statistical_band challenger champion (fr_dethrone_z R)) (fr_statistical_band_cap R);
          champ = dethrone_composite champion (quality_primary_efficiency_active [challenger, champion])
      in ceiling_capped_band (fmul band (dethrone_band_scale M challenger champion champ))
           challenger champion champ (fr_ceiling_band_clamp R))"

subsection \<open>Laws of the band\<close>

lemma band_decay_start: obtains s where "KOTH_BAND_DECAY_START_COMPOSITE = Fin s" "0 \<le> s" "s \<le> 1" "is64 s"
proof -
  have "unit64 KOTH_BAND_DECAY_START_COMPOSITE"
    unfolding KOTH_BAND_DECAY_START_COMPOSITE_def by (rule rnd64_unit) simp_all
  then show ?thesis using that by (elim unit64E)
qed

text \<open>The argument of \<^verbatim>\<open>exp\<close> is never positive, so the scale is at most one.\<close>

lemma dethrone_band_scale_range:
  assumes "exp_documented M"
  shows "dethrone_band_scale M a b x = NaN \<or> unit64 (dethrone_band_scale M a b x)"
proof -
  obtain s where s: "KOTH_BAND_DECAY_START_COMPOSITE = Fin s" "0 \<le> s" "s \<le> 1" "is64 s"
    by (rule band_decay_start)
  define y where "y = pmin (pmax x (Fin s)) (Fin 1)"
  have "y = NaN \<or> (\<exists>b. y = Fin b \<and> s \<le> b \<and> b \<le> 1)"
    using s(2,3) by (cases x) (auto simp: y_def pmin_def pmax_def flt_def)
  then have "lm_exp M (fmul (fneg (Fin 2)) (fsub y (Fin s))) = NaN
      \<or> unit64 (lm_exp M (fmul (fneg (Fin 2)) (fsub y (Fin s))))"
  proof
    assume "y = NaN"
    then show ?thesis using assms by (simp add: exp_documented_def fsub_def fmul_def)
  next
    assume "\<exists>b. y = Fin b \<and> s \<le> b \<and> b \<le> 1"
    then obtain b where b: "y = Fin b" "s \<le> b" "b \<le> 1" by blast
    obtain v where v: "rnd64 (b - s) = Fin v" "0 \<le> v" "v \<le> 1"
      by (rule b64.rd_between [of 0 1 "b - s"]) (use b s in auto)
    obtain w where w: "rnd64 (- 2 * v) = Fin w" "- 2 \<le> w" "w \<le> 0"
      by (rule b64.rd_between [of "- 2" 0 "- 2 * v"]) (use v in auto)
    have "fmul (fneg (Fin 2)) (fsub y (Fin s)) = Fin w"
      using v w b by (simp add: float_simps)
    with assms w show ?thesis by (auto simp: exp_documented_def unit64_def)
  qed
  then show ?thesis
    by (simp add: dethrone_band_scale_def Let_def s(1) KOTH_BAND_DECAY_RATE_def y_def)
qed

lemma nonneg_band_scale: "exp_documented M \<Longrightarrow> nonneg (dethrone_band_scale M a b x)"
  using dethrone_band_scale_range [of M a b x] by (auto elim!: unit64E)

lemma nonneg_ceiling_capped: "nonneg band \<Longrightarrow> nonneg (ceiling_capped_band band a b x act)"
proof -
  have "nonneg h" if "\<not> fle h (Fin 0)" for h using that by (cases h) (auto simp: fle_def)
  moreover have "nonneg (Fin (1 / 2))" by simp
  ultimately show "nonneg band \<Longrightarrow> nonneg (ceiling_capped_band band a b x act)"
    by (simp add: ceiling_capped_band_def Let_def KOTH_CEILING_HEADROOM_SHARE_def nonneg_pmin nonneg_fmul)
qed

lemma nonneg_indifference: "nonneg margin \<Longrightarrow> nonneg (indifference_band margin st capped)"
  by (simp add: indifference_band_def nonneg_pmax split: option.split)

text \<open>The ceiling clamp only ever lowers a band, and what it leaves is at most half the headroom.\<close>

lemma ceiling_capped_band_le:
  assumes "nonneg band" "band \<noteq> NaN" shows "fle (ceiling_capped_band band a b x act) band"
  using assms by (cases band)
    (auto simp: ceiling_capped_band_def Let_def pmin_def fle_def flt_def)

lemma indifference_band_ge: "margin \<noteq> NaN \<Longrightarrow> fle margin (indifference_band margin st capped)"
  by (cases margin) (auto simp: indifference_band_def pmax_def flt_def fle_def split: option.split)

subsection \<open>A crown needs a lead\<close>

text \<open>The specification of a dethrone: the measured lead is strictly positive, on the duel's
  pairs when a duel governs, on the shared seeds when there are two or more, else between the
  two scores.\<close>

definition crown_lead :: "libm \<Rightarrow> fold_rules \<Rightarrow> ledger_entry \<Rightarrow> ledger_entry \<Rightarrow> bool" where
  "crown_lead M R e c =
     (if duel_governs e c (fr_crown_gate R)
      then (case fr_crown_gate R of None \<Rightarrow> False | Some g \<Rightarrow>
             (case duel_window g of None \<Rightarrow> False | Some w \<Rightarrow>
               (case entry_duel_statistic M e c w of None \<Rightarrow> False
                | Some stat \<Rightarrow> flt (Fin 0) (ds_mean_difference stat))))
      else case paired_dethrone M e c (fr_dethrone_z R) of
        Some (lead, _, _) \<Rightarrow> flt (Fin 0) lead
      | None \<Rightarrow> (let qp = quality_primary_efficiency_active [e, c] in
          flt (dethrone_composite c qp) (dethrone_composite e qp)))"

lemma duel_beats_lead:
  assumes "duel_beats M e c margin w k clamp" "nonneg margin" "exp_documented M"
  shows "\<exists>stat. entry_duel_statistic M e c w = Some stat \<and> flt (Fin 0) (ds_mean_difference stat)"
proof -
  from assms(1) obtain stat lead where st: "entry_duel_statistic M e c w = Some stat"
    and lead: "duel_required_lead stat (fmul margin (dethrone_band_scale M e c (ds_champion_reference stat))) = Some lead"
    and lt: "flt (fadd (ds_champion_reference stat) (ceiling_capped_band lead e c (ds_champion_reference stat) clamp))
               (fadd (ds_champion_reference stat) (ds_mean_difference stat))"
    by (auto simp: duel_beats_def Let_def split: option.splits if_splits)
  have "nonneg lead"
    using lead nonneg_fmul [OF assms(2) nonneg_band_scale [OF assms(3)]]
    by (auto simp: duel_required_lead_def nonneg_pmax split: option.splits)
  then have "flt (Fin 0) (ds_mean_difference stat)"
    by (rule lead_positive [OF nonneg_ceiling_capped lt])
  with st show ?thesis by blast
qed

lemma dethrone_scores_lead:
  assumes "dethrone_scores M R e c = (observed, required)" "flt required observed"
    "nonneg (fr_margin R)" "exp_documented M" "wire_entry c"
  shows "case paired_dethrone M e c (fr_dethrone_z R) of
      Some (lead, _, _) \<Rightarrow> flt (Fin 0) lead
    | None \<Rightarrow> (let qp = quality_primary_efficiency_active [e, c] in
          flt (dethrone_composite c qp) (dethrone_composite e qp))"
proof -
  note nn = nonneg_ceiling_capped [OF nonneg_fmul [OF nonneg_indifference [OF assms(3)] nonneg_band_scale [OF assms(4)]]]
  show ?thesis
  proof (cases "paired_dethrone M e c (fr_dethrone_z R)")
    case None
    with assms(1,2) show ?thesis
      by (auto simp: dethrone_scores_def Let_def intro: fadd_nonneg_ge [OF nn dethrone_composite_double [OF assms(5)]])
  next
    case (Some t)
    obtain d ref se where t: "t = (d, ref, se)" by (cases t)
    with Some assms(1,2) show ?thesis
      by (auto simp: dethrone_scores_def Let_def intro: lead_positive [OF nn])
  qed
qed

lemma beats_lead:
  assumes "beats M R e c" "nonneg (fr_margin R)" "exp_documented M" "wire_entry c"
  shows "crown_lead M R e c"
proof (cases "duel_governs e c (fr_crown_gate R)")
  case True
  then obtain g w where g: "fr_crown_gate R = Some g" "duel_window g = Some w"
    by (auto simp: duel_governs_def split: option.splits)
  with True assms(1) have "duel_beats M e c (fr_margin R) w (min_shared_seeds g) (fr_ceiling_band_clamp R)"
    by (auto simp: beats_def split: if_splits)
  with duel_beats_lead [OF this assms(2,3)] True g show ?thesis by (auto simp: crown_lead_def)
next
  case False
  obtain obs req where ds: "dethrone_scores M R e c = (obs, req)" by force
  have "flt req obs"
    using assms(1) False ds by (auto simp: beats_def split: if_splits option.splits)
  from dethrone_scores_lead [OF ds this assms(2-4)] False show ?thesis
    by (simp add: crown_lead_def)
qed

subsection \<open>Resubmitted evidence\<close>

text \<open>A row that carries another row's evidence under its own hotkey, agent id and time.\<close>

definition copy_of :: "ledger_entry \<Rightarrow> string \<Rightarrow> nat \<Rightarrow> int \<Rightarrow> ledger_entry" where
  "copy_of c hk aid seen = c\<lparr>miner_hotkey := hk, agent_id := aid, first_seen := seen\<rparr>"

lemma copy_fields [simp]:
  "composite (copy_of c h a t) = composite c" "bench_version (copy_of c h a t) = bench_version c"
  "score_proofs (copy_of c h a t) = score_proofs c" "composite_stderr (copy_of c h a t) = composite_stderr c"
  "confirmation_composites (copy_of c h a t) = confirmation_composites c"
  "confirmation_seeds (copy_of c h a t) = confirmation_seeds c"
  "confirmation_history (copy_of c h a t) = confirmation_history c"
  "duel_history (copy_of c h a t) = duel_history c"
  "continual_aggregate_method (copy_of c h a t) = continual_aggregate_method c"
  "efficiency_bonus (copy_of c h a t) = efficiency_bonus c" "efficiency_factor (copy_of c h a t) = efficiency_factor c"
  "efficiency_curve_version (copy_of c h a t) = efficiency_curve_version c"
  "v9_confirmation (copy_of c h a t) = v9_confirmation c" "dueling_season_id (copy_of c h a t) = dueling_season_id c"
  "dueling (copy_of c h a t) = dueling c"
  by (simp_all add: copy_of_def)

lemma copy_reads [simp]:
  "entry_version (copy_of c h a t) = entry_version c" "entry_dueling (copy_of c h a t) = entry_dueling c"
  "entry_confirmations (copy_of c h a t) = entry_confirmations c"
  "entry_confirmation_history (copy_of c h a t) = entry_confirmation_history c"
  "efficiency_curve (copy_of c h a t) = efficiency_curve c"
  by (simp_all add: entry_version_def entry_dueling_def entry_confirmations_def
      entry_confirmation_history_def efficiency_curve_def)

lemma copy_season [simp]:
  "is_dueling_entry (copy_of c h a t) = is_dueling_entry c" "entry_season (copy_of c h a t) = entry_season c"
  "bounded_efficiency_factor (copy_of c h a t) = bounded_efficiency_factor c"
  unfolding is_dueling_entry_def entry_season_def bounded_efficiency_factor_def copy_fields copy_reads
  by (rule refl)+

lemma copy_masked [simp]: "record_masked_composite (copy_of c h a t) r m = record_masked_composite c r m"
  unfolding record_masked_composite_def copy_reads copy_season ..

lemma copy_scores [simp]:
  "efficiency_adjusted_composite (copy_of c h a t) q = efficiency_adjusted_composite c q"
  "quality_composite (copy_of c h a t) = quality_composite c"
  "entry_seed_composites (copy_of c h a t) m = entry_seed_composites c m"
  "entry_duel_records (copy_of c h a t) s = entry_duel_records c s"
  unfolding efficiency_adjusted_composite_def efficiency_multiplier_def quality_composite_def
    continual_composite_def entry_seed_composites_def dueling_seed_composites_def entry_duel_records_def
    copy_fields copy_reads copy_season copy_masked
  by (rule refl)+

lemma copy_dethrone [simp]: "dethrone_composite (copy_of c h a t) q = dethrone_composite c q"
  by (simp add: dethrone_composite_def effective_composite_def)

lemma copy_paired:
  assumes "paired_statistic M (copy_of c h a t) c = Some (d, ref, se)" shows "null d"
proof -
  let ?e = "copy_of c h a t"
  from assms obtain am bm where maps: "paired_seed_maps ?e c = Some (am, bm)"
    and len: "\<not> length (common_seeds am bm) < 2"
    and d: "d = mean_of (map (\<lambda>s. fsub (seed_score (quality_primary_efficiency_active [?e, c]) ?e (seed_value am s))
        (seed_score (quality_primary_efficiency_active [?e, c]) c (seed_value bm s))) (common_seeds am bm))"
    by (auto simp: paired_statistic_def Let_def split: option.splits if_splits)
  have "am = bm" using maps by (auto simp: paired_seed_maps_def Let_def split: option.splits if_splits)
  then have "list_all null (map (\<lambda>s. fsub (seed_score q ?e (seed_value am s)) (seed_score q c (seed_value bm s))) xs)" for q xs
    using fsub_self by (auto simp: list_all_iff seed_score_def null_def)
  then show ?thesis unfolding d using len by (intro null_mean) auto
qed

lemma duel_scored_distinct: "distinct (dict_keys r) \<Longrightarrow> distinct (dict_keys (duel_scored q e r))"
proof -
  assume d: "distinct (dict_keys r)"
  have keys: "dict_keys (map (\<lambda>(k, (ix, v)). (k, (ix, efficiency_adjusted_composite e v))) r) = dict_keys r"
    by (simp add: case_prod_beta comp_def)
  show ?thesis
  proof (cases q)
    case False
    then show ?thesis unfolding duel_scored_def by (simp only: if_False keys d)
  qed (simp add: duel_scored_def d)
qed

lemma copy_duel:
  assumes "entry_duel_statistic M (copy_of c h a t) c w = Some stat" shows "null (ds_mean_difference stat)"
proof -
  let ?e = "copy_of c h a t"
  from assms obtain owners r r' where r: "entry_duel_records ?e owners = Some r" "entry_duel_records c owners = Some r'"
    and st: "duel_statistic M (duel_pairs (duel_scored (quality_primary_efficiency_active [?e, c]) ?e r)
        (duel_scored (quality_primary_efficiency_active [?e, c]) c r') w) = Some stat"
    by (auto simp: entry_duel_statistic_def Let_def split: option.splits)
  define q where "q = quality_primary_efficiency_active [?e, c]"
  have eq: "duel_scored q ?e r = duel_scored q c r'" using r by (simp add: duel_scored_def)
  have "distinct (dict_keys r')"
    using r(2) by (auto simp: entry_duel_records_def Let_def collapse_records_distinct split: option.splits if_splits)
  then have "dp_challenger p = dp_champion p" if "p \<in> set (duel_pairs (duel_scored q c r') (duel_scored q c r') w)" for p
    using duel_pairs_self [OF that duel_scored_distinct] by blast
  then have "list_all null (map dp_difference (duel_pairs (duel_scored q c r') (duel_scored q c r') w))"
    using fsub_self by (auto simp: list_all_iff dp_difference_def null_def)
  with st show ?thesis
    unfolding q_def [symmetric] eq by (auto simp: duel_statistic_def Let_def split: if_splits intro!: null_mean)
qed

lemma no_copy_lead: "\<not> crown_lead M R (copy_of c h a t) c"
proof -
  have "\<not> flt (Fin 0) d" if "null d" for d using that by (auto simp: null_def)
  with copy_duel [of M c h a t] copy_paired [of M c h a t] show ?thesis
    by (fastforce simp: crown_lead_def paired_dethrone_def split: option.splits if_splits)
qed

subsection \<open>Properties\<close>

definition example_rules :: fold_rules where
  "example_rules = \<lparr>fr_margin = Fin (1 / 128), fr_dethrone_z = Fin 2, fr_ceiling_band_clamp = True,
     fr_statistical_band_cap = True, fr_crown_gate = None\<rparr>"

definition alice :: ledger_entry where "alice = plain_entry ''alice'' 1 (Fin (1 / 2)) 10"
definition bob :: ledger_entry where "bob = plain_entry ''bob'' 2 (Fin (3 / 4)) 20"

lemma wire_alice: "wire_entry alice"
  using unit64I [of "1 / 2"] by (simp add: wire_entry_def alice_def plain_entry_def opt_all_def)

text \<open>C24: The crown never moves without a measured lead. Whatever rule decides the comparison (the
  title duel, the shared-seed statistic, or the two scores), a challenger that takes the crown
  leads strictly in the quantity the rule compares, for every margin that is not negative and
  every C library whose \<^verbatim>\<open>exp\<close> behaves as documented.\<close>

theorem beats_requires_lead:
  assumes "fle (Fin 0) (fr_margin R)" and "exp_documented M" and "wire_entry c" and "beats M R e c"
  shows "crown_lead M R e c"
  using assms by (intro beats_lead nonneg_fle)

theorem beats_requires_lead_witness:
  "beats example_libm example_rules bob alice \<and> crown_lead example_libm example_rules bob alice"
proof -
  have b: "beats example_libm example_rules bob alice" by code_simp
  moreover have "fle (Fin 0) (fr_margin example_rules)" by (simp add: example_rules_def)
  ultimately show ?thesis
    using beats_requires_lead [of example_rules example_libm alice bob] wire_alice example_libm_documented by blast
qed

text \<open>C28: A copycat cannot take the crown: a row that carries the champion's own evidence under
  another hotkey, agent id and submission time never beats it.\<close>

theorem copy_never_beats:
  assumes "fle (Fin 0) (fr_margin R)" and "exp_documented M" and "wire_entry c"
  shows "\<not> beats M R (copy_of c hk aid seen) c"
  using assms beats_lead no_copy_lead nonneg_fle by blast

theorem copy_never_beats_witness:
  "fle (Fin 0) (fr_margin example_rules) \<and> \<not> beats example_libm example_rules (copy_of alice ''mallory'' 3 30) alice"
proof -
  have "fle (Fin 0) (fr_margin example_rules)" by (simp add: example_rules_def)
  with copy_never_beats [OF this example_libm_documented wire_alice] show ?thesis by blast
qed

text \<open>The ceiling clamp never raises a band, and never makes one negative: with the clamp the
  required lead is at most the unclamped one.\<close>

theorem ceiling_clamp_lowers_band:
  assumes "fle (Fin 0) band"
  shows "fle (ceiling_capped_band band e c s active) band \<and> nonneg (ceiling_capped_band band e c s active)"
  using assms ceiling_capped_band_le nonneg_ceiling_capped nonneg_fle by (metis cmp_NaN(4))

theorem ceiling_clamp_lowers_band_witness:
  "fle (ceiling_capped_band (Fin (1 / 4)) bob alice (Fin (1 / 2)) True) (Fin (1 / 4))"
  using ceiling_clamp_lowers_band [of "Fin (1 / 4)" bob alice "Fin (1 / 2)" True] by simp

text \<open>Two dueling rows of different seasons, or of different bench versions, never dethrone one
  another and never pool their shares.\<close>

theorem seasons_do_not_compare:
  assumes "is_dueling_entry e" and "is_dueling_entry c"
    and "entry_season e \<noteq> entry_season c \<or> entry_version e \<noteq> entry_version c"
  shows "\<not> beats M R e c \<and> \<not> weight_tied M R e c"
  using assms by (auto simp: beats_def weight_tied_def dueling_incomparable_def)

theorem seasons_do_not_compare_witness:
  "\<not> beats example_libm example_rules (bob\<lparr>bench_version := Some 16\<rparr>) (alice\<lparr>bench_version := Some 17\<rparr>)"
  using seasons_do_not_compare [of "bob\<lparr>bench_version := Some 16\<rparr>" "alice\<lparr>bench_version := Some 17\<rparr>"]
  by (simp add: is_dueling_entry_def is_dueling_bench_version_def DUELING_MIN_BENCH_VERSION_def entry_version_def)

lemma entry_duel_statistic_count:
  "entry_duel_statistic M e c w = Some stat \<Longrightarrow> int (ds_count stat) \<le> max 0 w"
  using length_duel_pairs
  by (auto simp: entry_duel_statistic_def duel_statistic_def ds_count_def Let_def split: option.splits if_splits)

text \<open>What a title duel needs, exactly: a duel statistic over at least the required number of
  pairs, never fewer than three nor more than fifteen or the window, and a mean lead beyond the
  sequential boundary after the floor and the clamp. Two pairs never decide a title.\<close>

theorem title_duel_needs:
  "duel_beats M e c margin w k clamp \<longleftrightarrow>
     (\<exists>stat lead. entry_duel_statistic M e c w = Some stat \<and> k \<le> int (ds_count stat)
        \<and> 3 \<le> ds_count stat \<and> ds_count stat \<le> 15 \<and> int (ds_count stat) \<le> max 0 w
        \<and> duel_required_lead stat (fmul margin (dethrone_band_scale M e c (ds_champion_reference stat))) = Some lead
        \<and> flt (fadd (ds_champion_reference stat) (ceiling_capped_band lead e c (ds_champion_reference stat) clamp))
              (fadd (ds_champion_reference stat) (ds_mean_difference stat)))"
proof
  assume "duel_beats M e c margin w k clamp"
  then show "\<exists>stat lead. entry_duel_statistic M e c w = Some stat \<and> k \<le> int (ds_count stat)
        \<and> 3 \<le> ds_count stat \<and> ds_count stat \<le> 15 \<and> int (ds_count stat) \<le> max 0 w
        \<and> duel_required_lead stat (fmul margin (dethrone_band_scale M e c (ds_champion_reference stat))) = Some lead
        \<and> flt (fadd (ds_champion_reference stat) (ceiling_capped_band lead e c (ds_champion_reference stat) clamp))
              (fadd (ds_champion_reference stat) (ds_mean_difference stat))"
    using duel_boundary_floor entry_duel_statistic_count
    by (auto simp: duel_beats_def Let_def split: option.splits if_splits)
qed (auto simp: duel_beats_def Let_def)

subsection \<open>Where the clamp's documentation is not met\<close>

text \<open>The docstring of \<^verbatim>\<open>_ceiling_capped_band\<close> promises a required score strictly below the
  ceiling whenever any headroom exists. At the largest double below one half the headroom is
  rounded away: the required score is the ceiling itself, so a perfect run does not dethrone.\<close>

lemma ceiling_clamp_tie:
  "ceiling_capped_band (Fin (1 / 128)) (bob\<lparr>bench_version := Some 6\<rparr>) (alice\<lparr>bench_version := Some 6\<rparr>)
       (Fin (1 - 1 / 2 ^ 53)) True = Fin (1 / 2 ^ 54)
   \<and> fadd (Fin (1 - 1 / 2 ^ 53)) (Fin (1 / 2 ^ 54)) = Fin 1"
  by (rule conjI; code_simp)

end
