(* ===== verification/Weights_Fold.thy ===== *)
theory Weights_Fold
  imports Weights_Dethrone
begin

section \<open>The king-of-the-hill fold\<close>

text \<open>
  Models the fold of \<^verbatim>\<open>ditto/validator/weights.py\<close> over a whole ledger: the champion walk in
  first-seen order with crown incumbency and the protocol-34 crown gate, the ranked
  participation tail, tie pooling, the score-ceiling cohort and \<open>compute_weights\<close>, which turns
  a ledger into a weight vector or the exception the source raises.
\<close>

definition UNPAID_SHARE_KEY :: string where "UNPAID_SHARE_KEY = ''<unpaid>''"

subsection \<open>The champion\<close>

fun crown_walk :: "('e \<Rightarrow> 'e \<Rightarrow> bool) \<Rightarrow> 'e \<Rightarrow> 'e list \<Rightarrow> 'e" where
  "crown_walk takes champ [] = champ"
| "crown_walk takes champ (e # es) = crown_walk takes (if takes e champ then e else champ) es"

definition seniority_key :: "ledger_entry \<Rightarrow> int \<times> nat" where
  "seniority_key e = (first_seen e, agent_id e)"

definition first_seen_order :: "ledger_entry list \<Rightarrow> ledger_entry list" where
  "first_seen_order es = sort_key seniority_key es"

definition ranked_order :: "ledger_entry list \<Rightarrow> ledger_entry list" where
  "ranked_order es = sort_key (ranking_key (quality_primary_efficiency_active es)) es"

text \<open>The opener of the walk and its challengers: the incumbent when it is in the pool, else the
  earliest lineage. \<open>None\<close> is the \<^verbatim>\<open>IndexError\<close> of an empty pool.\<close>

definition walk_opening ::
  "ledger_entry list \<Rightarrow> nat option \<Rightarrow> (ledger_entry \<times> ledger_entry list) option" where
  "walk_opening es incumbent_agent_id =
     (let ordered = first_seen_order es in
      case find (\<lambda>e. Some (agent_id e) = incumbent_agent_id) es of
        Some inc \<Rightarrow> Some (inc, filter (\<lambda>e. agent_id e \<noteq> agent_id inc) ordered)
      | None \<Rightarrow> (case ordered of [] \<Rightarrow> None | c # cs \<Rightarrow> Some (c, cs)))"

definition standing_entries :: "ledger_entry list \<Rightarrow> crown_gate \<Rightarrow> ledger_entry list" where
  "standing_entries es gate = take (nat (max 1 (standing_rank gate))) (ranked_order es)"

definition gated_opening ::
  "libm \<Rightarrow> ledger_entry list \<Rightarrow> crown_gate \<Rightarrow> ledger_entry \<Rightarrow> ledger_entry \<times> ledger_entry list" where
  "gated_opening M es gate champ =
     (let standing = standing_entries es gate;
          ids = set (map agent_id standing);
          champ' = (if agent_id champ \<in> ids then champ
                    else case find (\<lambda>e. crown_evidence_count M e champ gate \<ge> min_shared_seeds gate) standing of
                           Some e \<Rightarrow> e
                         | None \<Rightarrow> (case standing of [] \<Rightarrow> champ | s # _ \<Rightarrow> s))
      in (champ', filter (\<lambda>e. agent_id e \<in> ids \<and> agent_id e \<noteq> agent_id champ') (first_seen_order es)))"

definition champion :: "libm \<Rightarrow> fold_rules \<Rightarrow> nat option \<Rightarrow> ledger_entry list \<Rightarrow> ledger_entry option" where
  "champion M R incumbent es = (case walk_opening es incumbent of
     None \<Rightarrow> None
   | Some (champ, challengers) \<Rightarrow>
      (let (opener, field) = (case fr_crown_gate R of
             None \<Rightarrow> (champ, challengers)
           | Some gate \<Rightarrow> gated_opening M es gate champ)
       in Some (crown_walk (beats M R) opener field)))"

definition select_champion :: "libm \<Rightarrow> fold_rules \<Rightarrow> nat option \<Rightarrow> ledger_entry list \<Rightarrow> ledger_entry option" where
  "select_champion M R incumbent es = (let scored = scored_pool es in
     if scored = [] then None else champion M R incumbent scored)"

subsection \<open>The ranked tail\<close>

definition distinct_ranked :: "ledger_entry list \<Rightarrow> ledger_entry list" where
  "distinct_ranked es = keep_first miner_hotkey {} (ranked_order es)"

text \<open>One pass of adjacent swaps, and the bounded number of passes: \<open>swaps l u\<close> decides
  whether a neighbouring pair is exchanged.\<close>

fun swap_pass :: "('e \<Rightarrow> 'e \<Rightarrow> bool) \<Rightarrow> 'e list \<Rightarrow> 'e list \<times> bool" where
  "swap_pass swaps (u # l # rest) =
     (if swaps l u then let (r, _) = swap_pass swaps (u # rest) in (l # r, True)
      else let (r, s) = swap_pass swaps (l # rest) in (u # r, s))"
| "swap_pass swaps xs = (xs, False)"

fun swap_passes :: "('e \<Rightarrow> 'e \<Rightarrow> bool) \<Rightarrow> nat \<Rightarrow> 'e list \<Rightarrow> 'e list" where
  "swap_passes swaps 0 xs = xs"
| "swap_passes swaps (Suc k) xs =
     (let (ys, swapped) = swap_pass swaps xs in if swapped then swap_passes swaps k ys else ys)"

definition adjacent_swaps :: "libm \<Rightarrow> ledger_entry \<Rightarrow> ledger_entry \<Rightarrow> bool" where
  "adjacent_swaps M lo up =
     (dueling_pair_mask lo up \<noteq> None
      \<and> (case paired_statistic M lo up of
           None \<Rightarrow> False | Some (mean_diff, _, _) \<Rightarrow> flt (Fin 0) mean_diff))"

definition dueling_adjacent_order :: "libm \<Rightarrow> ledger_entry list \<Rightarrow> ledger_entry list" where
  "dueling_adjacent_order M ranked =
     (if \<not> list_ex is_dueling_entry ranked then ranked
      else swap_passes (adjacent_swaps M) (length ranked) ranked)"

definition tail :: "libm \<Rightarrow> ledger_entry list \<Rightarrow> ledger_entry \<Rightarrow> int \<Rightarrow> bool \<Rightarrow> ledger_entry list" where
  "tail M es champ tail_size distinct_hotkeys =
     (if tail_size \<le> 0 then []
      else let ranked = sort_key (ranking_key (quality_primary_efficiency_active es))
                 (filter (\<lambda>e. miner_hotkey e \<noteq> miner_hotkey champ) es)
           in if \<not> distinct_hotkeys then dueling_adjacent_order M (take (nat tail_size) ranked)
              else dueling_adjacent_order M
                     (take (nat tail_size) (keep_first miner_hotkey {miner_hotkey champ} ranked)))"

subsection \<open>Tie pooling and the score-ceiling cohort\<close>

text \<open>
  The nested \<^verbatim>\<open>while\<close> loops of \<^verbatim>\<open>_pool_tied_rank_shares\<close>: a group is its anchor and the
  members after it that tie with the anchor; a group of more than one member averages its shares.
\<close>

function pool_groups :: "('e \<Rightarrow> 'e \<Rightarrow> bool) \<Rightarrow> 'e list \<Rightarrow> pyfloat list \<Rightarrow> pyfloat list" where
  "pool_groups tied [] shares = shares"
| "pool_groups tied (anchor # rest) shares =
     (let k = Suc (length (takeWhile (\<lambda>r. tied r anchor) rest));
          group = take k shares;
          pooled = (if k > 1 then replicate k (fdiv (py_sum group) (fint (int k))) else group)
      in pooled @ pool_groups tied (drop k (anchor # rest)) (drop k shares))"
  by pat_completeness auto
termination
  by (relation "measure (\<lambda>(tied, rs, shares). length rs)") auto

definition pool_tied_rank_shares ::
  "libm \<Rightarrow> fold_rules \<Rightarrow> ledger_entry list \<Rightarrow> pyfloat list \<Rightarrow> py_error + pyfloat list" where
  "pool_tied_rank_shares M R recipients shares =
     (if length recipients \<noteq> length shares
      then Inl (ValueError ''recipients and shares must have the same length'')
      else Inr (pool_groups (weight_tied M R) recipients shares))"

definition score_ceiling_cohort ::
  "libm \<Rightarrow> fold_rules \<Rightarrow> ledger_entry list \<Rightarrow> ledger_entry \<Rightarrow> ledger_entry list" where
  "score_ceiling_cohort M R es champ =
     (if quality_primary_efficiency_active es then []
      else let ranked = distinct_ranked es in
        case find (\<lambda>e. miner_hotkey e \<noteq> miner_hotkey champ) ranked of
          None \<Rightarrow> []
        | Some challenger \<Rightarrow>
            if \<not> score_ceiling_deadlocked M R challenger champ then []
            else (case ranked of
                    [] \<Rightarrow> []
                  | anchor # rest \<Rightarrow>
                      let cohort = anchor # takeWhile (\<lambda>e. weight_tied M R e anchor) rest
                      in if length cohort > 1 then cohort else []))"

subsection \<open>The weight vector\<close>

definition rank_shares_check :: "int \<Rightarrow> pyfloat list \<Rightarrow> py_error option" where
  "rank_shares_check tail_size rank_shares =
     (if int (length rank_shares) \<noteq> tail_size + 1
      then Some (ValueError ''rank_shares must contain champion plus tail_size entries'')
      else if list_ex (\<lambda>s. \<not> isfinite s \<or> fle s (Fin 0)) rank_shares
      then Some (ValueError ''rank_shares must contain only finite positive values'')
      else let total = py_sum rank_shares in
        if \<not> (feq total (Fin 1)
              \<or> (isfinite total \<and> fle (fabs (fsub (Fin 1) total)) (rnd64 (1 / 10 ^ 12))))
      then Some (ValueError ''rank_shares must sum to 1'')
      else None)"

definition share_key :: "nat option \<Rightarrow> ledger_entry \<Rightarrow> string" where
  "share_key unpaid_agent_id e =
     (if Some (agent_id e) = unpaid_agent_id then UNPAID_SHARE_KEY else miner_hotkey e)"

text \<open>The recipients of one epoch and their shares, before the vector is keyed.\<close>

definition recipients_and_shares ::
  "libm \<Rightarrow> fold_rules \<Rightarrow> ledger_entry list \<Rightarrow> ledger_entry \<Rightarrow> int \<Rightarrow> pyfloat list \<Rightarrow> bool
     \<Rightarrow> py_error + (ledger_entry list \<times> pyfloat list)" where
  "recipients_and_shares M R scored champ tail_size rank_shares tie_pooling =
     (let cohort = (if tie_pooling then score_ceiling_cohort M R scored champ else []) in
      if cohort \<noteq> []
      then Inr (cohort, replicate (length cohort) (fdiv (Fin 1) (fint (int (length cohort)))))
      else let recipients = champ # tail M scored champ tail_size tie_pooling;
               shares = take (length recipients) rank_shares
           in if tie_pooling
              then (case pool_tied_rank_shares M R recipients shares of
                      Inl err \<Rightarrow> Inl err | Inr pooled \<Rightarrow> Inr (recipients, pooled))
              else Inr (recipients, shares))"

definition compute_weights ::
  "libm \<Rightarrow> fold_rules \<Rightarrow> int \<Rightarrow> pyfloat list \<Rightarrow> bool \<Rightarrow> nat option \<Rightarrow> nat option
     \<Rightarrow> ledger_entry list \<Rightarrow> py_error + (string, pyfloat) dict" where
  "compute_weights M R tail_size rank_shares tie_pooling incumbent unpaid es =
     (let scored = scored_pool es in
      case (if scored = [] then None else champion M R incumbent scored) of
        None \<Rightarrow> Inr []
      | Some champ \<Rightarrow> (case rank_shares_check tail_size rank_shares of
          Some err \<Rightarrow> Inl err
        | None \<Rightarrow> (case recipients_and_shares M R scored champ tail_size rank_shares tie_pooling of
            Inl err \<Rightarrow> Inl err
          | Inr (recipients, shares) \<Rightarrow>
              if length shares < length recipients then Inl IndexError
              else Inr (dict_of (zip (map (share_key unpaid) recipients) shares)))))"

subsection \<open>Version-bump re-scores and contested confirmations\<close>

definition agents_needing_rescore ::
  "libm \<Rightarrow> fold_rules \<Rightarrow> int \<Rightarrow> int \<Rightarrow> nat option \<Rightarrow> ledger_entry list \<Rightarrow> ledger_entry list" where
  "agents_needing_rescore M R current_version tail_size incumbent es =
     (let scored = filter (\<lambda>e. flt (Fin 0) (effective_composite e) \<and> dueling_fold_ready e) es in
      case (if scored = [] then None else champion M R incumbent scored) of
        None \<Rightarrow> []
      | Some champ \<Rightarrow> filter (\<lambda>e. entry_version e < current_version)
                        (champ # tail M scored champ tail_size False))"

definition shares_confirmation_seeds :: "ledger_entry \<Rightarrow> ledger_entry \<Rightarrow> int \<Rightarrow> bool" where
  "shares_confirmation_seeds a b minimum \<longleftrightarrow> int (shared_seed_count a b) \<ge> minimum"

definition is_contested :: "libm \<Rightarrow> fold_rules \<Rightarrow> int \<Rightarrow> ledger_entry \<Rightarrow> ledger_entry \<Rightarrow> bool" where
  "is_contested M R current_version champ e \<longleftrightarrow>
     agent_id e \<noteq> agent_id champ \<and> entry_version e = current_version
     \<and> \<not> dueling_incomparable e champ
     \<and> (let qp = quality_primary_efficiency_active [e, champ] in
        fle (fabs (fsub (dethrone_composite e qp) (dethrone_composite champ qp)))
            (unpaired_band M R e champ))
     \<and> \<not> shares_confirmation_seeds e champ
           (case fr_crown_gate R of None \<Rightarrow> 2 | Some gate \<Rightarrow> min_shared_seeds gate)"

definition contested_confirmation_set ::
  "libm \<Rightarrow> fold_rules \<Rightarrow> int \<Rightarrow> nat option \<Rightarrow> ledger_entry list \<Rightarrow> ledger_entry list" where
  "contested_confirmation_set M R current_version incumbent es =
     (let scored = filter (\<lambda>e. flt (Fin 0) (effective_composite e) \<and> dueling_fold_ready e) es in
      if length scored < 2 then []
      else case champion M R incumbent scored of
        None \<Rightarrow> []
      | Some champ \<Rightarrow>
          if entry_version champ \<noteq> current_version then []
          else let contested = filter (is_contested M R current_version champ) (first_seen_order scored)
               in if contested = [] then [] else champ # contested)"

subsection \<open>The walk\<close>

interpretation seniority: canonical_order seniority_key agent_id
  by unfold_locales (simp add: seniority_key_def)

lemma crown_walk_in: "crown_walk takes c es \<in> insert c (set es)"
  by (induction takes c es rule: crown_walk.induct) auto

lemma crown_walk_stays: "(\<And>e. e \<in> set es \<Longrightarrow> \<not> takes e c) \<Longrightarrow> crown_walk takes c es = c"
  by (induction es) auto

text \<open>A new champion took the crown from an entry that held it.\<close>

lemma crown_walk_from:
  assumes "crown_walk takes c es = w" "w \<noteq> c"
  shows "\<exists>p \<in> insert c (set es). takes w p"
  using assms
proof (induction takes c es rule: crown_walk.induct)
  case (2 takes c e es)
  show ?case
  proof (cases "takes e c \<and> w = e")
    case False
    with 2 show ?thesis by (cases "takes e c") auto
  qed auto
qed simp

text \<open>The champion survives every later challenger of the walk.\<close>

lemma crown_walk_holds:
  assumes "crown_walk takes c es = w"
  shows "\<exists>seen rest. c # es = seen @ w # rest \<and> (\<forall>e\<in>set rest. \<not> takes e w)"
  using assms
proof (induction takes c es rule: crown_walk.induct)
  case (1 takes c)
  then have "c # [] = [] @ w # []" by simp
  then show ?case by (metis empty_iff empty_set)
next
  case (2 takes c e es)
  from 2 obtain seen rest where d: "(if takes e c then e else c) # es = seen @ w # rest"
    and rest: "\<forall>x\<in>set rest. \<not> takes x w" by auto
  show ?case
  proof (cases "takes e c")
    case True
    with d have "c # e # es = (c # seen) @ w # rest" by simp
    with rest show ?thesis by blast
  next
    case False
    show ?thesis
    proof (cases seen)
      case Nil
      with d False have "w = c" "es = rest" by auto
      with False rest have "c # e # es = [] @ w # (e # rest)" "\<forall>x\<in>set (e # rest). \<not> takes x w" by auto
      then show ?thesis by blast
    next
      case (Cons a s)
      with d False have "c # e # es = (c # e # s) @ w # rest" by simp
      with rest show ?thesis by blast
    qed
  qed
qed

text \<open>The interface between a dethrone test and the walk: a challenger only takes the crown when
  the two rows are comparable and the evidence reaches the required amount.\<close>

locale crown_contest =
  fixes takes :: "'e \<Rightarrow> 'e \<Rightarrow> bool" and comparable :: "'e \<Rightarrow> 'e \<Rightarrow> bool"
    and evidence :: "'e \<Rightarrow> 'e \<Rightarrow> int" and needed :: int
  assumes takes_comparable: "takes e c \<Longrightarrow> comparable e c"
    and takes_evidence: "takes e c \<Longrightarrow> needed \<le> evidence e c"
begin

lemma walk_backed:
  assumes "crown_walk takes c es = w" "w \<noteq> c"
  shows "\<exists>p \<in> insert c (set es). comparable w p \<and> needed \<le> evidence w p"
  using crown_walk_from [OF assms] takes_comparable takes_evidence by blast

lemma walk_kept:
  assumes "\<And>e. e \<in> set es \<Longrightarrow> evidence e c < needed"
  shows "crown_walk takes c es = c"
  using assms takes_evidence by (intro crown_walk_stays) fastforce

end

lemma beats_comparable: "beats M R e c \<Longrightarrow> \<not> dueling_incomparable e c"
  by (auto simp: beats_def split: if_splits)

lemma duel_beats_evidence:
  "duel_beats M e c m w k clamp \<Longrightarrow> \<exists>stat. entry_duel_statistic M e c w = Some stat \<and> k \<le> int (ds_count stat)"
  by (auto simp: duel_beats_def Let_def split: option.splits if_splits)

lemma beats_evidence:
  assumes "beats M R e c" "fr_crown_gate R = Some g"
  shows "min_shared_seeds g \<le> crown_evidence_count M e c g"
proof (cases "duel_governs e c (Some g)")
  case True
  with assms obtain w where w: "duel_window g = Some w"
    and "duel_beats M e c (fr_margin R) w (min_shared_seeds g) (fr_ceiling_band_clamp R)"
    by (auto simp: beats_def split: if_splits option.splits)
  with duel_beats_evidence True show ?thesis
    by (fastforce simp: crown_evidence_count_def)
next
  case False
  with assms have "min_shared_seeds g \<le> int (shared_seed_count e c)"
    by (auto simp: beats_def split: if_splits)
  with False show ?thesis by (simp add: crown_evidence_count_def split: option.splits)
qed

abbreviation gated :: "fold_rules \<Rightarrow> crown_gate \<Rightarrow> fold_rules" where
  "gated R g \<equiv> R\<lparr>fr_crown_gate := Some g\<rparr>"

interpretation title: crown_contest "beats M (gated R g)" "\<lambda>e c. \<not> dueling_incomparable e c"
  "\<lambda>e c. crown_evidence_count M e c g" "min_shared_seeds g"
  by unfold_locales (auto dest: beats_comparable beats_evidence)

subsection \<open>The champion of a ledger\<close>

lemma walk_opening_in:
  assumes "walk_opening es inc = Some (c, cs)"
  shows "c \<in> set es" and "set cs \<subseteq> set es"
proof -
  have "set (first_seen_order es) = set es" by (simp add: first_seen_order_def)
  with assms show "c \<in> set es" "set cs \<subseteq> set es"
    by (fastforce simp: walk_opening_def Let_def find_Some_iff split: option.splits list.splits)+
qed

lemma standing_in: "set (standing_entries es g) \<subseteq> set es"
  using set_take_subset by (fastforce simp: standing_entries_def ranked_order_def)

lemma standing_nonempty: "es \<noteq> [] \<Longrightarrow> standing_entries es g \<noteq> []"
  by (simp add: standing_entries_def ranked_order_def)
     (metis length_0_conv length_sort list.size(3))

lemma gated_opening_standing:
  assumes "es \<noteq> []" "c \<in> set es" "distinct (map agent_id es)" "gated_opening M es g c = (c', cs)"
  shows "c' \<in> set (standing_entries es g)" and "set cs \<subseteq> set (standing_entries es g)"
proof -
  let ?s = "standing_entries es g"
  have mem: "e \<in> set ?s" if "e \<in> set es" "agent_id e \<in> set (map agent_id ?s)" for e
    using that assms(3) standing_in [of es g] by (auto simp: distinct_map dest: inj_onD)
  show "c' \<in> set ?s"
    using assms standing_nonempty [OF assms(1), of g] mem
    by (auto simp: gated_opening_def Let_def find_Some_iff split: if_splits option.splits list.splits)
  show "set cs \<subseteq> set ?s"
    using assms(4) mem by (auto simp: gated_opening_def Let_def first_seen_order_def)
qed

lemma champion_Some: "es \<noteq> [] \<Longrightarrow> \<exists>w. champion M R inc es = Some w"
proof -
  assume "es \<noteq> []"
  then have "walk_opening es inc \<noteq> None"
    by (auto simp: walk_opening_def Let_def first_seen_order_def split: option.splits list.splits
        dest: arg_cong [where f = length])
  then show ?thesis by (auto simp: champion_def split: prod.splits option.splits)
qed

lemma champion_in:
  assumes "champion M R inc es = Some w" shows "w \<in> set es"
proof -
  from assms obtain c cs where o: "walk_opening es inc = Some (c, cs)"
    by (auto simp: champion_def split: option.splits)
  note c = walk_opening_in [OF o]
  show ?thesis
  proof (cases "fr_crown_gate R")
    case None
    with assms o have "w = crown_walk (beats M R) c cs" by (simp add: champion_def)
    with crown_walk_in [of "beats M R" c cs] c show ?thesis by auto
  next
    case (Some g)
    obtain c' cs' where g: "gated_opening M es g c = (c', cs')" by force
    have "c' \<in> set es" "set cs' \<subseteq> set es"
      using g c standing_in [of es g]
      by (auto simp: gated_opening_def Let_def first_seen_order_def find_Some_iff subset_iff
          split: if_splits option.splits list.splits)
    moreover have "w = crown_walk (beats M R) c' cs'" using assms o g Some by (simp add: champion_def)
    ultimately show ?thesis using crown_walk_in [of "beats M R" c' cs'] by auto
  qed
qed

lemma champion_perm:
  assumes "mset es = mset es'" "distinct (map agent_id es)"
  shows "champion M R inc es = champion M R inc es'"
proof -
  have fo: "first_seen_order es = first_seen_order es'"
    unfolding first_seen_order_def by (rule seniority.order_free [OF assms])
  have ro: "ranked_order es = ranked_order es'"
    unfolding ranked_order_def quality_primary_perm [OF assms(1)] by (rule rank.order_free [OF assms])
  have fi: "find (\<lambda>e. Some (agent_id e) = inc) es = find (\<lambda>e. Some (agent_id e) = inc) es'"
    by (rule find_perm [OF assms]) auto
  have wo: "walk_opening es inc = walk_opening es' inc"
    unfolding walk_opening_def fo fi ..
  have go: "gated_opening M es = gated_opening M es'"
    unfolding gated_opening_def standing_entries_def fo ro ..
  show ?thesis unfolding champion_def wo go ..
qed

text \<open>Under the crown gate the champion is a standing entry, and it either opened the walk or
  took the crown from a standing entry on enough comparable evidence.\<close>

lemma champion_gated:
  assumes "champion M (gated R g) inc es = Some w" "distinct (map agent_id es)"
  obtains c cs where "gated_opening M es g c = cs" "c \<in> set es" "w \<in> set (standing_entries es g)"
    "w = fst cs \<or> (\<exists>p \<in> set (standing_entries es g). \<not> dueling_incomparable w p
        \<and> min_shared_seeds g \<le> crown_evidence_count M w p g)"
proof -
  from assms obtain c cs where o: "walk_opening es inc = Some (c, cs)"
    by (auto simp: champion_def split: option.splits)
  note c = walk_opening_in [OF o]
  then have ne: "es \<noteq> []" by auto
  obtain c' cs' where g: "gated_opening M es g c = (c', cs')" by force
  note st = gated_opening_standing [OF ne c(1) assms(2) g]
  have w: "crown_walk (beats M (gated R g)) c' cs' = w"
    using assms o g by (simp add: champion_def)
  have "w \<in> set (standing_entries es g)"
    using crown_walk_in [of "beats M (gated R g)" c' cs'] w st by auto
  moreover have "w = c' \<or> (\<exists>p \<in> set (standing_entries es g). \<not> dueling_incomparable w p
        \<and> min_shared_seeds g \<le> crown_evidence_count M w p g)"
    using title.walk_backed [OF w] st by blast
  ultimately show ?thesis using that [OF g c(1)] by simp
qed

subsection \<open>The tail\<close>

lemma swap_pass_perm: "mset (fst (swap_pass sw xs)) = mset xs"
proof (induction sw xs rule: swap_pass.induct)
  case (1 sw u l rest)
  then show ?case by (auto simp: Let_def split: prod.splits if_splits)
qed auto

lemma swap_passes_perm: "mset (swap_passes sw k xs) = mset xs"
proof (induction sw k xs rule: swap_passes.induct)
  case (2 sw k xs)
  then show ?case
    using swap_pass_perm [of sw xs] by (auto simp: Let_def split: prod.splits)
qed simp

lemma dueling_adjacent_order_perm: "mset (dueling_adjacent_order M xs) = mset xs"
  by (simp add: dueling_adjacent_order_def swap_passes_perm)

lemma dueling_adjacent_order_set: "set (dueling_adjacent_order M xs) = set xs"
  by (rule mset_eq_setD [OF dueling_adjacent_order_perm])

text \<open>When a pass makes no swap no neighbouring pair wants one: the loop stops at an order in
  which every neighbouring comparison is settled, or after as many passes as rows.\<close>

lemma swap_pass_settled:
  "\<not> snd (swap_pass sw xs) \<Longrightarrow> fst (swap_pass sw xs) = xs \<and> (\<forall>i. Suc i < length xs \<longrightarrow> \<not> sw (xs ! Suc i) (xs ! i))"
proof (induction sw xs rule: swap_pass.induct)
  case (1 sw u l rest)
  then show ?case by (auto simp: Let_def less_Suc_eq_0_disj nth_Cons split: prod.splits if_splits nat.splits)
qed auto

lemma tail_members:
  assumes "e \<in> set (tail M es c n d)"
  shows "e \<in> set es" and "miner_hotkey e \<noteq> miner_hotkey c"
proof -
  let ?r = "sort_key (ranking_key (quality_primary_efficiency_active es)) (filter (\<lambda>e. miner_hotkey e \<noteq> miner_hotkey c) es)"
  have "e \<in> set ?r"
  proof (cases d)
    case True
    with assms have "e \<in> set (take (nat n) (keep_first miner_hotkey {miner_hotkey c} ?r))"
      by (simp add: tail_def Let_def dueling_adjacent_order_set split: if_splits)
    then show ?thesis using set_keep_first [of miner_hotkey "{miner_hotkey c}" ?r] in_set_takeD by fast
  next
    case False
    with assms have "e \<in> set (take (nat n) ?r)"
      by (simp add: tail_def Let_def dueling_adjacent_order_set split: if_splits)
    then show ?thesis by (rule in_set_takeD)
  qed
  then show "e \<in> set es" "miner_hotkey e \<noteq> miner_hotkey c" by auto
qed

lemma length_tail: "int (length (tail M es c n d)) \<le> max 0 n"
proof -
  have "length (dueling_adjacent_order M xs) = length xs" for xs
    using dueling_adjacent_order_perm [of M xs] by (rule mset_eq_length)
  then show ?thesis by (auto simp: tail_def Let_def)
qed

lemma distinct_tail_hotkeys: "distinct (map miner_hotkey (tail M es c n True))"
proof -
  have "distinct (map miner_hotkey (take k (keep_first miner_hotkey S xs)))" for k S xs
    by (metis distinct_keep_first distinct_take take_map)
  then have "distinct (map miner_hotkey (dueling_adjacent_order M (take k (keep_first miner_hotkey S xs))))" for k S xs
    using distinct_map_perm [OF dueling_adjacent_order_perm] by blast
  then show ?thesis by (simp add: tail_def Let_def)
qed

lemma tail_perm:
  assumes "mset es = mset es'" "distinct (map agent_id es)"
  shows "tail M es c n d = tail M es' c n d"
proof -
  have "sort_key (ranking_key q) (filter P es) = sort_key (ranking_key q) (filter P es')" for q P
    by (rule rank.order_free_filter [OF assms])
  then show ?thesis unfolding tail_def quality_primary_perm [OF assms(1)] by presburger
qed

subsection \<open>Shares\<close>

text \<open>The specification of tie pooling: the recipients split into groups of an anchor and the
  rows that tie with it, and a group shares the mean of the shares of its positions.\<close>

function tie_groups :: "('e \<Rightarrow> 'e \<Rightarrow> bool) \<Rightarrow> 'e list \<Rightarrow> 'e list list" where
  "tie_groups tied [] = []"
| "tie_groups tied (a # rest) =
     (a # takeWhile (\<lambda>r. tied r a) rest) # tie_groups tied (dropWhile (\<lambda>r. tied r a) rest)"
  by pat_completeness auto
termination
  by (relation "measure (\<lambda>(tied, rs). length rs)") (auto simp: length_dropWhile_le le_imp_less_Suc)

lemma concat_tie_groups: "concat (tie_groups tied rs) = rs"
  by (induction tied rs rule: tie_groups.induct) auto

lemma tie_groups_tied:
  "g \<in> set (tie_groups tied rs) \<Longrightarrow> g \<noteq> [] \<and> (\<forall>r \<in> set (tl g). tied r (hd g))"
proof (induction tied rs rule: tie_groups.induct)
  case (2 tied a rest)
  then consider "g = a # takeWhile (\<lambda>r. tied r a) rest" | "g \<in> set (tie_groups tied (dropWhile (\<lambda>r. tied r a) rest))"
    by auto
  then show ?case
  proof cases
    case 1 then show ?thesis using set_takeWhileD by fastforce
  next
    case 2 with "2.IH" show ?thesis by blast
  qed
qed simp

definition pooled_share :: "pyfloat list \<Rightarrow> pyfloat list" where
  "pooled_share shares = (if length shares > 1
     then replicate (length shares) (fdiv (py_sum shares) (fint (int (length shares)))) else shares)"

fun cut :: "nat list \<Rightarrow> 'a list \<Rightarrow> 'a list list" where
  "cut [] xs = []"
| "cut (n # ns) xs = take n xs # cut ns (drop n xs)"

lemma pool_groups_spec:
  assumes "length rs = length shares"
  shows "pool_groups tied rs shares = concat (map pooled_share (cut (map length (tie_groups tied rs)) shares))"
  using assms
proof (induction tied rs shares rule: pool_groups.induct)
  case (2 tied a rest shares)
  define k where "k = Suc (length (takeWhile (\<lambda>r. tied r a) rest))"
  have k: "k \<le> length shares"
    using 2(2) length_takeWhile_le [of "\<lambda>r. tied r a" rest] by (simp add: k_def)
  have dw: "drop k (a # rest) = dropWhile (\<lambda>r. tied r a) rest"
    by (simp add: k_def dropWhile_eq_drop)
  have IH: "pool_groups tied (drop k (a # rest)) (drop k shares)
      = concat (map pooled_share (cut (map length (tie_groups tied (drop k (a # rest)))) (drop k shares)))"
    using 2 by (intro 2(1)) (auto simp: k_def)
  have "pooled_share (take k shares) = (if k > 1 then replicate k (fdiv (py_sum (take k shares)) (fint (int k))) else take k shares)"
    using k by (simp add: pooled_share_def min_absorb2)
  with IH show ?case by (simp add: Let_def dw flip: k_def)
qed simp

lemma length_pool_groups: "length rs = length shares \<Longrightarrow> length (pool_groups tied rs shares) = length shares"
proof (induction tied rs shares rule: pool_groups.induct)
  case (2 tied a rest shares)
  then show ?case
    using length_takeWhile_le [of "\<lambda>r. tied r a" rest] by (auto simp: Let_def)
qed simp

subsection \<open>The weight vector\<close>

lemma distinct_ranked_perm:
  "mset es = mset es' \<Longrightarrow> distinct (map agent_id es) \<Longrightarrow> distinct_ranked es = distinct_ranked es'"
proof -
  assume p: "mset es = mset es'" and d: "distinct (map agent_id es)"
  show ?thesis
    unfolding distinct_ranked_def ranked_order_def quality_primary_perm [OF p] rank.order_free [OF p d] ..
qed

lemma score_ceiling_cohort_perm:
  "mset es = mset es' \<Longrightarrow> distinct (map agent_id es) \<Longrightarrow>
     score_ceiling_cohort M R es c = score_ceiling_cohort M R es' c"
proof -
  assume p: "mset es = mset es'" and d: "distinct (map agent_id es)"
  show ?thesis
    unfolding score_ceiling_cohort_def quality_primary_perm [OF p] distinct_ranked_perm [OF p d] ..
qed

lemma score_ceiling_cohort_prefix: "\<exists>k. score_ceiling_cohort M R es c = take k (distinct_ranked es)"
proof -
  have "\<exists>k. x # takeWhile P xs = take k (x # xs)" for x :: ledger_entry and xs P
    by (metis take_Suc_Cons takeWhile_eq_take)
  moreover have "\<exists>k. [] = take k (distinct_ranked es)" by (metis take0)
  ultimately show ?thesis
    by (auto simp: score_ceiling_cohort_def Let_def split: option.splits list.splits)
qed

lemma score_ceiling_cohort_in: "set (score_ceiling_cohort M R es c) \<subseteq> set es"
proof -
  have "set (distinct_ranked es) \<subseteq> set es"
    using set_keep_first [of miner_hotkey "{}" "ranked_order es"] by (simp add: distinct_ranked_def ranked_order_def)
  with score_ceiling_cohort_prefix [of M R es c] show ?thesis by (metis set_take_subset subset_trans)
qed

lemma score_ceiling_cohort_distinct: "distinct (map miner_hotkey (score_ceiling_cohort M R es c))"
proof -
  have "distinct (map miner_hotkey (distinct_ranked es))" by (simp add: distinct_ranked_def)
  with score_ceiling_cohort_prefix [of M R es c] show ?thesis by (metis distinct_take take_map)
qed

lemma rank_shares_check_None:
  assumes "rank_shares_check n shares = None"
  shows "int (length shares) = n + 1" and "0 \<le> n" and "\<forall>s\<in>set shares. isfinite s \<and> \<not> fle s (Fin 0)"
proof -
  have "rnd64 (1 / 10 ^ 12) \<le> Fin (1 / 2)" by (rule b64.rd_le) simp_all
  then have "\<not> Fin 1 \<le> rnd64 (1 / 10 ^ 12)" by (cases "rnd64 (1 / 10 ^ 12)") auto
  moreover have "fsub (Fin 1) (Fin 0) = Fin 1"
    using is64_numerals(2) by (simp add: float_simps is64_def)
  ultimately have no0: "rank_shares_check (-1) [] \<noteq> None"
    by (simp add: rank_shares_check_def Let_def fle_def float_simps)
  show l: "int (length shares) = n + 1"
    using assms by (auto simp: rank_shares_check_def split: if_splits)
  show "0 \<le> n"
  proof (rule ccontr)
    assume "\<not> 0 \<le> n"
    with l have "length shares = 0" "n = -1" by linarith+
    then have "n = -1" "shares = []" by simp_all
    with assms no0 show False by simp
  qed
  show "\<forall>s\<in>set shares. isfinite s \<and> \<not> fle s (Fin 0)"
    using assms by (auto simp: rank_shares_check_def list_ex_iff split: if_splits)
qed

lemma recipients_and_shares_ok:
  assumes "rank_shares_check n shares = None"
  shows "\<exists>rs ss. recipients_and_shares M R es c n shares tie = Inr (rs, ss)
    \<and> length ss = length rs \<and> set rs \<subseteq> insert c (set es)
    \<and> (tie \<longrightarrow> distinct (map miner_hotkey rs))"
proof -
  let ?rs = "c # tail M es c n tie"
  let ?ss = "take (length ?rs) shares"
  have len: "length ?ss = length ?rs"
    using rank_shares_check_None [OF assms] length_tail [of M es c n tie] by simp
  have tailset: "set ?rs \<subseteq> insert c (set es)" using tail_members by fastforce
  have dist: "distinct (map miner_hotkey ?rs)" if tie
    using that distinct_tail_hotkeys [of M es c n] tail_members(2) by fastforce
  show ?thesis
  proof (cases "tie \<and> score_ceiling_cohort M R es c \<noteq> []")
    case True
    then show ?thesis
      using score_ceiling_cohort_in [of M R es c] score_ceiling_cohort_distinct [of M R es c]
      by (auto simp: recipients_and_shares_def Let_def)
  next
    case False
    then have "recipients_and_shares M R es c n shares tie
        = Inr (?rs, if tie then pool_groups (weight_tied M R) ?rs ?ss else ?ss)"
      using len by (auto simp: recipients_and_shares_def Let_def pool_tied_rank_shares_def)
    moreover have "length (if tie then pool_groups (weight_tied M R) ?rs ?ss else ?ss) = length ?rs"
      using len length_pool_groups [OF len [symmetric], of "weight_tied M R"] by (cases tie) (simp_all only: if_True if_False)
    ultimately show ?thesis using tailset dist by blast
  qed
qed

lemma compute_weights_cases:
  "compute_weights M R n shares tie inc unpaid es = Inr [] \<and> scored_pool es = []
   \<or> (\<exists>err. scored_pool es \<noteq> [] \<and> rank_shares_check n shares = Some err
        \<and> compute_weights M R n shares tie inc unpaid es = Inl err)
   \<or> (\<exists>c rs ss. champion M R inc (scored_pool es) = Some c \<and> rank_shares_check n shares = None
        \<and> recipients_and_shares M R (scored_pool es) c n shares tie = Inr (rs, ss) \<and> length ss = length rs
        \<and> compute_weights M R n shares tie inc unpaid es = Inr (dict_of (zip (map (share_key unpaid) rs) ss)))"
proof (cases "scored_pool es = []")
  case True
  then show ?thesis by (simp add: compute_weights_def)
next
  case False
  then obtain c where c: "champion M R inc (scored_pool es) = Some c" using champion_Some by blast
  show ?thesis
  proof (cases "rank_shares_check n shares")
    case None
    then obtain rs ss where "recipients_and_shares M R (scored_pool es) c n shares tie = Inr (rs, ss)" "length ss = length rs"
      using recipients_and_shares_ok by blast
    with None c False show ?thesis by (simp add: compute_weights_def)
  next
    case (Some err)
    with c False show ?thesis by (simp add: compute_weights_def)
  qed
qed

lemma compute_weights_order_free:
  assumes "mset es = mset es'" "distinct (map agent_id es)"
  shows "compute_weights M R n shares tie inc unpaid es = compute_weights M R n shares tie inc unpaid es'"
proof -
  note p = scored_pool_perm [OF assms(1)] and d = distinct_scored_pool [OF assms(2)]
  have e: "(scored_pool es = []) = (scored_pool es' = [])" using p by (metis mset_zero_iff)
  have r: "recipients_and_shares M R (scored_pool es) = recipients_and_shares M R (scored_pool es')"
    unfolding recipients_and_shares_def tail_perm [OF p d] score_ceiling_cohort_perm [OF p d] ..
  show ?thesis
    unfolding compute_weights_def Let_def champion_perm [OF p d] e r ..
qed

lemma compute_weights_keys:
  assumes "compute_weights M R tail_size shares tie inc unpaid es = Inr weights"
  shows "set (dict_keys weights) \<subseteq> share_key unpaid ` set (scored_pool es) \<and> distinct (dict_keys weights)"
proof -
  consider "weights = []" | c rs ss where "champion M R inc (scored_pool es) = Some c"
      "rank_shares_check tail_size shares = None"
      "recipients_and_shares M R (scored_pool es) c tail_size shares tie = Inr (rs, ss)"
      "weights = dict_of (zip (map (share_key unpaid) rs) ss)"
    using compute_weights_cases [of M R tail_size shares tie inc unpaid es] assms by auto
  then show ?thesis
  proof cases
    case 2
    obtain rs' ss' where "recipients_and_shares M R (scored_pool es) c tail_size shares tie = Inr (rs', ss')"
        "set rs' \<subseteq> insert c (set (scored_pool es))"
      using recipients_and_shares_ok [OF 2(2), of M R "scored_pool es" c tie] by blast
    with 2(3) champion_in [OF 2(1)] have "set rs \<subseteq> set (scored_pool es)" by auto
    then have "fst ` set (zip (map (share_key unpaid) rs) ss) \<subseteq> share_key unpaid ` set (scored_pool es)"
      using set_zip_leftD by fastforce
    then show ?thesis unfolding 2(4) keys_dict_store by simp
  qed simp
qed

subsection \<open>Properties\<close>

definition example_shares :: "pyfloat list" where
  "example_shares = [Fin (1 / 2), Fin (1 / 4), Fin (1 / 4)]"

text \<open>C1: The weight vector does not depend on the order in which the ledger was served: any two
  permutations of a ledger with distinct agent ids give the same vector, entry for entry and in
  the same order, or the same exception.\<close>

theorem compute_weights_permutation:
  assumes "mset es = mset es'" and "distinct (map agent_id es)"
  shows "compute_weights M R tail_size shares tie inc unpaid es = compute_weights M R tail_size shares tie inc unpaid es'"
  by (rule compute_weights_order_free [OF assms])

theorem compute_weights_permutation_witness:
  "compute_weights example_libm example_rules 2 example_shares True None None [bob, alice]
     = compute_weights example_libm example_rules 2 example_shares True None None [alice, bob]"
  by (rule compute_weights_permutation) (simp_all add: alice_def bob_def plain_entry_def)



lemma example_vector:
  "compute_weights example_libm example_rules 2 example_shares False None None [alice, bob]
     = Inr [(''bob'', Fin (1 / 2)), (''alice'', Fin (1 / 4))]"
  by code_simp



definition example_gate :: crown_gate where
  "example_gate = \<lparr>min_shared_seeds = 2, standing_rank = 5, duel_window = None\<rparr>"


text \<open>Incumbency. When the served incumbent is in the pool and no other row beats it, it stays
  champion whatever the seniority of the other rows; and the champion of a walk without a gate is
  never beaten by a row that walks after it.\<close>

theorem incumbent_stays:
  assumes "inc_row \<in> set es" and "distinct (map agent_id es)" and "fr_crown_gate R = None"
    and "\<forall>e\<in>set es. agent_id e \<noteq> agent_id inc_row \<longrightarrow> \<not> beats M R e inc_row"
  shows "champion M R (Some (agent_id inc_row)) es = Some inc_row"
proof -
  have "find (\<lambda>e. Some (agent_id e) = Some (agent_id inc_row)) es = Some inc_row"
  proof -
    obtain y where y: "find (\<lambda>e. agent_id e = agent_id inc_row) es = Some y"
      using assms(1) by (cases "find (\<lambda>e. agent_id e = agent_id inc_row) es") (auto simp: find_None_iff)
    then have "y \<in> set es" "agent_id y = agent_id inc_row" by (auto simp: find_Some_iff)
    with assms(1,2) y show ?thesis by (auto simp: distinct_map dest: inj_onD)
  qed
  moreover have "crown_walk (beats M R) inc_row (filter (\<lambda>e. agent_id e \<noteq> agent_id inc_row) (first_seen_order es)) = inc_row"
    using assms(4) by (intro crown_walk_stays) (auto simp: first_seen_order_def)
  ultimately show ?thesis using assms(3) by (simp add: champion_def walk_opening_def)
qed

theorem incumbent_stays_witness:
  "champion example_libm example_rules (Some (agent_id bob)) [alice, bob] = Some bob"
proof (rule incumbent_stays)
  have "\<not> beats example_libm example_rules alice bob" by code_simp
  then show "\<forall>e\<in>set [alice, bob]. agent_id e \<noteq> agent_id bob \<longrightarrow> \<not> beats example_libm example_rules e bob" by simp
qed (simp_all add: alice_def bob_def plain_entry_def example_rules_def)

text \<open>The classic walk (no incumbent, no gate) crowns a row that beats nobody after it: the
  champion is at some point of the first-seen order and every later row fails to beat it.\<close>

theorem champion_unbeaten_after:
  assumes "champion M R None es = Some w" and "fr_crown_gate R = None"
  shows "\<exists>before after. first_seen_order es = before @ w # after \<and> (\<forall>e\<in>set after. \<not> beats M R e w)"
proof -
  have "find (\<lambda>e. Some (agent_id e) = None) es = None" by (simp add: find_None_iff)
  then obtain c cs where "first_seen_order es = c # cs" "crown_walk (beats M R) c cs = w"
    using assms by (auto simp: champion_def walk_opening_def split: list.splits)
  then show ?thesis using crown_walk_holds [of "beats M R" c cs w] by simp
qed

theorem champion_unbeaten_after_witness:
  "\<exists>before after. first_seen_order [alice, bob] = before @ bob # after
     \<and> (\<forall>e\<in>set after. \<not> beats example_libm example_rules e bob)"
proof (rule champion_unbeaten_after)
  show "champion example_libm example_rules None [alice, bob] = Some bob" by code_simp
qed (simp add: example_rules_def)

text \<open>C40: Tie pooling implements its specification: the recipients split into consecutive groups of
  an anchor and the rows tied with it, every group of two or more gets the mean of the shares of
  its positions, a row alone keeps its share, and no slot is lost.\<close>

theorem pool_implements_spec:
  assumes "length recipients = length shares"
  shows "pool_tied_rank_shares M R recipients shares
      = Inr (concat (map pooled_share (cut (map length (tie_groups (weight_tied M R) recipients)) shares)))
    \<and> concat (tie_groups (weight_tied M R) recipients) = recipients
    \<and> (\<forall>g\<in>set (tie_groups (weight_tied M R) recipients). \<forall>r\<in>set (tl g). weight_tied M R r (hd g))"
  using assms tie_groups_tied [of _ "weight_tied M R" recipients]
  by (simp add: pool_tied_rank_shares_def pool_groups_spec concat_tie_groups)

theorem pool_implements_spec_witness:
  "pool_tied_rank_shares example_libm example_rules [alice, alice] [Fin (1 / 2), Fin (1 / 4)]
     = Inr (concat (map pooled_share (cut (map length (tie_groups (weight_tied example_libm example_rules) [alice, alice]))
         [Fin (1 / 2), Fin (1 / 4)])))"
  using pool_implements_spec [of "[alice, alice]" "[Fin (1 / 2), Fin (1 / 4)]"] by simp

text \<open>Reordering the tail by paired comparisons moves nobody in or out: it is a permutation of
  the selected rows, it is the identity when no row is a dueling row, and the tail never contains
  the champion's hotkey or more than \<open>tail_size\<close> rows.\<close>

theorem tail_membership:
  "mset (dueling_adjacent_order M ranked) = mset ranked
   \<and> (list_ex is_dueling_entry ranked \<or> dueling_adjacent_order M ranked = ranked)
   \<and> miner_hotkey c \<notin> miner_hotkey ` set (tail M es c tail_size d)
   \<and> int (length (tail M es c tail_size d)) \<le> max 0 tail_size"
proof (intro conjI)
  show "list_ex is_dueling_entry ranked \<or> dueling_adjacent_order M ranked = ranked"
    by (simp add: dueling_adjacent_order_def)
  show "miner_hotkey c \<notin> miner_hotkey ` set (tail M es c tail_size d)"
    using tail_members(2) [of _ M es c tail_size d] by (metis imageE)
qed (rule dueling_adjacent_order_perm, rule length_tail)

text \<open>At a score-ceiling deadlock the emission is split evenly: the cohort has at least two
  members with pairwise distinct hotkeys, each a row of the pool, and each receives one over the
  size of the cohort.\<close>

theorem ceiling_cohort_shares:
  assumes "score_ceiling_cohort M R es c \<noteq> []"
  shows "recipients_and_shares M R es c tail_size shares True =
      Inr (score_ceiling_cohort M R es c, replicate (length (score_ceiling_cohort M R es c))
        (fdiv (Fin 1) (fint (int (length (score_ceiling_cohort M R es c))))))
    \<and> 2 \<le> length (score_ceiling_cohort M R es c)
    \<and> distinct (map miner_hotkey (score_ceiling_cohort M R es c))
    \<and> set (score_ceiling_cohort M R es c) \<subseteq> set es"
proof -
  have "2 \<le> length (score_ceiling_cohort M R es c)"
    using assms by (auto simp: score_ceiling_cohort_def Let_def Suc_le_eq split: option.splits list.splits if_splits)
  with assms show ?thesis
    using score_ceiling_cohort_distinct score_ceiling_cohort_in by (simp add: recipients_and_shares_def Let_def)
qed

theorem ceiling_cohort_shares_witness:
  "2 \<le> length (score_ceiling_cohort example_libm example_rules
      [plain_entry ''x'' 1 (Fin 1) 1, plain_entry ''y'' 2 (Fin 1) 2] (plain_entry ''x'' 1 (Fin 1) 1))"
proof -
  have "score_ceiling_cohort example_libm example_rules
      [plain_entry ''x'' 1 (Fin 1) 1, plain_entry ''y'' 2 (Fin 1) 2] (plain_entry ''x'' 1 (Fin 1) 1)
      = [plain_entry ''x'' 1 (Fin 1) 1, plain_entry ''y'' 2 (Fin 1) 2]" by code_simp
  with ceiling_cohort_shares [of example_libm example_rules
      "[plain_entry ''x'' 1 (Fin 1) 1, plain_entry ''y'' 2 (Fin 1) 2]" "plain_entry ''x'' 1 (Fin 1) 1" 4 example_shares]
  show ?thesis by simp
qed

end
