(* ===== verification/Weights_Tracks.thy ===== *)
theory Weights_Tracks
  imports Weights_Fold
begin

section \<open>Tracks, burn and the submitted vector\<close>

text \<open>
  Models the emission half of \<^verbatim>\<open>ditto/validator/weights.py\<close>: the burn share and the track split
  served by the platform with their fallbacks, the router and generator folds, the blend of the
  per-track vectors, the hand-over of an empty track's share, and the final split between miners
  and the burn hotkey. Values whose Python type the code inspects are the datatypes
  \<open>py_num\<close> and \<open>py_key\<close>.
\<close>

definition BASIS_POINT_SCALE :: int where "BASIS_POINT_SCALE = 10000"

definition is_positive :: "pyfloat \<Rightarrow> bool" where
  "is_positive w \<longleftrightarrow> flt (Fin 0) w"

definition positive_items :: "(string, pyfloat) dict \<Rightarrow> (string, pyfloat) dict" where
  "positive_items d = filter (\<lambda>(k, w). is_positive w) d"

subsection \<open>Burn share and emission cap\<close>

text \<open>A value whose Python type the code inspects: \<open>NOther\<close> is anything that is not a number.
  \<open>num_float\<close> is \<^verbatim>\<open>float(x)\<close> (and the conversion inside \<^verbatim>\<open>math.isfinite\<close>) with the
  exceptions Python raises: an int beyond the binary64 range overflows.\<close>

datatype py_num = NFloat pyfloat | NInt int | NBool bool | NOther

fun num_float :: "py_num \<Rightarrow> py_error + pyfloat" where
  "num_float (NFloat x) = Inr x"
| "num_float (NInt n) = (if isfinite (fint n) then Inr (fint n) else Inl OverflowError)"
| "num_float (NBool b) = Inr (if b then Fin 1 else Fin 0)"
| "num_float NOther = Inl TypeError"

definition in_unit :: "pyfloat \<Rightarrow> bool" where
  "in_unit x \<longleftrightarrow> fle (Fin 0) x \<and> fle x (Fin 1)"

fun resolve_miner_emission_share :: "py_num \<Rightarrow> pyfloat \<Rightarrow> py_error + pyfloat" where
  "resolve_miner_emission_share NOther default_share = Inr default_share"
| "resolve_miner_emission_share (NBool b) default_share = Inr default_share"
| "resolve_miner_emission_share burn_share default_share =
     (case num_float burn_share of Inl err \<Rightarrow> Inl err
      | Inr b \<Rightarrow> if \<not> isfinite b \<or> \<not> in_unit b then Inr default_share else Inr (fsub (Fin 1) b))"

definition apply_miner_emission_cap ::
  "(string, pyfloat) dict \<Rightarrow> pyfloat \<Rightarrow> string \<Rightarrow> py_error + (string, pyfloat) dict" where
  "apply_miner_emission_cap weights miner_share burn_hotkey =
     (if \<not> in_unit miner_share
      then Inl (ValueError ''miner_share must be in [0, 1]'')
      else let miners = filter (\<lambda>(hk, w). hk \<noteq> burn_hotkey \<and> is_positive w) weights;
               total = py_sum (dict_values miners)
           in if (fle total (Fin 0) \<or> flt miner_share (Fin 1)) \<and> burn_hotkey = []
              then Inl (ValueError ''burn_hotkey must be non-empty'')
              else if fle total (Fin 0) then Inr [(burn_hotkey, Fin 1)]
              else let capped = map (\<lambda>(hk, w). (hk, fmul (fdiv w total) miner_share)) miners;
                       burn_share = fsub (Fin 1) miner_share
                   in Inr (if flt (Fin 0) burn_share then dict_set burn_hotkey burn_share capped else capped))"

text \<open>The disjunction of the source is evaluated from left to right, so an exception of an
  \<^verbatim>\<open>isfinite\<close> is only reached when the tests before it fail.\<close>

definition is_bool :: "py_num \<Rightarrow> bool" where
  "is_bool x \<longleftrightarrow> (case x of NBool _ \<Rightarrow> True | _ \<Rightarrow> False)"

definition num_positive :: "py_num \<Rightarrow> bool" where
  "num_positive w \<longleftrightarrow> (case w of NFloat x \<Rightarrow> is_positive x | NInt n \<Rightarrow> n > 0 | _ \<Rightarrow> False)"

definition owner_burn_destination_required ::
  "(string, py_num) dict \<Rightarrow> py_num \<Rightarrow> py_num \<Rightarrow> py_num \<Rightarrow> py_error + bool" where
  "owner_burn_destination_required weights miner_share paid_miner_fraction service_bps =
     (if is_bool miner_share \<or> is_bool paid_miner_fraction then Inr True
      else case num_float miner_share of Inl err \<Rightarrow> Inl err | Inr share \<Rightarrow>
        if \<not> isfinite share then Inr True
        else case num_float paid_miner_fraction of Inl err \<Rightarrow> Inl err | Inr paid_fraction \<Rightarrow>
          if \<not> isfinite paid_fraction \<or> \<not> in_unit share \<or> \<not> in_unit paid_fraction then Inr True
          else case service_bps of
            NInt bps \<Rightarrow>
              if \<not> (0 \<le> bps \<and> bps \<le> 10000) then Inr True
              else let positive = list_ex num_positive (dict_values weights);
                       service = itruediv bps 10000;
                       paid = (if positive then fmul (fmul (fsub (Fin 1) service) share) paid_fraction else Fin 0)
                   in Inr (flt (Fin 0) (fsub (fsub (Fin 1) service) paid))
          | _ \<Rightarrow> Inr True)"

subsection \<open>Track shares\<close>

datatype py_key = KStr string | KOther

fun track_shares_loop :: "(py_key \<times> py_num) list \<Rightarrow> (string, int) dict \<Rightarrow> (string, int) dict option" where
  "track_shares_loop [] resolved = Some resolved"
| "track_shares_loop ((k, v) # rest) resolved = (case (k, v) of
     (KStr track, NInt bps) \<Rightarrow>
       if track = [] \<or> \<not> (0 \<le> bps \<and> bps \<le> BASIS_POINT_SCALE) then None
       else track_shares_loop rest (dict_set track bps resolved)
   | _ \<Rightarrow> None)"

text \<open>\<open>None\<close> stands for a missing field or one that is not a mapping.\<close>

definition resolve_track_shares ::
  "(py_key \<times> py_num) list option \<Rightarrow> (string, int) dict \<Rightarrow> (string, int) dict" where
  "resolve_track_shares raw default_shares = (case raw of
     None \<Rightarrow> default_shares
   | Some items \<Rightarrow>
       if items = [] then default_shares
       else case track_shares_loop items [] of
         None \<Rightarrow> default_shares
       | Some resolved \<Rightarrow> if sum_list (dict_values resolved) > BASIS_POINT_SCALE then default_shares else resolved)"

subsection \<open>Router and generator folds\<close>

record router_entry =
  re_miner_hotkey :: string
  re_agent_id :: nat
  re_combined_score :: pyfloat
  re_first_seen :: int
  re_weight_eligible :: bool

record generator_entry =
  ge_miner_hotkey :: string
  ge_submission_id :: string
  ge_score :: pyfloat
  ge_first_seen :: int
  ge_weight_eligible :: bool

definition bad_rank_shares :: "pyfloat list \<Rightarrow> bool" where
  "bad_rank_shares shares \<longleftrightarrow> list_ex (\<lambda>s. \<not> isfinite s \<or> fle s (Fin 0)) shares"

definition router_key :: "router_entry \<Rightarrow> pyfloat \<times> int \<times> nat" where
  "router_key e = (fneg (re_combined_score e), re_first_seen e, re_agent_id e)"

definition generator_key :: "generator_entry \<Rightarrow> pyfloat \<times> int \<times> string" where
  "generator_key e = (fneg (ge_score e), ge_first_seen e, ge_submission_id e)"

text \<open>Rank shares by position, one slot per hotkey: the end of both folds.\<close>

definition assign_rank_shares :: "string list \<Rightarrow> pyfloat list \<Rightarrow> (string, pyfloat) dict" where
  "assign_rank_shares hotkeys shares = dict_of (zip (take (length shares) hotkeys) shares)"

definition compute_router_weights :: "router_entry list \<Rightarrow> pyfloat list \<Rightarrow> (string, pyfloat) dict" where
  "compute_router_weights es rank_shares =
     (if rank_shares = [] then []
      else if bad_rank_shares rank_shares then []
      else let scored = filter (\<lambda>e. re_weight_eligible e \<and> is_positive (re_combined_score e)) es in
        if scored = [] then []
        else let ranked = sort_key router_key scored
             in assign_rank_shares (map re_miner_hotkey (keep_first re_miner_hotkey {} ranked)) rank_shares)"

definition compute_generator_weights :: "generator_entry list \<Rightarrow> pyfloat list \<Rightarrow> (string, pyfloat) dict" where
  "compute_generator_weights es rank_shares =
     (if rank_shares = [] then []
      else if bad_rank_shares rank_shares then []
      else let scored = filter (\<lambda>e. ge_weight_eligible e \<and> isfinite (ge_score e) \<and> is_positive (ge_score e)) es;
               ranked = sort_key generator_key scored
           in assign_rank_shares (map ge_miner_hotkey (keep_first ge_miner_hotkey {} ranked)) rank_shares)"

subsection \<open>Blending\<close>

type_synonym weight_vector = "(string, pyfloat) dict"

definition has_positive_weight :: "weight_vector \<Rightarrow> bool" where
  "has_positive_weight v = list_ex is_positive (dict_values v)"

definition share_of :: "(string, int) dict \<Rightarrow> string \<Rightarrow> int" where
  "share_of shares track = (case dict_get shares track of None \<Rightarrow> 0 | Some b \<Rightarrow> b)"

definition vector_of :: "(string, weight_vector) dict \<Rightarrow> string \<Rightarrow> weight_vector" where
  "vector_of vectors track = (case dict_get vectors track of None \<Rightarrow> [] | Some v \<Rightarrow> v)"

definition add_weight :: "weight_vector \<Rightarrow> string \<Rightarrow> pyfloat \<Rightarrow> weight_vector" where
  "add_weight combined hk w =
     dict_set hk (fadd (case dict_get combined hk of None \<Rightarrow> Fin 0 | Some x \<Rightarrow> x) w) combined"

definition blend_step :: "(string, int) dict \<Rightarrow> weight_vector \<Rightarrow> string \<times> weight_vector \<Rightarrow> weight_vector" where
  "blend_step shares combined tv = (case tv of (track, v) \<Rightarrow>
     (let positives = positive_items v; total = fsum (dict_values positives) in
      if fle total (Fin 0) then combined
      else let scale = fdiv (itruediv (share_of shares track) BASIS_POINT_SCALE) total
           in foldl (\<lambda>c (hk, w). add_weight c hk (fmul w scale)) combined positives))"

definition blend_track_weights :: "(string, weight_vector) dict \<Rightarrow> (string, int) dict \<Rightarrow> weight_vector" where
  "blend_track_weights vectors shares =
     (let contributing = filter (\<lambda>(track, v). has_positive_weight v \<and> share_of shares track > 0) vectors in
      case contributing of
        [] \<Rightarrow> []
      | [(track, v)] \<Rightarrow>
          if share_of shares track = BASIS_POINT_SCALE then positive_items v
          else foldl (blend_step shares) [] contributing
      | _ \<Rightarrow> foldl (blend_step shares) [] contributing)"

definition track_allocated_share :: "(string, int) dict \<Rightarrow> (string, weight_vector) dict \<Rightarrow> pyfloat" where
  "track_allocated_share shares vectors =
     itruediv (sum_list (map snd (filter (\<lambda>(track, bps). bps > 0 \<and> has_positive_weight (vector_of vectors track)) shares)))
       BASIS_POINT_SCALE"

definition falls_back ::
  "(string, int) dict \<Rightarrow> (string, weight_vector) dict \<Rightarrow> (string, string) dict \<Rightarrow> string \<Rightarrow> string option" where
  "falls_back original vectors fallbacks track = (case dict_get fallbacks track of
     None \<Rightarrow> None
   | Some target \<Rightarrow> if target = track \<or> target \<notin> set (dict_keys original)
        \<or> has_positive_weight (vector_of vectors track) then None else Some target)"

definition reassign_step ::
  "(string, int) dict \<Rightarrow> (string, weight_vector) dict \<Rightarrow> (string, string) dict
     \<Rightarrow> (string, int) dict \<Rightarrow> string \<Rightarrow> (string, int) dict" where
  "reassign_step original vectors fallbacks resolved track =
     (case falls_back original vectors fallbacks track of
        None \<Rightarrow> resolved
      | Some target \<Rightarrow>
          (let moved = share_of original track;
               less = dict_set track (share_of resolved track - moved) resolved
           in dict_set target (share_of less target + moved) less))"

definition reassign_unclaimed_shares ::
  "(string, int) dict \<Rightarrow> (string, weight_vector) dict \<Rightarrow> (string, string) dict \<Rightarrow> (string, int) dict" where
  "reassign_unclaimed_shares shares vectors fallbacks =
     (let original = filter (\<lambda>(track, bps). bps > 0) shares;
          resolved = foldl (reassign_step original vectors fallbacks) original (sort (dict_keys original))
      in filter (\<lambda>(track, bps). bps > 0) resolved)"

definition split_unpaid_share :: "weight_vector \<Rightarrow> weight_vector \<times> pyfloat" where
  "split_unpaid_share weights =
     (if UNPAID_SHARE_KEY \<notin> set (dict_keys weights) then (weights, Fin 1)
      else let paid = filter (\<lambda>(hk, w). hk \<noteq> UNPAID_SHARE_KEY) weights;
               total = fsum (filter is_positive (dict_values weights))
           in if fle total (Fin 0) then (paid, Fin 0)
              else (paid, fdiv (fsum (filter is_positive (dict_values paid))) total))"

subsection \<open>Rank folds\<close>

interpretation router: canonical_order router_key re_agent_id
  by unfold_locales (simp add: router_key_def)

interpretation generator: canonical_order generator_key ge_submission_id
  by unfold_locales (simp add: generator_key_def)

lemma assign_rank_shares_zip:
  "distinct hotkeys \<Longrightarrow> assign_rank_shares hotkeys shares = zip hotkeys shares"
proof -
  assume d: "distinct hotkeys"
  have "zip (take (length shares) hotkeys) shares = zip hotkeys shares"
    by (metis take_all_iff order_refl take_zip length_zip min.cobounded2)
  then show ?thesis
    using d by (simp add: assign_rank_shares_def dict_of_distinct map_fst_zip_take)
qed

lemma zip_keep_first:
  "distinct (map fst (zip (map h (keep_first h {} xs)) shares))"
  "set (map fst (zip (map h (keep_first h {} xs)) shares)) \<subseteq> h ` set xs"
proof -
  let ?ks = "map h (keep_first h {} xs)"
  have z: "map fst (zip ?ks shares) = take (length shares) ?ks"
    by (metis map_fst_zip_take take_take min.commute min.idem take_all_iff nle_le)
  show "distinct (map fst (zip ?ks shares))" unfolding z by (simp add: distinct_take)
  have "set (take (length shares) ?ks) \<subseteq> set ?ks" by (rule set_take_subset)
  also have "\<dots> \<subseteq> h ` set xs" using set_keep_first [of h "{}" xs] by auto
  finally show "set (map fst (zip ?ks shares)) \<subseteq> h ` set xs" unfolding z .
qed

text \<open>Both folds are the zip of the distinct hotkeys, best first, with the shares.\<close>

lemma router_zip:
  "compute_router_weights es shares =
     (if shares = [] \<or> bad_rank_shares shares then []
      else zip (map re_miner_hotkey (keep_first re_miner_hotkey {}
             (sort_key router_key (filter (\<lambda>e. re_weight_eligible e \<and> is_positive (re_combined_score e)) es)))) shares)"
  by (simp add: compute_router_weights_def Let_def assign_rank_shares_zip)

lemma generator_zip:
  "compute_generator_weights es shares =
     (if shares = [] \<or> bad_rank_shares shares then []
      else zip (map ge_miner_hotkey (keep_first ge_miner_hotkey {}
             (sort_key generator_key (filter (\<lambda>e. ge_weight_eligible e \<and> isfinite (ge_score e) \<and> is_positive (ge_score e)) es)))) shares)"
  by (simp add: compute_generator_weights_def Let_def assign_rank_shares_zip)

subsection \<open>Moving unclaimed shares\<close>

lemma share_of_set: "share_of (dict_set k v d) t = (if t = k then v else share_of d t)"
  by (simp add: share_of_def update_conv')

lemma reassign_step_share:
  "share_of (reassign_step orig vs fb res u) t =
     (case falls_back orig vs fb u of
        None \<Rightarrow> share_of res t
      | Some target \<Rightarrow> share_of res t - (if t = u then share_of orig u else 0)
                         + (if t = target then share_of orig u else 0))"
  by (auto simp: reassign_step_def Let_def share_of_set split: option.split)

definition moved_to :: "(string, int) dict \<Rightarrow> (string, weight_vector) dict \<Rightarrow> (string, string) dict \<Rightarrow> string \<Rightarrow> string \<Rightarrow> int" where
  "moved_to orig vs fb t u = (if falls_back orig vs fb u = Some t then share_of orig u else 0)"

lemma reassign_fold_share:
  "distinct us \<Longrightarrow> share_of (foldl (reassign_step orig vs fb) res us) t =
     share_of res t - (if t \<in> set us \<and> falls_back orig vs fb t \<noteq> None then share_of orig t else 0)
       + (\<Sum>u\<leftarrow>us. moved_to orig vs fb t u)"
proof (induction us arbitrary: res)
  case (Cons u us)
  then show ?case
    by (auto simp: reassign_step_share moved_to_def split: option.splits)
qed simp

lemma keys_reassign_step:
  "u \<in> set (dict_keys res) \<Longrightarrow> set (dict_keys orig) \<subseteq> set (dict_keys res) \<Longrightarrow>
     dict_keys (reassign_step orig vs fb res u) = dict_keys res"
proof -
  have keep: "dict_keys (dict_set k v d) = dict_keys d" if "k \<in> set (dict_keys d)" for k v and d :: "(string, int) dict"
    using that by (induction d) auto
  assume u: "u \<in> set (dict_keys res)" and sub: "set (dict_keys orig) \<subseteq> set (dict_keys res)"
  show ?thesis
  proof (cases "falls_back orig vs fb u")
    case (Some target)
    then have "target \<in> set (dict_keys orig)" by (auto simp: falls_back_def split: option.splits if_splits)
    with sub have t: "target \<in> set (dict_keys res)" by blast
    with Some show ?thesis by (simp add: reassign_step_def Let_def keep keep [OF u] u del: set_map)
  qed (simp add: reassign_step_def)
qed

lemma keys_reassign_fold:
  "set us \<subseteq> set (dict_keys res) \<Longrightarrow> set (dict_keys orig) \<subseteq> set (dict_keys res) \<Longrightarrow>
     dict_keys (foldl (reassign_step orig vs fb) res us) = dict_keys res"
  by (induction us arbitrary: res) (auto simp: keys_reassign_step simp del: set_map)

lemma share_of_absent: "t \<notin> set (dict_keys d) \<Longrightarrow> share_of d t = 0"
proof -
  assume "t \<notin> set (dict_keys d)"
  then have "dict_get d t = None" unfolding map_of_eq_None_iff by simp
  then show ?thesis by (simp add: share_of_def)
qed

lemma share_of_filter_pos:
  assumes "distinct (dict_keys d)" "\<And>t. 0 \<le> share_of d t"
  shows "share_of (filter (\<lambda>(t, b). b > 0) d) t = share_of d t"
proof (cases "dict_get d t")
  case None
  then have "t \<notin> set (dict_keys d)" by (simp add: map_of_eq_None_iff)
  then have "dict_get (filter (\<lambda>(t, b). b > 0) d) t = None" by (auto simp: map_of_eq_None_iff)
  with None show ?thesis by (simp add: share_of_def)
next
  case (Some b)
  show ?thesis
  proof (cases "b > 0")
    case True
    have "distinct (dict_keys (filter (\<lambda>(t, b). b > 0) d))" using assms(1) by (rule distinct_map_filter)
    moreover have "(t, b) \<in> set (filter (\<lambda>(t, b). b > 0) d)" using True Some by (simp add: map_of_SomeD)
    ultimately have "dict_get (filter (\<lambda>(t, b). b > 0) d) t = Some b" by (intro map_of_is_SomeI)
    with Some show ?thesis by (simp add: share_of_def)
  next
    case False
    with Some assms(2) [of t] have b: "b = 0" by (simp add: share_of_def)
    have "t \<notin> set (dict_keys (filter (\<lambda>(t, b). b > 0) d))"
    proof
      assume "t \<in> set (dict_keys (filter (\<lambda>(t, b). b > 0) d))"
      then obtain b' where b': "(t, b') \<in> set d" "b' > 0" by auto
      with map_of_is_SomeI [OF assms(1) b'(1)] Some b show False by simp
    qed
    then have "dict_get (filter (\<lambda>(t, b). b > 0) d) t = None" unfolding map_of_eq_None_iff by simp
    with Some b show ?thesis by (simp add: share_of_def)
  qed
qed

definition paying :: "(string, int) dict \<Rightarrow> (string, int) dict" where
  "paying shares = filter (\<lambda>(track, bps). bps > 0) shares"

lemma share_of_nonneg: "\<forall>(t, b)\<in>set d. 0 \<le> b \<Longrightarrow> 0 \<le> share_of d t"
  by (auto simp: share_of_def dest!: map_of_SomeD split: option.split)

lemma reassign_closed_form:
  assumes "distinct (dict_keys shares)"
  shows "share_of (reassign_unclaimed_shares shares vs fb) t =
     (if falls_back (paying shares) vs fb t \<noteq> None then 0 else share_of (paying shares) t)
       + (\<Sum>u\<leftarrow>dict_keys (paying shares). moved_to (paying shares) vs fb t u)"
proof -
  define orig where "orig = paying shares"
  define res where "res = foldl (reassign_step orig vs fb) orig (sort (dict_keys orig))"
  have d: "distinct (dict_keys orig)" using assms unfolding orig_def paying_def by (rule distinct_map_filter)
  have nn: "0 \<le> share_of orig t" for t by (rule share_of_nonneg) (auto simp: orig_def paying_def)
  have off: "share_of orig t = 0" if "t \<notin> set (dict_keys orig)" for t
    using that by (rule share_of_absent)
  have form: "share_of res t = (if falls_back orig vs fb t \<noteq> None then 0 else share_of orig t)
       + (\<Sum>u\<leftarrow>dict_keys orig. moved_to orig vs fb t u)" for t
  proof -
    have "(\<Sum>u\<leftarrow>sort (dict_keys orig). moved_to orig vs fb t u) = (\<Sum>u\<leftarrow>dict_keys orig. moved_to orig vs fb t u)"
      by (metis mset_map mset_sort sum_mset_sum_list)
    with d off [of t] show ?thesis by (auto simp: res_def reassign_fold_share simp del: set_map)
  qed
  have "0 \<le> moved_to orig vs fb t u" for t u using nn by (simp add: moved_to_def)
  then have "0 \<le> sum_list (map (moved_to orig vs fb t \<circ> fst) d)" for t d by (induction d) auto
  then have "0 \<le> share_of res t" for t using nn unfolding form by (auto intro!: add_nonneg_nonneg)
  moreover have "dict_keys res = dict_keys orig"
    unfolding res_def by (rule keys_reassign_fold) auto
  ultimately have "share_of (filter (\<lambda>(t, b). b > 0) res) t = share_of res t"
    using d by (intro share_of_filter_pos) auto
  then show ?thesis
    unfolding form unfolding reassign_unclaimed_shares_def Let_def paying_def [symmetric] orig_def [symmetric] res_def .
qed

lemma sum_values: "distinct (dict_keys d) \<Longrightarrow> sum_list (dict_values d) = (\<Sum>t\<in>set (dict_keys d). share_of d t)"
proof (induction d)
  case (Cons p d)
  have "(\<Sum>t\<in>set (dict_keys d). share_of (p # d) t) = (\<Sum>t\<in>set (dict_keys d). share_of d t)"
    using Cons.prems by (intro sum.cong) (cases p, auto simp: share_of_def image_iff)
  with Cons show ?case by (cases p) (simp add: share_of_def del: set_map)
qed simp

lemma distinct_reassign:
  assumes "distinct (dict_keys shares)"
  shows "distinct (dict_keys (reassign_unclaimed_shares shares vs fb))"
    and "set (dict_keys (reassign_unclaimed_shares shares vs fb)) \<subseteq> set (dict_keys (paying shares))"
proof -
  let ?res = "foldl (reassign_step (paying shares) vs fb) (paying shares) (sort (dict_keys (paying shares)))"
  have k: "dict_keys ?res = dict_keys (paying shares)" by (rule keys_reassign_fold) auto
  have e: "reassign_unclaimed_shares shares vs fb = filter (\<lambda>(track, bps). bps > 0) ?res"
    by (simp add: reassign_unclaimed_shares_def paying_def Let_def)
  have "distinct (dict_keys (paying shares))" using assms unfolding paying_def by (rule distinct_map_filter)
  then show "distinct (dict_keys (reassign_unclaimed_shares shares vs fb))"
    unfolding e by (intro distinct_map_filter) (simp only: k)
  have "set (dict_keys (filter (\<lambda>(track, bps). bps > 0) ?res)) \<subseteq> set (dict_keys ?res)" by auto
  then show "set (dict_keys (reassign_unclaimed_shares shares vs fb)) \<subseteq> set (dict_keys (paying shares))"
    unfolding e k .
qed

lemma reassign_conserves:
  assumes "distinct (dict_keys shares)"
  shows "sum_list (dict_values (reassign_unclaimed_shares shares vs fb)) = sum_list (dict_values (paying shares))"
proof -
  let ?K = "set (dict_keys (paying shares))" and ?r = "reassign_unclaimed_shares shares vs fb"
  let ?f = "falls_back (paying shares) vs fb" and ?s = "share_of (paying shares)"
  have dp: "distinct (dict_keys (paying shares))" using assms unfolding paying_def by (rule distinct_map_filter)
  have "sum_list (dict_values ?r) = (\<Sum>t\<in>set (dict_keys ?r). share_of ?r t)"
    by (rule sum_values [OF distinct_reassign(1) [OF assms]])
  also have "\<dots> = (\<Sum>t\<in>?K. share_of ?r t)"
    using distinct_reassign(2) [OF assms]
    by (intro sum.mono_neutral_left) (auto intro: share_of_absent)
  also have "\<dots> = (\<Sum>t\<in>?K. (if ?f t \<noteq> None then 0 else ?s t)) + (\<Sum>t\<in>?K. \<Sum>u\<in>?K. moved_to (paying shares) vs fb t u)"
    by (simp only: reassign_closed_form [OF assms] sum.distrib sum_list_distinct_conv_sum_set [OF dp])
  also have "(\<Sum>t\<in>?K. \<Sum>u\<in>?K. moved_to (paying shares) vs fb t u) = (\<Sum>u\<in>?K. \<Sum>t\<in>?K. moved_to (paying shares) vs fb t u)"
    by (rule sum.swap)
  also have "\<dots> = (\<Sum>u\<in>?K. if ?f u \<noteq> None then ?s u else 0)"
  proof (rule sum.cong [OF refl])
    fix u
    show "(\<Sum>t\<in>?K. moved_to (paying shares) vs fb t u) = (if ?f u \<noteq> None then ?s u else 0)"
    proof (cases "?f u")
      case (Some w)
      then have "w \<in> ?K" by (auto simp: falls_back_def split: option.splits if_splits)
      moreover have "moved_to (paying shares) vs fb t u = (if w = t then ?s u else 0)" for t
        using Some by (simp add: moved_to_def)
      ultimately show ?thesis using Some by simp
    qed (simp add: moved_to_def)
  qed
  also have "(\<Sum>t\<in>?K. (if ?f t \<noteq> None then 0 else ?s t)) + (\<Sum>u\<in>?K. if ?f u \<noteq> None then ?s u else 0) = (\<Sum>t\<in>?K. ?s t)"
    unfolding sum.distrib [symmetric] by (rule sum.cong) auto
  also have "\<dots> = sum_list (dict_values (paying shares))" by (rule sum_values [OF dp, symmetric])
  finally show ?thesis .
qed

subsection \<open>Properties\<close>

text \<open>Moving the share of an empty track follows its specification exactly: a track that falls
  back keeps nothing of its own share, every other track keeps its own, and each receives the full
  configured share of the empty tracks that name it as their fallback. Only configured shares
  move, so a chain of fallbacks is a single hop, and the result does not depend on the order of
  the dictionary.\<close>

theorem reassign_one_hop:
  assumes "distinct (dict_keys shares)"
  shows "share_of (reassign_unclaimed_shares shares vectors fallbacks) t =
     (if falls_back (paying shares) vectors fallbacks t \<noteq> None then 0 else share_of (paying shares) t)
       + (\<Sum>u\<leftarrow>dict_keys (paying shares).
            if falls_back (paying shares) vectors fallbacks u = Some t then share_of (paying shares) u else 0)"
  using reassign_closed_form [OF assms] by (simp add: moved_to_def)

theorem reassign_one_hop_witness:
  "share_of (reassign_unclaimed_shares [(''memory'', 9000), (''generator'', 1000)]
     [(''memory'', [(''m'', Fin 1)]), (''generator'', [])] [(''generator'', ''memory'')]) ''memory'' = 10000"
  using reassign_one_hop [of "[(''memory'', 9000), (''generator'', 1000)]"
      "[(''memory'', [(''m'', Fin 1)]), (''generator'', [])]" "[(''generator'', ''memory'')]" "''memory''"]
  by (simp add: paying_def falls_back_def has_positive_weight_def vector_of_def share_of_def is_positive_def)

text \<open>No basis point is created or lost when shares are moved: the total is the total of the
  positive configured shares.\<close>

theorem reassign_total:
  assumes "distinct (dict_keys shares)"
  shows "sum_list (dict_values (reassign_unclaimed_shares shares vectors fallbacks))
     = sum_list (map snd (filter (\<lambda>(track, bps). bps > 0) shares))"
  using reassign_conserves [OF assms] by (simp add: paying_def)

theorem reassign_total_witness:
  "sum_list (dict_values (reassign_unclaimed_shares [(''memory'', 9000), (''generator'', 1000)]
     [(''memory'', [(''m'', Fin 1)])] [(''generator'', ''memory'')])) = 10000"
  using reassign_total [of "[(''memory'', 9000), (''generator'', 1000)]"] by simp

lemma track_shares_loop_ok:
  "track_shares_loop items acc = Some res \<Longrightarrow> distinct (dict_keys acc) \<Longrightarrow>
     \<forall>(t, b)\<in>set acc. t \<noteq> [] \<and> 0 \<le> b \<and> b \<le> BASIS_POINT_SCALE \<Longrightarrow>
     distinct (dict_keys res) \<and> (\<forall>(t, b)\<in>set res. t \<noteq> [] \<and> 0 \<le> b \<and> b \<le> BASIS_POINT_SCALE)"
proof (induction items acc rule: track_shares_loop.induct)
  case (2 k v rest acc)
  then obtain track bps where kv: "k = KStr track" "v = NInt bps" "track \<noteq> []" "0 \<le> bps" "bps \<le> BASIS_POINT_SCALE"
    by (auto split: py_key.splits py_num.splits if_splits)
  have "\<forall>(t, b)\<in>set (dict_set track bps acc). t \<noteq> [] \<and> 0 \<le> b \<and> b \<le> BASIS_POINT_SCALE"
  proof (clarify)
    fix t b assume "(t, b) \<in> set (dict_set track bps acc)"
    then have "(t, b) = (track, bps) \<or> (t, b) \<in> set acc" by (induction acc) (auto split: if_splits)
    with kv 2(4) show "t \<noteq> [] \<and> 0 \<le> b \<and> b \<le> BASIS_POINT_SCALE" by auto
  qed
  with 2 kv show ?case by (simp add: distinct_update)
qed simp

text \<open>A served track split is either refused in favour of the compiled default, or a coherent
  one: named tracks, each share between 0 and 10000 basis points, none named twice, and no more
  than 10000 in all.\<close>

theorem track_shares_coherent:
  "resolve_track_shares raw default_shares = default_shares \<or>
   (distinct (dict_keys (resolve_track_shares raw default_shares))
    \<and> list_all (\<lambda>(t, b). t \<noteq> [] \<and> 0 \<le> b \<and> b \<le> BASIS_POINT_SCALE) (resolve_track_shares raw default_shares)
    \<and> sum_list (dict_values (resolve_track_shares raw default_shares)) \<le> BASIS_POINT_SCALE)"
proof (cases "\<exists>items res. raw = Some items \<and> items \<noteq> [] \<and> track_shares_loop items [] = Some res
    \<and> sum_list (dict_values res) \<le> BASIS_POINT_SCALE")
  case True
  then obtain items res where r: "raw = Some items" "items \<noteq> []" "track_shares_loop items [] = Some res"
      "sum_list (dict_values res) \<le> BASIS_POINT_SCALE" by blast
  then have "resolve_track_shares raw default_shares = res" by (simp add: resolve_track_shares_def)
  with track_shares_loop_ok [OF r(3)] r(4) show ?thesis by (simp add: list_all_iff)
next
  case False
  then have "resolve_track_shares raw default_shares = default_shares"
    by (auto simp: resolve_track_shares_def not_le split: option.splits)
  then show ?thesis ..
qed

text \<open>The miner share resolved from a served burn share is the compiled default or one minus a
  burn share inside the unit interval, and then lies in the unit interval itself; the only
  exception is the overflow of an integer beyond the float range.\<close>

theorem miner_share_resolved:
  "case resolve_miner_emission_share burn_share default_share of
     Inr s \<Rightarrow> s = default_share \<or> (\<exists>b. num_float burn_share = Inr b \<and> in_unit b \<and> s = fsub (Fin 1) b \<and> unit64 s)
   | Inl err \<Rightarrow> err = OverflowError \<and> (\<exists>n. burn_share = NInt n \<and> \<not> isfinite (fint n))"
proof -
  have u: "unit64 (fsub (Fin 1) b)" if "isfinite b" "in_unit b" for b
    using that by (cases b) (auto simp: in_unit_def float_simps intro: rnd64_unit)
  show ?thesis
    by (cases burn_share) (auto split: sum.split if_split intro: u)
qed

text \<open>The emission cap raises exactly for a miner share outside the unit interval, or when it
  needs a burn destination and has none.\<close>

theorem emission_cap_raises_iff:
  "(\<exists>err. apply_miner_emission_cap weights miner_share burn_hotkey = Inl err) \<longleftrightarrow>
     (if in_unit miner_share
      then burn_hotkey = [] \<and> (flt miner_share (Fin 1) \<or>
        fle (py_sum (map snd (filter (\<lambda>(hk, w). hk \<noteq> burn_hotkey \<and> is_positive w) weights))) (Fin 0))
      else True)"
  by (auto simp: apply_miner_emission_cap_def Let_def)

lemma cap_keys:
  assumes "apply_miner_emission_cap weights miner_share burn_hotkey = Inr capped"
  shows "set (dict_keys capped) \<subseteq> insert burn_hotkey (set (dict_keys (positive_items weights)))"
proof -
  define miners where "miners = filter (\<lambda>(hk, w). hk \<noteq> burn_hotkey \<and> is_positive w) weights"
  define scaled where "scaled = map (\<lambda>(hk, w). (hk, fmul (fdiv w (py_sum (dict_values miners))) miner_share)) miners"
  have "dict_keys scaled = dict_keys miners" by (simp add: scaled_def case_prod_beta comp_def)
  moreover have "set (dict_keys miners) \<subseteq> set (dict_keys (positive_items weights))"
    by (auto simp: positive_items_def miners_def)
  ultimately have "set (dict_keys scaled) \<subseteq> set (dict_keys (positive_items weights))" by (simp only:)
  moreover have "capped \<in> {[(burn_hotkey, Fin 1)], scaled, dict_set burn_hotkey (fsub (Fin 1) miner_share) scaled}"
    using assms unfolding apply_miner_emission_cap_def Let_def miners_def [symmetric] scaled_def [symmetric]
    by (simp split: if_splits)
  moreover have "set (dict_keys (dict_set k v d)) = insert k (set (dict_keys d))" for k v and d :: weight_vector
    by (simp add: dom_update)
  ultimately show ?thesis by (auto simp del: set_map)
qed

text \<open>A vector that passes the cap pays exactly the positive miners other than the burn hotkey,
  and the burn hotkey when a residual is reserved or nobody is payable; what the burn hotkey
  receives is one minus the miner share, or everything.\<close>

theorem emission_cap_destinations:
  assumes "apply_miner_emission_cap weights miner_share burn_hotkey = Inr capped"
  shows "set (dict_keys capped) - {burn_hotkey} =
      (if fle (py_sum (map snd (filter (\<lambda>(hk, w). hk \<noteq> burn_hotkey \<and> is_positive w) weights))) (Fin 0) then {}
       else fst ` set (filter (\<lambda>(hk, w). hk \<noteq> burn_hotkey \<and> is_positive w) weights))
    \<and> dict_get capped burn_hotkey =
      (if fle (py_sum (map snd (filter (\<lambda>(hk, w). hk \<noteq> burn_hotkey \<and> is_positive w) weights))) (Fin 0) then Some (Fin 1)
       else if flt (Fin 0) (fsub (Fin 1) miner_share) then Some (fsub (Fin 1) miner_share) else None)"
proof -
  define miners where "miners = filter (\<lambda>(hk, w). hk \<noteq> burn_hotkey \<and> is_positive w) weights"
  define scaled where "scaled = map (\<lambda>(hk, w). (hk, fmul (fdiv w (py_sum (dict_values miners))) miner_share)) miners"
  have keys: "dict_keys scaled = dict_keys miners"
    by (simp add: scaled_def case_prod_beta comp_def)
  have nb: "burn_hotkey \<notin> set (dict_keys miners)" by (auto simp: miners_def)
  then have none: "dict_get scaled burn_hotkey = None"
    unfolding map_of_eq_None_iff using keys by (metis set_map)
  have "capped = (if fle (py_sum (dict_values miners)) (Fin 0) then [(burn_hotkey, Fin 1)]
      else if flt (Fin 0) (fsub (Fin 1) miner_share) then dict_set burn_hotkey (fsub (Fin 1) miner_share) scaled else scaled)"
    using assms by (auto simp: apply_miner_emission_cap_def Let_def miners_def scaled_def split: if_splits)
  moreover have "set (dict_keys (dict_set burn_hotkey v scaled)) - {burn_hotkey} = fst ` set miners" for v
    using nb by (metis Diff_insert_absorb dom_update insert_is_Un keys set_map sup_commute Un_insert_left sup_bot_left)
  moreover have "set (dict_keys scaled) - {burn_hotkey} = fst ` set miners"
    using nb keys by (metis Diff_empty Diff_insert0 set_map)
  ultimately show ?thesis
    using none by (simp add: update_conv' flip: miners_def)
qed

theorem emission_cap_destinations_witness:
  "dict_get [(''m'', Fin (1 / 2)), (''burn'', Fin (1 / 2))] ''burn'' = Some (Fin (1 / 2))"
proof -
  have cap: "apply_miner_emission_cap [(''m'', Fin 1), (''burn'', Fin 1)] (Fin (1 / 2)) ''burn''
      = Inr [(''m'', Fin (1 / 2)), (''burn'', Fin (1 / 2))]" by code_simp
  have "fsub (Fin 1) (Fin (1 / 2)) = Fin (1 / 2)" by code_simp
  with emission_cap_destinations [OF cap] show ?thesis by (simp add: is_positive_def)
qed

text \<open>A lone payable miner receives exactly the miner share, whatever its raw weight: the vector
  is normalized before it is capped.\<close>

theorem lone_miner_takes_share:
  assumes "filter (\<lambda>(hk, w). hk \<noteq> burn_hotkey \<and> is_positive w) weights = [(hk, Fin w)]" and "0 < w"
    and "unit64 miner_share" and "burn_hotkey \<noteq> []"
  shows "\<exists>capped. apply_miner_emission_cap weights miner_share burn_hotkey = Inr capped \<and> dict_get capped hk = Some miner_share"
proof -
  have ne: "hk \<noteq> burn_hotkey" using arg_cong [OF assms(1), of set] by auto
  have unit: "in_unit miner_share" using assms(3) by (auto simp: in_unit_def elim!: unit64E)
  have "fdiv (Fin w) (Fin w) = Fin 1" using assms(2) is64_numerals(2) by (simp add: float_simps is64_def)
  moreover have "fmul (Fin 1) miner_share = miner_share"
    using assms(3) by (auto elim!: unit64E simp: float_simps is64_def)
  ultimately show ?thesis
    using assms ne unit by (auto simp: apply_miner_emission_cap_def Let_def update_conv')
qed

theorem lone_miner_takes_share_witness:
  "\<exists>capped. apply_miner_emission_cap [(''m'', Fin (1 / 4)), (''burn'', Fin 1)] (Fin (1 / 2)) ''burn'' = Inr capped
     \<and> dict_get capped ''m'' = Some (Fin (1 / 2))"
  using lone_miner_takes_share [of "''burn''" "[(''m'', Fin (1 / 4)), (''burn'', Fin 1)]" "''m''" "1 / 4" "Fin (1 / 2)"]
  by (simp add: is_positive_def unit64I)

lemma fsum_finite: "list_all isfinite xs \<Longrightarrow> fsum xs = rnd64 (sum_list (map fin_val xs))"
  by (simp add: fsum_def)

text \<open>The reserved key of a provisional incumbent never reaches the submitted vector, and a
  vector without it passes unchanged with the whole miner share; when it is present the paid
  fraction is a float of the unit interval.\<close>

theorem unpaid_share_never_paid:
  assumes "list_all isfinite (dict_values weights)" and "isfinite (fsum (filter is_positive (dict_values weights)))"
  shows "UNPAID_SHARE_KEY \<notin> set (dict_keys (fst (split_unpaid_share weights)))
    \<and> (UNPAID_SHARE_KEY \<notin> set (dict_keys weights) \<longrightarrow> split_unpaid_share weights = (weights, Fin 1))
    \<and> unit64 (snd (split_unpaid_share weights))"
proof (intro conjI)
  let ?paid = "filter (\<lambda>(hk, w). hk \<noteq> UNPAID_SHARE_KEY) weights"
  let ?p = "filter is_positive (dict_values ?paid)" and ?a = "filter is_positive (dict_values weights)"
  show "UNPAID_SHARE_KEY \<notin> set (dict_keys (fst (split_unpaid_share weights)))"
    by (auto simp: split_unpaid_share_def Let_def)
  show "UNPAID_SHARE_KEY \<notin> set (dict_keys weights) \<longrightarrow> split_unpaid_share weights = (weights, Fin 1)"
    by (simp add: split_unpaid_share_def)
  have le: "0 \<le> sum_list (map fin_val ?p) \<and> sum_list (map fin_val ?p) \<le> sum_list (map fin_val ?a)"
    using assms(1) by (induction weights)
      (auto simp: is_positive_def isfinite_iff fin_val_def)
  have fin: "list_all isfinite ?p" "list_all isfinite ?a"
    using assms(1) by (auto simp: list_all_iff)
  obtain t where t: "rnd64 (sum_list (map fin_val ?a)) = Fin t"
    using assms(2) fsum_finite [OF fin(2)] by (auto simp: isfinite_iff)
  have "rnd64 (sum_list (map fin_val ?p)) \<le> Fin t" "Fin 0 \<le> rnd64 (sum_list (map fin_val ?p))"
    using le rnd64_mono [of "sum_list (map fin_val ?p)" "sum_list (map fin_val ?a)"] t
      b64.rd_ge [of 0 "sum_list (map fin_val ?p)"] by auto
  then obtain p where p: "rnd64 (sum_list (map fin_val ?p)) = Fin p" "0 \<le> p" "p \<le> t"
    by (cases "rnd64 (sum_list (map fin_val ?p))") auto
  show "unit64 (snd (split_unpaid_share weights))"
    using p t fsum_finite [OF fin(1)] fsum_finite [OF fin(2)]
    by (auto simp: split_unpaid_share_def Let_def float_simps intro!: rnd64_unit)
qed

theorem unpaid_share_never_paid_witness:
  "UNPAID_SHARE_KEY \<notin> set (dict_keys (fst (split_unpaid_share [(UNPAID_SHARE_KEY, Fin (1 / 2)), (''m'', Fin (1 / 2))])))"
proof -
  have "isfinite (fsum (filter is_positive [Fin (1 / 2), Fin (1 / 2)]))" by code_simp
  then show ?thesis
    using unpaid_share_never_paid [of "[(UNPAID_SHARE_KEY, Fin (1 / 2)), (''m'', Fin (1 / 2))]"] by simp
qed

text \<open>The router fold pays distinct hotkeys of eligible, positively scored entries, best first:
  it is the zip of the distinct hotkeys in rank order with the configured shares, whatever order
  the pool arrived in, and malformed shares pay nobody.\<close>

theorem router_fold_spec:
  assumes "mset es = mset es'" and "distinct (map re_agent_id es)"
  shows "compute_router_weights es shares = compute_router_weights es' shares
    \<and> distinct (dict_keys (compute_router_weights es shares))
    \<and> length (compute_router_weights es shares) \<le> length shares
    \<and> set (dict_keys (compute_router_weights es shares)) \<subseteq>
        re_miner_hotkey ` {e \<in> set es. re_weight_eligible e \<and> is_positive (re_combined_score e)}
    \<and> (bad_rank_shares shares \<longrightarrow> compute_router_weights es shares = [])"
proof (intro conjI)
  let ?ok = "\<lambda>e. re_weight_eligible e \<and> is_positive (re_combined_score e)"
  have "sort_key router_key (filter ?ok es) = sort_key router_key (filter ?ok es')"
    by (rule router.order_free_filter [OF assms])
  then show "compute_router_weights es shares = compute_router_weights es' shares" unfolding router_zip by simp
  show "distinct (dict_keys (compute_router_weights es shares))" by (simp add: router_zip zip_keep_first)
  show "length (compute_router_weights es shares) \<le> length shares" by (simp add: router_zip)
  show "set (dict_keys (compute_router_weights es shares)) \<subseteq> re_miner_hotkey ` {e \<in> set es. ?ok e}"
    using zip_keep_first(2) [of re_miner_hotkey "sort_key router_key (filter ?ok es)" shares]
    by (simp add: router_zip)
qed (simp add: router_zip)

definition example_router :: "string \<Rightarrow> nat \<Rightarrow> pyfloat \<Rightarrow> router_entry" where
  "example_router hk aid score = \<lparr>re_miner_hotkey = hk, re_agent_id = aid, re_combined_score = score,
     re_first_seen = 0, re_weight_eligible = True\<rparr>"

theorem router_fold_spec_witness:
  "compute_router_weights [example_router ''a'' 1 (Fin (1 / 2)), example_router ''b'' 2 (Fin 1)] [Fin 1]
     = compute_router_weights [example_router ''b'' 2 (Fin 1), example_router ''a'' 1 (Fin (1 / 2))] [Fin 1]"
  using router_fold_spec [of "[example_router ''a'' 1 (Fin (1 / 2)), example_router ''b'' 2 (Fin 1)]"
      "[example_router ''b'' 2 (Fin 1), example_router ''a'' 1 (Fin (1 / 2))]" "[Fin 1]"]
  by (simp add: example_router_def)

text \<open>The generator fold obeys the same contract: order free, distinct hotkeys, only eligible
  entries with a finite positive score, at most as many recipients as shares.\<close>

theorem generator_fold_spec:
  assumes "mset es = mset es'" and "distinct (map ge_submission_id es)"
  shows "compute_generator_weights es shares = compute_generator_weights es' shares
    \<and> distinct (dict_keys (compute_generator_weights es shares))
    \<and> length (compute_generator_weights es shares) \<le> length shares
    \<and> set (dict_keys (compute_generator_weights es shares)) \<subseteq>
        ge_miner_hotkey ` {e \<in> set es. ge_weight_eligible e \<and> isfinite (ge_score e) \<and> is_positive (ge_score e)}"
proof (intro conjI)
  let ?ok = "\<lambda>e. ge_weight_eligible e \<and> isfinite (ge_score e) \<and> is_positive (ge_score e)"
  have "sort_key generator_key (filter ?ok es) = sort_key generator_key (filter ?ok es')"
    by (rule generator.order_free_filter [OF assms])
  then show "compute_generator_weights es shares = compute_generator_weights es' shares" unfolding generator_zip by simp
  show "distinct (dict_keys (compute_generator_weights es shares))" by (simp add: generator_zip zip_keep_first)
  show "length (compute_generator_weights es shares) \<le> length shares" by (simp add: generator_zip)
  show "set (dict_keys (compute_generator_weights es shares)) \<subseteq> ge_miner_hotkey ` {e \<in> set es. ?ok e}"
    using zip_keep_first(2) [of ge_miner_hotkey "sort_key generator_key (filter ?ok es)" shares]
    by (simp add: generator_zip)
qed

definition example_generator :: "string \<Rightarrow> string \<Rightarrow> pyfloat \<Rightarrow> generator_entry" where
  "example_generator hk sid score = \<lparr>ge_miner_hotkey = hk, ge_submission_id = sid, ge_score = score,
     ge_first_seen = 0, ge_weight_eligible = True\<rparr>"

theorem generator_fold_spec_witness:
  "compute_generator_weights [example_generator ''a'' ''1'' (Fin (1 / 2)), example_generator ''b'' ''2'' (Fin 1)] [Fin 1]
     = compute_generator_weights [example_generator ''b'' ''2'' (Fin 1), example_generator ''a'' ''1'' (Fin (1 / 2))] [Fin 1]"
  using generator_fold_spec [of "[example_generator ''a'' ''1'' (Fin (1 / 2)), example_generator ''b'' ''2'' (Fin 1)]"
      "[example_generator ''b'' ''2'' (Fin 1), example_generator ''a'' ''1'' (Fin (1 / 2))]" "[Fin 1]"]
  by (simp add: example_generator_def)

lemma add_weight_keys: "set (dict_keys (add_weight c hk w)) = insert hk (set (dict_keys c))"
  by (simp add: add_weight_def dom_update)

lemma blend_step_keys:
  "set (dict_keys (blend_step shares c (t, v))) \<subseteq> set (dict_keys c) \<union> set (dict_keys (positive_items v))"
proof -
  have keys: "set (dict_keys (foldl (\<lambda>c (hk, w). add_weight c hk (fmul w z)) c xs)) = set (dict_keys c) \<union> set (dict_keys xs)" for c xs z
  proof (induction xs arbitrary: c)
    case (Cons p xs)
    then show ?case by (cases p) (simp add: add_weight_keys del: set_map)
  qed simp
  show ?thesis unfolding blend_step_def Let_def prod.case by (simp only: keys split: if_split) blast
qed

lemma blend_fold_keys:
  "set (dict_keys (foldl (blend_step shares) c tvs)) \<subseteq> set (dict_keys c) \<union> (\<Union>(t, v)\<in>set tvs. set (dict_keys (positive_items v)))"
proof (induction tvs arbitrary: c)
  case (Cons p tvs)
  obtain t v where p: "p = (t, v)" by force
  show ?case using Cons [of "blend_step shares c p"] blend_step_keys [of shares c t v]
    unfolding p by (simp del: set_map) blast
qed simp

lemma blend_keys:
  "set (dict_keys (blend_track_weights vectors shares)) \<subseteq>
     (\<Union>(t, v)\<in>{(t, v) \<in> set vectors. has_positive_weight v \<and> share_of shares t > 0}. set (dict_keys (positive_items v)))"
proof -
  let ?c = "filter (\<lambda>(track, v). has_positive_weight v \<and> share_of shares track > 0) vectors"
  have c: "set ?c = {(t, v) \<in> set vectors. has_positive_weight v \<and> share_of shares t > 0}" by auto
  have "blend_track_weights vectors shares = foldl (blend_step shares) [] ?c
      \<or> (\<exists>t v. ?c = [(t, v)] \<and> blend_track_weights vectors shares = positive_items v)"
    by (auto simp: blend_track_weights_def Let_def split: list.splits)
  then show ?thesis
    unfolding c [symmetric] using blend_fold_keys [of shares "[]" ?c] by (elim disjE exE conjE) (simp_all del: set_map)
qed

lemma blend_single:
  "filter (\<lambda>(track, v). has_positive_weight v \<and> share_of shares track > 0) vectors = [(t, v)] \<Longrightarrow>
     share_of shares t = BASIS_POINT_SCALE \<Longrightarrow> blend_track_weights vectors shares = positive_items v"
  by (simp add: blend_track_weights_def)

text \<open>A single fully allocated track passes through the blend unchanged, and the blended vector
  only pays hotkeys that some contributing track pays; a track with no positive weight or no share
  contributes nothing.\<close>

theorem blend_pays_track_members:
  "set (dict_keys (blend_track_weights vectors shares)) \<subseteq>
     (\<Union>(t, v)\<in>{(t, v) \<in> set vectors. has_positive_weight v \<and> share_of shares t > 0}. set (dict_keys (positive_items v)))
   \<and> (\<forall>t v. filter (\<lambda>(track, v). has_positive_weight v \<and> share_of shares track > 0) vectors = [(t, v)]
        \<longrightarrow> share_of shares t = BASIS_POINT_SCALE \<longrightarrow> blend_track_weights vectors shares = positive_items v)"
  using blend_keys [of vectors shares] blend_single [of shares vectors] by blast

theorem blend_pays_track_members_witness:
  "blend_track_weights [(''memory'', [(''m'', Fin 1), (''z'', Fin 0)])] [(''memory'', 10000)] = [(''m'', Fin 1)]"
  using blend_pays_track_members [of "[(''memory'', [(''m'', Fin 1), (''z'', Fin 0)])]" "[(''memory'', 10000)]"]
  by (simp add: has_positive_weight_def is_positive_def share_of_def BASIS_POINT_SCALE_def positive_items_def)

end
