(* ===== verification/Crn.thy ===== *)
theory Crn
  imports Dueling
begin

section \<open>Common random numbers: the seeds of a comparison\<close>

text \<open>
  Models \<^verbatim>\<open>ditto/validator/crn.py\<close>. The seed of a comparison is the first eight bytes,
  little endian and masked to 63 bits, of a hash over the sorted agent ids, the bench version,
  the replicate index and, from bench version 13, a finalized block hash. The hash is the
  argument \<open>sha256\<close>. \<open>uuid_str\<close> is \<^verbatim>\<open>str(UUID)\<close>.
\<close>

definition CRN_BLOCK_BINDING_MIN_BENCH_VERSION :: int where
  "CRN_BLOCK_BINDING_MIN_BENCH_VERSION = 13"

definition crn_block_binding_active :: "int \<Rightarrow> bool" where
  "crn_block_binding_active version \<longleftrightarrow> version \<ge> CRN_BLOCK_BINDING_MIN_BENCH_VERSION"

fun dec_nat :: "nat \<Rightarrow> string" where
  "dec_nat n = (if n < 10 then [char_of (48 + n)] else dec_nat (n div 10) @ [char_of (48 + n mod 10)])"

declare dec_nat.simps [simp del]

definition dec_int :: "int \<Rightarrow> string" where
  "dec_int i = (if i < 0 then CHR ''-'' # dec_nat (nat (- i)) else dec_nat (nat i))"

fun hex_nat :: "nat \<Rightarrow> nat \<Rightarrow> string" where
  "hex_nat 0 v = []"
| "hex_nat (Suc k) v = hex_nat k (v div 16) @ [hex_digit (v mod 16)]"

definition uuid_str :: "nat \<Rightarrow> string" where
  "uuid_str v = (let h = hex_nat 32 v in
     take 8 h @ ''-'' @ take 4 (drop 8 h) @ ''-'' @ take 4 (drop 12 h) @ ''-''
     @ take 4 (drop 16 h) @ ''-'' @ drop 20 h)"

fun from_bytes_le :: "bytes \<Rightarrow> nat" where
  "from_bytes_le [] = 0"
| "from_bytes_le (b # bs) = of_char b + 256 * from_bytes_le bs"

definition id_bytes :: "string list \<Rightarrow> bytes" where
  "id_bytes ids = concat (map (\<lambda>aid. utf8 aid @ [NUL]) (sort ids))"

definition replicate_bytes :: "int \<Rightarrow> bytes" where
  "replicate_bytes k = (if k > 0 then NUL # ''k'' @ dec_int k else [])"

definition is_ascii :: "string \<Rightarrow> bool" where
  "is_ascii s \<longleftrightarrow> list_all (\<lambda>c. (of_char c :: nat) < 128) s"

definition block_bytes :: "string option \<Rightarrow> py_error + bytes" where
  "block_bytes block_hash = (case block_hash of
     None \<Rightarrow> Inr []
   | Some h \<Rightarrow> (let normalized = normalize_block_hash h in
       if normalized = []
       then Inl (ValueError ''a block-bound CRN seed requires a non-empty block hash'')
       else if \<not> is_ascii normalized then Inl (ValueError ''ordinal not in range(128)'')
       else Inr (NUL # ''block'' @ normalized)))"

text \<open>The bytes the hash object is fed, in order.\<close>

definition crn_message :: "string list \<Rightarrow> int \<Rightarrow> int \<Rightarrow> string option \<Rightarrow> py_error + bytes" where
  "crn_message agent_ids version k block_hash = (case block_bytes block_hash of
     Inl err \<Rightarrow> Inl err
   | Inr b \<Rightarrow> Inr (id_bytes agent_ids @ dec_int version @ replicate_bytes k @ b))"

definition crn_seed ::
  "hash_fun \<Rightarrow> string list \<Rightarrow> int \<Rightarrow> int \<Rightarrow> string option \<Rightarrow> py_error + int" where
  "crn_seed sha256 agent_ids version k block_hash = (case crn_message agent_ids version k block_hash of
     Inl err \<Rightarrow> Inl err
   | Inr m \<Rightarrow> Inr (int (take_bit 63 (from_bytes_le (take 8 (sha256 m))))))"

fun seed_list :: "(int \<Rightarrow> py_error + int) \<Rightarrow> int list \<Rightarrow> py_error + int list" where
  "seed_list f [] = Inr []"
| "seed_list f (k # ks) = (case f k of Inl err \<Rightarrow> Inl err
     | Inr s \<Rightarrow> (case seed_list f ks of Inl err \<Rightarrow> Inl err | Inr ss \<Rightarrow> Inr (s # ss)))"

definition crn_confirmation_seeds ::
  "hash_fun \<Rightarrow> string list \<Rightarrow> int \<Rightarrow> int \<Rightarrow> string option \<Rightarrow> py_error + int list" where
  "crn_confirmation_seeds sha256 agent_ids version n block_hash =
     seed_list (\<lambda>k. crn_seed sha256 agent_ids version k block_hash) [0..max 1 n - 1]"

subsection \<open>Shape of the seeds\<close>

lemma sort_perm_eq: "mset xs = mset ys \<Longrightarrow> sort xs = sort ys"
  by (metis properties_for_sort mset_sort sorted_sort)

lemma crn_seed_perm:
  assumes "mset ids = mset ids'"
  shows "crn_seed sha256 ids v k h = crn_seed sha256 ids' v k h"
proof -
  have "id_bytes ids = id_bytes ids'"
    using assms by (simp add: id_bytes_def sort_perm_eq [OF assms])
  then show ?thesis unfolding crn_seed_def crn_message_def by metis
qed

lemma crn_seed_range:
  assumes "crn_seed sha256 ids v k h = Inr s" shows "0 \<le> s" and "s < 2 ^ 63"
proof -
  from assms obtain m where "s = int (take_bit 63 (from_bytes_le (take 8 (sha256 m))))"
    by (auto simp: crn_seed_def split: sum.splits)
  moreover have "take_bit 63 n < (2 ^ 63 :: nat)" for n :: nat by (rule take_bit_nat_less_exp)
  ultimately show "0 \<le> s" "s < 2 ^ 63" by simp_all
qed

lemma seed_list_length: "seed_list f ks = Inr ss \<Longrightarrow> length ss = length ks"
  by (induction f ks arbitrary: ss rule: seed_list.induct) (auto split: sum.splits)

lemma seed_list_nth: "seed_list f ks = Inr ss \<Longrightarrow> i < length ks \<Longrightarrow> f (ks ! i) = Inr (ss ! i)"
proof (induction f ks arbitrary: ss i rule: seed_list.induct)
  case (2 f k ks)
  then show ?case by (cases i) (auto split: sum.splits)
qed simp

subsection \<open>The hashed message determines the comparison\<close>

definition digits :: "string \<Rightarrow> bool" where
  "digits s \<longleftrightarrow> s \<noteq> [] \<and> (\<forall>c\<in>set s. 48 \<le> (of_char c :: nat) \<and> (of_char c :: nat) \<le> 57)"

lemma of_char_digit: "n < 10 \<Longrightarrow> of_char (char_of (48 + n :: nat)) = 48 + n"
  by simp

lemma digits_dec_nat: "digits (dec_nat n)"
proof (induction n rule: dec_nat.induct)
  case (1 n)
  then show ?case
    by (subst dec_nat.simps) (auto simp: digits_def)
qed

fun undec :: "string \<Rightarrow> nat" where
  "undec s = foldl (\<lambda>a c. 10 * a + (of_char c - 48)) 0 s"

lemma undec_dec_nat: "undec (dec_nat n) = n"
proof (induction n rule: dec_nat.induct)
  case (1 n)
  show ?case
  proof (cases "n < 10")
    case True then show ?thesis by (subst dec_nat.simps) simp
  next
    case False with 1 show ?thesis by (subst dec_nat.simps) simp
  qed
qed

lemma dec_nat_inj: "dec_nat m = dec_nat n \<Longrightarrow> m = n"
  by (metis undec_dec_nat)

lemma digits_no:
  assumes "digits s" shows "NUL \<notin> set s" and "CHR ''-'' \<notin> set s"
  using assms by (auto simp: digits_def NUL_def dest!: bspec)

lemma NUL_other: "NUL \<noteq> CHR ''-''"
  unfolding NUL_def by code_simp

lemma NUL_dec_int: "NUL \<notin> set (dec_int i)"
  using digits_no [OF digits_dec_nat] by (simp add: dec_int_def NUL_other)

lemma dec_int_inj: "dec_int i = dec_int j \<Longrightarrow> i = j"
proof -
  have "dec_nat n \<noteq> CHR ''-'' # s" for n s
    using digits_no(2) [OF digits_dec_nat, of n] by auto
  then show "dec_int i = dec_int j \<Longrightarrow> i = j"
    by (auto simp: dec_int_def split: if_splits dest: dec_nat_inj) metis
qed

lemma dec_int_no_dash: "c \<in> set (tl (dec_int i)) \<Longrightarrow> c \<noteq> CHR ''-''"
proof -
  have "CHR ''-'' \<notin> set (tl (dec_nat n))" for n
    using digits_no(2) [OF digits_dec_nat, of n] by (metis list.set_sel(2) tl_Nil)
  then show "c \<in> set (tl (dec_int i)) \<Longrightarrow> c \<noteq> CHR ''-''"
    using digits_no(2) [OF digits_dec_nat] by (auto simp: dec_int_def split: if_splits)
qed

lemma length_hex_nat [simp]: "length (hex_nat k v) = k"
  by (induction k arbitrary: v) auto

definition uuid_chars :: "char set" where
  "uuid_chars = set ''-0123456789abcdef''"

lemma uuid_chars_code: "c \<in> uuid_chars \<Longrightarrow> 0 < (of_char c :: nat) \<and> (of_char c :: nat) < 128"
  by (auto simp: uuid_chars_def)

lemma dash_uuid: "CHR ''-'' \<in> uuid_chars"
  by (simp add: uuid_chars_def)

lemma hex_digit_set: "n < 16 \<Longrightarrow> hex_digit n \<in> uuid_chars"
  using nth_mem [of n "''0123456789abcdef''"]
  by (simp only: hex_digit_def uuid_chars_def list.set(2)) (simp only: insert_iff, simp)

lemma set_hex_nat: "set (hex_nat k v) \<subseteq> uuid_chars"
proof (induction k arbitrary: v)
  case (Suc k)
  then show ?case using hex_digit_set [of "v mod 16"] by simp
qed simp

lemma set_uuid_str: "set (uuid_str v) \<subseteq> uuid_chars"
proof -
  define h where "h = hex_nat 32 v"
  have part: "set (take m (drop n h)) \<subseteq> uuid_chars" for m n
    using set_hex_nat [of 32 v] set_take_subset [of m "drop n h"] set_drop_subset [of n h]
    unfolding h_def by blast
  have "uuid_str v = take 8 (drop 0 h) @ ''-'' @ take 4 (drop 8 h) @ ''-'' @ take 4 (drop 12 h) @ ''-''
      @ take 4 (drop 16 h) @ ''-'' @ take 12 (drop 20 h)"
    by (simp add: uuid_str_def Let_def h_def)
  then show ?thesis by (simp add: part dash_uuid del: drop0)
qed

lemma uuid_str_nth_8: "uuid_str v ! 8 = CHR ''-''" and length_uuid_str: "length (uuid_str v) = 36"
  by (simp_all add: uuid_str_def Let_def nth_append)

lemma NUL_uuid_str: "NUL \<notin> set (uuid_str v)"
  using set_uuid_str [of v] uuid_chars_code [of NUL] by (auto simp: NUL_def)

lemma utf8_ascii: "(\<forall>c\<in>set s. (of_char c :: nat) < 128) \<Longrightarrow> utf8 s = s"
  by (induction s) (auto simp: Let_def)

lemma utf8_uuid_str: "utf8 (uuid_str v) = uuid_str v"
  using set_uuid_str [of v] uuid_chars_code by (intro utf8_ascii) blast

lemma dec_int_not_uuid: "dec_int i \<noteq> uuid_str v"
proof
  assume eq: "dec_int i = uuid_str v"
  have "uuid_str v ! 8 \<in> set (tl (uuid_str v))"
    using nth_mem [of 7 "tl (uuid_str v)"] by (simp add: nth_tl length_uuid_str)
  with dec_int_no_dash [of _ i] eq uuid_str_nth_8 show False by metis
qed

definition nul_start :: "bytes \<Rightarrow> bool" where
  "nul_start b \<longleftrightarrow> (b = [] \<or> hd b = NUL)"

lemma split_at_NUL:
  assumes "a @ b = a' @ b'" "NUL \<notin> set a" "NUL \<notin> set a'" "nul_start b" "nul_start b'"
  shows "a = a'" and "b = b'"
proof -
  have tw: "takeWhile (\<lambda>c. c \<noteq> NUL) (x @ y) = x" if "NUL \<notin> set x" "nul_start y" for x y
    using that by (cases y) (auto simp: nul_start_def takeWhile_append intro: takeWhile_eq_all_conv [THEN iffD2])
  from tw [of a b] tw [of a' b'] assms show "a = a'" by simp
  with assms(1) show "b = b'" by simp
qed

lemma id_prefix_unique:
  assumes "concat (map (\<lambda>a. a @ [NUL]) xs) @ dec_int v @ t = concat (map (\<lambda>a. a @ [NUL]) ys) @ dec_int w @ u"
    and "set xs \<subseteq> range uuid_str" "set ys \<subseteq> range uuid_str" "nul_start t" "nul_start u"
  shows "xs = ys \<and> v = w \<and> t = u"
  using assms
proof (induction xs arbitrary: ys)
  case Nil
  show ?case
  proof (cases ys)
    case Nil
    with Nil.prems split_at_NUL [of "dec_int v" t "dec_int w" u] show ?thesis
      by (auto simp: NUL_dec_int dest: dec_int_inj)
  next
    case (Cons y zs)
    with Nil.prems split_at_NUL(1) [of "dec_int v" t y "NUL # concat (map (\<lambda>a. a @ [NUL]) zs) @ dec_int w @ u"]
    show ?thesis by (auto simp: NUL_dec_int NUL_uuid_str nul_start_def dec_int_not_uuid)
  qed
next
  case (Cons x xs)
  show ?case
  proof (cases ys)
    case Nil
    with Cons.prems split_at_NUL(1) [of x "NUL # concat (map (\<lambda>a. a @ [NUL]) xs) @ dec_int v @ t" "dec_int w" u]
    show ?thesis by (auto simp: NUL_dec_int NUL_uuid_str nul_start_def dec_int_not_uuid [symmetric])
  next
    case (Cons y zs)
    with Cons.prems split_at_NUL [of x "NUL # concat (map (\<lambda>a. a @ [NUL]) xs) @ dec_int v @ t"
        y "NUL # concat (map (\<lambda>a. a @ [NUL]) zs) @ dec_int w @ u"] Cons.IH [of zs]
    show ?thesis by (auto simp: NUL_uuid_str nul_start_def)
  qed
qed

text \<open>What the optional block hash contributes: its normalized text.\<close>

definition block_of :: "string option \<Rightarrow> string option" where
  "block_of h = map_option normalize_block_hash h"

lemma replicate_block_unique:
  assumes "replicate_bytes k @ b = replicate_bytes k' @ b'"
    and "block_bytes h = Inr b" "block_bytes h' = Inr b'"
  shows "max 0 k = max 0 k'" and "block_of h = block_of h'"
proof -
  have shape: "b = [] \<and> block_of h = None \<or> (\<exists>n. b = NUL # ''block'' @ n \<and> block_of h = Some n)"
    if "block_bytes h = Inr b" for h b
    using that by (auto simp: block_bytes_def block_of_def Let_def split: option.splits if_splits)
  note sh = shape [OF assms(2)] shape [OF assms(3)]
  have ns: "nul_start b" "nul_start b'" using sh by (auto simp: nul_start_def)
  have "max 0 k = max 0 k' \<and> b = b'"
  proof (cases "k > 0 \<and> k' > 0")
    case True
    with assms(1) have "dec_int k @ b = dec_int k' @ b'" by (simp add: replicate_bytes_def)
    with split_at_NUL [OF this NUL_dec_int NUL_dec_int ns] show ?thesis by (auto dest: dec_int_inj)
  next
    case False
    with assms(1) sh show ?thesis by (auto simp: replicate_bytes_def split: if_splits)
  qed
  with sh show "max 0 k = max 0 k'" "block_of h = block_of h'" by auto
qed

lemma crn_message_injective:
  assumes m: "crn_message (map uuid_str as) v k h = Inr m" "crn_message (map uuid_str bs) w j g = Inr m"
  shows "sort (map uuid_str as) = sort (map uuid_str bs)" "v = w" "max 0 k = max 0 j" "block_of h = block_of g"
proof -
  obtain b where b: "block_bytes h = Inr b"
    and mb: "m = id_bytes (map uuid_str as) @ dec_int v @ replicate_bytes k @ b"
    using m(1) by (auto simp: crn_message_def split: sum.splits)
  obtain c where c: "block_bytes g = Inr c"
    and mc: "m = id_bytes (map uuid_str bs) @ dec_int w @ replicate_bytes j @ c"
    using m(2) by (auto simp: crn_message_def split: sum.splits)
  have ids: "id_bytes (map uuid_str xs) = concat (map (\<lambda>a. a @ [NUL]) (sort (map uuid_str xs)))" for xs
    unfolding id_bytes_def by (rule arg_cong [where f = concat], rule map_cong) (auto simp: utf8_uuid_str)
  have ns: "nul_start (replicate_bytes k @ b)" if "block_bytes h = Inr b" for k h b
    using that by (auto simp: nul_start_def replicate_bytes_def block_bytes_def Let_def split: option.splits if_splits)
  have "sort (map uuid_str as) = sort (map uuid_str bs) \<and> v = w
      \<and> replicate_bytes k @ b = replicate_bytes j @ c"
    by (rule id_prefix_unique) (use mb mc ids ns [OF b] ns [OF c] in auto)
  with replicate_block_unique [OF _ b c]
  show "sort (map uuid_str as) = sort (map uuid_str bs)" "v = w" "max 0 k = max 0 j" "block_of h = block_of g"
    by auto
qed

lemma hex_digit_inj: "m < 16 \<Longrightarrow> n < 16 \<Longrightarrow> hex_digit m = hex_digit n \<Longrightarrow> m = n"
proof -
  have "distinct ''0123456789abcdef''" by code_simp
  then show "m < 16 \<Longrightarrow> n < 16 \<Longrightarrow> hex_digit m = hex_digit n \<Longrightarrow> m = n"
    unfolding hex_digit_def by (subst (asm) nth_eq_iff_index_eq) auto
qed

lemma hex_nat_inj: "v < 16 ^ k \<Longrightarrow> w < 16 ^ k \<Longrightarrow> hex_nat k v = hex_nat k w \<Longrightarrow> v = w"
proof (induction k arbitrary: v w)
  case (Suc k)
  have "v div 16 = w div 16"
    using Suc.prems by (intro Suc.IH) (auto simp: less_mult_imp_div_less)
  moreover have "v mod 16 = w mod 16"
    using Suc.prems(3) by (intro hex_digit_inj) auto
  ultimately show ?case by (metis div_mult_mod_eq)
qed simp

lemma take_drop_eq: "take n xs = take n ys \<Longrightarrow> drop n xs = drop n ys \<Longrightarrow> xs = ys"
  by (metis append_take_drop_id)

lemma uuid_str_inj:
  assumes "v < 2 ^ 128" "w < 2 ^ 128" "uuid_str v = uuid_str w" shows "v = w"
proof -
  define g h where "g = hex_nat 32 v" and "h = hex_nat 32 w"
  have len: "length g = 32" "length h = 32" by (simp_all add: g_def h_def)
  have "take 8 g @ ''-'' @ take 4 (drop 8 g) @ ''-'' @ take 4 (drop 12 g) @ ''-'' @ take 4 (drop 16 g) @ ''-'' @ drop 20 g
      = take 8 h @ ''-'' @ take 4 (drop 8 h) @ ''-'' @ take 4 (drop 12 h) @ ''-'' @ take 4 (drop 16 h) @ ''-'' @ drop 20 h"
    using assms(3) by (simp add: uuid_str_def Let_def g_def h_def)
  then have eqs: "take 8 g = take 8 h" "take 4 (drop 8 g) = take 4 (drop 8 h)"
      "take 4 (drop 12 g) = take 4 (drop 12 h)" "take 4 (drop 16 g) = take 4 (drop 16 h)" "drop 20 g = drop 20 h"
    by (simp_all add: len)
  have "drop 16 g = drop 16 h" using take_drop_eq [of 4 "drop 16 g" "drop 16 h"] eqs by simp
  then have "drop 12 g = drop 12 h" using take_drop_eq [of 4 "drop 12 g" "drop 12 h"] eqs by simp
  then have "drop 8 g = drop 8 h" using take_drop_eq [of 4 "drop 8 g" "drop 8 h"] eqs by simp
  then have "g = h" using take_drop_eq eqs(1) by blast
  with assms(1,2) show ?thesis using hex_nat_inj [of v 32 w] by (simp add: g_def h_def)
qed

lemma sort_uuid_eq:
  assumes "sort (map uuid_str as) = sort (map uuid_str bs)" "\<forall>a\<in>set as \<union> set bs. a < 2 ^ 128"
  shows "mset as = mset bs"
proof -
  have "image_mset uuid_str (mset as) = image_mset uuid_str (mset bs)"
    using assms(1) by (metis mset_map mset_sort)
  moreover have "inj_on uuid_str (set as \<union> set bs)"
    using assms(2) by (auto intro!: inj_onI uuid_str_inj)
  then have inv: "map (the_inv_into (set as \<union> set bs) uuid_str) (map uuid_str xs) = xs" if "set xs \<subseteq> set as \<union> set bs" for xs
    using that by (auto intro!: map_idI the_inv_into_f_f)
  ultimately show ?thesis
    using inv [of as] inv [of bs] by (metis Un_upper1 Un_upper2 mset_map)
qed

subsection \<open>Properties\<close>

text \<open>The seed of a comparison depends only on the set of agents compared, not on the order in
  which they are named, and is a non-negative 63-bit integer, for every hash function.\<close>

theorem crn_seed_canonical:
  assumes "mset ids = mset ids'"
  shows "crn_seed sha256 ids v k h = crn_seed sha256 ids' v k h
    \<and> (case crn_seed sha256 ids v k h of Inr s \<Rightarrow> 0 \<le> s \<and> s < 2 ^ 63 | Inl _ \<Rightarrow> h \<noteq> None)"
proof (rule conjI [OF crn_seed_perm [OF assms]])
  have "h \<noteq> None" if "crn_seed sha256 ids v k h = Inl err" for err
    using that by (auto simp: crn_seed_def crn_message_def block_bytes_def split: sum.splits option.splits)
  then show "case crn_seed sha256 ids v k h of Inr s \<Rightarrow> 0 \<le> s \<and> s < 2 ^ 63 | Inl _ \<Rightarrow> h \<noteq> None"
    using crn_seed_range [of sha256 ids v k h] by (cases "crn_seed sha256 ids v k h") simp_all
qed

theorem crn_seed_canonical_witness:
  "crn_seed (\<lambda>m. m) [''b'', ''a''] 13 2 (Some ''0xab'') = crn_seed (\<lambda>m. m) [''a'', ''b''] 13 2 (Some ''0xab'')"
  using crn_seed_canonical [of "[''b'', ''a'']" "[''a'', ''b'']"] by simp

text \<open>C39: The bytes hashed for a seed determine the comparison: two requests over agent ids that
  feed the hash the same bytes name the same agents, the same bench version, the same replicate
  and the same normalized block hash, and a bound request never equals an unbound one. So seed
  families can only coincide through a collision of the hash.\<close>

theorem crn_message_determines:
  assumes "crn_message (map uuid_str as) v k h = Inr m" and "crn_message (map uuid_str bs) w j g = Inr m"
    and "\<forall>a\<in>set as \<union> set bs. a < 2 ^ 128"
  shows "mset as = mset bs \<and> v = w \<and> max 0 k = max 0 j
    \<and> map_option normalize_block_hash h = map_option normalize_block_hash g"
  using crn_message_injective [OF assms(1,2)] sort_uuid_eq [OF _ assms(3)] by (simp add: block_of_def)

theorem crn_message_determines_witness:
  "max 0 (0 :: int) = max 0 (0 :: int) \<and> mset [5 :: nat] = mset [5]
     \<and> (\<exists>m. crn_message (map uuid_str [5]) 13 0 None = Inr m)"
proof -
  have m: "crn_message (map uuid_str [5]) 13 0 None
      = Inr (id_bytes (map uuid_str [5]) @ dec_int 13 @ replicate_bytes 0 @ [])"
    by (simp add: crn_message_def block_bytes_def)
  from crn_message_determines [OF m m] m show ?thesis by auto
qed

end
