(* ===== verification/Confirmation_Plan.thy ===== *)
theory Confirmation_Plan
  imports Weights_Fold Crn
begin

section \<open>Planning shared-seed confirmation rounds\<close>

text \<open>
  Models the planner of \<^verbatim>\<open>ditto/validator/weights.py\<close> (\<^verbatim>\<open>top5_confirmation_set\<close> and
  the functions it calls) and the platform's seed planning in
  \<^verbatim>\<open>apps/platform/ditto/api_server/crn.py\<close>, which validates what validators plan. The
  validator reads the seeds of a row from the row, the platform from a map of composites per
  agent; the selection of the seeds is the same loop and is one definition, \<open>seed_targets\<close>.
\<close>

text \<open>\<^verbatim>\<open>x ** y\<close> raises on overflow, \<^verbatim>\<open>math.ceil\<close> on a value that is not finite.\<close>

definition fpow :: "libm \<Rightarrow> pyfloat \<Rightarrow> pyfloat \<Rightarrow> py_error + pyfloat" where
  "fpow M x y = (let r = lm_pow M x y in
     if isfinite x \<and> isfinite y \<and> \<not> isfinite r then Inl OverflowError else Inr r)"

definition fceil :: "pyfloat \<Rightarrow> py_error + int" where
  "fceil x = (case x of Fin q \<Rightarrow> Inr \<lceil>q\<rceil>
     | NaN \<Rightarrow> Inl (ValueError ''cannot convert float NaN to integer'') | _ \<Rightarrow> Inl OverflowError)"

subsection \<open>The elastic ceiling\<close>

text \<open>The loop over the members' samples: the largest sample variance and whether any member
  had one.\<close>

fun variance_loop :: "libm \<Rightarrow> pyfloat list list \<Rightarrow> pyfloat \<Rightarrow> bool \<Rightarrow> pyfloat \<times> bool" where
  "variance_loop M [] max_variance measured = (max_variance, measured)"
| "variance_loop M (values # rest) max_variance measured =
     (if length values < 2 then variance_loop M rest max_variance measured
      else variance_loop M rest (pmax max_variance (sample_variance M values (mean_of values))) True)"

definition elastic_ceiling ::
  "libm \<Rightarrow> pyfloat list list \<Rightarrow> pyfloat \<Rightarrow> pyfloat \<Rightarrow> int \<Rightarrow> int \<Rightarrow> py_error + int" where
  "elastic_ceiling M samples half_width z minimum maximum =
     (let floor = max 2 minimum; cap = max floor maximum in
      if fle half_width (Fin 0) \<or> fle z (Fin 0) then Inr cap
      else case variance_loop M samples (Fin 0) False of (max_variance, measured) \<Rightarrow>
        if \<not> measured then Inr floor
        else case fpow M (fdiv z half_width) (Fin 2) of Inl err \<Rightarrow> Inl err
          | Inr ratio \<Rightarrow> (case fceil (fmul max_variance ratio) of Inl err \<Rightarrow> Inl err
              | Inr required \<Rightarrow> Inr (min cap (max floor required))))"

definition entry_samples :: "ledger_entry \<Rightarrow> pyfloat list" where
  "entry_samples e = (case entry_seed_composites e None of None \<Rightarrow> [] | Some h \<Rightarrow> dict_values h)"

definition elastic_confirmation_seed_ceiling ::
  "libm \<Rightarrow> ledger_entry list \<Rightarrow> pyfloat \<Rightarrow> pyfloat \<Rightarrow> int \<Rightarrow> py_error + int" where
  "elastic_confirmation_seed_ceiling M es margin z maximum =
     elastic_ceiling M (map entry_samples es) margin z TOP5_MIN_CONFIRMATION_SEEDS maximum"

subsection \<open>Anchors\<close>

text \<open>A pinned anchor of the ledger; \<open>None\<close> stands for a hash that is not a string.\<close>

record seed_anchor =
  sa_champion_agent_id :: nat
  sa_bench_version :: int
  sa_block_hash :: "string option"

definition anchor_hash :: "seed_anchor \<Rightarrow> string option" where
  "anchor_hash a = (case sa_block_hash a of Some h \<Rightarrow> if h = [] then None else Some h | None \<Rightarrow> None)"

fun first_hash :: "(seed_anchor \<Rightarrow> bool) \<Rightarrow> seed_anchor list \<Rightarrow> string option \<times> bool" where
  "first_hash matches [] = (None, False)"
| "first_hash matches (a # as) = (if matches a then
      (case anchor_hash a of Some h \<Rightarrow> (Some h, True) | None \<Rightarrow> first_hash matches as)
    else first_hash matches as)"

definition reign_seed_planning :: "seed_anchor list \<Rightarrow> nat \<Rightarrow> int \<Rightarrow> string option \<times> bool" where
  "reign_seed_planning anchors champion_id version =
     (if \<not> crn_block_binding_active version then (None, True)
      else first_hash (\<lambda>a. sa_champion_agent_id a = champion_id \<and> sa_bench_version a = version) anchors)"

definition version_seed_planning :: "seed_anchor list \<Rightarrow> int \<Rightarrow> string option \<times> bool" where
  "version_seed_planning anchors version =
     (if \<not> crn_block_binding_active version then (None, True)
      else first_hash (\<lambda>a. sa_bench_version a = version) anchors)"

subsection \<open>The bounded seed set\<close>

text \<open>\<^verbatim>\<open>coverage[seed] = coverage.get(seed, 0) + 1\<close> over the seeds of every member.\<close>

definition count_seed :: "(int, int) dict \<Rightarrow> int \<Rightarrow> (int, int) dict" where
  "count_seed coverage s =
     dict_set s ((case dict_get coverage s of None \<Rightarrow> 0 | Some n \<Rightarrow> n) + 1) coverage"

definition seed_coverage :: "int list list \<Rightarrow> (int, int) dict" where
  "seed_coverage seeds = foldl count_seed [] (concat seeds)"

definition coverage_of :: "(int, int) dict \<Rightarrow> int \<Rightarrow> int" where
  "coverage_of coverage s = (case dict_get coverage s of None \<Rightarrow> 0 | Some n \<Rightarrow> n)"

definition anchor_index :: "int list \<Rightarrow> int \<Rightarrow> int \<Rightarrow> int" where
  "anchor_index anchor bound s =
     (case dict_get (dict_of (zip anchor [0..<length anchor])) s of None \<Rightarrow> bound | Some i \<Rightarrow> int i)"

text \<open>Most-shared seeds first, then the fresh anchor seeds that are not yet selected.\<close>

definition seed_targets :: "int list \<Rightarrow> int list list \<Rightarrow> int \<Rightarrow> int list" where
  "seed_targets anchor seeds bound =
     (let coverage = seed_coverage seeds;
          targets = slice_to bound (sort_key
             (\<lambda>s. (- coverage_of coverage s, anchor_index anchor bound s, s)) (dict_keys coverage))
      in if int (length targets) < bound
         then targets @ take (nat bound - length targets) (keep_first (\<lambda>s. s) (set targets) anchor)
         else targets)"

definition fresh_anchor ::
  "hash_fun \<Rightarrow> nat \<Rightarrow> int \<Rightarrow> int \<Rightarrow> string option \<Rightarrow> bool \<Rightarrow> py_error + int list" where
  "fresh_anchor sha256 champion_id version n block_hash allow_fresh_seeds =
     (if allow_fresh_seeds then crn_confirmation_seeds sha256 [uuid_str champion_id] version n block_hash
      else Inr [])"

definition entry_seeds :: "ledger_entry \<Rightarrow> int list" where
  "entry_seeds e = (case entry_seed_composites e None of None \<Rightarrow> [] | Some h \<Rightarrow> dict_keys h)"

definition bounded_continual_seed_set ::
  "hash_fun \<Rightarrow> ledger_entry \<Rightarrow> ledger_entry list \<Rightarrow> int \<Rightarrow> int \<Rightarrow> string option \<Rightarrow> bool
     \<Rightarrow> py_error + int list" where
  "bounded_continual_seed_set sha256 champ es current_version bound block_hash allow_fresh_seeds =
     (case fresh_anchor sha256 (agent_id champ) current_version bound block_hash allow_fresh_seeds of
        Inl err \<Rightarrow> Inl err
      | Inr anchor \<Rightarrow> Inr (seed_targets anchor (map entry_seeds es) bound))"

subsection \<open>The round\<close>

record top5_member =
  tm_entry :: ledger_entry
  seeds_to_score :: "int list"

record top5_plan =
  tp_champion :: ledger_entry
  anchor_seeds :: "int list"
  tp_members :: "top5_member list"
  emission_member_ids :: "nat set"

record plan_config =
  pc_tail_size :: int
  pc_baseline_seeds :: int
  pc_max_seeds :: int
  pc_catch_up_rate :: int
  pc_cohort_size :: "int option"
  pc_max_cohort_size :: int

definition cohort_tail :: "plan_config \<Rightarrow> int" where
  "cohort_tail C =
     (let requested = (case pc_cohort_size C of None \<Rightarrow> pc_tail_size C | Some n \<Rightarrow> n - 1)
      in min (max requested (pc_tail_size C)) (max 1 (pc_max_cohort_size C) - 1))"

text \<open>What one member still has to score of the round's seeds; nothing when it covers them.\<close>

definition member_seeds :: "plan_config \<Rightarrow> ledger_entry \<Rightarrow> int list \<Rightarrow> int \<Rightarrow> ledger_entry \<Rightarrow> int list" where
  "member_seeds C champ anchor target_depth m =
     (let have_seeds = set (entry_seeds m);
          missing = filter (\<lambda>s. s \<notin> have_seeds) anchor;
          member_depth = int (length (filter (\<lambda>s. s \<in> have_seeds) anchor))
      in if agent_id m = agent_id champ then missing
         else if member_depth \<ge> target_depth - 1 then missing
         else slice_to (max 1 (pc_catch_up_rate C)) missing)"

definition plan_members :: "plan_config \<Rightarrow> ledger_entry \<Rightarrow> int list \<Rightarrow> int \<Rightarrow> ledger_entry list \<Rightarrow> top5_member list" where
  "plan_members C champ anchor target_depth ms =
     map (\<lambda>m. \<lparr>tm_entry = m, seeds_to_score = member_seeds C champ anchor target_depth m\<rparr>)
       (filter (\<lambda>m. \<exists>s\<in>set anchor. s \<notin> set (entry_seeds m)) ms)"

definition target_depth :: "plan_config \<Rightarrow> int \<Rightarrow> ledger_entry \<Rightarrow> int list \<Rightarrow> int" where
  "target_depth C cap champ full =
     (let covered = int (length (takeWhile (\<lambda>s. s \<in> set (entry_seeds champ)) full))
      in min cap (max (covered + 1) (pc_baseline_seeds C)))"

definition top5_confirmation_set ::
  "hash_fun \<Rightarrow> libm \<Rightarrow> fold_rules \<Rightarrow> plan_config \<Rightarrow> int \<Rightarrow> seed_anchor list \<Rightarrow> ledger_entry list
     \<Rightarrow> py_error + top5_plan option" where
  "top5_confirmation_set sha256 M R C current_version anchors es =
     (let scored = filter (\<lambda>e. flt (Fin 0) (effective_composite e) \<and> entry_version e = current_version) es in
      case (if scored = [] then None else champion M (R\<lparr>fr_crown_gate := None\<rparr>) None scored) of
        None \<Rightarrow> Inr None
      | Some champ \<Rightarrow>
         (let ms = champ # tail M scored champ (cohort_tail C) False;
              emission_members = slice_to (pc_tail_size C + 1) ms
          in case elastic_confirmation_seed_ceiling M emission_members (fr_margin R) (fr_dethrone_z R) (pc_max_seeds C) of
               Inl err \<Rightarrow> Inl err
             | Inr cap \<Rightarrow>
                (case reign_seed_planning anchors (agent_id champ) current_version of
                   (block_hash, allow_fresh_seeds) \<Rightarrow>
                     (case bounded_continual_seed_set sha256 champ emission_members current_version cap
                             block_hash allow_fresh_seeds of
                        Inl err \<Rightarrow> Inl err
                      | Inr full \<Rightarrow>
                         (let depth = target_depth C cap champ full;
                              anchor = slice_to depth full;
                              planned = plan_members C champ anchor depth ms
                          in Inr (if planned = [] then None
                               else Some \<lparr>tp_champion = champ, anchor_seeds = anchor, tp_members = planned,
                                          emission_member_ids = set (map agent_id emission_members)\<rparr>))))))"

definition entry_has_seeds :: "ledger_entry \<Rightarrow> int list \<Rightarrow> bool" where
  "entry_has_seeds e seeds \<longleftrightarrow> (case entry_seed_composites e None of
     None \<Rightarrow> False | Some h \<Rightarrow> set seeds \<subseteq> set (dict_keys h))"

subsection \<open>The platform's side\<close>

definition PLATFORM_TOP5_MAX_CONFIRMATION_SEEDS :: int where
  "PLATFORM_TOP5_MAX_CONFIRMATION_SEEDS = 10"

type_synonym agent_seeds = "(nat, (int, pyfloat) dict) dict"

definition platform_samples :: "agent_seeds \<Rightarrow> pyfloat list list" where
  "platform_samples by_agent = map (\<lambda>h. filter in_score_range (dict_values h)) (dict_values by_agent)"

definition platform_elastic_ceiling ::
  "libm \<Rightarrow> agent_seeds \<Rightarrow> pyfloat \<Rightarrow> pyfloat \<Rightarrow> int \<Rightarrow> int \<Rightarrow> py_error + int" where
  "platform_elastic_ceiling M by_agent half_width z minimum maximum =
     elastic_ceiling M (platform_samples by_agent) half_width z minimum maximum"

definition platform_bounded_seed_set ::
  "hash_fun \<Rightarrow> libm \<Rightarrow> nat \<Rightarrow> int \<Rightarrow> agent_seeds \<Rightarrow> string option \<Rightarrow> bool \<Rightarrow> py_error + int list" where
  "platform_bounded_seed_set sha256 M champion_id version by_agent block_hash allow_fresh_seeds =
     (case platform_elastic_ceiling M by_agent KOTH_MARGIN KOTH_DETHRONE_Z
             TOP5_MIN_CONFIRMATION_SEEDS PLATFORM_TOP5_MAX_CONFIRMATION_SEEDS of
        Inl err \<Rightarrow> Inl err
      | Inr bound \<Rightarrow>
         (case fresh_anchor sha256 champion_id version bound block_hash allow_fresh_seeds of
            Inl err \<Rightarrow> Inl err
          | Inr anchor \<Rightarrow> Inr (seed_targets anchor (map dict_keys (dict_values by_agent)) bound)))"

definition active_confirmation_seed_set :: "(nat, int list) dict \<Rightarrow> int \<Rightarrow> int list" where
  "active_confirmation_seed_set by_agent max_seeds =
     (let coverage = seed_coverage (map remdups (dict_values by_agent))
      in take (nat (max 0 max_seeds))
           (sort_key (\<lambda>s. (- coverage_of coverage s, s)) (dict_keys coverage)))"

fun fill_active :: "int \<Rightarrow> int list \<Rightarrow> int list \<Rightarrow> int list" where
  "fill_active max_seeds active [] = active"
| "fill_active max_seeds active (s # ss) =
     (if s \<notin> set active \<and> int (length active) < max_seeds then fill_active max_seeds (active @ [s]) ss
      else fill_active max_seeds active ss)"

definition fold_seed_bound ::
  "hash_fun \<Rightarrow> nat \<Rightarrow> int \<Rightarrow> (nat, int list) dict \<Rightarrow> int \<Rightarrow> string option \<Rightarrow> bool \<Rightarrow> py_error + int list" where
  "fold_seed_bound sha256 champion_id anchor_version by_agent max_seeds block_hash allow_fresh_seeds =
     (case fresh_anchor sha256 champion_id anchor_version max_seeds block_hash allow_fresh_seeds of
        Inl err \<Rightarrow> Inl err
      | Inr anchor \<Rightarrow> Inr (fill_active max_seeds (active_confirmation_seed_set by_agent max_seeds) anchor))"

subsection \<open>Laws of the seed set\<close>

lemma count_seed_coverage: "coverage_of (count_seed d s) t = coverage_of d t + (if t = s then 1 else 0)"
  by (simp add: coverage_of_def count_seed_def update_conv')

lemma fold_coverage: "coverage_of (foldl count_seed d xs) t = coverage_of d t + int (count_list xs t)"
  by (induction xs arbitrary: d) (auto simp: count_seed_coverage)

lemma coverage_count: "coverage_of (seed_coverage seeds) t = int (count_list (concat seeds) t)"
  by (simp add: seed_coverage_def fold_coverage) (simp add: coverage_of_def)

lemma fold_coverage_keys:
  "set (dict_keys (foldl count_seed d xs)) = set (dict_keys d) \<union> set xs"
  "distinct (dict_keys d) \<Longrightarrow> distinct (dict_keys (foldl count_seed d xs))"
  by (induction xs arbitrary: d) (auto simp: count_seed_def dom_update distinct_update)

lemma coverage_keys: "set (dict_keys (seed_coverage seeds)) = set (concat seeds)" "distinct (dict_keys (seed_coverage seeds))"
  using fold_coverage_keys [of "[]" "concat seeds"] by (simp_all add: seed_coverage_def del: set_map)

interpretation seed_order: canonical_order "\<lambda>s. (- coverage_of cov s, anchor_index anc b s, s)" "\<lambda>s :: int. s"
  by unfold_locales simp

interpretation window_order: canonical_order "\<lambda>s. (- coverage_of cov s, s)" "\<lambda>s :: int. s"
  by unfold_locales simp

lemma coverage_order_free:
  assumes "mset (concat seeds) = mset (concat seeds')"
  shows "coverage_of (seed_coverage seeds) = coverage_of (seed_coverage seeds')"
    and "mset (dict_keys (seed_coverage seeds)) = mset (dict_keys (seed_coverage seeds'))"
proof -
  show "coverage_of (seed_coverage seeds) = coverage_of (seed_coverage seeds')"
    using assms by (metis (no_types) coverage_count count_mset ext)
  have "set (dict_keys (seed_coverage seeds)) = set (dict_keys (seed_coverage seeds'))"
    unfolding coverage_keys by (rule mset_eq_setD [OF assms])
  then show "mset (dict_keys (seed_coverage seeds)) = mset (dict_keys (seed_coverage seeds'))"
    using coverage_keys(2) by (simp add: set_eq_iff_mset_eq_distinct del: set_map)
qed

lemma seed_targets_order_free:
  assumes "mset (concat seeds) = mset (concat seeds')"
  shows "seed_targets anchor seeds b = seed_targets anchor seeds' b"
proof -
  note c = coverage_order_free [OF assms]
  have "sort_key (\<lambda>s. (- coverage_of (seed_coverage seeds) s, anchor_index anchor b s, s)) (dict_keys (seed_coverage seeds))
      = sort_key (\<lambda>s. (- coverage_of (seed_coverage seeds') s, anchor_index anchor b s, s)) (dict_keys (seed_coverage seeds'))"
    unfolding c(1) by (rule seed_order.order_free [OF c(2)]) (simp add: coverage_keys del: set_map)
  then show ?thesis unfolding seed_targets_def Let_def by (simp only:)
qed

lemma seed_targets_shape:
  assumes "0 \<le> b"
  shows "distinct (seed_targets anchor seeds b)" and "int (length (seed_targets anchor seeds b)) \<le> b"
    and "set (seed_targets anchor seeds b) \<subseteq> set (concat seeds) \<union> set anchor"
proof -
  define cov where "cov = seed_coverage seeds"
  define T where "T = take (nat b) (sort_key (\<lambda>s. (- coverage_of cov s, anchor_index anchor b s, s)) (dict_keys cov))"
  define F where "F = take (nat b - length T) (keep_first (\<lambda>s. s) (set T) anchor)"
  have st: "seed_targets anchor seeds b = (if int (length T) < b then T @ F else T)"
    using assms by (simp add: seed_targets_def Let_def slice_to_def T_def F_def cov_def)
  have "set T \<subseteq> set (dict_keys cov)" unfolding T_def using set_take_subset set_sort by fastforce
  then have T: "distinct T" "set T \<subseteq> set (concat seeds)" "length T \<le> nat b"
    using coverage_keys [of seeds] by (simp_all add: T_def cov_def del: set_map set_concat)
  have kf: "distinct (keep_first (\<lambda>s. s) (set T) anchor)" "set (keep_first (\<lambda>s. s) (set T) anchor) = set anchor - set T"
    using distinct_keep_first [of "\<lambda>s. s" "set T" anchor] keep_first_keys [of "\<lambda>s. s" "set T" anchor] by simp_all
  then have F: "distinct F" "set F \<subseteq> set anchor - set T" "length F \<le> nat b - length T"
    using set_take_subset [of "nat b - length T" "keep_first (\<lambda>s. s) (set T) anchor"] by (auto simp: F_def)
  show "distinct (seed_targets anchor seeds b)" unfolding st using T F by auto
  show "int (length (seed_targets anchor seeds b)) \<le> b" unfolding st using T F assms by auto
  show "set (seed_targets anchor seeds b) \<subseteq> set (concat seeds) \<union> set anchor" unfolding st using T(2) F(2) by auto
qed

lemma elastic_ceiling_range:
  assumes "elastic_ceiling M samples hw z lo hi = Inr n"
  shows "max 2 lo \<le> n" and "n \<le> max (max 2 lo) hi"
  using assms by (auto simp: elastic_ceiling_def Let_def split: if_splits prod.splits sum.splits)

lemma first_hash_True:
  "first_hash P as = (h, True) \<Longrightarrow> \<exists>a\<in>set as. P a \<and> h = anchor_hash a \<and> h \<noteq> None"
  by (induction P as rule: first_hash.induct) (auto split: if_splits option.splits)

lemma first_hash_False: "first_hash P as = (h, False) \<Longrightarrow> h = None \<and> (\<forall>a\<in>set as. P a \<longrightarrow> anchor_hash a = None)"
  by (induction P as rule: first_hash.induct) (auto split: if_splits option.splits)

subsection \<open>Laws of the round\<close>

lemma slice_to_set: "set (slice_to n xs) \<subseteq> set xs"
  by (simp add: slice_to_def set_take_subset)

lemma member_seeds_sub: "set (member_seeds C champ anchor d m) \<subseteq> set anchor - set (entry_seeds m)"
  using slice_to_set [of "max 1 (pc_catch_up_rate C)" "filter (\<lambda>s. s \<notin> set (entry_seeds m)) anchor"]
  by (auto simp: member_seeds_def Let_def split: if_splits)

lemma member_seeds_nonempty:
  assumes "\<exists>s\<in>set anchor. s \<notin> set (entry_seeds m)" shows "member_seeds C champ anchor d m \<noteq> []"
proof -
  have "filter (\<lambda>s. s \<notin> set (entry_seeds m)) anchor \<noteq> []" using assms by (simp add: filter_empty_conv)
  then have "slice_to (max 1 (pc_catch_up_rate C)) (filter (\<lambda>s. s \<notin> set (entry_seeds m)) anchor) \<noteq> []"
    by (simp add: slice_to_def max_def)
  with assms show ?thesis by (simp add: member_seeds_def Let_def filter_empty_conv)
qed

definition plan_pool :: "int \<Rightarrow> ledger_entry list \<Rightarrow> ledger_entry list" where
  "plan_pool v es = filter (\<lambda>e. flt (Fin 0) (effective_composite e) \<and> entry_version e = v) es"

text \<open>The parts of a round that was planned.\<close>

lemma top5_plan_parts:
  assumes "top5_confirmation_set sha256 M R C v anchors es = Inr (Some plan)"
  obtains champ ms em cap h fresh full where
    "champion M (R\<lparr>fr_crown_gate := None\<rparr>) None (plan_pool v es) = Some champ"
    "ms = champ # tail M (plan_pool v es) champ (cohort_tail C) False"
    "em = slice_to (pc_tail_size C + 1) ms"
    "elastic_confirmation_seed_ceiling M em (fr_margin R) (fr_dethrone_z R) (pc_max_seeds C) = Inr cap"
    "reign_seed_planning anchors (agent_id champ) v = (h, fresh)"
    "bounded_continual_seed_set sha256 champ em v cap h fresh = Inr full"
    "tp_champion plan = champ" "anchor_seeds plan = slice_to (target_depth C cap champ full) full"
    "tp_members plan = plan_members C champ (anchor_seeds plan) (target_depth C cap champ full) ms"
    "tp_members plan \<noteq> []" "emission_member_ids plan = set (map agent_id em)"
proof -
  from assms have ne: "plan_pool v es \<noteq> []"
    by (auto simp: top5_confirmation_set_def plan_pool_def Let_def split: if_splits)
  then obtain champ where ch: "champion M (R\<lparr>fr_crown_gate := None\<rparr>) None (plan_pool v es) = Some champ"
    using champion_Some by blast
  define ms where "ms = champ # tail M (plan_pool v es) champ (cohort_tail C) False"
  define em where "em = slice_to (pc_tail_size C + 1) ms"
  obtain h fresh where rp: "reign_seed_planning anchors (agent_id champ) v = (h, fresh)" by force
  note un = assms [unfolded top5_confirmation_set_def Let_def plan_pool_def [symmetric], simplified ne ch,
      simplified, folded ms_def, folded em_def]
  from un rp obtain cap full where cap: "elastic_confirmation_seed_ceiling M em (fr_margin R) (fr_dethrone_z R) (pc_max_seeds C) = Inr cap"
    and full: "bounded_continual_seed_set sha256 champ em v cap h fresh = Inr full"
    by (auto split: sum.splits)
  show ?thesis
    by (rule that [OF ch ms_def em_def cap rp full]) (use un rp cap full in \<open>auto split: if_splits\<close>)
qed

definition pinned :: "seed_anchor list \<Rightarrow> nat \<Rightarrow> int \<Rightarrow> bool" where
  "pinned anchors aid v \<longleftrightarrow>
     (\<exists>a\<in>set anchors. sa_champion_agent_id a = aid \<and> sa_bench_version a = v \<and> anchor_hash a \<noteq> None)"

lemma reign_fresh:
  assumes "reign_seed_planning anchors aid v = (h, fresh)" "CRN_BLOCK_BINDING_MIN_BENCH_VERSION \<le> v"
  shows "fresh = pinned anchors aid v" and "fresh = (h \<noteq> None)"
proof -
  let ?P = "\<lambda>a. sa_champion_agent_id a = aid \<and> sa_bench_version a = v"
  have f: "first_hash ?P anchors = (h, fresh)"
    using assms by (simp add: reign_seed_planning_def crn_block_binding_active_def)
  show "fresh = pinned anchors aid v" "fresh = (h \<noteq> None)"
    using first_hash_True [of ?P anchors h] first_hash_False [of ?P anchors h] f
    by (cases fresh; auto simp: pinned_def)+
qed

lemma top5_plan_seeds:
  assumes "top5_confirmation_set sha256 M R C v anchors es = Inr (Some plan)"
  shows "distinct (anchor_seeds plan) \<and> int (length (anchor_seeds plan)) \<le> max 8 (pc_max_seeds C)
    \<and> tp_members plan \<noteq> []
    \<and> (\<forall>m\<in>set (tp_members plan). seeds_to_score m \<noteq> []
        \<and> set (seeds_to_score m) \<subseteq> set (anchor_seeds plan) - set (entry_seeds (tm_entry m)))
    \<and> (CRN_BLOCK_BINDING_MIN_BENCH_VERSION \<le> v \<longrightarrow> \<not> pinned anchors (agent_id (tp_champion plan)) v \<longrightarrow>
        (\<forall>s\<in>set (anchor_seeds plan). \<exists>e\<in>set es. s \<in> set (entry_seeds e)))"
proof (rule top5_plan_parts [OF assms])
  fix champ ms em cap h fresh full
  assume ch: "champion M (R\<lparr>fr_crown_gate := None\<rparr>) None (plan_pool v es) = Some champ"
    and ms: "ms = champ # tail M (plan_pool v es) champ (cohort_tail C) False"
    and em: "em = slice_to (pc_tail_size C + 1) ms"
    and ceil: "elastic_confirmation_seed_ceiling M em (fr_margin R) (fr_dethrone_z R) (pc_max_seeds C) = Inr cap"
    and rp: "reign_seed_planning anchors (agent_id champ) v = (h, fresh)"
    and fl: "bounded_continual_seed_set sha256 champ em v cap h fresh = Inr full"
    and tc: "tp_champion plan = champ" and as: "anchor_seeds plan = slice_to (target_depth C cap champ full) full"
    and tm: "tp_members plan = plan_members C champ (anchor_seeds plan) (target_depth C cap champ full) ms"
    and ne: "tp_members plan \<noteq> []"
  have cap: "8 \<le> cap" "cap \<le> max 8 (pc_max_seeds C)"
    using elastic_ceiling_range [OF ceil [unfolded elastic_confirmation_seed_ceiling_def]]
    by (simp_all add: TOP5_MIN_CONFIRMATION_SEEDS_def)
  obtain anchor where an: "fresh_anchor sha256 (agent_id champ) v cap h fresh = Inr anchor"
      "full = seed_targets anchor (map entry_seeds em) cap"
    using fl by (auto simp: bounded_continual_seed_set_def split: sum.splits)
  note shape = seed_targets_shape [of cap anchor "map entry_seeds em"]
  have "distinct (anchor_seeds plan)" using shape(1) cap by (simp add: as an(2) slice_to_def)
  moreover have "int (length (anchor_seeds plan)) \<le> max 8 (pc_max_seeds C)"
  proof -
    have "length (anchor_seeds plan) \<le> length full" by (simp add: as slice_to_def)
    then show ?thesis using shape(2) cap unfolding an(2) [symmetric] by linarith
  qed
  moreover have "\<forall>m\<in>set (tp_members plan). seeds_to_score m \<noteq> []
      \<and> set (seeds_to_score m) \<subseteq> set (anchor_seeds plan) - set (entry_seeds (tm_entry m))"
    unfolding tm plan_members_def using member_seeds_nonempty member_seeds_sub by fastforce
  moreover have "\<exists>e\<in>set es. s \<in> set (entry_seeds e)"
    if "CRN_BLOCK_BINDING_MIN_BENCH_VERSION \<le> v" "\<not> pinned anchors (agent_id champ) v" "s \<in> set (anchor_seeds plan)" for s
  proof -
    have "\<not> fresh" using reign_fresh [OF rp that(1)] that(2) by simp
    then have "anchor = []" using an(1) by (simp add: fresh_anchor_def)
    then have "set full \<subseteq> (\<Union>e\<in>set em. set (entry_seeds e))" using shape(3) cap by (simp add: an(2))
    moreover have "set ms \<subseteq> set (plan_pool v es)"
      using champion_in [OF ch] tail_members(1) by (auto simp: ms)
    then have "set em \<subseteq> set es"
      using slice_to_set [of "pc_tail_size C + 1" ms] unfolding em plan_pool_def by auto
    moreover have "s \<in> set full" using that(3) slice_to_set unfolding as by fast
    ultimately show ?thesis by blast
  qed
  ultimately show ?thesis using ne tc by blast
qed

text \<open>The platform's plan over the composites of the emission members.\<close>

definition member_map :: "ledger_entry list \<Rightarrow> agent_seeds" where
  "member_map es = map (\<lambda>e. (agent_id e, case entry_seed_composites e None of None \<Rightarrow> [] | Some h \<Rightarrow> h)) es"

lemma member_map_seeds: "map dict_keys (dict_values (member_map es)) = map entry_seeds es"
  by (auto simp: member_map_def entry_seeds_def split: option.splits)

lemma align_seeds_values:
  "align_seeds out xs = Some res \<Longrightarrow> \<forall>p\<in>set out. P (snd p) \<Longrightarrow> \<forall>p\<in>set xs. P (snd p) \<Longrightarrow> \<forall>p\<in>set res. P (snd p)"
proof (induction out xs rule: align_seeds.induct)
  case (2 out s c rest)
  have "\<forall>p\<in>set (dict_set s c out). P (snd p)"
    using 2(3,4) by (induction out) auto
  with 2 show ?case by (auto split: if_splits)
qed simp

lemma half_sum_in_range: "in_score_range a \<Longrightarrow> in_score_range b \<Longrightarrow> in_score_range (fdiv (fadd a b) (Fin 2))"
proof -
  assume "in_score_range a" "in_score_range b"
  then obtain p q where pq: "a = Fin p" "b = Fin q" "0 \<le> p" "p \<le> 1" "0 \<le> q" "q \<le> 1"
    by (auto simp: in_score_range_def isfinite_iff)
  obtain v where "rnd64 (p + q) = Fin v" "0 \<le> v" "v \<le> 2"
    by (rule b64.rd_between [of 0 2 "p + q"]) (use pq in auto)
  with pq have "unit64 (fdiv (fadd a b) (Fin 2))" by (simp add: float_simps rnd64_unit)
  then show ?thesis by (simp add: in_score_range_def unit64_bounds)
qed

lemma seed_composites_in_range:
  assumes "entry_seed_composites e None = Some h" shows "list_all in_score_range (dict_values h)"
proof (cases "entry_confirmation_history e")
  case (Some g)
  with assms have gh: "g = h" by (simp add: entry_seed_composites_def split: if_splits)
  from Some [unfolded gh] obtain records where rs: "confirmation_history e = Some records" and h: "h = take TOP5_MAX_CONFIRMATION_SEEDS (sort_key fst (map (\<lambda>(s, vs). (s, median vs))
       (group_pairs [] (map (\<lambda>r. (cr_seed r, cr_composite r))
         (filter (\<lambda>r. cr_seed r \<ge> 0 \<and> in_score_range (cr_composite r)) records)))))"
    by (auto simp: entry_confirmation_history_def Let_def split: option.splits if_splits)
  show ?thesis unfolding list_all_iff
  proof
    fix v assume "v \<in> set (dict_values h)"
    then obtain s vs where g: "(s, vs) \<in> set (group_pairs [] (map (\<lambda>r. (cr_seed r, cr_composite r))
         (filter (\<lambda>r. cr_seed r \<ge> 0 \<and> in_score_range (cr_composite r)) records)))" and v: "v = median vs"
      by (auto simp: h dest!: in_set_takeD)
    have "vs \<noteq> []" "\<forall>x\<in>set vs. in_score_range x" using group_pairs_nonempty [OF g] by auto
    with is_median [of vs] v half_sum_in_range show "in_score_range v" by auto
  qed
next
  case None
  with assms obtain comps seeds where c: "entry_confirmations e = Some comps" "align_seeds [] (zip seeds comps) = Some h"
    by (auto simp: entry_seed_composites_def split: if_splits option.splits)
  have "\<forall>x\<in>set comps. in_score_range x"
    using c(1) by (auto simp: entry_confirmations_def list_all_iff split: option.splits if_splits)
  then have "\<forall>p\<in>set (zip seeds comps). in_score_range (snd p)" by (auto dest: set_zip_rightD)
  with align_seeds_values [OF c(2), of in_score_range] show ?thesis by (simp add: list_all_iff)
qed

lemma platform_samples_eq: "platform_samples (member_map es) = map entry_samples es"
proof -
  have "filter in_score_range (dict_values h) = dict_values h" if "entry_seed_composites e None = Some h" for e h
    using seed_composites_in_range [OF that] by (simp add: filter_id_conv list_all_iff)
  then show ?thesis
    by (auto simp: platform_samples_def member_map_def entry_samples_def split: option.splits)
qed

subsection \<open>Properties\<close>

text \<open>A planned round is sound: its seeds are distinct and within the work budget, every planned
  member has something to score, and only seeds of the round it does not already hold; and at a
  block-bound bench version without a pinned anchor for the champion the round contains no fresh
  seed, only seeds some row of the ledger has already recorded.\<close>

theorem confirmation_round_sound:
  assumes "top5_confirmation_set sha256 M R C v anchors es = Inr (Some plan)"
  shows "distinct (anchor_seeds plan) \<and> int (length (anchor_seeds plan)) \<le> max 8 (pc_max_seeds C)
    \<and> tp_members plan \<noteq> []
    \<and> (\<forall>m\<in>set (tp_members plan). seeds_to_score m \<noteq> []
        \<and> set (seeds_to_score m) \<subseteq> set (anchor_seeds plan) - set (entry_seeds (tm_entry m)))
    \<and> (CRN_BLOCK_BINDING_MIN_BENCH_VERSION \<le> v \<longrightarrow> \<not> pinned anchors (agent_id (tp_champion plan)) v \<longrightarrow>
        (\<forall>s\<in>set (anchor_seeds plan). \<exists>e\<in>set es. s \<in> set (entry_seeds e)))"
  by (rule top5_plan_seeds [OF assms])

definition example_plan_config :: plan_config where
  "example_plan_config = \<lparr>pc_tail_size = 1, pc_baseline_seeds = 1, pc_max_seeds = 10, pc_catch_up_rate = 2,
     pc_cohort_size = None, pc_max_cohort_size = 25\<rparr>"

definition example_recorded :: ledger_entry where
  "example_recorded = alice\<lparr>bench_version := Some 13, confirmation_history := Some
     [\<lparr>cr_seed = 5, cr_composite = Fin (1 / 2), cr_bench_version = 13, cr_dueling = None\<rparr>]\<rparr>"

definition example_unrecorded :: ledger_entry where
  "example_unrecorded = bob\<lparr>bench_version := Some 13\<rparr>"

text \<open>Two rows at bench version 13 without a pin: the round is the one recorded seed, for the row
  that lacks it.\<close>

lemma example_round:
  "case top5_confirmation_set (\<lambda>m. m) example_libm example_rules example_plan_config 13 [] [example_recorded, example_unrecorded] of
      Inr (Some plan) \<Rightarrow> anchor_seeds plan = [5] \<and> map seeds_to_score (tp_members plan) = [[5]] | _ \<Rightarrow> False"
  by code_simp

theorem confirmation_round_sound_witness:
  "\<exists>plan. top5_confirmation_set (\<lambda>m. m) example_libm example_rules example_plan_config 13 [] [example_recorded, example_unrecorded]
       = Inr (Some plan) \<and> distinct (anchor_seeds plan) \<and> tp_members plan \<noteq> []"
proof -
  obtain plan where "top5_confirmation_set (\<lambda>m. m) example_libm example_rules example_plan_config 13 []
      [example_recorded, example_unrecorded] = Inr (Some plan)"
    using example_round by (auto split: sum.splits option.splits)
  with confirmation_round_sound [OF this] show ?thesis by blast
qed

text \<open>Block binding fails closed: from the binding floor a validator may introduce fresh seeds
  exactly when the ledger pins a block hash for this champion and version, and it then uses a
  pinned hash; below the floor the legacy unbound derivation applies.\<close>

theorem reign_planning_fails_closed:
  "reign_seed_planning anchors aid v =
     (if v < CRN_BLOCK_BINDING_MIN_BENCH_VERSION then (None, True)
      else if pinned anchors aid v then (fst (reign_seed_planning anchors aid v), True) else (None, False))
   \<and> (CRN_BLOCK_BINDING_MIN_BENCH_VERSION \<le> v \<and> pinned anchors aid v \<longleftrightarrow>
        (\<exists>h. reign_seed_planning anchors aid v = (Some h, True)))"
proof -
  obtain h fresh where rp: "reign_seed_planning anchors aid v = (h, fresh)" by force
  show ?thesis
  proof (cases "CRN_BLOCK_BINDING_MIN_BENCH_VERSION \<le> v")
    case True
    with reign_fresh [OF rp True] rp show ?thesis by (cases h) auto
  next
    case False
    then show ?thesis by (simp add: reign_seed_planning_def crn_block_binding_active_def)
  qed
qed


text \<open>The seed set of a round does not depend on the order of the members or of their histories,
  is bounded by its ceiling, holds no seed twice and only names recorded or anchor seeds.\<close>

theorem seed_set_canonical:
  assumes "mset (concat seeds) = mset (concat seeds')" and "0 \<le> n"
  shows "seed_targets anchor seeds n = seed_targets anchor seeds' n
    \<and> distinct (seed_targets anchor seeds n) \<and> int (length (seed_targets anchor seeds n)) \<le> n
    \<and> set (seed_targets anchor seeds n) \<subseteq> set (concat seeds) \<union> set anchor"
  using seed_targets_order_free [OF assms(1)] seed_targets_shape [OF assms(2)] by blast

theorem seed_set_canonical_witness:
  "seed_targets [7] [[1, 2], [2]] 3 = seed_targets [7] [[2], [2, 1]] 3"
  using seed_set_canonical [of "[[1, 2], [2]]" "[[2], [2, 1]]" 3 "[7]"] by simp

end
