(* ===== verification/Koth.thy ===== *)
theory Koth
  imports Weights_Fold Crn
begin

section \<open>The platform's projection of the fold\<close>

text \<open>
  Models \<^verbatim>\<open>apps/platform/ditto/api_server/koth.py\<close>, by which the platform explains the
  validators' fold on the public leaderboard, chooses the incumbent of the next epoch and the
  retest cohort, and the comparator of \<^verbatim>\<open>apps/platform/ditto/score_order.py\<close> it ranks with.
  The module keeps its own copy of every formula over its own row type; the copies are modelled
  one by one here with the prefix \<open>koth_\<close>, and \<open>Koth_Mirror\<close> proves where they agree with the
  validator's. The frozen numeric constants have the same values as the validator's and are not
  repeated. \<^verbatim>\<open>x ** 2\<close> is the C library's \<^verbatim>\<open>pow\<close>; it raises on overflow, which a standard
  error of a score (at most a few units) does not reach, so the overflow is not modelled.
\<close>

definition CONFIRMATION_SEED_CEILING :: nat where "CONFIRMATION_SEED_CEILING = 15"
definition BLOCKS_PER_TEMPO :: int where "BLOCKS_PER_TEMPO = 360"
definition CURVE_VERSION_BOUNDED_FACTOR :: int where "CURVE_VERSION_BOUNDED_FACTOR = 3"
definition CURVE_VERSION_UNBOUNDED_FACTOR :: int where "CURVE_VERSION_UNBOUNDED_FACTOR = 4"

definition is_factor_curve :: "int \<Rightarrow> bool" where
  "is_factor_curve v \<longleftrightarrow> v \<in> {CURVE_VERSION_BOUNDED_FACTOR, CURVE_VERSION_UNBOUNDED_FACTOR}"

subsection \<open>Rows\<close>

record seed_record =
  dsr_seed :: int
  dsr_bench_version :: int
  dsr_report :: "dueling_report option"

record koth_entry =
  ke_miner_hotkey :: string
  ke_agent_id :: nat
  ke_composite :: pyfloat
  ke_first_seen :: int
  ke_raw_rank :: nat
  ke_bench_version :: int
  ke_composite_stderr :: "pyfloat option"
  ke_quorum_composites :: "pyfloat list option"
  ke_completed_wave_composites :: "pyfloat list option"
  ke_confirmation_composites :: "pyfloat list option"
  ke_confirmation_seeds :: "int list option"
  ke_efficiency_bonus :: "pyfloat option"
  ke_efficiency_factor :: "pyfloat option"
  ke_efficiency_curve_version :: "int option"
  ke_dueling_season_id :: "string option"
  ke_dueling :: "dueling_report option"
  ke_dueling_records :: "seed_record list option"
  ke_duel_records :: "seed_record list option"

datatype dethrone_method = Flat | Unpaired | Paired | Duel

record dethrone_decision =
  dd_challenger_lead :: pyfloat
  dd_required_lead :: pyfloat
  dd_margin_lead :: pyfloat
  dd_statistical_lead :: "pyfloat option"
  dd_method :: dethrone_method
  dd_dethrones :: bool
  dd_required_score :: pyfloat
  dd_score_ceiling :: pyfloat
  dd_ceiling_deadlocked :: bool
  dd_paired_standard_error :: "pyfloat option"
  dd_shared_seed_count :: "int option"
  dd_seed_differences :: "pyfloat list option"
  dd_required_shared_seeds :: "int option"
  dd_gate_blocked :: bool

record koth_projection =
  kp_champion :: koth_entry
  kp_tail :: "koth_entry list"
  kp_raw_leader :: koth_entry
  kp_raw_leader_decision :: "dethrone_decision option"

datatype allocation_mode = Ranked | ScoreCeilingPool

record allocation =
  ea_mode :: allocation_mode
  ea_members :: "koth_entry list"
  ea_shares :: "pyfloat list"

subsection \<open>The comparator\<close>

type_synonym order_key = "bool \<times> pyfloat \<times> pyfloat \<times> int \<times> string"

text \<open>\<open>eligible\<close> is the row's flag, or true when it has none; \<open>seen\<close> is its ranking clock.\<close>

definition score_order_key ::
  "bool \<Rightarrow> pyfloat \<Rightarrow> int \<Rightarrow> nat \<Rightarrow> pyfloat option \<Rightarrow> pyfloat option \<Rightarrow> order_key" where
  "score_order_key eligible stored seen aid score secondary_score =
     (let primary = (case score of None \<Rightarrow> stored | Some s \<Rightarrow> s);
          secondary = (case secondary_score of None \<Rightarrow> primary | Some s \<Rightarrow> s)
      in (\<not> eligible, fneg primary, fneg secondary, seen, uuid_str aid))"

text \<open>The newest upload first: time is inverted against a fixed horizon.\<close>

definition RANK_HORIZON :: int where "RANK_HORIZON = 253402300799000000"

definition owner_family_key ::
  "bool \<Rightarrow> pyfloat \<Rightarrow> int \<Rightarrow> nat \<Rightarrow> pyfloat option \<Rightarrow> pyfloat option \<Rightarrow> order_key" where
  "owner_family_key eligible stored seen aid score secondary_score =
     (let primary = (case score of None \<Rightarrow> stored | Some s \<Rightarrow> s);
          secondary = (case secondary_score of None \<Rightarrow> primary | Some s \<Rightarrow> s)
      in (\<not> eligible, fneg primary, fneg secondary, RANK_HORIZON - seen, uuid_str aid))"

definition rank_submissions ::
  "koth_entry list \<Rightarrow> (nat, pyfloat) dict \<Rightarrow> (nat, pyfloat) dict \<Rightarrow> koth_entry list" where
  "rank_submissions rows scores secondary =
     sort_key (\<lambda>r. score_order_key True (ke_composite r) (ke_first_seen r) (ke_agent_id r)
                 (dict_get scores (ke_agent_id r)) (dict_get secondary (ke_agent_id r))) rows"

definition select_owner_representative ::
  "koth_entry list \<Rightarrow> (nat, pyfloat) dict \<Rightarrow> (nat, pyfloat) dict \<Rightarrow> koth_entry list" where
  "select_owner_representative rows scores secondary =
     sort_key (\<lambda>r. owner_family_key True (ke_composite r) (ke_first_seen r) (ke_agent_id r)
                 (dict_get scores (ke_agent_id r)) (dict_get secondary (ke_agent_id r))) rows"

subsection \<open>Lifting the wire ledger\<close>

definition koth_confirmation_history :: "ledger_entry \<Rightarrow> (int, pyfloat) dict option" where
  "koth_confirmation_history e = (case confirmation_history e of
     None \<Rightarrow> None
   | Some records \<Rightarrow>
       if records = [] then None
       else let collapsed = map (\<lambda>(seed, values). (seed, median values))
                  (group_pairs [] (map (\<lambda>r. (cr_seed r, cr_composite r)) records))
            in if collapsed = [] then None
               else Some (take CONFIRMATION_SEED_CEILING (sort_key fst collapsed)))"

definition lift_records :: "ledger_entry \<Rightarrow> confirmation_record list option \<Rightarrow> seed_record list option" where
  "lift_records e history = (case history of
     None \<Rightarrow> None
   | Some rs \<Rightarrow> if v9_confirmation e \<noteq> None \<or> rs = [] then None
       else Some (map (\<lambda>r. \<lparr>dsr_seed = cr_seed r, dsr_bench_version = cr_bench_version r, dsr_report = cr_dueling r\<rparr>) rs))"

text \<open>The evidence a row may pair on: at least two composites with as many seeds.\<close>

definition lift_pairs :: "ledger_entry \<Rightarrow> (pyfloat list \<times> int list) option" where
  "lift_pairs e =
     (let history = koth_confirmation_history e;
          confirmations = (case history of Some h \<Rightarrow> Some (dict_values h) | None \<Rightarrow> confirmation_composites e);
          seeds = (case history of Some h \<Rightarrow> Some (dict_keys h) | None \<Rightarrow> confirmation_seeds e)
      in case (confirmations, seeds) of
           (Some c, Some s) \<Rightarrow> if length c = length s \<and> length c \<ge> 2 then Some (c, s) else None
         | _ \<Rightarrow> None)"

definition lift_waves :: "ledger_entry \<Rightarrow> pyfloat list" where
  "lift_waves e =
     (if v9_confirmation e \<noteq> None then []
      else case koth_confirmation_history e of
        Some h \<Rightarrow> if continual_aggregate_method e = Some ''mean_after_quorum'' then dict_values h
                  else (case confirmation_composites e of None \<Rightarrow> [] | Some c \<Rightarrow> c)
      | None \<Rightarrow> (case confirmation_composites e of None \<Rightarrow> [] | Some c \<Rightarrow> c))"

definition koth_lift :: "nat \<Rightarrow> ledger_entry \<Rightarrow> koth_entry" where
  "koth_lift rank e =
     \<lparr>ke_miner_hotkey = miner_hotkey e, ke_agent_id = agent_id e,
      ke_composite = (case v9_confirmation e of Some r \<Rightarrow> itruediv (full_effective_micros r) 1000000 | None \<Rightarrow> composite e),
      ke_first_seen = first_seen e, ke_raw_rank = rank,
      ke_bench_version = (case bench_version e of Some v \<Rightarrow> if v = 0 then 1 else v | None \<Rightarrow> 1),
      ke_composite_stderr = composite_stderr e,
      ke_quorum_composites = Some (if v9_confirmation e \<noteq> None then [] else map sp_composite (score_proofs e)),
      ke_completed_wave_composites = Some (lift_waves e),
      ke_confirmation_composites = map_option fst (lift_pairs e),
      ke_confirmation_seeds = map_option snd (lift_pairs e),
      ke_efficiency_bonus = efficiency_bonus e, ke_efficiency_factor = efficiency_factor e,
      ke_efficiency_curve_version = efficiency_curve_version e,
      ke_dueling_season_id = dueling_season_id e, ke_dueling = dueling e,
      ke_dueling_records = lift_records e (confirmation_history e),
      ke_duel_records = lift_records e (duel_history e)\<rparr>"

text \<open>\<open>eligible\<close> of a wire row is absent, so it ranks; the raw rank counts from one.\<close>

definition raw_ranks :: "ledger_entry list \<Rightarrow> (nat, nat) dict" where
  "raw_ranks es =
     (let by_median = sort_key (\<lambda>e. score_order_key True (composite e) (first_seen e) (agent_id e) None None) es
      in dict_of (zip (map agent_id by_median) [1..<Suc (length es)]))"

definition koth_entries_from_ledger :: "ledger_entry list \<Rightarrow> koth_entry list" where
  "koth_entries_from_ledger es =
     map (\<lambda>e. koth_lift (case dict_get (raw_ranks es) (agent_id e) of Some r \<Rightarrow> r | None \<Rightarrow> 0) e) es"

subsection \<open>Scores\<close>

definition koth_confirmations :: "koth_entry \<Rightarrow> pyfloat list option" where
  "koth_confirmations e = (case ke_confirmation_composites e of
     None \<Rightarrow> None
   | Some v \<Rightarrow> if length v < 2 then None else if list_ex (\<lambda>x. \<not> in_score_range x) v then None else Some v)"

definition validated_composites :: "pyfloat list option \<Rightarrow> nat \<Rightarrow> pyfloat list option" where
  "validated_composites values minimum = (case values of
     None \<Rightarrow> None
   | Some v \<Rightarrow> if length v < minimum then None else if list_ex (\<lambda>x. \<not> in_score_range x) v then None else Some v)"

definition koth_efficiency_curve :: "koth_entry \<Rightarrow> int" where
  "koth_efficiency_curve e = (case ke_efficiency_curve_version e of
     Some v \<Rightarrow> if is_factor_curve v then v else CURVE_VERSION_BOUNDED_FACTOR
   | None \<Rightarrow> CURVE_VERSION_BOUNDED_FACTOR)"

definition koth_bounded_factor :: "koth_entry \<Rightarrow> pyfloat option" where
  "koth_bounded_factor e = (case ke_efficiency_factor e of
     None \<Rightarrow> None
   | Some factor \<Rightarrow>
       if ke_bench_version e < 9 then Some (Fin 1)
       else if \<not> isfinite factor \<or> fle factor (Fin 0) then Some (Fin 1)
       else if koth_efficiency_curve e < CURVE_VERSION_UNBOUNDED_FACTOR
               \<and> \<not> (fle (rnd64 (85 / 100)) factor \<and> fle factor (rnd64 (11 / 10))) then Some (Fin 1)
       else Some factor)"

definition koth_efficiency_multiplier :: "koth_entry \<Rightarrow> pyfloat" where
  "koth_efficiency_multiplier e = (case koth_bounded_factor e of
     Some factor \<Rightarrow> factor
   | None \<Rightarrow> (case ke_efficiency_bonus e of
       None \<Rightarrow> Fin 1
     | Some bonus \<Rightarrow> if \<not> isfinite bonus \<or> \<not> (fle (Fin 0) bonus \<and> fle bonus (rnd64 (1 / 10))) then Fin 1
                     else fadd (Fin 1) bonus))"

definition bounded_efficiency_adjusted_quality :: "pyfloat \<Rightarrow> pyfloat \<Rightarrow> int \<Rightarrow> pyfloat" where
  "bounded_efficiency_adjusted_quality quality factor curve =
     (if fle factor (Fin 1) then fmul quality factor
      else if curve \<ge> CURVE_VERSION_UNBOUNDED_FACTOR
      then fadd quality (fmul (fsub (Fin 1) quality) (fsub (Fin 1) (fdiv (Fin 1) factor)))
      else fadd quality (fmul (fsub factor (Fin 1)) (fsub (Fin 1) quality)))"

definition koth_stderr_scale :: "koth_entry \<Rightarrow> pyfloat" where
  "koth_stderr_scale e = (case koth_bounded_factor e of
     Some factor \<Rightarrow> if fle factor (Fin 1) then factor
       else if koth_efficiency_curve e \<ge> CURVE_VERSION_UNBOUNDED_FACTOR then fdiv (Fin 1) factor
       else fsub (Fin 2) factor
   | None \<Rightarrow> koth_efficiency_multiplier e)"

definition koth_adjusted_composite :: "koth_entry \<Rightarrow> pyfloat \<Rightarrow> pyfloat" where
  "koth_adjusted_composite e quality = (case koth_bounded_factor e of
     Some factor \<Rightarrow> bounded_efficiency_adjusted_quality quality factor (koth_efficiency_curve e)
   | None \<Rightarrow> fmul quality (koth_efficiency_multiplier e))"

definition koth_score_ceiling :: "koth_entry \<Rightarrow> pyfloat" where
  "koth_score_ceiling e = (case koth_bounded_factor e of
     Some factor \<Rightarrow> if fle factor (Fin 1) then factor else Fin 1
   | None \<Rightarrow> koth_efficiency_multiplier e)"

definition koth_continual_composite :: "koth_entry \<Rightarrow> pyfloat" where
  "koth_continual_composite e =
     (let fallback = (case koth_confirmations e of None \<Rightarrow> ke_composite e | Some v \<Rightarrow> median v) in
      case (validated_composites (ke_quorum_composites e) 3, validated_composites (ke_completed_wave_composites e) 1) of
        (Some quorum, Some waves) \<Rightarrow>
          if length quorum = 3
          then let samples = quorum @ waves in fdiv (fsum samples) (fint (int (length samples)))
          else fallback
      | _ \<Rightarrow> fallback)"

definition koth_effective_composite :: "koth_entry \<Rightarrow> pyfloat" where
  "koth_effective_composite e = koth_adjusted_composite e (koth_continual_composite e)"

definition koth_stderr :: "koth_entry \<Rightarrow> pyfloat option" where
  "koth_stderr e = (case ke_composite_stderr e of
     None \<Rightarrow> None | Some v \<Rightarrow> if isfinite v \<and> fle (Fin 0) v then Some v else None)"

definition koth_seed_composites :: "koth_entry \<Rightarrow> (int, pyfloat) dict option" where
  "koth_seed_composites e = (case (koth_confirmations e, ke_confirmation_seeds e) of
     (Some comps, Some seeds) \<Rightarrow>
       if length seeds \<noteq> length comps then None else align_seeds [] (zip seeds comps)
   | _ \<Rightarrow> None)"

definition koth_quality_primary :: "koth_entry list \<Rightarrow> bool" where
  "koth_quality_primary es = list_ex (\<lambda>e. koth_bounded_factor e \<noteq> None) es"

definition koth_dethrone_composite :: "koth_entry \<Rightarrow> bool \<Rightarrow> pyfloat" where
  "koth_dethrone_composite e quality_primary =
     (if quality_primary then koth_continual_composite e else koth_effective_composite e)"

definition koth_ranked_entries :: "koth_entry list \<Rightarrow> koth_entry list" where
  "koth_ranked_entries es =
     (let effective = dict_of (map (\<lambda>e. (ke_agent_id e, koth_effective_composite e)) es) in
      if \<not> koth_quality_primary es then rank_submissions es effective []
      else rank_submissions es (dict_of (map (\<lambda>e. (ke_agent_id e, koth_continual_composite e)) es)) effective)"

end
