(* ===== verification/Koth_Fold.thy ===== *)
theory Koth_Fold
  imports Koth
begin

section \<open>The platform's dethrone decision, projection and cohorts\<close>

text \<open>
  The pairwise and the pool half of \<^verbatim>\<open>apps/platform/ditto/api_server/koth.py\<close>: the dueling
  reads, the paired statistic, the explainable dethrone decision, the projection of champion and
  tail, the emission set with its shares, the public standings, the retest cohort and the schedule
  of the rescore rounds. The served switches \<^verbatim>\<open>ceiling_band_clamp\<close>,
  \<^verbatim>\<open>statistical_band_cap\<close> and \<^verbatim>\<open>crown_gate\<close> are passed in this order.
\<close>

subsection \<open>Seasons and pair masks\<close>

definition koth_is_dueling_entry :: "koth_entry \<Rightarrow> bool" where
  "koth_is_dueling_entry e = is_dueling_bench_version (ke_bench_version e)"

definition koth_entry_season :: "koth_entry \<Rightarrow> string option" where
  "koth_entry_season e = (case ke_dueling e of
     None \<Rightarrow> None
   | Some report \<Rightarrow> (case ke_dueling_season_id e of
       None \<Rightarrow> Some (season_id report)
     | Some s \<Rightarrow> if s = season_id report then Some s else None))"

definition koth_dueling_fold_ready :: "koth_entry \<Rightarrow> bool" where
  "koth_dueling_fold_ready e \<longleftrightarrow> \<not> koth_is_dueling_entry e \<or> koth_entry_season e \<noteq> None"

definition koth_fold_pool :: "koth_entry list \<Rightarrow> koth_entry list" where
  "koth_fold_pool es = filter (\<lambda>e. flt (Fin 0) (ke_composite e) \<and> koth_dueling_fold_ready e) es"

definition koth_dueling_incomparable :: "koth_entry \<Rightarrow> koth_entry \<Rightarrow> bool" where
  "koth_dueling_incomparable a b =
     (if \<not> (koth_is_dueling_entry a \<and> koth_is_dueling_entry b) then False
      else koth_entry_season a = None \<or> koth_entry_season a \<noteq> koth_entry_season b
           \<or> ke_bench_version a \<noteq> ke_bench_version b)"

definition koth_dueling_pair_mask :: "koth_entry \<Rightarrow> koth_entry \<Rightarrow> string set option" where
  "koth_dueling_pair_mask a b =
     (if \<not> (koth_is_dueling_entry a \<and> koth_is_dueling_entry b) then None
      else if koth_dueling_incomparable a b then None
      else case (ke_dueling a, ke_dueling b) of
        (Some ra, Some rb) \<Rightarrow> Some {owner_key ra, owner_key rb}
      | _ \<Rightarrow> None)"

text \<open>Stored confirmation rows: \<open>parse\<close> is Pydantic's validation of the stored document,
  \<open>None\<close> when it does not validate.\<close>

record 'raw stored_row =
  st_seed :: int
  st_bench_version :: int
  st_dueling :: "'raw option"

definition stored_dueling_report :: "('raw \<Rightarrow> dueling_report option) \<Rightarrow> 'raw option \<Rightarrow> dueling_report option" where
  "stored_dueling_report parse raw = (case raw of None \<Rightarrow> None | Some doc \<Rightarrow> parse doc)"

definition stored_record :: "('raw \<Rightarrow> dueling_report option) \<Rightarrow> 'raw stored_row \<Rightarrow> seed_record" where
  "stored_record parse row = \<lparr>dsr_seed = st_seed row, dsr_bench_version = st_bench_version row,
     dsr_report = stored_dueling_report parse (st_dueling row)\<rparr>"

definition duel_seed_records ::
  "('raw \<Rightarrow> dueling_report option) \<Rightarrow> 'raw stored_row list \<Rightarrow> seed_record list option" where
  "duel_seed_records parse rows = (if rows = [] then None else Some (map (stored_record parse) rows))"

definition dueling_seed_records ::
  "('raw \<Rightarrow> dueling_report option) \<Rightarrow> 'raw stored_row list \<Rightarrow> int set \<Rightarrow> seed_record list option" where
  "dueling_seed_records parse rows seeds =
     (let records = map (stored_record parse) (filter (\<lambda>r. st_seed r \<in> seeds) rows)
      in if records = [] then None else Some records)"

definition koth_record_masked_composite ::
  "koth_entry \<Rightarrow> seed_record \<Rightarrow> string set \<Rightarrow> pyfloat option" where
  "koth_record_masked_composite e record owners = (case (dsr_report record, ke_dueling e) of
     (Some report, Some entry_report) \<Rightarrow>
       if Some (season_id report) \<noteq> koth_entry_season e \<or> owner_key report \<noteq> owner_key entry_report
          \<or> dsr_bench_version record \<noteq> ke_bench_version e then None
       else let v = dueling_composite (datagen_raw report) (datagen_gate report) (columns report) owners
            in if in_score_range v then Some v else None
   | _ \<Rightarrow> None)"

definition record_window :: "seed_record list \<Rightarrow> int list" where
  "record_window records = take CONFIRMATION_SEED_CEILING (sort (remdups (map dsr_seed records)))"

definition koth_dueling_seed_composites ::
  "koth_entry \<Rightarrow> string set \<Rightarrow> (int, pyfloat) dict option" where
  "koth_dueling_seed_composites e owners = (case ke_dueling_records e of
     None \<Rightarrow> None
   | Some records \<Rightarrow>
      if records = [] then None
      else let grouped = group_pairs [] (concat (map (\<lambda>r.
                 if dsr_seed r \<notin> set (record_window records) then []
                 else case koth_record_masked_composite e r owners of
                        None \<Rightarrow> [] | Some v \<Rightarrow> [(dsr_seed r, v)]) records))
           in if grouped = [] then None
              else Some (map (\<lambda>(seed, values). (seed, median values)) (sort_key fst grouped)))"

subsection \<open>The paired statistic\<close>

definition koth_paired_seed_maps ::
  "koth_entry \<Rightarrow> koth_entry \<Rightarrow> ((int, pyfloat) dict \<times> (int, pyfloat) dict) option" where
  "koth_paired_seed_maps a b =
     (let both = koth_is_dueling_entry a \<and> koth_is_dueling_entry b;
          maps = (if both
                  then (case koth_dueling_pair_mask a b of
                          None \<Rightarrow> (None, None)
                        | Some m \<Rightarrow> (koth_dueling_seed_composites a m, koth_dueling_seed_composites b m))
                  else (koth_seed_composites a, koth_seed_composites b))
      in case maps of (Some am, Some bm) \<Rightarrow> Some (am, bm) | _ \<Rightarrow> None)"

definition koth_shared_seed_count :: "koth_entry \<Rightarrow> koth_entry \<Rightarrow> nat" where
  "koth_shared_seed_count a b = (case koth_paired_seed_maps a b of
     None \<Rightarrow> 0 | Some (am, bm) \<Rightarrow> length (common_seeds am bm))"

record paired_stat =
  ps_mean_difference :: pyfloat
  ps_champion_reference :: pyfloat
  ps_standard_error :: pyfloat
  ps_differences :: "pyfloat list"

definition koth_seed_score :: "bool \<Rightarrow> koth_entry \<Rightarrow> pyfloat \<Rightarrow> pyfloat" where
  "koth_seed_score quality_primary e quality =
     (if quality_primary then quality else koth_adjusted_composite e quality)"

definition koth_paired_statistic :: "libm \<Rightarrow> koth_entry \<Rightarrow> koth_entry \<Rightarrow> paired_stat option" where
  "koth_paired_statistic M challenger reigning = (case koth_paired_seed_maps challenger reigning of
     None \<Rightarrow> None
   | Some (chall_map, champ_map) \<Rightarrow>
      (let common = common_seeds chall_map champ_map;
           qp = koth_quality_primary [challenger, reigning];
           differences = map (\<lambda>s. fsub (koth_seed_score qp challenger (seed_value chall_map s))
                                         (koth_seed_score qp reigning (seed_value champ_map s))) common;
           champs = map (\<lambda>s. koth_seed_score qp reigning (seed_value champ_map s)) common;
           mean_difference = mean_of differences
       in if length common < 2 then None
          else Some \<lparr>ps_mean_difference = mean_difference, ps_champion_reference = mean_of champs,
                     ps_standard_error = standard_error_of M differences mean_difference,
                     ps_differences = differences\<rparr>))"

definition koth_adjacent_swaps :: "libm \<Rightarrow> koth_entry \<Rightarrow> koth_entry \<Rightarrow> bool" where
  "koth_adjacent_swaps M lo up =
     (koth_dueling_pair_mask lo up \<noteq> None
      \<and> (case koth_paired_statistic M lo up of
           None \<Rightarrow> False | Some p \<Rightarrow> flt (Fin 0) (ps_mean_difference p)))"

definition koth_dueling_adjacent_order :: "libm \<Rightarrow> koth_entry list \<Rightarrow> koth_entry list" where
  "koth_dueling_adjacent_order M ranked =
     (if \<not> list_ex koth_is_dueling_entry ranked then ranked
      else swap_passes (koth_adjacent_swaps M) (length ranked) ranked)"

definition koth_weight_tied :: "libm \<Rightarrow> bool \<Rightarrow> koth_entry \<Rightarrow> koth_entry \<Rightarrow> bool" where
  "koth_weight_tied M cap candidate anchor =
     (if koth_dueling_incomparable candidate anchor then False
      else if koth_quality_primary [candidate, anchor]
      then feq (koth_continual_composite candidate) (koth_continual_composite anchor)
           \<and> feq (koth_effective_composite candidate) (koth_effective_composite anchor)
      else if feq (koth_effective_composite candidate) (koth_effective_composite anchor) then True
      else case koth_paired_statistic M candidate anchor of
        None \<Rightarrow> False
      | Some p \<Rightarrow>
          if \<not> cap then fle (fabs (ps_mean_difference p)) (fmul KOTH_DETHRONE_Z (ps_standard_error p))
          else fle (fabs (ps_mean_difference p))
                 (capped_statistical_band KOTH_MARGIN (fmul KOTH_DETHRONE_Z (ps_standard_error p))))"

subsection \<open>The dethrone decision\<close>

definition koth_dethrone_band_scale :: "libm \<Rightarrow> koth_entry \<Rightarrow> koth_entry \<Rightarrow> pyfloat \<Rightarrow> pyfloat" where
  "koth_dethrone_band_scale M challenger reigning champion_composite =
     (if min (ke_bench_version challenger) (ke_bench_version reigning) < KOTH_BAND_DECAY_MIN_BENCH_VERSION
      then Fin 1
      else let bounded = pmin (pmax champion_composite KOTH_BAND_DECAY_START_COMPOSITE) (Fin 1)
           in lm_exp M (fmul (fneg KOTH_BAND_DECAY_RATE) (fsub bounded KOTH_BAND_DECAY_START_COMPOSITE)))"

definition koth_ceiling_capped_band ::
  "pyfloat \<Rightarrow> koth_entry \<Rightarrow> koth_entry \<Rightarrow> pyfloat \<Rightarrow> bool \<Rightarrow> pyfloat" where
  "koth_ceiling_capped_band band challenger reigning champion_score active =
     (if \<not> active then band
      else if min (ke_bench_version challenger) (ke_bench_version reigning) < KOTH_BAND_DECAY_MIN_BENCH_VERSION
      then band
      else let quality_primary = koth_quality_primary [challenger, reigning];
               ceiling = (if quality_primary then Fin 1 else koth_score_ceiling challenger);
               headroom = fsub ceiling champion_score
           in if fle headroom (Fin 0) then Fin 0
              else pmin band (fmul KOTH_CEILING_HEADROOM_SHARE headroom))"

definition koth_duel_governs :: "koth_entry \<Rightarrow> koth_entry \<Rightarrow> crown_gate option \<Rightarrow> bool" where
  "koth_duel_governs challenger reigning gate = (case gate of
     None \<Rightarrow> False
   | Some g \<Rightarrow> duel_window g \<noteq> None \<and> koth_is_dueling_entry challenger \<and> koth_is_dueling_entry reigning)"

definition koth_entry_duel_records :: "koth_entry \<Rightarrow> string set \<Rightarrow> season_records option" where
  "koth_entry_duel_records e owners = (case (ke_duel_records e, ke_dueling e) of
     (Some records, Some entry_report) \<Rightarrow>
       (let values = concat (map (\<lambda>r. case dsr_report r of
              None \<Rightarrow> []
            | Some report \<Rightarrow>
                if dsr_seed r < 0 \<or> owner_key report \<noteq> owner_key entry_report
                   \<or> dsr_bench_version r \<noteq> ke_bench_version e then []
                else let v = dueling_composite (datagen_raw report) (datagen_gate report) (columns report) owners
                     in if in_score_range v
                        then [(season_seed_key (season_id report) (season_index report) (dsr_seed r), v)]
                        else []) records);
            collapsed = collapse_records values
        in if collapsed = [] then None else Some collapsed)
   | _ \<Rightarrow> None)"

definition koth_duel_scored :: "bool \<Rightarrow> koth_entry \<Rightarrow> season_records \<Rightarrow> season_records" where
  "koth_duel_scored quality_primary e records =
     (if quality_primary then records
      else map (\<lambda>(key, (ix, v)). (key, (ix, koth_adjusted_composite e v))) records)"

definition duel_statistic_for :: "libm \<Rightarrow> koth_entry \<Rightarrow> koth_entry \<Rightarrow> int \<Rightarrow> duel_stat option" where
  "duel_statistic_for M challenger reigning window = (case koth_dueling_pair_mask challenger reigning of
     None \<Rightarrow> None
   | Some owners \<Rightarrow> (case (koth_entry_duel_records challenger owners, koth_entry_duel_records reigning owners) of
       (Some chall, Some champ) \<Rightarrow>
         (let qp = koth_quality_primary [challenger, reigning]
          in duel_statistic M (duel_pairs (koth_duel_scored qp challenger chall)
                                          (koth_duel_scored qp reigning champ) window))
     | _ \<Rightarrow> None))"

definition koth_crown_evidence_count :: "libm \<Rightarrow> koth_entry \<Rightarrow> koth_entry \<Rightarrow> crown_gate \<Rightarrow> int" where
  "koth_crown_evidence_count M a b gate =
     (case duel_window gate of
        Some window \<Rightarrow>
          if koth_duel_governs a b (Some gate)
          then (case duel_statistic_for M a b window of None \<Rightarrow> 0 | Some stat \<Rightarrow> int (ds_count stat))
          else int (koth_shared_seed_count a b)
      | None \<Rightarrow> int (koth_shared_seed_count a b))"

text \<open>The band of the unpaired branch, \<open>None\<close> when either row has no usable standard error.\<close>

definition koth_unpaired_lead :: "libm \<Rightarrow> koth_entry \<Rightarrow> koth_entry \<Rightarrow> pyfloat option" where
  "koth_unpaired_lead M challenger reigning =
     (let qp = koth_quality_primary [challenger, reigning] in
      case (koth_stderr challenger, koth_stderr reigning) of
        (Some se_c, Some se_champ) \<Rightarrow>
          (let c = (if qp then se_c else fmul se_c (koth_stderr_scale challenger));
               k = (if qp then se_champ else fmul se_champ (koth_stderr_scale reigning))
           in Some (fmul KOTH_DETHRONE_Z (fsqrt (fadd (lm_pow M c (Fin 2)) (lm_pow M k (Fin 2))))))
      | _ \<Rightarrow> None)"

definition ungated_dethrone_decision ::
  "libm \<Rightarrow> bool \<Rightarrow> bool \<Rightarrow> koth_entry \<Rightarrow> koth_entry \<Rightarrow> dethrone_decision" where
  "ungated_dethrone_decision M clamp cap challenger reigning =
     (let qp = koth_quality_primary [challenger, reigning];
          score_ceiling = (if qp then Fin 1 else koth_score_ceiling challenger) in
      case koth_paired_statistic M challenger reigning of
        Some paired \<Rightarrow>
          (let statistical = indifference_band KOTH_MARGIN
                 (Some (fmul KOTH_DETHRONE_Z (ps_standard_error paired))) True;
               scaled = fmul statistical
                 (koth_dethrone_band_scale M challenger reigning (ps_champion_reference paired));
               required = koth_ceiling_capped_band scaled challenger reigning
                 (ps_champion_reference paired) clamp;
               observed_score = fadd (ps_champion_reference paired) (ps_mean_difference paired);
               required_score = fadd (ps_champion_reference paired) required;
               dethrones = flt required_score observed_score
           in \<lparr>dd_challenger_lead = ps_mean_difference paired, dd_required_lead = required,
               dd_margin_lead = KOTH_MARGIN, dd_statistical_lead = Some statistical,
               dd_method = Paired, dd_dethrones = dethrones, dd_required_score = required_score,
               dd_score_ceiling = score_ceiling,
               dd_ceiling_deadlocked = (\<not> dethrones \<and> fle score_ceiling required_score),
               dd_paired_standard_error = Some (ps_standard_error paired),
               dd_shared_seed_count = Some (int (length (ps_differences paired))),
               dd_seed_differences = Some (ps_differences paired),
               dd_required_shared_seeds = None, dd_gate_blocked = False\<rparr>)
      | None \<Rightarrow>
          (let chall = koth_dethrone_composite challenger qp;
               champ = koth_dethrone_composite reigning qp;
               statistical = koth_unpaired_lead M challenger reigning;
               scaled = fmul (indifference_band KOTH_MARGIN statistical cap)
                 (koth_dethrone_band_scale M challenger reigning champ);
               required = koth_ceiling_capped_band scaled challenger reigning champ clamp;
               required_score = fadd champ required;
               dethrones = flt required_score chall
           in \<lparr>dd_challenger_lead = fsub chall champ, dd_required_lead = required,
               dd_margin_lead = KOTH_MARGIN, dd_statistical_lead = statistical,
               dd_method = (if statistical = None then Flat else Unpaired),
               dd_dethrones = dethrones, dd_required_score = required_score,
               dd_score_ceiling = score_ceiling,
               dd_ceiling_deadlocked = (\<not> dethrones \<and> fle score_ceiling required_score),
               dd_paired_standard_error = None, dd_shared_seed_count = None,
               dd_seed_differences = None, dd_required_shared_seeds = None,
               dd_gate_blocked = False\<rparr>))"

definition duel_decision ::
  "libm \<Rightarrow> crown_gate \<Rightarrow> int \<Rightarrow> bool \<Rightarrow> dethrone_decision \<Rightarrow> koth_entry \<Rightarrow> koth_entry \<Rightarrow> dethrone_decision" where
  "duel_decision M gate window clamp ungated challenger reigning =
     (case duel_statistic_for M challenger reigning window of
        None \<Rightarrow> ungated\<lparr>dd_dethrones := False, dd_required_shared_seeds := Some (min_shared_seeds gate),
                  dd_gate_blocked := dd_dethrones ungated, dd_shared_seed_count := Some 0\<rparr>
      | Some stat \<Rightarrow>
          (let reference = ds_champion_reference stat;
               margin_lead = fmul KOTH_MARGIN (koth_dethrone_band_scale M challenger reigning reference);
               lead = duel_required_lead stat margin_lead;
               required = map_option (\<lambda>l. koth_ceiling_capped_band l challenger reigning reference clamp) lead;
               enough = (min_shared_seeds gate \<le> int (ds_count stat) \<and> required \<noteq> None);
               shown = (case required of Some r \<Rightarrow> r | None \<Rightarrow> margin_lead);
               observed_score = fadd reference (ds_mean_difference stat);
               required_score = fadd reference shown
           in \<lparr>dd_challenger_lead = ds_mean_difference stat, dd_required_lead = shown,
               dd_margin_lead = margin_lead, dd_statistical_lead = lead, dd_method = Duel,
               dd_dethrones = (enough \<and> flt required_score observed_score),
               dd_required_score = required_score, dd_score_ceiling = dd_score_ceiling ungated,
               dd_ceiling_deadlocked = dd_ceiling_deadlocked ungated,
               dd_paired_standard_error = Some (ds_standard_error stat),
               dd_shared_seed_count = Some (int (ds_count stat)),
               dd_seed_differences = Some (map dp_difference (ds_pairs stat)),
               dd_required_shared_seeds = Some (min_shared_seeds gate),
               dd_gate_blocked = (\<not> enough \<and> flt required_score observed_score)\<rparr>))"

definition koth_dethrone_decision ::
  "libm \<Rightarrow> bool \<Rightarrow> bool \<Rightarrow> crown_gate option \<Rightarrow> koth_entry \<Rightarrow> koth_entry \<Rightarrow> dethrone_decision" where
  "koth_dethrone_decision M clamp cap crown_gate challenger reigning =
     (let ungated = ungated_dethrone_decision M clamp cap challenger reigning;
          incomparable = koth_dueling_incomparable challenger reigning;
          decision = (if incomparable then ungated\<lparr>dd_dethrones := False\<rparr> else ungated) in
      case crown_gate of
        None \<Rightarrow> decision
      | Some gate \<Rightarrow>
          (case (if koth_duel_governs challenger reigning (Some gate) then duel_window gate else None) of
             Some window \<Rightarrow>
               (let duel = duel_decision M gate window clamp ungated challenger reigning
                in if incomparable then duel\<lparr>dd_dethrones := False\<rparr> else duel)
           | None \<Rightarrow>
               (let qualified = (dd_method decision = Paired
                      \<and> min_shared_seeds gate \<le> int (koth_shared_seed_count challenger reigning))
                in decision\<lparr>dd_dethrones := (dd_dethrones decision \<and> qualified),
                     dd_required_shared_seeds := Some (min_shared_seeds gate),
                     dd_gate_blocked := (dd_dethrones decision \<and> \<not> qualified)\<rparr>)))"

subsection \<open>The projection\<close>

definition koth_seniority_order :: "koth_entry list \<Rightarrow> koth_entry list" where
  "koth_seniority_order es = sort_key (\<lambda>e. (ke_first_seen e, ke_agent_id e)) es"

definition koth_opening :: "koth_entry list \<Rightarrow> nat option \<Rightarrow> (koth_entry \<times> koth_entry list) option" where
  "koth_opening scored incumbent_agent_id =
     (let ordered = koth_seniority_order scored in
      case find (\<lambda>e. Some (ke_agent_id e) = incumbent_agent_id) scored of
        Some inc \<Rightarrow> Some (inc, filter (\<lambda>e. ke_agent_id e \<noteq> ke_agent_id inc) ordered)
      | None \<Rightarrow> (case ordered of [] \<Rightarrow> None | c # cs \<Rightarrow> Some (c, cs)))"

definition koth_standing :: "koth_entry list \<Rightarrow> crown_gate \<Rightarrow> koth_entry list" where
  "koth_standing scored gate = take (nat (max 1 (standing_rank gate))) (koth_ranked_entries scored)"

definition koth_gated_opening ::
  "libm \<Rightarrow> koth_entry list \<Rightarrow> crown_gate \<Rightarrow> koth_entry \<Rightarrow> koth_entry \<times> koth_entry list" where
  "koth_gated_opening M scored gate opener =
     (let standing = koth_standing scored gate;
          ids = set (map ke_agent_id standing);
          opener' = (if ke_agent_id opener \<in> ids then opener
                     else case find (\<lambda>e. koth_crown_evidence_count M e opener gate \<ge> min_shared_seeds gate) standing of
                            Some e \<Rightarrow> e
                          | None \<Rightarrow> (case standing of [] \<Rightarrow> opener | s # _ \<Rightarrow> s))
      in (opener', filter (\<lambda>e. ke_agent_id e \<in> ids \<and> ke_agent_id e \<noteq> ke_agent_id opener')
            (koth_seniority_order scored)))"

definition koth_takes ::
  "libm \<Rightarrow> bool \<Rightarrow> bool \<Rightarrow> crown_gate option \<Rightarrow> koth_entry \<Rightarrow> koth_entry \<Rightarrow> bool" where
  "koth_takes M clamp cap crown_gate challenger reigning =
     dd_dethrones (koth_dethrone_decision M clamp cap crown_gate challenger reigning)"

definition koth_champion ::
  "libm \<Rightarrow> bool \<Rightarrow> bool \<Rightarrow> crown_gate option \<Rightarrow> nat option \<Rightarrow> koth_entry list \<Rightarrow> koth_entry option" where
  "koth_champion M clamp cap crown_gate incumbent scored = (case koth_opening scored incumbent of
     None \<Rightarrow> None
   | Some (opener, challengers) \<Rightarrow>
      (let (opener', field) = (case crown_gate of
             None \<Rightarrow> (opener, challengers)
           | Some gate \<Rightarrow> koth_gated_opening M scored gate opener)
       in Some (crown_walk (koth_takes M clamp cap crown_gate) opener' field)))"

definition koth_tail :: "libm \<Rightarrow> koth_entry list \<Rightarrow> koth_entry \<Rightarrow> bool \<Rightarrow> koth_entry list" where
  "koth_tail M scored king distinct_hotkeys =
     (let ranked_tail = filter (\<lambda>e. ke_miner_hotkey e \<noteq> ke_miner_hotkey king) (koth_ranked_entries scored)
      in koth_dueling_adjacent_order M (take (nat KOTH_TAIL_SIZE)
           (if distinct_hotkeys then keep_first ke_miner_hotkey {ke_miner_hotkey king} ranked_tail
            else ranked_tail)))"

definition project_koth ::
  "libm \<Rightarrow> bool \<Rightarrow> bool \<Rightarrow> crown_gate option \<Rightarrow> bool \<Rightarrow> nat option \<Rightarrow> koth_entry list \<Rightarrow> koth_projection option" where
  "project_koth M clamp cap crown_gate distinct_hotkeys incumbent es =
     (let scored = koth_fold_pool es; ranked = koth_ranked_entries scored in
      case (koth_champion M clamp cap crown_gate incumbent scored, ranked) of
        (Some king, raw_leader # _) \<Rightarrow>
          Some \<lparr>kp_champion = king, kp_tail = koth_tail M scored king distinct_hotkeys,
                kp_raw_leader = raw_leader,
                kp_raw_leader_decision =
                  (if ke_agent_id raw_leader = ke_agent_id king then None
                   else Some (koth_dethrone_decision M clamp cap crown_gate raw_leader king))\<rparr>
      | _ \<Rightarrow> None)"

subsection \<open>The emission set\<close>

definition emission_set :: "koth_projection option \<Rightarrow> koth_entry list" where
  "emission_set projection = (case projection of
     None \<Rightarrow> []
   | Some p \<Rightarrow> kp_champion p # keep_first ke_agent_id {ke_agent_id (kp_champion p)} (kp_tail p))"

definition emission_shares ::
  "libm \<Rightarrow> koth_projection option \<Rightarrow> bool \<Rightarrow> bool \<Rightarrow> pyfloat list option \<Rightarrow> pyfloat list" where
  "emission_shares M projection tie_pooling cap rank_shares =
     (let members = emission_set projection;
          curve = (case rank_shares of None \<Rightarrow> KOTH_RANK_SHARES | Some c \<Rightarrow> c);
          shares = take (length members) curve
      in if tie_pooling then pool_groups (koth_weight_tied M cap) members shares else shares)"

definition koth_distinct_ranked :: "koth_entry list \<Rightarrow> koth_entry list" where
  "koth_distinct_ranked es = keep_first ke_miner_hotkey {} (koth_ranked_entries (koth_fold_pool es))"

definition koth_score_ceiling_cohort ::
  "libm \<Rightarrow> bool \<Rightarrow> bool \<Rightarrow> koth_entry list \<Rightarrow> koth_projection \<Rightarrow> koth_entry list" where
  "koth_score_ceiling_cohort M clamp cap es projection =
     (if koth_quality_primary (koth_fold_pool es) then []
      else let ranked = koth_distinct_ranked es in
        case find (\<lambda>e. ke_miner_hotkey e \<noteq> ke_miner_hotkey (kp_champion projection)) ranked of
          None \<Rightarrow> []
        | Some challenger \<Rightarrow>
            if \<not> dd_ceiling_deadlocked (koth_dethrone_decision M clamp cap None challenger (kp_champion projection))
            then []
            else (case ranked of
                [] \<Rightarrow> []
              | anchor # rest \<Rightarrow>
                  (let cohort = anchor # takeWhile (\<lambda>e. koth_weight_tied M cap e anchor) rest
                   in if length cohort > 1 then cohort else [])))"

definition emission_allocation ::
  "libm \<Rightarrow> bool \<Rightarrow> bool \<Rightarrow> bool \<Rightarrow> pyfloat list option \<Rightarrow> koth_entry list \<Rightarrow> koth_projection option \<Rightarrow> allocation" where
  "emission_allocation M tie_pooling clamp cap rank_shares es projection = (case projection of
     None \<Rightarrow> \<lparr>ea_mode = Ranked, ea_members = [], ea_shares = []\<rparr>
   | Some p \<Rightarrow>
      (let cohort = (if tie_pooling then koth_score_ceiling_cohort M clamp cap es p else [])
       in if cohort \<noteq> []
          then \<lparr>ea_mode = ScoreCeilingPool, ea_members = cohort,
                ea_shares = replicate (length cohort) (fdiv (Fin 1) (fint (int (length cohort))))\<rparr>
          else \<lparr>ea_mode = Ranked, ea_members = emission_set projection,
                ea_shares = emission_shares M projection tie_pooling cap rank_shares\<rparr>))"

definition champion_defense ::
  "libm \<Rightarrow> bool \<Rightarrow> bool \<Rightarrow> crown_gate option \<Rightarrow> koth_entry list \<Rightarrow> koth_projection option \<Rightarrow> dethrone_decision option" where
  "champion_defense M clamp cap crown_gate es projection = (case projection of
     None \<Rightarrow> None
   | Some p \<Rightarrow> map_option (\<lambda>c. koth_dethrone_decision M clamp cap crown_gate c (kp_champion p))
       (find (\<lambda>e. ke_miner_hotkey e \<noteq> ke_miner_hotkey (kp_champion p)) (koth_distinct_ranked es)))"

subsection \<open>Public standings\<close>

record challenger_standing =
  cs_entry :: koth_entry
  cs_official_rank :: nat
  cs_official_score :: pyfloat
  cs_shared_seeds :: int
  cs_within_standing :: bool
  cs_decision :: dethrone_decision

record crown_board =
  cb_king_official_rank :: nat
  cb_king_official_score :: pyfloat
  cb_challengers :: "challenger_standing list"

definition official_positions :: "koth_entry list \<Rightarrow> (nat, nat) dict" where
  "official_positions ranked = dict_of (zip (map ke_agent_id ranked) [1..<Suc (length ranked)])"

definition challenger_row ::
  "libm \<Rightarrow> bool \<Rightarrow> bool \<Rightarrow> crown_gate \<Rightarrow> bool \<Rightarrow> (nat, nat) dict \<Rightarrow> koth_entry \<Rightarrow> koth_entry \<Rightarrow> challenger_standing" where
  "challenger_row M clamp cap gate qp positions king e =
     (let decision = koth_dethrone_decision M clamp cap (Some gate) e king;
          position = (case dict_get positions (ke_agent_id e) of Some r \<Rightarrow> r | None \<Rightarrow> 0)
      in \<lparr>cs_entry = e, cs_official_rank = position,
          cs_official_score = koth_dethrone_composite e qp,
          cs_shared_seeds = (if dd_method decision = Duel
             then (case dd_shared_seed_count decision of Some n \<Rightarrow> n | None \<Rightarrow> 0)
             else koth_crown_evidence_count M e king gate),
          cs_within_standing = (int position \<le> standing_rank gate),
          cs_decision = decision\<rparr>)"

definition crown_standings ::
  "libm \<Rightarrow> bool \<Rightarrow> bool \<Rightarrow> crown_gate \<Rightarrow> int \<Rightarrow> koth_entry list \<Rightarrow> koth_projection option \<Rightarrow> crown_board option" where
  "crown_standings M clamp cap gate limit es projection = (case projection of
     None \<Rightarrow> None
   | Some p \<Rightarrow>
      (let scored = koth_fold_pool es;
           ranked = koth_ranked_entries scored;
           positions = official_positions ranked;
           qp = koth_quality_primary scored;
           king = kp_champion p;
           rivals = take (nat (max 0 limit)) (filter (\<lambda>e. ke_miner_hotkey e \<noteq> ke_miner_hotkey king)
                      (koth_distinct_ranked scored))
       in Some \<lparr>cb_king_official_rank = (case dict_get positions (ke_agent_id king) of
                    Some r \<Rightarrow> r | None \<Rightarrow> length ranked + 1),
                cb_king_official_score = koth_dethrone_composite king qp,
                cb_challengers = map (challenger_row M clamp cap gate qp positions king) rivals\<rparr>))"

subsection \<open>The retest cohort\<close>

record tie_band =
  tb_gap :: pyfloat
  tb_tolerance :: pyfloat
  tb_indistinguishable :: bool

definition tie_stderr :: "bool \<Rightarrow> koth_entry \<Rightarrow> pyfloat" where
  "tie_stderr qp e = fmul (case koth_stderr e of Some s \<Rightarrow> s | None \<Rightarrow> Fin 0)
     (if qp then Fin 1 else koth_stderr_scale e)"

definition tie_band_comparison :: "libm \<Rightarrow> pyfloat \<Rightarrow> koth_entry \<Rightarrow> koth_entry \<Rightarrow> tie_band" where
  "tie_band_comparison M tolerance_z candidate cutoff =
     (let qp = koth_quality_primary [candidate, cutoff];
          gap = fsub (koth_dethrone_composite cutoff qp) (koth_dethrone_composite candidate qp);
          tolerance = fmul tolerance_z (fsqrt (fadd (lm_pow M (tie_stderr qp candidate) (Fin 2))
                        (lm_pow M (tie_stderr qp cutoff) (Fin 2))))
      in \<lparr>tb_gap = gap, tb_tolerance = tolerance,
          tb_indistinguishable = (fle gap (Fin 0) \<or> fle gap tolerance)\<rparr>)"

definition indistinguishable_from :: "libm \<Rightarrow> pyfloat \<Rightarrow> koth_entry \<Rightarrow> koth_entry \<Rightarrow> bool" where
  "indistinguishable_from M tolerance_z candidate cutoff =
     tb_indistinguishable (tie_band_comparison M tolerance_z candidate cutoff)"

text \<open>The loop over the ranked entrants. \<open>tied\<close> is the band test; the set of seen agents is
  the set of the members' ids.\<close>

fun cohort_walk ::
  "(koth_entry \<Rightarrow> koth_entry \<Rightarrow> bool) \<Rightarrow> nat \<Rightarrow> nat \<Rightarrow> koth_entry list \<Rightarrow> koth_entry option \<Rightarrow> koth_entry list \<Rightarrow> koth_entry list" where
  "cohort_walk tied base_size most members cutoff [] = members"
| "cohort_walk tied base_size most members cutoff (e # es) =
     (if ke_agent_id e \<in> set (map ke_agent_id members)
      then cohort_walk tied base_size most members cutoff es
      else if length members \<ge> most then members
      else if length members \<ge> base_size \<and> (case cutoff of None \<Rightarrow> True | Some c \<Rightarrow> \<not> tied e c) then members
      else cohort_walk tied base_size most (members @ [e])
             (if Suc (length members) = base_size then Some e else cutoff) es)"

definition retest_cohort ::
  "libm \<Rightarrow> int \<Rightarrow> int option \<Rightarrow> pyfloat \<Rightarrow> koth_entry list \<Rightarrow> koth_projection option \<Rightarrow> koth_entry list" where
  "retest_cohort M cohort_size max_size tolerance_z es projection = (case projection of
     None \<Rightarrow> []
   | Some p \<Rightarrow>
      (let king = kp_champion p;
           ranked = koth_ranked_entries
             (filter (\<lambda>e. ke_miner_hotkey e \<noteq> ke_miner_hotkey king) (koth_fold_pool es));
           base_size = max 1 cohort_size;
           most = (case max_size of None \<Rightarrow> base_size | Some m \<Rightarrow> max base_size m)
       in cohort_walk (indistinguishable_from M tolerance_z) (nat base_size) (nat most) [king] None ranked))"

subsection \<open>The schedule of the rescore rounds\<close>

definition tempo_index :: "int \<Rightarrow> int" where
  "tempo_index block_number = block_number div BLOCKS_PER_TEMPO"

definition round_interval :: "int \<Rightarrow> int \<Rightarrow> int \<Rightarrow> int \<Rightarrow> int" where
  "round_interval base doubling step_cap scheduled = min (base * 2 ^ nat (scheduled div doubling)) step_cap"

lemma round_interval_positive: "0 < base \<Longrightarrow> base \<le> cap \<Longrightarrow> base \<le> round_interval base doubling cap s"
  by (simp add: round_interval_def)

text \<open>The loop, which its caller enters only with a positive \<open>base\<close> that \<open>step_cap\<close> is at
  least; the first guard states that, and every round then advances.\<close>

function next_round :: "int \<Rightarrow> int \<Rightarrow> int \<Rightarrow> int \<Rightarrow> int \<Rightarrow> int" where
  "next_round base doubling step_cap reign scheduled =
     (if 0 < base \<and> base \<le> step_cap \<and> scheduled < reign
      then next_round base doubling step_cap reign (scheduled + round_interval base doubling step_cap scheduled)
      else scheduled)"
  by pat_completeness auto

termination
  by (relation "measure (\<lambda>(base, doubling, cap, reign, s). nat (reign - s))")
    (use round_interval_positive in \<open>auto intro: less_le_trans\<close>)

declare next_round.simps [simp del]

definition reign_tempo :: "int \<Rightarrow> int \<Rightarrow> int" where
  "reign_tempo current_block crown_block = max 0 (current_block - crown_block) div BLOCKS_PER_TEMPO"

definition top5_round_is_due :: "int \<Rightarrow> int \<Rightarrow> int \<Rightarrow> int \<Rightarrow> int \<Rightarrow> bool" where
  "top5_round_is_due current_block crown_block base doubling_k cap =
     (if base \<le> 0 then False
      else let reign = reign_tempo current_block crown_block
           in next_round base (max 1 doubling_k) (max base cap) reign 0 = reign)"

subsection \<open>Laws of the schedule\<close>

text \<open>The documented schedule: offset zero is the crown tempo, and each reached point is followed
  by the interval in force there.\<close>

primrec round_offset :: "int \<Rightarrow> int \<Rightarrow> int \<Rightarrow> nat \<Rightarrow> int" where
  "round_offset base doubling step_cap 0 = 0"
| "round_offset base doubling step_cap (Suc n) = round_offset base doubling step_cap n
     + round_interval base doubling step_cap (round_offset base doubling step_cap n)"

lemma round_interval_le: "round_interval base doubling cap s \<le> cap"
  by (simp add: round_interval_def)

lemma round_offset_strict:
  assumes "0 < base" "base \<le> cap" shows "strict_mono (round_offset base doubling cap)"
  unfolding strict_mono_Suc_iff
proof
  fix n
  show "round_offset base doubling cap n < round_offset base doubling cap (Suc n)"
    using round_interval_positive [OF assms, of doubling "round_offset base doubling cap n"] assms by simp
qed

lemma next_round_offset:
  assumes "0 < base" "base \<le> cap"
  shows "next_round base doubling cap reign (round_offset base doubling cap n) = reign
     \<longleftrightarrow> (\<exists>m\<ge>n. round_offset base doubling cap m = reign)"
proof (induction "nat (reign - round_offset base doubling cap n)" arbitrary: n rule: less_induct)
  case less
  let ?o = "round_offset base doubling cap"
  note mono = strict_mono_less_eq [OF round_offset_strict [OF assms, of doubling]]
  show ?case
  proof (cases "?o n < reign")
    case True
    have "?o n < ?o (Suc n)" by (rule strict_monoD [OF round_offset_strict [OF assms]]) simp
    with True have "next_round base doubling cap reign (?o (Suc n)) = reign \<longleftrightarrow> (\<exists>m\<ge>Suc n. ?o m = reign)"
      by (intro less) simp
    moreover have "(\<exists>m\<ge>Suc n. ?o m = reign) \<longleftrightarrow> (\<exists>m\<ge>n. ?o m = reign)"
      using True by (metis Suc_leD Suc_leI le_neq_implies_less less_irrefl)
    ultimately show ?thesis using True assms by (subst next_round.simps) simp
  next
    case False
    have "m = n" if "n \<le> m" "?o m = reign" for m
      using that False mono [of n m] mono [of m n] by simp
    with False show ?thesis by (subst next_round.simps) auto
  qed
qed

lemma due_iff_offset:
  assumes "0 < base"
  shows "top5_round_is_due current crown base k cap
     \<longleftrightarrow> (\<exists>n. reign_tempo current crown = round_offset base (max 1 k) (max base cap) n)"
  using next_round_offset [of base "max base cap" "max 1 k" "reign_tempo current crown" 0] assms
  by (auto simp: top5_round_is_due_def Let_def eq_commute)

lemma next_offset_within:
  assumes "0 < base" "base \<le> cap" "0 \<le> r"
  shows "\<exists>n. r \<le> round_offset base doubling cap n \<and> round_offset base doubling cap n < r + cap"
proof -
  let ?o = "round_offset base doubling cap"
  have grow: "int n \<le> ?o n" for n
  proof (induction n)
    case (Suc n)
    then show ?case using round_interval_positive [OF assms(1,2), of doubling "?o n"] assms(1) by simp
  qed simp
  define n where "n = (LEAST n. r \<le> ?o n)"
  have "r \<le> ?o (nat r)" using grow [of "nat r"] assms(3) by simp
  then have n: "r \<le> ?o n" unfolding n_def by (rule LeastI)
  moreover have "?o n < r + cap"
  proof (cases n)
    case (Suc m)
    then have "\<not> r \<le> ?o m" unfolding n_def by (intro not_less_Least) simp
    then show ?thesis using Suc round_interval_le [of base doubling cap "?o m"] by simp
  qed (use assms in simp)
  ultimately show ?thesis by blast
qed

lemma dense_offset:
  assumes "0 < base" "base \<le> cap" "base * (int n - 1) < doubling" "0 < doubling"
  shows "round_offset base doubling cap n = base * int n"
  using assms(3)
proof (induction n)
  case (Suc n)
  have "base * (int n - 1) \<le> base * int n" using assms(1) by (simp add: algebra_simps)
  with Suc have IH: "round_offset base doubling cap n = base * int n" by simp
  have "base * int n div doubling = 0" using Suc.prems assms by (intro div_pos_pos_trivial) auto
  with IH assms show ?case by (simp add: round_interval_def algebra_simps min_def)
qed simp

lemma dense_offset_below:
  assumes "0 < base" "base \<le> cap" "round_offset base doubling cap n \<le> doubling"
  shows "round_offset base doubling cap n = base * int n"
  using assms(3)
proof (induction n)
  case (Suc n)
  have grow: "round_offset base doubling cap n < round_offset base doubling cap (Suc n)"
    by (rule strict_monoD [OF round_offset_strict [OF assms(1,2)]]) simp
  with Suc have IH: "round_offset base doubling cap n = base * int n" by linarith
  have "base * int n div doubling = 0"
    using Suc.prems grow IH assms(1) by (intro div_pos_pos_trivial) auto
  with IH assms(1,2) show ?case by (simp add: round_interval_def algebra_simps min_def)
qed simp

lemma reign_tempo_nonneg: "0 \<le> reign_tempo current crown"
  by (simp add: reign_tempo_def BLOCKS_PER_TEMPO_def pos_imp_zdiv_nonneg_iff)

lemma reign_tempo_later:
  assumes "crown \<le> current" "0 \<le> d"
  shows "reign_tempo (current + d * BLOCKS_PER_TEMPO) crown = reign_tempo current crown + d"
proof -
  have "max 0 (current + d * BLOCKS_PER_TEMPO - crown) = (current - crown) + d * BLOCKS_PER_TEMPO"
    using assms by (simp add: BLOCKS_PER_TEMPO_def)
  then show ?thesis using assms by (simp add: reign_tempo_def BLOCKS_PER_TEMPO_def)
qed

lemma dense_due:
  assumes "0 < base" "reign_tempo current crown \<le> max 1 k"
  shows "top5_round_is_due current crown base k cap \<longleftrightarrow> base dvd reign_tempo current crown"
proof -
  let ?r = "reign_tempo current crown" and ?o = "round_offset base (max 1 k) (max base cap)"
  note nonneg = reign_tempo_nonneg [of current crown]
  have "(\<exists>n. ?r = ?o n) \<longleftrightarrow> base dvd ?r"
  proof
    assume "\<exists>n. ?r = ?o n"
    then obtain n where n: "?r = ?o n" by blast
    with assms have "?o n = base * int n" by (intro dense_offset_below) auto
    with n show "base dvd ?r" by simp
  next
    assume "base dvd ?r"
    then obtain j where j: "?r = base * j" by blast
    with nonneg assms(1) have "0 \<le> j" by (simp add: zero_le_mult_iff)
    then have "?o (nat j) = base * j"
      using assms j dense_offset [of base "max base cap" "nat j" "max 1 k"] by (simp add: algebra_simps)
    with j show "\<exists>n. ?r = ?o n" by metis
  qed
  with due_iff_offset [OF assms(1)] show ?thesis by simp
qed

lemma due_within:
  assumes "0 < base" "crown \<le> current"
  shows "\<exists>d\<in>{0..<max base cap}. top5_round_is_due (current + d * BLOCKS_PER_TEMPO) crown base k cap"
proof -
  obtain n where n: "reign_tempo current crown \<le> round_offset base (max 1 k) (max base cap) n"
      "round_offset base (max 1 k) (max base cap) n < reign_tempo current crown + max base cap"
    using next_offset_within [of base "max base cap" "reign_tempo current crown" "max 1 k"] assms
    by (auto simp: reign_tempo_nonneg)
  define d where "d = round_offset base (max 1 k) (max base cap) n - reign_tempo current crown"
  have "reign_tempo (current + d * BLOCKS_PER_TEMPO) crown = round_offset base (max 1 k) (max base cap) n"
    using reign_tempo_later [OF assms(2), of d] n(1) by (simp add: d_def)
  then have "top5_round_is_due (current + d * BLOCKS_PER_TEMPO) crown base k cap"
    using due_iff_offset [OF assms(1)] by blast
  moreover have "d \<in> {0..<max base cap}" using n by (simp add: d_def)
  ultimately show ?thesis by blast
qed

subsection \<open>Properties of the schedule\<close>

text \<open>The reign backoff. With the lane enabled, a round is due exactly at the points of the
  documented schedule, which starts at the crown tempo and advances by the interval in force at
  each point; while the reign is within the first doubling period these are the multiples of
  \<open>base\<close>; and the lane never stops: from any block of the reign, a round is due fewer than
  \<open>max base cap\<close> tempos later.\<close>

theorem top5_round_schedule:
  assumes "0 < base"
  shows "(top5_round_is_due current crown base k cap
        \<longleftrightarrow> (\<exists>n. reign_tempo current crown = round_offset base (max 1 k) (max base cap) n))
    \<and> (reign_tempo current crown \<le> max 1 k \<longrightarrow>
        top5_round_is_due current crown base k cap = (base dvd reign_tempo current crown))
    \<and> (crown \<le> current \<longrightarrow>
        (\<exists>d\<in>{0..<max base cap}. top5_round_is_due (current + d * BLOCKS_PER_TEMPO) crown base k cap))"
  using due_iff_offset [OF assms] dense_due [OF assms] due_within [OF assms] by blast

text \<open>One hundred blocks into a reign that polls every second tempo, with the period doubling
  after 20 tempos up to 16.\<close>

theorem top5_round_schedule_witness:
  "\<exists>d\<in>{0..<16}. top5_round_is_due (1000 + d * BLOCKS_PER_TEMPO) 900 2 20 16"
  using top5_round_schedule [of 2 1000 900 20 16] by simp

subsection \<open>The retest cohort\<close>

lemma cohort_walk_prefix: "\<exists>more. cohort_walk tied b m members cutoff es = members @ more"
proof (induction es arbitrary: members cutoff)
  case (Cons e es)
  from Cons [of "members @ [e]" "if Suc (length members) = b then Some e else cutoff"] Cons [of members cutoff]
  show ?case by (auto intro: exI [of _ "[]"])
qed simp

lemma cohort_walk_ids:
  "distinct (map ke_agent_id members) \<Longrightarrow> distinct (map ke_agent_id (cohort_walk tied b m members cutoff es))"
  by (induction tied b m members cutoff es rule: cohort_walk.induct) auto

lemma cohort_walk_length: "length members \<le> m \<Longrightarrow> length (cohort_walk tied b m members cutoff es) \<le> m"
  by (induction tied b m members cutoff es rule: cohort_walk.induct) auto

lemma cohort_walk_full: "m \<le> length members \<Longrightarrow> cohort_walk tied b m members cutoff es = members"
  by (induction tied b m members cutoff es rule: cohort_walk.induct) auto

text \<open>Past the fixed size every admission is measured against the same cutoff, the last member
  the fixed size admits.\<close>

definition cohort_inv ::
  "(koth_entry \<Rightarrow> koth_entry \<Rightarrow> bool) \<Rightarrow> nat \<Rightarrow> koth_entry list \<Rightarrow> koth_entry option \<Rightarrow> bool" where
  "cohort_inv tied b members cutoff \<longleftrightarrow> 0 < b
     \<and> (b \<le> length members \<longrightarrow> (case cutoff of None \<Rightarrow> True | Some c \<Rightarrow> c = members ! (b - 1)))
     \<and> (\<forall>i. b \<le> i \<longrightarrow> i < length members \<longrightarrow> tied (members ! i) (members ! (b - 1)))"

lemma cohort_inv_step:
  assumes "cohort_inv tied b members cutoff" "b \<le> length members \<Longrightarrow> \<exists>c. cutoff = Some c \<and> tied e c"
  shows "cohort_inv tied b (members @ [e]) (if Suc (length members) = b then Some e else cutoff)"
  using assms by (cases "b \<le> length members") (auto simp: cohort_inv_def nth_append less_Suc_eq)

lemma cohort_walk_inv:
  "cohort_inv tied b members cutoff \<Longrightarrow> \<exists>c. cohort_inv tied b (cohort_walk tied b m members cutoff es) c"
proof (induction es arbitrary: members cutoff)
  case (Cons e es)
  have "cohort_inv tied b (members @ [e]) (if Suc (length members) = b then Some e else cutoff)"
    if "\<not> (b \<le> length members \<and> (case cutoff of None \<Rightarrow> True | Some c \<Rightarrow> \<not> tied e c))"
    using Cons.prems that by (intro cohort_inv_step) (auto split: option.splits)
  with Cons show ?case by auto
qed auto

lemma cohort_walk_base:
  assumes "length members \<le> b" "b \<le> m"
  shows "take b (cohort_walk tied b m members cutoff es) = cohort_walk tied b b members cutoff es"
  using assms
proof (induction es arbitrary: members cutoff)
  case (Cons e es)
  have full: "take b (cohort_walk tied b m (members @ xs) c ys) = members" if "length members = b" for xs c ys
    using cohort_walk_prefix [of tied b m "members @ xs" c ys] that by auto
  show ?case
  proof (cases "length members = b")
    case True
    then show ?thesis using full [of "[]"] full [of "[e]"] by (auto simp: cohort_walk_full)
  next
    case False
    with Cons.prems Cons.IH [of "members @ [e]"] Cons.IH [of members] show ?thesis by auto
  qed
qed simp

end
