(* ===== verification/Koth_Mirror.thy ===== *)
theory Koth_Mirror
  imports Koth_Fold
begin

section \<open>Where the platform's fold is the validator's fold\<close>

text \<open>
  The platform re-implements the validators' fold over its own row type, and both files say that
  the copies have to agree. This theory states the rows for which they do (\<open>mirrored\<close>) and
  proves it, function by function, up to the champion and the tail of \<^verbatim>\<open>project_koth\<close>. The
  conditions of \<open>mirrored\<close> are the boundary of the agreement: a row outside them is read
  differently by the two programs.
\<close>

subsection \<open>Sorting under a map\<close>

lemma sort_key_transfer:
  assumes "\<And>x y. x \<in> set xs \<Longrightarrow> y \<in> set xs \<Longrightarrow> f (g x) \<le> f (g y) \<longleftrightarrow> k x \<le> k y"
  shows "sort_key f (map g xs) = map g (sort_key k xs)"
  using assms
proof (induction xs)
  case (Cons x xs)
  have step: "set ys \<subseteq> set (x # xs) \<Longrightarrow> insort_key f (g x) (map g ys) = map g (insort_key k x ys)" for ys
    using Cons.prems by (induction ys) auto
  have "sort_key f (map g xs) = map g (sort_key k xs)" using Cons by simp
  then show ?case using step [of "sort_key k xs"] by (simp add: subset_insertI)
qed simp

lemma keep_first_map: "keep_first f S (map g xs) = map g (keep_first (f \<circ> g) S xs)"
  by (induction "f \<circ> g" S xs rule: keep_first.induct) auto

lemma find_map_transfer:
  "(\<And>x. x \<in> set xs \<Longrightarrow> P (g x) \<longleftrightarrow> Q x) \<Longrightarrow> find P (map g xs) = map_option g (find Q xs)"
  by (induction xs) auto

subsection \<open>The order of agent ids\<close>

text \<open>\<^verbatim>\<open>str(UUID)\<close> is compared as text by the platform and as an integer by the validator;
  the fixed width and the order of the hexadecimal digits make the two orders the same.\<close>

lemma list_less_append:
  fixes a b :: "'a :: linorder list"
  shows "length a = length b \<Longrightarrow> a @ c < b @ d \<longleftrightarrow> a < b \<or> a = b \<and> c < d"
  by (induction a b rule: list_induct2) auto

lemma hex_digit_less: "m < 16 \<Longrightarrow> n < 16 \<Longrightarrow> hex_digit m < hex_digit n \<longleftrightarrow> m < n"
proof -
  define ds where "ds = ''0123456789abcdef''"
  have ds: "sorted_wrt (<) ds" "length ds = 16" "\<And>i. hex_digit i = ds ! i"
    unfolding ds_def hex_digit_def by code_simp+
  then have up: "hex_digit i < hex_digit j" if "i < j" "j < 16" for i j
    using sorted_wrt_nth_less [OF ds(1) that(1)] that(2) by simp
  show "m < 16 \<Longrightarrow> n < 16 \<Longrightarrow> hex_digit m < hex_digit n \<longleftrightarrow> m < n"
    using up [of m n] up [of n m] by (cases m n rule: linorder_cases) auto
qed

lemma div_mod_less: "v < w \<longleftrightarrow> v div 16 < w div 16 \<or> v div 16 = w div 16 \<and> v mod 16 < w mod (16 :: nat)"
proof -
  have *: "16 * a + r < 16 * b + t \<longleftrightarrow> a < b \<or> a = b \<and> r < t" if "r < 16" "t < 16" for a b r t :: nat
    using that by arith
  show ?thesis using * [of "v mod 16" "w mod 16" "v div 16" "w div 16"] by simp
qed

lemma hex_nat_less: "v < 16 ^ k \<Longrightarrow> w < 16 ^ k \<Longrightarrow> hex_nat k v < hex_nat k w \<longleftrightarrow> v < w"
proof (induction k arbitrary: v w)
  case (Suc k)
  have vw: "v div 16 < 16 ^ k" "w div 16 < 16 ^ k" using Suc.prems by (auto simp: less_mult_imp_div_less)
  have "hex_nat (Suc k) v < hex_nat (Suc k) w \<longleftrightarrow>
      v div 16 < w div 16 \<or> v div 16 = w div 16 \<and> v mod 16 < w mod 16"
    using Suc.IH [OF vw] hex_nat_inj [OF vw] by (auto simp: list_less_append hex_digit_less)
  then show ?case using div_mod_less [of v w] by simp
qed simp

lemma uuid_str_less:
  assumes "v < 2 ^ 128" "w < 2 ^ 128" shows "uuid_str v < uuid_str w \<longleftrightarrow> v < w"
proof -
  define g h where "g = hex_nat 32 v" and "h = hex_nat 32 w"
  have len: "length g = 32" "length h = 32" by (simp_all add: g_def h_def)
  have step: "take m x @ take n (drop m x) = take (m + n) x" for m n and x :: string by (simp add: take_add)
  have cut: "take 8 x @ take 4 (drop 8 x) @ take 4 (drop 12 x) @ take 4 (drop 16 x) @ drop 20 x = x" for x :: string
    using step [of 8 x 4] step [of 12 x 4] step [of 16 x 4] by (simp flip: append_assoc)
  have "uuid_str v < uuid_str w \<longleftrightarrow>
      take 8 g @ take 4 (drop 8 g) @ take 4 (drop 12 g) @ take 4 (drop 16 g) @ drop 20 g
      < take 8 h @ take 4 (drop 8 h) @ take 4 (drop 12 h) @ take 4 (drop 16 h) @ drop 20 h"
    by (simp add: uuid_str_def Let_def g_def [symmetric] h_def [symmetric] list_less_append len)
  then have "uuid_str v < uuid_str w \<longleftrightarrow> g < h" by (simp only: cut)
  also have "\<dots> \<longleftrightarrow> v < w" unfolding g_def h_def by (rule hex_nat_less) (use assms in simp_all)
  finally show ?thesis .
qed

lemma uuid_str_le:
  "v < 2 ^ 128 \<Longrightarrow> w < 2 ^ 128 \<Longrightarrow> uuid_str v \<le> uuid_str w \<longleftrightarrow> v \<le> w"
  using uuid_str_less [of w v] by (simp add: not_less [symmetric])

subsection \<open>The rows both programs read alike\<close>

text \<open>
  \<open>mirrored\<close> collects what the agreement needs of a served row: the wire constraints and the
  eligibility the served ledger has already been filtered by; no confirmation receipt and no
  in-row confirmation bundle (both are evidence the two programs weigh differently); no factor on
  a version-9 row and no curve beyond version 4 (read differently); a composite and an effective
  score that are positive together (the platform filters the former, the validator the latter);
  and a standard error whose \<^verbatim>\<open>pow\<close> square is its product (the platform writes
  \<^verbatim>\<open>se ** 2\<close>, the validator \<^verbatim>\<open>se * se\<close>).
\<close>

definition squares_exactly :: "libm \<Rightarrow> pyfloat \<Rightarrow> bool" where
  "squares_exactly M x \<longleftrightarrow> lm_pow M x (Fin 2) = fmul x x"

definition mirrored :: "libm \<Rightarrow> ledger_entry \<Rightarrow> bool" where
  "mirrored M e \<longleftrightarrow> wire_entry e \<and> agent_id e < 2 ^ 128 \<and> entry_eligible e
     \<and> v9_confirmation e = None \<and> confirmation_composites e = None
     \<and> (efficiency_factor e = None \<or> entry_version e \<noteq> 9)
     \<and> efficiency_curve_version e \<in> {None, Some 3, Some 4}
     \<and> flt (Fin 0) (composite e) = flt (Fin 0) (effective_composite e)
     \<and> opt_all (\<lambda>s. squares_exactly M s \<and> squares_exactly M (fmul s (efficiency_stderr_scale e))) (entry_stderr e)"

lemma mirroredD:
  assumes "mirrored M e"
  shows "wire_entry e" "v9_confirmation e = None" "confirmation_composites e = None" "agent_id e < 2 ^ 128"
  using assms by (simp_all add: mirrored_def)

lemma lift_fields [simp]:
  "ke_miner_hotkey (koth_lift r e) = miner_hotkey e" "ke_agent_id (koth_lift r e) = agent_id e"
  "ke_first_seen (koth_lift r e) = first_seen e" "ke_composite_stderr (koth_lift r e) = composite_stderr e"
  "ke_efficiency_bonus (koth_lift r e) = efficiency_bonus e"
  "ke_efficiency_factor (koth_lift r e) = efficiency_factor e"
  "ke_efficiency_curve_version (koth_lift r e) = efficiency_curve_version e"
  "ke_dueling_season_id (koth_lift r e) = dueling_season_id e" "ke_dueling (koth_lift r e) = dueling e"
  "ke_duel_records (koth_lift r e) = lift_records e (duel_history e)"
  "ke_dueling_records (koth_lift r e) = lift_records e (confirmation_history e)"
  by (simp_all add: koth_lift_def)

lemma lift_version: "wire_entry e \<Longrightarrow> ke_bench_version (koth_lift r e) = entry_version e"
  by (auto simp: koth_lift_def entry_version_def wire_entry_def opt_all_def DEFAULT_BENCH_VERSION_def split: option.splits)

lemma lift_season: "koth_entry_season (koth_lift r e) = entry_season e"
  by (simp add: koth_entry_season_def entry_season_def entry_dueling_def split: option.split)

lemma lift_is_dueling: "mirrored M e \<Longrightarrow> koth_is_dueling_entry (koth_lift r e) = is_dueling_entry e"
  by (simp add: koth_is_dueling_entry_def is_dueling_entry_def lift_version mirrored_def)

lemma lift_dueling:
  assumes "mirrored M a" "mirrored M b"
  shows "koth_is_dueling_entry (koth_lift r a) = is_dueling_entry a"
    and "koth_dueling_fold_ready (koth_lift r a) = dueling_fold_ready a"
    and "koth_dueling_incomparable (koth_lift r a) (koth_lift t b) = dueling_incomparable a b"
    and "koth_dueling_pair_mask (koth_lift r a) (koth_lift t b) = dueling_pair_mask a b"
proof -
  have v: "ke_bench_version (koth_lift r e) = entry_version e" if "mirrored M e" for r e
    using that by (simp add: lift_version mirrored_def)
  note d = lift_is_dueling
  show "koth_is_dueling_entry (koth_lift r a) = is_dueling_entry a"
    "koth_dueling_fold_ready (koth_lift r a) = dueling_fold_ready a"
    using d assms by (simp_all add: koth_dueling_fold_ready_def dueling_fold_ready_def lift_season)
  show i: "koth_dueling_incomparable (koth_lift r a) (koth_lift t b) = dueling_incomparable a b"
    using d v assms by (simp add: koth_dueling_incomparable_def dueling_incomparable_def lift_season)
  show "koth_dueling_pair_mask (koth_lift r a) (koth_lift t b) = dueling_pair_mask a b"
    using d i assms by (simp add: koth_dueling_pair_mask_def dueling_pair_mask_def entry_dueling_def)
qed

subsection \<open>Efficiency and scores\<close>

lemma lift_curve: "mirrored M e \<Longrightarrow> koth_efficiency_curve (koth_lift r e) = efficiency_curve e"
  by (auto simp: mirrored_def koth_efficiency_curve_def efficiency_curve_def is_factor_curve_def
      CURVE_VERSION_BOUNDED_FACTOR_def CURVE_VERSION_UNBOUNDED_FACTOR_def)

lemma lift_factor: "mirrored M e \<Longrightarrow> koth_bounded_factor (koth_lift r e) = bounded_efficiency_factor e"
  using lift_curve [of M e r]
  by (auto simp: mirrored_def koth_bounded_factor_def bounded_efficiency_factor_def lift_version
      CURVE_VERSION_UNBOUNDED_FACTOR_def split: option.splits)

lemma lift_multiplier: "mirrored M e \<Longrightarrow> koth_efficiency_multiplier (koth_lift r e) = efficiency_multiplier e"
  by (simp add: koth_efficiency_multiplier_def efficiency_multiplier_def lift_factor split: option.split)

lemma lift_efficiency:
  assumes "mirrored M e"
  shows "koth_adjusted_composite (koth_lift r e) q = efficiency_adjusted_composite e q"
    and "koth_score_ceiling (koth_lift r e) = effective_score_ceiling e"
    and "koth_stderr_scale (koth_lift r e) = efficiency_stderr_scale e"
  using lift_curve [OF assms, of r] lift_factor [OF assms, of r] lift_multiplier [OF assms, of r]
  by (simp_all add: koth_adjusted_composite_def efficiency_adjusted_composite_def
      bounded_efficiency_adjusted_quality_def koth_score_ceiling_def effective_score_ceiling_def
      koth_stderr_scale_def efficiency_stderr_scale_def CURVE_VERSION_UNBOUNDED_FACTOR_def
      split: option.split)

lemma lift_quality_primary:
  assumes "\<forall>e\<in>set es. mirrored M e"
  shows "koth_quality_primary (map (\<lambda>e. koth_lift (f e) e) es) = quality_primary_efficiency_active es"
  using assms by (simp add: koth_quality_primary_def quality_primary_efficiency_active_def list_ex_iff lift_factor [of M] cong: bex_cong)

lemma lift_quality_primary_pair:
  assumes "mirrored M a" "mirrored M b"
  shows "koth_quality_primary [koth_lift r a, koth_lift t b] = quality_primary_efficiency_active [a, b]"
  using assms by (simp add: koth_quality_primary_def quality_primary_efficiency_active_def lift_factor)

lemma unit_in_range: "unit64 x \<Longrightarrow> in_score_range x"
  by (auto simp: in_score_range_def fle_def elim: unit64E)

lemma koth_history_eq:
  assumes "wire_entry e" shows "koth_confirmation_history e = entry_confirmation_history e"
proof (cases "confirmation_history e")
  case (Some records)
  have keep: "filter (\<lambda>r. cr_seed r \<ge> 0 \<and> in_score_range (cr_composite r)) records = records"
    using assms Some by (auto simp: wire_entry_def opt_all_def list_all_iff wire_record_def unit_in_range
        intro!: filter_True)
  have "group_pairs [] (map (\<lambda>r. (cr_seed r, cr_composite r)) records) = [] \<longleftrightarrow> records = []"
    using group_pairs_keys [of "[]" "map (\<lambda>r. (cr_seed r, cr_composite r)) records"] by auto
  with Some keep show ?thesis
    by (simp add: koth_confirmation_history_def entry_confirmation_history_def Let_def
        CONFIRMATION_SEED_CEILING_def TOP5_MAX_CONFIRMATION_SEEDS_def)
qed (simp add: koth_confirmation_history_def entry_confirmation_history_def)

lemma history_nonneg:
  assumes "wire_entry e" "entry_confirmation_history e = Some h" "k \<in> set (dict_keys h)" shows "0 \<le> k"
proof -
  from assms(2) obtain records where "confirmation_history e = Some records" and h: "h = take TOP5_MAX_CONFIRMATION_SEEDS (sort_key fst (map (\<lambda>(s, vs). (s, median vs))
       (group_pairs [] (map (\<lambda>r. (cr_seed r, cr_composite r))
         (filter (\<lambda>r. cr_seed r \<ge> 0 \<and> in_score_range (cr_composite r)) records)))))"
    by (auto simp: entry_confirmation_history_def Let_def split: option.splits if_splits)
  let ?g = "group_pairs [] (map (\<lambda>r. (cr_seed r, cr_composite r))
         (filter (\<lambda>r. cr_seed r \<ge> 0 \<and> in_score_range (cr_composite r)) records))"
  from assms(3) obtain v where "(k, v) \<in> set h" by auto
  then obtain vs where "(k, vs) \<in> set ?g" unfolding h by (auto dest!: in_set_takeD)
  then have "fst (k, vs) \<in> fst ` set ?g" by (rule imageI)
  then have "k \<in> set (dict_keys ?g)" by (simp only: list.set_map fst_conv)
  then show ?thesis unfolding group_pairs_keys by auto
qed

lemma history_in_range:
  "wire_entry e \<Longrightarrow> entry_confirmation_history e = Some h \<Longrightarrow> list_ex (\<lambda>x. \<not> in_score_range x) (dict_values h) = False"
  using history_unit [of e h] unit_in_range by (force simp: list_ex_iff)

lemma align_zip:
  assumes "distinct (dict_keys (out @ h))" "\<forall>k\<in>set (dict_keys h). 0 \<le> k"
  shows "align_seeds out h = Some (out @ h)"
  using assms
proof (induction out h rule: align_seeds.induct)
  case (2 out s c rest)
  then show ?case by (auto simp: update_new)
qed simp

lemma lift_pairs_history:
  assumes "mirrored M e"
  shows "lift_pairs e = (case entry_confirmation_history e of
     Some h \<Rightarrow> if length h \<ge> 2 then Some (dict_values h, dict_keys h) else None | None \<Rightarrow> None)"
  using assms by (auto simp: lift_pairs_def koth_history_eq mirroredD Let_def split: option.splits)

text \<open>The platform keeps a row's seeds only when it has two of them; the validator keeps a single
  one, which no comparison can use.\<close>

lemma lift_seed_composites:
  assumes "mirrored M e"
  shows "koth_seed_composites (koth_lift r e) =
     (case entry_seed_composites e None of Some h \<Rightarrow> if length h \<ge> 2 then Some h else None | None \<Rightarrow> None)"
proof (cases "entry_confirmation_history e")
  case None
  with assms have "koth_seed_composites (koth_lift r e) = None"
    by (simp add: koth_seed_composites_def koth_confirmations_def koth_lift_def lift_pairs_history)
  moreover have "entry_seed_composites e None = None"
    using None mirroredD [OF assms] by (simp add: entry_seed_composites_def entry_confirmations_def)
  ultimately show ?thesis by simp
next
  case (Some h)
  have "align_seeds [] (zip (dict_keys h) (dict_values h)) = Some h"
    using align_zip [of "[]" h] history_distinct [OF Some] history_nonneg [OF mirroredD(1) [OF assms] Some]
    by (simp add: zip_map_fst_snd)
  then show ?thesis
    using Some assms history_in_range [OF mirroredD(1) [OF assms] Some] mirroredD [OF assms]
    by (simp add: koth_seed_composites_def koth_confirmations_def koth_lift_def lift_pairs_history [OF assms]
        entry_seed_composites_def)
qed

lemma lift_continual:
  assumes "mirrored M e" shows "koth_continual_composite (koth_lift r e) = quality_composite e"
proof -
  note e = mirroredD [OF assms]
  have q: "quality_composite e = continual_composite e" by (simp add: quality_composite_def e)
  show ?thesis
  proof (cases "entry_confirmation_history e")
    case None
    with assms e show ?thesis
      by (simp add: q continual_composite_def koth_continual_composite_def koth_lift_def koth_confirmations_def
          lift_pairs_history [OF assms] lift_waves_def koth_history_eq entry_confirmations_def validated_composites_def
          split: option.split)
  next
    case (Some h)
    have len: "1 \<le> length h" using history_length [OF Some] by simp
    have range: "list_ex (\<lambda>x. \<not> in_score_range x) (dict_values h) = False" by (rule history_in_range [OF e(1) Some])
    have srt: "sort_key fst h = h" by (rule sort_key_sorted_id [OF history_sorted [OF Some]])
    have med: "median (sort xs) = median xs" for xs
      by (simp add: median_def sorted_sort_id)
    have all: "list_ex (\<lambda>x. \<not> in_score_range x) xs \<longleftrightarrow> \<not> list_all in_score_range xs" for xs
      by (simp add: list_ex_iff list_all_iff)
    show ?thesis
      using len range e Some
      by (auto simp: q continual_composite_def koth_continual_composite_def koth_lift_def koth_confirmations_def
          lift_pairs_history [OF assms] lift_waves_def koth_history_eq validated_composites_def Let_def srt med all
          split: option.split)
  qed
qed

lemma lift_effective:
  "mirrored M e \<Longrightarrow> koth_effective_composite (koth_lift r e) = effective_composite e"
  by (simp add: koth_effective_composite_def effective_composite_def lift_continual lift_efficiency)

lemma lift_dethrone_composite:
  "mirrored M e \<Longrightarrow> koth_dethrone_composite (koth_lift r e) qp = dethrone_composite e qp"
  by (simp add: koth_dethrone_composite_def dethrone_composite_def lift_continual lift_effective)

lemma lift_stderr: "koth_stderr (koth_lift r e) = entry_stderr e"
  by (simp add: koth_stderr_def entry_stderr_def)

lemma lift_seed_score: "mirrored M e \<Longrightarrow> koth_seed_score qp (koth_lift r e) q = seed_score qp e q"
  by (simp add: koth_seed_score_def seed_score_def lift_efficiency)

subsection \<open>Pairing\<close>

lemma lift_record_masked:
  assumes "mirrored M e" "v9_confirmation e = None"
  shows "koth_record_masked_composite (koth_lift r e)
      \<lparr>dsr_seed = cr_seed c, dsr_bench_version = cr_bench_version c, dsr_report = cr_dueling c\<rparr> owners
    = record_masked_composite e c owners"
  using assms
  by (simp add: koth_record_masked_composite_def record_masked_composite_def lift_season entry_dueling_def
      lift_version mirroredD split: option.split)

lemma window_eq:
  assumes "wire_entry e" "confirmation_history e = Some records" "entry_confirmation_history e = Some h"
  shows "take CONFIRMATION_SEED_CEILING (sort (remdups (map cr_seed records))) = dict_keys h"
proof -
  have keep: "filter (\<lambda>r. cr_seed r \<ge> 0 \<and> in_score_range (cr_composite r)) records = records"
    using assms(1,2) by (auto simp: wire_entry_def opt_all_def list_all_iff wire_record_def unit_in_range
        intro!: filter_True)
  let ?g = "group_pairs [] (map (\<lambda>r. (cr_seed r, cr_composite r)) records)"
  have h: "h = take TOP5_MAX_CONFIRMATION_SEEDS (sort_key fst (map (\<lambda>(s, vs). (s, median vs)) ?g))"
    using assms(2,3) keep by (auto simp: entry_confirmation_history_def Let_def split: if_splits)
  have "map fst (sort_key fst xs) = sort (map fst xs)" for xs :: "(int \<times> pyfloat) list"
    using sort_key_map [of id fst xs] by (simp add: id_def comp_def)
  then have "dict_keys h = take TOP5_MAX_CONFIRMATION_SEEDS (sort (dict_keys ?g))"
    by (simp add: h take_map [symmetric] case_prod_beta comp_def)
  moreover have "sort (remdups (map cr_seed records)) = sort (dict_keys ?g)"
    by (rule sorted_distinct_set_unique) (auto simp: group_pairs_keys simp del: set_map, force+)
  ultimately show ?thesis by (simp add: CONFIRMATION_SEED_CEILING_def TOP5_MAX_CONFIRMATION_SEEDS_def)
qed

lemma lift_dueling_seeds:
  assumes "mirrored M e"
  shows "koth_dueling_seed_composites (koth_lift r e) owners = dueling_seed_composites e owners"
proof (cases "confirmation_history e")
  case None
  then show ?thesis
    by (simp add: koth_dueling_seed_composites_def dueling_seed_composites_def lift_records_def
        entry_confirmation_history_def)
next
  case (Some records)
  note e = mirroredD [OF assms]
  show ?thesis
  proof (cases "records = []")
    case True
    with Some e show ?thesis
      by (simp add: koth_dueling_seed_composites_def dueling_seed_composites_def lift_records_def
          entry_confirmation_history_def)
  next
    case False
    let ?mk = "\<lambda>r. \<lparr>dsr_seed = cr_seed r, dsr_bench_version = cr_bench_version r, dsr_report = cr_dueling r\<rparr>"
    have "koth_confirmation_history e \<noteq> None"
      using Some False group_pairs_keys [of "[]" "map (\<lambda>r. (cr_seed r, cr_composite r)) records"]
      by (auto simp: koth_confirmation_history_def Let_def)
    then obtain h where h: "entry_confirmation_history e = Some h" by (auto simp: koth_history_eq e(1))
    have "record_window (map ?mk records) = dict_keys h"
      using window_eq [OF e(1) Some h] by (simp add: record_window_def comp_def)
    then have rows: "map (\<lambda>d. if dsr_seed d \<notin> set (record_window (map ?mk records)) then []
          else case koth_record_masked_composite (koth_lift r e) d owners of
                 None \<Rightarrow> [] | Some v \<Rightarrow> [(dsr_seed d, v)]) (map ?mk records)
        = map (\<lambda>c. if cr_seed c \<notin> set (dict_keys h) then []
          else case record_masked_composite e c owners of None \<Rightarrow> [] | Some v \<Rightarrow> [(cr_seed c, v)]) records"
      using lift_record_masked [OF assms e(2)] by (simp split: option.split)
    show ?thesis
      unfolding koth_dueling_seed_composites_def dueling_seed_composites_def lift_fields lift_records_def Some h e(2)
      using False by (simp only: rows option.case prod.case Let_def simp_thms if_False if_True map_is_Nil_conv)
  qed
qed

lemma length_common_le: "length (common_seeds a b) \<le> length a" "length (common_seeds a b) \<le> length b"
proof -
  have *: "length (common_seeds a b) = card (set (dict_keys a) \<inter> set (dict_keys b))"
    by (simp add: common_seeds_def length_remdups_card_conv Int_def)
  have "card (set (dict_keys a)) \<le> length a" "card (set (dict_keys b)) \<le> length b"
    using card_length [of "dict_keys a"] card_length [of "dict_keys b"] by simp_all
  then show "length (common_seeds a b) \<le> length a" "length (common_seeds a b) \<le> length b"
    unfolding * by (meson Int_lower1 Int_lower2 card_mono finite_set le_trans)+
qed

lemma lift_paired_maps:
  assumes "mirrored M a" "mirrored M b"
  shows "koth_paired_seed_maps (koth_lift r a) (koth_lift t b) = paired_seed_maps a b
    \<or> koth_paired_seed_maps (koth_lift r a) (koth_lift t b) = None
      \<and> (\<exists>am bm. paired_seed_maps a b = Some (am, bm) \<and> length (common_seeds am bm) < 2)"
proof (cases "is_dueling_entry a \<and> is_dueling_entry b")
  case True
  have "entry_seed_composites e (Some m) = dueling_seed_composites e m" if "mirrored M e" for e m
    using that by (simp add: entry_seed_composites_def mirroredD)
  with True assms show ?thesis
    by (auto simp: koth_paired_seed_maps_def paired_seed_maps_def lift_dueling [of M] lift_dueling_seeds Let_def
        split: option.split)
next
  case False
  have short: "length (common_seeds am bm) < 2" if "length am < 2 \<or> length bm < 2" for am bm :: "(int, pyfloat) dict"
    using that length_common_le [of am bm] by linarith
  from False assms show ?thesis
    by (auto simp: koth_paired_seed_maps_def paired_seed_maps_def lift_dueling [of M] lift_seed_composites Let_def
        not_le short split: option.split)
qed

text \<open>The statistic as the validator returns it.\<close>

definition paired_triple :: "paired_stat \<Rightarrow> pyfloat \<times> pyfloat \<times> pyfloat" where
  "paired_triple p = (ps_mean_difference p, ps_champion_reference p, ps_standard_error p)"

lemma lift_paired_statistic:
  assumes "mirrored M a" "mirrored M b"
  shows "map_option paired_triple (koth_paired_statistic M (koth_lift r a) (koth_lift t b)) = paired_statistic M a b"
  using lift_paired_maps [OF assms, of r t]
proof
  assume "koth_paired_seed_maps (koth_lift r a) (koth_lift t b) = paired_seed_maps a b"
  then show ?thesis
    by (cases "paired_seed_maps a b")
      (auto simp: koth_paired_statistic_def paired_statistic_def Let_def paired_triple_def
        lift_quality_primary_pair [OF assms] lift_seed_score [OF assms(1)] lift_seed_score [OF assms(2)])
qed (auto simp: koth_paired_statistic_def paired_statistic_def Let_def)

lemma lift_shared_count:
  assumes "mirrored M a" "mirrored M b"
  shows "koth_shared_seed_count (koth_lift r a) (koth_lift t b) = shared_seed_count a b
    \<or> koth_shared_seed_count (koth_lift r a) (koth_lift t b) < 2 \<and> shared_seed_count a b < 2"
  using lift_paired_maps [OF assms, of r t]
  by (auto simp: koth_shared_seed_count_def shared_seed_count_def)

lemma lift_shared_count_ge:
  assumes "mirrored M a" "mirrored M b" "2 \<le> k"
  shows "k \<le> int (koth_shared_seed_count (koth_lift r a) (koth_lift t b)) \<longleftrightarrow> k \<le> int (shared_seed_count a b)"
  using lift_shared_count [OF assms(1,2), of r t] assms(3) by auto

subsection \<open>The dethrone decision\<close>

definition koth_rules :: "bool \<Rightarrow> bool \<Rightarrow> crown_gate option \<Rightarrow> fold_rules" where
  "koth_rules clamp cap gate = \<lparr>fr_margin = KOTH_MARGIN, fr_dethrone_z = KOTH_DETHRONE_Z,
     fr_ceiling_band_clamp = clamp, fr_statistical_band_cap = cap, fr_crown_gate = gate\<rparr>"

lemma koth_rules_fields [simp]:
  "fr_margin (koth_rules clamp cap gate) = KOTH_MARGIN" "fr_dethrone_z (koth_rules clamp cap gate) = KOTH_DETHRONE_Z"
  "fr_ceiling_band_clamp (koth_rules clamp cap gate) = clamp" "fr_crown_gate (koth_rules clamp cap gate) = gate"
  "fr_statistical_band_cap (koth_rules clamp cap gate) = cap"
  by (simp_all add: koth_rules_def)

lemma dethrone_z_positive: "fle KOTH_DETHRONE_Z (Fin 0) = False"
  unfolding KOTH_DETHRONE_Z_def by code_simp

lemma lift_bands:
  assumes "mirrored M a" "mirrored M b"
  shows "koth_dethrone_band_scale M (koth_lift r a) (koth_lift t b) x = dethrone_band_scale M a b x"
    and "koth_ceiling_capped_band band (koth_lift r a) (koth_lift t b) x act = ceiling_capped_band band a b x act"
  using lift_quality_primary_pair [OF assms, of r t] mirroredD(1) [OF assms(1)] mirroredD(1) [OF assms(2)]
    lift_efficiency(2) [OF assms(1), of r]
  by (simp_all add: koth_dethrone_band_scale_def dethrone_band_scale_def koth_ceiling_capped_band_def
      ceiling_capped_band_def lift_version)

lemma lift_unpaired:
  assumes "mirrored M a" "mirrored M b"
  shows "koth_unpaired_lead M (koth_lift r a) (koth_lift t b) = unpaired_statistical_band a b KOTH_DETHRONE_Z"
proof (cases "entry_stderr a = None \<or> entry_stderr b = None")
  case True
  then show ?thesis
    by (auto simp: koth_unpaired_lead_def unpaired_statistical_band_def lift_stderr Let_def split: option.split)
next
  case False
  then obtain sa sb where se: "entry_stderr a = Some sa" "entry_stderr b = Some sb" by auto
  then have sq: "lm_pow M sa (Fin 2) = fmul sa sa" "lm_pow M sb (Fin 2) = fmul sb sb"
    "lm_pow M (fmul sa (efficiency_stderr_scale a)) (Fin 2)
       = fmul (fmul sa (efficiency_stderr_scale a)) (fmul sa (efficiency_stderr_scale a))"
    "lm_pow M (fmul sb (efficiency_stderr_scale b)) (Fin 2)
       = fmul (fmul sb (efficiency_stderr_scale b)) (fmul sb (efficiency_stderr_scale b))"
    using assms by (simp_all add: mirrored_def opt_all_def squares_exactly_def)
  show ?thesis
    unfolding koth_unpaired_lead_def unpaired_statistical_band_def lift_stderr dethrone_z_positive
      lift_quality_primary_pair [OF assms] lift_efficiency(3) [OF assms(1)] lift_efficiency(3) [OF assms(2)] se
    by (simp add: sq Let_def)
qed

lemma lift_duel_records:
  assumes "mirrored M e"
  shows "koth_entry_duel_records (koth_lift r e) owners = entry_duel_records e owners"
proof (cases "duel_history e")
  case None
  then show ?thesis by (simp add: koth_entry_duel_records_def entry_duel_records_def lift_records_def)
next
  case (Some rs)
  note e = mirroredD [OF assms] lift_version [of e r]
  let ?mk = "\<lambda>r. \<lparr>dsr_seed = cr_seed r, dsr_bench_version = cr_bench_version r, dsr_report = cr_dueling r\<rparr>"
  have rows: "map (\<lambda>r. case dsr_report r of None \<Rightarrow> []
            | Some report \<Rightarrow> if dsr_seed r < 0 \<or> owner_key report \<noteq> ow
                   \<or> dsr_bench_version r \<noteq> ke_bench_version (koth_lift t e) then []
                else let v = dueling_composite (datagen_raw report) (datagen_gate report) (columns report) owners
                     in if in_score_range v
                        then [(season_seed_key (season_id report) (season_index report) (dsr_seed r), v)]
                        else []) (map ?mk rs)
      = map (\<lambda>r. case cr_dueling r of None \<Rightarrow> []
            | Some report \<Rightarrow> if cr_seed r < 0 \<or> owner_key report \<noteq> ow
                   \<or> cr_bench_version r \<noteq> entry_version e then []
                else let v = dueling_composite (datagen_raw report) (datagen_gate report) (columns report) owners
                     in if in_score_range v
                        then [(season_seed_key (season_id report) (season_index report) (cr_seed r), v)]
                        else []) rs" for ow t
    using lift_version [OF e(1)] by (simp add: Let_def split: option.split)
  show ?thesis
  proof (cases "rs = [] \<or> dueling e = None")
    case True
    then show ?thesis
      by (auto simp: koth_entry_duel_records_def entry_duel_records_def lift_records_def entry_dueling_def
          Some collapse_records_def split: option.split)
  next
    case False
    then obtain report where rep: "dueling e = Some report" "rs \<noteq> []" by auto
    show ?thesis
      unfolding koth_entry_duel_records_def entry_duel_records_def lift_fields lift_records_def Some e(2) entry_dueling_def
      using rep by (simp only: rows [unfolded Let_def] option.case prod.case Let_def simp_thms if_False if_True)
  qed
qed

lemma lift_duel_statistic:
  assumes "mirrored M a" "mirrored M b"
  shows "duel_statistic_for M (koth_lift r a) (koth_lift t b) w = entry_duel_statistic M a b w"
proof -
  have "koth_duel_scored qp (koth_lift r e) rs = duel_scored qp e rs" if "mirrored M e" for qp r e rs
    using that by (simp add: koth_duel_scored_def duel_scored_def lift_efficiency)
  with assms show ?thesis
    by (simp add: duel_statistic_for_def entry_duel_statistic_def lift_dueling [OF assms]
        lift_duel_records lift_quality_primary_pair [OF assms] split: option.split)
qed

lemma lift_evidence_count:
  assumes "mirrored M a" "mirrored M b" "2 \<le> min_shared_seeds g"
  shows "min_shared_seeds g \<le> koth_crown_evidence_count M (koth_lift r a) (koth_lift t b) g
     \<longleftrightarrow> min_shared_seeds g \<le> crown_evidence_count M a b g"
  using lift_shared_count_ge [OF assms, of r t]
  by (auto simp: koth_crown_evidence_count_def crown_evidence_count_def koth_duel_governs_def duel_governs_def
      lift_dueling(1) [OF assms(1,2)] lift_dueling(1) [OF assms(2,1)] lift_duel_statistic [OF assms(1,2)]
      split: option.split)

lemma lift_ungated:
  assumes "mirrored M a" "mirrored M b"
  shows "dd_dethrones (ungated_dethrone_decision M clamp cap (koth_lift r a) (koth_lift t b))
      = (let (observed, required) = dethrone_scores M (koth_rules clamp cap g) a b in flt required observed)"
    and "dd_method (ungated_dethrone_decision M clamp cap (koth_lift r a) (koth_lift t b)) = Paired
      \<longleftrightarrow> paired_dethrone M a b KOTH_DETHRONE_Z \<noteq> None"
proof -
  note lifts = lift_quality_primary_pair [OF assms] lift_bands [OF assms] lift_unpaired [OF assms]
    lift_dethrone_composite [OF assms(1)] lift_dethrone_composite [OF assms(2)]
  note defs = ungated_dethrone_decision_def dethrone_scores_def paired_dethrone_def koth_rules_def
    dethrone_z_positive paired_triple_def Let_def
  note paired = lift_paired_statistic [OF assms, of r t, symmetric]
  show "dd_dethrones (ungated_dethrone_decision M clamp cap (koth_lift r a) (koth_lift t b))
      = (let (observed, required) = dethrone_scores M (koth_rules clamp cap g) a b in flt required observed)"
    by (cases "koth_paired_statistic M (koth_lift r a) (koth_lift t b)") (simp_all add: defs paired lifts)
  show "dd_method (ungated_dethrone_decision M clamp cap (koth_lift r a) (koth_lift t b)) = Paired
      \<longleftrightarrow> paired_dethrone M a b KOTH_DETHRONE_Z \<noteq> None"
    by (cases "koth_paired_statistic M (koth_lift r a) (koth_lift t b)") (simp_all add: defs paired lifts)
qed

lemma lift_duel_decision:
  assumes "mirrored M a" "mirrored M b"
  shows "dd_dethrones (duel_decision M g w clamp u (koth_lift r a) (koth_lift t b))
     = duel_beats M a b KOTH_MARGIN w (min_shared_seeds g) clamp"
  by (auto simp: duel_decision_def duel_beats_def lift_duel_statistic [OF assms] lift_bands [OF assms] Let_def
      split: option.split)

text \<open>A gate as the ledger serves it.\<close>

definition served_gate :: "crown_gate \<Rightarrow> bool" where
  "served_gate g \<longleftrightarrow> 2 \<le> min_shared_seeds g \<and> min_shared_seeds g \<le> 15 \<and> 1 \<le> standing_rank g \<and> standing_rank g \<le> 5
     \<and> opt_all (\<lambda>w. 2 \<le> w \<and> w \<le> 15) (duel_window g)"

lemma lift_takes:
  assumes "mirrored M a" "mirrored M b" "opt_all served_gate gate"
  shows "koth_takes M clamp cap gate (koth_lift r a) (koth_lift t b) = beats M (koth_rules clamp cap gate) a b"
proof (cases gate)
  case None
  then show ?thesis
    using lift_ungated(1) [OF assms(1,2), of clamp cap r t None]
    by (auto simp: koth_takes_def koth_dethrone_decision_def beats_def lift_dueling [of M] assms koth_rules_def Let_def)
next
  case (Some g)
  have two: "2 \<le> min_shared_seeds g" using assms(3) Some by (simp add: opt_all_def served_gate_def)
  note facts = lift_ungated(1) [OF assms(1,2), of clamp cap r t gate] lift_ungated(2) [OF assms(1,2), of clamp cap r t]
    lift_shared_count_ge [OF assms(1,2) two, of r t]
    lift_duel_decision [OF assms(1,2)] lift_dueling [OF assms(1,2)] lift_dueling(1) [OF assms(2,1)]
  show ?thesis
  proof (cases "koth_duel_governs (koth_lift r a) (koth_lift t b) (Some g)")
    case True
    then obtain w where w: "duel_window g = Some w" "duel_governs a b (Some g)"
      by (auto simp: koth_duel_governs_def duel_governs_def facts)
    with True Some facts(4) facts(7) show ?thesis
      by (simp add: koth_takes_def koth_dethrone_decision_def beats_def Let_def)
  next
    case False
    then have "\<not> duel_governs a b (Some g)" by (auto simp: koth_duel_governs_def duel_governs_def facts)
    with False Some facts(1-3) facts(7) show ?thesis
      by (auto simp: koth_takes_def koth_dethrone_decision_def beats_def Let_def not_le)
  qed
qed

subsection \<open>The pool\<close>

text \<open>The lift of a whole ledger: \<open>ranks\<close> gives each row its raw rank, which no fold reads.\<close>

abbreviation lift_with :: "(ledger_entry \<Rightarrow> nat) \<Rightarrow> ledger_entry \<Rightarrow> koth_entry" where
  "lift_with ranks \<equiv> \<lambda>e. koth_lift (ranks e) e"

lemma koth_entries_lifted: "\<exists>ranks. koth_entries_from_ledger es = map (lift_with ranks) es"
  unfolding koth_entries_from_ledger_def by (rule exI) (rule refl)

lemma lift_pool:
  assumes "\<forall>e\<in>set es. mirrored M e"
  shows "koth_fold_pool (map (lift_with ranks) es) = map (lift_with ranks) (scored_pool es)"
proof -
  have "flt (Fin 0) (ke_composite (lift_with ranks e)) \<and> koth_dueling_fold_ready (lift_with ranks e)
      \<longleftrightarrow> (entry_eligible e \<and> dueling_fold_ready e) \<and> flt (Fin 0) (effective_composite e)" if "e \<in> set es" for e
  proof -
    have e: "mirrored M e" using assms that by blast
    show ?thesis
      using e lift_dueling(2) [OF e e] by (auto simp: mirrored_def koth_lift_def)
  qed
  then show ?thesis
    by (simp add: koth_fold_pool_def scored_pool_def filter_eligible_def filter_map comp_def conj_commute
        cong: filter_cong)
qed

lemma dict_of_ids:
  assumes "distinct (map ke_agent_id xs)" "x \<in> set xs"
  shows "dict_get (dict_of (map (\<lambda>e. (ke_agent_id e, f e)) xs)) (ke_agent_id x) = Some (f x)"
proof -
  have "distinct (map fst (map (\<lambda>e. (ke_agent_id e, f e)) xs))" using assms(1) by (simp add: comp_def)
  then show ?thesis using assms(2) by (simp add: map_of_eq_Some_iff comp_def)
qed

lemma order_key_le:
  fixes a b a' b' :: pyfloat
  assumes "i < 2 ^ 128" "j < 2 ^ 128"
  shows "(False, a, b, s, uuid_str i) \<le> (False, a', b', s', uuid_str j) \<longleftrightarrow> (a, b, s, i) \<le> (a', b', s', j)"
  using uuid_str_le [OF assms] by (simp add: less_eq_prod_def)

lemma lift_ranked:
  assumes "\<forall>e\<in>set xs. mirrored M e" "distinct (map agent_id xs)"
  shows "koth_ranked_entries (map (lift_with ranks) xs) = map (lift_with ranks) (ranked_order xs)"
proof -
  let ?L = "lift_with ranks" and ?ks = "map (lift_with ranks) xs" and ?q = "quality_primary_efficiency_active xs"
  define quality where "quality = dict_of (map (\<lambda>k. (ke_agent_id k, koth_continual_composite k)) ?ks)"
  define effective where "effective = dict_of (map (\<lambda>k. (ke_agent_id k, koth_effective_composite k)) ?ks)"
  define key where "key k = score_order_key True (ke_composite k) (ke_first_seen k) (ke_agent_id k)
      (dict_get (if ?q then quality else effective) (ke_agent_id k)) (dict_get (if ?q then effective else []) (ke_agent_id k))" for k :: koth_entry
  have ids: "distinct (map ke_agent_id ?ks)" using assms(2) by (simp add: comp_def)
  have get: "dict_get quality (agent_id e) = Some (koth_continual_composite (?L e))"
      "dict_get effective (agent_id e) = Some (koth_effective_composite (?L e))" if "e \<in> set xs" for e
    unfolding quality_def effective_def
    using dict_of_ids [OF ids, of "?L e" koth_continual_composite] dict_of_ids [OF ids, of "?L e" koth_effective_composite] that
    by simp_all
  have key: "key (?L e) = (False, fneg (if ?q then quality_composite e else effective_composite e),
      fneg (effective_composite e), first_seen e, uuid_str (agent_id e))" if "e \<in> set xs" for e
    using assms(1) that get [OF that]
    by (simp add: key_def score_order_key_def Let_def lift_continual [of M] lift_effective [of M])
  have id: "agent_id e < 2 ^ 128" if "e \<in> set xs" for e
    using assms(1) that mirroredD(4) by blast
  have "sort_key key ?ks = map ?L (sort_key (ranking_key ?q) xs)"
    by (rule sort_key_transfer) (simp only: key ranking_key_def Let_def order_key_le id)
  moreover have "koth_ranked_entries ?ks = sort_key key ?ks"
    unfolding koth_ranked_entries_def rank_submissions_def key_def quality_def effective_def
      lift_quality_primary [OF assms(1)] by simp
  ultimately show ?thesis by (simp add: ranked_order_def)
qed

lemma lift_seniority: "koth_seniority_order (map (lift_with ranks) xs) = map (lift_with ranks) (first_seen_order xs)"
  by (simp add: koth_seniority_order_def first_seen_order_def sort_key_map comp_def
      seniority_key_def [abs_def])

lemma lift_opening:
  "koth_opening (map (lift_with ranks) xs) inc =
     map_option (map_prod (lift_with ranks) (map (lift_with ranks))) (walk_opening xs inc)"
proof -
  have "find (\<lambda>e. Some (ke_agent_id e) = inc) (map (lift_with ranks) xs)
      = map_option (lift_with ranks) (find (\<lambda>e. Some (agent_id e) = inc) xs)"
    by (rule find_map_transfer) simp
  then show ?thesis
    by (simp add: koth_opening_def walk_opening_def lift_seniority filter_map comp_def Let_def
        split: option.split list.split)
qed

lemma crown_walk_map:
  assumes "\<And>x y. x \<in> insert c (set xs) \<Longrightarrow> y \<in> insert c (set xs) \<Longrightarrow> T (g x) (g y) = S x y"
  shows "crown_walk T (g c) (map g xs) = g (crown_walk S c xs)"
  using assms
proof (induction xs arbitrary: c)
  case (Cons x xs)
  have "crown_walk T (g d) (map g xs) = g (crown_walk S d xs)" if "d = c \<or> d = x" for d
    using that Cons.prems by (intro Cons.IH) auto
  moreover have "T (g x) (g c) = S x c" by (rule Cons.prems) auto
  ultimately show ?case by (auto simp: if_distrib [of g])
qed simp

lemma walk_opening_subset:
  "walk_opening xs inc = Some (c, cs) \<Longrightarrow> insert c (set cs) \<subseteq> set xs"
proof -
  have "set (first_seen_order xs) = set xs" by (simp add: first_seen_order_def)
  then show "walk_opening xs inc = Some (c, cs) \<Longrightarrow> insert c (set cs) \<subseteq> set xs"
    by (auto simp: walk_opening_def Let_def find_Some_iff split: option.splits list.splits)
qed

lemma gated_opening_subset:
  assumes "c \<in> set xs" "gated_opening M xs g c = (d, ds)" shows "insert d (set ds) \<subseteq> set xs"
proof -
  have "set (first_seen_order xs) = set xs" by (simp add: first_seen_order_def)
  then show ?thesis
    using assms standing_in [of xs g]
    by (auto simp: gated_opening_def Let_def find_Some_iff split: option.splits list.splits if_splits)
qed

lemma lift_standing:
  assumes "\<forall>e\<in>set xs. mirrored M e" "distinct (map agent_id xs)"
  shows "koth_standing (map (lift_with ranks) xs) g = map (lift_with ranks) (standing_entries xs g)"
  by (simp add: koth_standing_def standing_entries_def lift_ranked [OF assms] take_map)

lemma lift_gated_opening:
  assumes "\<forall>e\<in>set xs. mirrored M e" "distinct (map agent_id xs)" "c \<in> set xs" "2 \<le> min_shared_seeds g"
  shows "koth_gated_opening M (map (lift_with ranks) xs) g (lift_with ranks c) =
     map_prod (lift_with ranks) (map (lift_with ranks)) (gated_opening M xs g c)"
proof -
  have "find (\<lambda>e. min_shared_seeds g \<le> koth_crown_evidence_count M e (lift_with ranks c) g)
        (map (lift_with ranks) (standing_entries xs g))
      = map_option (lift_with ranks) (find (\<lambda>e. min_shared_seeds g \<le> crown_evidence_count M e c g) (standing_entries xs g))"
  proof (rule find_map_transfer)
    fix e assume "e \<in> set (standing_entries xs g)"
    then have "e \<in> set xs" using standing_in by blast
    with assms show "min_shared_seeds g \<le> koth_crown_evidence_count M (lift_with ranks e) (lift_with ranks c) g
        \<longleftrightarrow> min_shared_seeds g \<le> crown_evidence_count M e c g" by (intro lift_evidence_count) auto
  qed
  then show ?thesis
    by (simp add: koth_gated_opening_def gated_opening_def lift_standing [OF assms(1,2)] lift_seniority
        filter_map comp_def Let_def image_image split: option.split list.split)
qed

lemma lift_champion:
  assumes "\<forall>e\<in>set xs. mirrored M e" "distinct (map agent_id xs)" "opt_all served_gate gate"
  shows "koth_champion M clamp cap gate inc (map (lift_with ranks) xs)
     = map_option (lift_with ranks) (champion M (koth_rules clamp cap gate) inc xs)"
proof (cases "walk_opening xs inc")
  case None
  then show ?thesis by (simp add: koth_champion_def champion_def lift_opening)
next
  case (Some p)
  then obtain c cs where p: "walk_opening xs inc = Some (c, cs)" by (cases p) auto
  note sub = walk_opening_subset [OF p]
  have walk: "crown_walk (koth_takes M clamp cap gate) (lift_with ranks d) (map (lift_with ranks) ds)
      = lift_with ranks (crown_walk (beats M (koth_rules clamp cap gate)) d ds)" if "insert d (set ds) \<subseteq> set xs" for d ds
    using that assms by (intro crown_walk_map lift_takes) blast+
  show ?thesis
  proof (cases gate)
    case None
    with p walk [OF sub] show ?thesis by (simp add: koth_champion_def champion_def lift_opening)
  next
    case (Some g)
    obtain d ds where d: "gated_opening M xs g c = (d, ds)" by force
    have "2 \<le> min_shared_seeds g" using assms(3) Some by (simp add: opt_all_def served_gate_def)
    with sub have "koth_gated_opening M (map (lift_with ranks) xs) g (lift_with ranks c)
        = (lift_with ranks d, map (lift_with ranks) ds)"
      using lift_gated_opening [OF assms(1,2), of c g ranks] d by simp
    moreover have "insert d (set ds) \<subseteq> set xs" using gated_opening_subset [OF _ d] sub by blast
    ultimately show ?thesis using p d walk [of d ds] Some by (simp add: koth_champion_def champion_def lift_opening)
  qed
qed

subsection \<open>The tail\<close>

lemma swap_pass_map:
  assumes "\<And>x y. x \<in> set xs \<Longrightarrow> y \<in> set xs \<Longrightarrow> T (g x) (g y) = S x y"
  shows "swap_pass T (map g xs) = map_prod (map g) id (swap_pass S xs)"
  using assms
proof (induction S xs rule: swap_pass.induct)
  case (1 S u l rest)
  have "T (g l) (g u) = S l u" by (rule "1.prems") auto
  moreover have "S l u \<Longrightarrow> swap_pass T (map g (u # rest)) = map_prod (map g) id (swap_pass S (u # rest))"
    by (rule "1.IH"(1), assumption, rule "1.prems") auto
  moreover have "\<not> S l u \<Longrightarrow> swap_pass T (map g (l # rest)) = map_prod (map g) id (swap_pass S (l # rest))"
    by (rule "1.IH"(2), assumption, rule "1.prems") auto
  ultimately show ?case by (cases "S l u") (auto split: prod.splits)
qed auto

lemma swap_passes_map:
  assumes "\<And>x y. x \<in> set xs \<Longrightarrow> y \<in> set xs \<Longrightarrow> T (g x) (g y) = S x y"
  shows "swap_passes T k (map g xs) = map g (swap_passes S k xs)"
  using assms
proof (induction k arbitrary: xs)
  case (Suc k)
  obtain ys b where ys: "swap_pass S xs = (ys, b)" by force
  have "set ys = set xs" using swap_pass_perm [of S xs] ys by (metis fst_conv mset_eq_setD)
  with Suc have "swap_passes T k (map g ys) = map g (swap_passes S k ys)" by (intro Suc.IH) auto
  with ys swap_pass_map [of xs T g S] Suc.prems show ?case by simp
qed simp

lemma lift_adjacent_order:
  assumes "\<forall>e\<in>set xs. mirrored M e"
  shows "koth_dueling_adjacent_order M (map (lift_with ranks) xs) = map (lift_with ranks) (dueling_adjacent_order M xs)"
proof -
  have "koth_adjacent_swaps M (lift_with ranks a) (lift_with ranks b) = adjacent_swaps M a b"
    if "a \<in> set xs" "b \<in> set xs" for a b
  proof -
    have ab: "mirrored M a" "mirrored M b" using assms that by auto
    show ?thesis
      using lift_paired_statistic [OF ab, of "ranks a" "ranks b", symmetric]
      by (cases "koth_paired_statistic M (lift_with ranks a) (lift_with ranks b)")
        (simp_all add: koth_adjacent_swaps_def adjacent_swaps_def lift_dueling [OF ab] paired_triple_def)
  qed
  then have "swap_passes (koth_adjacent_swaps M) k (map (lift_with ranks) xs)
      = map (lift_with ranks) (swap_passes (adjacent_swaps M) k xs)" for k by (rule swap_passes_map)
  moreover have "list_ex koth_is_dueling_entry (map (lift_with ranks) xs) = list_ex is_dueling_entry xs"
    using assms by (simp add: list_ex_iff lift_is_dueling [of M] cong: bex_cong)
  ultimately show ?thesis by (simp add: koth_dueling_adjacent_order_def dueling_adjacent_order_def)
qed

lemma lift_tail:
  assumes "\<forall>e\<in>set xs. mirrored M e" "distinct (map agent_id xs)"
  shows "koth_tail M (map (lift_with ranks) xs) (lift_with ranks c) d
     = map (lift_with ranks) (tail M xs c KOTH_TAIL_SIZE d)"
proof -
  let ?P = "\<lambda>e. miner_hotkey e \<noteq> miner_hotkey c"
  have ranked: "filter (\<lambda>e. ke_miner_hotkey e \<noteq> miner_hotkey c) (koth_ranked_entries (map (lift_with ranks) xs))
      = map (lift_with ranks) (sort_key (ranking_key (quality_primary_efficiency_active xs)) (filter ?P xs))"
    by (simp add: lift_ranked [OF assms] filter_map comp_def ranked_order_def sort_key_filter)
  have sub: "\<forall>e\<in>set (take n (keep_first f S (sort_key k (filter ?P xs)))). mirrored M e"
    "\<forall>e\<in>set (take n (sort_key k (filter ?P xs))). mirrored M e" for n f S and k :: "ledger_entry \<Rightarrow> rank_key"
    using assms(1) set_keep_first by (fastforce dest: in_set_takeD)+
  show ?thesis
    unfolding koth_tail_def tail_def Let_def KOTH_TAIL_SIZE_def
    by (simp add: ranked keep_first_map comp_def take_map lift_adjacent_order [OF sub(1)] lift_adjacent_order [OF sub(2)])
qed

lemma lift_weight_tied:
  assumes "mirrored M a" "mirrored M b"
  shows "koth_weight_tied M cap (koth_lift r a) (koth_lift t b) = weight_tied M (koth_rules clamp cap gate) a b"
  using lift_paired_statistic [OF assms, of r t, symmetric]
  by (cases "koth_paired_statistic M (koth_lift r a) (koth_lift t b)")
    (simp_all add: koth_weight_tied_def weight_tied_def lift_dueling [OF assms] lift_quality_primary_pair [OF assms]
      lift_continual [OF assms(1)] lift_continual [OF assms(2)] lift_effective [OF assms(1)] lift_effective [OF assms(2)]
      paired_dethrone_def dethrone_z_positive paired_triple_def)

lemma pool_groups_map:
  assumes "\<And>x y. x \<in> set xs \<Longrightarrow> y \<in> set xs \<Longrightarrow> T (g x) (g y) = S x y"
  shows "pool_groups T (map g xs) shares = pool_groups S xs shares"
  using assms
proof (induction S xs shares rule: pool_groups.induct)
  case (2 S a rest shares)
  have tw: "takeWhile (\<lambda>r. T r (g a)) (map g rest) = map g (takeWhile (\<lambda>r. S r a) rest)"
    unfolding takeWhile_map comp_def by (rule arg_cong [where f = "map g"], rule takeWhile_cong) (auto simp: "2.prems")
  let ?k = "Suc (length (takeWhile (\<lambda>r. S r a) rest))"
  have "pool_groups T (map g (drop ?k (a # rest))) (drop ?k shares) = pool_groups S (drop ?k (a # rest)) (drop ?k shares)"
  proof (rule "2.IH")
    show "T (g x) (g y) = S x y" if "x \<in> set (drop ?k (a # rest))" "y \<in> set (drop ?k (a # rest))" for x y
      using that by (intro "2.prems") (meson in_set_dropD)+
  qed auto
  then show ?case by (simp add: tw drop_map Let_def)
qed simp

subsection \<open>The projection\<close>

lemma lift_project:
  assumes "\<forall>e\<in>set es. mirrored M e" "distinct (map agent_id es)" "opt_all served_gate gate"
    and "project_koth M clamp cap gate d inc (map (lift_with ranks) es) = Some p"
  obtains c where "select_champion M (koth_rules clamp cap gate) inc es = Some c" "c \<in> set (scored_pool es)"
    "kp_champion p = lift_with ranks c" "kp_tail p = map (lift_with ranks) (tail M (scored_pool es) c KOTH_TAIL_SIZE d)"
proof -
  let ?xs = "scored_pool es"
  have xs: "\<forall>e\<in>set ?xs. mirrored M e" "distinct (map agent_id ?xs)"
    using assms(1,2) distinct_scored_pool by (auto simp: in_scored_pool)
  note lifts = lift_pool [OF assms(1)] lift_champion [OF xs assms(3)] lift_tail [OF xs]
  from assms(4) obtain c where c: "champion M (koth_rules clamp cap gate) inc ?xs = Some c"
      "kp_champion p = lift_with ranks c" "kp_tail p = map (lift_with ranks) (tail M ?xs c KOTH_TAIL_SIZE d)"
    by (auto simp: project_koth_def lifts Let_def split: option.splits list.splits)
  moreover from c(1) have "c \<in> set ?xs" by (rule champion_in)
  ultimately show ?thesis by (intro that [of c]) (auto simp: select_champion_def Let_def)
qed

lemma lift_project_None:
  assumes "\<forall>e\<in>set es. mirrored M e" "distinct (map agent_id es)" "opt_all served_gate gate"
    and "project_koth M clamp cap gate d inc (map (lift_with ranks) es) = None"
  shows "select_champion M (koth_rules clamp cap gate) inc es = None"
proof -
  let ?xs = "scored_pool es"
  have xs: "\<forall>e\<in>set ?xs. mirrored M e" "distinct (map agent_id ?xs)"
    using assms(1,2) distinct_scored_pool by (auto simp: in_scored_pool)
  have "ranked_order ?xs = [] \<longleftrightarrow> ?xs = []" by (simp add: ranked_order_def flip: length_0_conv)
  then show ?thesis
    using assms(4) by (auto simp: project_koth_def lift_pool [OF assms(1)] lift_champion [OF xs assms(3)]
        lift_ranked [OF xs] select_champion_def Let_def split: option.splits list.splits)
qed

lemma distinct_keep_first_map: "distinct (map h xs) \<Longrightarrow> distinct (map h (keep_first f S xs))"
proof (induction f S xs rule: keep_first.induct)
  case (2 f S x xs)
  then show ?case using set_keep_first [of f "insert (f x) S" xs] by auto
qed simp

lemma distinct_tail_ids:
  assumes "distinct (map agent_id xs)" shows "distinct (map agent_id (tail M xs c n d))"
proof -
  let ?r = "sort_key (ranking_key (quality_primary_efficiency_active xs)) (filter (\<lambda>e. miner_hotkey e \<noteq> miner_hotkey c) xs)"
  have r: "distinct (map agent_id ?r)"
    using assms by (simp add: distinct_map_filter distinct_map_perm [of ?r "filter (\<lambda>e. miner_hotkey e \<noteq> miner_hotkey c) xs"])
  have "distinct (map agent_id (keep_first miner_hotkey {miner_hotkey c} ?r))"
    by (rule distinct_keep_first_map [OF r])
  with r show ?thesis
    by (simp add: tail_def Let_def distinct_map_perm [OF dueling_adjacent_order_perm] flip: take_map)
qed

lemma emission_set_lifted:
  assumes "distinct (map agent_id xs)" "c \<in> set xs"
    and "kp_champion p = lift_with ranks c" "kp_tail p = map (lift_with ranks) (tail M xs c n d)"
  shows "emission_set (Some p) = map (lift_with ranks) (c # tail M xs c n d)"
proof -
  have t: "set (tail M xs c n d) \<subseteq> set xs" "\<forall>e\<in>set (tail M xs c n d). miner_hotkey e \<noteq> miner_hotkey c"
    using tail_members by blast+
  have "distinct (map agent_id (tail M xs c n d))" by (rule distinct_tail_ids [OF assms(1)])
  moreover have "\<forall>e\<in>set (tail M xs c n d). agent_id e \<noteq> agent_id c"
    using t assms(1,2) by (metis distinct_map inj_onD subsetD)
  ultimately have "keep_first agent_id {agent_id c} (tail M xs c n d) = tail M xs c n d" by (intro keep_first_id) auto
  then show ?thesis using assms(3,4) by (simp add: emission_set_def keep_first_map comp_def)
qed

text \<open>C25: The platform projects the validators' fold. Over a served ledger of rows both programs
  read alike, \<^verbatim>\<open>project_koth\<close> exists exactly when the validator selects a champion, it names
  the same champion and the same tail in the same order, and the emission set with its shares,
  pooled or not, is the validator's list of recipients with theirs.\<close>

theorem project_koth_mirrors:
  assumes "\<forall>e\<in>set es. mirrored M e" and "distinct (map agent_id es)" and "opt_all served_gate gate"
    and "R = koth_rules clamp cap gate"
    and "projection = project_koth M clamp cap gate tie inc (koth_entries_from_ledger es)"
  shows "case select_champion M R inc es of
      None \<Rightarrow> projection = None
    | Some c \<Rightarrow>
        (let recipients = c # tail M (scored_pool es) c KOTH_TAIL_SIZE tie;
             shares = take (length recipients) curve
         in map ke_agent_id (emission_set projection) = map agent_id recipients
            \<and> map ke_miner_hotkey (emission_set projection) = map miner_hotkey recipients
            \<and> emission_shares M projection tie cap (Some curve) =
                (if tie then pool_groups (weight_tied M R) recipients shares else shares))"
proof -
  obtain ranks where ranks: "koth_entries_from_ledger es = map (lift_with ranks) es" using koth_entries_lifted by blast
  show ?thesis
  proof (cases projection)
    case None
    then have "select_champion M R inc es = None"
      using lift_project_None [OF assms(1-3)] assms(4,5) ranks by simp
    with None show ?thesis by simp
  next
    case (Some p)
    then have "project_koth M clamp cap gate tie inc (map (lift_with ranks) es) = Some p" using assms(5) ranks by simp
    then obtain c where c:
      "select_champion M (koth_rules clamp cap gate) inc es = Some c" "c \<in> set (scored_pool es)"
      "kp_champion p = lift_with ranks c" "kp_tail p = map (lift_with ranks) (tail M (scored_pool es) c KOTH_TAIL_SIZE tie)"
      by (rule lift_project [OF assms(1-3)])
    let ?rs = "c # tail M (scored_pool es) c KOTH_TAIL_SIZE tie"
    have members: "emission_set projection = map (lift_with ranks) ?rs"
      unfolding Some by (rule emission_set_lifted [OF distinct_scored_pool [OF assms(2)] c(2-4)])
    have "mirrored M e" if "e \<in> set ?rs" for e
      using that c(2) assms(1) tail_members(1) [of e M "scored_pool es" c KOTH_TAIL_SIZE tie]
      by (auto simp: in_scored_pool)
    then have "pool_groups (koth_weight_tied M cap) (map (lift_with ranks) ?rs) s = pool_groups (weight_tied M R) ?rs s" for s
      unfolding assms(4) by (intro pool_groups_map lift_weight_tied)
    then show ?thesis using c(1) assms(4) members by (cases tie) (simp_all add: emission_shares_def Let_def comp_def del: pool_groups.simps)
  qed
qed

definition carol :: ledger_entry where "carol = plain_entry ''carol'' 3 (Fin (1 / 2)) 30"

lemma wire_bob: "wire_entry bob" and wire_carol: "wire_entry carol"
proof -
  have "rnd64 (3 / 4) = Fin (3 / 4)" by code_simp
  then have "is64 (3 / 4)" by (rule rnd64_Fin_is64)
  then show "wire_entry bob" "wire_entry carol" using unit64I [of "3 / 4"] unit64I [of "1 / 2"]
    by (simp_all add: wire_entry_def bob_def carol_def plain_entry_def opt_all_def)
qed

lemma example_mirrored:
  "mirrored example_libm alice" "mirrored example_libm bob" "mirrored example_libm carol"
proof -
  have eff: "flt (Fin 0) (composite alice) = flt (Fin 0) (effective_composite alice)"
    "flt (Fin 0) (composite bob) = flt (Fin 0) (effective_composite bob)"
    "flt (Fin 0) (composite carol) = flt (Fin 0) (effective_composite carol)" by code_simp+
  have "entry_stderr alice = None" "entry_stderr bob = None" "entry_stderr carol = None"
    "entry_eligible alice" "entry_eligible bob" "entry_eligible carol" by code_simp+
  with eff wire_alice wire_bob wire_carol
  show "mirrored example_libm alice" "mirrored example_libm bob" "mirrored example_libm carol"
    by (simp_all add: mirrored_def opt_all_def) (simp_all add: alice_def bob_def carol_def plain_entry_def)
qed

theorem project_koth_mirrors_witness:
  "map ke_miner_hotkey (emission_set (project_koth example_libm False False None True None
     (koth_entries_from_ledger [alice, bob]))) = [miner_hotkey bob, miner_hotkey alice]"
proof -
  have c: "select_champion example_libm (koth_rules False False None) None [alice, bob] = Some bob" by code_simp
  have t: "tail example_libm (scored_pool [alice, bob]) bob KOTH_TAIL_SIZE True = [alice]" by code_simp
  have "distinct (map agent_id [alice, bob])" by code_simp
  then show ?thesis
    using project_koth_mirrors [of "[alice, bob]" example_libm None "koth_rules False False None" False False
        "project_koth example_libm False False None True None (koth_entries_from_ledger [alice, bob])" True None KOTH_RANK_SHARES]
      example_mirrored c t
    by (simp add: opt_all_def Let_def del: pool_groups.simps)
qed

subsection \<open>The retest cohort\<close>

text \<open>The retest cohort. Its head is the champion and its agents are distinct; it never
  exceeds the larger of the two sizes; widening the band never changes the first
  \<open>size\<close> members; and every member past them is statistically tied with one fixed agent, the
  last of the first \<open>size\<close>, so the band cannot creep down the board.\<close>

theorem retest_cohort_band:
  assumes "cohort = retest_cohort M cohort_size max_size z es (Some p)"
    and "base = nat (max 1 cohort_size)"
  shows "hd cohort = kp_champion p \<and> distinct (map ke_agent_id cohort)
    \<and> int (length cohort) \<le> max (int base) (case max_size of None \<Rightarrow> 0 | Some m \<Rightarrow> m)
    \<and> take base cohort = retest_cohort M cohort_size None z es (Some p)
    \<and> (\<forall>i. base \<le> i \<longrightarrow> i < length cohort \<longrightarrow> indistinguishable_from M z (cohort ! i) (cohort ! (base - 1)))"
proof -
  define most where "most = nat (case max_size of None \<Rightarrow> max 1 cohort_size | Some m \<Rightarrow> max (max 1 cohort_size) m)"
  define ranked where "ranked = koth_ranked_entries
    (filter (\<lambda>e. ke_miner_hotkey e \<noteq> ke_miner_hotkey (kp_champion p)) (koth_fold_pool es))"
  let ?tied = "indistinguishable_from M z"
  have cohort: "cohort = cohort_walk ?tied base most [kp_champion p] None ranked"
    and plain: "retest_cohort M cohort_size None z es (Some p) = cohort_walk ?tied base base [kp_champion p] None ranked"
    by (simp_all add: assms retest_cohort_def Let_def most_def ranked_def)
  have b: "1 \<le> base" "base \<le> most" and most: "int most \<le> max (int base) (case max_size of None \<Rightarrow> 0 | Some m \<Rightarrow> m)"
    by (auto simp: assms(2) most_def split: option.split)
  have "cohort_inv ?tied base [kp_champion p] None" using b by (auto simp: cohort_inv_def)
  from cohort_walk_inv [OF this, of most ranked] cohort
  have "\<forall>i. base \<le> i \<longrightarrow> i < length cohort \<longrightarrow> ?tied (cohort ! i) (cohort ! (base - 1))" by (auto simp: cohort_inv_def)
  moreover have "hd cohort = kp_champion p"
    using cohort_walk_prefix [of ?tied base most "[kp_champion p]" None ranked] cohort by auto
  moreover have "length cohort \<le> most" unfolding cohort by (rule cohort_walk_length) (use b in simp)
  with most have "int (length cohort) \<le> max (int base) (case max_size of None \<Rightarrow> 0 | Some m \<Rightarrow> m)" by linarith
  moreover have "take base cohort = retest_cohort M cohort_size None z es (Some p)"
    unfolding cohort plain by (rule cohort_walk_base) (use b in simp_all)
  moreover have "distinct (map ke_agent_id cohort)" unfolding cohort by (rule cohort_walk_ids) simp
  ultimately show ?thesis by blast
qed

text \<open>A champion, and two challengers with equal scores of which the fixed size admits one.\<close>

definition example_projection :: koth_projection where
  "example_projection = \<lparr>kp_champion = koth_lift 0 bob, kp_tail = [], kp_raw_leader = koth_lift 0 bob,
     kp_raw_leader_decision = None\<rparr>"

theorem retest_cohort_band_witness:
  "let cohort = retest_cohort example_libm 2 (Some 3) (Fin 0) (map (koth_lift 0) [alice, carol]) (Some example_projection) in
     map ke_miner_hotkey cohort = [''bob'', ''alice'', ''carol'']
     \<and> indistinguishable_from example_libm (Fin 0) (cohort ! 2) (cohort ! 1)"
proof -
  let ?cohort = "retest_cohort example_libm 2 (Some 3) (Fin 0) (map (koth_lift 0) [alice, carol]) (Some example_projection)"
  let ?walk = "cohort_walk (indistinguishable_from example_libm (Fin 0)) 2 3 [koth_lift 0 bob] None
      [koth_lift 0 alice, koth_lift 0 carol]"
  have "filter (\<lambda>e. ke_miner_hotkey e \<noteq> ke_miner_hotkey (koth_lift 0 bob)) (koth_fold_pool (map (koth_lift 0) [alice, carol]))
      = map (lift_with (\<lambda>_. 0)) [alice, carol]" by code_simp
  moreover have "koth_ranked_entries (map (lift_with (\<lambda>_. 0)) [alice, carol])
      = map (lift_with (\<lambda>_. 0)) (ranked_order [alice, carol])"
  proof (rule lift_ranked)
    show "\<forall>e\<in>set [alice, carol]. mirrored example_libm e" using example_mirrored by simp
    show "distinct (map agent_id [alice, carol])" by code_simp
  qed
  moreover have "ranked_order [alice, carol] = [alice, carol]" by code_simp
  ultimately have walk: "?cohort = ?walk"
    by (simp add: retest_cohort_def example_projection_def Let_def del: cohort_walk.simps)
  have names: "map ke_miner_hotkey ?walk = [''bob'', ''alice'', ''carol'']" by code_simp
  have "length ?walk = length (map ke_miner_hotkey ?walk)" by (simp only: length_map)
  also have "\<dots> = 3" unfolding names by simp
  finally have "length ?walk = 3" .
  then have "indistinguishable_from example_libm (Fin 0) (?cohort ! 2) (?cohort ! 1)"
    using retest_cohort_band [OF refl refl, of example_libm 2 "Some 3" "Fin 0" "map (koth_lift 0) [alice, carol]" example_projection]
    unfolding walk by simp
  with names show ?thesis unfolding walk Let_def by blast
qed

subsection \<open>Outside the boundary\<close>

text \<open>Rows on which the two programs differ, one for each condition of \<open>mirrored\<close> that is not
  a wire constraint: a factor on a version-9 row without a receipt (neutral for the validator), a
  factor under a curve version the platform does not know (asymptotic for the validator, bounded
  for the platform), an in-row confirmation bundle beside three score proofs (the validator's
  median, the platform's mean), and a zero composite with positive confirmations (in the
  validator's pool, not in the platform's).\<close>

lemma version_nine_factor_differs:
  fixes e defines "e \<equiv> alice\<lparr>bench_version := Some 9, efficiency_factor := Some (Fin (65 / 64))\<rparr>"
  shows "bounded_efficiency_factor e = Some (Fin 1) \<and> koth_bounded_factor (koth_lift 0 e) = Some (Fin (65 / 64))"
  unfolding e_def by code_simp

lemma later_curve_differs:
  fixes e defines "e \<equiv> alice\<lparr>bench_version := Some 10, efficiency_factor := Some (Fin 2), efficiency_curve_version := Some 5\<rparr>"
  shows "bounded_efficiency_factor e = Some (Fin 2) \<and> koth_bounded_factor (koth_lift 0 e) = Some (Fin 1)"
  unfolding e_def by code_simp

lemma in_row_bundle_differs:
  fixes e defines "e \<equiv> alice\<lparr>score_proofs := replicate 3 \<lparr>sp_composite = Fin (1 / 2)\<rparr>,
    confirmation_composites := Some [Fin (1 / 4), Fin (1 / 4)], confirmation_seeds := Some [1, 2]\<rparr>"
  shows "quality_composite e = Fin (1 / 4) \<and> koth_continual_composite (koth_lift 0 e) \<noteq> Fin (1 / 4)"
  unfolding e_def by code_simp

lemma zero_composite_differs:
  fixes e defines "e \<equiv> (plain_entry ''dave'' 4 (Fin 0) 40)\<lparr>confirmation_history := Some
    [\<lparr>cr_seed = 1, cr_composite = Fin (1 / 2), cr_bench_version = 1, cr_dueling = None\<rparr>,
     \<lparr>cr_seed = 2, cr_composite = Fin (1 / 2), cr_bench_version = 1, cr_dueling = None\<rparr>]\<rparr>"
  shows "length (scored_pool [e]) = 1 \<and> length (koth_fold_pool [koth_lift 0 e]) = 0"
  unfolding e_def by code_simp

end
