(* ===== verification/Tracks.thy ===== *)
theory Tracks
  imports Weights_Tracks
begin

section \<open>The track registry\<close>

text \<open>
  Models \<^verbatim>\<open>ditto/validator/tracks.py\<close>: the static description of the competition tracks (memory,
  coding, router, generator), the checks a track and a registry make when they are built, the
  split of the emission among the tracks that pay, the fold every track runs on the inputs of an
  epoch, and the shipped registry with its fallback to the memory-only split. A fold may raise, so
  the fold of a track returns a sum; the float library is an argument of the memory fold.
\<close>

definition TRACK_MEMORY :: string where "TRACK_MEMORY = ''memory''"
definition TRACK_CODING :: string where "TRACK_CODING = ''coding''"
definition TRACK_ROUTER :: string where "TRACK_ROUTER = ''router''"
definition TRACK_GENERATOR :: string where "TRACK_GENERATOR = ''generator''"

lemmas track_ids = TRACK_MEMORY_def TRACK_CODING_def TRACK_ROUTER_def TRACK_GENERATOR_def

datatype track_state = SHADOW | ACTIVE | RETIRING | RETIRED

definition PAYING_STATES :: "track_state set" where "PAYING_STATES = {ACTIVE, RETIRING}"

subsection \<open>Folds\<close>

record memory_fold_params =
  mp_margin :: pyfloat
  mp_tail_size :: int
  mp_rank_shares :: "pyfloat list"
  mp_dethrone_z :: pyfloat
  mp_tie_pooling :: bool
  mp_ceiling_band_clamp :: bool
  mp_statistical_band_cap :: bool
  mp_incumbent_agent_id :: "nat option"
  mp_unpaid_agent_id :: "nat option"
  mp_crown_gate :: "crown_gate option"

record track_fold_inputs =
  memory_entries :: "ledger_entry list"
  memory_params :: "memory_fold_params option"
  router_entries :: "router_entry list"
  router_rank_shares :: "pyfloat list"
  generator_entries :: "generator_entry list"
  generator_rank_shares :: "pyfloat list"

type_synonym track_fold = "track_fold_inputs \<Rightarrow> py_error + weight_vector"

text \<open>The comparison rules among the arguments of \<open>compute_weights\<close>.\<close>

definition params_rules :: "memory_fold_params \<Rightarrow> fold_rules" where
  "params_rules p = \<lparr>fr_margin = mp_margin p, fr_dethrone_z = mp_dethrone_z p,
     fr_ceiling_band_clamp = mp_ceiling_band_clamp p, fr_statistical_band_cap = mp_statistical_band_cap p,
     fr_crown_gate = mp_crown_gate p\<rparr>"

definition memory_fold :: "libm \<Rightarrow> track_fold" where
  "memory_fold M inputs = (case memory_params inputs of
     None \<Rightarrow> Inr []
   | Some p \<Rightarrow> compute_weights M (params_rules p) (mp_tail_size p) (mp_rank_shares p) (mp_tie_pooling p)
       (mp_incumbent_agent_id p) (mp_unpaid_agent_id p) (memory_entries inputs))"

definition router_fold :: track_fold where
  "router_fold inputs = Inr (compute_router_weights (router_entries inputs) (router_rank_shares inputs))"

definition generator_fold :: track_fold where
  "generator_fold inputs = Inr (compute_generator_weights (generator_entries inputs) (generator_rank_shares inputs))"

definition reserved_fold :: track_fold where
  "reserved_fold inputs = Inr []"

subsection \<open>Tracks and registries\<close>

record track =
  track_id :: string
  tr_name :: string
  tr_state :: track_state
  emission_share_bps :: int
  tr_weight_eligible :: bool
  tr_fold :: track_fold
  unclaimed_share_to :: "string option"

text \<open>Building a track runs \<^verbatim>\<open>__post_init__\<close>; its check that the state is a \<^verbatim>\<open>TrackState\<close> is the type
  of the field here.\<close>

definition make_track :: "track \<Rightarrow> py_error + track" where
  "make_track t =
     (if track_id t = [] then Inl (ValueError ''track_id must be non-empty'')
      else if \<not> (0 \<le> emission_share_bps t \<and> emission_share_bps t \<le> BASIS_POINT_SCALE)
      then Inl (ValueError ''track emission_share_bps out of range'')
      else Inr t)"

definition draws_emission :: "track \<Rightarrow> bool" where
  "draws_emission t \<longleftrightarrow> tr_weight_eligible t \<and> tr_state t \<in> PAYING_STATES"

definition effective_bps :: "track \<Rightarrow> int" where
  "effective_bps t = (if draws_emission t then emission_share_bps t else 0)"

type_synonym track_registry = "track list"

definition total_active_bps :: "track_registry \<Rightarrow> int" where
  "total_active_bps r = sum_list (map effective_bps r)"

fun duplicate_track :: "string set \<Rightarrow> track list \<Rightarrow> bool" where
  "duplicate_track seen [] = False"
| "duplicate_track seen (t # ts) = (track_id t \<in> seen \<or> duplicate_track (insert (track_id t) seen) ts)"

definition make_registry :: "track list \<Rightarrow> py_error + track_registry" where
  "make_registry ts =
     (if duplicate_track {} ts then Inl (ValueError ''duplicate track id'')
      else if total_active_bps ts > BASIS_POINT_SCALE
      then Inl (ValueError ''eligible track emission shares exceed 10000 bps'')
      else Inr ts)"

definition get_track :: "track_registry \<Rightarrow> string \<Rightarrow> track option" where
  "get_track r tid = find (\<lambda>t. track_id t = tid) r"

definition active_eligible :: "track_registry \<Rightarrow> track list" where
  "active_eligible r = filter draws_emission r"

definition shares_bps :: "track_registry \<Rightarrow> (string, int) dict" where
  "shares_bps r = dict_of (map (\<lambda>t. (track_id t, effective_bps t)) (active_eligible r))"

definition track_fallbacks :: "track_registry \<Rightarrow> (string, string) dict" where
  "track_fallbacks r = dict_of (concat (map (\<lambda>t. case unclaimed_share_to t of
     None \<Rightarrow> [] | Some target \<Rightarrow> [(track_id t, target)]) (active_eligible r)))"

definition claimed_shares_bps :: "track_registry \<Rightarrow> (string, weight_vector) dict \<Rightarrow> (string, int) dict" where
  "claimed_shares_bps r vectors = reassign_unclaimed_shares (shares_bps r) vectors (track_fallbacks r)"

subsection \<open>The shipped registry\<close>

text \<open>The operator settings of the three optional tracks.\<close>

record track_settings =
  ts_router_state :: track_state
  ts_router_weight_eligible :: bool
  ts_coding_state :: track_state
  ts_coding_weight_eligible :: bool
  ts_generator_state :: track_state
  ts_generator_weight_eligible :: bool

definition share_or :: "(string, int) dict \<Rightarrow> string \<Rightarrow> int \<Rightarrow> int" where
  "share_or shares tid default_bps = (case dict_get shares tid of None \<Rightarrow> default_bps | Some b \<Rightarrow> b)"

definition default_tracks :: "libm \<Rightarrow> (string, int) dict \<Rightarrow> track_settings \<Rightarrow> track list" where
  "default_tracks M shares s =
     [\<lparr>track_id = TRACK_MEMORY, tr_name = ''Memory'', tr_state = ACTIVE,
       emission_share_bps = share_or shares TRACK_MEMORY BASIS_POINT_SCALE,
       tr_weight_eligible = True, tr_fold = memory_fold M, unclaimed_share_to = None\<rparr>,
      \<lparr>track_id = TRACK_CODING, tr_name = ''Coding'', tr_state = ts_coding_state s,
       emission_share_bps = share_or shares TRACK_CODING 0,
       tr_weight_eligible = ts_coding_weight_eligible s, tr_fold = reserved_fold, unclaimed_share_to = None\<rparr>,
      \<lparr>track_id = TRACK_ROUTER, tr_name = ''Router'', tr_state = ts_router_state s,
       emission_share_bps = share_or shares TRACK_ROUTER 0,
       tr_weight_eligible = ts_router_weight_eligible s, tr_fold = router_fold, unclaimed_share_to = None\<rparr>,
      \<lparr>track_id = TRACK_GENERATOR, tr_name = ''Generator'', tr_state = ts_generator_state s,
       emission_share_bps = share_or shares TRACK_GENERATOR 0,
       tr_weight_eligible = ts_generator_weight_eligible s, tr_fold = generator_fold,
       unclaimed_share_to = Some TRACK_MEMORY\<rparr>]"

definition build_registry ::
  "libm \<Rightarrow> (string, int) dict \<Rightarrow> track_settings \<Rightarrow> py_error + track_registry" where
  "build_registry M shares s = and_then (collect make_track (default_tracks M shares s)) make_registry"

definition SAFE_TRACK_SHARES_BPS :: "(string, int) dict" where
  "SAFE_TRACK_SHARES_BPS =
     [(TRACK_MEMORY, BASIS_POINT_SCALE), (TRACK_CODING, 0), (TRACK_ROUTER, 0), (TRACK_GENERATOR, 0)]"

definition build_default_registry ::
  "libm \<Rightarrow> (string, int) dict \<Rightarrow> track_settings \<Rightarrow> py_error + track_registry" where
  "build_default_registry M shares s = (case build_registry M shares s of
     Inl (ValueError _) \<Rightarrow> build_registry M SAFE_TRACK_SHARES_BPS s
   | r \<Rightarrow> r)"

text \<open>The settings a bare call of \<^verbatim>\<open>build_default_registry\<close> uses.\<close>

definition shadow_settings :: track_settings where
  "shadow_settings = \<lparr>ts_router_state = SHADOW, ts_router_weight_eligible = False,
     ts_coding_state = SHADOW, ts_coding_weight_eligible = False,
     ts_generator_state = SHADOW, ts_generator_weight_eligible = False\<rparr>"

subsection \<open>What a registry guarantees\<close>

text \<open>The invariant of a registry the constructors accept.\<close>

definition registry_ok :: "track_registry \<Rightarrow> bool" where
  "registry_ok r \<longleftrightarrow> distinct (map track_id r)
     \<and> list_all (\<lambda>t. track_id t \<noteq> [] \<and> 0 \<le> emission_share_bps t \<and> emission_share_bps t \<le> BASIS_POINT_SCALE) r
     \<and> total_active_bps r \<le> BASIS_POINT_SCALE"

lemma duplicate_track_iff:
  "duplicate_track seen ts \<longleftrightarrow> \<not> (distinct (map track_id ts) \<and> set (map track_id ts) \<inter> seen = {})"
  by (induction seen ts rule: duplicate_track.induct) auto

lemma make_track_Inr:
  "make_track t = Inr u \<longleftrightarrow>
     u = t \<and> track_id t \<noteq> [] \<and> 0 \<le> emission_share_bps t \<and> emission_share_bps t \<le> BASIS_POINT_SCALE"
  by (auto simp: make_track_def)

lemma collect_make_track:
  "collect make_track ts = Inr us \<longleftrightarrow>
     us = ts \<and> list_all (\<lambda>t. track_id t \<noteq> [] \<and> 0 \<le> emission_share_bps t \<and> emission_share_bps t \<le> BASIS_POINT_SCALE) ts"
  unfolding collect_Inr make_track_Inr
  by (auto simp: list_all2_conv_all_nth list_all_length intro: nth_equalityI)

lemma build_registry_Inr:
  "build_registry M shares s = Inr r \<longleftrightarrow> r = default_tracks M shares s \<and> registry_ok r"
  by (auto simp: build_registry_def and_then_Inr collect_make_track make_registry_def registry_ok_def
      duplicate_track_iff)

lemma build_registry_raises:
  "build_registry M shares s = Inl err \<Longrightarrow> \<exists>message. err = ValueError message"
proof -
  have t: "make_track t = Inl e \<Longrightarrow> \<exists>message. e = ValueError message" for t e
    by (auto simp: make_track_def split: if_splits)
  have "collect make_track ts = Inl e \<Longrightarrow> \<exists>message. e = ValueError message" for ts e
    by (induction ts) (auto simp: and_then_Inl t)
  moreover have "make_registry ts = Inl e \<Longrightarrow> \<exists>message. e = ValueError message" for ts e
    by (auto simp: make_registry_def split: if_splits)
  ultimately show "build_registry M shares s = Inl err \<Longrightarrow> ?thesis"
    by (auto simp: build_registry_def and_then_Inl)
qed

lemma safe_registry_ok: "registry_ok (default_tracks M SAFE_TRACK_SHARES_BPS s)"
  by (simp add: registry_ok_def default_tracks_def SAFE_TRACK_SHARES_BPS_def share_or_def track_ids
      BASIS_POINT_SCALE_def total_active_bps_def effective_bps_def)

text \<open>The registry of an epoch: the configured split when it is coherent, else the safe one.\<close>

lemma build_default_registry_eq:
  "build_default_registry M shares s =
     Inr (default_tracks M (if registry_ok (default_tracks M shares s) then shares else SAFE_TRACK_SHARES_BPS) s)"
proof (cases "build_registry M shares s")
  case (Inl err)
  then obtain message where "err = ValueError message" using build_registry_raises by blast
  moreover have "\<not> registry_ok (default_tracks M shares s)"
    using Inl build_registry_Inr [of M shares s "default_tracks M shares s"] by auto
  moreover have "build_registry M SAFE_TRACK_SHARES_BPS s = Inr (default_tracks M SAFE_TRACK_SHARES_BPS s)"
    by (simp add: build_registry_Inr safe_registry_ok)
  ultimately show ?thesis using Inl by (simp add: build_default_registry_def)
next
  case (Inr r)
  then have r: "r = default_tracks M shares s" "registry_ok r" by (auto simp: build_registry_Inr)
  have "build_default_registry M shares s = Inr r" using Inr by (simp add: build_default_registry_def)
  with r show ?thesis by simp
qed

lemma distinct_ids_filter: "distinct (map track_id r) \<Longrightarrow> distinct (map track_id (filter P r))"
  by (rule distinct_map_filter)

lemma shares_bps_pairs:
  assumes "distinct (map track_id r)"
  shows "shares_bps r = map (\<lambda>t. (track_id t, effective_bps t)) (active_eligible r)"
  using distinct_ids_filter [OF assms]
  by (simp add: shares_bps_def active_eligible_def comp_def)

lemma distinct_shares_bps: "distinct (dict_keys (shares_bps r))"
  by (simp add: shares_bps_def)

lemma total_shares_bps:
  assumes "registry_ok r"
  shows "sum_list (dict_values (shares_bps r)) = total_active_bps r"
proof -
  have "sum_list (map effective_bps (filter draws_emission r)) = sum_list (map effective_bps r)"
    by (induction r) (auto simp: effective_bps_def)
  then show ?thesis
    using assms by (simp add: shares_bps_pairs registry_ok_def active_eligible_def total_active_bps_def comp_def)
qed

lemma effective_bps_range:
  "registry_ok r \<Longrightarrow> t \<in> set r \<Longrightarrow> 0 \<le> effective_bps t"
  by (auto simp: registry_ok_def effective_bps_def list_all_iff)

lemma paying_total:
  assumes "registry_ok r"
  shows "sum_list (dict_values (paying (shares_bps r))) = total_active_bps r"
proof -
  have pos: "sum_list (map snd (filter (\<lambda>(k, b). b > 0) xs)) = sum_list (map snd xs)"
    if "\<forall>(k, b)\<in>set xs. 0 \<le> b" for xs :: "(string \<times> int) list"
    using that by (induction xs) auto
  have "\<forall>(k, b)\<in>set (shares_bps r). 0 \<le> b"
    using assms effective_bps_range [OF assms] by (auto simp: shares_bps_pairs registry_ok_def active_eligible_def)
  from pos [OF this] show ?thesis using total_shares_bps [OF assms] by (simp add: paying_def)
qed

lemma claimed_total:
  assumes "registry_ok r"
  shows "sum_list (dict_values (claimed_shares_bps r vectors)) = total_active_bps r"
  unfolding claimed_shares_bps_def reassign_conserves [OF distinct_shares_bps] by (rule paying_total [OF assms])

subsection \<open>Properties\<close>

text \<open>The weight path always has a registry: whatever split the platform served, building the
  shipped registry succeeds, with distinct named tracks, every share in range and at most 10000
  basis points in all. An incoherent split degrades to the memory-only one, in which every other
  track draws nothing.\<close>

theorem default_registry_total:
  "\<exists>r. build_default_registry M shares s = Inr r \<and> registry_ok r
     \<and> map track_id r = [TRACK_MEMORY, TRACK_CODING, TRACK_ROUTER, TRACK_GENERATOR]
     \<and> (if registry_ok (default_tracks M shares s) then r = default_tracks M shares s
        else map effective_bps r = [BASIS_POINT_SCALE, 0, 0, 0])"
proof (cases "registry_ok (default_tracks M shares s)")
  case True
  then show ?thesis by (simp add: build_default_registry_eq default_tracks_def)
next
  case False
  have "map effective_bps (default_tracks M SAFE_TRACK_SHARES_BPS s) = [BASIS_POINT_SCALE, 0, 0, 0]"
    by (simp add: default_tracks_def effective_bps_def draws_emission_def PAYING_STATES_def share_or_def
        SAFE_TRACK_SHARES_BPS_def track_ids)
  moreover have "map track_id (default_tracks M SAFE_TRACK_SHARES_BPS s)
      = [TRACK_MEMORY, TRACK_CODING, TRACK_ROUTER, TRACK_GENERATOR]"
    by (simp add: default_tracks_def)
  ultimately show ?thesis using False safe_registry_ok by (simp add: build_default_registry_eq)
qed

lemma default_fallbacks:
  "track_fallbacks (default_tracks M shares s) =
     (if ts_generator_weight_eligible s \<and> ts_generator_state s \<in> PAYING_STATES then [(TRACK_GENERATOR, TRACK_MEMORY)] else [])"
  by (simp add: track_fallbacks_def default_tracks_def active_eligible_def draws_emission_def PAYING_STATES_def)

lemma share_of_paying:
  assumes "registry_ok r"
  shows "share_of (paying (shares_bps r)) t = share_of (shares_bps r) t"
    and "t \<in> set (dict_keys (paying (shares_bps r))) \<longleftrightarrow> 0 < share_of (shares_bps r) t"
proof -
  have nn: "0 \<le> share_of (shares_bps r) t" for t
    using effective_bps_range [OF assms] assms
    by (intro share_of_nonneg) (auto simp: shares_bps_pairs registry_ok_def active_eligible_def)
  show e: "share_of (paying (shares_bps r)) t = share_of (shares_bps r) t"
    unfolding paying_def by (rule share_of_filter_pos [OF distinct_shares_bps nn])
  have d: "distinct (dict_keys (paying (shares_bps r)))"
    unfolding paying_def by (rule distinct_map_filter [OF distinct_shares_bps])
  show "t \<in> set (dict_keys (paying (shares_bps r))) \<longleftrightarrow> 0 < share_of (shares_bps r) t"
  proof
    assume "t \<in> set (dict_keys (paying (shares_bps r)))"
    then obtain b where b: "(t, b) \<in> set (paying (shares_bps r))" "0 < b" by (auto simp: paying_def)
    from map_of_is_SomeI [OF d b(1)] b(2) show "0 < share_of (shares_bps r) t"
      unfolding e [symmetric] by (simp add: share_of_def)
  next
    assume "0 < share_of (shares_bps r) t"
    then have "share_of (paying (shares_bps r)) t \<noteq> 0" unfolding e by simp
    then show "t \<in> set (dict_keys (paying (shares_bps r)))" using share_of_absent by blast
  qed
qed

lemma share_of_track:
  assumes "distinct (map track_id r)" "t \<in> set r"
  shows "share_of (shares_bps r) (track_id t) = effective_bps t"
proof (cases "draws_emission t")
  case True
  have "(track_id t, effective_bps t) \<in> set (shares_bps r)"
    using True assms by (auto simp: shares_bps_pairs active_eligible_def)
  from map_of_is_SomeI [OF distinct_shares_bps this] show ?thesis by (simp add: share_of_def)
next
  case False
  then have "track_id t \<notin> set (dict_keys (shares_bps r))"
    using assms by (auto simp: shares_bps_pairs active_eligible_def distinct_map dest: inj_onD)
  with False show ?thesis using share_of_absent by (metis effective_bps_def)
qed

lemma generator_share_zero:
  assumes "registry_ok (default_tracks M shares s)" "track_fallbacks (default_tracks M shares s) = []"
  shows "share_of (shares_bps (default_tracks M shares s)) TRACK_GENERATOR = 0"
proof -
  let ?g = "default_tracks M shares s ! 3"
  have g: "?g \<in> set (default_tracks M shares s)" "track_id ?g = TRACK_GENERATOR"
    by (simp_all add: default_tracks_def)
  have "\<not> draws_emission ?g"
    using assms(2) unfolding default_fallbacks by (auto simp: default_tracks_def draws_emission_def split: if_splits)
  then have "effective_bps ?g = 0" by (simp add: effective_bps_def)
  then show ?thesis using share_of_track [OF _ g(1)] assms(1) g(2) by (simp add: registry_ok_def)
qed

lemma default_falls_back:
  assumes "registry_ok r" "r = default_tracks M shares s" "0 < share_of (shares_bps r) u"
  shows "falls_back (paying (shares_bps r)) vectors (track_fallbacks r) u =
     (if u = TRACK_GENERATOR \<and> 0 < share_of (shares_bps r) TRACK_MEMORY
         \<and> \<not> has_positive_weight (vector_of vectors TRACK_GENERATOR) then Some TRACK_MEMORY else None)"
proof (cases "track_fallbacks r = []")
  case True
  then have "u \<noteq> TRACK_GENERATOR" using assms generator_share_zero by force
  with True show ?thesis by (simp add: falls_back_def)
next
  case False
  then have fb: "track_fallbacks r = [(TRACK_GENERATOR, TRACK_MEMORY)]" using assms(2) default_fallbacks by metis
  have "TRACK_MEMORY \<noteq> TRACK_GENERATOR" by (simp add: track_ids)
  then show ?thesis
    using share_of_paying(2) [OF assms(1), of TRACK_MEMORY] by (simp add: falls_back_def fb del: set_map)
qed

text \<open>After the tracks that folded nobody hand over their share, the split still allots exactly the
  basis points of the paying tracks. A generator track that folded nobody gives its whole share to
  a paying memory track, and every other track keeps its own.\<close>

theorem claimed_split:
  assumes "build_default_registry M shares s = Inr r"
  shows "sum_list (dict_values (claimed_shares_bps r vectors)) = total_active_bps r
    \<and> (let configured = share_of (shares_bps r);
           moves = (0 < configured TRACK_MEMORY \<and> \<not> has_positive_weight (vector_of vectors TRACK_GENERATOR))
       in share_of (claimed_shares_bps r vectors) t =
            (if moves \<and> t = TRACK_GENERATOR then 0
             else if moves \<and> t = TRACK_MEMORY then configured TRACK_MEMORY + configured TRACK_GENERATOR
             else configured t))"
proof -
  obtain sh where r: "r = default_tracks M sh s" "registry_ok r"
    using assms safe_registry_ok by (auto simp: build_default_registry_eq split: if_splits)
  let ?c = "share_of (shares_bps r)" and ?G = TRACK_GENERATOR and ?K = "dict_keys (paying (shares_bps r))"
  define moves where "moves \<longleftrightarrow> 0 < ?c TRACK_MEMORY \<and> \<not> has_positive_weight (vector_of vectors ?G)"
  have nn: "0 \<le> ?c t" for t
    using effective_bps_range [OF r(2)] r(2)
    by (intro share_of_nonneg) (auto simp: shares_bps_pairs registry_ok_def active_eligible_def)
  have fb: "falls_back (paying (shares_bps r)) vectors (track_fallbacks r) u = (if u = ?G \<and> moves then Some TRACK_MEMORY else None)"
    if "u \<in> set ?K" for u
    using default_falls_back [OF r(2,1)] that unfolding share_of_paying(2) [OF r(2)] moves_def by auto
  have "(\<Sum>u\<leftarrow>?K. moved_to (paying (shares_bps r)) vectors (track_fallbacks r) t u)
      = (\<Sum>u\<leftarrow>?K. if u = ?G then (if moves \<and> t = TRACK_MEMORY then ?c ?G else 0) else 0)"
    using fb by (intro arg_cong [of _ _ sum_list] map_cong) (auto simp: moved_to_def share_of_paying [OF r(2)] simp del: set_map)
  also have "\<dots> = (if ?G \<in> set ?K then (if moves \<and> t = TRACK_MEMORY then ?c ?G else 0) else 0)"
  proof -
    have "distinct ks \<Longrightarrow> (\<Sum>u\<leftarrow>ks. if u = g then b else 0) = (if g \<in> set ks then b else 0)"
      for ks and g :: string and b :: int by (induction ks) auto
    then show ?thesis unfolding paying_def using distinct_map_filter [OF distinct_shares_bps] by blast
  qed
  finally have moved: "(\<Sum>u\<leftarrow>?K. moved_to (paying (shares_bps r)) vectors (track_fallbacks r) t u)
      = (if moves \<and> t = TRACK_MEMORY then ?c ?G else 0)"
    using nn [of ?G] share_of_paying(2) [OF r(2), of ?G] by (auto simp del: set_map)
  have own: "(if falls_back (paying (shares_bps r)) vectors (track_fallbacks r) t \<noteq> None then 0 else ?c t)
      = (if t = ?G \<and> moves then 0 else ?c t)"
    using fb [of t] nn [of t] share_of_paying(2) [OF r(2), of t] by (cases "t \<in> set ?K") (auto simp del: set_map)
  have "share_of (claimed_shares_bps r vectors) t =
      (if t = ?G \<and> moves then 0 else ?c t) + (if moves \<and> t = TRACK_MEMORY then ?c ?G else 0)"
    unfolding claimed_shares_bps_def reassign_closed_form [OF distinct_shares_bps] share_of_paying(1) [OF r(2)] moved own ..
  moreover have "TRACK_MEMORY \<noteq> ?G" by (simp add: track_ids)
  ultimately show ?thesis using claimed_total [OF r(2)] by (auto simp: Let_def moves_def)
qed

definition paying_settings :: track_settings where
  "paying_settings = shadow_settings\<lparr>ts_generator_state := ACTIVE, ts_generator_weight_eligible := True\<rparr>"

theorem claimed_split_witness:
  "share_of (claimed_shares_bps (default_tracks example_libm [(''memory'', 9000), (''generator'', 1000)] paying_settings)
     [(''memory'', [(''m'', Fin 1)])]) ''memory'' = 10000"
proof -
  let ?r = "default_tracks example_libm [(''memory'', 9000), (''generator'', 1000)] paying_settings"
  have ok: "registry_ok ?r"
    by (simp add: registry_ok_def default_tracks_def share_or_def track_ids BASIS_POINT_SCALE_def
        total_active_bps_def effective_bps_def draws_emission_def paying_settings_def shadow_settings_def PAYING_STATES_def)
  then have "build_default_registry example_libm [(''memory'', 9000), (''generator'', 1000)] paying_settings = Inr ?r"
    by (simp add: build_default_registry_eq)
  moreover have "share_of (shares_bps ?r) TRACK_MEMORY = 9000" "share_of (shares_bps ?r) TRACK_GENERATOR = 1000"
    using ok by (simp_all add: shares_bps_pairs registry_ok_def default_tracks_def active_eligible_def
      draws_emission_def effective_bps_def share_of_def track_ids share_or_def paying_settings_def shadow_settings_def PAYING_STATES_def)
  ultimately show ?thesis
    using claimed_split [of example_libm "[(''memory'', 9000), (''generator'', 1000)]" paying_settings ?r
        "[(''memory'', [(''m'', Fin 1)])]" TRACK_MEMORY]
    by (simp add: Let_def track_ids vector_of_def has_positive_weight_def)
qed

end
