(* ===== verification/Service_Weights.thy ===== *)
theory Service_Weights
  imports Weights_Tracks
begin

section \<open>Service-first weights and the split of service earnings\<close>

text \<open>
  Models \<^verbatim>\<open>ditto_screening_protocol/treasury_weight_math.py\<close>. \<open>service_first_weights\<close> reserves the
  service share of a weight vector before the miners and the burn; \<open>plan_service_distribution\<close>
  splits the collector's attributed earnings among the holding wallets with integer
  largest-remainder rounding. Arguments have the types the source annotates, so its tests for a
  \<^verbatim>\<open>bool\<close> or a non-\<^verbatim>\<open>int\<close> are the types here.
\<close>

subsection \<open>The weight vector\<close>

fun py_max :: "pyfloat \<Rightarrow> pyfloat list \<Rightarrow> pyfloat" where
  "py_max m [] = m"
| "py_max m (x # xs) = py_max (if flt m x then x else m) xs"

definition share_invalid :: "pyfloat \<Rightarrow> bool" where
  "share_invalid share \<longleftrightarrow> \<not> isfinite share \<or> \<not> (fle (Fin 0) share \<and> fle share (Fin 1))"

definition service_miners :: "weight_vector \<Rightarrow> string \<Rightarrow> string \<Rightarrow> weight_vector" where
  "service_miners weights collector_hotkey burn_hotkey =
     (let excluded = (if burn_hotkey \<noteq> [] then {burn_hotkey} else {})
            \<union> (if collector_hotkey \<noteq> [] then {collector_hotkey} else {})
      in filter (\<lambda>(h, w). h \<notin> excluded \<and> flt (Fin 0) w) weights)"

definition miner_budget :: "weight_vector \<Rightarrow> pyfloat \<Rightarrow> pyfloat \<Rightarrow> pyfloat \<Rightarrow> pyfloat" where
  "miner_budget miners service burn_share paid_miner_fraction =
     (if miners \<noteq> [] then fmul (fmul (fsub (Fin 1) service) (fsub (Fin 1) burn_share)) paid_miner_fraction
      else Fin 0)"

text \<open>The miners' part of the vector: scaled by the largest weight, then normalized to the budget.\<close>

definition scaled_weights :: "weight_vector \<Rightarrow> weight_vector" where
  "scaled_weights miners = (case dict_values miners of
     [] \<Rightarrow> []
   | m # ms \<Rightarrow> map (\<lambda>(h, w). (h, fdiv w (py_max m ms))) miners)"

definition miner_part :: "weight_vector \<Rightarrow> pyfloat \<Rightarrow> weight_vector" where
  "miner_part miners miner =
     (let scaled = scaled_weights miners; total = fsum (dict_values scaled)
      in map (\<lambda>(h, w). (h, fmul (fdiv w total) miner)) scaled)"

definition service_first_weights ::
  "weight_vector \<Rightarrow> int \<Rightarrow> pyfloat \<Rightarrow> string \<Rightarrow> bool \<Rightarrow> string \<Rightarrow> pyfloat \<Rightarrow> py_error + weight_vector" where
  "service_first_weights weights service_bps burn_share collector_hotkey collector_verified burn_hotkey
      paid_miner_fraction =
     (if \<not> (0 \<le> service_bps \<and> service_bps \<le> 10000)
      then Inl (ValueError ''service allocation must be between 0 and 10000 bps'')
      else if share_invalid burn_share \<or> share_invalid paid_miner_fraction
      then Inl (ValueError ''invalid burn or paid miner share'')
      else if service_bps \<noteq> 0 \<and> (\<not> collector_verified \<or> collector_hotkey = [] \<or> collector_hotkey = burn_hotkey)
      then Inl (ValueError ''service collector identity is not independently verified'')
      else if list_ex (\<lambda>w. \<not> isfinite w \<or> flt w (Fin 0)) (dict_values weights)
      then Inl (ValueError ''invalid miner vector'')
      else
        let miners = service_miners weights collector_hotkey burn_hotkey;
            service = itruediv service_bps 10000;
            miner = miner_budget miners service burn_share paid_miner_fraction;
            paid = (if miner \<noteq> Fin 0 then miner_part miners miner else []);
            served = (if service \<noteq> Fin 0 then dict_set collector_hotkey service paid else paid);
            residual = fsub (fsub (Fin 1) service) miner
        in if flt (Fin 0) residual
           then (if burn_hotkey = [] then Inl (ValueError ''burn hotkey is required'')
                 else Inr (dict_set burn_hotkey residual served))
           else Inr served)"

subsection \<open>The distribution of service earnings\<close>

record service_destination =
  sd_bucket_id :: string
  sd_allocation_bps :: int
  sd_holding_coldkey :: string

record service_distribution =
  dn_bucket_id :: string
  dn_holding_coldkey :: string
  dn_alpha_rao :: int

definition destination_invalid :: "string \<Rightarrow> service_destination \<Rightarrow> bool" where
  "destination_invalid collector_coldkey d \<longleftrightarrow>
     sd_bucket_id d = [] \<or> sd_holding_coldkey d = [] \<or> sd_holding_coldkey d = collector_coldkey
     \<or> \<not> (0 \<le> sd_allocation_bps d \<and> sd_allocation_bps d \<le> 10000)"

definition remainder_key :: "int \<Rightarrow> int \<Rightarrow> service_destination list \<Rightarrow> nat \<Rightarrow> int \<times> string" where
  "remainder_key attributed pool ordered i =
     (- (attributed * sd_allocation_bps (ordered ! i) mod pool), sd_bucket_id (ordered ! i))"

fun add_dust :: "int list \<Rightarrow> nat list \<Rightarrow> int list" where
  "add_dust amounts [] = amounts"
| "add_dust amounts (i # is) = add_dust (amounts[i := amounts ! i + 1]) is"

text \<open>The amounts of the destinations that have an allocation, in bucket order.\<close>

definition service_amounts :: "int \<Rightarrow> int \<Rightarrow> service_destination list \<Rightarrow> int list" where
  "service_amounts attributed pool ordered =
     (let amounts = map (\<lambda>d. attributed * sd_allocation_bps d div pool) ordered;
          dust = attributed - sum_list amounts;
          remainders = sort_key (remainder_key attributed pool ordered) [0..<length ordered]
      in add_dust amounts (slice_to dust remainders))"

definition ordered_destinations :: "service_destination list \<Rightarrow> service_destination list" where
  "ordered_destinations ds = sort_key sd_bucket_id (filter (\<lambda>d. sd_allocation_bps d \<noteq> 0) ds)"

definition plan_service_distribution ::
  "int \<Rightarrow> int \<Rightarrow> string \<Rightarrow> service_destination list \<Rightarrow> py_error + service_distribution list" where
  "plan_service_distribution attributed available collector_coldkey destinations =
     and_then (require (0 \<le> attributed \<and> 0 \<le> available) ''amounts must be nonnegative integer alpha rao'') (\<lambda>_.
     and_then (require (attributed \<le> available) ''attributed earnings exceed available collector stake'') (\<lambda>_.
     and_then (require (collector_coldkey \<noteq> [] \<and> destinations \<noteq> [] \<and> length destinations \<le> 20)
       ''collector and service destinations are required'') (\<lambda>_.
     and_then (require (card (sd_bucket_id ` set destinations) = length destinations) ''duplicate bucket'') (\<lambda>_.
     and_then (require (card (sd_holding_coldkey ` set destinations) = length destinations) ''duplicate holding wallet'') (\<lambda>_.
     and_then (require (\<not> list_ex (destination_invalid collector_coldkey) destinations) ''invalid service destination'') (\<lambda>_.
     (let total = sum_list (map sd_allocation_bps destinations) in
      and_then (require (0 < total \<and> total \<le> 10000) ''service pool must be between 1 and 10000 bps'') (\<lambda>_.
       (let ordered = ordered_destinations destinations in
        Inr (map (\<lambda>(d, amount). \<lparr>dn_bucket_id = sd_bucket_id d, dn_holding_coldkey = sd_holding_coldkey d,
                     dn_alpha_rao = amount\<rparr>)
              (filter (\<lambda>(d, amount). amount \<noteq> 0)
                (zip ordered (service_amounts attributed total ordered)))))))))))))"

subsection \<open>Dust\<close>

lemma card_image_length: "card (f ` set xs) = length xs \<longleftrightarrow> distinct (map f xs)"
  using card_distinct [of "map f xs"] distinct_card [of "map f xs"] by auto

lemma length_add_dust [simp]: "length (add_dust amounts is) = length amounts"
  by (induction amounts "is" rule: add_dust.induct) auto

lemma nth_add_dust:
  "distinct is \<Longrightarrow> j < length amounts \<Longrightarrow> add_dust amounts is ! j = amounts ! j + (if j \<in> set is then 1 else 0)"
proof (induction amounts "is" rule: add_dust.induct)
  case (2 amounts i "is")
  then show ?case by (cases "j = i") auto
qed simp

lemma sum_list_bump: "i < length xs \<Longrightarrow> sum_list (xs[i := xs ! i + 1]) = sum_list xs + (1 :: int)"
  by (induction xs arbitrary: i) (auto split: nat.split)

lemma sum_add_dust:
  "set is \<subseteq> {..<length amounts} \<Longrightarrow> sum_list (add_dust amounts is) = sum_list amounts + int (length is)"
  by (induction amounts "is" rule: add_dust.induct) (auto simp: sum_list_bump)

text \<open>The floors of the exact shares lose less than one unit per destination.\<close>

lemma sum_floor_remainder:
  fixes a T :: int
  assumes "T > 0"
  shows "a * sum_list bs = T * sum_list (map (\<lambda>b. a * b div T) bs) + sum_list (map (\<lambda>b. a * b mod T) bs)"
    and "0 \<le> sum_list (map (\<lambda>b. a * b mod T) bs)"
    and "sum_list (map (\<lambda>b. a * b mod T) bs) \<le> T * int (length (filter (\<lambda>b. a * b mod T > 0) bs))"
proof -
  show "a * sum_list bs = T * sum_list (map (\<lambda>b. a * b div T) bs) + sum_list (map (\<lambda>b. a * b mod T) bs)"
    by (induction bs) (auto simp: algebra_simps)
  show "0 \<le> sum_list (map (\<lambda>b. a * b mod T) bs)"
    using assms by (induction bs) auto
  show "sum_list (map (\<lambda>b. a * b mod T) bs) \<le> T * int (length (filter (\<lambda>b. a * b mod T > 0) bs))"
  proof (induction bs)
    case (Cons b bs)
    then show ?case
      using pos_mod_bound [OF assms, of "a * b"] pos_mod_sign [OF assms, of "a * b"] by (auto simp: algebra_simps)
  qed simp
qed

text \<open>Dust is the sum of the remainders in units of the pool, so it never exceeds the number of
  destinations whose share is not exact.\<close>

lemma dust_bounds:
  fixes a :: int
  assumes "T = sum_list bs" "T > 0"
  defines "dust \<equiv> a - sum_list (map (\<lambda>b. a * b div T) bs)"
  shows "0 \<le> dust" and "dust \<le> int (length (filter (\<lambda>b. a * b mod T > 0) bs))"
proof -
  have "a * T = T * sum_list (map (\<lambda>b. a * b div T) bs) + sum_list (map (\<lambda>b. a * b mod T) bs)"
    using sum_floor_remainder(1) [OF assms(2), of a bs] unfolding assms(1) [symmetric] .
  then have t: "T * dust = sum_list (map (\<lambda>b. a * b mod T) bs)" by (simp add: dust_def algebra_simps)
  then have "0 \<le> T * dust" using sum_floor_remainder(2) [OF assms(2), where a = a and bs = bs] by simp
  then show "0 \<le> dust" using assms(2) by (simp add: zero_le_mult_iff)
  have "T * dust \<le> T * int (length (filter (\<lambda>b. a * b mod T > 0) bs))"
    unfolding t by (rule sum_floor_remainder(3) [OF assms(2)])
  then show "dust \<le> int (length (filter (\<lambda>b. a * b mod T > 0) bs))" using assms(2) by simp
qed

lemma take_prefix_all:
  "sorted_wrt (\<lambda>x y. P y \<longrightarrow> P x) xs \<Longrightarrow> k \<le> length (filter P xs) \<Longrightarrow> x \<in> set (take k xs) \<Longrightarrow> P x"
proof (induction xs arbitrary: k)
  case (Cons y ys)
  show ?case
  proof (cases "P y")
    case True
    with Cons show ?thesis by (cases k) auto
  next
    case False
    with Cons.prems(1) have "filter P (y # ys) = []" by (auto simp: filter_empty_conv)
    with Cons.prems(2,3) show ?thesis by simp
  qed
qed simp

lemma remainder_order:
  "sorted_wrt (\<lambda>i j. a * sd_allocation_bps (ordered ! j) mod T > 0 \<longrightarrow> a * sd_allocation_bps (ordered ! i) mod T > 0)
     (sort_key (remainder_key a T ordered) is)"
proof -
  have "sorted_wrt (\<lambda>i j. remainder_key a T ordered i \<le> remainder_key a T ordered j) (sort_key (remainder_key a T ordered) is)"
    using sorted_sort_key [of "remainder_key a T ordered" "is"] by (simp add: sorted_wrt_map)
  then show ?thesis by (rule sorted_wrt_mono_rel [rotated]) (auto simp: remainder_key_def less_eq_prod_def)
qed

lemma length_filter_upt: "length (filter (\<lambda>i. P (xs ! i)) [0..<length xs]) = length (filter P xs)"
proof -
  have "filter P xs = filter P (map (\<lambda>i. xs ! i) [0..<length xs])" by (simp add: map_nth)
  then show ?thesis by (simp add: filter_map comp_def)
qed

lemma rounded_share:
  fixes x :: int
  assumes "T > 0" "up \<Longrightarrow> x mod T > 0"
  shows "\<bar>(x div T + (if up then 1 else 0)) * T - x\<bar> < T"
proof -
  have "(x div T + (if up then 1 else 0)) * T - x = (if up then T else 0) - x mod T"
    unfolding distrib_right minus_mod_eq_div_mult [symmetric] by simp
  moreover have "0 \<le> x mod T" "x mod T < T" using assms(1) by simp_all
  ultimately show ?thesis using assms(2) by (cases up) auto
qed

text \<open>The amounts conserve the payout and obey the quota rule: each is its exact share rounded down,
  or rounded up when the share is not whole.\<close>

lemma service_amounts_ok:
  assumes "T = sum_list (map sd_allocation_bps ordered)" "T > 0"
  shows "length (service_amounts a T ordered) = length ordered"
    and "sum_list (service_amounts a T ordered) = a"
    and "i < length ordered \<Longrightarrow>
      \<bar>service_amounts a T ordered ! i * T - a * sd_allocation_bps (ordered ! i)\<bar> < T"
proof -
  let ?am = "map (\<lambda>d. a * sd_allocation_bps d div T) ordered" and ?b = "\<lambda>i. a * sd_allocation_bps (ordered ! i)"
  let ?rs = "sort_key (remainder_key a T ordered) [0..<length ordered]"
  define dust where "dust = a - sum_list ?am"
  have d: "0 \<le> dust" "dust \<le> int (length (filter (\<lambda>d. a * sd_allocation_bps d mod T > 0) ordered))"
    using dust_bounds [OF assms, of a] by (simp_all add: comp_def filter_map dust_def)
  then have k: "nat dust \<le> length (filter (\<lambda>i. ?b i mod T > 0) ?rs)"
    using length_filter_upt [of "\<lambda>d. a * sd_allocation_bps d mod T > 0" ordered]
    by (metis filter_sort length_sort nat_int nat_mono)
  have dt: "distinct (take (nat dust) ?rs)" by (simp add: distinct_take)
  have sub: "set (take (nat dust) ?rs) \<subseteq> {..<length ?am}"
    using set_take_subset [of "nat dust" ?rs] by auto
  have e: "service_amounts a T ordered = add_dust ?am (take (nat dust) ?rs)"
    using d(1) by (simp add: service_amounts_def Let_def slice_to_def dust_def)
  show "length (service_amounts a T ordered) = length ordered" by (simp add: e)
  have "nat dust \<le> length ?rs" using k length_filter_le order_trans by blast
  then have "length (take (nat dust) ?rs) = nat dust" by simp
  then show "sum_list (service_amounts a T ordered) = a"
    unfolding e sum_add_dust [OF sub] using d(1) by (simp add: dust_def)
  show "\<bar>service_amounts a T ordered ! i * T - ?b i\<bar> < T" if i: "i < length ordered"
  proof -
    have up: "?b i mod T > 0" if "i \<in> set (take (nat dust) ?rs)"
      by (rule take_prefix_all [OF remainder_order k that])
    moreover have "service_amounts a T ordered ! i = ?b i div T + (if i \<in> set (take (nat dust) ?rs) then 1 else 0)"
      unfolding e using nth_add_dust [OF dt, of i ?am] i by simp
    ultimately show ?thesis using rounded_share [OF assms(2)] by simp
  qed
qed

interpretation bucket: canonical_order sd_bucket_id sd_bucket_id
  by unfold_locales simp

lemma sum_ordered: "sum_list (map sd_allocation_bps (ordered_destinations ds)) = sum_list (map sd_allocation_bps ds)"
proof -
  have "sum_list (map sd_allocation_bps (ordered_destinations ds))
      = sum_list (map sd_allocation_bps (filter (\<lambda>d. sd_allocation_bps d \<noteq> 0) ds))"
    unfolding ordered_destinations_def by (simp flip: sum_mset_sum_list)
  also have "\<dots> = sum_list (map sd_allocation_bps ds)" by (induction ds) auto
  finally show ?thesis .
qed

lemma plan_Inr:
  assumes "plan_service_distribution a v c ds = Inr out"
  defines "T \<equiv> sum_list (map sd_allocation_bps ds)"
  shows "distinct (map sd_bucket_id ds)" "0 < T" "0 \<le> a" "list_all (\<lambda>d. 0 \<le> sd_allocation_bps d) ds"
    and "out = map (\<lambda>(d, amount). \<lparr>dn_bucket_id = sd_bucket_id d, dn_holding_coldkey = sd_holding_coldkey d, dn_alpha_rao = amount\<rparr>)
      (filter (\<lambda>(d, amount). amount \<noteq> 0) (zip (ordered_destinations ds) (service_amounts a T (ordered_destinations ds))))"
  using assms(1) by (auto simp: plan_service_distribution_def and_then_Inr Let_def card_image_length T_def
      list_ex_iff list_all_iff destination_invalid_def)

text \<open>The plan does not depend on the order the destinations are listed in.\<close>

lemma plan_order_free:
  assumes "mset ds = mset ds'"
  shows "plan_service_distribution a v c ds = plan_service_distribution a v c ds'"
proof -
  have "set ds = set ds'" "length ds = length ds'" "(ds = []) = (ds' = [])"
    using assms by (auto dest: mset_eq_setD mset_eq_length)
  moreover have "sum_list (map sd_allocation_bps ds) = sum_list (map sd_allocation_bps ds')"
    using arg_cong [OF assms, of "image_mset sd_allocation_bps"] by (metis mset_map sum_mset_sum_list)
  moreover have "ordered_destinations ds = ordered_destinations ds'" if "card (sd_bucket_id ` set ds) = length ds"
    using that bucket.order_free_filter [OF assms] by (simp add: ordered_destinations_def card_image_length)
  moreover have "list_ex P ds = list_ex P ds'" for P using assms by (rule list_ex_perm)
  ultimately show ?thesis
    by (auto simp: plan_service_distribution_def require_def)
qed

subsection \<open>Normalized miner weights\<close>

lemma py_max_bounds:
  assumes "list_all isfinite (m # xs)"
  shows "py_max m xs \<in> set (m # xs)" and "\<And>x. x \<in> set (m # xs) \<Longrightarrow> fle x (py_max m xs)"
proof -
  have "py_max m xs \<in> set (m # xs) \<and> (\<forall>x\<in>set (m # xs). fle x (py_max m xs))"
    using assms
  proof (induction m xs rule: py_max.induct)
    case (2 m x xs)
    then obtain q p where f: "m = Fin q" "x = Fin p" by (auto simp: isfinite_iff)
    define t where "t = (if flt m x then x else m)"
    have "list_all isfinite (t # xs)" using 2(2) by (auto simp: t_def)
    then have ih: "py_max t xs \<in> set (t # xs)" "\<forall>y\<in>set (t # xs). fle y (py_max t xs)"
      using 2(1) by (simp_all flip: t_def)
    have "fle m t" "fle x t" by (auto simp: f t_def)
    then have "fle m (py_max t xs)" "fle x (py_max t xs)" using ih(2) by (auto intro: fle_trans [of _ t])
    moreover have "t \<in> {m, x}" by (simp add: t_def)
    ultimately show ?case using ih by (auto simp flip: t_def)
  qed (auto simp: isfinite_iff)
  then show "py_max m xs \<in> set (m # xs)" and "\<And>x. x \<in> set (m # xs) \<Longrightarrow> fle x (py_max m xs)" by auto
qed

lemma scaled_unit:
  assumes "list_all (\<lambda>w. isfinite w \<and> flt (Fin 0) w) (dict_values miners)" "miners \<noteq> []"
  shows "list_all unit64 (dict_values (scaled_weights miners))" and "Fin 1 \<in> set (dict_values (scaled_weights miners))"
proof -
  obtain h m ms where e: "miners = (h, m) # ms" using assms(2) by (cases miners) auto
  let ?M = "py_max m (dict_values ms)"
  have fin: "list_all isfinite (m # dict_values ms)" using assms(1) by (auto simp: e list_all_iff)
  have M: "?M \<in> set (dict_values miners)" "\<And>w. w \<in> set (dict_values miners) \<Longrightarrow> fle w ?M"
    using py_max_bounds [OF fin] by (simp_all add: e)
  then obtain q where q: "?M = Fin q" "0 < q" using assms(1) by (fastforce simp: list_all_iff isfinite_iff)
  have v: "dict_values (scaled_weights miners) = map (\<lambda>w. fdiv w (Fin q)) (dict_values miners)"
    using q by (simp add: scaled_weights_def e case_prod_beta comp_def)
  have "unit64 (fdiv w (Fin q))" if w: "w \<in> set (dict_values miners)" for w
  proof -
    obtain x where "w = Fin x" "0 < x" using w assms(1) by (fastforce simp: list_all_iff isfinite_iff)
    with M(2) [OF w] q show ?thesis by (auto simp: float_simps intro!: rnd64_unit)
  qed
  then show "list_all unit64 (dict_values (scaled_weights miners))" unfolding v by (simp add: list_all_iff)
  have "fdiv (Fin q) (Fin q) = Fin 1" using q(2) is64_numerals(2) by (simp add: float_simps is64_def)
  then show "Fin 1 \<in> set (dict_values (scaled_weights miners))"
    unfolding v using M(1) q(1) by (metis image_eqI set_map)
qed

lemma fsum_ge_one:
  assumes "list_all unit64 xs" "Fin 1 \<in> set xs"
  shows "Fin 1 \<le> fsum xs" and "fsum xs \<noteq> NaN"
proof -
  have nn: "0 \<le> sum_list (map fin_val xs)" if "list_all unit64 xs" for xs
    using that by (induction xs) (auto elim!: unit64E simp: fin_val_def)
  have fin_val_1: "fin_val (Fin 1) = 1" by (simp add: fin_val_def)
  have "1 \<le> sum_list (map fin_val xs)"
    using assms
  proof (induction xs)
    case (Cons x xs)
    then show ?case
      using nn [of xs] nn [of "[x]"] by (cases "x = Fin 1") (auto simp: fin_val_1)
  qed simp
  moreover have "fsum xs = rnd64 (sum_list (map fin_val xs))"
    using assms(1) by (intro fsum_finite) (auto simp: list_all_iff intro: unit64_isfinite)
  ultimately show "Fin 1 \<le> fsum xs" "fsum xs \<noteq> NaN" using b64.rd_ge [of 1] by simp_all
qed

lemma fmul_le_right:
  assumes "unit64 x" "unit64 y" shows "fle (Fin 0) (fmul x y) \<and> fle (fmul x y) y"
proof -
  obtain p q where x: "x = Fin p" "0 \<le> p" "p \<le> 1" and y: "y = Fin q" "0 \<le> q" "is64 q"
    using assms by (auto elim!: unit64E)
  have "p * q \<le> q" using x y by (simp add: mult_left_le_one_le)
  then have "rnd64 (p * q) \<le> Fin q" using y(3) by (rule b64.rd_le)
  moreover have "Fin 0 \<le> rnd64 (p * q)" using x y by (intro b64.rd_ge) auto
  ultimately show ?thesis by (simp add: x y float_simps fle_def)
qed

lemma miner_part_bounds:
  assumes "list_all (\<lambda>w. isfinite w \<and> flt (Fin 0) w) (dict_values miners)" "unit64 miner" "(h, x) \<in> set (miner_part miners miner)"
  shows "fle (Fin 0) x \<and> fle x miner" and "h \<in> set (dict_keys miners)"
proof -
  have ne: "miners \<noteq> []" using assms(3) by (auto simp: miner_part_def scaled_weights_def Let_def)
  note sc = scaled_unit [OF assms(1) ne] and ge = fsum_ge_one [OF scaled_unit [OF assms(1) ne]]
  obtain w where w: "(h, w) \<in> set (scaled_weights miners)" "x = fmul (fdiv w (fsum (dict_values (scaled_weights miners)))) miner"
    using assms(3) by (auto simp: miner_part_def Let_def)
  have "unit64 w" using sc(1) w(1) by (auto simp: list_all_iff)
  then have "unit64 (fdiv w (fsum (dict_values (scaled_weights miners))))"
    using ge by (cases "fsum (dict_values (scaled_weights miners))")
      (auto elim!: unit64E simp: float_simps fdiv_def intro!: rnd64_unit)
  then show "fle (Fin 0) x \<and> fle x miner" unfolding w(2) by (rule fmul_le_right [OF _ assms(2)])
  show "h \<in> set (dict_keys miners)" using w(1) by (force simp: scaled_weights_def split: list.splits)
qed

lemma keys_miner_part: "dict_keys (miner_part miners miner) = dict_keys miners"
  by (auto simp: miner_part_def scaled_weights_def Let_def case_prod_beta comp_def split: list.split)

lemma service_unit:
  assumes "0 \<le> bps" "bps \<le> 10000"
  shows "unit64 (itruediv bps 10000)" and "itruediv bps 10000 = Fin 0 \<longleftrightarrow> bps = 0"
proof -
  show "unit64 (itruediv bps 10000)" using assms unfolding itruediv_def by (intro rnd64_unit) auto
  have "is64 (1 / 2 ^ 14)" by code_simp
  moreover have "1 / 2 ^ 14 \<le> (of_int bps :: rat) / of_int 10000" if "bps \<noteq> 0"
  proof -
    have "(1 :: rat) \<le> of_int bps" using assms that by simp
    then show ?thesis by simp
  qed
  ultimately have "Fin (1 / 2 ^ 14) \<le> itruediv bps 10000" if "bps \<noteq> 0"
    using that b64.rd_ge unfolding itruediv_def by blast
  then show "itruediv bps 10000 = Fin 0 \<longleftrightarrow> bps = 0" by (cases "bps = 0") (auto simp: itruediv_def)
qed

lemma budget_unit:
  assumes "unit64 service" "\<not> share_invalid burn" "\<not> share_invalid paid"
  shows "unit64 (miner_budget miners service burn paid)"
proof -
  obtain b p where "burn = Fin b" "0 \<le> b" "b \<le> 1" "paid = Fin p" "0 \<le> p" "p \<le> 1"
    using assms(2,3) by (auto simp: share_invalid_def isfinite_iff)
  moreover from this have "unit64 (fsub (Fin 1) burn)" by (auto simp: float_simps intro!: rnd64_unit)
  then have "unit64 (fmul (fsub (Fin 1) service) (fsub (Fin 1) burn))"
    using one_minus_unit [OF assms(1)] by (intro fmul_unit)
  then obtain u where "fmul (fsub (Fin 1) service) (fsub (Fin 1) burn) = Fin u" "0 \<le> u" "u \<le> 1" by (auto elim: unit64E)
  ultimately show ?thesis by (auto simp: miner_budget_def float_simps intro!: rnd64_unit mult_le_one)
qed

lemma plan_rows:
  assumes "plan_service_distribution attributed available collector_coldkey destinations = Inr rows"
  shows "sum_list (map dn_alpha_rao rows) = attributed
    \<and> sorted_wrt (<) (map dn_bucket_id rows)
    \<and> list_all (\<lambda>x. 0 < dn_alpha_rao x \<and> list_ex (\<lambda>d. dn_bucket_id x = sd_bucket_id d
          \<and> dn_holding_coldkey x = sd_holding_coldkey d
          \<and> \<bar>dn_alpha_rao x * sum_list (map sd_allocation_bps destinations) - attributed * sd_allocation_bps d\<bar>
              < sum_list (map sd_allocation_bps destinations)) destinations) rows"
proof (intro conjI)
  let ?T = "sum_list (map sd_allocation_bps destinations)" and ?os = "ordered_destinations destinations"
  let ?am = "service_amounts attributed ?T ?os"
  note plan = plan_Inr [OF assms]
  note am = service_amounts_ok [OF sum_ordered [symmetric] plan(2), where a = attributed]
  let ?z = "filter (\<lambda>(d, amount). amount \<noteq> 0) (zip ?os ?am)"
  have "sum_list (map snd (filter (\<lambda>(d, amount). amount \<noteq> 0) xs)) = sum_list (map snd xs)"
    for xs :: "(service_destination \<times> int) list" by (induction xs) auto
  then show "sum_list (map dn_alpha_rao rows) = attributed"
    using am(1,2) by (simp add: plan(5) case_prod_beta comp_def)
  have b: "map dn_bucket_id rows = map (sd_bucket_id \<circ> fst) ?z" by (simp add: plan(5) case_prod_beta comp_def)
  have m: "mset ?os = mset (filter (\<lambda>d. sd_allocation_bps d \<noteq> 0) destinations)" by (simp add: ordered_destinations_def)
  have "distinct (map sd_bucket_id ?os)" using distinct_map_perm [OF m] distinct_map_filter [OF plan(1)] by blast
  moreover have "sorted (map sd_bucket_id ?os)" by (simp add: ordered_destinations_def)
  ultimately have "sorted_wrt (<) (map sd_bucket_id ?os)" by (simp add: strict_sorted_iff)
  then have "sorted_wrt (<) (map (sd_bucket_id \<circ> fst) (zip ?os ?am))"
    using am(1) by (simp add: map_fst_zip flip: map_map)
  then show "sorted_wrt (<) (map dn_bucket_id rows)"
    unfolding b sorted_wrt_map by (rule sorted_wrt_filter)
  show "list_all (\<lambda>x. 0 < dn_alpha_rao x \<and> list_ex (\<lambda>d. dn_bucket_id x = sd_bucket_id d
          \<and> dn_holding_coldkey x = sd_holding_coldkey d
          \<and> \<bar>dn_alpha_rao x * ?T - attributed * sd_allocation_bps d\<bar> < ?T) destinations) rows"
  proof (unfold list_all_iff, rule ballI)
    fix x assume "x \<in> set rows"
    then obtain i where i: "i < length ?os" "?am ! i \<noteq> 0"
        "x = \<lparr>dn_bucket_id = sd_bucket_id (?os ! i), dn_holding_coldkey = sd_holding_coldkey (?os ! i), dn_alpha_rao = ?am ! i\<rparr>"
      by (auto simp: plan(5) set_zip)
    have d: "?os ! i \<in> set destinations"
      using nth_mem [OF i(1)] by (auto simp: ordered_destinations_def)
    have q: "\<bar>?am ! i * ?T - attributed * sd_allocation_bps (?os ! i)\<bar> < ?T" by (rule am(3) [OF i(1)])
    have "0 \<le> attributed * sd_allocation_bps (?os ! i)" using plan(3,4) d by (simp add: list_all_iff)
    with q have "- 1 * ?T < ?am ! i * ?T" by linarith
    then have "- 1 < ?am ! i" unfolding mult_less_cancel_right using plan(2) by simp
    with i d q show "0 < dn_alpha_rao x \<and> list_ex (\<lambda>d. dn_bucket_id x = sd_bucket_id d
          \<and> dn_holding_coldkey x = sd_holding_coldkey d
          \<and> \<bar>dn_alpha_rao x * ?T - attributed * sd_allocation_bps d\<bar> < ?T) destinations"
      by (auto simp: list_ex_iff)
  qed
qed

subsection \<open>Properties\<close>

text \<open>C22: A distribution plan pays out the attributed earnings to the last unit: the amounts are
  positive and sum to the attributed total, at most one row per bucket in bucket order, and each
  row pays a listed destination its exact proportional share rounded to a neighbouring integer.\<close>

theorem distribution_conserves:
  assumes "plan_service_distribution attributed available collector_coldkey destinations = Inr rows"
  shows "sum_list (map dn_alpha_rao rows) = attributed
    \<and> sorted_wrt (<) (map dn_bucket_id rows)
    \<and> list_all (\<lambda>x. 0 < dn_alpha_rao x \<and> list_ex (\<lambda>d. dn_bucket_id x = sd_bucket_id d
          \<and> dn_holding_coldkey x = sd_holding_coldkey d
          \<and> \<bar>dn_alpha_rao x * sum_list (map sd_allocation_bps destinations) - attributed * sd_allocation_bps d\<bar>
              < sum_list (map sd_allocation_bps destinations)) destinations) rows"
  by (rule plan_rows [OF assms])

definition example_destinations :: "service_destination list" where
  "example_destinations =
     [\<lparr>sd_bucket_id = ''compute'', sd_allocation_bps = 300, sd_holding_coldkey = ''w1''\<rparr>,
      \<lparr>sd_bucket_id = ''audit'', sd_allocation_bps = 300, sd_holding_coldkey = ''w2''\<rparr>,
      \<lparr>sd_bucket_id = ''research'', sd_allocation_bps = 300, sd_holding_coldkey = ''w3''\<rparr>]"

theorem distribution_conserves_witness:
  "sum_list (map dn_alpha_rao [\<lparr>dn_bucket_id = ''audit'', dn_holding_coldkey = ''w2'', dn_alpha_rao = 34\<rparr>,
     \<lparr>dn_bucket_id = ''compute'', dn_holding_coldkey = ''w1'', dn_alpha_rao = 33\<rparr>,
     \<lparr>dn_bucket_id = ''research'', dn_holding_coldkey = ''w3'', dn_alpha_rao = 33\<rparr>]) = 100"
proof -
  have "plan_service_distribution 100 120 ''cold'' example_destinations
    = Inr [\<lparr>dn_bucket_id = ''audit'', dn_holding_coldkey = ''w2'', dn_alpha_rao = 34\<rparr>,
     \<lparr>dn_bucket_id = ''compute'', dn_holding_coldkey = ''w1'', dn_alpha_rao = 33\<rparr>,
     \<lparr>dn_bucket_id = ''research'', dn_holding_coldkey = ''w3'', dn_alpha_rao = 33\<rparr>]" by code_simp
  from distribution_conserves [OF this] show ?thesis by simp
qed

lemma service_first_Inr:
  assumes "service_first_weights weights bps burn collector verified burn_hotkey paid = Inr out"
  defines "miners \<equiv> service_miners weights collector burn_hotkey"
  defines "miner \<equiv> miner_budget miners (itruediv bps 10000) burn paid"
  defines "residual \<equiv> fsub (fsub (Fin 1) (itruediv bps 10000)) miner"
  defines "share \<equiv> if miner \<noteq> Fin 0 then miner_part miners miner else []"
  shows "0 \<le> bps" "bps \<le> 10000" "\<not> share_invalid burn" "\<not> share_invalid paid"
    and "bps \<noteq> 0 \<Longrightarrow> verified \<and> collector \<noteq> [] \<and> collector \<noteq> burn_hotkey"
    and "list_all (\<lambda>w. isfinite w \<and> flt (Fin 0) w) (dict_values miners)"
    and "out = (let served = if bps \<noteq> 0 then dict_set collector (itruediv bps 10000) share else share
                in if flt (Fin 0) residual then dict_set burn_hotkey residual served else served)"
    and "flt (Fin 0) residual \<Longrightarrow> burn_hotkey \<noteq> []"
proof -
  show g: "0 \<le> bps" "bps \<le> 10000" "\<not> share_invalid burn" "\<not> share_invalid paid"
    "bps \<noteq> 0 \<Longrightarrow> verified \<and> collector \<noteq> [] \<and> collector \<noteq> burn_hotkey"
    using assms(1) by (auto simp: service_first_weights_def split: if_splits)
  have "\<not> list_ex (\<lambda>w. \<not> isfinite w \<or> flt w (Fin 0)) (dict_values weights)"
    using assms(1) by (auto simp: service_first_weights_def split: if_splits)
  then show "list_all (\<lambda>w. isfinite w \<and> flt (Fin 0) w) (dict_values miners)"
    by (auto simp: miners_def service_miners_def Let_def list_ex_iff list_all_iff)
  note s0 = service_unit(2) [OF g(1,2)]
  show "out = (let served = if bps \<noteq> 0 then dict_set collector (itruediv bps 10000) share else share
      in if flt (Fin 0) residual then dict_set burn_hotkey residual served else served)"
    "flt (Fin 0) residual \<Longrightarrow> burn_hotkey \<noteq> []"
    using assms(1) unfolding service_first_weights_def Let_def s0 miners_def [symmetric] miner_def [symmetric]
      residual_def [symmetric] share_def [symmetric] by (auto split: if_splits)
qed

text \<open>A service-first vector gives the verified collector exactly its basis points, before anyone
  else: when it has a service share, its weight is that share. Every other weight goes to a
  positively weighted miner that is neither the collector nor the burn hotkey, never above the
  budget left for miners, or to the burn hotkey, whose weight is exactly what service and miners
  leave of the whole.\<close>

theorem service_first_spec:
  assumes "service_first_weights weights service_bps burn_share collector verified burn_hotkey paid_fraction = Inr out"
    and "distinct (dict_keys weights)"
  shows "(let miners = service_miners weights collector burn_hotkey;
              service = itruediv service_bps 10000;
              miner = miner_budget miners service burn_share paid_fraction;
              residual = fsub (fsub (Fin 1) service) miner
    in (service_bps \<noteq> 0 \<longrightarrow> verified \<and> dict_get out collector = Some service)
     \<and> (flt (Fin 0) residual \<longrightarrow> dict_get out burn_hotkey = Some residual)
     \<and> list_all (\<lambda>(h, x). service_bps \<noteq> 0 \<and> h = collector \<or> flt (Fin 0) residual \<and> h = burn_hotkey
           \<or> h \<in> set (dict_keys miners) \<and> fle (Fin 0) x \<and> fle x miner) out)"
proof -
  let ?miners = "service_miners weights collector burn_hotkey" and ?service = "itruediv service_bps 10000"
  let ?miner = "miner_budget ?miners ?service burn_share paid_fraction"
  let ?residual = "fsub (fsub (Fin 1) ?service) ?miner"
  let ?share = "if ?miner \<noteq> Fin 0 then miner_part ?miners ?miner else []"
  note f = service_first_Inr [OF assms(1)]
  have in_set: "p \<in> set (dict_set k v d) \<Longrightarrow> p = (k, v) \<or> p \<in> set d" for p k v and d :: weight_vector
    by (induction d) (auto split: if_splits)
  have "unit64 ?miner" by (rule budget_unit [OF service_unit(1) [OF f(1,2)] f(3,4)])
  then have part: "h \<in> set (dict_keys ?miners) \<and> fle (Fin 0) x \<and> fle x ?miner" if "(h, x) \<in> set ?share" for h x
    using miner_part_bounds [OF f(6), of ?miner h x] that by (auto split: if_splits)
  have "(h, x) \<in> set out \<Longrightarrow> service_bps \<noteq> 0 \<and> h = collector \<or> flt (Fin 0) ?residual \<and> h = burn_hotkey
           \<or> h \<in> set (dict_keys ?miners) \<and> fle (Fin 0) x \<and> fle x ?miner" for h x
    unfolding f(7) Let_def using part [of h x] by (auto split: if_splits dest!: in_set simp del: set_map)
  moreover have "service_bps \<noteq> 0 \<Longrightarrow> dict_get out collector = Some ?service"
    using f(5) unfolding f(7) by (simp add: Let_def update_conv')
  moreover have "flt (Fin 0) ?residual \<Longrightarrow> dict_get out burn_hotkey = Some ?residual"
    unfolding f(7) by (simp add: Let_def update_conv')
  ultimately show ?thesis using f(5) by (auto simp: Let_def list_all_iff simp del: set_map)
qed

theorem service_first_spec_witness:
  "dict_get [(''m'', Fin (3 / 8)), (''c'', Fin (1 / 4)), (''b'', Fin (3 / 8))] ''c'' = Some (itruediv 2500 10000)"
proof -
  have "service_first_weights [(''m'', Fin 1), (''c'', Fin 1)] 2500 (Fin (1 / 2)) ''c'' True ''b'' (Fin 1)
      = Inr [(''m'', Fin (3 / 8)), (''c'', Fin (1 / 4)), (''b'', Fin (3 / 8))]" by code_simp
  from service_first_spec [OF this] show ?thesis by (simp add: Let_def)
qed

end
