(* ===== verification/Conservation.thy ===== *)
theory Conservation
  imports Service_Weights
begin

section \<open>A service-first vector sums to one\<close>

text \<open>
  The vector of an enforcing treasury epoch is computed in floats: the miners' weights are scaled,
  normalized and multiplied by their budget, the collector's share is a rounded quotient and the
  burned residual a rounded difference. The receiver of the resulting receipt recomputes the sum
  and refuses a vector that misses one by more than \<open>10 powi (-12)\<close>. This theory bounds the rounding error of
  the whole computation by \<open>2 powi (-49)\<close>, for any vector of at most 4096 weights, which is the
  largest vector a receipt carries.
\<close>

subsection \<open>The error of one rounding\<close>

text \<open>Half a unit in the last place: relative in the normal range, and below any subnormal number
  an absolute term, for which \<open>2 powi (-80)\<close> is more than enough here.\<close>

definition rel_err :: rat where "rel_err = 1 / 2 ^ 53"
definition abs_err :: rat where "abs_err = 1 / 2 ^ 80"

definition rounds_to :: "rat \<Rightarrow> rat \<Rightarrow> bool" where
  "rounds_to q v \<longleftrightarrow> \<bar>v - q\<bar> \<le> q * rel_err + abs_err"

lemma ulp_half:
  assumes "0 < q" shows "ulp q / 2 \<le> q * rel_err + abs_err"
proof (cases "-1022 \<le> expo q")
  case True
  then have "ulp q = 2 powi expo q / 2 ^ 52" by (simp add: ulp_def power_int_diff)
  with expo_bounds(1) [OF assms] show ?thesis by (simp add: rel_err_def abs_err_def field_simps)
next
  case False
  then have "ulp q = 2 powi (-1074)" by (simp add: ulp_def)
  also have "\<dots> \<le> 2 powi (-80)" by (rule power_int_increasing) auto
  also have "\<dots> = abs_err" by (simp add: abs_err_def power_int_def field_simps)
  finally have "ulp q / 2 \<le> abs_err" by (simp add: abs_err_def)
  moreover have "0 \<le> q * rel_err" using assms by (simp add: rel_err_def)
  ultimately show ?thesis by linarith
qed

lemma rnd64_rounds:
  assumes "0 \<le> q" "rnd64 q = Fin v" shows "rounds_to q v"
proof (cases "q = 0")
  case True
  with assms(2) show ?thesis by (simp add: rounds_to_def abs_err_def)
next
  case False
  with assms have q: "0 < q" by simp
  have "v = of_int (rne (q / ulp q)) * ulp q"
    using assms(2) q by (auto simp: rnd64_def rnd_pos_def grid_def Let_def split: if_splits)
  then have "v - q = (of_int (rne (q / ulp q)) - q / ulp q) * ulp q"
    using ulp_pos [of q] by (simp add: algebra_simps less_imp_neq [symmetric])
  then have "\<bar>v - q\<bar> = \<bar>of_int (rne (q / ulp q)) - q / ulp q\<bar> * ulp q" by (simp add: abs_mult)
  also have "\<dots> \<le> 1 / 2 * ulp q" using rne_error by (rule mult_right_mono) simp
  finally show ?thesis using ulp_half [OF q] by (simp add: rounds_to_def)
qed

lemma rounds_unit: "0 \<le> q \<Longrightarrow> q \<le> 1 \<Longrightarrow> rounds_to q v \<Longrightarrow> \<bar>v - q\<bar> \<le> rel_err + abs_err"
  unfolding rounds_to_def by (erule order_trans) (simp add: rel_err_def)

subsection \<open>The miners' part\<close>

text \<open>One weight: a scaled weight is divided by the total and multiplied by the budget.\<close>

lemma normalized_error:
  assumes "0 \<le> s" "s \<le> 1" "1 \<le> t" "0 \<le> m" "m \<le> 1" "rounds_to (s / t) p" "0 \<le> p" "rounds_to (p * m) x"
  shows "\<bar>x - s / t * m\<bar> \<le> s / t * (3 * rel_err) + 3 * abs_err"
proof -
  define a where "a = s / t"
  have a: "0 \<le> a" "a \<le> 1" using assms(1-3) by (auto simp: a_def divide_le_eq)
  have p: "\<bar>p - a\<bar> \<le> a * rel_err + abs_err" using assms(6) by (simp add: rounds_to_def a_def)
  have "\<bar>p * m - a * m\<bar> = \<bar>p - a\<bar> * m" using assms(4) by (simp add: abs_mult flip: left_diff_distrib)
  also have "\<dots> \<le> \<bar>p - a\<bar> * 1" using assms(5) by (intro mult_left_mono) auto
  finally have 1: "\<bar>p * m - a * m\<bar> \<le> a * rel_err + abs_err" using p by simp
  have "p * m \<le> p" using assms(5,7) by (simp add: mult_left_le)
  then have "p * m * rel_err \<le> p * rel_err" by (simp add: rel_err_def)
  then have 2: "\<bar>x - p * m\<bar> \<le> p * rel_err + abs_err" using assms(8) by (simp add: rounds_to_def)
  have "p \<le> a + (a * rel_err + abs_err)" using p by linarith
  then have "p * rel_err \<le> (a + (a * rel_err + abs_err)) * rel_err" by (rule mult_right_mono) (simp add: rel_err_def)
  also have "\<dots> \<le> a * (2 * rel_err) + abs_err" using a by (simp add: rel_err_def abs_err_def field_simps)
  finally have "\<bar>x - a * m\<bar> \<le> a * rel_err + abs_err + (a * (2 * rel_err) + abs_err + abs_err)" using 1 2 by linarith
  then show ?thesis by (simp add: a_def algebra_simps)
qed

lemma normalized_sum_error:
  assumes "list_all2 (\<lambda>s x. 0 \<le> s \<and> \<bar>x - s / t * m\<bar> \<le> s / t * k + e) ss xs"
  shows "\<bar>sum_list xs - sum_list ss / t * m\<bar> \<le> sum_list ss / t * k + of_nat (length ss) * (e :: rat)"
  using assms
proof (induction ss xs rule: list_all2_induct)
  case (Cons s ss x xs)
  have "sum_list (x # xs) - sum_list (s # ss) / t * m = (x - s / t * m) + (sum_list xs - sum_list ss / t * m)"
    by (simp add: algebra_simps add_divide_distrib)
  then have "\<bar>sum_list (x # xs) - sum_list (s # ss) / t * m\<bar> \<le> \<bar>x - s / t * m\<bar> + \<bar>sum_list xs - sum_list ss / t * m\<bar>"
    by (simp only: abs_triangle_ineq)
  with Cons show ?case by (simp add: algebra_simps add_divide_distrib)
qed simp

text \<open>The rounded total against the exact one.\<close>

lemma total_ratio:
  assumes "rounds_to s t" "1 \<le> t" "1 \<le> s"
  shows "\<bar>s / t - 1\<bar> \<le> 3 * rel_err" and "s / t \<le> 2"
proof -
  have st: "\<bar>t - s\<bar> \<le> s * rel_err + abs_err" using assms(1) by (simp add: rounds_to_def)
  have "abs_err \<le> s * (rel_err / 4)" using assms(3) by (simp add: rel_err_def abs_err_def)
  then have d: "\<bar>t - s\<bar> \<le> s * (5 / 4 * rel_err)" using st by (simp add: algebra_simps)
  have "s * (5 / 4 * rel_err) \<le> s / 2" using assms(3) by (simp add: rel_err_def)
  then have "s \<le> 2 * t" using d by linarith
  then show 2: "s / t \<le> 2" using assms(2) by (simp add: divide_le_eq)
  have "s / t - 1 = (s - t) / t" using assms(2) by (simp add: field_simps)
  then have "\<bar>s / t - 1\<bar> = \<bar>t - s\<bar> / t" using assms(2) by (simp add: abs_minus_commute)
  also have "\<dots> \<le> s * (5 / 4 * rel_err) / t" using d assms(2) by (intro divide_right_mono) auto
  also have "\<dots> = s / t * (5 / 4 * rel_err)" by simp
  also have "\<dots> \<le> 2 * (5 / 4 * rel_err)" using 2 by (rule mult_right_mono) (simp add: rel_err_def)
  finally show "\<bar>s / t - 1\<bar> \<le> 3 * rel_err" by (simp add: rel_err_def)
qed

text \<open>All the miners together receive their budget, up to ten relative errors.\<close>

lemma unit_list_sum:
  assumes "list_all unit64 xs"
  shows "0 \<le> sum_list (map fin_val xs)" and "sum_list (map fin_val xs) \<le> of_nat (length xs)"
    and "Fin 1 \<in> set xs \<Longrightarrow> 1 \<le> sum_list (map fin_val xs)"
proof -
  have "0 \<le> sum_list (map fin_val xs) \<and> sum_list (map fin_val xs) \<le> of_nat (length xs)
      \<and> (Fin 1 \<in> set xs \<longrightarrow> 1 \<le> sum_list (map fin_val xs))"
    using assms by (induction xs) (auto elim!: unit64E simp: fin_val_def)
  then show "0 \<le> sum_list (map fin_val xs)" "sum_list (map fin_val xs) \<le> of_nat (length xs)"
    "Fin 1 \<in> set xs \<Longrightarrow> 1 \<le> sum_list (map fin_val xs)" by blast+
qed

lemma miner_part_values:
  assumes "list_all (\<lambda>w. isfinite w \<and> flt (Fin 0) w) (dict_values miners)" "miners \<noteq> []" "unit64 (Fin m)" "length miners \<le> 4096"
  obtains ss xs t where "list_all unit64 ss" "dict_values (miner_part miners (Fin m)) = map Fin xs"
    "rounds_to (sum_list (map fin_val ss)) t" "1 \<le> t" "1 \<le> sum_list (map fin_val ss)" "length ss = length miners"
    "list_all2 (\<lambda>s x. 0 \<le> s \<and> \<bar>x - s / t * m\<bar> \<le> s / t * (3 * rel_err) + 3 * abs_err) (map fin_val ss) xs"
proof -
  define ss where "ss = dict_values (scaled_weights miners)"
  have u: "list_all unit64 ss" "Fin 1 \<in> set ss" using scaled_unit [OF assms(1,2)] by (simp_all add: ss_def)
  let ?S = "sum_list (map fin_val ss)"
  have len: "length ss = length miners" by (simp add: ss_def scaled_weights_def split: list.split)
  have S: "1 \<le> ?S" "?S \<le> 4096" using unit_list_sum(2) [OF u(1)] unit_list_sum(3) [OF u(1,2)] len assms(4)
    by (auto elim!: order_trans)
  have fs: "fsum ss = rnd64 ?S" using u(1) by (intro fsum_finite) (auto simp: list_all_iff intro: unit64_isfinite)
  have "rnd64 ?S \<le> Fin 4096" using S(2) is64_of_int [of 4096] by (intro b64.rd_le) auto
  moreover have "Fin 1 \<le> rnd64 ?S" using S(1) by (intro b64.rd_ge) auto
  ultimately obtain t where t: "rnd64 ?S = Fin t" "1 \<le> t" by (cases "rnd64 ?S") auto
  have m: "0 \<le> m" "m \<le> 1" using assms(3) by (auto elim!: unit64E)
  define f where "f w = fmul (fdiv w (Fin t)) (Fin m)" for w
  have one: "\<exists>x. f w = Fin x \<and> 0 \<le> fin_val w \<and> \<bar>x - fin_val w / t * m\<bar> \<le> fin_val w / t * (3 * rel_err) + 3 * abs_err"
    if w: "unit64 w" for w
  proof -
    obtain q where q: "w = Fin q" "0 \<le> q" "q \<le> 1" using w by (auto elim: unit64E)
    have "unit64 (rnd64 (q / t))" using q t(2) by (intro rnd64_unit) (auto simp: divide_le_eq)
    then obtain p where p: "rnd64 (q / t) = Fin p" "0 \<le> p" "p \<le> 1" by (auto elim: unit64E)
    then have "unit64 (rnd64 (p * m))" using m by (intro rnd64_unit) (auto intro: mult_le_one)
    then obtain x where x: "rnd64 (p * m) = Fin x" by (auto elim: unit64E)
    have "rounds_to (q / t) p" "rounds_to (p * m) x"
      using rnd64_rounds [OF _ p(1)] rnd64_rounds [OF _ x] q t(2) p m by auto
    from normalized_error [OF q(2,3) t(2) m this(1) p(2) this(2)] show ?thesis
      using p(1) x q t(2) by (simp add: f_def float_simps fin_val_def)
  qed
  define xs where "xs = map (fin_val \<circ> f) ss"
  have v: "dict_values (miner_part miners (Fin m)) = map f ss"
    by (simp add: miner_part_def ss_def [symmetric] fs t(1) Let_def case_prod_beta comp_def) (simp add: ss_def f_def)
  also have "\<dots> = map Fin xs" using one u(1) by (fastforce simp: xs_def list_all_iff fin_val_def)
  finally have 1: "dict_values (miner_part miners (Fin m)) = map Fin xs" .
  have "list_all2 (\<lambda>s x. 0 \<le> s \<and> \<bar>x - s / t * m\<bar> \<le> s / t * (3 * rel_err) + 3 * abs_err) (map fin_val ss) xs"
    using one u(1) by (fastforce simp: xs_def list_all_iff list.rel_map fin_val_def intro!: list.rel_refl_strong)
  from that [OF u(1) 1 rnd64_rounds [OF _ t(1)] t(2) S(1) len this] show thesis using S(1) by simp
qed

lemma miner_part_total:
  assumes "list_all (\<lambda>w. isfinite w \<and> flt (Fin 0) w) (dict_values miners)" "miners \<noteq> []" "unit64 (Fin m)" "length miners \<le> 4096"
  shows "list_all isfinite (dict_values (miner_part miners (Fin m)))"
    and "\<bar>sum_list (map fin_val (dict_values (miner_part miners (Fin m)))) - m\<bar> \<le> 10 * rel_err"
proof -
  obtain ss xs t where d: "list_all unit64 ss" "dict_values (miner_part miners (Fin m)) = map Fin xs"
    "rounds_to (sum_list (map fin_val ss)) t" "1 \<le> t" "1 \<le> sum_list (map fin_val ss)" "length ss = length miners"
    "list_all2 (\<lambda>s x. 0 \<le> s \<and> \<bar>x - s / t * m\<bar> \<le> s / t * (3 * rel_err) + 3 * abs_err) (map fin_val ss) xs"
    using miner_part_values [OF assms] .
  let ?r = "sum_list (map fin_val ss) / t"
  show "list_all isfinite (dict_values (miner_part miners (Fin m)))" unfolding d(2) by (simp add: list_all_iff)
  have m: "0 \<le> m" "m \<le> 1" using assms(3) by (auto elim!: unit64E)
  note r = total_ratio [OF d(3-5)]
  have "?r * m - m = (?r - 1) * m" by (simp only: left_diff_distrib mult_1_left)
  then have "\<bar>?r * m - m\<bar> = \<bar>?r - 1\<bar> * m" using m by (simp only: abs_mult abs_of_nonneg)
  also have "\<dots> \<le> \<bar>?r - 1\<bar> * 1" using m by (intro mult_left_mono) auto
  finally have 1: "\<bar>?r * m - m\<bar> \<le> 3 * rel_err" using r(1) by simp
  have "of_nat (length miners) * (3 * abs_err) \<le> 4096 * (3 * abs_err)"
    using assms(4) by (intro mult_right_mono) (auto simp: abs_err_def)
  moreover have "?r * (3 * rel_err) \<le> 2 * (3 * rel_err)" using r(2) by (rule mult_right_mono) (simp add: rel_err_def)
  ultimately have "\<bar>sum_list xs - ?r * m\<bar> \<le> 6 * rel_err + 4096 * (3 * abs_err)"
    using normalized_sum_error [OF d(7)] unfolding length_map d(6) by linarith
  moreover have "4096 * (3 * abs_err) \<le> rel_err" by (simp add: rel_err_def abs_err_def)
  ultimately have "\<bar>sum_list xs - m\<bar> \<le> 10 * rel_err" using 1 by linarith
  moreover have "fin_val \<circ> Fin = id" by (simp add: fin_val_def fun_eq_iff)
  ultimately show "\<bar>sum_list (map fin_val (dict_values (miner_part miners (Fin m)))) - m\<bar> \<le> 10 * rel_err"
    unfolding d(2) by simp
qed

subsection \<open>The whole vector\<close>

text \<open>What the service leaves, what the miners receive and what is burned.\<close>

lemma residual_error:
  assumes "unit64 (Fin s)" "unit64 (Fin m)" "fle (Fin m) (fsub (Fin 1) (Fin s))"
  obtains r where "fsub (fsub (Fin 1) (Fin s)) (Fin m) = Fin r" "0 \<le> r" "r \<le> 1" "\<bar>s + m + r - 1\<bar> \<le> 3 * rel_err"
proof -
  have u: "0 \<le> s" "s \<le> 1" "0 \<le> m" "m \<le> 1" using assms(1,2) by (auto elim!: unit64E)
  obtain a where a: "fsub (Fin 1) (Fin s) = Fin a" "0 \<le> a" "a \<le> 1"
    using one_minus_unit [OF assms(1)] by (auto elim: unit64E)
  have "\<bar>a - (1 - s)\<bar> \<le> rel_err + abs_err"
    using rounds_unit [OF _ _ rnd64_rounds [of "1 - s" a]] a(1) u by (simp add: float_simps)
  moreover have am: "m \<le> a" using assms(3) a(1) by simp
  then have "unit64 (rnd64 (a - m))" using a u by (intro rnd64_unit) auto
  then obtain r where r: "rnd64 (a - m) = Fin r" "0 \<le> r" "r \<le> 1" by (auto elim: unit64E)
  moreover have "\<bar>r - (a - m)\<bar> \<le> rel_err + abs_err"
    using rounds_unit [OF _ _ rnd64_rounds [of "a - m" r]] r(1) am a u by simp
  moreover have "2 * abs_err \<le> rel_err" by (simp add: rel_err_def abs_err_def)
  ultimately have "\<bar>s + m + r - 1\<bar> \<le> 3 * rel_err" by linarith
  with that r a(1) show thesis by (simp add: float_simps)
qed

lemma budget_within:
  assumes "unit64 service" "\<not> share_invalid burn" "\<not> share_invalid paid"
  shows "fle (miner_budget miners service burn paid) (fsub (Fin 1) service)"
proof -
  obtain b p where bp: "burn = Fin b" "0 \<le> b" "b \<le> 1" "paid = Fin p" "0 \<le> p" "p \<le> 1"
    using assms(2,3) by (auto simp: share_invalid_def isfinite_iff)
  have u: "unit64 (fsub (Fin 1) burn)" using bp by (auto simp: float_simps intro!: rnd64_unit)
  note a = one_minus_unit [OF assms(1)]
  then obtain q where q: "fsub (Fin 1) service = Fin q" "0 \<le> q" "is64 q" by (auto elim: unit64E)
  let ?x = "fmul (fsub (Fin 1) service) (fsub (Fin 1) burn)"
  have "?x = fmul (fsub (Fin 1) burn) (fsub (Fin 1) service)" using u a by (auto elim!: unit64E simp: float_simps mult.commute)
  then have x: "fle (Fin 0) ?x" "fle ?x (fsub (Fin 1) service)" "isfinite ?x"
    using fmul_le_right [OF u a] fmul_unit [OF u a] by (auto intro: unit64_isfinite)
  then obtain v where v: "?x = Fin v" "0 \<le> v" "v \<le> q" by (auto simp: isfinite_iff q)
  have "rnd64 (v * p) \<le> Fin q" using v bp q by (intro b64.rd_le) (auto intro: order_trans mult_left_le)
  then show ?thesis using q v bp by (auto simp: miner_budget_def float_simps fle_def)
qed

lemma length_update_le: "length d \<le> length (dict_set k v d)"
  by (induction d) auto

lemma sum_dict_set:
  assumes "k \<notin> set (dict_keys d)"
  shows "sum_list (map f (dict_values (dict_set k v d))) = f v + (sum_list (map f (dict_values d)) :: rat)"
    and "list_all P (dict_values (dict_set k v d)) \<longleftrightarrow> P v \<and> list_all P (dict_values d)"
  using assms by (induction d) auto

lemma service_first_total:
  assumes "service_first_weights weights bps burn collector verified burn_hotkey paid = Inr out" "length out \<le> 4096"
  shows "list_all isfinite (dict_values out)" and "\<bar>sum_list (map fin_val (dict_values out)) - 1\<bar> \<le> 13 * rel_err"
proof -
  note f = service_first_Inr [OF assms(1)]
  let ?miners = "service_miners weights collector burn_hotkey" and ?service = "itruediv bps 10000"
  let ?miner = "miner_budget ?miners ?service burn paid"
  note su = service_unit(1) [OF f(1,2)]
  note mu = budget_unit [OF su f(3,4), of ?miners]
  obtain s m where sm: "?service = Fin s" "?miner = Fin m" "0 \<le> m" using su mu by (auto elim!: unit64E)
  have sm2: "miner_budget ?miners (Fin s) burn paid = Fin m" using sm by simp
  obtain r where r: "fsub (fsub (Fin 1) (Fin s)) (Fin m) = Fin r" "0 \<le> r" "\<bar>s + m + r - 1\<bar> \<le> 3 * rel_err"
    using residual_error [of s m] budget_within [OF su f(3,4), of ?miners] su mu unfolding sm(1) sm2 by metis
  define part where "part = (if Fin m \<noteq> Fin 0 then miner_part ?miners (Fin m) else [])"
  have "length part \<le> length out"
    using f(7) unfolding sm(1) sm2 r(1) by (auto simp: part_def Let_def intro: order_trans length_update_le)
  moreover have "length part = length ?miners" if "m \<noteq> 0"
    using that arg_cong [OF keys_miner_part [of ?miners "Fin m"], of length] by (simp add: part_def)
  ultimately have len: "m \<noteq> 0 \<Longrightarrow> length ?miners \<le> 4096" using assms(2) by simp
  have ne: "m \<noteq> 0 \<Longrightarrow> ?miners \<noteq> []" using sm(2) by (auto simp: miner_budget_def)
  have part: "list_all isfinite (dict_values part)" "\<bar>sum_list (map fin_val (dict_values part)) - m\<bar> \<le> 10 * rel_err"
    using miner_part_total [OF f(6) ne _ len] mu unfolding sm(1) sm2 by (auto simp: part_def rel_err_def)
  have keys: "set (dict_keys part) \<subseteq> set (dict_keys weights) - (if burn_hotkey = [] then {} else {burn_hotkey})
      - (if collector = [] then {} else {collector})"
    unfolding part_def by (auto simp: keys_miner_part service_miners_def Let_def simp del: set_map) force+
  define served where "served = (if bps \<noteq> 0 then dict_set collector (Fin s) part else part)"
  have c: "bps \<noteq> 0 \<Longrightarrow> collector \<notin> set (dict_keys part)" using keys f(5) by auto
  have s0: "bps = 0 \<longleftrightarrow> s = 0" using service_unit(2) [OF f(1,2)] sm(1) by simp
  have sv: "sum_list (map fin_val (dict_values served)) = s + sum_list (map fin_val (dict_values part))"
      "list_all isfinite (dict_values served)"
    using sum_dict_set [OF c] s0 part(1) by (auto simp: served_def fin_val_def)
  have k: "0 < r \<Longrightarrow> burn_hotkey \<notin> set (dict_keys served)"
    using keys f(5,8) unfolding sm(1) sm2 r(1) by (auto simp: served_def update_new c split: if_splits simp del: set_map)
  have out: "out = (if 0 < r then dict_set burn_hotkey (Fin r) served else served)"
    using f(7) unfolding sm(1) sm2 r(1) by (simp add: served_def part_def Let_def)
  show "list_all isfinite (dict_values out)" using sum_dict_set(2) [OF k] sv(2) by (auto simp: out)
  have "sum_list (map fin_val (dict_values out)) = r + sum_list (map fin_val (dict_values served))"
    using sum_dict_set(1) [OF k] r(2) by (auto simp: out fin_val_def)
  then show "\<bar>sum_list (map fin_val (dict_values out)) - 1\<bar> \<le> 13 * rel_err"
    using part(2) r(3) unfolding sv(1) by linarith
qed

end
