(* ===== verification/Treasury.thy ===== *)
theory Treasury
  imports Crn Weights_Tracks
begin

section \<open>Treasury policies and their approval\<close>

text \<open>
  Models \<^verbatim>\<open>ditto_screening_protocol/treasury.py\<close> and \<^verbatim>\<open>treasury_approval.py\<close>: the signed emission
  policy with its buckets and operating ranges, the digest that identifies it, the finalized
  collector identity, the shadow ledger pin, and the verification of an offline approval. A
  \<open>check_\<close> function is the validation pydantic runs when a model is built or revalidated: field
  constraints first, then the model validator, every failure a \<^verbatim>\<open>ValidationError\<close>, which is a
  \<^verbatim>\<open>ValueError\<close>. The hash and the signature verifier are arguments.
\<close>

subsection \<open>Field patterns\<close>

definition is_digest :: "string \<Rightarrow> bool" where
  "is_digest s \<longleftrightarrow> length s = 64 \<and> list_all is_hex s"

definition is_hash :: "string \<Rightarrow> bool" where
  "is_hash s \<longleftrightarrow> take 2 s = ''0x'' \<and> is_digest (drop 2 s)"

definition is_address :: "string \<Rightarrow> bool" where
  "is_address s \<longleftrightarrow> (length s = 47 \<or> length s = 48)
     \<and> list_all (\<lambda>c. c \<in> set ''123456789ABCDEFGHJKLMNPQRSTUVWXYZabcdefghijkmnopqrstuvwxyz'') s"

definition is_bucket_id :: "string \<Rightarrow> bool" where
  "is_bucket_id s \<longleftrightarrow> (case s of [] \<Rightarrow> False
     | c # cs \<Rightarrow> c \<in> set ''abcdefghijklmnopqrstuvwxyz'' \<and> 1 \<le> length cs \<and> length cs \<le> 47
        \<and> list_all (\<lambda>c. c \<in> set ''abcdefghijklmnopqrstuvwxyz0123456789_'') cs)"

definition is_signature :: "string \<Rightarrow> bool" where
  "is_signature s \<longleftrightarrow> take 2 s = ''0x'' \<and> length s = 130 \<and> list_all is_hex (drop 2 s)"

definition in_bps :: "int \<Rightarrow> bool" where
  "in_bps n \<longleftrightarrow> 0 \<le> n \<and> n \<le> 10000"

subsection \<open>Buckets and policies\<close>

record emission_bucket =
  eb_bucket_id :: string
  eb_allocation_bps :: int
  eb_holding_coldkey :: string
  eb_min_allocation_bps :: "int option"
  eb_max_allocation_bps :: "int option"

definition minimum_bps :: "emission_bucket \<Rightarrow> int" where
  "minimum_bps b = (case eb_min_allocation_bps b of None \<Rightarrow> eb_allocation_bps b | Some n \<Rightarrow> n)"

definition maximum_bps :: "emission_bucket \<Rightarrow> int" where
  "maximum_bps b = (case eb_max_allocation_bps b of None \<Rightarrow> eb_allocation_bps b | Some n \<Rightarrow> n)"

definition bucket_ranged :: "emission_bucket \<Rightarrow> bool" where
  "bucket_ranged b \<longleftrightarrow> eb_min_allocation_bps b \<noteq> None"

definition check_bucket :: "emission_bucket \<Rightarrow> py_error + unit" where
  "check_bucket b =
     and_then (require (is_bucket_id (eb_bucket_id b) \<and> in_bps (eb_allocation_bps b) \<and> is_address (eb_holding_coldkey b)
       \<and> opt_all in_bps (eb_min_allocation_bps b) \<and> opt_all in_bps (eb_max_allocation_bps b)) ''bucket field'') (\<lambda>_.
     and_then (require ((eb_min_allocation_bps b = None) = (eb_max_allocation_bps b = None))
       ''allocation range requires both bounds'') (\<lambda>_.
     require (minimum_bps b \<le> eb_allocation_bps b \<and> eb_allocation_bps b \<le> maximum_bps b)
       ''signed default allocation is outside its range''))"

record emission_policy =
  ep_version :: int
  ep_revision :: int
  ep_genesis_hash :: string
  ep_netuid :: int
  ep_collector_hotkey :: string
  ep_collector_coldkey :: string
  ep_collector_policy_digest :: string
  ep_buckets :: "emission_bucket list"

definition policy_service_bps :: "emission_policy \<Rightarrow> int" where
  "policy_service_bps p = sum_list (map eb_allocation_bps (ep_buckets p))"

definition maximum_service_bps :: "emission_policy \<Rightarrow> int" where
  "maximum_service_bps p = sum_list (map maximum_bps (ep_buckets p))"

definition policy_ranged :: "emission_policy \<Rightarrow> bool" where
  "policy_ranged p \<longleftrightarrow> list_ex bucket_ranged (ep_buckets p)"

definition admits :: "emission_policy \<Rightarrow> (string, int) dict \<Rightarrow> bool" where
  "admits p allocations =
     (let bounds = dict_of (map (\<lambda>b. (eb_bucket_id b, (minimum_bps b, maximum_bps b))) (ep_buckets p)) in
      set (dict_keys allocations) = set (dict_keys bounds)
      \<and> list_all (\<lambda>(key, n). case dict_get bounds key of None \<Rightarrow> False | Some (lo, hi) \<Rightarrow> lo \<le> n \<and> n \<le> hi) allocations)"

definition check_policy :: "emission_policy \<Rightarrow> py_error + unit" where
  "check_policy p =
     and_then (require (ep_version p = 1 \<and> 1 \<le> ep_revision p \<and> is_hash (ep_genesis_hash p) \<and> ep_netuid p = 118
       \<and> is_address (ep_collector_hotkey p) \<and> is_address (ep_collector_coldkey p) \<and> is_digest (ep_collector_policy_digest p)
       \<and> 1 \<le> length (ep_buckets p) \<and> length (ep_buckets p) \<le> 20) ''policy field'') (\<lambda>_.
     and_then (collect check_bucket (ep_buckets p)) (\<lambda>_.
     and_then (require (ep_collector_hotkey p \<noteq> ep_collector_coldkey p) ''collector hotkey and coldkey must be distinct'') (\<lambda>_.
     and_then (require (card (eb_bucket_id ` set (ep_buckets p)) = length (ep_buckets p)) ''duplicate treasury bucket'') (\<lambda>_.
     (let wallets = map eb_holding_coldkey (ep_buckets p) in
     and_then (require (card (set wallets) = length wallets
       \<and> {ep_collector_hotkey p, ep_collector_coldkey p} \<inter> set wallets = {})
       ''holding coldkeys must be distinct from collector'') (\<lambda>_.
     require (maximum_service_bps p \<le> 10000) ''combined service allocation exceeds 10000 bps''))))))"

subsection \<open>The policy digest\<close>

text \<open>
  \<^verbatim>\<open>json.dumps(model_dump(mode="json"), sort_keys=True, separators=(",", ":"))\<close>. The strings of a
  validated policy contain no character that JSON escapes. A fixed bucket omits both bounds.
\<close>

definition json_str :: "string \<Rightarrow> string" where
  "json_str s = CHR 0x22 # s @ [CHR 0x22]"

definition json_field :: "string \<Rightarrow> string \<Rightarrow> string" where
  "json_field name body = json_str name @ '':'' @ body"

fun json_join :: "string list \<Rightarrow> string" where
  "json_join [] = []"
| "json_join [x] = x"
| "json_join (x # xs) = x @ '','' @ json_join xs"

definition json_opt :: "int option \<Rightarrow> string" where
  "json_opt n = (case n of None \<Rightarrow> ''null'' | Some i \<Rightarrow> dec_int i)"

definition json_bucket :: "emission_bucket \<Rightarrow> string" where
  "json_bucket b = ''{'' @ json_join (
     [json_field ''allocation_bps'' (dec_int (eb_allocation_bps b)),
      json_field ''bucket_id'' (json_str (eb_bucket_id b)),
      json_field ''holding_coldkey'' (json_str (eb_holding_coldkey b))]
     @ (if eb_min_allocation_bps b = None then []
        else [json_field ''max_allocation_bps'' (json_opt (eb_max_allocation_bps b)),
              json_field ''min_allocation_bps'' (json_opt (eb_min_allocation_bps b))])) @ ''}''"

definition json_policy :: "emission_policy \<Rightarrow> string" where
  "json_policy p = ''{'' @ json_join
     [json_field ''buckets'' (''['' @ json_join (map json_bucket (ep_buckets p)) @ '']''),
      json_field ''collector_coldkey'' (json_str (ep_collector_coldkey p)),
      json_field ''collector_hotkey'' (json_str (ep_collector_hotkey p)),
      json_field ''collector_policy_digest'' (json_str (ep_collector_policy_digest p)),
      json_field ''genesis_hash'' (json_str (ep_genesis_hash p)),
      json_field ''netuid'' (dec_int (ep_netuid p)),
      json_field ''revision'' (dec_int (ep_revision p)),
      json_field ''version'' (dec_int (ep_version p))] @ ''}''"

definition policy_message :: "emission_policy \<Rightarrow> bytes" where
  "policy_message p = ''ditto-treasury-emission-policy-v1:'' @ json_policy p"

definition policy_digest :: "hash_fun \<Rightarrow> emission_policy \<Rightarrow> string" where
  "policy_digest sha256 p = hex_of (sha256 (policy_message p))"

subsection \<open>Identity and shadow pin\<close>

record collector_identity =
  ci_genesis_hash :: string
  ci_netuid :: int
  ci_finalized_block :: int
  ci_finalized_block_hash :: string
  ci_uid :: int
  ci_hotkey :: string
  ci_owner_coldkey :: string
  ci_uid_hotkey :: string
  ci_subnet_owner_coldkey :: string

definition check_identity :: "collector_identity \<Rightarrow> py_error + unit" where
  "check_identity i =
     and_then (require (is_hash (ci_genesis_hash i) \<and> ci_netuid i = 118 \<and> 0 \<le> ci_finalized_block i
       \<and> is_hash (ci_finalized_block_hash i) \<and> 0 \<le> ci_uid i \<and> ci_uid i \<le> 65535 \<and> is_address (ci_hotkey i)
       \<and> is_address (ci_owner_coldkey i) \<and> is_address (ci_uid_hotkey i) \<and> is_address (ci_subnet_owner_coldkey i))
       ''identity field'') (\<lambda>_.
     and_then (require (ci_hotkey i = ci_uid_hotkey i) ''collector UID was reused or does not bind hotkey'') (\<lambda>_.
     require (ci_owner_coldkey i \<noteq> ci_subnet_owner_coldkey i) ''collector cannot be associated with subnet owner''))"

text \<open>What a policy and an identity must agree on.\<close>

definition identity_binds :: "emission_policy \<Rightarrow> collector_identity \<Rightarrow> bool" where
  "identity_binds p i \<longleftrightarrow>
     (ep_genesis_hash p, ep_netuid p, ep_collector_hotkey p, ep_collector_coldkey p)
     = (ci_genesis_hash i, ci_netuid i, ci_hotkey i, ci_owner_coldkey i)"

record ledger_pin =
  lp_version :: int
  lp_mode :: string
  lp_policy :: emission_policy
  lp_policy_digest :: string
  lp_identity :: collector_identity

definition check_ledger_pin :: "hash_fun \<Rightarrow> ledger_pin \<Rightarrow> py_error + unit" where
  "check_ledger_pin sha256 pin =
     and_then (require (lp_version pin = 1 \<and> lp_mode pin = ''shadow'' \<and> is_digest (lp_policy_digest pin)) ''pin field'') (\<lambda>_.
     and_then (check_policy (lp_policy pin)) (\<lambda>_.
     and_then (check_identity (lp_identity pin)) (\<lambda>_.
     and_then (require (lp_policy_digest pin = policy_digest sha256 (lp_policy pin)) ''treasury policy digest mismatch'') (\<lambda>_.
     require (identity_binds (lp_policy pin) (lp_identity pin)) ''finalized collector identity differs from policy''))))"

definition require_epoch :: "ledger_pin \<Rightarrow> int \<Rightarrow> int \<Rightarrow> int \<Rightarrow> py_error + unit" where
  "require_epoch pin netuid first_block pinned_block =
     and_then (require (ep_netuid (lp_policy pin) = netuid) ''treasury pin belongs to another subnet'') (\<lambda>_.
     require (first_block \<le> ci_finalized_block (lp_identity pin) \<and> ci_finalized_block (lp_identity pin) \<le> pinned_block)
       ''treasury identity is stale or from a future block'')"

subsection \<open>Offline approval\<close>

type_synonym signature_verifier = "string \<Rightarrow> bytes \<Rightarrow> bytes \<Rightarrow> bool"

record policy_approval =
  pa_policy :: emission_policy
  pa_signature :: string

definition check_approval :: "policy_approval \<Rightarrow> py_error + unit" where
  "check_approval a =
     and_then (check_policy (pa_policy a)) (\<lambda>_. require (is_signature (pa_signature a)) ''signature field'')"

definition approval_message :: "hash_fun \<Rightarrow> emission_policy \<Rightarrow> bytes" where
  "approval_message sha256 p = ''ditto-treasury-emission-policy-v1:'' @ policy_digest sha256 p"

definition verify_policy_approval ::
  "hash_fun \<Rightarrow> signature_verifier \<Rightarrow> policy_approval \<Rightarrow> string \<Rightarrow> string \<Rightarrow> py_error + emission_policy" where
  "verify_policy_approval sha256 verify_signature approval expected_policy_digest expected_collector_policy_digest =
     and_then (require (is_digest expected_policy_digest) ''policy digest'') (\<lambda>_.
     and_then (require (is_digest expected_collector_policy_digest) ''collector policy digest'') (\<lambda>_.
     and_then (check_approval approval) (\<lambda>_.
     (let p = pa_policy approval in
     and_then (require (policy_digest sha256 p = expected_policy_digest) ''proposal differs from immutable approval pin'') (\<lambda>_.
     and_then (require (ep_collector_policy_digest p = expected_collector_policy_digest)
       ''proposal differs from immutable collector policy pin'') (\<lambda>_.
     and_then (require (verify_signature (ep_collector_coldkey p) (approval_message sha256 p) (bytes_fromhex (drop 2 (pa_signature approval))))
       ''proposal lacks offline collector approval'') (\<lambda>_. Inr p)))))))"

definition SN118_FOLLOWER_AUTHORITY :: "string \<times> int \<times> string" where
  "SN118_FOLLOWER_AUTHORITY =
     (''0x2f0555cc76fc2840a25a6ea3b9637146806f1f44b090c175ffde2a7e5ab36c03'', 118,
      ''5Fhnko5TCPtR1hyD8aua6n23XRM8cxcBM6TgNEqqUhcxWs1t'')"

definition verify_follower_policy_approval ::
  "hash_fun \<Rightarrow> signature_verifier \<Rightarrow> policy_approval \<Rightarrow> py_error + emission_policy" where
  "verify_follower_policy_approval sha256 verify_signature approval =
     and_then (check_approval approval) (\<lambda>_.
     (let p = pa_policy approval in
     and_then (require ((ep_genesis_hash p, ep_netuid p, ep_collector_coldkey p) = SN118_FOLLOWER_AUTHORITY)
       ''follower approval differs from trusted SN118 authority'') (\<lambda>_.
     verify_policy_approval sha256 verify_signature approval (policy_digest sha256 p) (ep_collector_policy_digest p))))"

definition verify_pinned_policy_approval ::
  "hash_fun \<Rightarrow> signature_verifier \<Rightarrow> ledger_pin \<Rightarrow> policy_approval \<Rightarrow> string \<Rightarrow> string
     \<Rightarrow> int \<Rightarrow> int \<Rightarrow> int \<Rightarrow> string \<Rightarrow> py_error + ledger_pin" where
  "verify_pinned_policy_approval sha256 verify_signature pin approval expected_policy_digest
      expected_collector_policy_digest netuid first_block pinned_block pinned_block_hash =
     and_then (check_ledger_pin sha256 pin) (\<lambda>_.
     and_then (require (0 \<le> first_block \<and> 0 \<le> pinned_block \<and> is_hash pinned_block_hash) ''epoch field'') (\<lambda>_.
     and_then (verify_policy_approval sha256 verify_signature approval expected_policy_digest
       expected_collector_policy_digest) (\<lambda>verified_policy.
     and_then (require (lp_policy pin = verified_policy) ''epoch policy differs from offline approval'') (\<lambda>_.
     and_then (require_epoch pin netuid first_block pinned_block) (\<lambda>_.
     and_then (require (\<not> (ci_finalized_block (lp_identity pin) = pinned_block
         \<and> ci_finalized_block_hash (lp_identity pin) \<noteq> pinned_block_hash))
       ''approved identity hash differs from epoch pin'') (\<lambda>_. Inr pin))))))"

subsection \<open>Validated models\<close>

lemma check_bucket_Inr:
  "check_bucket b = Inr u \<longleftrightarrow> is_bucket_id (eb_bucket_id b) \<and> in_bps (eb_allocation_bps b) \<and> is_address (eb_holding_coldkey b)
     \<and> opt_all in_bps (eb_min_allocation_bps b) \<and> opt_all in_bps (eb_max_allocation_bps b)
     \<and> (eb_min_allocation_bps b = None) = (eb_max_allocation_bps b = None)
     \<and> minimum_bps b \<le> eb_allocation_bps b \<and> eb_allocation_bps b \<le> maximum_bps b"
  by (auto simp: check_bucket_def and_then_Inr)

lemma collect_unit: "collect f xs = Inr us \<Longrightarrow> x \<in> set xs \<Longrightarrow> f x = Inr ()"
  by (auto simp: collect_Inr list_all2_conv_all_nth in_set_conv_nth)

text \<open>What a policy that passes validation guarantees.\<close>

lemma check_policy_Inr:
  assumes "check_policy p = Inr u"
  shows "ep_version p = 1" "ep_netuid p = 118" "is_hash (ep_genesis_hash p)" "is_address (ep_collector_hotkey p)"
    and "is_address (ep_collector_coldkey p)" "is_digest (ep_collector_policy_digest p)"
    and "ep_buckets p \<noteq> []" "\<And>b. b \<in> set (ep_buckets p) \<Longrightarrow> check_bucket b = Inr ()"
    and "distinct (map eb_bucket_id (ep_buckets p))" "distinct (map eb_holding_coldkey (ep_buckets p))"
    and "maximum_service_bps p \<le> 10000" "ep_collector_hotkey p \<noteq> ep_collector_coldkey p"
    and "ep_collector_hotkey p \<notin> eb_holding_coldkey ` set (ep_buckets p)"
    and "ep_collector_coldkey p \<notin> eb_holding_coldkey ` set (ep_buckets p)"
proof -
  have card: "card (f ` set xs) = length xs \<Longrightarrow> distinct (map f xs)" for f :: "emission_bucket \<Rightarrow> string" and xs
    using card_distinct [of "map f xs"] by simp
  from assms show "ep_version p = 1" "ep_netuid p = 118" "is_hash (ep_genesis_hash p)" "is_address (ep_collector_hotkey p)"
    "is_address (ep_collector_coldkey p)" "is_digest (ep_collector_policy_digest p)" "ep_buckets p \<noteq> []"
    "maximum_service_bps p \<le> 10000" "ep_collector_hotkey p \<noteq> ep_collector_coldkey p"
    "ep_collector_hotkey p \<notin> eb_holding_coldkey ` set (ep_buckets p)"
    "ep_collector_coldkey p \<notin> eb_holding_coldkey ` set (ep_buckets p)"
    by (auto simp: check_policy_def and_then_Inr Let_def)
  show "\<And>b. b \<in> set (ep_buckets p) \<Longrightarrow> check_bucket b = Inr ()"
    using assms by (auto simp: check_policy_def and_then_Inr Let_def intro: collect_unit)
  show "distinct (map eb_bucket_id (ep_buckets p))" "distinct (map eb_holding_coldkey (ep_buckets p))"
    using assms by (auto simp: check_policy_def and_then_Inr Let_def intro!: card)
qed

subsection \<open>The digest identifies the policy\<close>

text \<open>
  An encoding whose end is recognizable: two codes followed by a terminator that agree as a whole
  agree part by part.
\<close>

locale delimited_code =
  fixes enc :: "'a \<Rightarrow> string" and ok :: "'a \<Rightarrow> bool" and stop :: "char \<Rightarrow> bool"
  assumes code_split: "ok x \<Longrightarrow> ok y \<Longrightarrow> stop c \<Longrightarrow> stop d \<Longrightarrow> enc x @ c # r = enc y @ d # u \<Longrightarrow> x = y \<and> c = d \<and> r = u"
begin

text \<open>A comma separated list of codes is recognizable as well, if no code is followed by a comma
  on its own.\<close>

lemma join_split:
  assumes "list_all ok xs" "list_all ok ys" "xs \<noteq> []" "ys \<noteq> []" "stop (CHR '','')" "stop c" "stop d"
    and "c \<noteq> CHR '',''" "d \<noteq> CHR '',''" "json_join (map enc xs) @ c # r = json_join (map enc ys) @ d # u"
  shows "xs = ys \<and> c = d \<and> r = u"
  using assms
proof (induction xs arbitrary: ys)
  case (Cons x xs)
  obtain y zs where ys: "ys = y # zs" using Cons.prems by (cases ys) auto
  have j: "json_join (map enc (a # as)) @ e # v =
      enc a @ (if as = [] then e # v else CHR '','' # json_join (map enc as) @ e # v)" for a as e v
    by (cases as) auto
  let ?after = "\<lambda>as e v. if as = [] then e # v else CHR '','' # json_join (map enc as) @ e # v"
  have eq: "enc x @ ?after xs c r = enc y @ ?after zs d u" using Cons.prems(10) unfolding ys j .
  have ok: "ok x" "ok y" using Cons.prems(1,2) by (simp_all add: ys)
  have "x = y \<and> ?after xs c r = ?after zs d u"
    using code_split [OF ok, of "hd (?after xs c r)" "hd (?after zs d u)" "List.tl (?after xs c r)" "List.tl (?after zs d u)"] eq
      Cons.prems(5-7) by (simp split: if_splits)
  then show ?case
    using Cons.IH [of zs] Cons.prems unfolding ys by (auto split: if_splits)
qed simp

end

lemma split_at:
  "c \<notin> set s \<Longrightarrow> c \<notin> set t \<Longrightarrow> s @ c # r = t @ c # u \<Longrightarrow> s = t \<and> r = u"
  by (induction s arbitrary: t) (auto simp: Cons_eq_append_conv)

lemma split_at_nondigit:
  assumes "list_all P s" "list_all P t" "\<not> P c" "\<not> P d" "s @ c # r = t @ d # u"
  shows "s = t \<and> c = d \<and> r = u"
  using assms by (induction s arbitrary: t) (auto simp: Cons_eq_append_conv)

definition num_char :: "char \<Rightarrow> bool" where
  "num_char c \<longleftrightarrow> c = CHR ''-'' \<or> 48 \<le> (of_char c :: nat) \<and> (of_char c :: nat) \<le> 57"

lemma dec_int_chars: "list_all num_char (dec_int i)"
  using digits_dec_nat by (auto simp: dec_int_def num_char_def digits_def list_all_iff)

lemma stop_chars [simp]: "\<not> num_char (CHR '','')" "\<not> num_char (CHR ''}'')"
  by (simp_all add: num_char_def)

lemma dec_int_split:
  "\<not> num_char c \<Longrightarrow> \<not> num_char d \<Longrightarrow> dec_int x @ c # r = dec_int y @ d # u \<Longrightarrow> x = y \<and> c = d \<and> r = u"
  using split_at_nondigit [OF dec_int_chars dec_int_chars] dec_int_inj by blast

interpretation json_int: delimited_code dec_int "\<lambda>_. True" "\<lambda>c. \<not> num_char c"
  by unfold_locales (rule dec_int_split)

lemma json_str_split:
  assumes "CHR 0x22 \<notin> set x" "CHR 0x22 \<notin> set y" "json_str x @ r = json_str y @ u"
  shows "x = y \<and> r = u"
  using split_at [OF assms(1,2)] assms(3) by (simp add: json_str_def)

interpretation json_string: delimited_code json_str "\<lambda>s. CHR 0x22 \<notin> set s" "\<lambda>_. True"
proof
  fix x y c d r u
  assume "CHR 0x22 \<notin> set x" "CHR 0x22 \<notin> set y" "json_str x @ c # r = json_str y @ d # u"
  from json_str_split [OF this] show "x = y \<and> c = d \<and> r = u" by simp
qed

lemma quote_free:
  "is_bucket_id s \<Longrightarrow> CHR 0x22 \<notin> set s" "is_address s \<Longrightarrow> CHR 0x22 \<notin> set s"
  "is_digest s \<Longrightarrow> CHR 0x22 \<notin> set s" "is_hash s \<Longrightarrow> CHR 0x22 \<notin> set s"
proof -
  have all: "list_all P s \<Longrightarrow> \<not> P c \<Longrightarrow> c \<notin> set s" for P :: "char \<Rightarrow> bool" and c s by (auto simp: list_all_iff)
  show "is_bucket_id s \<Longrightarrow> CHR 0x22 \<notin> set s"
  proof (cases s)
    case (Cons c cs)
    assume "is_bucket_id s"
    then have c: "c \<in> set ''abcdefghijklmnopqrstuvwxyz''"
        and cs: "list_all (\<lambda>c. c \<in> set ''abcdefghijklmnopqrstuvwxyz0123456789_'') cs"
      by (simp_all only: is_bucket_id_def Cons list.case)
    have "CHR 0x22 \<notin> set cs" by (rule all [OF cs]) simp
    moreover have "CHR 0x22 \<notin> set ''abcdefghijklmnopqrstuvwxyz''" by simp
    with c have "CHR 0x22 \<noteq> c" by metis
    ultimately show ?thesis by (simp add: Cons)
  qed simp
  show "is_address s \<Longrightarrow> CHR 0x22 \<notin> set s"
    unfolding is_address_def by (elim conjE, erule all) simp
  show d: "is_digest s \<Longrightarrow> CHR 0x22 \<notin> set s" for s
    unfolding is_digest_def is_hex_def by (elim conjE, erule all) simp
  assume h: "is_hash s"
  then have "set s = set (''0x'' @ drop 2 s)" by (metis append_take_drop_id is_hash_def)
  with h d show "CHR 0x22 \<notin> set s" by (auto simp: is_hash_def)
qed

text \<open>The text of a bucket, as fields with their terminators.\<close>

lemma json_bucket_text:
  "json_bucket b @ t = CHR ''{'' # json_str ''allocation_bps'' @ CHR '':'' # dec_int (eb_allocation_bps b) @ CHR '','' # json_str ''bucket_id'' @ CHR '':'' #
     json_str (eb_bucket_id b) @ CHR '','' # json_str ''holding_coldkey'' @ CHR '':'' # json_str (eb_holding_coldkey b) @
     (if eb_min_allocation_bps b = None then CHR ''}'' # t
      else CHR '','' # json_str ''max_allocation_bps'' @ CHR '':'' # json_opt (eb_max_allocation_bps b) @ CHR '','' #
        json_str ''min_allocation_bps'' @ CHR '':'' # json_opt (eb_min_allocation_bps b) @ CHR ''}'' # t)"
  by (simp add: json_bucket_def json_field_def json_str_def)

lemma json_bucket_split:
  assumes "check_bucket b = Inr ()" "check_bucket b' = Inr ()" "json_bucket b @ t = json_bucket b' @ t'"
  shows "b = b' \<and> t = t'"
proof -
  let ?after = "\<lambda>b t. if eb_min_allocation_bps b = None then CHR ''}'' # t
      else CHR '','' # json_str ''max_allocation_bps'' @ CHR '':'' # json_opt (eb_max_allocation_bps b) @ CHR '','' #
        json_str ''min_allocation_bps'' @ CHR '':'' # json_opt (eb_min_allocation_bps b) @ CHR ''}'' # t"
  have q: "CHR 0x22 \<notin> set (eb_bucket_id b)" "CHR 0x22 \<notin> set (eb_bucket_id b')"
      "CHR 0x22 \<notin> set (eb_holding_coldkey b)" "CHR 0x22 \<notin> set (eb_holding_coldkey b')"
    using assms(1,2) by (simp_all add: check_bucket_Inr quote_free)
  have "dec_int (eb_allocation_bps b) @ CHR '','' # json_str ''bucket_id'' @ CHR '':'' # json_str (eb_bucket_id b)
        @ CHR '','' # json_str ''holding_coldkey'' @ CHR '':'' # json_str (eb_holding_coldkey b) @ ?after b t
     = dec_int (eb_allocation_bps b') @ CHR '','' # json_str ''bucket_id'' @ CHR '':'' # json_str (eb_bucket_id b')
        @ CHR '','' # json_str ''holding_coldkey'' @ CHR '':'' # json_str (eb_holding_coldkey b') @ ?after b' t'"
    using assms(3) unfolding json_bucket_text list.inject same_append_eq by blast
  note n = dec_int_split [OF stop_chars(1) stop_chars(1) this, unfolded list.inject same_append_eq]
  then have 1: "eb_allocation_bps b = eb_allocation_bps b'"
      "json_str (eb_bucket_id b) @ CHR '','' # json_str ''holding_coldkey'' @ CHR '':'' # json_str (eb_holding_coldkey b) @ ?after b t
     = json_str (eb_bucket_id b') @ CHR '','' # json_str ''holding_coldkey'' @ CHR '':'' # json_str (eb_holding_coldkey b') @ ?after b' t'"
    by blast+
  have 2: "eb_bucket_id b = eb_bucket_id b'"
      "json_str (eb_holding_coldkey b) @ ?after b t = json_str (eb_holding_coldkey b') @ ?after b' t'"
    using json_str_split [OF q(1,2) 1(2)] unfolding list.inject same_append_eq by blast+
  have 3: "eb_holding_coldkey b = eb_holding_coldkey b'" "?after b t = ?after b' t'"
    using json_str_split [OF q(3,4) 2(2)] by blast+
  have both: "(eb_min_allocation_bps b = None) = (eb_max_allocation_bps b = None)"
    "(eb_min_allocation_bps b' = None) = (eb_max_allocation_bps b' = None)"
    using assms(1,2) by (simp_all add: check_bucket_Inr)
  show ?thesis
  proof (cases "eb_min_allocation_bps b = None \<or> eb_min_allocation_bps b' = None")
    case True
    with 3(2) both have "eb_min_allocation_bps b = None" "eb_min_allocation_bps b' = None" "t = t'" by (auto split: if_splits)
    with both 1(1) 2(1) 3(1) show ?thesis by (intro conjI emission_bucket.equality) auto
  next
    case False
    then obtain lo hi lo' hi' where o: "eb_min_allocation_bps b = Some lo" "eb_max_allocation_bps b = Some hi"
        "eb_min_allocation_bps b' = Some lo'" "eb_max_allocation_bps b' = Some hi'" using both by auto
    have "dec_int hi @ CHR '','' # json_str ''min_allocation_bps'' @ CHR '':'' # dec_int lo @ CHR ''}'' # t
        = dec_int hi' @ CHR '','' # json_str ''min_allocation_bps'' @ CHR '':'' # dec_int lo' @ CHR ''}'' # t'"
      using 3(2) by (simp add: o json_opt_def)
    note n = dec_int_split [OF stop_chars(1) stop_chars(1) this, unfolded list.inject same_append_eq]
    then have "hi = hi' \<and> dec_int lo @ CHR ''}'' # t = dec_int lo' @ CHR ''}'' # t'" by blast
    moreover from this have "lo = lo' \<and> t = t'"
      using dec_int_split [OF stop_chars(2) stop_chars(2)] by blast
    ultimately show ?thesis using o 1(1) 2(1) 3(1) by (intro conjI emission_bucket.equality) auto
  qed
qed

interpretation json_bucket_code: delimited_code json_bucket "\<lambda>b. check_bucket b = Inr ()" "\<lambda>_. True"
proof
  fix x y c d r u
  assume "check_bucket x = Inr ()" "check_bucket y = Inr ()" "json_bucket x @ c # r = json_bucket y @ d # u"
  from json_bucket_split [OF this] show "x = y \<and> c = d \<and> r = u" by simp
qed

definition json_fields :: "emission_policy \<Rightarrow> string" where
  "json_fields p = CHR '','' # json_str ''collector_coldkey'' @ CHR '':'' # json_str (ep_collector_coldkey p)
     @ CHR '','' # json_str ''collector_hotkey'' @ CHR '':'' # json_str (ep_collector_hotkey p)
     @ CHR '','' # json_str ''collector_policy_digest'' @ CHR '':'' # json_str (ep_collector_policy_digest p)
     @ CHR '','' # json_str ''genesis_hash'' @ CHR '':'' # json_str (ep_genesis_hash p)
     @ CHR '','' # json_str ''netuid'' @ CHR '':'' # dec_int (ep_netuid p)
     @ CHR '','' # json_str ''revision'' @ CHR '':'' # dec_int (ep_revision p)
     @ CHR '','' # json_str ''version'' @ CHR '':'' # dec_int (ep_version p) @ ''}''"

lemma json_policy_text:
  "json_policy p = CHR ''{'' # json_str ''buckets'' @ CHR '':'' # CHR ''['' #
     json_join (map json_bucket (ep_buckets p)) @ CHR '']'' # json_fields p"
  by (simp add: json_policy_def json_field_def json_fields_def)

lemma json_policy_inj:
  assumes "check_policy p = Inr ()" "check_policy p' = Inr ()" "json_policy p = json_policy p'"
  shows "p = p'"
proof -
  note v = check_policy_Inr [OF assms(1)] and v' = check_policy_Inr [OF assms(2)]
  have "json_join (map json_bucket (ep_buckets p)) @ CHR '']'' # json_fields p
      = json_join (map json_bucket (ep_buckets p')) @ CHR '']'' # json_fields p'"
    using assms(3) unfolding json_policy_text list.inject same_append_eq by blast
  then have b: "ep_buckets p = ep_buckets p'" and t: "json_fields p = json_fields p'"
    using json_bucket_code.join_split [of "ep_buckets p" "ep_buckets p'" "CHR '']''" "CHR '']''"] v(7,8) v'(7,8)
    by (simp_all add: list_all_iff)
  have q: "CHR 0x22 \<notin> set (ep_collector_coldkey p)" "CHR 0x22 \<notin> set (ep_collector_coldkey p')"
      "CHR 0x22 \<notin> set (ep_collector_hotkey p)" "CHR 0x22 \<notin> set (ep_collector_hotkey p')"
      "CHR 0x22 \<notin> set (ep_collector_policy_digest p)" "CHR 0x22 \<notin> set (ep_collector_policy_digest p')"
      "CHR 0x22 \<notin> set (ep_genesis_hash p)" "CHR 0x22 \<notin> set (ep_genesis_hash p')"
    using v v' by (simp_all add: quote_free)
  have c1: "ep_collector_coldkey p = ep_collector_coldkey p'"
    using t json_str_split [OF q(1,2)] unfolding json_fields_def list.inject same_append_eq by blast
  have c2: "ep_collector_hotkey p = ep_collector_hotkey p'"
    using t json_str_split [OF q(3,4)] unfolding json_fields_def c1 list.inject same_append_eq by blast
  have c3: "ep_collector_policy_digest p = ep_collector_policy_digest p'"
    using t json_str_split [OF q(5,6)] unfolding json_fields_def c1 c2 list.inject same_append_eq by blast
  have c4: "ep_genesis_hash p = ep_genesis_hash p'"
    using t json_str_split [OF q(7,8)] unfolding json_fields_def c1 c2 c3 list.inject same_append_eq by blast
  have "ep_revision p = ep_revision p'"
    using t dec_int_split [OF stop_chars(1) stop_chars(1)]
    unfolding json_fields_def c1 c2 c3 c4 v(1,2) v'(1,2) list.inject same_append_eq by blast
  then show ?thesis
    using b c1 c2 c3 c4 v(1,2) v'(1,2) by (intro emission_policy.equality) auto
qed

lemma hex_of_inj: "hex_of a = hex_of b \<Longrightarrow> a = b"
proof (induction a arbitrary: b)
  case (Cons x a)
  then obtain y c where b: "b = y # c" by (cases b) auto
  have lt: "(of_char z :: nat) div 16 < 16" "(of_char z :: nat) mod 16 < 16" for z
    using nat_of_char_less_256 [of z] by (simp_all add: less_mult_imp_div_less)
  have "hex_digit (of_char x div 16) = hex_digit (of_char y div 16)" "hex_digit (of_char x mod 16) = hex_digit (of_char y mod 16)"
      "hex_of a = hex_of c" using Cons.prems by (simp_all add: b)
  then have "(of_char x :: nat) div 16 = of_char y div 16" "(of_char x :: nat) mod 16 = of_char y mod 16" "a = c"
    using hex_digit_inj lt Cons.IH by blast+
  then have "(of_char x :: nat) = of_char y" by (metis div_mod_decomp)
  then show ?case using \<open>a = c\<close> by (simp add: b)
next
  case Nil
  then show ?case by (cases b) simp_all
qed

subsection \<open>Properties\<close>

text \<open>C33: The digest of a policy identifies it: two validated policies with the same digest are the
  same policy, unless their canonical texts are a collision of the hash. So a signature over the
  digest covers every field, bucket and operating range of the policy.\<close>

theorem digest_identifies_policy:
  assumes "check_policy p = Inr ()" and "check_policy p' = Inr ()"
    and "policy_digest sha256 p = policy_digest sha256 p'"
  shows "p = p' \<or> policy_message p \<noteq> policy_message p' \<and> sha256 (policy_message p) = sha256 (policy_message p')"
proof -
  have "sha256 (policy_message p) = sha256 (policy_message p')"
    using assms(3) hex_of_inj by (auto simp: policy_digest_def)
  moreover have "policy_message p = policy_message p' \<Longrightarrow> p = p'"
    using json_policy_inj [OF assms(1,2)] by (simp add: policy_message_def)
  ultimately show ?thesis by blast
qed

definition example_policy :: emission_policy where
  "example_policy = \<lparr>ep_version = 1, ep_revision = 2, ep_genesis_hash = ''0x'' @ replicate 64 (CHR ''a''), ep_netuid = 118,
     ep_collector_hotkey = replicate 48 (CHR ''A''), ep_collector_coldkey = replicate 48 (CHR ''B''),
     ep_collector_policy_digest = replicate 64 (CHR ''0''),
     ep_buckets = [\<lparr>eb_bucket_id = ''compute'', eb_allocation_bps = 300, eb_holding_coldkey = replicate 48 (CHR ''C''),
         eb_min_allocation_bps = Some 100, eb_max_allocation_bps = Some 500\<rparr>]\<rparr>"

lemma example_policy_ok: "check_policy example_policy = Inr ()"
  by code_simp

theorem digest_identifies_policy_witness:
  "example_policy = example_policy \<or> policy_message example_policy \<noteq> policy_message example_policy
     \<and> hex_of (policy_message example_policy) = hex_of (policy_message example_policy)"
  using digest_identifies_policy [OF example_policy_ok example_policy_ok, of hex_of] by simp

end
