(* ===== verification/Treasury_Pin.thy ===== *)
theory Treasury_Pin
  imports Treasury Service_Weights
begin

section \<open>Enforcing treasury pins\<close>

text \<open>
  Models \<^verbatim>\<open>ditto_screening_protocol/treasury_enforcement.py\<close> and the fold of
  \<^verbatim>\<open>ditto/validator/treasury_weights.py\<close>: the immutable epoch pin that lets a validator reserve a
  service share, the allocation it folds, the authority that must hold at dispatch, and the fold
  that applies the service-first arithmetic once that authority is established.
\<close>

definition TREASURY_WEIGHT_PROTOCOL :: int where "TREASURY_WEIGHT_PROTOCOL = 30"

record weight_capability =
  wc_pin_version :: int
  wc_dispatch_version :: int
  wc_approved_policy_digest :: string
  wc_collector_policy_digest :: string

record fleet_member = weight_capability +
  fm_validator_hotkey :: string
  fm_protocol_version :: int

definition check_capability :: "'a weight_capability_scheme \<Rightarrow> py_error + unit" where
  "check_capability c =
     require (wc_pin_version c = 2 \<and> wc_dispatch_version c = 2 \<and> is_digest (wc_approved_policy_digest c)
       \<and> is_digest (wc_collector_policy_digest c)) ''capability field''"

definition check_member :: "fleet_member \<Rightarrow> py_error + unit" where
  "check_member m = and_then (check_capability m) (\<lambda>_.
     require (is_address (fm_validator_hotkey m) \<and> TREASURY_WEIGHT_PROTOCOL \<le> fm_protocol_version m) ''member field'')"

record bucket_allocation =
  ba_bucket_id :: string
  ba_allocation_bps :: int

record enforcing_pin =
  xp_version :: int
  xp_mode :: string
  xp_epoch_index :: int
  xp_first_block :: int
  xp_pinned_block :: int
  xp_pinned_block_hash :: string
  xp_policy :: emission_policy
  xp_policy_digest :: string
  xp_identity :: collector_identity
  xp_approval :: policy_approval
  xp_fleet :: "fleet_member list"
  xp_allocations :: "bucket_allocation list option"

definition treasury_follower_capability :: "enforcing_pin \<Rightarrow> string \<Rightarrow> int \<Rightarrow> py_error + fleet_member" where
  "treasury_follower_capability pin validator_hotkey protocol_version =
     (let m = \<lparr>wc_pin_version = 2, wc_dispatch_version = 2, wc_approved_policy_digest = xp_policy_digest pin,
        wc_collector_policy_digest = ep_collector_policy_digest (xp_policy pin),
        fm_validator_hotkey = validator_hotkey, fm_protocol_version = protocol_version\<rparr>
      in and_then (check_member m) (\<lambda>_. Inr m))"

subsection \<open>The allocation an epoch folds\<close>

definition chosen_bps :: "bucket_allocation list \<Rightarrow> (string, int) dict" where
  "chosen_bps as = dict_of (map (\<lambda>a. (ba_bucket_id a, ba_allocation_bps a)) as)"

definition effective_bucket :: "(string, int) dict \<Rightarrow> emission_bucket \<Rightarrow> py_error + emission_bucket" where
  "effective_bucket chosen b = (case dict_get chosen (eb_bucket_id b) of
     None \<Rightarrow> Inl KeyError
   | Some n \<Rightarrow>
       (let nb = \<lparr>eb_bucket_id = eb_bucket_id b, eb_allocation_bps = n, eb_holding_coldkey = eb_holding_coldkey b,
           eb_min_allocation_bps = None, eb_max_allocation_bps = None\<rparr>
        in and_then (check_bucket nb) (\<lambda>_. Inr nb)))"

definition effective_buckets :: "enforcing_pin \<Rightarrow> py_error + emission_bucket list" where
  "effective_buckets pin = (case xp_allocations pin of
     None \<Rightarrow> Inr (ep_buckets (xp_policy pin))
   | Some as \<Rightarrow> collect (effective_bucket (chosen_bps as)) (ep_buckets (xp_policy pin)))"

definition pin_service_bps :: "enforcing_pin \<Rightarrow> py_error + int" where
  "pin_service_bps pin = and_then (effective_buckets pin) (\<lambda>bs. Inr (sum_list (map eb_allocation_bps bs)))"

subsection \<open>Validation\<close>

definition strictly_sorted :: "string list \<Rightarrow> bool" where
  "strictly_sorted keys \<longleftrightarrow> keys = sort (remdups keys)"

definition coherent_frozen_evidence :: "hash_fun \<Rightarrow> enforcing_pin \<Rightarrow> py_error + unit" where
  "coherent_frozen_evidence sha256 pin =
     (let policy = xp_policy pin; ident = xp_identity pin in
     and_then (require (xp_policy_digest pin = policy_digest sha256 policy \<and> pa_policy (xp_approval pin) = policy)
       ''enforcing policy differs from approval or digest'') (\<lambda>_.
     and_then (require (policy_ranged policy = (xp_allocations pin \<noteq> None))
       ''pinned allocation must match the signed policy shape'') (\<lambda>_.
     and_then (require (opt_all (\<lambda>as. strictly_sorted (map ba_bucket_id as) \<and> admits policy (chosen_bps as)) (xp_allocations pin))
       ''pinned allocation is outside the signed range'') (\<lambda>_.
     and_then (require (identity_binds policy ident) ''enforcing identity differs from approved policy'') (\<lambda>_.
     and_then (require (xp_first_block pin \<le> ci_finalized_block ident \<and> ci_finalized_block ident \<le> xp_pinned_block pin)
       ''enforcing identity is outside the pinned epoch'') (\<lambda>_.
     and_then (require (\<not> (ci_finalized_block ident = xp_pinned_block pin
         \<and> ci_finalized_block_hash ident \<noteq> xp_pinned_block_hash pin)) ''enforcing identity hash differs from pin'') (\<lambda>_.
     and_then (require (strictly_sorted (map fm_validator_hotkey (xp_fleet pin))) ''fleet must be nonempty, unique and sorted'') (\<lambda>_.
     require (\<not> list_ex (\<lambda>m. wc_approved_policy_digest m \<noteq> xp_policy_digest pin
         \<or> wc_collector_policy_digest m \<noteq> ep_collector_policy_digest policy) (xp_fleet pin))
       ''fleet approval differs from enforcing policy''))))))))"

definition check_pin :: "hash_fun \<Rightarrow> enforcing_pin \<Rightarrow> py_error + unit" where
  "check_pin sha256 pin =
     and_then (require (xp_version pin = 2 \<and> xp_mode pin = ''enforce'' \<and> 0 \<le> xp_epoch_index pin \<and> 0 \<le> xp_first_block pin
       \<and> 0 \<le> xp_pinned_block pin \<and> is_hash (xp_pinned_block_hash pin) \<and> is_digest (xp_policy_digest pin)
       \<and> 1 \<le> length (xp_fleet pin) \<and> length (xp_fleet pin) \<le> 4096
       \<and> opt_all (\<lambda>as. 1 \<le> length as \<and> length as \<le> 20
           \<and> list_all (\<lambda>a. is_bucket_id (ba_bucket_id a) \<and> in_bps (ba_allocation_bps a)) as) (xp_allocations pin)) ''pin field'') (\<lambda>_.
     and_then (check_policy (xp_policy pin)) (\<lambda>_.
     and_then (check_identity (xp_identity pin)) (\<lambda>_.
     and_then (check_approval (xp_approval pin)) (\<lambda>_.
     and_then (collect check_member (xp_fleet pin)) (\<lambda>_.
     coherent_frozen_evidence sha256 pin)))))"

subsection \<open>Dispatch authority and the fold\<close>

record weight_authority =
  wa_pin :: enforcing_pin
  wa_expected_policy_digest :: string
  wa_expected_collector_policy_digest :: string
  wa_local_capability :: fleet_member
  wa_current_identity :: collector_identity
  wa_netuid :: int
  wa_current_epoch_index :: int
  wa_current_first_block :: int
  wa_finalized_block :: int
  wa_finalized_block_hash :: string

definition same_collector :: "collector_identity \<Rightarrow> collector_identity \<Rightarrow> bool" where
  "same_collector a b \<longleftrightarrow> ci_genesis_hash a = ci_genesis_hash b \<and> ci_netuid a = ci_netuid b \<and> ci_uid a = ci_uid b
     \<and> ci_hotkey a = ci_hotkey b \<and> ci_owner_coldkey a = ci_owner_coldkey b \<and> ci_uid_hotkey a = ci_uid_hotkey b
     \<and> ci_subnet_owner_coldkey a = ci_subnet_owner_coldkey b"

definition require_treasury_weight_authority ::
  "hash_fun \<Rightarrow> signature_verifier \<Rightarrow> weight_authority \<Rightarrow> py_error + enforcing_pin" where
  "require_treasury_weight_authority sha256 verify_signature wa =
     (let pin = wa_pin wa; now = wa_current_identity wa; member = wa_local_capability wa in
     and_then (check_pin sha256 pin) (\<lambda>_.
     and_then (check_identity now) (\<lambda>_.
     and_then (check_member member) (\<lambda>_.
     and_then (verify_policy_approval sha256 verify_signature (xp_approval pin) (wa_expected_policy_digest wa)
       (wa_expected_collector_policy_digest wa)) (\<lambda>_.
     and_then (require (0 \<le> wa_netuid wa \<and> 0 \<le> wa_current_epoch_index wa \<and> 0 \<le> wa_current_first_block wa
         \<and> 0 \<le> wa_finalized_block wa) ''treasury dispatch heights must be unsigned integers'') (\<lambda>_.
     and_then (require ((wa_netuid wa, wa_current_epoch_index wa, wa_current_first_block wa)
         = (ep_netuid (xp_policy pin), xp_epoch_index pin, xp_first_block pin))
       ''treasury dispatch is outside the immutable epoch'') (\<lambda>_.
     and_then (require (ci_finalized_block now = wa_finalized_block wa \<and> ci_finalized_block_hash now = wa_finalized_block_hash wa)
       ''collector observation is not the current finalized head'') (\<lambda>_.
     and_then (require (\<not> wa_finalized_block wa < xp_pinned_block pin) ''collector observation predates the immutable pin'') (\<lambda>_.
     and_then (require (\<not> (wa_finalized_block wa = xp_pinned_block pin \<and> wa_finalized_block_hash wa \<noteq> xp_pinned_block_hash pin))
       ''collector finalized hash differs from pinned head'') (\<lambda>_.
     and_then (require (same_collector now (xp_identity pin)) ''collector identity drift requires an audited rebind'') (\<lambda>_.
     and_then (require (wc_approved_policy_digest member = xp_policy_digest pin
         \<and> wc_collector_policy_digest member = ep_collector_policy_digest (xp_policy pin))
       ''validator policy binding differs from enforcing pin'') (\<lambda>_.
     and_then (require (case find (\<lambda>m. fm_validator_hotkey m = fm_validator_hotkey member) (xp_fleet pin) of
           None \<Rightarrow> True | Some managed \<Rightarrow> member = managed) ''managed validator differs from pinned fleet'') (\<lambda>_.
     Inr pin)))))))))))))"

definition fold_treasury_weights ::
  "hash_fun \<Rightarrow> signature_verifier \<Rightarrow> weight_vector \<Rightarrow> weight_authority \<Rightarrow> pyfloat \<Rightarrow> pyfloat \<Rightarrow> string
     \<Rightarrow> py_error + weight_vector" where
  "fold_treasury_weights sha256 verify_signature weights wa burn_share paid_miner_fraction burn_hotkey =
     and_then (require_treasury_weight_authority sha256 verify_signature wa) (\<lambda>pin.
     and_then (require (burn_hotkey \<noteq> ep_collector_hotkey (xp_policy pin)) ''collector cannot be the burn destination'') (\<lambda>_.
     and_then (pin_service_bps pin) (\<lambda>service_bps.
     service_first_weights weights service_bps burn_share (ep_collector_hotkey (xp_policy pin)) True burn_hotkey
       paid_miner_fraction)))"

subsection \<open>The allocation stays inside the signature\<close>

text \<open>Bucket by bucket, the folded allocation against the signed range.\<close>

definition within_range :: "emission_bucket \<Rightarrow> emission_bucket \<Rightarrow> bool" where
  "within_range signed folded \<longleftrightarrow> eb_bucket_id folded = eb_bucket_id signed
     \<and> eb_holding_coldkey folded = eb_holding_coldkey signed
     \<and> minimum_bps signed \<le> eb_allocation_bps folded \<and> eb_allocation_bps folded \<le> maximum_bps signed"

lemma sum_within:
  assumes "list_all2 within_range bs fs"
  shows "sum_list (map minimum_bps bs) \<le> sum_list (map eb_allocation_bps fs)"
    and "sum_list (map eb_allocation_bps fs) \<le> sum_list (map maximum_bps bs)"
  using assms by (induction rule: list_all2_induct) (auto simp: within_range_def)

lemma minimum_nonneg: "check_bucket b = Inr () \<Longrightarrow> 0 \<le> minimum_bps b"
  by (auto simp: check_bucket_Inr minimum_bps_def in_bps_def opt_all_def split: option.splits)

lemma check_pin_Inr:
  assumes "check_pin sha256 pin = Inr u"
  shows "check_policy (xp_policy pin) = Inr ()" and "pa_policy (xp_approval pin) = xp_policy pin"
    and "policy_ranged (xp_policy pin) = (xp_allocations pin \<noteq> None)"
    and "opt_all (\<lambda>as. admits (xp_policy pin) (chosen_bps as) \<and> list_all (\<lambda>a. in_bps (ba_allocation_bps a)) as) (xp_allocations pin)"
    and "xp_policy_digest pin = policy_digest sha256 (xp_policy pin)"
    and "identity_binds (xp_policy pin) (xp_identity pin)"
  using assms by (auto simp: check_pin_def and_then_Inr coherent_frozen_evidence_def Let_def opt_all_def list_all_iff
      split: option.splits)

lemma admitted_bucket:
  assumes "admits p chosen" "b \<in> set (ep_buckets p)" "distinct (map eb_bucket_id (ep_buckets p))"
  shows "\<exists>n. dict_get chosen (eb_bucket_id b) = Some n \<and> minimum_bps b \<le> n \<and> n \<le> maximum_bps b"
proof -
  let ?pairs = "map (\<lambda>b. (eb_bucket_id b, (minimum_bps b, maximum_bps b))) (ep_buckets p)"
  have d: "distinct (map fst ?pairs)" using assms(3) by (simp add: comp_def)
  then have bounds: "dict_of ?pairs = ?pairs" by simp
  have get: "dict_get ?pairs (eb_bucket_id b) = Some (minimum_bps b, maximum_bps b)"
    by (rule map_of_is_SomeI [OF d]) (use assms(2) in auto)
  have keys: "set (dict_keys chosen) = set (dict_keys ?pairs)"
    using assms(1) unfolding admits_def Let_def bounds by blast
  have rng: "case dict_get ?pairs k of None \<Rightarrow> False | Some (lo, hi) \<Rightarrow> lo \<le> n \<and> n \<le> hi"
    if "(k, n) \<in> set chosen" for k n
    using assms(1) that unfolding admits_def Let_def bounds by (auto simp: list_all_iff)
  have "eb_bucket_id b \<in> set (dict_keys ?pairs)" using assms(2) by auto
  then have "dict_get chosen (eb_bucket_id b) \<noteq> None"
    unfolding keys [symmetric] map_of_eq_None_iff by simp
  then obtain n where n: "dict_get chosen (eb_bucket_id b) = Some n" by blast
  with rng [OF map_of_SomeD [OF n]] get show ?thesis by simp
qed

lemma chosen_in_bps:
  "list_all (\<lambda>a. in_bps (ba_allocation_bps a)) as \<Longrightarrow> dict_get (chosen_bps as) k = Some n \<Longrightarrow> in_bps n"
  by (auto simp: chosen_bps_def dict_simps list_all_iff dest!: map_of_SomeD)

lemma fixed_bucket_ok:
  "is_bucket_id i \<Longrightarrow> in_bps n \<Longrightarrow> is_address h \<Longrightarrow>
     check_bucket \<lparr>eb_bucket_id = i, eb_allocation_bps = n, eb_holding_coldkey = h,
       eb_min_allocation_bps = None, eb_max_allocation_bps = None\<rparr> = Inr ()"
  by (simp add: check_bucket_Inr minimum_bps_def maximum_bps_def opt_all_def)

lemma effective_buckets_ok:
  assumes "check_pin sha256 pin = Inr u"
  shows "\<exists>fs. effective_buckets pin = Inr fs \<and> list_all2 within_range (ep_buckets (xp_policy pin)) fs"
proof (cases "xp_allocations pin")
  case None
  have "list_all2 within_range bs bs" if "\<And>b. b \<in> set bs \<Longrightarrow> check_bucket b = Inr ()" for bs
    using that by (auto intro!: list.rel_refl_strong simp: within_range_def check_bucket_Inr)
  with None check_policy_Inr(8) [OF check_pin_Inr(1) [OF assms]] show ?thesis
    by (auto simp: effective_buckets_def)
next
  case (Some as)
  let ?p = "xp_policy pin" and ?c = "chosen_bps as"
  note pin = check_pin_Inr [OF assms] and pol = check_policy_Inr [OF check_pin_Inr(1) [OF assms]]
  define f where "f b = \<lparr>eb_bucket_id = eb_bucket_id b, eb_allocation_bps = the (dict_get ?c (eb_bucket_id b)),
      eb_holding_coldkey = eb_holding_coldkey b, eb_min_allocation_bps = None, eb_max_allocation_bps = None\<rparr>" for b :: emission_bucket
  have step: "effective_bucket ?c b = Inr (f b) \<and> within_range b (f b)" if b: "b \<in> set (ep_buckets ?p)" for b
  proof -
    obtain n where n: "dict_get ?c (eb_bucket_id b) = Some n" "minimum_bps b \<le> n" "n \<le> maximum_bps b"
      using admitted_bucket [OF _ b pol(9)] pin(4) Some by (auto simp: opt_all_def)
    moreover have "in_bps n" using pin(4) Some n(1) by (auto simp: opt_all_def intro: chosen_in_bps)
    moreover have "is_bucket_id (eb_bucket_id b)" "is_address (eb_holding_coldkey b)"
      using pol(8) [OF b] by (simp_all add: check_bucket_Inr)
    ultimately show ?thesis
      by (simp add: effective_bucket_def f_def within_range_def Let_def fixed_bucket_ok)
  qed
  have "effective_buckets pin = Inr (map f (ep_buckets ?p))"
    using step by (simp add: effective_buckets_def Some collect_total)
  moreover have "list_all2 within_range (ep_buckets ?p) (map f (ep_buckets ?p))"
    using step by (auto simp: list_all2_conv_all_nth)
  ultimately show ?thesis by blast
qed

subsection \<open>Properties\<close>

text \<open>The service share an enforcing epoch folds stays inside what the policy's owner signed. For
  every pin that validates, the folded buckets exist and are the signed ones with the same wallets,
  each allocation within its signed range, and the total is between 0 and the signed maximum, which
  is at most 10000 basis points.\<close>

theorem pin_allocation_signed:
  assumes "check_pin sha256 pin = Inr ()"
  shows "\<exists>bs n. effective_buckets pin = Inr bs \<and> list_all2 within_range (ep_buckets (xp_policy pin)) bs
     \<and> pin_service_bps pin = Inr n \<and> 0 \<le> n \<and> n \<le> maximum_service_bps (xp_policy pin)
     \<and> maximum_service_bps (xp_policy pin) \<le> 10000"
proof -
  obtain bs where bs: "effective_buckets pin = Inr bs" "list_all2 within_range (ep_buckets (xp_policy pin)) bs"
    using effective_buckets_ok [OF assms] by blast
  note pol = check_policy_Inr [OF check_pin_Inr(1) [OF assms]]
  have "0 \<le> sum_list (map minimum_bps (ep_buckets (xp_policy pin)))"
    using pol(8) minimum_nonneg by (intro sum_list_nonneg) auto
  with sum_within [OF bs(2)] bs pol(11) show ?thesis
    by (auto simp: pin_service_bps_def maximum_service_bps_def)
qed

definition example_hash :: hash_fun where
  "example_hash m = replicate 32 NUL"

definition example_identity :: collector_identity where
  "example_identity = \<lparr>ci_genesis_hash = ep_genesis_hash example_policy, ci_netuid = 118, ci_finalized_block = 100,
     ci_finalized_block_hash = ''0x'' @ replicate 64 (CHR ''b''), ci_uid = 7, ci_hotkey = ep_collector_hotkey example_policy,
     ci_owner_coldkey = ep_collector_coldkey example_policy, ci_uid_hotkey = ep_collector_hotkey example_policy,
     ci_subnet_owner_coldkey = replicate 48 (CHR ''D'')\<rparr>"

definition example_member :: fleet_member where
  "example_member = \<lparr>wc_pin_version = 2, wc_dispatch_version = 2, wc_approved_policy_digest = replicate 64 (CHR ''0''),
     wc_collector_policy_digest = replicate 64 (CHR ''0''), fm_validator_hotkey = replicate 48 (CHR ''V''),
     fm_protocol_version = 35\<rparr>"

definition example_pin :: enforcing_pin where
  "example_pin = \<lparr>xp_version = 2, xp_mode = ''enforce'', xp_epoch_index = 3, xp_first_block = 90, xp_pinned_block = 100,
     xp_pinned_block_hash = ''0x'' @ replicate 64 (CHR ''b''), xp_policy = example_policy,
     xp_policy_digest = replicate 64 (CHR ''0''), xp_identity = example_identity,
     xp_approval = \<lparr>pa_policy = example_policy, pa_signature = ''0x'' @ replicate 128 (CHR ''1'')\<rparr>,
     xp_fleet = [example_member],
     xp_allocations = Some [\<lparr>ba_bucket_id = ''compute'', ba_allocation_bps = 400\<rparr>]\<rparr>"

lemma example_pin_ok: "check_pin example_hash example_pin = Inr ()"
  by code_simp

theorem pin_allocation_signed_witness:
  "\<exists>bs n. effective_buckets example_pin = Inr bs \<and> pin_service_bps example_pin = Inr n \<and> n \<le> 10000"
  using pin_allocation_signed [OF example_pin_ok] by force

lemma authority_Inr:
  assumes "require_treasury_weight_authority sha256 verify wa = Inr pin"
  shows "pin = wa_pin wa" "check_pin sha256 pin = Inr ()" "same_collector (wa_current_identity wa) (xp_identity pin)"
    and "wa_netuid wa = ep_netuid (xp_policy pin)" "wa_current_epoch_index wa = xp_epoch_index pin"
    and "wa_current_first_block wa = xp_first_block pin" "xp_pinned_block pin \<le> wa_finalized_block wa"
    and "policy_digest sha256 (xp_policy pin) = wa_expected_policy_digest wa"
    and "verify (ep_collector_coldkey (xp_policy pin)) (approval_message sha256 (xp_policy pin))
      (bytes_fromhex (drop 2 (pa_signature (xp_approval pin))))"
proof -
  from assms show p: "pin = wa_pin wa" "check_pin sha256 pin = Inr ()" "same_collector (wa_current_identity wa) (xp_identity pin)"
    "wa_netuid wa = ep_netuid (xp_policy pin)" "wa_current_epoch_index wa = xp_epoch_index pin"
    "wa_current_first_block wa = xp_first_block pin" "xp_pinned_block pin \<le> wa_finalized_block wa"
    by (auto simp: require_treasury_weight_authority_def Let_def and_then_Inr)
  from assms obtain q where "verify_policy_approval sha256 verify (xp_approval pin) (wa_expected_policy_digest wa)
      (wa_expected_collector_policy_digest wa) = Inr q"
    unfolding p(1) by (auto simp: require_treasury_weight_authority_def Let_def and_then_Inr)
  then show "policy_digest sha256 (xp_policy pin) = wa_expected_policy_digest wa"
    "verify (ep_collector_coldkey (xp_policy pin)) (approval_message sha256 (xp_policy pin))
      (bytes_fromhex (drop 2 (pa_signature (xp_approval pin))))"
    using check_pin_Inr(2) [OF p(2)] by (auto simp: verify_policy_approval_def Let_def and_then_Inr)
qed


definition example_authority :: weight_authority where
  "example_authority = \<lparr>wa_pin = example_pin, wa_expected_policy_digest = replicate 64 (CHR ''0''),
     wa_expected_collector_policy_digest = replicate 64 (CHR ''0''), wa_local_capability = example_member,
     wa_current_identity = example_identity, wa_netuid = 118, wa_current_epoch_index = 3, wa_current_first_block = 90,
     wa_finalized_block = 100, wa_finalized_block_hash = ''0x'' @ replicate 64 (CHR ''b'')\<rparr>"

definition example_treasury_vector :: weight_vector where
  "example_treasury_vector = projr (fold_treasury_weights example_hash (\<lambda>_ _ _. True) [(''m'', Fin 1)] example_authority
     (Fin (1 / 2)) (Fin 1) ''burn'')"

lemma example_checks:
  "check_identity example_identity = Inr ()" "check_member example_member = Inr ()"
  "check_approval (xp_approval example_pin) = Inr ()" "is_digest (replicate 64 (CHR ''0''))"
  "policy_digest example_hash example_policy = replicate 64 (CHR ''0'')" "pin_service_bps example_pin = Inr 400"
  by code_simp+

lemma example_fields:
  "wa_pin example_authority = example_pin" "xp_policy example_pin = example_policy"
  "pa_policy (xp_approval example_pin) = example_policy" "ep_collector_policy_digest example_policy = replicate 64 (CHR ''0'')"
  by (simp_all add: example_authority_def example_pin_def example_policy_def)

lemma example_authorized:
  "require_treasury_weight_authority example_hash (\<lambda>_ _ _. True) example_authority = Inr example_pin"
proof -
  have "verify_policy_approval example_hash (\<lambda>_ _ _. True) (xp_approval example_pin) (replicate 64 (CHR ''0''))
      (replicate 64 (CHR ''0'')) = Inr example_policy"
    by (simp only: verify_policy_approval_def example_checks example_fields Let_def and_then.simps require_True refl)
  moreover have "same_collector example_identity (xp_identity example_pin)"
    by (simp add: same_collector_def example_pin_def)
  ultimately show ?thesis
    by (simp add: require_treasury_weight_authority_def Let_def example_pin_ok example_checks example_fields(1)
        example_authority_def)
       (simp add: example_pin_def example_identity_def example_member_def example_policy_def)
qed


subsection \<open>Refusals\<close>

text \<open>Every refusal of the fold is a \<^verbatim>\<open>ValueError\<close>, the exception the validator's epoch catches.\<close>

definition value_error :: "py_error \<Rightarrow> bool" where
  "value_error err \<longleftrightarrow> (case err of ValueError _ \<Rightarrow> True | _ \<Rightarrow> False)"

named_theorems refuses "computations whose only exceptions are ValueErrors"

lemma and_then_refuses:
  assumes "\<And>err. r = Inl err \<Longrightarrow> value_error err" "\<And>x err. r = Inr x \<Longrightarrow> f x = Inl err \<Longrightarrow> value_error err"
    and "and_then r f = Inl err"
  shows "value_error err"
  using assms by (auto simp: and_then_Inl)

lemma require_refuses [refuses]: "require ok message = Inl err \<Longrightarrow> value_error err"
  by (simp add: value_error_def)

lemma collect_refuses:
  "(\<And>x err. f x = Inl err \<Longrightarrow> value_error err) \<Longrightarrow> collect f xs = Inl err \<Longrightarrow> value_error err"
  by (induction xs arbitrary: err) (auto simp: and_then_Inl)

lemma check_refuses [refuses]:
  "check_bucket b = Inl err \<Longrightarrow> value_error err"
  "check_identity ident = Inl err \<Longrightarrow> value_error err"
  "check_member m = Inl err \<Longrightarrow> value_error err"
  by (auto simp: check_bucket_def check_identity_def check_member_def check_capability_def and_then_Inl value_error_def)

lemma check_policy_refuses [refuses]: "check_policy p = Inl err \<Longrightarrow> value_error err"
  unfolding check_policy_def Let_def
  by (elim and_then_refuses [rotated 2]) (auto intro: refuses collect_refuses [OF check_refuses(1)])

lemma check_approval_refuses [refuses]: "check_approval a = Inl err \<Longrightarrow> value_error err"
  unfolding check_approval_def by (elim and_then_refuses [rotated 2]) (auto intro: refuses)

lemma verify_refuses [refuses]: "verify_policy_approval sha256 verify a d c = Inl err \<Longrightarrow> value_error err"
  unfolding verify_policy_approval_def Let_def
  by (elim and_then_refuses [rotated 2]) (auto intro: refuses)

lemma check_pin_refuses [refuses]: "check_pin sha256 pin = Inl err \<Longrightarrow> value_error err"
  unfolding check_pin_def coherent_frozen_evidence_def Let_def
  by (elim and_then_refuses [rotated 2]) (auto intro: refuses collect_refuses [OF check_refuses(3)])

lemma authority_refuses [refuses]:
  "require_treasury_weight_authority sha256 verify wa = Inl err \<Longrightarrow> value_error err"
  unfolding require_treasury_weight_authority_def Let_def
  by (elim and_then_refuses [rotated 2]) (auto intro: refuses)

lemma service_first_refuses [refuses]:
  "service_first_weights weights bps burn collector verified burn_hotkey paid = Inl err \<Longrightarrow> value_error err"
  by (auto simp: service_first_weights_def Let_def value_error_def split: if_splits)

lemma fold_refuses [refuses]:
  assumes "fold_treasury_weights sha256 verify weights wa burn_share paid_fraction burn_hotkey = Inl err"
  shows "value_error err"
proof (cases "require_treasury_weight_authority sha256 verify wa")
  case (Inl err')
  with assms show ?thesis by (auto simp: fold_treasury_weights_def intro: refuses)
next
  case (Inr pin)
  obtain n where "pin_service_bps pin = Inr n"
    using effective_buckets_ok [OF authority_Inr(2) [OF Inr]] by (auto simp: pin_service_bps_def)
  with Inr assms show ?thesis
    by (auto simp: fold_treasury_weights_def and_then_Inl intro: refuses)
qed

end
