(* ===== verification/Receipts.thy ===== *)
theory Receipts
  imports Conservation Treasury_Pin
begin

section \<open>Weight receipts\<close>

text \<open>
  Models \<^verbatim>\<open>ditto_screening_protocol/weight_receipt.py\<close>: the provenance a validator attaches to a vector,
  the finalized attempt the transport reports, and the checks under which the platform accepts the
  receipt. A \<open>check_\<close> function is pydantic's validation, as in \<open>Treasury\<close>. What pydantic and
  \<^verbatim>\<open>json.dumps\<close> write for a model (\<^verbatim>\<open>_canonical(...model_dump(mode="json"))\<close>) is an argument, the record
  \<open>receipt_codec\<close>, together with the second hash and the UUIDs of RFC 4122; the digests are computed from it as the code does.
\<close>

record weight_provenance =
  wp_ledger_snapshot_id :: nat
  wp_epoch_index :: int
  wp_ledger_digest :: string
  wp_champion_agent_id :: "nat option"
  wp_champion_artifact_sha256 :: "string option"
  wp_bench_version :: int
  wp_vector_digest :: string

record weight_attempt =
  at_attempt_id :: nat
  at_normalized_weights :: "(int \<times> int) list"
  at_ciphertext_hash :: string
  at_ciphertext_hex :: string
  at_reveal_round :: int
  at_version_key :: int
  at_commit_block :: int
  at_commit_block_hash :: string
  at_extrinsic_hash :: string
  at_extrinsic_index :: int

text \<open>The body that is hashed into the request digest, and the receipt that repeats it.\<close>

record request_body =
  rb_schema_version :: int
  rb_mechanism_id :: int
  rb_weights :: weight_vector
  rb_provenance :: weight_provenance
  rb_treasury_pin :: "enforcing_pin option"

record weight_receipt =
  rc_body :: request_body
  rc_request_id :: nat
  rc_request_digest :: string
  rc_task_id :: int
  rc_netuid :: int
  rc_validator_hotkey :: string
  rc_attempt :: weight_attempt

record receipt_codec =
  cd_vector :: "weight_vector \<Rightarrow> bytes"
  cd_body :: "request_body \<Rightarrow> bytes"
  cd_receipt :: "weight_receipt \<Rightarrow> bytes"
  cd_blake2b :: "bytes \<Rightarrow> bytes"
  cd_uuid5 :: "string \<Rightarrow> nat"

subsection \<open>Digests\<close>

definition weight_vector_digest :: "hash_fun \<Rightarrow> receipt_codec \<Rightarrow> weight_vector \<Rightarrow> string" where
  "weight_vector_digest sha256 codec weights = hex_of (sha256 (cd_vector codec weights))"

definition weight_request_digest :: "hash_fun \<Rightarrow> receipt_codec \<Rightarrow> request_body \<Rightarrow> string" where
  "weight_request_digest sha256 codec body = hex_of (sha256 (cd_body codec body))"

definition weight_receipt_digest :: "hash_fun \<Rightarrow> receipt_codec \<Rightarrow> weight_receipt \<Rightarrow> string" where
  "weight_receipt_digest sha256 codec receipt = hex_of (sha256 (cd_receipt codec receipt))"

subsection \<open>Validation\<close>

definition check_provenance :: "weight_provenance \<Rightarrow> py_error + unit" where
  "check_provenance p =
     and_then (require (0 \<le> wp_epoch_index p \<and> is_digest (wp_ledger_digest p) \<and> opt_all is_digest (wp_champion_artifact_sha256 p)
       \<and> 1 \<le> wp_bench_version p \<and> is_digest (wp_vector_digest p)) ''provenance field'') (\<lambda>_.
     require ((wp_champion_agent_id p = None) = (wp_champion_artifact_sha256 p = None))
       ''champion identity and artifact must be paired'')"

definition is_u16 :: "int \<Rightarrow> bool" where
  "is_u16 n \<longleftrightarrow> 0 \<le> n \<and> n \<le> 65535"

definition check_attempt :: "receipt_codec \<Rightarrow> weight_attempt \<Rightarrow> py_error + unit" where
  "check_attempt codec a =
     and_then (require (1 \<le> length (at_normalized_weights a) \<and> length (at_normalized_weights a) \<le> 4096
       \<and> list_all (\<lambda>(uid, v). is_u16 uid \<and> is_u16 v) (at_normalized_weights a) \<and> is_digest (at_ciphertext_hash a)
       \<and> 2 \<le> length (at_ciphertext_hex a) \<and> length (at_ciphertext_hex a) \<le> 2 * 1024 * 1024 \<and> even (length (at_ciphertext_hex a))
       \<and> list_all is_hex (at_ciphertext_hex a) \<and> 0 \<le> at_reveal_round a \<and> 0 \<le> at_version_key a \<and> 1 \<le> at_commit_block a
       \<and> is_hash (at_commit_block_hash a) \<and> is_hash (at_extrinsic_hash a) \<and> 0 \<le> at_extrinsic_index a) ''attempt field'') (\<lambda>_.
     and_then (require (distinct (map fst (at_normalized_weights a))) ''normalized weights contain duplicate UIDs'') (\<lambda>_.
     and_then (require (list_ex (\<lambda>(_, v). 0 < v) (at_normalized_weights a)) ''normalized weights have no positive value'') (\<lambda>_.
     require (hex_of (cd_blake2b codec (bytes_fromhex (at_ciphertext_hex a))) = at_ciphertext_hash a)
       ''ciphertext hash does not match ciphertext'')))"

text \<open>\<^verbatim>\<open>dict[Hotkey, Weight]\<close> with one to 4096 entries.\<close>

definition wire_weights :: "weight_vector \<Rightarrow> bool" where
  "wire_weights weights \<longleftrightarrow> 1 \<le> length weights \<and> length weights \<le> 4096
     \<and> list_all (\<lambda>(h, w). 1 \<le> length h \<and> length h \<le> 128 \<and> isfinite w \<and> fle (Fin 0) w \<and> fle w (Fin 1)) weights"

text \<open>\<^verbatim>\<open>math.isclose(a, b, abs_tol=tol, rel_tol=0)\<close> and the tolerance \<^verbatim>\<open>1e-12\<close>.\<close>

definition isclose_abs :: "pyfloat \<Rightarrow> pyfloat \<Rightarrow> pyfloat \<Rightarrow> bool" where
  "isclose_abs a b tol \<longleftrightarrow> feq a b \<or> (isfinite a \<and> isfinite b \<and> fle (fabs (fsub b a)) tol)"

definition RECEIPT_TOLERANCE :: pyfloat where
  "RECEIPT_TOLERANCE = rnd64 (1 / 10 ^ 12)"

definition conserves_service :: "enforcing_pin \<Rightarrow> weight_vector \<Rightarrow> py_error + bool" where
  "conserves_service pin weights =
     (if \<not> isclose_abs (fsum (dict_values weights)) (Fin 1) RECEIPT_TOLERANCE then Inr False
      else and_then (pin_service_bps pin) (\<lambda>service_bps.
        Inr (isclose_abs (case dict_get weights (ep_collector_hotkey (xp_policy pin)) of None \<Rightarrow> Fin 0 | Some w \<Rightarrow> w)
               (itruediv service_bps 10000) RECEIPT_TOLERANCE)))"

definition validate_digests :: "hash_fun \<Rightarrow> receipt_codec \<Rightarrow> weight_receipt \<Rightarrow> py_error + unit" where
  "validate_digests sha256 codec r = (let body = rc_body r; p = rb_provenance body in
     and_then (if rb_schema_version body = 1
         then require (rb_treasury_pin body = None \<and> wp_champion_agent_id p \<noteq> None)
                ''legacy receipt requires champion and no enforcing pin''
         else require (case rb_treasury_pin body of None \<Rightarrow> False
             | Some pin \<Rightarrow> xp_epoch_index pin = wp_epoch_index p \<and> ep_netuid (xp_policy pin) = rc_netuid r
                 \<and> xp_pinned_block pin < at_commit_block (rc_attempt r))
                ''enforcing receipt differs from pinned treasury authority'') (\<lambda>_.
     and_then (case rb_treasury_pin body of None \<Rightarrow> Inr True | Some pin \<Rightarrow> conserves_service pin (rb_weights body)) (\<lambda>conserved.
     and_then (require conserved ''enforcing receipt does not conserve service allocation'') (\<lambda>_.
     and_then (require (weight_vector_digest sha256 codec (rb_weights body) = wp_vector_digest p)
       ''weight vector digest does not match request weights'') (\<lambda>_.
     require (weight_request_digest sha256 codec body = rc_request_digest r)
       ''Pylon request digest does not match immutable request'')))))"

definition check_receipt :: "hash_fun \<Rightarrow> receipt_codec \<Rightarrow> weight_receipt \<Rightarrow> py_error + unit" where
  "check_receipt sha256 codec r = (let body = rc_body r in
     and_then (require (rb_schema_version body \<in> {1, 2} \<and> is_digest (rc_request_digest r) \<and> 1 \<le> rc_task_id r \<and> is_u16 (rc_netuid r)
       \<and> rb_mechanism_id body = 0 \<and> 1 \<le> length (rc_validator_hotkey r) \<and> length (rc_validator_hotkey r) \<le> 128
       \<and> wire_weights (rb_weights body)) ''receipt field'') (\<lambda>_.
     and_then (check_provenance (rb_provenance body)) (\<lambda>_.
     and_then (check_attempt codec (rc_attempt r)) (\<lambda>_.
     and_then (case rb_treasury_pin body of None \<Rightarrow> Inr () | Some pin \<Rightarrow> check_pin sha256 pin) (\<lambda>_.
     validate_digests sha256 codec r)))))"

subsection \<open>A folded vector conserves the service allocation\<close>

lemma isclose_total:
  assumes "list_all isfinite ws" "\<bar>sum_list (map fin_val ws) - 1\<bar> \<le> 13 * rel_err"
  shows "isclose_abs (fsum ws) (Fin 1) RECEIPT_TOLERANCE"
proof -
  let ?s = "sum_list (map fin_val ws)"
  have r: "13 * rel_err \<le> 1" "abs_err \<le> rel_err" "0 \<le> rel_err" by (simp_all add: rel_err_def abs_err_def)
  have s: "0 \<le> ?s" "?s \<le> 2" using assms(2) r(1) by linarith+
  have fs: "fsum ws = rnd64 ?s" by (rule fsum_finite [OF assms(1)])
  have "rnd64 ?s \<le> Fin 2" "Fin 0 \<le> rnd64 ?s" using s by (auto intro: b64.rd_le b64.rd_ge)
  then obtain t where t: "rnd64 ?s = Fin t" by (cases "rnd64 ?s") auto
  have "\<bar>t - ?s\<bar> \<le> ?s * rel_err + abs_err" using rnd64_rounds [OF s(1) t] by (simp add: rounds_to_def)
  moreover have "?s * rel_err \<le> 2 * rel_err" using s(2) by (rule mult_right_mono) (simp add: rel_err_def)
  ultimately have "\<bar>1 - t\<bar> \<le> 16 * rel_err" using assms(2) r(2) by linarith
  then have "1 - t \<le> 16 * rel_err" "- (16 * rel_err) \<le> 1 - t" by linarith+
  moreover have i: "is64 (16 * rel_err)" using is64_scaled [of 1 "-49"] by (simp add: rel_err_def power_int_def power_one_over)
  ultimately have "rnd64 (1 - t) \<le> Fin (16 * rel_err)" "Fin (- (16 * rel_err)) \<le> rnd64 (1 - t)"
    by (auto intro!: b64.rd_le b64.rd_ge)
  then obtain d where d: "rnd64 (1 - t) = Fin d" "\<bar>d\<bar> \<le> 16 * rel_err" by (cases "rnd64 (1 - t)") (auto simp: abs_le_iff)
  have "Fin (16 * rel_err) \<le> RECEIPT_TOLERANCE"
    unfolding RECEIPT_TOLERANCE_def using i by (intro b64.rd_ge) (auto simp: rel_err_def)
  with d have "fle (Fin \<bar>d\<bar>) RECEIPT_TOLERANCE"
    by (auto simp: fle_def RECEIPT_TOLERANCE_def intro: order_trans [of _ "Fin (16 * rel_err)"])
  then show ?thesis using d(1) by (simp add: isclose_abs_def fs t float_simps fabs_def)
qed

lemma isclose_refl: "isfinite x \<Longrightarrow> isclose_abs x x tol"
  by (auto simp: isclose_abs_def isfinite_iff)

lemma fold_collector_weight:
  assumes "service_first_weights weights n burn (ep_collector_hotkey policy) True burn_hotkey paid = Inr out"
    and "burn_hotkey \<noteq> ep_collector_hotkey policy" "ep_collector_hotkey policy \<noteq> []"
  shows "(case dict_get out (ep_collector_hotkey policy) of None \<Rightarrow> Fin 0 | Some w \<Rightarrow> w) = itruediv n 10000"
proof -
  let ?c = "ep_collector_hotkey policy"
  note f = service_first_Inr [OF assms(1)]
  show ?thesis
  proof (cases "n = 0")
    case True
    have "?c \<notin> set (dict_keys (miner_part (service_miners weights ?c burn_hotkey) m))" for m
      using assms(3) unfolding keys_miner_part by (auto simp: service_miners_def Let_def)
    then have "dict_get (miner_part (service_miners weights ?c burn_hotkey) m) ?c = None" for m
      unfolding map_of_eq_None_iff set_map [symmetric] .
    then have "dict_get out ?c = None" using assms(2) True unfolding f(7) Let_def by (simp add: update_conv')
    with True show ?thesis by (simp add: itruediv_def)
  next
    case False
    then have "dict_get out ?c = Some (itruediv n 10000)"
      using assms(2) unfolding f(7) Let_def by (simp add: update_conv')
    then show ?thesis by simp
  qed
qed

lemma treasury_fold_conserves:
  assumes "fold_treasury_weights sha256 verify weights wa burn_share paid burn_hotkey = Inr out" "length out \<le> 4096"
  shows "conserves_service (wa_pin wa) out = Inr True"
proof -
  from assms(1) obtain pin n where f: "require_treasury_weight_authority sha256 verify wa = Inr pin"
      "burn_hotkey \<noteq> ep_collector_hotkey (xp_policy pin)" "pin_service_bps pin = Inr n"
      "service_first_weights weights n burn_share (ep_collector_hotkey (xp_policy pin)) True burn_hotkey paid = Inr out"
    by (auto simp: fold_treasury_weights_def and_then_Inr)
  note a = authority_Inr [OF f(1)]
  have "is_address (ep_collector_hotkey (xp_policy pin))"
    using check_pin_Inr(1) [OF a(2)] by (auto simp: check_policy_def and_then_Inr)
  then have ne: "ep_collector_hotkey (xp_policy pin) \<noteq> []" by (auto simp: is_address_def)
  have "isfinite (itruediv n 10000)"
    using service_unit(1) [OF service_first_Inr(1,2) [OF f(4)]] by (rule unit64_isfinite)
  then show ?thesis
    using isclose_total [OF service_first_total [OF f(4) assms(2)]] fold_collector_weight [OF f(4,2) ne] f(3)
    by (simp add: conserves_service_def isclose_refl flip: a(1))
qed

end
