(* ===== verification/Relay.thy ===== *)
theory Relay
  imports Receipts
begin

section \<open>Recovery of weight receipts\<close>

text \<open>
  Models the recovery of \<^verbatim>\<open>WeightReceiptRelay\<close> in \<^verbatim>\<open>ditto/validator/weight_receipts.py\<close>: one sweep reads a
  page of receipts from the transport (Pylon), validates each finalized attempt, forwards it to the
  platform, acknowledges it to the transport once the platform stored it, and drops a receipt that
  the platform keeps refusing. The replies of both services are functions of the number of calls
  made so far, so they may change from call to call; a reply that does not come within the sweep's ten seconds
  cancels the sweep where it stands. Every call is recorded in the list of events. Log lines and
  timestamps are left out, and the diagnostics report, whose failure is ignored, is not modelled.
\<close>

subsection \<open>What the transport and the platform answer\<close>

datatype loc_part = Name string | Index

record pyd_error =
  er_loc :: "loc_part list"
  er_type :: string
  er_msg :: string

text \<open>An attempt as it stands in the page: its status, the raw fields the diagnostics read (an id
  that is a string, with the UUID it parses to), and what pydantic makes of the envelope with it: a receipt whose fields have their types, or none, and
  the errors it reports when validation fails.\<close>

record raw_attempt =
  ra_status :: string
  ra_commit_block :: py_num
  ra_attempt_id :: "(string \<times> nat option) option"
  ra_parsed :: "weight_receipt option"
  ra_errors :: "pyd_error list"

record raw_envelope =
  rw_acknowledged :: bool
  rw_schema_version :: py_num
  rw_task_id :: py_num
  rw_epoch_index :: py_num
  rw_attempts :: "raw_attempt option list option"

datatype next_cursor = CursorNone | CursorInt int | CursorOther

datatype page_read = PageUnsupported | PageRaised | PageTimeout | PageMalformed
  | Page "raw_envelope option list" next_cursor

datatype report_reply = Stored nat nat string bool | ReportConflict string | ReportRaised | ReportTimeout
datatype ack_reply = AckOk | AckRaised | AckTimeout

record relay_env =
  rl_supported :: bool
  rl_page :: "int \<Rightarrow> page_read"
  rl_report :: "nat \<Rightarrow> weight_receipt \<Rightarrow> report_reply"
  rl_ack :: "nat \<Rightarrow> weight_receipt \<Rightarrow> ack_reply"

subsection \<open>The state of the relay\<close>

datatype relay_event = Reported weight_receipt report_reply | Acknowledged weight_receipt ack_reply
  | Dropped weight_receipt ack_reply

record failure_context =
  fc_claimed_schema_version :: "int option"
  fc_task_id :: "int option"
  fc_claimed_epoch_index :: "int option"
  fc_claimed_commit_block :: "int option"
  fc_attempt_id :: "nat option"

record relay_state =
  rs_cursor :: int
  rs_status :: string
  rs_page_receipts :: nat
  rs_page_finalized :: nat
  rs_page_forwarded :: nat
  rs_page_deferred :: nat
  rs_conflicts_dropped :: nat
  rs_last_validation :: "(nat \<times> string list) option"
  rs_failure_context :: "failure_context option"
  rs_conflict_counts :: "(nat \<times> nat, nat) dict"
  rs_events :: "relay_event list"

definition initial_relay :: relay_state where
  "initial_relay = \<lparr>rs_cursor = 0, rs_status = ''not_attempted'', rs_page_receipts = 0, rs_page_finalized = 0,
     rs_page_forwarded = 0, rs_page_deferred = 0, rs_conflicts_dropped = 0, rs_last_validation = None,
     rs_failure_context = None, rs_conflict_counts = [], rs_events = []\<rparr>"

definition RECEIPT_CONFLICT_DROP_THRESHOLD :: nat where "RECEIPT_CONFLICT_DROP_THRESHOLD = 5"

definition receipt_key :: "weight_receipt \<Rightarrow> nat \<times> nat" where
  "receipt_key r = (rc_request_id r, at_attempt_id (rc_attempt r))"

subsection \<open>Bounded diagnostics\<close>

text \<open>The field names of the four models, the error types and the rules that may be reported.\<close>

definition RECEIPT_DIAGNOSTIC_FIELDS :: "string list" where
  "RECEIPT_DIAGNOSTIC_FIELDS =
     [''schema_version'', ''request_id'', ''request_digest'', ''task_id'', ''netuid'', ''mechanism_id'', ''validator_hotkey'',
      ''weights'', ''provenance'', ''attempt'', ''treasury_pin'', ''attempt_id'', ''normalized_weights'', ''ciphertext_hash'',
      ''ciphertext_hex'', ''reveal_round'', ''version_key'', ''commit_block'', ''commit_block_hash'', ''extrinsic_hash'',
      ''extrinsic_index'', ''ledger_snapshot_id'', ''epoch_index'', ''ledger_digest'', ''champion_agent_id'',
      ''champion_artifact_sha256'', ''bench_version'', ''vector_digest'', ''version'', ''mode'', ''first_block'',
      ''pinned_block'', ''pinned_block_hash'', ''policy'', ''policy_digest'', ''identity'', ''approval'', ''fleet'', ''allocations'']"

definition RECEIPT_ERROR_TYPES :: "string list" where
  "RECEIPT_ERROR_TYPES =
     [''missing'', ''int_type'', ''int_parsing'', ''float_type'', ''float_parsing'', ''finite_number'', ''greater_than'',
      ''greater_than_equal'', ''less_than_equal'', ''string_type'', ''string_too_short'', ''string_too_long'',
      ''string_pattern_mismatch'', ''uuid_parsing'', ''uuid_type'', ''list_type'', ''tuple_type'', ''dict_type'', ''model_type'',
      ''literal_error'', ''too_short'', ''too_long'', ''value_error'']"

definition RECEIPT_VALIDATION_RULES :: "(string, string) dict" where
  "RECEIPT_VALIDATION_RULES =
     [(''Value error, champion identity and artifact must be paired'', ''champion_pair''),
      (''Value error, normalized weights contain duplicate UIDs'', ''duplicate_uids''),
      (''Value error, normalized weights have no positive value'', ''empty_weights''),
      (''Value error, ciphertext hash does not match ciphertext'', ''ciphertext_digest''),
      (''Value error, legacy receipt requires champion and no enforcing pin'', ''legacy_authority''),
      (''Value error, enforcing receipt differs from pinned treasury authority'', ''pinned_authority''),
      (''Value error, enforcing receipt does not conserve service allocation'', ''service_allocation''),
      (''Value error, weight vector digest does not match request weights'', ''vector_digest''),
      (''Value error, Pylon request digest does not match immutable request'', ''request_digest'')]"

fun join_with :: "string \<Rightarrow> string list \<Rightarrow> string" where
  "join_with sep [] = []"
| "join_with sep [x] = x"
| "join_with sep (x # xs) = x @ sep @ join_with sep xs"

fun public_part :: "loc_part \<Rightarrow> string" where
  "public_part Index = ''*''"
| "public_part (Name n) = (if n \<in> set RECEIPT_DIAGNOSTIC_FIELDS then n else ''*'')"

definition validation_field :: "pyd_error \<Rightarrow> string" where
  "validation_field e =
     (let joined = join_with ''.'' (map public_part (take 8 (er_loc e)));
          location = (if joined = [] then ''root'' else joined);
          kind = (if er_type e \<in> set RECEIPT_ERROR_TYPES then er_type e else ''other'')
      in location @ '':'' @ kind @ (case dict_get RECEIPT_VALIDATION_RULES (er_msg e) of None \<Rightarrow> [] | Some rule \<Rightarrow> '':'' @ rule))"

text \<open>The comma-separated text, split again at the commas, which no field contains.\<close>

definition receipt_validation_fields :: "pyd_error list \<Rightarrow> string list" where
  "receipt_validation_fields errors = (case map validation_field (take 5 errors) of [] \<Rightarrow> [''''] | f # fs \<Rightarrow> f # fs)"

definition bounded_int :: "py_num \<Rightarrow> int \<Rightarrow> int \<Rightarrow> int option" where
  "bounded_int v low high = (case v of NInt n \<Rightarrow> if low \<le> n \<and> n \<le> high then Some n else None | _ \<Rightarrow> None)"

definition receipt_failure_context :: "raw_envelope \<Rightarrow> raw_attempt \<Rightarrow> failure_context" where
  "receipt_failure_context envelope attempt =
     \<lparr>fc_claimed_schema_version = bounded_int (rw_schema_version envelope) 1 2,
      fc_task_id = bounded_int (rw_task_id envelope) 1 2147483647,
      fc_claimed_epoch_index = bounded_int (rw_epoch_index envelope) 0 2147483647,
      fc_claimed_commit_block = bounded_int (ra_commit_block attempt) 1 4294967295,
      fc_attempt_id = (case ra_attempt_id attempt of Some (text, parsed) \<Rightarrow> if length text = 36 then parsed else None
        | None \<Rightarrow> None)\<rparr>"

subsection \<open>One sweep\<close>

datatype failure = Conflict string | Invalid "pyd_error list" | OtherFailure

text \<open>\<^verbatim>\<open>FinalizedWeightReceipt.model_validate\<close>; a \<^verbatim>\<open>KeyError\<close> raised by a validator is not a validation error.\<close>

definition claim_of :: "hash_fun \<Rightarrow> receipt_codec \<Rightarrow> raw_attempt \<Rightarrow> failure + weight_receipt" where
  "claim_of sha256 codec a = (case ra_parsed a of
     None \<Rightarrow> Inl (Invalid (ra_errors a))
   | Some r \<Rightarrow> (case check_receipt sha256 codec r of
       Inr _ \<Rightarrow> Inr r
     | Inl err \<Rightarrow> if value_error err then Inl (Invalid (ra_errors a)) else Inl OtherFailure))"

text \<open>How the processing of one envelope ended: normally, with an exception (and the attempt and the
  claim at hand), or cancelled by the timeout.\<close>

datatype outcome = Finished | Raised failure "raw_attempt option" "weight_receipt option" | Cancelled

definition exact_ack :: "hash_fun \<Rightarrow> receipt_codec \<Rightarrow> weight_receipt \<Rightarrow> report_reply \<Rightarrow> bool" where
  "exact_ack sha256 codec r reply \<longleftrightarrow> (case reply of
     Stored request_id attempt_id digest stored \<Rightarrow> (request_id, attempt_id) = receipt_key r
       \<and> digest = weight_receipt_digest sha256 codec r \<and> stored
   | _ \<Rightarrow> False)"

definition record_event :: "relay_event \<Rightarrow> relay_state \<Rightarrow> relay_state" where
  "record_event e st = st\<lparr>rs_events := rs_events st @ [e]\<rparr>"

text \<open>Forwarding a validated claim: the new state, the stage reached and the outcome.\<close>

definition forward_claim ::
  "hash_fun \<Rightarrow> receipt_codec \<Rightarrow> relay_env \<Rightarrow> raw_attempt \<Rightarrow> weight_receipt \<Rightarrow> relay_state \<Rightarrow> relay_state \<times> string \<times> outcome" where
  "forward_claim sha256 codec env a r st =
     (let reply = rl_report env (length (rs_events st)) r;
          st1 = record_event (Reported r reply) st
      in case reply of
        ReportTimeout \<Rightarrow> (st1, ''forwarding_platform'', Cancelled)
      | ReportRaised \<Rightarrow> (st1, ''forwarding_platform'', Raised OtherFailure (Some a) (Some r))
      | ReportConflict code \<Rightarrow> (st1, ''forwarding_platform'', Raised (Conflict code) (Some a) (Some r))
      | Stored _ _ _ _ \<Rightarrow>
          if \<not> exact_ack sha256 codec r reply then (st1, ''forwarding_platform'', Raised OtherFailure (Some a) (Some r))
          else let answer = rl_ack env (length (rs_events st1)) r;
                   st2 = record_event (Acknowledged r answer) st1
            in case answer of
                 AckTimeout \<Rightarrow> (st2, ''acknowledging_pylon'', Cancelled)
               | AckRaised \<Rightarrow> (st2, ''acknowledging_pylon'', Raised OtherFailure (Some a) (Some r))
               | AckOk \<Rightarrow> (st2\<lparr>rs_status := ''forwarded'', rs_page_forwarded := rs_page_forwarded st2 + 1,
                     rs_conflict_counts := AList.delete (receipt_key r) (rs_conflict_counts st2)\<rparr>,
                   ''acknowledging_pylon'', Finished))"

fun run_attempts ::
  "hash_fun \<Rightarrow> receipt_codec \<Rightarrow> string \<Rightarrow> int \<Rightarrow> relay_env \<Rightarrow> raw_attempt option list \<Rightarrow> string \<Rightarrow> relay_state
     \<Rightarrow> relay_state \<times> string \<times> outcome" where
  "run_attempts sha256 codec hotkey netuid env [] stage st = (st, stage, Finished)"
| "run_attempts sha256 codec hotkey netuid env (None # as) stage st = (st, stage, Raised OtherFailure None None)"
| "run_attempts sha256 codec hotkey netuid env (Some a # as) stage st =
     (if ra_status a \<noteq> ''finalized'' then run_attempts sha256 codec hotkey netuid env as stage st
      else let st1 = st\<lparr>rs_status := ''validating_claim'', rs_page_finalized := rs_page_finalized st + 1\<rparr> in
        case claim_of sha256 codec a of
          Inl f \<Rightarrow> (st1, ''validating_claim'', Raised f (Some a) None)
        | Inr r \<Rightarrow>
            if rc_validator_hotkey r \<noteq> hotkey \<or> rc_netuid r \<noteq> netuid
            then (st1, ''validating_claim'', Raised OtherFailure (Some a) (Some r))
            else (case forward_claim sha256 codec env a r st1 of
                    (st2, stage2, Finished) \<Rightarrow> run_attempts sha256 codec hotkey netuid env as stage2 st2
                  | stopped \<Rightarrow> stopped))"

text \<open>The handler of an exception: the receipt is deferred, and a receipt the platform has refused
  five times is acknowledged to the transport so that it is not offered again.\<close>

definition drop_conflict ::
  "relay_env \<Rightarrow> weight_receipt \<Rightarrow> relay_state \<Rightarrow> relay_state \<times> string \<times> bool" where
  "drop_conflict env r st =
     (let key = receipt_key r;
          count = (case dict_get (rs_conflict_counts st) key of None \<Rightarrow> 0 | Some n \<Rightarrow> n) + 1;
          st1 = st\<lparr>rs_conflict_counts := dict_set key count (rs_conflict_counts st)\<rparr>
      in if count < RECEIPT_CONFLICT_DROP_THRESHOLD then (st1, ''forwarding_platform'', False)
         else let st2 = st1\<lparr>rs_conflict_counts := AList.delete key (rs_conflict_counts st1)\<rparr>;
                  answer = rl_ack env (length (rs_events st2)) r;
                  st3 = record_event (Dropped r answer) st2
           in case answer of
                AckTimeout \<Rightarrow> (st3, ''acknowledging_pylon'', True)
              | AckRaised \<Rightarrow> (st3, ''acknowledging_pylon'', False)
              | AckOk \<Rightarrow> (st3\<lparr>rs_status := ''conflict_dropped'', rs_conflicts_dropped := rs_conflicts_dropped st3 + 1\<rparr>,
                  ''validating_claim'', False))"

definition defer_receipt ::
  "relay_env \<Rightarrow> raw_envelope \<Rightarrow> string \<Rightarrow> failure \<Rightarrow> raw_attempt option \<Rightarrow> weight_receipt option \<Rightarrow> relay_state
     \<Rightarrow> relay_state \<times> string \<times> bool" where
  "defer_receipt env envelope stage f attempt claim st =
     (let st1 = st\<lparr>rs_status := stage @ ''_failed'', rs_page_deferred := rs_page_deferred st + 1\<rparr>;
          st2 = (case (f, attempt) of
              (Invalid errors, Some a) \<Rightarrow> if stage = ''validating_claim''
                 then st1\<lparr>rs_last_validation := Some (length errors, receipt_validation_fields errors),
                          rs_failure_context := Some (receipt_failure_context envelope a)\<rparr> else st1
            | _ \<Rightarrow> st1)
      in case (f, claim) of
           (Conflict _, Some r) \<Rightarrow> if stage = ''forwarding_platform'' then drop_conflict env r st2 else (st2, stage, False)
         | _ \<Rightarrow> (st2, stage, False))"

text \<open>The loop over the page: state, stage, the stage of the last deferral, and whether it was cancelled.\<close>

fun run_envelopes ::
  "hash_fun \<Rightarrow> receipt_codec \<Rightarrow> string \<Rightarrow> int \<Rightarrow> relay_env \<Rightarrow> raw_envelope option list \<Rightarrow> string \<Rightarrow> string option \<Rightarrow> relay_state
     \<Rightarrow> relay_state \<times> string \<times> string option \<times> bool" where
  "run_envelopes sha256 codec hotkey netuid env [] stage deferred st = (st, stage, deferred, False)"
| "run_envelopes sha256 codec hotkey netuid env (None # es) stage deferred st =
     run_envelopes sha256 codec hotkey netuid env es stage deferred st"
| "run_envelopes sha256 codec hotkey netuid env (Some e # es) stage deferred st =
     (if rw_acknowledged e then run_envelopes sha256 codec hotkey netuid env es stage deferred st
      else case (case rw_attempts e of
                   None \<Rightarrow> (st, ''validating_claim'', Raised OtherFailure None None)
                 | Some as \<Rightarrow> run_attempts sha256 codec hotkey netuid env as ''validating_claim'' st) of
        (st1, stage1, Finished) \<Rightarrow> run_envelopes sha256 codec hotkey netuid env es stage1 deferred st1
      | (st1, stage1, Cancelled) \<Rightarrow> (st1, stage1, deferred, True)
      | (st1, stage1, Raised f attempt claim) \<Rightarrow>
          (case defer_receipt env e stage1 f attempt claim st1 of
             (st2, stage2, cancelled) \<Rightarrow>
               if cancelled then (st2, stage2, Some (stage1 @ ''_failed''), True)
               else run_envelopes sha256 codec hotkey netuid env es stage2 (Some (stage1 @ ''_failed'')) st2))"

definition recover_sweep :: "hash_fun \<Rightarrow> receipt_codec \<Rightarrow> string \<Rightarrow> int \<Rightarrow> relay_env \<Rightarrow> relay_state \<Rightarrow> relay_state" where
  "recover_sweep sha256 codec hotkey netuid env st0 =
     (let st = st0\<lparr>rs_last_validation := None, rs_failure_context := None, rs_status := ''reading_pylon'', rs_page_receipts := 0,
           rs_page_finalized := 0, rs_page_forwarded := 0, rs_page_deferred := 0\<rparr> in
      if \<not> rl_supported env then st\<lparr>rs_status := ''unsupported''\<rparr>
      else case rl_page env (rs_cursor st) of
        PageUnsupported \<Rightarrow> st\<lparr>rs_status := ''unsupported''\<rparr>
      | Page receipts next_after_task_id \<Rightarrow>
          (case run_envelopes sha256 codec hotkey netuid env receipts ''reading_pylon'' None
                  (st\<lparr>rs_page_receipts := length receipts\<rparr>) of
             (st1, stage, deferred, cancelled) \<Rightarrow>
               if cancelled then st1\<lparr>rs_status := stage @ ''_failed''\<rparr>
               else (case next_after_task_id of
                  CursorOther \<Rightarrow> st1\<lparr>rs_status := ''validating_page_failed''\<rparr>
                | CursorInt n \<Rightarrow> if n \<le> rs_cursor st1 then st1\<lparr>rs_status := ''validating_page_failed''\<rparr>
                    else st1\<lparr>rs_cursor := n, rs_status := (case deferred of None \<Rightarrow> ''page_complete'' | Some d \<Rightarrow> d)\<rparr>
                | CursorNone \<Rightarrow> st1\<lparr>rs_cursor := 0, rs_status := (case deferred of None \<Rightarrow> ''page_complete'' | Some d \<Rightarrow> d)\<rparr>))
      | _ \<Rightarrow> st\<lparr>rs_status := ''reading_pylon_failed''\<rparr>)"

text \<open>\<^verbatim>\<open>recover\<close>: at most one sweep at a time.\<close>

definition recover :: "hash_fun \<Rightarrow> receipt_codec \<Rightarrow> string \<Rightarrow> int \<Rightarrow> bool \<Rightarrow> relay_env \<Rightarrow> relay_state \<Rightarrow> relay_state" where
  "recover sha256 codec hotkey netuid locked env st = (if locked then st else recover_sweep sha256 codec hotkey netuid env st)"

text \<open>\<^verbatim>\<open>schedule_recovery\<close>: the monotonic time of the last start, and whether a sweep is started now.\<close>

definition schedule_recovery :: "pyfloat \<Rightarrow> bool \<Rightarrow> pyfloat option \<Rightarrow> pyfloat option \<times> bool" where
  "schedule_recovery now running previous =
     (if (case previous of None \<Rightarrow> False | Some t \<Rightarrow> flt (fsub now t) (Fin 30)) then (previous, False)
      else if \<not> running then (Some now, True) else (previous, False))"

subsection \<open>No receipt is lost\<close>

text \<open>The conflicts the platform has answered for a receipt, and the times it was dropped.\<close>

definition conflicts :: "nat \<times> nat \<Rightarrow> relay_event list \<Rightarrow> nat" where
  "conflicts key ev = length (filter (\<lambda>e. case e of Reported r (ReportConflict _) \<Rightarrow> receipt_key r = key | _ \<Rightarrow> False) ev)"

definition drops :: "nat \<times> nat \<Rightarrow> relay_event list \<Rightarrow> nat" where
  "drops key ev = length (filter (\<lambda>e. case e of Dropped r _ \<Rightarrow> receipt_key r = key | _ \<Rightarrow> False) ev)"

definition own_claim :: "hash_fun \<Rightarrow> receipt_codec \<Rightarrow> string \<Rightarrow> int \<Rightarrow> weight_receipt \<Rightarrow> bool" where
  "own_claim sha256 codec hotkey netuid r \<longleftrightarrow> check_receipt sha256 codec r = Inr () \<and> rc_validator_hotkey r = hotkey \<and> rc_netuid r = netuid"

fun event_claim :: "relay_event \<Rightarrow> weight_receipt" where
  "event_claim (Reported r _) = r"
| "event_claim (Acknowledged r _) = r"
| "event_claim (Dropped r _) = r"

definition conflict_count :: "relay_state \<Rightarrow> nat \<times> nat \<Rightarrow> nat" where
  "conflict_count st key = (case dict_get (rs_conflict_counts st) key of None \<Rightarrow> 0 | Some n \<Rightarrow> n)"

text \<open>The invariant of the relay; \<open>pending\<close> is a receipt whose last conflict is not yet counted.\<close>

fun slack :: "weight_receipt option \<Rightarrow> nat \<times> nat \<Rightarrow> nat" where
  "slack None key = 0"
| "slack (Some r) key = (if receipt_key r = key then 1 else 0)"

definition tallied :: "weight_receipt option \<Rightarrow> relay_state \<Rightarrow> bool" where
  "tallied pending st \<longleftrightarrow>
     (\<forall>key. 5 * drops key (rs_events st) + conflict_count st key + slack pending key \<le> conflicts key (rs_events st))"

definition relay_inv :: "hash_fun \<Rightarrow> receipt_codec \<Rightarrow> string \<Rightarrow> int \<Rightarrow> weight_receipt option \<Rightarrow> relay_state \<Rightarrow> bool" where
  "relay_inv sha256 codec hotkey netuid pending st \<longleftrightarrow>
     (\<forall>e\<in>set (rs_events st). own_claim sha256 codec hotkey netuid (event_claim e))
     \<and> (\<forall>r a. Acknowledged r a \<in> set (rs_events st) \<longrightarrow>
          (\<exists>reply. Reported r reply \<in> set (rs_events st) \<and> exact_ack sha256 codec r reply))
     \<and> tallied pending st"

lemma talliedI:
  "(\<And>key. 5 * drops key (rs_events st) + conflict_count st key + slack p key \<le> conflicts key (rs_events st)) \<Longrightarrow> tallied p st"
  unfolding tallied_def by blast

lemma talliedD: "tallied p st \<Longrightarrow> 5 * drops key (rs_events st) + conflict_count st key + slack p key \<le> conflicts key (rs_events st)"
  unfolding tallied_def by blast

lemma tallied_mono:
  assumes "tallied p st" "rs_events st' = rs_events st"
    "\<And>key. conflict_count st' key + slack p' key \<le> conflict_count st key + slack p key"
  shows "tallied p' st'"
proof (rule talliedI)
  fix key
  show "5 * drops key (rs_events st') + conflict_count st' key + slack p' key \<le> conflicts key (rs_events st')"
    using talliedD [OF assms(1), of key] assms(3) [of key] assms(2) by simp
qed

lemma relay_inv_weaken: "relay_inv sha256 codec hotkey netuid p st \<Longrightarrow> relay_inv sha256 codec hotkey netuid None st"
  by (auto simp: relay_inv_def elim: tallied_mono)

lemma relay_inv_frame:
  "rs_events st' = rs_events st \<Longrightarrow> rs_conflict_counts st' = rs_conflict_counts st \<Longrightarrow>
     relay_inv sha256 codec hotkey netuid p st' \<longleftrightarrow> relay_inv sha256 codec hotkey netuid p st"
  by (simp add: relay_inv_def tallied_def conflict_count_def)

lemma conflicts_snoc [simp]: "conflicts key (ev @ [e]) = conflicts key ev +
   (case e of Reported r (ReportConflict _) \<Rightarrow> slack (Some r) key | _ \<Rightarrow> 0)"
  by (auto simp: conflicts_def split: relay_event.split report_reply.split)

lemma drops_snoc [simp]: "drops key (ev @ [e]) = drops key ev + (case e of Dropped r _ \<Rightarrow> slack (Some r) key | _ \<Rightarrow> 0)"
  by (auto simp: drops_def split: relay_event.split)

lemma record_event_simps [simp]:
  "rs_events (record_event e st) = rs_events st @ [e]" "rs_conflict_counts (record_event e st) = rs_conflict_counts st"
  "conflict_count (record_event e st) = conflict_count st"
  by (simp_all add: record_event_def conflict_count_def fun_eq_iff)

text \<open>How each event and each change of a counter moves the invariant.\<close>

lemma inv_report:
  assumes "relay_inv sha256 codec hotkey netuid None st" "own_claim sha256 codec hotkey netuid r"
  shows "relay_inv sha256 codec hotkey netuid (case reply of ReportConflict _ \<Rightarrow> Some r | _ \<Rightarrow> None) (record_event (Reported r reply) st)"
proof -
  have "tallied None st" using assms(1) by (simp add: relay_inv_def)
  from talliedD [OF this] have "tallied (case reply of ReportConflict _ \<Rightarrow> Some r | _ \<Rightarrow> None) (record_event (Reported r reply) st)"
    by (intro talliedI) (simp split: report_reply.split)
  then show ?thesis using assms unfolding relay_inv_def by fastforce
qed

lemma inv_ack:
  assumes "relay_inv sha256 codec hotkey netuid None st" "Reported r reply \<in> set (rs_events st)" "exact_ack sha256 codec r reply"
  shows "relay_inv sha256 codec hotkey netuid None (record_event (Acknowledged r a) st)"
proof -
  have "tallied None st" using assms(1) by (simp add: relay_inv_def)
  from talliedD [OF this] have "tallied None (record_event (Acknowledged r a) st)" by (intro talliedI) simp
  then show ?thesis using assms unfolding relay_inv_def by fastforce
qed

lemma inv_forget:
  assumes "relay_inv sha256 codec hotkey netuid None st"
  shows "relay_inv sha256 codec hotkey netuid None (st\<lparr>rs_conflict_counts := AList.delete k (rs_conflict_counts st)\<rparr>)"
proof -
  have i: "tallied None st" using assms by (simp add: relay_inv_def)
  have "conflict_count (st\<lparr>rs_conflict_counts := AList.delete k (rs_conflict_counts st)\<rparr>) key \<le> conflict_count st key" for key
    by (simp add: conflict_count_def delete_conv')
  then have "tallied None (st\<lparr>rs_conflict_counts := AList.delete k (rs_conflict_counts st)\<rparr>)"
    by (intro tallied_mono [OF i]) simp_all
  then show ?thesis using assms by (simp add: relay_inv_def)
qed

lemma inv_count:
  assumes "relay_inv sha256 codec hotkey netuid (Some r) st"
  shows "relay_inv sha256 codec hotkey netuid None
    (st\<lparr>rs_conflict_counts := dict_set (receipt_key r) (conflict_count st (receipt_key r) + 1) (rs_conflict_counts st)\<rparr>)"
proof -
  let ?st = "st\<lparr>rs_conflict_counts := dict_set (receipt_key r) (conflict_count st (receipt_key r) + 1) (rs_conflict_counts st)\<rparr>"
  have i: "tallied (Some r) st" using assms by (simp add: relay_inv_def)
  have "conflict_count ?st key = conflict_count st key + slack (Some r) key" for key
    by (auto simp: conflict_count_def update_conv')
  then have "tallied None ?st" by (intro tallied_mono [OF i]) simp_all
  then show ?thesis using assms by (simp add: relay_inv_def)
qed

lemma inv_drop:
  assumes "relay_inv sha256 codec hotkey netuid None st" "own_claim sha256 codec hotkey netuid r" "5 \<le> conflict_count st (receipt_key r)"
  shows "relay_inv sha256 codec hotkey netuid None
    (record_event (Dropped r a) (st\<lparr>rs_conflict_counts := AList.delete (receipt_key r) (rs_conflict_counts st)\<rparr>))"
proof -
  let ?st = "st\<lparr>rs_conflict_counts := AList.delete (receipt_key r) (rs_conflict_counts st)\<rparr>"
  have i: "tallied None st" using assms by (simp add: relay_inv_def)
  have c: "conflict_count ?st key + 5 * slack (Some r) key \<le> conflict_count st key" for key
    using assms(3) by (auto simp: conflict_count_def delete_conv')
  have "tallied None (record_event (Dropped r a) ?st)"
  proof (rule talliedI)
    fix key
    show "5 * drops key (rs_events (record_event (Dropped r a) ?st)) + conflict_count (record_event (Dropped r a) ?st) key + slack None key
        \<le> conflicts key (rs_events (record_event (Dropped r a) ?st))"
      using talliedD [OF i, of key] c [of key] unfolding record_event_simps drops_snoc conflicts_snoc
      by (simp del: slack.simps(2))
  qed
  then show ?thesis using assms(1,2) unfolding relay_inv_def by fastforce
qed

subsection \<open>The sweep keeps the invariant\<close>

text \<open>The uncounted conflict of an outcome.\<close>

fun uncounted :: "outcome \<Rightarrow> weight_receipt option" where
  "uncounted (Raised (Conflict _) _ claim) = claim"
| "uncounted _ = None"

lemma forward_claim_inv:
  assumes "relay_inv sha256 codec hotkey netuid None st" "own_claim sha256 codec hotkey netuid r"
    "forward_claim sha256 codec env a r st = (st', stage, out)"
  shows "relay_inv sha256 codec hotkey netuid (uncounted out) st' \<and> opt_all (own_claim sha256 codec hotkey netuid) (uncounted out)"
proof -
  define reply where "reply = rl_report env (length (rs_events st)) r"
  define st1 where "st1 = record_event (Reported r reply) st"
  have i: "relay_inv sha256 codec hotkey netuid (case reply of ReportConflict _ \<Rightarrow> Some r | _ \<Rightarrow> None) st1"
    unfolding st1_def by (rule inv_report [OF assms(1,2)])
  show ?thesis
  proof (cases "exact_ack sha256 codec r reply")
    case False
    then show ?thesis using i assms(2,3)
      unfolding forward_claim_def Let_def reply_def [symmetric] st1_def [symmetric]
      by (auto simp: exact_ack_def opt_all_def split: report_reply.splits if_splits)
  next
    case True
    define answer where "answer = rl_ack env (length (rs_events st1)) r"
    have "relay_inv sha256 codec hotkey netuid None st1" using i by (rule relay_inv_weaken)
    then have j: "relay_inv sha256 codec hotkey netuid None (record_event (Acknowledged r answer) st1)"
      using True by (intro inv_ack) (auto simp: st1_def)
    have "(st', out) = (case answer of
        AckOk \<Rightarrow> ((record_event (Acknowledged r answer) st1)\<lparr>rs_status := ''forwarded'', rs_page_forwarded := rs_page_forwarded st1 + 1,
            rs_conflict_counts := AList.delete (receipt_key r) (rs_conflict_counts st1)\<rparr>, Finished)
      | AckRaised \<Rightarrow> (record_event (Acknowledged r answer) st1, Raised OtherFailure (Some a) (Some r))
      | AckTimeout \<Rightarrow> (record_event (Acknowledged r answer) st1, Cancelled))"
      using True assms(3) unfolding forward_claim_def Let_def reply_def [symmetric] st1_def [symmetric] answer_def [symmetric]
      by (auto simp: exact_ack_def record_event_def split: report_reply.splits ack_reply.splits if_splits)
    with inv_forget [OF j, of "receipt_key r"] j show ?thesis
      by (auto simp: opt_all_def split: ack_reply.splits elim!: relay_inv_frame [THEN iffD1, rotated -1])
  qed
qed

end
