(* ===== verification/Relay_Safety.thy ===== *)
theory Relay_Safety
  imports Relay
begin

section \<open>What the recovery of receipts guarantees\<close>

text \<open>
  Runs of the relay are sequences of sweeps with arbitrary answers of the transport and the platform.
  The invariant of \<open>Relay\<close> holds along every run: nothing is acknowledged that was not stored, and
  nothing is dropped before five conflicts. A second group of lemmas shows that one bad receipt does
  not hold up the others of its page.
\<close>

subsection \<open>The invariant along a sweep\<close>

lemma claim_of_checked: "claim_of sha256 codec a = Inr r \<Longrightarrow> check_receipt sha256 codec r = Inr ()"
  by (auto simp: claim_of_def split: option.splits sum.splits if_splits)

lemma uncounted_no_claim [simp]: "uncounted (Raised f a None) = None"
  by (cases f) auto

lemma run_attempts_inv:
  assumes "relay_inv sha256 codec hotkey netuid None st"
    "run_attempts sha256 codec hotkey netuid env as stage st = (st', stage', out)"
  shows "relay_inv sha256 codec hotkey netuid (uncounted out) st' \<and> opt_all (own_claim sha256 codec hotkey netuid) (uncounted out)"
  using assms
proof (induction sha256 codec hotkey netuid env as stage st rule: run_attempts.induct)
  case (3 sha256 codec hotkey netuid env a as stage st)
  let ?st = "st\<lparr>rs_status := ''validating_claim'', rs_page_finalized := rs_page_finalized st + 1\<rparr>"
  have i: "relay_inv sha256 codec hotkey netuid None ?st" using 3(3) relay_inv_frame [of ?st st] by simp
  show ?case
  proof (cases "ra_status a \<noteq> ''finalized''")
    case True
    with 3 show ?thesis by simp
  next
    case False
    show ?thesis
    proof (cases "\<exists>r. claim_of sha256 codec a = Inr r \<and> rc_validator_hotkey r = hotkey \<and> rc_netuid r = netuid")
      case True
      then obtain r where r: "claim_of sha256 codec a = Inr r" "rc_validator_hotkey r = hotkey" "rc_netuid r = netuid" by blast
      then have own: "own_claim sha256 codec hotkey netuid r" using claim_of_checked by (simp add: own_claim_def)
      obtain st2 stage2 out2 where f: "forward_claim sha256 codec env a r ?st = (st2, stage2, out2)" by (metis prod_cases3)
      note j = forward_claim_inv [OF i own f]
      show ?thesis
      proof (cases out2)
        case Finished
        with 3 False r f j show ?thesis by simp
      qed (use 3(4) False r f j in auto)
    next
      case other: False
      have "out = Raised (case claim_of sha256 codec a of Inl g \<Rightarrow> g | Inr _ \<Rightarrow> OtherFailure) (Some a)
          (case claim_of sha256 codec a of Inl _ \<Rightarrow> None | Inr r \<Rightarrow> Some r) \<and> st' = ?st"
        using 3(4) False other by (auto split: sum.splits if_splits)
      moreover have "claim_of sha256 codec a \<noteq> Inl (Conflict c)" for c
        by (auto simp: claim_of_def split: option.splits sum.splits)
      ultimately have "uncounted out = None \<and> st' = ?st" by (cases "claim_of sha256 codec a") auto
      with i show ?thesis by (simp add: opt_all_def)
    qed
  qed
qed (auto simp: opt_all_def)

lemma drop_conflict_inv:
  assumes "relay_inv sha256 codec hotkey netuid (Some r) st" "own_claim sha256 codec hotkey netuid r"
    "drop_conflict env r st = (st', stage', cancelled)"
  shows "relay_inv sha256 codec hotkey netuid None st'"
proof -
  define n where "n = conflict_count st (receipt_key r) + 1"
  define st1 where "st1 = st\<lparr>rs_conflict_counts := dict_set (receipt_key r) n (rs_conflict_counts st)\<rparr>"
  define answer where "answer = rl_ack env (length (rs_events st1)) r"
  define st3 where "st3 = record_event (Dropped r answer) (st1\<lparr>rs_conflict_counts := AList.delete (receipt_key r) (rs_conflict_counts st1)\<rparr>)"
  have i: "relay_inv sha256 codec hotkey netuid None st1" unfolding st1_def n_def by (rule inv_count [OF assms(1)])
  have c: "conflict_count st1 (receipt_key r) = n" by (simp add: st1_def conflict_count_def update_conv')
  have "st' = st1 \<or> 5 \<le> n \<and> rs_events st' = rs_events st3 \<and> rs_conflict_counts st' = rs_conflict_counts st3"
    using assms(3)
    by (auto simp: drop_conflict_def Let_def st3_def answer_def st1_def n_def conflict_count_def RECEIPT_CONFLICT_DROP_THRESHOLD_def
        split: ack_reply.splits if_splits)
  moreover have "relay_inv sha256 codec hotkey netuid None st3" if "5 \<le> n"
    unfolding st3_def using that c by (intro inv_drop [OF i assms(2)]) simp
  ultimately show ?thesis using i relay_inv_frame by blast
qed

lemma defer_receipt_inv:
  assumes "relay_inv sha256 codec hotkey netuid (uncounted (Raised f attempt claim)) st"
    "opt_all (own_claim sha256 codec hotkey netuid) (uncounted (Raised f attempt claim))"
    "defer_receipt env e stage f attempt claim st = (st', stage', cancelled)"
  shows "relay_inv sha256 codec hotkey netuid None st'"
proof -
  define st2 where "st2 = (let st1 = st\<lparr>rs_status := stage @ ''_failed'', rs_page_deferred := rs_page_deferred st + 1\<rparr> in
      case (f, attempt) of
        (Invalid errors, Some a) \<Rightarrow> if stage = ''validating_claim''
           then st1\<lparr>rs_last_validation := Some (length errors, receipt_validation_fields errors),
                    rs_failure_context := Some (receipt_failure_context e a)\<rparr> else st1
      | _ \<Rightarrow> st1)"
  have "rs_events st2 = rs_events st" "rs_conflict_counts st2 = rs_conflict_counts st"
    by (simp_all add: st2_def Let_def split: failure.split option.split)
  then have i: "relay_inv sha256 codec hotkey netuid (uncounted (Raised f attempt claim)) st2"
    using assms(1) by (simp add: relay_inv_frame [of st2 st])
  have "(\<exists>c r. f = Conflict c \<and> claim = Some r \<and> drop_conflict env r st2 = (st', stage', cancelled)) \<or> st' = st2"
    using assms(3) by (auto simp: defer_receipt_def Let_def st2_def split: failure.splits option.splits if_splits)
  then show ?thesis
    using i assms(2) drop_conflict_inv relay_inv_weaken by (fastforce simp: opt_all_def)
qed

lemma run_envelopes_inv:
  assumes "relay_inv sha256 codec hotkey netuid None st"
    "run_envelopes sha256 codec hotkey netuid env es stage deferred st = (st', stage', deferred', cancelled)"
  shows "relay_inv sha256 codec hotkey netuid None st'"
  using assms
proof (induction sha256 codec hotkey netuid env es stage deferred st rule: run_envelopes.induct)
  case (3 sha256 codec hotkey netuid env e es stage deferred st)
  show ?case
  proof (cases "rw_acknowledged e")
    case True
    with 3 show ?thesis by simp
  next
    case False
    obtain st1 stage1 out where r: "(case rw_attempts e of
         None \<Rightarrow> (st, ''validating_claim'', Raised OtherFailure None None)
       | Some as \<Rightarrow> run_attempts sha256 codec hotkey netuid env as ''validating_claim'' st) = (st1, stage1, out)"
      by (metis prod_cases3)
    have i: "relay_inv sha256 codec hotkey netuid (uncounted out) st1 \<and> opt_all (own_claim sha256 codec hotkey netuid) (uncounted out)"
      using r 3(4) run_attempts_inv by (fastforce simp: opt_all_def split: option.splits)
    show ?thesis
    proof (cases out)
      case Finished
      with 3 False r i show ?thesis by simp
    next
      case (Raised f attempt claim)
      obtain st2 stage2 c where d: "defer_receipt env e stage1 f attempt claim st1 = (st2, stage2, c)" by (metis prod_cases3)
      have "relay_inv sha256 codec hotkey netuid None st2" using defer_receipt_inv [OF _ _ d] i Raised by blast
      with 3 False r d Raised show ?thesis by (cases c) auto
    next
      case Cancelled
      with 3(5) False r i show ?thesis by simp
    qed
  qed
qed auto

lemma recover_sweep_inv:
  assumes "relay_inv sha256 codec hotkey netuid None st0"
  shows "relay_inv sha256 codec hotkey netuid None (recover_sweep sha256 codec hotkey netuid env st0)"
proof -
  let ?st = "st0\<lparr>rs_last_validation := None, rs_failure_context := None, rs_status := ''reading_pylon'', rs_page_receipts := 0,
      rs_page_finalized := 0, rs_page_forwarded := 0, rs_page_deferred := 0\<rparr>"
  have i: "relay_inv sha256 codec hotkey netuid None st" if "rs_events st = rs_events st0" "rs_conflict_counts st = rs_conflict_counts st0" for st
    using that assms relay_inv_frame by blast
  show ?thesis
  proof (cases "rl_supported env \<and> (\<exists>receipts n. rl_page env (rs_cursor st0) = Page receipts n)")
    case True
    then obtain receipts n where p: "rl_supported env" "rl_page env (rs_cursor st0) = Page receipts n" by blast
    obtain st1 stage deferred c where r: "run_envelopes sha256 codec hotkey netuid env receipts ''reading_pylon'' None
        (?st\<lparr>rs_page_receipts := length receipts\<rparr>) = (st1, stage, deferred, c)" by (metis prod_cases4)
    have "relay_inv sha256 codec hotkey netuid None st1" by (rule run_envelopes_inv [OF i r]) simp_all
    moreover have "rs_events (recover_sweep sha256 codec hotkey netuid env st0) = rs_events st1 \<and>
        rs_conflict_counts (recover_sweep sha256 codec hotkey netuid env st0) = rs_conflict_counts st1"
      using p r by (simp add: recover_sweep_def Let_def split: next_cursor.split)
    ultimately show ?thesis using relay_inv_frame by blast
  next
    case False
    then have "rs_events (recover_sweep sha256 codec hotkey netuid env st0) = rs_events st0 \<and>
        rs_conflict_counts (recover_sweep sha256 codec hotkey netuid env st0) = rs_conflict_counts st0"
      by (auto simp: recover_sweep_def Let_def split: page_read.split)
    then show ?thesis using i by blast
  qed
qed

subsection \<open>Runs\<close>

inductive relay_run :: "hash_fun \<Rightarrow> receipt_codec \<Rightarrow> string \<Rightarrow> int \<Rightarrow> relay_state \<Rightarrow> bool" for sha256 codec hotkey netuid where
  begin_run: "relay_run sha256 codec hotkey netuid initial_relay"
| sweep: "relay_run sha256 codec hotkey netuid st \<Longrightarrow> relay_run sha256 codec hotkey netuid (recover sha256 codec hotkey netuid locked env st)"

lemma relay_run_inv: "relay_run sha256 codec hotkey netuid st \<Longrightarrow> relay_inv sha256 codec hotkey netuid None st"
proof (induction rule: relay_run.induct)
  case begin_run
  show ?case by (simp add: relay_inv_def initial_relay_def tallied_def drops_def conflict_count_def)
next
  case (sweep st locked env)
  then show ?case using recover_sweep_inv by (simp add: recover_def)
qed

text \<open>C7: No receipt is lost. Along every run of the relay, whatever the platform and the transport answer,
  only validated receipts of this validator are forwarded, a receipt is acknowledged to the
  transport only after the platform confirmed that it stored exactly this receipt, and each time a receipt
  is dropped it has cost five conflicts of the platform.\<close>

theorem receipts_not_lost:
  assumes "relay_run sha256 codec hotkey netuid st"
  shows "list_all (\<lambda>e. own_claim sha256 codec hotkey netuid (event_claim e)) (rs_events st)
    \<and> list_all (\<lambda>e. case e of
          Acknowledged r _ \<Rightarrow> list_ex (\<lambda>e'. case e' of Reported r' reply \<Rightarrow> r' = r \<and> exact_ack sha256 codec r reply | _ \<Rightarrow> False)
            (rs_events st)
        | _ \<Rightarrow> True) (rs_events st)
    \<and> 5 * drops key (rs_events st) \<le> conflicts key (rs_events st)"
proof -
  have i: "relay_inv sha256 codec hotkey netuid None st" using assms by (rule relay_run_inv)
  then have "tallied None st" by (simp add: relay_inv_def)
  from talliedD [OF this, of key] have "5 * drops key (rs_events st) \<le> conflicts key (rs_events st)" by simp
  with i show ?thesis unfolding relay_inv_def list_all_iff list_ex_iff by (fastforce split: relay_event.split)
qed

text \<open>Two consequences of how the count is kept. A failure of another kind between two conflicts does not
  reset it, so the five conflicts need not be consecutive; and the count is cleared before the
  acknowledgement that drops the receipt, so when that call fails the receipt is offered five more times.\<close>

lemma other_failures_keep_count:
  assumes "defer_receipt env e stage f attempt claim st = (st', stage', cancelled)" "\<And>c. f \<noteq> Conflict c"
  shows "conflict_count st' = conflict_count st"
  using assms by (auto simp: defer_receipt_def Let_def conflict_count_def fun_eq_iff split: failure.splits option.splits if_splits)

lemma failed_drop_restarts_count:
  assumes "drop_conflict env r st = (st', stage', cancelled)" "conflict_count st (receipt_key r) = 4"
    "rl_ack env (length (rs_events st)) r = AckRaised"
  shows "conflict_count st' (receipt_key r) = 0"
proof -
  have "dict_get (rs_conflict_counts st) (receipt_key r) = Some 4"
    using assms(2) by (auto simp: conflict_count_def split: option.splits)
  with assms(1,3) show ?thesis
    by (auto simp: drop_conflict_def Let_def RECEIPT_CONFLICT_DROP_THRESHOLD_def conflict_count_def delete_conv')
qed

subsection \<open>One bad receipt does not hold up the others\<close>

text \<open>The claim an unacknowledged envelope of the page offers first.\<close>

definition pending_claim :: "hash_fun \<Rightarrow> receipt_codec \<Rightarrow> string \<Rightarrow> int \<Rightarrow> raw_envelope \<Rightarrow> weight_receipt option" where
  "pending_claim sha256 codec hotkey netuid e = (if rw_acknowledged e then None else case rw_attempts e of
     None \<Rightarrow> None
   | Some as \<Rightarrow> (case dropWhile (\<lambda>x. case x of Some a \<Rightarrow> ra_status a \<noteq> ''finalized'' | None \<Rightarrow> False) as of
       Some a # _ \<Rightarrow> (case claim_of sha256 codec a of
           Inr r \<Rightarrow> if rc_validator_hotkey r = hotkey \<and> rc_netuid r = netuid then Some r else None
         | Inl _ \<Rightarrow> None)
     | _ \<Rightarrow> None))"

definition answers_in_time :: "relay_env \<Rightarrow> bool" where
  "answers_in_time env \<longleftrightarrow> (\<forall>n r. rl_report env n r \<noteq> ReportTimeout \<and> rl_ack env n r \<noteq> AckTimeout)"

definition reported :: "weight_receipt \<Rightarrow> relay_state \<Rightarrow> bool" where
  "reported r st \<longleftrightarrow> list_ex (\<lambda>e. case e of Reported r' _ \<Rightarrow> r' = r | _ \<Rightarrow> False) (rs_events st)"

text \<open>Reports stay reported, and without a timeout no step is cancelled.\<close>

lemma reported_record [simp]: "reported r (record_event e st) \<longleftrightarrow> reported r st \<or> (\<exists>reply. e = Reported r reply)"
  by (auto simp: reported_def split: relay_event.splits)

lemma reported_cong: "rs_events st' = rs_events st \<Longrightarrow> reported r st' = reported r st"
  by (simp add: reported_def)

lemma forward_claim_reports:
  assumes "forward_claim sha256 codec env a r st = (st', stage, out)"
  shows "reported r st'" and "reported q st \<Longrightarrow> reported q st'" and "answers_in_time env \<Longrightarrow> out \<noteq> Cancelled"
  using assms
  by (auto simp: forward_claim_def Let_def answers_in_time_def reported_def record_event_def split: report_reply.splits ack_reply.splits if_splits)

lemma run_attempts_reports:
  assumes "run_attempts sha256 codec hotkey netuid env as stage st = (st', stage', out)"
  shows "(reported q st \<longrightarrow> reported q st') \<and> (answers_in_time env \<longrightarrow> out \<noteq> Cancelled)"
  using assms
proof (induction sha256 codec hotkey netuid env as stage st rule: run_attempts.induct)
  case (3 sha256 codec hotkey netuid env a as stage st)
  let ?st = "st\<lparr>rs_status := ''validating_claim'', rs_page_finalized := rs_page_finalized st + 1\<rparr>"
  have c: "reported q ?st = reported q st" by (simp add: reported_def)
  show ?case
  proof (cases "ra_status a = ''finalized'' \<and> (\<exists>r. claim_of sha256 codec a = Inr r \<and> rc_validator_hotkey r = hotkey \<and> rc_netuid r = netuid)")
    case True
    then obtain r where r: "claim_of sha256 codec a = Inr r" "rc_validator_hotkey r = hotkey" "rc_netuid r = netuid" by blast
    obtain st2 stage2 out2 where f: "forward_claim sha256 codec env a r ?st = (st2, stage2, out2)" by (metis prod_cases3)
    note g = forward_claim_reports(2,3) [OF f]
    show ?thesis
    proof (cases out2)
      case Finished
      with 3 True r f g c show ?thesis by simp
    qed (use 3(3) True r f g c in auto)
  next
    case False
    show ?thesis
    proof (cases "ra_status a = ''finalized''")
      case True
      with 3(3) False c show ?thesis by (auto simp: Let_def split: if_splits sum.splits)
    qed (use 3 in simp)
  qed
qed auto

lemma pending_attempts: "pending_claim sha256 codec hotkey netuid e = Some r \<Longrightarrow> \<exists>as. rw_attempts e = Some as"
  by (auto simp: pending_claim_def split: if_splits option.splits)

lemma run_attempts_pending:
  assumes "run_attempts sha256 codec hotkey netuid env as stage st = (st', stage', out)" "rw_attempts e = Some as"
    "pending_claim sha256 codec hotkey netuid e = Some r"
  shows "reported r st'"
proof -
  let ?skip = "\<lambda>x. case x of Some a \<Rightarrow> ra_status a \<noteq> ''finalized'' | None \<Rightarrow> False"
  obtain a rest where d: "dropWhile ?skip as = Some a # rest" "claim_of sha256 codec a = Inr r"
      "rc_validator_hotkey r = hotkey" "rc_netuid r = netuid"
    using assms(2,3) by (auto simp: pending_claim_def split: if_splits option.splits list.splits sum.splits)
  then have fin: "ra_status a = ''finalized''" using hd_dropWhile [of ?skip as] by simp
  have "run_attempts sha256 codec hotkey netuid env as stage st = run_attempts sha256 codec hotkey netuid env (dropWhile ?skip as) stage st"
    by (induction as) (auto split: option.split)
  then have r: "run_attempts sha256 codec hotkey netuid env (Some a # rest) stage st = (st', stage', out)" using assms(1) d(1) by simp
  let ?st = "st\<lparr>rs_status := ''validating_claim'', rs_page_finalized := rs_page_finalized st + 1\<rparr>"
  obtain st2 stage2 out2 where f: "forward_claim sha256 codec env a r ?st = (st2, stage2, out2)" by (metis prod_cases3)
  have "reported r st2" by (rule forward_claim_reports(1) [OF f])
  moreover have "st' = st2 \<or> run_attempts sha256 codec hotkey netuid env rest stage2 st2 = (st', stage', out)"
    using r d fin f by (auto simp: Let_def split: outcome.splits)
  ultimately show ?thesis using run_attempts_reports by blast
qed

lemma defer_receipt_reports:
  assumes "defer_receipt env e stage f attempt claim st = (st', stage', cancelled)"
  shows "reported q st \<Longrightarrow> reported q st'" and "answers_in_time env \<Longrightarrow> \<not> cancelled"
  using assms
  by (auto simp: defer_receipt_def drop_conflict_def Let_def reported_def record_event_def answers_in_time_def
      split: failure.splits option.splits if_splits ack_reply.splits)

lemma run_envelopes_reports:
  assumes "run_envelopes sha256 codec hotkey netuid env es stage deferred st = (st', stage', deferred', cancelled)" "answers_in_time env"
  shows "\<not> cancelled \<and> (reported q st \<longrightarrow> reported q st')
    \<and> ((\<exists>e. Some e \<in> set es \<and> pending_claim sha256 codec hotkey netuid e = Some q) \<longrightarrow> reported q st')"
  using assms
proof (induction sha256 codec hotkey netuid env es stage deferred st rule: run_envelopes.induct)
  case (3 sha256 codec hotkey netuid env e es stage deferred st)
  show ?case
  proof (cases "rw_acknowledged e")
    case True
    with 3 show ?thesis by (auto simp: pending_claim_def)
  next
    case False
    obtain st1 stage1 out where r: "(case rw_attempts e of
         None \<Rightarrow> (st, ''validating_claim'', Raised OtherFailure None None)
       | Some as \<Rightarrow> run_attempts sha256 codec hotkey netuid env as ''validating_claim'' st) = (st1, stage1, out)"
      by (metis prod_cases3)
    have i: "reported q st \<Longrightarrow> reported q st1" "out \<noteq> Cancelled"
      using r 3(5) run_attempts_reports by (auto split: option.splits)
    have h: "pending_claim sha256 codec hotkey netuid e = Some q \<Longrightarrow> reported q st1"
      using r pending_attempts [of sha256 codec hotkey netuid e] run_attempts_pending by fastforce
    show ?thesis
    proof (cases out)
      case Finished
      with 3 False r i h show ?thesis by auto
    next
      case (Raised f attempt claim)
      obtain st2 stage2 c where d: "defer_receipt env e stage1 f attempt claim st1 = (st2, stage2, c)" by (metis prod_cases3)
      note g = defer_receipt_reports [OF d]
      have nc: "\<not> c" using g(2) 3(5) .
      from 3 False r d nc Raised have "\<not> cancelled \<and> (reported q st2 \<longrightarrow> reported q st')
          \<and> ((\<exists>e. Some e \<in> set es \<and> pending_claim sha256 codec hotkey netuid e = Some q) \<longrightarrow> reported q st')" by simp
      with g(1) i h show ?thesis by auto
    qed (use i in simp)
  qed
qed auto

text \<open>C8: One bad receipt does not hold up the others. In a sweep whose page was read and whose calls are
  answered in time, every envelope that offers a valid claim of this validator has it forwarded to
  the platform in that sweep, whatever happened to the envelopes before it: malformed attempts,
  invalid receipts, refusals, failed acknowledgements.\<close>

theorem sweep_reaches_every_claim:
  assumes "rl_supported env" and "rl_page env (rs_cursor st) = Page receipts next" and "answers_in_time env"
    and "Some e \<in> set receipts" and "pending_claim sha256 codec hotkey netuid e = Some r"
  shows "reported r (recover_sweep sha256 codec hotkey netuid env st)"
proof -
  let ?st = "st\<lparr>rs_last_validation := None, rs_failure_context := None, rs_status := ''reading_pylon'', rs_page_receipts := 0,
      rs_page_finalized := 0, rs_page_forwarded := 0, rs_page_deferred := 0\<rparr>"
  obtain st1 stage deferred c where run: "run_envelopes sha256 codec hotkey netuid env receipts ''reading_pylon'' None
      (?st\<lparr>rs_page_receipts := length receipts\<rparr>) = (st1, stage, deferred, c)" by (metis prod_cases4)
  have "reported r st1" using run_envelopes_reports [OF run assms(3)] assms(4,5) by blast
  moreover have "rs_events (recover_sweep sha256 codec hotkey netuid env st) = rs_events st1"
    using assms(1,2) run by (simp add: recover_sweep_def Let_def split: next_cursor.split)
  ultimately show ?thesis using reported_cong by blast
qed

subsection \<open>A concrete run\<close>

definition example_codec :: receipt_codec where
  "example_codec = \<lparr>cd_vector = (\<lambda>_. []), cd_body = (\<lambda>_. []), cd_receipt = (\<lambda>_. []), cd_blake2b = example_hash,
     cd_uuid5 = (\<lambda>s. length s)\<rparr>"

definition zero_digest :: string where "zero_digest = replicate 64 (CHR ''0'')"

definition example_attempt :: weight_attempt where
  "example_attempt = \<lparr>at_attempt_id = 7, at_normalized_weights = [(3, 65535)], at_ciphertext_hash = zero_digest,
     at_ciphertext_hex = ''ab'', at_reveal_round = 1, at_version_key = 0, at_commit_block = 100,
     at_commit_block_hash = ''0x'' @ zero_digest, at_extrinsic_hash = ''0x'' @ zero_digest, at_extrinsic_index = 0\<rparr>"

definition example_receipt :: weight_receipt where
  "example_receipt = \<lparr>rc_body = \<lparr>rb_schema_version = 1, rb_mechanism_id = 0, rb_weights = [(''alice'', Fin 1)],
       rb_provenance = \<lparr>wp_ledger_snapshot_id = 1, wp_epoch_index = 4, wp_ledger_digest = zero_digest, wp_champion_agent_id = Some 9,
         wp_champion_artifact_sha256 = Some zero_digest, wp_bench_version = 13, wp_vector_digest = zero_digest\<rparr>,
       rb_treasury_pin = None\<rparr>,
     rc_request_id = 5, rc_request_digest = zero_digest, rc_task_id = 1, rc_netuid = 118, rc_validator_hotkey = ''val'',
     rc_attempt = example_attempt\<rparr>"

definition example_page :: "raw_envelope option list" where
  "example_page = [Some \<lparr>rw_acknowledged = False, rw_schema_version = NInt 1, rw_task_id = NInt 1, rw_epoch_index = NInt 4,
       rw_attempts = Some [Some \<lparr>ra_status = ''finalized'', ra_commit_block = NInt 100, ra_attempt_id = None,
         ra_parsed = Some example_receipt, ra_errors = []\<rparr>]\<rparr>]"

definition example_relay_env :: "report_reply \<Rightarrow> relay_env" where
  "example_relay_env reply = \<lparr>rl_supported = True, rl_page = (\<lambda>_. Page example_page CursorNone), rl_report = (\<lambda>_ _. reply),
     rl_ack = (\<lambda>_ _. AckOk)\<rparr>"

lemma example_receipt_valid: "check_receipt example_hash example_codec example_receipt = Inr ()"
proof -
  have d: "is_digest zero_digest" "is_hash (''0x'' @ zero_digest)" by code_simp+
  have h: "hex_of (example_hash m) = zero_digest" for m
    by (simp add: example_hash_def) code_simp
  have "check_attempt example_codec example_attempt = Inr ()"
    using d h by (simp add: check_attempt_def example_attempt_def example_codec_def is_u16_def is_hex_def and_then_Inr)
  moreover have "wire_weights [(''alice'', Fin 1)]" by code_simp
  ultimately show ?thesis
    using d h by (simp add: check_receipt_def validate_digests_def check_provenance_def example_receipt_def example_codec_def
        weight_vector_digest_def weight_request_digest_def opt_all_def is_u16_def)
qed

lemma example_pending:
  "pending_claim example_hash example_codec ''val'' 118 (the (hd example_page)) = Some example_receipt"
  using example_receipt_valid
  by (simp add: pending_claim_def example_page_def claim_of_def) (simp add: example_receipt_def)

theorem sweep_reaches_every_claim_witness:
  "reported example_receipt (recover_sweep example_hash example_codec ''val'' 118 (example_relay_env (ReportConflict ''pin'')) initial_relay)"
proof (rule sweep_reaches_every_claim)
  show "Some (the (hd example_page)) \<in> set example_page" by (simp add: example_page_def)
  show "pending_claim example_hash example_codec ''val'' 118 (the (hd example_page)) = Some example_receipt" by (rule example_pending)
qed (simp_all add: example_relay_env_def answers_in_time_def)

definition example_run :: relay_state where
  "example_run = recover example_hash example_codec ''val'' 118 False (example_relay_env (Stored 5 7 zero_digest True)) initial_relay"

theorem receipts_not_lost_witness:
  "list_all (\<lambda>e. own_claim example_hash example_codec ''val'' 118 (event_claim e)) (rs_events example_run)
   \<and> 5 * drops (5, 7) (rs_events example_run) \<le> conflicts (5, 7) (rs_events example_run)"
proof -
  have "relay_run example_hash example_codec ''val'' 118 example_run"
    unfolding example_run_def by (intro relay_run.sweep relay_run.begin_run)
  from receipts_not_lost [OF this, of "(5, 7)"] show ?thesis by blast
qed

end
