(* ===== verification/Epoch.thy ===== *)
theory Epoch
  imports Tracks Relay
begin

section \<open>One weight epoch of the validator\<close>

text \<open>
  Models \<^verbatim>\<open>ValidatorWorker._update_weights\<close> of \<^verbatim>\<open>ditto/validator/worker.py\<close> and what it calls: reading
  the consensus markers of the served ledger, the treasury gate, the stale bound, the filters
  before the fold, the track folds and their blend, the burn destination, the cap or the treasury
  fold, the permit and stake checks, and the submission through the receipt relay of
  \<^verbatim>\<open>weight_receipts.py\<close> or with retries. What the epoch reads from the platform, the chain and the
  transports is the record \<open>epoch_reads\<close>, one field per read, with \<open>None\<close> for a read that failed or is
  not supported; the handler returns its outcome, the worker's new state and the requests it sent.
\<close>

subsection \<open>The served ledger\<close>

datatype treasury_pin = ShadowPin ledger_pin | EnforcePin enforcing_pin

text \<open>The markers of a crown gate as the code finds them; a missing field is \<open>NOther\<close>.\<close>

record served_crown_gate =
  sg_min_dethrone_confirmations :: py_num
  sg_champion_standing_rank :: py_num
  sg_duel_window_pairs :: py_num

record ledger_response =
  lr_treasury_pin :: "treasury_pin option"
  lr_entries :: "ledger_entry list"
  lr_active_bench_version :: "int option"
  lr_v9_confirmation_mode :: "string option"
  lr_tie_weighting_mode :: "string option"
  lr_dethrone_band_mode :: "string option"
  lr_statistical_band_mode :: "string option"
  lr_crown_mode :: "string option"
  lr_crown_incumbent_agent_id :: "nat option"
  lr_provisional_incumbent :: "ledger_entry option"
  lr_crown_gate :: "served_crown_gate option"
  lr_rank_shares :: "pyfloat list option"
  lr_track_shares_bps :: "(py_key \<times> py_num) list option"
  lr_burn_share :: py_num
  lr_stale :: bool
  lr_age_seconds :: py_num
  lr_epoch_index :: "int option"
  lr_pinned_block :: "int option"
  lr_ledger_snapshot_id :: "nat option"
  lr_ledger_digest :: "string option"

definition ledger_ceiling_band_clamp :: "ledger_response \<Rightarrow> bool" where
  "ledger_ceiling_band_clamp ledger \<longleftrightarrow> lr_dethrone_band_mode ledger = Some ''headroom_capped''"

definition ledger_statistical_band_cap :: "ledger_response \<Rightarrow> bool" where
  "ledger_statistical_band_cap ledger \<longleftrightarrow> lr_statistical_band_mode ledger = Some ''capped''"

definition ledger_crown_gate :: "ledger_response \<Rightarrow> crown_gate option" where
  "ledger_crown_gate ledger = (case lr_crown_gate ledger of
     None \<Rightarrow> None
   | Some served \<Rightarrow>
      (case (sg_min_dethrone_confirmations served, sg_champion_standing_rank served) of
         (NInt min_seeds, NInt standing) \<Rightarrow>
           if \<not> (2 \<le> min_seeds \<and> min_seeds \<le> int TOP5_MAX_CONFIRMATION_SEEDS) \<or> \<not> (1 \<le> standing \<and> standing \<le> 5) then None
           else Some \<lparr>min_shared_seeds = min_seeds, standing_rank = standing,
             duel_window = (case sg_duel_window_pairs served of
                NInt window \<Rightarrow> if 2 \<le> window \<and> window \<le> int TOP5_MAX_CONFIRMATION_SEEDS then Some window else None
              | _ \<Rightarrow> None)\<rparr>
       | _ \<Rightarrow> None))"

definition ledger_rank_shares :: "ledger_response \<Rightarrow> pyfloat list \<Rightarrow> pyfloat list" where
  "ledger_rank_shares ledger legacy = (case lr_rank_shares ledger of
     None \<Rightarrow> legacy
   | Some shares \<Rightarrow>
       if shares = [] \<or> length shares \<noteq> length legacy
         \<or> list_ex (\<lambda>s. \<not> isfinite s \<or> fle s (Fin 0)) shares
         \<or> (let t = py_sum shares in
            \<not> (feq t (Fin 1) \<or> (isfinite t \<and> fle (fabs (fsub (Fin 1) t)) (rnd64 (1 / 10 ^ 12)))))
       then legacy else shares)"

definition ledger_crown_incumbent :: "ledger_response \<Rightarrow> nat option" where
  "ledger_crown_incumbent ledger =
     (if lr_crown_mode ledger \<noteq> Some ''incumbent'' then None else lr_crown_incumbent_agent_id ledger)"

definition ledger_provisional_incumbent :: "ledger_response \<Rightarrow> ledger_entry option" where
  "ledger_provisional_incumbent ledger = (case (lr_provisional_incumbent ledger, ledger_crown_incumbent ledger) of
     (Some provisional, Some incumbent) \<Rightarrow>
       if agent_id provisional \<noteq> incumbent \<or> list_ex (\<lambda>e. agent_id e = incumbent) (lr_entries ledger) then None
       else Some provisional
   | _ \<Rightarrow> None)"

definition receipt_provenance_ready :: "ledger_response \<Rightarrow> bool" where
  "receipt_provenance_ready ledger \<longleftrightarrow> lr_ledger_snapshot_id ledger \<noteq> None \<and> lr_epoch_index ledger \<noteq> None
     \<and> (case lr_ledger_digest ledger of None \<Rightarrow> False | Some d \<Rightarrow> length d = 64)"

definition ledger_weight_entries :: "ledger_response \<Rightarrow> ledger_entry list" where
  "ledger_weight_entries ledger =
     filter_weight_confirmed
       (lr_entries ledger @ (case ledger_provisional_incumbent ledger of None \<Rightarrow> [] | Some p \<Rightarrow> [p]))
       (lr_v9_confirmation_mode ledger = Some ''enforce'')"

definition MAX_STALE_LEDGER_AGE_SECONDS :: int where "MAX_STALE_LEDGER_AGE_SECONDS = 6 * 60 * 60"

definition ledger_age :: "ledger_response \<Rightarrow> int" where
  "ledger_age ledger = (case lr_age_seconds ledger of NInt age \<Rightarrow> if age < 0 then 0 else age | _ \<Rightarrow> 0)"

subsection \<open>Configuration, reads and state\<close>

record validator_config =
  vc_netuid :: int
  vc_validator_hotkey :: string
  vc_protocol_version :: int
  vc_burn_hotkey :: "string option"
  vc_koth_margin :: pyfloat
  vc_koth_tail_size :: int
  vc_koth_rank_shares :: "pyfloat list"
  vc_koth_dethrone_z :: pyfloat
  vc_miner_emission_share :: pyfloat
  vc_track_shares_bps :: "(string, int) dict"
  vc_router_track_state :: track_state
  vc_router_weight_eligible :: bool
  vc_router_rank_shares :: "pyfloat list"
  vc_generator_track_state :: track_state
  vc_generator_weight_eligible :: bool
  vc_generator_rank_shares :: "pyfloat list"
  vc_min_stake_tao :: pyfloat

record dispatch_observation =
  do_identity :: collector_identity
  do_epoch_index :: int
  do_first_block :: int
  do_finalized_block :: int
  do_finalized_block_hash :: string

text \<open>The metagraph read: it failed, it is a test double that does not support awaiting, or it
  returned the hotkeys of the registered neurons.\<close>

datatype neuron_read = NeuronsFailed | NeuronsUnsupported | Neurons "string list"

text \<open>The answer to a receipt request, and to one attempt to set weights directly.\<close>

datatype pylon_reply = PylonUnsupported | PylonAck nat string | PylonMalformed | PylonRaised
datatype put_result = PutAccepted | PutRejected string

record epoch_reads =
  rd_ledger :: "ledger_response option"
  rd_approval :: "py_error + policy_approval option"
  rd_raw_capability :: "weight_capability option"
  rd_observation :: "dispatch_observation option"
  rd_neurons :: neuron_read
  rd_router_ledger :: "router_entry list"
  rd_generator_ledger :: "generator_entry list option"
  rd_owner_hotkey :: "string option"
  rd_permit :: "bool option"
  rd_stake :: "pyfloat option"
  rd_last_epoch_block :: "int option"
  rd_champion_sha256 :: string
  rd_transport :: bool
  rd_reply :: "nat \<times> request_body \<Rightarrow> pylon_reply"
  rd_relay_locked :: bool
  rd_relay :: relay_env
  rd_put :: "nat \<Rightarrow> put_result"

record weights_fold =
  wf_epoch_index :: "int option"
  wf_ledger_digest :: "string option"
  wf_vector :: weight_vector
  wf_champion_agent_id :: "nat option"

record worker_state =
  ws_registered_neurons :: "string list option"
  ws_last_burn_hotkey :: "string option"
  ws_last_weights_fold :: "weights_fold option"
  ws_submission_status :: string
  ws_relay :: relay_state

record weight_outcome =
  wo_leaderboard :: "(string \<times> pyfloat) list"
  wo_weights :: weight_vector
  wo_submitted :: bool
  wo_fold :: "weights_fold option"

datatype request = ReceiptRequest nat request_body | PutRequest weight_vector

type_synonym epoch_result = "weight_outcome \<times> worker_state \<times> request list"

definition empty_outcome :: weight_outcome where
  "empty_outcome = \<lparr>wo_leaderboard = [], wo_weights = [], wo_submitted = False, wo_fold = None\<rparr>"

subsection \<open>The treasury gate\<close>

text \<open>\<^verbatim>\<open>_treasury_weight_capability\<close>: every failure, and a capability for another policy, reads as none.\<close>

definition treasury_weight_capability :: "hash_fun \<Rightarrow> epoch_reads \<Rightarrow> weight_capability option" where
  "treasury_weight_capability sha256 reads = (case rd_approval reads of
     Inr (Some approval) \<Rightarrow> (case rd_raw_capability reads of
         None \<Rightarrow> None
       | Some c \<Rightarrow>
           if check_capability c \<noteq> Inr () then None
           else if wc_approved_policy_digest c \<noteq> policy_digest sha256 (pa_policy approval)
             \<or> wc_collector_policy_digest c \<noteq> ep_collector_policy_digest (pa_policy approval) then None
           else Some c)
   | _ \<Rightarrow> None)"

definition fleet_member_of :: "weight_capability \<Rightarrow> string \<Rightarrow> int \<Rightarrow> py_error + fleet_member" where
  "fleet_member_of c validator_hotkey protocol_version =
     (let m = \<lparr>wc_pin_version = wc_pin_version c, wc_dispatch_version = wc_dispatch_version c,
        wc_approved_policy_digest = wc_approved_policy_digest c, wc_collector_policy_digest = wc_collector_policy_digest c,
        fm_validator_hotkey = validator_hotkey, fm_protocol_version = protocol_version\<rparr>
      in and_then (check_member m) (\<lambda>_. Inr m))"

text \<open>The authority of an enforcing epoch; any exception refuses the epoch.\<close>

definition treasury_authority ::
  "hash_fun \<Rightarrow> signature_verifier \<Rightarrow> validator_config \<Rightarrow> epoch_reads \<Rightarrow> ledger_response \<Rightarrow> enforcing_pin
     \<Rightarrow> py_error + weight_authority" where
  "treasury_authority sha256 verify cfg reads ledger pin =
     and_then (require (\<not> (lr_stale ledger \<or> lr_epoch_index ledger \<noteq> Some (xp_epoch_index pin)
         \<or> lr_pinned_block ledger \<noteq> Some (xp_pinned_block pin))) ''enforcing treasury ledger is stale or inconsistent'') (\<lambda>_.
     and_then (rd_approval reads) (\<lambda>approval.
     and_then (if approval = None then and_then (verify_follower_policy_approval sha256 verify (xp_approval pin)) (\<lambda>_. Inr ())
               else Inr ()) (\<lambda>_.
     (let managed = list_ex (\<lambda>m. fm_validator_hotkey m = vc_validator_hotkey cfg) (xp_fleet pin);
          capability = (if managed then treasury_weight_capability sha256 reads else None) in
     case (if managed \<and> (approval = None \<or> capability = None) then None else rd_observation reads) of
       None \<Rightarrow> Inl (ValueError ''treasury consumer or transport proof is missing'')
     | Some observed \<Rightarrow>
        and_then (case capability of
            Some c \<Rightarrow> fleet_member_of c (vc_validator_hotkey cfg) (vc_protocol_version cfg)
          | None \<Rightarrow> treasury_follower_capability pin (vc_validator_hotkey cfg) (vc_protocol_version cfg)) (\<lambda>member.
        (let wa = \<lparr>wa_pin = pin,
              wa_expected_policy_digest = (case approval of Some a \<Rightarrow> policy_digest sha256 (pa_policy a) | None \<Rightarrow> xp_policy_digest pin),
              wa_expected_collector_policy_digest = (case approval of Some a \<Rightarrow> ep_collector_policy_digest (pa_policy a)
                | None \<Rightarrow> ep_collector_policy_digest (xp_policy pin)),
              wa_local_capability = member, wa_current_identity = do_identity observed, wa_netuid = vc_netuid cfg,
              wa_current_epoch_index = do_epoch_index observed, wa_current_first_block = do_first_block observed,
              wa_finalized_block = do_finalized_block observed, wa_finalized_block_hash = do_finalized_block_hash observed\<rparr>
         in and_then (require_treasury_weight_authority sha256 verify wa) (\<lambda>_. Inr wa)))))))"

datatype treasury_gate = GateRefused | GateOpen "weight_authority option"

definition run_treasury_gate ::
  "hash_fun \<Rightarrow> signature_verifier \<Rightarrow> validator_config \<Rightarrow> epoch_reads \<Rightarrow> ledger_response \<Rightarrow> treasury_gate" where
  "run_treasury_gate sha256 verify cfg reads ledger = (case lr_treasury_pin ledger of
     None \<Rightarrow> GateOpen None
   | Some (ShadowPin pin) \<Rightarrow> if check_ledger_pin sha256 pin = Inr () then GateOpen None else GateRefused
   | Some (EnforcePin pin) \<Rightarrow>
       if check_pin sha256 pin \<noteq> Inr () then GateRefused
       else (case treasury_authority sha256 verify cfg reads ledger pin of
               Inl _ \<Rightarrow> GateRefused | Inr wa \<Rightarrow> GateOpen (Some wa)))"

text \<open>The hotkey a row may not have: the collector of an enforcing pin.\<close>

definition not_collector :: "weight_authority option \<Rightarrow> string \<Rightarrow> bool" where
  "not_collector auth hk \<longleftrightarrow>
     (case auth of None \<Rightarrow> True | Some wa \<Rightarrow> hk \<noteq> ep_collector_hotkey (xp_policy (wa_pin wa)))"

subsection \<open>The filters before the fold\<close>

text \<open>\<^verbatim>\<open>_registered_ledger_entries\<close>: the rows kept, and the registered hotkeys when they were read;
  \<open>None\<close> leaves the weights unchanged.\<close>

definition registered_ledger_entries ::
  "neuron_read \<Rightarrow> ledger_entry list \<Rightarrow> (ledger_entry list \<times> string list option) option" where
  "registered_ledger_entries neurons es = (case neurons of
     NeuronsFailed \<Rightarrow> None
   | NeuronsUnsupported \<Rightarrow> Some (es, None)
   | Neurons hks \<Rightarrow> Some (filter (\<lambda>e. miner_hotkey e \<in> set hks) es, Some hks))"

definition resolve_burn_hotkey :: "validator_config \<Rightarrow> string list option \<Rightarrow> string option \<Rightarrow> string option" where
  "resolve_burn_hotkey cfg neurons owner = (case vc_burn_hotkey cfg of
     Some hk \<Rightarrow> Some hk
   | None \<Rightarrow> (case (neurons, owner) of
       (Some hks, Some hk) \<Rightarrow> if hk = [] \<or> length (filter (\<lambda>n. n = hk) hks) \<noteq> 1 then None else Some hk
     | _ \<Rightarrow> None))"

definition validator_permitted :: "epoch_reads \<Rightarrow> bool" where
  "validator_permitted reads \<longleftrightarrow> rd_permit reads \<noteq> Some False"

definition stake_sufficient :: "validator_config \<Rightarrow> epoch_reads \<Rightarrow> bool" where
  "stake_sufficient cfg reads \<longleftrightarrow> fle (vc_min_stake_tao cfg) (Fin 0)
     \<or> (case rd_stake reads of None \<Rightarrow> True | Some stake \<Rightarrow> \<not> flt stake (vc_min_stake_tao cfg))"

subsection \<open>The fold of all tracks\<close>

definition config_settings :: "validator_config \<Rightarrow> track_settings" where
  "config_settings cfg = \<lparr>ts_router_state = vc_router_track_state cfg, ts_router_weight_eligible = vc_router_weight_eligible cfg,
     ts_coding_state = SHADOW, ts_coding_weight_eligible = False,
     ts_generator_state = vc_generator_track_state cfg, ts_generator_weight_eligible = vc_generator_weight_eligible cfg\<rparr>"

definition epoch_registry :: "libm \<Rightarrow> validator_config \<Rightarrow> ledger_response \<Rightarrow> py_error + track_registry" where
  "epoch_registry M cfg ledger =
     build_default_registry M (resolve_track_shares (lr_track_shares_bps ledger) (vc_track_shares_bps cfg)) (config_settings cfg)"

definition epoch_params :: "validator_config \<Rightarrow> ledger_response \<Rightarrow> memory_fold_params" where
  "epoch_params cfg ledger = \<lparr>mp_margin = vc_koth_margin cfg, mp_tail_size = vc_koth_tail_size cfg,
     mp_rank_shares = ledger_rank_shares ledger (vc_koth_rank_shares cfg), mp_dethrone_z = vc_koth_dethrone_z cfg,
     mp_tie_pooling = (lr_tie_weighting_mode ledger = Some ''pool''),
     mp_ceiling_band_clamp = ledger_ceiling_band_clamp ledger, mp_statistical_band_cap = ledger_statistical_band_cap ledger,
     mp_incumbent_agent_id = ledger_crown_incumbent ledger,
     mp_unpaid_agent_id = map_option agent_id (ledger_provisional_incumbent ledger),
     mp_crown_gate = ledger_crown_gate ledger\<rparr>"

definition epoch_inputs ::
  "validator_config \<Rightarrow> epoch_reads \<Rightarrow> ledger_response \<Rightarrow> weight_authority option \<Rightarrow> ledger_entry list \<Rightarrow> string list option
     \<Rightarrow> generator_entry list \<Rightarrow> track_fold_inputs" where
  "epoch_inputs cfg reads ledger auth registered hotkeys generators = \<lparr>memory_entries = registered,
     memory_params = Some (epoch_params cfg ledger),
     router_entries = filter (\<lambda>e. not_collector auth (re_miner_hotkey e)) (rd_router_ledger reads),
     router_rank_shares = vc_router_rank_shares cfg,
     generator_entries = filter (\<lambda>e. (case hotkeys of None \<Rightarrow> True | Some hks \<Rightarrow> ge_miner_hotkey e \<in> set hks)
        \<and> not_collector auth (ge_miner_hotkey e)) generators,
     generator_rank_shares = vc_generator_rank_shares cfg\<rparr>"

definition track_vectors :: "track_registry \<Rightarrow> track_fold_inputs \<Rightarrow> py_error + (string, weight_vector) dict" where
  "track_vectors r inputs =
     and_then (collect (\<lambda>t. and_then (tr_fold t inputs) (\<lambda>v. Inr (track_id t, v))) r) (\<lambda>kvs. Inr (dict_of kvs))"

text \<open>The blended miner vector without the reserved key, the paid fraction, and the allocated share.\<close>

definition fold_tracks :: "track_registry \<Rightarrow> track_fold_inputs \<Rightarrow> py_error + (weight_vector \<times> pyfloat \<times> pyfloat)" where
  "fold_tracks r inputs = and_then (track_vectors r inputs) (\<lambda>vectors.
     (let shares = claimed_shares_bps r vectors;
          eligible = filter (\<lambda>(t, v). t \<in> set (dict_keys shares)) vectors;
          (miner_weights, paid_fraction) = split_unpaid_share (blend_track_weights eligible shares)
      in Inr (miner_weights, paid_fraction, track_allocated_share shares eligible)))"

subsection \<open>Submission\<close>

definition pin_revalidates :: "hash_fun \<Rightarrow> ledger_response \<Rightarrow> bool" where
  "pin_revalidates sha256 ledger \<longleftrightarrow> (case lr_treasury_pin ledger of
     None \<Rightarrow> True
   | Some (ShadowPin pin) \<Rightarrow> check_ledger_pin sha256 pin = Inr ()
   | Some (EnforcePin pin) \<Rightarrow> check_pin sha256 pin = Inr ())"

definition enforcing_pin_of :: "ledger_response \<Rightarrow> enforcing_pin option" where
  "enforcing_pin_of ledger = (case lr_treasury_pin ledger of Some (EnforcePin pin) \<Rightarrow> Some pin | _ \<Rightarrow> None)"

text \<open>The provenance of a vector: hashing it raises on a value that is not finite, and the model then
  validates its fields.\<close>

definition request_provenance ::
  "hash_fun \<Rightarrow> receipt_codec \<Rightarrow> epoch_reads \<Rightarrow> ledger_response \<Rightarrow> ledger_entry option \<Rightarrow> weight_vector \<Rightarrow> py_error + weight_provenance" where
  "request_provenance sha256 codec reads ledger champ weights =
     (case (lr_ledger_snapshot_id ledger, lr_epoch_index ledger, lr_ledger_digest ledger, lr_active_bench_version ledger) of
        (Some snapshot, Some epoch, Some digest, Some bench) \<Rightarrow>
          and_then (require (list_all isfinite (dict_values weights)) ''Out of range float values are not JSON compliant'') (\<lambda>_.
          (let p = \<lparr>wp_ledger_snapshot_id = snapshot, wp_epoch_index = epoch, wp_ledger_digest = digest,
                wp_champion_agent_id = map_option agent_id champ,
                wp_champion_artifact_sha256 = map_option (\<lambda>_. rd_champion_sha256 reads) champ,
                wp_bench_version = bench, wp_vector_digest = weight_vector_digest sha256 codec weights\<rparr>
           in and_then (check_provenance p) (\<lambda>_. Inr p)))
      | _ \<Rightarrow> Inl (ValueError ''provenance field''))"

definition request_body_of :: "ledger_response \<Rightarrow> weight_vector \<Rightarrow> weight_provenance \<Rightarrow> request_body" where
  "request_body_of ledger weights p = \<lparr>rb_schema_version = (if enforcing_pin_of ledger \<noteq> None then 2 else 1), rb_mechanism_id = 0,
     rb_weights = weights, rb_provenance = p, rb_treasury_pin = enforcing_pin_of ledger\<rparr>"

text \<open>The name of a request, from which its UUID is derived.\<close>

definition request_identity :: "int \<Rightarrow> string \<Rightarrow> int \<Rightarrow> string \<Rightarrow> int option \<Rightarrow> string" where
  "request_identity schema_version hotkey netuid request_digest chain_epoch_block =
     ''ditto-weight-receipt:v'' @ dec_int schema_version @ '':'' @ hotkey @ '':'' @ dec_int netuid @ '':'' @ request_digest
       @ (case chain_epoch_block of None \<Rightarrow> [] | Some b \<Rightarrow> '':chain-epoch:'' @ dec_int b)"

text \<open>The reading of the transport's reply: only an acknowledgement of the exact request is accepted,
  and anything uncertain forbids another submission.\<close>

fun relay_answer :: "bool option \<Rightarrow> nat \<Rightarrow> string \<Rightarrow> pylon_reply \<Rightarrow> bool option \<times> string" where
  "relay_answer fallback request_id request_digest PylonUnsupported = (fallback, ''unsupported'')"
| "relay_answer fallback request_id request_digest (PylonAck i d) =
     (if i = request_id \<and> d = request_digest then (Some True, ''accepted'') else (Some False, ''uncertain''))"
| "relay_answer fallback request_id request_digest PylonMalformed = (Some False, ''uncertain'')"
| "relay_answer fallback request_id request_digest PylonRaised = (Some False, ''uncertain'')"

text \<open>
  \<^verbatim>\<open>WeightReceiptRelay.submit\<close>: its answer (\<open>None\<close> permits the legacy submission), the diagnostic
  status it records and the request it sent.
\<close>

definition relay_submit ::
  "hash_fun \<Rightarrow> receipt_codec \<Rightarrow> validator_config \<Rightarrow> epoch_reads \<Rightarrow> weight_vector
     \<Rightarrow> ledger_response \<Rightarrow> ledger_entry option \<Rightarrow> int option \<Rightarrow> bool option \<times> string \<times> request list" where
  "relay_submit sha256 codec cfg reads weights ledger champ chain_epoch_block =
     (if (case chain_epoch_block of None \<Rightarrow> False | Some b \<Rightarrow> b < 0) then (Some False, ''invalid_provenance'', [])
      else if \<not> pin_revalidates sha256 ledger then (Some False, ''invalid_provenance'', [])
      else let enforcing = (enforcing_pin_of ledger \<noteq> None);
               fallback = (if enforcing then Some False else None) in
        if \<not> rd_transport reads \<or> (champ = None \<and> \<not> enforcing) \<or> lr_ledger_snapshot_id ledger = None
          \<or> lr_epoch_index ledger = None \<or> lr_ledger_digest ledger = None
        then (fallback, ''missing_provenance_or_transport'', [])
        else if (case enforcing_pin_of ledger of None \<Rightarrow> False
            | Some pin \<Rightarrow> Some (xp_epoch_index pin) \<noteq> lr_epoch_index ledger \<or> ep_netuid (xp_policy pin) \<noteq> vc_netuid cfg)
        then (fallback, ''invalid_provenance'', [])
        else case request_provenance sha256 codec reads ledger champ weights of
          Inl _ \<Rightarrow> (fallback, ''invalid_provenance'', [])
        | Inr p \<Rightarrow>
           (let body = request_body_of ledger weights p;
                request_digest = weight_request_digest sha256 codec body;
                request_id = cd_uuid5 codec (request_identity (rb_schema_version body) (vc_validator_hotkey cfg) (vc_netuid cfg)
                  request_digest chain_epoch_block)
            in case relay_answer fallback request_id request_digest (rd_reply reads (request_id, body)) of
                 (answer, status) \<Rightarrow> (answer, status, [ReceiptRequest request_id body])))"

definition WEIGHT_SET_ATTEMPTS :: nat where "WEIGHT_SET_ATTEMPTS = 3"

definition RATE_LIMIT_MARKERS :: "string list" where
  "RATE_LIMIT_MARKERS = [''rate limit'', ''ratelimit'', ''too fast'', ''toofast'']"

definition lower_char :: "char \<Rightarrow> char" where
  "lower_char c = (let n = (of_char c :: nat) in if 65 \<le> n \<and> n \<le> 90 then char_of (n + 32) else c)"

definition is_rate_limit_error :: "string \<Rightarrow> bool" where
  "is_rate_limit_error message \<longleftrightarrow> list_ex (\<lambda>marker. sublist marker (map lower_char message)) RATE_LIMIT_MARKERS"

definition retry_delay_seconds :: "nat \<Rightarrow> string \<Rightarrow> pyfloat" where
  "retry_delay_seconds attempt message =
     fmul (if is_rate_limit_error message then Fin 12 else Fin 2) (fint (2 ^ (attempt - 1)))"

text \<open>The retry loop: whether an attempt was accepted, the attempts made and the sleeps between them.\<close>

fun put_weights_loop :: "(nat \<Rightarrow> put_result) \<Rightarrow> nat list \<Rightarrow> bool \<times> nat \<times> pyfloat list" where
  "put_weights_loop put [] = (False, 0, [])"
| "put_weights_loop put (attempt # rest) = (case put attempt of
     PutAccepted \<Rightarrow> (True, 1, [])
   | PutRejected message \<Rightarrow>
       if attempt \<ge> WEIGHT_SET_ATTEMPTS then (False, 1, [])
       else (case put_weights_loop put rest of
               (ok, n, delays) \<Rightarrow> (ok, Suc n, retry_delay_seconds attempt message # delays)))"

definition put_weights_with_retry :: "(nat \<Rightarrow> put_result) \<Rightarrow> bool \<times> nat \<times> pyfloat list" where
  "put_weights_with_retry put = put_weights_loop put [1..<WEIGHT_SET_ATTEMPTS + 1]"

text \<open>The end of the handler: relay first, the legacy retries only when the relay allows them.\<close>

definition submit_weights ::
  "hash_fun \<Rightarrow> receipt_codec \<Rightarrow> validator_config \<Rightarrow> epoch_reads \<Rightarrow> ledger_response
     \<Rightarrow> ledger_entry option \<Rightarrow> int option \<Rightarrow> (string \<times> pyfloat) list \<Rightarrow> weight_vector \<Rightarrow> worker_state \<Rightarrow> epoch_result" where
  "submit_weights sha256 codec cfg reads ledger champ chain_epoch_block leaderboard weights st =
     (let (answer, status, sent) = relay_submit sha256 codec cfg reads weights ledger champ chain_epoch_block;
          (ok, tries, delays) = put_weights_with_retry (rd_put reads);
          (submitted, puts) = (case answer of
              Some b \<Rightarrow> (b, [])
            | None \<Rightarrow> if enforcing_pin_of ledger \<noteq> None then (False, []) else (ok, replicate tries (PutRequest weights)));
          wfold = \<lparr>wf_epoch_index = lr_epoch_index ledger, wf_ledger_digest = lr_ledger_digest ledger, wf_vector = weights,
            wf_champion_agent_id = map_option agent_id champ\<rparr>
      in (\<lparr>wo_leaderboard = leaderboard, wo_weights = weights, wo_submitted = submitted, wo_fold = Some wfold\<rparr>,
          (if submitted then st\<lparr>ws_last_weights_fold := Some wfold\<rparr> else st)\<lparr>ws_submission_status := status\<rparr>,
          sent @ puts))"

subsection \<open>The handler\<close>

text \<open>An epoch that leaves the weights of the chain as they are.\<close>

definition unchanged :: "(string \<times> pyfloat) list \<Rightarrow> weight_vector \<Rightarrow> worker_state \<Rightarrow> py_error + epoch_result" where
  "unchanged leaderboard weights st =
     Inr (\<lparr>wo_leaderboard = leaderboard, wo_weights = weights, wo_submitted = False, wo_fold = None\<rparr>, st, [])"

definition leaderboard_of :: "ledger_response \<Rightarrow> (string \<times> pyfloat) list" where
  "leaderboard_of ledger = map (\<lambda>e. (miner_hotkey e, composite e)) (lr_entries ledger)"

text \<open>The vector of an epoch: the treasury fold under an enforcing pin, else the emission cap.\<close>

definition final_vector ::
  "hash_fun \<Rightarrow> signature_verifier \<Rightarrow> weight_authority option \<Rightarrow> weight_vector \<Rightarrow> pyfloat \<Rightarrow> pyfloat \<Rightarrow> pyfloat \<Rightarrow> string
     \<Rightarrow> py_error + weight_vector" where
  "final_vector sha256 verify auth miner_weights miner_share allocated paid_fraction burn_hotkey = (case auth of
     Some wa \<Rightarrow> fold_treasury_weights sha256 verify miner_weights wa (fsub (Fin 1) miner_share)
                  (fmul allocated paid_fraction) burn_hotkey
   | None \<Rightarrow> apply_miner_emission_cap miner_weights (fmul (fmul miner_share allocated) paid_fraction) burn_hotkey)"

definition after_recovery :: "hash_fun \<Rightarrow> receipt_codec \<Rightarrow> validator_config \<Rightarrow> epoch_reads \<Rightarrow> worker_state \<Rightarrow> worker_state" where
  "after_recovery sha256 codec cfg reads st =
     st\<lparr>ws_relay := recover sha256 codec (vc_validator_hotkey cfg) (vc_netuid cfg) (rd_relay_locked reads) (rd_relay reads) (ws_relay st)\<rparr>"

definition dispatch_weights ::
  "libm \<Rightarrow> hash_fun \<Rightarrow> receipt_codec \<Rightarrow> validator_config \<Rightarrow> epoch_reads \<Rightarrow> ledger_response
     \<Rightarrow> ledger_entry list \<Rightarrow> weight_vector \<Rightarrow> worker_state \<Rightarrow> py_error + epoch_result" where
  "dispatch_weights M sha256 codec cfg reads ledger registered weights st =
     (let leaderboard = leaderboard_of ledger;
          champ = select_champion M (params_rules (epoch_params cfg ledger)) (ledger_crown_incumbent ledger) registered in
      if \<not> validator_permitted reads \<or> \<not> stake_sufficient cfg reads then unchanged leaderboard weights st
      else let st' = after_recovery sha256 codec cfg reads st in
        if lr_stale ledger \<and> receipt_provenance_ready ledger
        then (case rd_last_epoch_block reads of
                None \<Rightarrow> unchanged leaderboard weights st'
              | Some b \<Rightarrow> Inr (submit_weights sha256 codec cfg reads ledger champ (Some b) leaderboard weights st'))
        else Inr (submit_weights sha256 codec cfg reads ledger champ None leaderboard weights st'))"

definition pay_epoch ::
  "libm \<Rightarrow> hash_fun \<Rightarrow> signature_verifier \<Rightarrow> receipt_codec \<Rightarrow> validator_config \<Rightarrow> epoch_reads
     \<Rightarrow> ledger_response \<Rightarrow> weight_authority option \<Rightarrow> ledger_entry list \<Rightarrow> weight_vector \<Rightarrow> pyfloat \<Rightarrow> pyfloat \<Rightarrow> worker_state
     \<Rightarrow> py_error + epoch_result" where
  "pay_epoch M sha256 verify codec cfg reads ledger auth registered miner_weights paid_fraction allocated st =
     and_then (resolve_miner_emission_share (lr_burn_share ledger) (vc_miner_emission_share cfg)) (\<lambda>miner_share.
     and_then (case auth of None \<Rightarrow> Inr 0 | Some wa \<Rightarrow> pin_service_bps (wa_pin wa)) (\<lambda>service_bps.
     and_then (if vc_burn_hotkey cfg \<noteq> None then Inr True
         else owner_burn_destination_required (map (\<lambda>(hk, w). (hk, NFloat w)) miner_weights) (NFloat miner_share)
                (NFloat (fmul allocated paid_fraction)) (NInt service_bps)) (\<lambda>needed.
     case (if needed then resolve_burn_hotkey cfg (ws_registered_neurons st) (rd_owner_hotkey reads) else Some []) of
       None \<Rightarrow> unchanged (leaderboard_of ledger) [] st
     | Some burn_hotkey \<Rightarrow>
        (let st' = (if needed then st\<lparr>ws_last_burn_hotkey := Some burn_hotkey\<rparr> else st) in
         case final_vector sha256 verify auth miner_weights miner_share allocated paid_fraction burn_hotkey of
           Inr weights \<Rightarrow> dispatch_weights M sha256 codec cfg reads ledger registered weights st'
         | Inl err \<Rightarrow> if auth \<noteq> None \<and> value_error err then unchanged (leaderboard_of ledger) [] st' else Inl err))))"

definition fold_epoch ::
  "libm \<Rightarrow> hash_fun \<Rightarrow> signature_verifier \<Rightarrow> receipt_codec \<Rightarrow> validator_config \<Rightarrow> epoch_reads
     \<Rightarrow> ledger_response \<Rightarrow> weight_authority option \<Rightarrow> ledger_entry list \<Rightarrow> worker_state \<Rightarrow> py_error + epoch_result" where
  "fold_epoch M sha256 verify codec cfg reads ledger auth registered st =
     and_then (epoch_registry M cfg ledger) (\<lambda>registry.
     if rd_generator_ledger reads = None \<and> share_of (shares_bps registry) TRACK_GENERATOR > 0
     then unchanged (leaderboard_of ledger) [] st
     else and_then (fold_tracks registry (epoch_inputs cfg reads ledger auth registered (ws_registered_neurons st)
         (case rd_generator_ledger reads of None \<Rightarrow> [] | Some gs \<Rightarrow> gs))) (\<lambda>(miner_weights, paid_fraction, allocated).
       pay_epoch M sha256 verify codec cfg reads ledger auth registered miner_weights paid_fraction allocated st))"

definition update_weights ::
  "libm \<Rightarrow> hash_fun \<Rightarrow> signature_verifier \<Rightarrow> receipt_codec \<Rightarrow> validator_config \<Rightarrow> epoch_reads
     \<Rightarrow> worker_state \<Rightarrow> py_error + epoch_result" where
  "update_weights M sha256 verify codec cfg reads st = (case rd_ledger reads of
     None \<Rightarrow> unchanged [] [] st
   | Some ledger \<Rightarrow> (case run_treasury_gate sha256 verify cfg reads ledger of
       GateRefused \<Rightarrow> unchanged [] [] st
     | GateOpen auth \<Rightarrow>
        if lr_stale ledger \<and> ledger_age ledger > MAX_STALE_LEDGER_AGE_SECONDS then unchanged (leaderboard_of ledger) [] st
        else let weight_entries = filter (\<lambda>e. not_collector auth (miner_hotkey e)) (ledger_weight_entries ledger);
                 competitive = filter (\<lambda>e. not_collector auth (miner_hotkey e)) (lr_entries ledger) in
          if competitive \<noteq> [] \<and> weight_entries = [] then unchanged (leaderboard_of ledger) [] st
          else let st' = st\<lparr>ws_registered_neurons := None, ws_last_burn_hotkey := vc_burn_hotkey cfg\<rparr> in
            case registered_ledger_entries (rd_neurons reads) weight_entries of
              None \<Rightarrow> unchanged (leaderboard_of ledger) [] st'
            | Some (registered, hotkeys) \<Rightarrow>
                fold_epoch M sha256 verify codec cfg reads ledger auth registered
                  (st'\<lparr>ws_registered_neurons := hotkeys\<rparr>)))"

subsection \<open>Reading the markers\<close>

text \<open>A served payout curve that is used passes the check of the fold, so a malformed curve can never
  stop an epoch.\<close>

lemma rank_shares_usable:
  assumes "rank_shares_check tail_size legacy = None"
  shows "rank_shares_check tail_size (ledger_rank_shares ledger legacy) = None"
proof (cases "ledger_rank_shares ledger legacy = legacy")
  case False
  then obtain shares where s: "lr_rank_shares ledger = Some shares" "ledger_rank_shares ledger legacy = shares"
      "length shares = length legacy" "\<not> list_ex (\<lambda>s. \<not> isfinite s \<or> fle s (Fin 0)) shares"
      "feq (py_sum shares) (Fin 1) \<or> (isfinite (py_sum shares)
         \<and> fle (fabs (fsub (Fin 1) (py_sum shares))) (rnd64 (1 / 10 ^ 12)))"
    by (auto simp: ledger_rank_shares_def Let_def split: option.splits if_splits)
  moreover have "int (length legacy) = tail_size + 1" using rank_shares_check_None(1) [OF assms] .
  ultimately show ?thesis by (auto simp: rank_shares_check_def Let_def)
qed (use assms in simp)

lemma crown_gate_ranges:
  assumes "ledger_crown_gate ledger = Some g"
  shows "2 \<le> min_shared_seeds g" "min_shared_seeds g \<le> 15" "1 \<le> standing_rank g" "standing_rank g \<le> 5"
    and "opt_all (\<lambda>w. 2 \<le> w \<and> w \<le> 15) (duel_window g)"
  using assms by (auto simp: ledger_crown_gate_def TOP5_MAX_CONFIRMATION_SEEDS_def opt_all_def
      split: option.splits py_num.splits if_splits)

end
