(* ===== verification/Epoch_Safety.thy ===== *)
theory Epoch_Safety
  imports Epoch Relay_Safety
begin

section \<open>What a weight epoch may send\<close>

text \<open>
  Properties of the handler of \<open>Epoch\<close>: an epoch sends a vector only when everything it depends on was
  determined, it sends one vector, an enforcing epoch never uses the legacy transport, the accounts a
  sent vector pays, the memory-only regression of the track pipeline, and the bounds of the retry
  loop.
\<close>

fun request_vector :: "request \<Rightarrow> weight_vector" where
  "request_vector (ReceiptRequest i body) = rb_weights body"
| "request_vector (PutRequest v) = v"

fun is_receipt :: "request \<Rightarrow> bool" where
  "is_receipt (ReceiptRequest i body) = True"
| "is_receipt (PutRequest v) = False"

subsection \<open>Submission\<close>

lemma if_choice: "(if P then x else y) = z \<Longrightarrow> (x = z \<Longrightarrow> Q) \<Longrightarrow> (\<not> P \<Longrightarrow> y = z \<Longrightarrow> Q) \<Longrightarrow> Q"
  by (cases P) simp_all

lemma relay_submit_cases:
  assumes "relay_submit sha256 codec cfg reads weights ledger champ b = (answer, status, sent)"
  shows "sent = [] \<or> (\<exists>i p. sent = [ReceiptRequest i (request_body_of ledger weights p)]
      \<and> request_provenance sha256 codec reads ledger champ weights = Inr p
      \<and> pin_revalidates sha256 ledger \<and> (champ \<noteq> None \<or> enforcing_pin_of ledger \<noteq> None)
      \<and> opt_all (\<lambda>pin. Some (xp_epoch_index pin) = lr_epoch_index ledger \<and> ep_netuid (xp_policy pin) = vc_netuid cfg) (enforcing_pin_of ledger))"
    and "answer = Some True \<Longrightarrow> sent \<noteq> []"
    and "answer = None \<Longrightarrow> enforcing_pin_of ledger = None"
proof -
  define fb where "fb = (if enforcing_pin_of ledger \<noteq> None then Some False else None)"
  let ?sent = "\<exists>i p. sent = [ReceiptRequest i (request_body_of ledger weights p)]
      \<and> request_provenance sha256 codec reads ledger champ weights = Inr p
      \<and> pin_revalidates sha256 ledger \<and> (champ \<noteq> None \<or> enforcing_pin_of ledger \<noteq> None)
      \<and> opt_all (\<lambda>pin. Some (xp_epoch_index pin) = lr_epoch_index ledger \<and> ep_netuid (xp_policy pin) = vc_netuid cfg) (enforcing_pin_of ledger)"
  let ?rdig = "\<lambda>p. weight_request_digest sha256 codec (request_body_of ledger weights p)"
  let ?rid = "\<lambda>p. cd_uuid5 codec (request_identity (rb_schema_version (request_body_of ledger weights p)) (vc_validator_hotkey cfg)
      (vc_netuid cfg) (?rdig p) b)"
  let ?reply = "\<lambda>p. relay_answer fb (?rid p) (?rdig p) (rd_reply reads (?rid p, request_body_of ledger weights p))"
  let ?answered = "\<lambda>p. (fst (?reply p), snd (?reply p), [ReceiptRequest (?rid p) (request_body_of ledger weights p)])"
  have c: "answer = Some False \<and> sent = [] \<or> answer = fb \<and> sent = []
      \<or> (\<exists>i d reply. answer = fst (relay_answer fb i d reply)) \<and> ?sent"
    using assms unfolding relay_submit_def Let_def fb_def [symmetric] case_prod_beta
  proof (elim if_choice)
    assume g: "\<not> \<not> pin_revalidates sha256 ledger"
      "\<not> (\<not> rd_transport reads \<or> (champ = None \<and> \<not> enforcing_pin_of ledger \<noteq> None) \<or> lr_ledger_snapshot_id ledger = None
        \<or> lr_epoch_index ledger = None \<or> lr_ledger_digest ledger = None)"
      "\<not> (case enforcing_pin_of ledger of None \<Rightarrow> False
        | Some pin \<Rightarrow> Some (xp_epoch_index pin) \<noteq> lr_epoch_index ledger \<or> ep_netuid (xp_policy pin) \<noteq> vc_netuid cfg)"
      and e: "(case request_provenance sha256 codec reads ledger champ weights of
          Inl _ \<Rightarrow> (fb, ''invalid_provenance'', []) | Inr p \<Rightarrow> ?answered p) = (answer, status, sent)"
    have o: "opt_all (\<lambda>pin. Some (xp_epoch_index pin) = lr_epoch_index ledger \<and> ep_netuid (xp_policy pin) = vc_netuid cfg) (enforcing_pin_of ledger)"
      using g(3) by (auto simp: opt_all_def split: option.splits)
    show ?thesis
    proof (cases "request_provenance sha256 codec reads ledger champ weights")
      case (Inr p)
      with e have "answer = fst (relay_answer fb (?rid p) (?rdig p) (rd_reply reads (?rid p, request_body_of ledger weights p)))"
        and sent: "sent = [ReceiptRequest (?rid p) (request_body_of ledger weights p)]" by simp_all
      then have 1: "\<exists>i d reply. answer = fst (relay_answer fb i d reply)" by (intro exI)
      have "champ \<noteq> None \<or> enforcing_pin_of ledger \<noteq> None" using g(2) by simp
      with sent Inr g(1) o have ?sent by (intro exI [of _ "?rid p"] exI [of _ p] conjI) simp_all
      with 1 show ?thesis by (intro disjI2 conjI)
    qed (use e in simp)
  qed simp_all
  have r: "fst (relay_answer f i d reply) \<in> {f, Some True, Some False}" for f i d reply
    by (cases reply) auto
  have f: "fb \<noteq> Some True" "fb = None \<Longrightarrow> enforcing_pin_of ledger = None" by (auto simp: fb_def split: if_splits)
  from c have "(sent = [] \<or> ?sent) \<and> (answer = Some True \<longrightarrow> sent \<noteq> []) \<and> (answer = None \<longrightarrow> enforcing_pin_of ledger = None)"
  proof (elim disjE conjE)
    assume a: "\<exists>i d reply. answer = fst (relay_answer fb i d reply)" and sent: ?sent
    from a obtain i d reply where "answer = fst (relay_answer fb i d reply)" by blast
    then have "answer = None \<longrightarrow> fb = None" using r [of fb i d reply] by auto
    moreover from sent have "sent \<noteq> []" by (elim exE conjE) simp
    ultimately show ?thesis using sent f(2) by (intro conjI disjI2 impI) simp_all
  qed (use f in simp_all)
  then show "sent = [] \<or> ?sent" and "answer = Some True \<Longrightarrow> sent \<noteq> []" and "answer = None \<Longrightarrow> enforcing_pin_of ledger = None"
    by blast+
qed

lemma put_loop_bounds:
  "fst (snd (put_weights_loop put as)) \<le> length as \<and> length (snd (snd (put_weights_loop put as))) \<le> length as
   \<and> (fst (put_weights_loop put as) \<longrightarrow> 0 < fst (snd (put_weights_loop put as)))"
  by (induction put as rule: put_weights_loop.induct) (auto split: put_result.split prod.split)

lemma submit_weights_sent:
  assumes "submit_weights sha256 codec cfg reads ledger champ b leaderboard weights st = (out, st', sent)"
  shows "wo_weights out = weights" "\<And>q. q \<in> set sent \<Longrightarrow> request_vector q = weights"
    and "wo_submitted out \<Longrightarrow> sent \<noteq> []"
    and "enforcing_pin_of ledger \<noteq> None \<Longrightarrow> list_all is_receipt sent \<and> length sent \<le> 1"
    and "ws_last_burn_hotkey st' = ws_last_burn_hotkey st" "ws_registered_neurons st' = ws_registered_neurons st"
    and "length sent \<le> 4"
proof -
  obtain answer status rsent where r: "relay_submit sha256 codec cfg reads weights ledger champ b = (answer, status, rsent)"
    by (metis prod_cases3)
  obtain ok tries delays where p: "put_weights_with_retry (rd_put reads) = (ok, tries, delays)" by (metis prod_cases3)
  note rc = relay_submit_cases [OF r]
  have t: "tries \<le> 3" "ok \<Longrightarrow> 0 < tries"
    using put_loop_bounds [of "rd_put reads" "[1..<WEIGHT_SET_ATTEMPTS + 1]"] p
    by (simp_all add: put_weights_with_retry_def WEIGHT_SET_ATTEMPTS_def)
  define puts where "puts = (case answer of Some _ \<Rightarrow> [] | None \<Rightarrow>
      if enforcing_pin_of ledger \<noteq> None then [] else replicate tries (PutRequest weights))"
  define submitted where "submitted = (case answer of Some b \<Rightarrow> b | None \<Rightarrow>
      if enforcing_pin_of ledger \<noteq> None then False else ok)"
  define wfold where "wfold = \<lparr>wf_epoch_index = lr_epoch_index ledger, wf_ledger_digest = lr_ledger_digest ledger,
      wf_vector = weights, wf_champion_agent_id = map_option agent_id champ\<rparr>"
  have eq: "submit_weights sha256 codec cfg reads ledger champ b leaderboard weights st =
      (\<lparr>wo_leaderboard = leaderboard, wo_weights = weights, wo_submitted = submitted, wo_fold = Some wfold\<rparr>,
       (if submitted then st\<lparr>ws_last_weights_fold := Some wfold\<rparr> else st)\<lparr>ws_submission_status := status\<rparr>, rsent @ puts)"
    unfolding submit_weights_def r p puts_def submitted_def wfold_def Let_def prod.case by (cases answer) simp_all
  have sent: "sent = rsent @ puts" and sub: "wo_submitted out = submitted" and w: "wo_weights out = weights"
    and s: "ws_last_burn_hotkey st' = ws_last_burn_hotkey st" "ws_registered_neurons st' = ws_registered_neurons st"
    using assms unfolding eq by auto
  show "wo_weights out = weights" "ws_last_burn_hotkey st' = ws_last_burn_hotkey st"
    "ws_registered_neurons st' = ws_registered_neurons st" by (fact w s)+
  show "\<And>q. q \<in> set sent \<Longrightarrow> request_vector q = weights"
    using rc(1) by (auto simp: sent puts_def request_body_of_def split: option.splits if_splits)
  show "wo_submitted out \<Longrightarrow> sent \<noteq> []"
    using rc(2) t(2) unfolding sub sent puts_def submitted_def by (cases answer) (auto split: if_splits)
  show "enforcing_pin_of ledger \<noteq> None \<Longrightarrow> list_all is_receipt sent \<and> length sent \<le> 1"
    using rc(1) by (auto simp: sent puts_def split: option.splits)
  show "length sent \<le> 4"
    using rc(1) t(1) by (auto simp: sent puts_def split: option.splits)
qed

text \<open>The stages of an epoch that sent something, from the last to the first.\<close>

lemma unchanged_sent: "unchanged l w st = Inr (out, st', sent) \<Longrightarrow> sent = [] \<and> \<not> wo_submitted out"
  by (auto simp: unchanged_def)

lemma dispatch_sent:
  assumes "dispatch_weights M sha256 codec cfg reads ledger registered weights st = Inr (out, st', sent)" "sent \<noteq> []"
  shows "\<exists>champ b lb st2. submit_weights sha256 codec cfg reads ledger champ b lb weights st2 = (out, st', sent)
      \<and> ws_last_burn_hotkey st2 = ws_last_burn_hotkey st \<and> ws_registered_neurons st2 = ws_registered_neurons st"
    and "validator_permitted reads" "stake_sufficient cfg reads"
proof -
  have "\<exists>champ b lb. submit_weights sha256 codec cfg reads ledger champ b lb weights (after_recovery sha256 codec cfg reads st) = (out, st', sent)"
    and p: "validator_permitted reads" "stake_sufficient cfg reads"
    using assms by (auto simp: dispatch_weights_def Let_def unchanged_def split: if_splits option.splits)
  moreover have "ws_last_burn_hotkey (after_recovery sha256 codec cfg reads st) = ws_last_burn_hotkey st"
    "ws_registered_neurons (after_recovery sha256 codec cfg reads st) = ws_registered_neurons st"
    by (simp_all add: after_recovery_def)
  ultimately show "\<exists>champ b lb st2. submit_weights sha256 codec cfg reads ledger champ b lb weights st2 = (out, st', sent)
      \<and> ws_last_burn_hotkey st2 = ws_last_burn_hotkey st \<and> ws_registered_neurons st2 = ws_registered_neurons st" by blast
  show "validator_permitted reads" "stake_sufficient cfg reads" by (fact p)+
qed

lemma pay_sent:
  assumes "pay_epoch M sha256 verify codec cfg reads ledger auth registered mw paid alloc st = Inr (out, st', sent)" "sent \<noteq> []"
  obtains miner_share burn weights st1 where
    "resolve_miner_emission_share (lr_burn_share ledger) (vc_miner_emission_share cfg) = Inr miner_share"
    "final_vector sha256 verify auth mw miner_share alloc paid burn = Inr weights"
    "dispatch_weights M sha256 codec cfg reads ledger registered weights st1 = Inr (out, st', sent)"
    "burn = [] \<or> ws_last_burn_hotkey st1 = Some burn" "ws_registered_neurons st1 = ws_registered_neurons st"
proof -
  obtain ms svc needed where ms: "resolve_miner_emission_share (lr_burn_share ledger) (vc_miner_emission_share cfg) = Inr ms"
    and rest: "(case (if needed then resolve_burn_hotkey cfg (ws_registered_neurons st) (rd_owner_hotkey reads) else Some []) of
       None \<Rightarrow> unchanged (leaderboard_of ledger) [] st
     | Some burn_hotkey \<Rightarrow>
        (let st' = (if needed then st\<lparr>ws_last_burn_hotkey := Some burn_hotkey\<rparr> else st) in
         case final_vector sha256 verify auth mw ms alloc paid burn_hotkey of
           Inr weights \<Rightarrow> dispatch_weights M sha256 codec cfg reads ledger registered weights st'
         | Inl err \<Rightarrow> if auth \<noteq> None \<and> value_error err then unchanged (leaderboard_of ledger) [] st' else Inl err)) = Inr (out, st', sent)"
    using assms(1) unfolding pay_epoch_def and_then_Inr by blast
  show ?thesis
  proof (cases "if needed then resolve_burn_hotkey cfg (ws_registered_neurons st) (rd_owner_hotkey reads) else Some []")
    case None
    with rest assms(2) show ?thesis by (simp add: unchanged_def)
  next
    case (Some burn)
    let ?st = "if needed then st\<lparr>ws_last_burn_hotkey := Some burn\<rparr> else st"
    have b: "burn = [] \<or> ws_last_burn_hotkey ?st = Some burn" "ws_registered_neurons ?st = ws_registered_neurons st"
      using Some by (cases needed; simp)+
    show ?thesis
    proof (cases "final_vector sha256 verify auth mw ms alloc paid burn")
      case (Inl err)
      with rest Some assms(2) show ?thesis by (simp add: unchanged_def split: if_splits)
    next
      case (Inr weights)
      with rest Some have "dispatch_weights M sha256 codec cfg reads ledger registered weights ?st = Inr (out, st', sent)" by simp
      from that [OF ms Inr this b] show ?thesis .
    qed
  qed
qed

lemma fold_sent:
  assumes "fold_epoch M sha256 verify codec cfg reads ledger auth registered st = Inr (out, st', sent)" "sent \<noteq> []"
  obtains registry mw paid alloc where "epoch_registry M cfg ledger = Inr registry"
    "rd_generator_ledger reads = None \<longrightarrow> share_of (shares_bps registry) TRACK_GENERATOR \<le> 0"
    "fold_tracks registry (epoch_inputs cfg reads ledger auth registered (ws_registered_neurons st)
         (case rd_generator_ledger reads of None \<Rightarrow> [] | Some gs \<Rightarrow> gs)) = Inr (mw, paid, alloc)"
    "pay_epoch M sha256 verify codec cfg reads ledger auth registered mw paid alloc st = Inr (out, st', sent)"
  using assms by (auto simp: fold_epoch_def and_then_Inr unchanged_def not_less split: if_splits)

lemma update_sent:
  assumes "update_weights M sha256 verify codec cfg reads st = Inr (out, st', sent)" "sent \<noteq> []"
  obtains ledger auth registered hotkeys st1 where "rd_ledger reads = Some ledger"
    "run_treasury_gate sha256 verify cfg reads ledger = GateOpen auth"
    "lr_stale ledger \<longrightarrow> ledger_age ledger \<le> MAX_STALE_LEDGER_AGE_SECONDS"
    "registered_ledger_entries (rd_neurons reads)
       (filter (\<lambda>e. not_collector auth (miner_hotkey e)) (ledger_weight_entries ledger)) = Some (registered, hotkeys)"
    "ws_registered_neurons st1 = hotkeys"
    "fold_epoch M sha256 verify codec cfg reads ledger auth registered st1 = Inr (out, st', sent)"
proof -
  obtain ledger where l: "rd_ledger reads = Some ledger"
    using assms by (cases "rd_ledger reads") (auto simp: update_weights_def unchanged_def)
  obtain auth where g: "run_treasury_gate sha256 verify cfg reads ledger = GateOpen auth"
    using assms l by (cases "run_treasury_gate sha256 verify cfg reads ledger") (auto simp: update_weights_def unchanged_def)
  let ?we = "filter (\<lambda>e. not_collector auth (miner_hotkey e)) (ledger_weight_entries ledger)"
  let ?st = "st\<lparr>ws_registered_neurons := None, ws_last_burn_hotkey := vc_burn_hotkey cfg\<rparr>"
  have age: "\<not> (lr_stale ledger \<and> ledger_age ledger > MAX_STALE_LEDGER_AGE_SECONDS)"
    using assms l g by (auto simp: update_weights_def unchanged_def)
  have "case registered_ledger_entries (rd_neurons reads) ?we of
              None \<Rightarrow> unchanged (leaderboard_of ledger) [] ?st = Inr (out, st', sent)
            | Some (registered, hotkeys) \<Rightarrow>
                fold_epoch M sha256 verify codec cfg reads ledger auth registered
                  (?st\<lparr>ws_registered_neurons := hotkeys\<rparr>) = Inr (out, st', sent)"
    using assms l g age by (auto simp: update_weights_def unchanged_def Let_def split: if_splits option.splits)
  then obtain registered hotkeys where "registered_ledger_entries (rd_neurons reads) ?we = Some (registered, hotkeys)"
      "fold_epoch M sha256 verify codec cfg reads ledger auth registered (?st\<lparr>ws_registered_neurons := hotkeys\<rparr>) = Inr (out, st', sent)"
    using assms(2) by (auto simp: unchanged_def split: option.splits)
  with l g age that show ?thesis by force
qed

lemma dispatch_submitted:
  assumes "dispatch_weights M sha256 codec cfg reads ledger registered weights st = Inr (out, st', sent)" "sent = []"
  shows "\<not> wo_submitted out"
proof -
  have "\<not> wo_submitted out" if "Inr (submit_weights sha256 codec cfg reads ledger champ b lb weights st2) = Inr (out, st', sent)"
    for champ b lb st2
    using submit_weights_sent(3) [of sha256 codec cfg reads ledger champ b lb weights st2 out st' sent] that assms(2) by auto
  then show ?thesis
    using assms(1) by (auto simp: dispatch_weights_def Let_def unchanged_def split: if_splits option.splits)
qed

lemma pay_submitted:
  assumes "pay_epoch M sha256 verify codec cfg reads ledger auth registered mw paid alloc st = Inr (out, st', sent)" "sent = []"
  shows "\<not> wo_submitted out"
proof -
  obtain ms needed where rest: "(case (if needed then resolve_burn_hotkey cfg (ws_registered_neurons st) (rd_owner_hotkey reads) else Some []) of
       None \<Rightarrow> unchanged (leaderboard_of ledger) [] st
     | Some burn_hotkey \<Rightarrow>
        (let st' = (if needed then st\<lparr>ws_last_burn_hotkey := Some burn_hotkey\<rparr> else st) in
         case final_vector sha256 verify auth mw ms alloc paid burn_hotkey of
           Inr weights \<Rightarrow> dispatch_weights M sha256 codec cfg reads ledger registered weights st'
         | Inl err \<Rightarrow> if auth \<noteq> None \<and> value_error err then unchanged (leaderboard_of ledger) [] st' else Inl err)) = Inr (out, st', sent)"
    using assms(1) unfolding pay_epoch_def and_then_Inr by blast
  show ?thesis
  proof (cases "if needed then resolve_burn_hotkey cfg (ws_registered_neurons st) (rd_owner_hotkey reads) else Some []")
    case (Some burn)
    with rest show ?thesis
      using dispatch_submitted [OF _ assms(2)] unchanged_sent
      by (cases "final_vector sha256 verify auth mw ms alloc paid burn") (auto simp: Let_def split: if_splits)
  qed (use rest unchanged_sent in auto)
qed

lemma epoch_submitted_sent:
  assumes "update_weights M sha256 verify codec cfg reads st = Inr (out, st', sent)" "sent = []"
  shows "\<not> wo_submitted out"
proof -
  have f: "\<not> wo_submitted out" if "fold_epoch M sha256 verify codec cfg reads ledger auth registered st1 = Inr (out, st', sent)"
    for ledger auth registered st1
    using that pay_submitted [OF _ assms(2)] unchanged_sent
    by (auto simp: fold_epoch_def and_then_Inr split: if_splits)
  show ?thesis
    using assms(1) f unchanged_sent unfolding update_weights_def Let_def
    by (auto split: option.splits treasury_gate.splits if_splits)
qed

lemma gate_enforcing:
  assumes "run_treasury_gate sha256 verify cfg reads ledger = GateOpen auth"
  shows "map_option wa_pin auth = enforcing_pin_of ledger"
  using assms by (auto simp: run_treasury_gate_def enforcing_pin_of_def treasury_authority_def Let_def and_then_Inr
      split: option.splits treasury_pin.splits if_splits sum.splits)

subsection \<open>Whom a vector pays\<close>

lemma cap_no_burn:
  assumes "apply_miner_emission_cap weights share [] = Inr capped"
  shows "set (dict_keys capped) \<subseteq> set (dict_keys (positive_items weights))"
proof -
  define miners where "miners = filter (\<lambda>(hk, w). hk \<noteq> [] \<and> is_positive w) weights"
  define scaled where "scaled = map (\<lambda>(hk, w). (hk, fmul (fdiv w (py_sum (dict_values miners))) share)) miners"
  have g: "in_unit share" "\<not> (fle (py_sum (dict_values miners)) (Fin 0) \<or> flt share (Fin 1))"
    using assms by (auto simp: apply_miner_emission_cap_def Let_def miners_def split: if_splits)
  then have "share = Fin 1" by (cases share) (auto simp: in_unit_def fle_def flt_def)
  then have "capped = scaled"
    using assms g by (auto simp: apply_miner_emission_cap_def Let_def miners_def scaled_def float_simps split: if_splits)
  moreover have "dict_keys scaled = dict_keys miners" by (simp add: scaled_def case_prod_beta comp_def)
  moreover have "set (dict_keys miners) \<subseteq> set (dict_keys (positive_items weights))"
    by (auto simp: positive_items_def miners_def)
  ultimately show ?thesis by (simp only:)
qed

lemma service_first_keys:
  assumes "service_first_weights weights bps burn_share collector verified burn_hotkey paid = Inr out"
  shows "set (dict_keys out) \<subseteq> set (dict_keys (positive_items weights)) \<union> {collector} \<union> ({burn_hotkey} - {[]})"
proof -
  note f = service_first_Inr [OF assms]
  have k: "set (dict_keys (dict_set k v d)) = insert k (set (dict_keys d))" for k v and d :: weight_vector
    by (simp add: dom_update)
  let ?m = "service_miners weights collector burn_hotkey"
  have m: "set (dict_keys (if b then miner_part ?m x else [])) \<subseteq> set (dict_keys (positive_items weights))" for b x
  proof -
    have "set (dict_keys ?m) \<subseteq> set (dict_keys (positive_items weights))"
      by (auto simp: service_miners_def positive_items_def is_positive_def Let_def)
    then show ?thesis by (simp add: keys_miner_part del: set_map)
  qed
  have gen: "set (dict_keys (let served = if b then dict_set c x P else P in if f then dict_set h y served else served))
      \<subseteq> set (dict_keys P) \<union> {c} \<union> (if f then {h} else {})" for b f c h x y and P :: weight_vector
    by (auto simp: k Let_def simp del: set_map)
  let ?miner = "miner_budget ?m (itruediv bps 10000) burn_share paid"
  have "set (dict_keys out) \<subseteq> set (dict_keys (if ?miner \<noteq> Fin 0 then miner_part ?m ?miner else [])) \<union> {collector}
      \<union> (if flt (Fin 0) (fsub (fsub (Fin 1) (itruediv bps 10000)) ?miner) then {burn_hotkey} else {})"
    unfolding f(7) by (rule gen)
  also have "\<dots> \<subseteq> set (dict_keys (positive_items weights)) \<union> {collector} \<union> ({burn_hotkey} - {[]})"
    using f(8) by (intro Un_mono m subset_refl) auto
  finally show ?thesis .
qed

definition collector_of :: "enforcing_pin option \<Rightarrow> string set" where
  "collector_of pin = (case pin of None \<Rightarrow> {} | Some x \<Rightarrow> {ep_collector_hotkey (xp_policy x)})"

lemma final_vector_keys:
  assumes "final_vector sha256 verify auth mw share alloc paid burn = Inr weights"
  shows "set (dict_keys weights) \<subseteq> set (dict_keys mw) \<union> collector_of (map_option wa_pin auth) \<union> ({burn} - {[]})"
proof -
  have p: "set (dict_keys (positive_items mw)) \<subseteq> set (dict_keys mw)" by (auto simp: positive_items_def)
  show ?thesis
  proof (cases auth)
    case None
    with assms have "apply_miner_emission_cap mw (fmul (fmul share alloc) paid) burn = Inr weights"
      by (simp add: final_vector_def)
    then have "set (dict_keys weights) \<subseteq> set (dict_keys (positive_items mw)) \<union> ({burn} - {[]})"
      using cap_keys [of mw _ burn weights] cap_no_burn [of mw _ weights] by (cases "burn = []") (auto simp del: set_map)
    with p show ?thesis by blast
  next
    case (Some wa)
    with assms obtain pin n where pin: "require_treasury_weight_authority sha256 verify wa = Inr pin"
      and "service_first_weights mw n (fsub (Fin 1) share) (ep_collector_hotkey (xp_policy pin)) True burn (fmul alloc paid) = Inr weights"
      by (auto simp: final_vector_def fold_treasury_weights_def and_then_Inr)
    from service_first_keys [OF this(2)] p Some authority_Inr(1) [OF pin] show ?thesis
      by (auto simp: collector_of_def simp del: set_map)
  qed
qed

lemma split_keys: "set (dict_keys (fst (split_unpaid_share w))) \<subseteq> set (dict_keys w) - {UNPAID_SHARE_KEY}"
  by (auto simp: split_unpaid_share_def Let_def)

lemma default_vectors:
  assumes "track_vectors (default_tracks M sh s) inputs = Inr vectors"
  obtains v where "memory_fold M inputs = Inr v"
    "vectors = [(TRACK_MEMORY, v), (TRACK_CODING, []),
       (TRACK_ROUTER, compute_router_weights (router_entries inputs) (router_rank_shares inputs)),
       (TRACK_GENERATOR, compute_generator_weights (generator_entries inputs) (generator_rank_shares inputs))]"
  using assms
  by (auto simp: track_vectors_def default_tracks_def and_then_Inr reserved_fold_def router_fold_def generator_fold_def
      track_ids)

lemma router_share_zero:
  assumes "registry_ok (default_tracks M sh s)" "\<not> (ts_router_weight_eligible s \<and> ts_router_state s \<in> PAYING_STATES)"
  shows "share_of (claimed_shares_bps (default_tracks M sh s) vectors) TRACK_ROUTER = 0"
proof -
  let ?r = "default_tracks M sh s"
  let ?t = "?r ! 2"
  have t: "?t \<in> set ?r" "track_id ?t = TRACK_ROUTER" by (simp_all add: default_tracks_def)
  have "\<not> draws_emission ?t" using assms(2) by (simp add: default_tracks_def draws_emission_def)
  then have "effective_bps ?t = 0" by (simp add: effective_bps_def)
  then have "share_of (shares_bps ?r) TRACK_ROUTER = 0"
    using share_of_track [OF _ t(1)] assms(1) t(2) by (simp add: registry_ok_def)
  then have "TRACK_ROUTER \<notin> set (dict_keys (claimed_shares_bps ?r vectors))"
    using distinct_reassign(2) [OF distinct_shares_bps [of ?r]] share_of_paying(2) [OF assms(1), of TRACK_ROUTER]
    by (auto simp: claimed_shares_bps_def simp del: set_map)
  then show ?thesis by (rule share_of_absent)
qed

lemma fold_tracks_keys:
  assumes "fold_tracks (default_tracks M sh s) inputs = Inr (mw, paid, alloc)" "registry_ok (default_tracks M sh s)"
    and "\<not> (ts_router_weight_eligible s \<and> ts_router_state s \<in> PAYING_STATES)"
  shows "set (dict_keys mw) \<subseteq> miner_hotkey ` set (memory_entries inputs) \<union> ge_miner_hotkey ` set (generator_entries inputs)"
proof -
  let ?r = "default_tracks M sh s"
  obtain vectors where v: "track_vectors ?r inputs = Inr vectors"
    and mw: "mw = fst (split_unpaid_share (blend_track_weights
        (filter (\<lambda>(t, v). t \<in> set (dict_keys (claimed_shares_bps ?r vectors))) vectors) (claimed_shares_bps ?r vectors)))"
    using assms(1) by (auto simp: fold_tracks_def and_then_Inr Let_def case_prod_beta simp del: set_map)
  obtain m where m: "memory_fold M inputs = Inr m" and vs: "vectors = [(TRACK_MEMORY, m), (TRACK_CODING, []),
       (TRACK_ROUTER, compute_router_weights (router_entries inputs) (router_rank_shares inputs)),
       (TRACK_GENERATOR, compute_generator_weights (generator_entries inputs) (generator_rank_shares inputs))]"
    using default_vectors [OF v] by blast
  let ?shares = "claimed_shares_bps ?r vectors"
  have pos: "set (dict_keys (positive_items w)) \<subseteq> set (dict_keys w)" for w by (auto simp: positive_items_def)
  have rz: "share_of ?shares TRACK_ROUTER = 0" by (rule router_share_zero [OF assms(2,3)])
  have mem: "set (dict_keys m) \<subseteq> insert UNPAID_SHARE_KEY (miner_hotkey ` set (memory_entries inputs))"
  proof (cases "memory_params inputs")
    case None
    with m show ?thesis by (simp add: memory_fold_def)
  next
    case (Some p)
    with m have "compute_weights M (params_rules p) (mp_tail_size p) (mp_rank_shares p) (mp_tie_pooling p)
       (mp_incumbent_agent_id p) (mp_unpaid_agent_id p) (memory_entries inputs) = Inr m" by (simp add: memory_fold_def)
    from compute_weights_keys [OF this] in_scored_pool show ?thesis by (fastforce simp: share_key_def simp del: set_map)
  qed
  have gen: "set (dict_keys (compute_generator_weights (generator_entries inputs) (generator_rank_shares inputs)))
      \<subseteq> ge_miner_hotkey ` set (generator_entries inputs)"
  proof -
    let ?ok = "\<lambda>e. ge_weight_eligible e \<and> isfinite (ge_score e) \<and> is_positive (ge_score e)"
    show ?thesis
      using zip_keep_first(2) [of ge_miner_hotkey "sort_key generator_key (filter ?ok (generator_entries inputs))" "generator_rank_shares inputs"]
      by (auto simp: generator_zip simp del: set_map)
  qed
  have "set (dict_keys (blend_track_weights (filter (\<lambda>(t, v). t \<in> set (dict_keys ?shares)) vectors) ?shares))
      \<subseteq> insert UNPAID_SHARE_KEY (miner_hotkey ` set (memory_entries inputs) \<union> ge_miner_hotkey ` set (generator_entries inputs))"
  proof (rule subset_trans [OF blend_keys], rule UN_least)
    fix p assume "p \<in> {(t, v). (t, v) \<in> set (filter (\<lambda>(t, v). t \<in> set (dict_keys ?shares)) vectors) \<and> has_positive_weight v \<and> share_of ?shares t > 0}"
    then obtain t w where p: "p = (t, w)" "(t, w) \<in> set vectors" "share_of ?shares t > 0" by (auto simp del: set_map)
    then have "w = m \<or> w = [] \<or> w = compute_generator_weights (generator_entries inputs) (generator_rank_shares inputs)"
      using rz unfolding vs by auto
    then show "(case p of (t, v) \<Rightarrow> set (dict_keys (positive_items v))) \<subseteq>
        insert UNPAID_SHARE_KEY (miner_hotkey ` set (memory_entries inputs) \<union> ge_miner_hotkey ` set (generator_entries inputs))"
      unfolding p prod.case using pos [of w] mem gen by (elim disjE) (auto simp del: set_map)
  qed
  with split_keys show ?thesis unfolding mw by (blast dest: subsetD)
qed

subsection \<open>A pool that belongs to memory\<close>

lemma memory_only_shares:
  assumes "registry_ok r" "r = default_tracks M sh s" "share_of (shares_bps r) TRACK_MEMORY = BASIS_POINT_SCALE"
  shows "claimed_shares_bps r vectors = [(TRACK_MEMORY, BASIS_POINT_SCALE)]"
proof -
  obtain m rest where r: "r = m # rest" "track_id m = TRACK_MEMORY" "draws_emission m"
    using assms(2) by (simp add: default_tracks_def draws_emission_def PAYING_STATES_def)
  let ?pairs = "map (\<lambda>t. (track_id t, effective_bps t)) (filter draws_emission rest)"
  have sh: "shares_bps r = (TRACK_MEMORY, effective_bps m) # ?pairs"
    using assms(1) r by (simp add: shares_bps_pairs registry_ok_def active_eligible_def)
  then have m: "effective_bps m = BASIS_POINT_SCALE" using assms(3) by (simp add: share_of_def)
  have nn: "0 \<le> effective_bps t" if "t \<in> set rest" for t using effective_bps_range [OF assms(1)] that r(1) by simp
  have "effective_bps m + sum_list (map effective_bps rest) \<le> BASIS_POINT_SCALE"
    using assms(1) r(1) by (simp add: registry_ok_def total_active_bps_def)
  moreover have "0 \<le> sum_list (map effective_bps rest)" using nn by (intro sum_list_nonneg) auto
  ultimately have "sum_list (map effective_bps rest) = 0" using m by simp
  then have "effective_bps t = 0" if "t \<in> set rest" for t
    using that nn sum_list_nonneg_eq_0_iff [of "map effective_bps rest"] by auto
  then have "filter (\<lambda>(t, b). b > 0) ?pairs = []" by (auto simp: filter_empty_conv)
  then have p: "filter (\<lambda>(t, b). b > 0) (shares_bps r) = [(TRACK_MEMORY, BASIS_POINT_SCALE)]"
    by (simp add: sh m BASIS_POINT_SCALE_def)
  have "dict_get (track_fallbacks r) TRACK_MEMORY = None"
    using assms(2) default_fallbacks [of M sh s] by (simp add: track_ids)
  then show ?thesis
    by (simp add: claimed_shares_bps_def reassign_unclaimed_shares_def p reassign_step_def falls_back_def BASIS_POINT_SCALE_def)
qed

lemma bps_units: "itruediv BASIS_POINT_SCALE BASIS_POINT_SCALE = Fin 1" "itruediv 0 BASIS_POINT_SCALE = Fin 0"
  by code_simp+

lemma memory_only_fold:
  assumes "registry_ok r" "r = default_tracks M sh s" "share_of (shares_bps r) TRACK_MEMORY = BASIS_POINT_SCALE"
    and "memory_fold M inputs = Inr v" "UNPAID_SHARE_KEY \<notin> set (dict_keys v)"
  shows "fold_tracks r inputs = Inr (positive_items v, Fin 1, if has_positive_weight v then Fin 1 else Fin 0)"
proof -
  let ?vs = "[(TRACK_MEMORY, v), (TRACK_CODING, []),
       (TRACK_ROUTER, compute_router_weights (router_entries inputs) (router_rank_shares inputs)),
       (TRACK_GENERATOR, compute_generator_weights (generator_entries inputs) (generator_rank_shares inputs))]"
  have vs: "track_vectors r inputs = Inr ?vs"
    using assms(4) unfolding assms(2) by (simp add: track_vectors_def default_tracks_def reserved_fold_def router_fold_def
        generator_fold_def track_ids)
  note claimed = memory_only_shares [OF assms(1-3), of ?vs]
  have el: "filter (\<lambda>(t, v). t \<in> set (dict_keys [(TRACK_MEMORY, BASIS_POINT_SCALE)])) ?vs = [(TRACK_MEMORY, v)]"
    by (simp add: track_ids)
  have up: "UNPAID_SHARE_KEY \<notin> set (dict_keys (positive_items v))"
    using assms(5) by (auto simp: positive_items_def)
  have np: "positive_items v = []" if "\<not> has_positive_weight v"
    using that by (auto simp: has_positive_weight_def positive_items_def list_ex_iff filter_empty_conv)
  have bl: "blend_track_weights [(TRACK_MEMORY, v)] [(TRACK_MEMORY, BASIS_POINT_SCALE)] = positive_items v"
    using np by (cases "has_positive_weight v") (simp_all add: blend_track_weights_def share_of_def BASIS_POINT_SCALE_def)
  have al: "track_allocated_share [(TRACK_MEMORY, BASIS_POINT_SCALE)] [(TRACK_MEMORY, v)]
      = (if has_positive_weight v then Fin 1 else Fin 0)"
    using bps_units by (simp add: track_allocated_share_def vector_of_def BASIS_POINT_SCALE_def)
  show ?thesis
    unfolding fold_tracks_def vs and_then.simps claimed Let_def el bl al split_unpaid_share_def
    using up by (simp del: set_map)
qed

lemma cap_positive_items: "apply_miner_emission_cap (positive_items v) share burn = apply_miner_emission_cap v share burn"
proof -
  have "filter (\<lambda>(hk, w). hk \<noteq> burn \<and> is_positive w) (positive_items v) = filter (\<lambda>(hk, w). hk \<noteq> burn \<and> is_positive w) v"
    unfolding positive_items_def filter_filter by (rule filter_cong) auto
  then show ?thesis unfolding apply_miner_emission_cap_def by simp
qed

lemma fmul_one: "unit64 x \<Longrightarrow> fmul x (Fin 1) = x" "unit64 x \<Longrightarrow> fmul x (Fin 0) = Fin 0"
  by (auto elim!: unit64E simp: float_simps is64_def)

subsection \<open>Properties\<close>

text \<open>C2: An epoch fails closed. It sends a vector only if the ledger was read, the treasury gate opened,
  a stale ledger is within its six hour bound, the metagraph was read, a governed generator share
  had its ledger, and neither the permit nor the stake check failed; every request of the epoch
  carries the one vector it reports, and an epoch that reports a submission sent one.\<close>

theorem epoch_fails_closed:
  assumes "update_weights M sha256 verify codec cfg reads st = Inr (out, st', sent)"
  shows "(wo_submitted out \<longrightarrow> sent \<noteq> []) \<and> list_all (\<lambda>q. request_vector q = wo_weights out) sent
    \<and> (sent \<noteq> [] \<longrightarrow> rd_neurons reads \<noteq> NeuronsFailed \<and> validator_permitted reads \<and> stake_sufficient cfg reads
        \<and> (\<exists>ledger registry. rd_ledger reads = Some ledger
            \<and> run_treasury_gate sha256 verify cfg reads ledger \<noteq> GateRefused
            \<and> (lr_stale ledger \<longrightarrow> ledger_age ledger \<le> MAX_STALE_LEDGER_AGE_SECONDS)
            \<and> epoch_registry M cfg ledger = Inr registry
            \<and> (rd_generator_ledger reads = None \<longrightarrow> share_of (shares_bps registry) TRACK_GENERATOR \<le> 0)))"
proof (cases "sent = []")
  case True
  then show ?thesis using epoch_submitted_sent [OF assms] by simp
next
  case False
  obtain ledger auth registered hotkeys st1 where u: "rd_ledger reads = Some ledger"
      "run_treasury_gate sha256 verify cfg reads ledger = GateOpen auth"
      "lr_stale ledger \<longrightarrow> ledger_age ledger \<le> MAX_STALE_LEDGER_AGE_SECONDS"
      "registered_ledger_entries (rd_neurons reads)
         (filter (\<lambda>e. not_collector auth (miner_hotkey e)) (ledger_weight_entries ledger)) = Some (registered, hotkeys)"
      "fold_epoch M sha256 verify codec cfg reads ledger auth registered st1 = Inr (out, st', sent)"
    using update_sent [OF assms False] by metis
  obtain registry mw paid alloc where f: "epoch_registry M cfg ledger = Inr registry"
      "rd_generator_ledger reads = None \<longrightarrow> share_of (shares_bps registry) TRACK_GENERATOR \<le> 0"
      "pay_epoch M sha256 verify codec cfg reads ledger auth registered mw paid alloc st1 = Inr (out, st', sent)"
    using fold_sent [OF u(5) False] by metis
  obtain weights st2 where d: "dispatch_weights M sha256 codec cfg reads ledger registered weights st2 = Inr (out, st', sent)"
    using pay_sent [OF f(3) False] by metis
  obtain champ b lb st3 where "submit_weights sha256 codec cfg reads ledger champ b lb weights st3 = (out, st', sent)"
    using dispatch_sent(1) [OF d False] by blast
  note s = submit_weights_sent [OF this]
  have "rd_neurons reads \<noteq> NeuronsFailed" using u(4) by (auto simp: registered_ledger_entries_def)
  moreover have "list_all (\<lambda>q. request_vector q = wo_weights out) sent" using s(1,2) by (simp add: list_all_iff)
  ultimately show ?thesis using False u(1-3) f(1,2) dispatch_sent(2,3) [OF d False] by auto
qed

definition example_ledger :: ledger_response where
  "example_ledger = \<lparr>lr_treasury_pin = None, lr_entries = [alice, bob], lr_active_bench_version = Some 12,
     lr_v9_confirmation_mode = None, lr_tie_weighting_mode = None, lr_dethrone_band_mode = Some ''headroom_capped'',
     lr_statistical_band_mode = Some ''capped'', lr_crown_mode = None, lr_crown_incumbent_agent_id = None,
     lr_provisional_incumbent = None, lr_crown_gate = None, lr_rank_shares = None, lr_track_shares_bps = None,
     lr_burn_share = NFloat (Fin (1 / 2)), lr_stale = False, lr_age_seconds = NOther, lr_epoch_index = None,
     lr_pinned_block = None, lr_ledger_snapshot_id = None, lr_ledger_digest = None\<rparr>"

definition example_config :: validator_config where
  "example_config = \<lparr>vc_netuid = 118, vc_validator_hotkey = ''v'', vc_protocol_version = 35, vc_burn_hotkey = Some ''burn'',
     vc_koth_margin = fr_margin example_rules, vc_koth_tail_size = 2, vc_koth_rank_shares = example_shares,
     vc_koth_dethrone_z = fr_dethrone_z example_rules, vc_miner_emission_share = Fin 1,
     vc_track_shares_bps = [(''memory'', 10000)], vc_router_track_state = SHADOW, vc_router_weight_eligible = False,
     vc_router_rank_shares = [Fin 1], vc_generator_track_state = ACTIVE, vc_generator_weight_eligible = True,
     vc_generator_rank_shares = [Fin 1], vc_min_stake_tao = Fin 0\<rparr>"

definition example_reads :: epoch_reads where
  "example_reads = \<lparr>rd_ledger = Some example_ledger, rd_approval = Inr None, rd_raw_capability = None, rd_observation = None,
     rd_neurons = Neurons [''alice'', ''bob'', ''owner''], rd_router_ledger = [], rd_generator_ledger = Some [],
     rd_owner_hotkey = None, rd_permit = Some True, rd_stake = None, rd_last_epoch_block = None, rd_champion_sha256 = [],
     rd_transport = False, rd_reply = (\<lambda>_. PylonUnsupported), rd_relay_locked = False,
     rd_relay = \<lparr>rl_supported = False, rl_page = (\<lambda>_. PageUnsupported), rl_report = (\<lambda>_ _. ReportRaised), rl_ack = (\<lambda>_ _. AckRaised)\<rparr>,
     rd_put = (\<lambda>_. PutAccepted)\<rparr>"

definition example_state :: worker_state where
  "example_state = \<lparr>ws_registered_neurons = None, ws_last_burn_hotkey = None, ws_last_weights_fold = None,
     ws_submission_status = ''not_attempted'', ws_relay = initial_relay\<rparr>"

text \<open>Epochs over the two example rows: any ledger that serves them with the same markers, under any margins
  for which the fold gives them these weights.\<close>

definition plain_ledger :: "ledger_response \<Rightarrow> bool" where
  "plain_ledger l \<longleftrightarrow> lr_treasury_pin l = None \<and> lr_entries l = [alice, bob] \<and> lr_v9_confirmation_mode l = None
     \<and> lr_tie_weighting_mode l = None \<and> lr_dethrone_band_mode l = Some ''headroom_capped'' \<and> lr_statistical_band_mode l = Some ''capped''
     \<and> lr_crown_mode l = None \<and> lr_provisional_incumbent l = None \<and> lr_crown_gate l = None \<and> lr_rank_shares l = None
     \<and> lr_track_shares_bps l \<in> {None, Some []} \<and> lr_burn_share l = NFloat (Fin (1 / 2)) \<and> \<not> lr_stale l"

definition margin_config :: "pyfloat \<Rightarrow> pyfloat \<Rightarrow> validator_config" where
  "margin_config m z = example_config\<lparr>vc_koth_margin := m, vc_koth_dethrone_z := z\<rparr>"

definition margin_rules :: "pyfloat \<Rightarrow> pyfloat \<Rightarrow> fold_rules" where
  "margin_rules m z = example_rules\<lparr>fr_margin := m, fr_dethrone_z := z\<rparr>"

definition ledger_reads :: "ledger_response \<Rightarrow> epoch_reads" where
  "ledger_reads l = example_reads\<lparr>rd_ledger := Some l\<rparr>"

lemma example_registry:
  assumes "plain_ledger l"
  shows "epoch_registry M (margin_config m z) l = Inr (default_tracks M [(''memory'', 10000)] (config_settings (margin_config m z)))"
  "registry_ok (default_tracks M [(''memory'', 10000)] (config_settings (margin_config m z)))"
  "share_of (shares_bps (default_tracks M [(''memory'', 10000)] (config_settings (margin_config m z)))) TRACK_MEMORY = BASIS_POINT_SCALE"
proof -
  let ?r = "default_tracks M [(''memory'', 10000)] (config_settings (margin_config m z))"
  show ok: "registry_ok ?r"
    by (simp add: registry_ok_def default_tracks_def share_or_def track_ids BASIS_POINT_SCALE_def total_active_bps_def
        effective_bps_def config_settings_def example_config_def margin_config_def)
  have "resolve_track_shares (lr_track_shares_bps l) (vc_track_shares_bps (margin_config m z)) = [(''memory'', 10000)]"
    using assms by (auto simp: plain_ledger_def resolve_track_shares_def margin_config_def example_config_def)
  then show "epoch_registry M (margin_config m z) l = Inr ?r"
    using ok by (simp add: epoch_registry_def build_default_registry_eq)
  have "share_of (shares_bps ?r) (track_id (?r ! 0)) = effective_bps (?r ! 0)"
    using ok by (intro share_of_track) (simp_all add: registry_ok_def default_tracks_def)
  then show "share_of (shares_bps ?r) TRACK_MEMORY = BASIS_POINT_SCALE"
    by (simp add: default_tracks_def effective_bps_def draws_emission_def PAYING_STATES_def share_or_def track_ids BASIS_POINT_SCALE_def)
qed

definition example_paid :: weight_vector where
  "example_paid = projr (apply_miner_emission_cap [(''bob'', Fin (1 / 2)), (''alice'', Fin (1 / 4))] (Fin (1 / 2)) ''burn'')"

lemma put_loop_accepts: "put_weights_with_retry (\<lambda>_. PutAccepted) = (True, 1, [])"
  by code_simp

lemma plain_epoch:
  assumes "plain_ledger l"
    and vec: "compute_weights example_libm (margin_rules m z) 2 example_shares False None None [alice, bob]
       = Inr [(''bob'', Fin (1 / 2)), (''alice'', Fin (1 / 4))]"
  shows "\<exists>out st'. update_weights example_libm example_hash (\<lambda>_ _ _. True) example_codec (margin_config m z) (ledger_reads l) example_state
     = Inr (out, st', [PutRequest example_paid]) \<and> wo_weights out = example_paid"
proof -
  let ?c = "margin_config m z"
  let ?v = "[(''bob'', Fin (1 / 2)), (''alice'', Fin (1 / 4))]"
  let ?hks = "[''alice'', ''bob'', ''owner'']"
  let ?st = "\<lparr>ws_registered_neurons = Some ?hks, ws_last_burn_hotkey = Some ''burn'',
      ws_last_weights_fold = None, ws_submission_status = ''not_attempted'', ws_relay = initial_relay\<rparr>"
  let ?in = "epoch_inputs ?c (ledger_reads l) l None [alice, bob] (Some ?hks) []"
  let ?r = "default_tracks example_libm [(''memory'', 10000)] (config_settings ?c)"
  note l = assms(1) [unfolded plain_ledger_def]
  have gate: "run_treasury_gate h w ?c (ledger_reads l) l = GateOpen None" for h w
    using l by (simp add: run_treasury_gate_def)
  have prov: "ledger_provisional_incumbent l = None" "ledger_crown_incumbent l = None"
    using l by (simp_all add: ledger_provisional_incumbent_def ledger_crown_incumbent_def)
  have we: "ledger_weight_entries l = [alice, bob]"
    using l prov by (simp add: ledger_weight_entries_def filter_weight_confirmed_def)
  have reg: "registered_ledger_entries (Neurons ?hks) [alice, bob] = Some ([alice, bob], Some ?hks)" by code_simp
  have rules: "params_rules (epoch_params ?c l) = margin_rules m z"
    using l by (simp add: params_rules_def epoch_params_def margin_rules_def margin_config_def example_rules_def
        ledger_ceiling_band_clamp_def ledger_statistical_band_cap_def ledger_crown_gate_def)
  have "memory_fold example_libm ?in = Inr ?v"
    using vec rules l prov by (simp add: memory_fold_def epoch_inputs_def)
      (simp add: epoch_params_def margin_config_def example_config_def ledger_rank_shares_def)
  then have fold: "fold_tracks ?r ?in = Inr (positive_items ?v, Fin 1, if has_positive_weight ?v then Fin 1 else Fin 0)"
    by (rule memory_only_fold [OF example_registry(2) [OF assms(1)] refl example_registry(3) [OF assms(1)]]) (simp add: UNPAID_SHARE_KEY_def)
  have fin: "final_vector h w None ?v (Fin (1 / 2)) (Fin 1) (Fin 1) ''burn'' = Inr example_paid" for h w
  proof -
    have u: "unit64 (Fin (1 / 2))" "in_unit (Fin (1 / 2))" by (simp_all add: unit64I in_unit_def)
    have "\<exists>c. apply_miner_emission_cap ?v (Fin (1 / 2)) ''burn'' = Inr c"
      using u(2) by (simp add: apply_miner_emission_cap_def Let_def)
    then show ?thesis by (auto simp: final_vector_def example_paid_def fmul_one [OF u(1)])
  qed
  have "resolve_miner_emission_share (NFloat (Fin (1 / 2))) (Fin 1) = Inr (Fin (1 / 2))" by code_simp
  then have share: "resolve_miner_emission_share (lr_burn_share l) (vc_miner_emission_share ?c) = Inr (Fin (1 / 2))"
    using l by (simp add: margin_config_def example_config_def del: resolve_miner_emission_share.simps)
  have cfg: "vc_burn_hotkey ?c = Some ''burn''" "vc_min_stake_tao ?c = Fin 0"
    by (simp_all add: margin_config_def example_config_def)
  have rd: "rd_neurons (ledger_reads l) = Neurons ?hks" "rd_ledger (ledger_reads l) = Some l" "rd_generator_ledger (ledger_reads l) = Some []"
    "rd_permit (ledger_reads l) = Some True" "\<not> rd_transport (ledger_reads l)"
    by (simp_all add: ledger_reads_def example_reads_def)
  have hp: "positive_items ?v = ?v" "has_positive_weight ?v" by code_simp+
  have noenf: "enforcing_pin_of l = None" using l by (simp add: enforcing_pin_of_def)
  define champ where "champ = select_champion example_libm (margin_rules m z) None [alice, bob]"
  define st3 where "st3 h f = after_recovery h f ?c (ledger_reads l) ?st" for h f
  have disp: "dispatch_weights example_libm h f ?c (ledger_reads l) l [alice, bob] example_paid ?st
      = Inr (submit_weights h f ?c (ledger_reads l) l champ None (leaderboard_of l) example_paid (st3 h f))" for h f
    using l by (simp add: dispatch_weights_def rules validator_permitted_def stake_sufficient_def rd cfg prov Let_def st3_def champ_def)
  have pay: "pay_epoch example_libm h w f ?c (ledger_reads l) l None [alice, bob] ?v (Fin 1) (Fin 1) ?st
      = dispatch_weights example_libm h f ?c (ledger_reads l) l [alice, bob] example_paid ?st" for h w f
    by (simp add: pay_epoch_def share cfg resolve_burn_hotkey_def fin)
  have fe: "fold_epoch example_libm h w f ?c (ledger_reads l) l None [alice, bob] ?st
      = Inr (submit_weights h f ?c (ledger_reads l) l champ None (leaderboard_of l) example_paid (st3 h f))" for h w f
    using fold hp pay disp by (simp add: fold_epoch_def example_registry(1) [OF assms(1)] rd)
  have put: "put_weights_with_retry (rd_put (ledger_reads l)) = (True, 1, [])"
    using put_loop_accepts by (simp add: ledger_reads_def example_reads_def)
  have relay: "relay_submit h f ?c (ledger_reads l) example_paid l champ None = (None, ''missing_provenance_or_transport'', [])" for h f
    using l by (simp add: relay_submit_def pin_revalidates_def noenf Let_def rd)
  have "update_weights example_libm h w f ?c (ledger_reads l) example_state
      = fold_epoch example_libm h w f ?c (ledger_reads l) l None [alice, bob] ?st" for h w f
    using l by (simp add: update_weights_def rd gate we reg not_collector_def cfg Let_def example_state_def)
  then show ?thesis using fe by (simp add: submit_weights_def relay put noenf Let_def)
qed

lemma margin_example:
  "margin_config (fr_margin example_rules) (fr_dethrone_z example_rules) = example_config"
  "margin_rules (fr_margin example_rules) (fr_dethrone_z example_rules) = example_rules" "ledger_reads example_ledger = example_reads"
  by (simp_all add: margin_config_def margin_rules_def ledger_reads_def example_config_def example_rules_def example_reads_def)

lemma plain_example: "plain_ledger example_ledger"
  by (simp add: plain_ledger_def example_ledger_def)

lemmas example_config_registry =
  example_registry [OF plain_example, where m = "fr_margin example_rules" and z = "fr_dethrone_z example_rules", unfolded margin_example]

lemma example_epoch:
  "\<exists>out st'. update_weights example_libm example_hash (\<lambda>_ _ _. True) example_codec example_config example_reads example_state
     = Inr (out, st', [PutRequest example_paid]) \<and> wo_weights out = example_paid"
  using plain_epoch [OF plain_example, of "fr_margin example_rules" "fr_dethrone_z example_rules"] example_vector
  by (simp only: margin_example)

theorem epoch_fails_closed_witness:
  "\<exists>out st'. update_weights example_libm example_hash (\<lambda>_ _ _. True) example_codec example_config example_reads example_state
     = Inr (out, st', [PutRequest example_paid]) \<and> list_all (\<lambda>q. request_vector q = wo_weights out) [PutRequest example_paid]
     \<and> validator_permitted example_reads"
  using example_epoch epoch_fails_closed by blast

text \<open>C3: An epoch pays only registered accounts. When the router track does not draw emission, every key
  of a vector the epoch sends is a currently registered hotkey, the burn hotkey the epoch resolved, or
  the collector of an enforcing treasury pin; the reserved key of an unpaid incumbent and the empty
  placeholder of an unneeded burn hotkey never appear.\<close>

theorem epoch_pays_registered:
  assumes "update_weights M sha256 verify codec cfg reads st = Inr (out, st', sent)" and "q \<in> set sent"
    and "rd_ledger reads = Some ledger" and "rd_neurons reads = Neurons hotkeys"
    and "\<not> (vc_router_weight_eligible cfg \<and> vc_router_track_state cfg \<in> PAYING_STATES)"
  shows "set (dict_keys (request_vector q)) \<subseteq>
     set hotkeys \<union> set_option (ws_last_burn_hotkey st') \<union> collector_of (enforcing_pin_of ledger)"
proof -
  have ne: "sent \<noteq> []" using assms(2) by auto
  obtain auth registered st1 where u: "run_treasury_gate sha256 verify cfg reads ledger = GateOpen auth"
      "registered_ledger_entries (rd_neurons reads)
         (filter (\<lambda>e. not_collector auth (miner_hotkey e)) (ledger_weight_entries ledger)) = Some (registered, ws_registered_neurons st1)"
      "fold_epoch M sha256 verify codec cfg reads ledger auth registered st1 = Inr (out, st', sent)"
    using update_sent [OF assms(1) ne] assms(3) by (metis option.inject)
  let ?in = "epoch_inputs cfg reads ledger auth registered (ws_registered_neurons st1)
      (case rd_generator_ledger reads of None \<Rightarrow> [] | Some gs \<Rightarrow> gs)"
  obtain registry mw paid alloc where f: "epoch_registry M cfg ledger = Inr registry" "fold_tracks registry ?in = Inr (mw, paid, alloc)"
      "pay_epoch M sha256 verify codec cfg reads ledger auth registered mw paid alloc st1 = Inr (out, st', sent)"
    using fold_sent [OF u(3) ne] by metis
  obtain share burn weights st2 where p: "final_vector sha256 verify auth mw share alloc paid burn = Inr weights"
      "dispatch_weights M sha256 codec cfg reads ledger registered weights st2 = Inr (out, st', sent)"
      "burn = [] \<or> ws_last_burn_hotkey st2 = Some burn"
    using pay_sent [OF f(3) ne] by metis
  obtain champ b lb st3 where sub: "submit_weights sha256 codec cfg reads ledger champ b lb weights st3 = (out, st', sent)"
      and st3: "ws_last_burn_hotkey st3 = ws_last_burn_hotkey st2"
    using dispatch_sent(1) [OF p(2) ne] by blast
  note s = submit_weights_sent [OF sub, unfolded st3]
  obtain sh where r: "registry = default_tracks M sh (config_settings cfg)" "registry_ok registry"
    using f(1) safe_registry_ok unfolding epoch_registry_def build_default_registry_eq by (auto split: if_splits)
  have rn: "ws_registered_neurons st1 = Some hotkeys" "set (map miner_hotkey registered) \<subseteq> set hotkeys"
    using u(2) assms(4) by (auto simp: registered_ledger_entries_def)
  have "set (dict_keys mw) \<subseteq> miner_hotkey ` set (memory_entries ?in) \<union> ge_miner_hotkey ` set (generator_entries ?in)"
    using fold_tracks_keys [of M sh "config_settings cfg" ?in mw paid alloc] f(2) r assms(5)
    by (simp add: config_settings_def del: set_map)
  also have "\<dots> \<subseteq> set hotkeys" using rn by (auto simp: epoch_inputs_def)
  finally have mw: "set (dict_keys mw) \<subseteq> set hotkeys" .
  have "set (dict_keys weights) \<subseteq> set (dict_keys mw) \<union> collector_of (enforcing_pin_of ledger) \<union> ({burn} - {[]})"
    using final_vector_keys [OF p(1)] gate_enforcing [OF u(1)] by simp
  moreover have "{burn} - {[]} \<subseteq> set_option (ws_last_burn_hotkey st')" using p(3) s(5) by auto
  ultimately show ?thesis using mw unfolding s(2) [OF assms(2)] by blast
qed

theorem epoch_pays_registered_witness:
  "\<exists>out st'. update_weights example_libm example_hash (\<lambda>_ _ _. True) example_codec example_config example_reads example_state
     = Inr (out, st', [PutRequest example_paid])
     \<and> set (dict_keys example_paid) \<subseteq> {''alice'', ''bob'', ''owner''} \<union> set_option (ws_last_burn_hotkey st') \<union> {}"
proof -
  obtain out st' where e: "update_weights example_libm example_hash (\<lambda>_ _ _. True) example_codec example_config example_reads example_state
     = Inr (out, st', [PutRequest example_paid])" using example_epoch by blast
  have "collector_of (enforcing_pin_of example_ledger) = {}"
    by (simp add: collector_of_def enforcing_pin_of_def example_ledger_def)
  then have "set (dict_keys example_paid) \<subseteq> {''alice'', ''bob'', ''owner''} \<union> set_option (ws_last_burn_hotkey st') \<union> {}"
    using epoch_pays_registered [OF e, of "PutRequest example_paid" example_ledger "[''alice'', ''bob'', ''owner'']"]
    by (simp add: example_reads_def example_config_def del: set_map)
  with e show ?thesis by blast
qed



text \<open>C31: When the whole pool belongs to the memory track and no incumbent is held unpaid, the track
  pipeline is the plain fold: blending the tracks and capping the blend gives exactly the capped
  weight vector of the memory ledger, whatever the shadow tracks folded.\<close>

theorem memory_only_regression:
  assumes "build_default_registry M shares s = Inr registry"
    and "share_of (shares_bps registry) TRACK_MEMORY = BASIS_POINT_SCALE"
    and "memory_fold M inputs = Inr v" and "UNPAID_SHARE_KEY \<notin> set (dict_keys v)" and "unit64 miner_share"
  shows "\<exists>mw paid alloc. fold_tracks registry inputs = Inr (mw, paid, alloc)
    \<and> final_vector sha256 verify None mw miner_share alloc paid burn_hotkey
        = apply_miner_emission_cap v (if has_positive_weight v then miner_share else Fin 0) burn_hotkey"
proof -
  obtain sh where r: "registry = default_tracks M sh s" "registry_ok registry"
    using assms(1) safe_registry_ok unfolding build_default_registry_eq by (auto split: if_splits)
  from memory_only_fold [OF r(2,1) assms(2-4)] show ?thesis
    using fmul_one [OF assms(5)] fmul_one [of "Fin 0"]
    by (cases "has_positive_weight v") (simp_all add: final_vector_def cap_positive_items)
qed

theorem memory_only_regression_witness:
  "\<exists>mw paid alloc. final_vector example_hash (\<lambda>_ _ _. True) None mw (Fin (1 / 2)) alloc paid ''burn''
     = apply_miner_emission_cap [(''bob'', Fin (1 / 2)), (''alice'', Fin (1 / 4))]
         (if has_positive_weight [(''bob'', Fin (1 / 2)), (''alice'', Fin (1 / 4))] then Fin (1 / 2) else Fin 0) ''burn''"
proof -
  let ?p = "\<lparr>mp_margin = fr_margin example_rules, mp_tail_size = 2, mp_rank_shares = example_shares,
      mp_dethrone_z = fr_dethrone_z example_rules, mp_tie_pooling = False, mp_ceiling_band_clamp = True,
      mp_statistical_band_cap = True, mp_incumbent_agent_id = None, mp_unpaid_agent_id = None, mp_crown_gate = None\<rparr>"
  let ?in = "\<lparr>memory_entries = [alice, bob], memory_params = Some ?p, router_entries = [], router_rank_shares = [],
      generator_entries = [], generator_rank_shares = []\<rparr>"
  have "params_rules ?p = example_rules" by (simp add: params_rules_def example_rules_def)
  then have v: "memory_fold example_libm ?in = Inr [(''bob'', Fin (1 / 2)), (''alice'', Fin (1 / 4))]"
    using example_vector by (simp add: memory_fold_def)
  have "build_default_registry example_libm [(''memory'', 10000)] (config_settings example_config)
      = Inr (default_tracks example_libm [(''memory'', 10000)] (config_settings example_config))"
    by (simp add: build_default_registry_eq example_config_registry(2))
  note use = memory_only_regression [OF this example_config_registry(3) v]
  have "UNPAID_SHARE_KEY \<notin> set (dict_keys [(''bob'', Fin (1 / 2)), (''alice'', Fin (1 / 4))])" "unit64 (Fin (1 / 2))"
    by (simp_all add: UNPAID_SHARE_KEY_def unit64I)
  from use [OF this, of example_hash "\<lambda>_ _ _. True" "''burn''"] show ?thesis by blast
qed




end
