(* ===== verification/Cadence.thy ===== *)
theory Cadence
  imports Binary64
begin

section \<open>When a validator commits weights\<close>

text \<open>
  Models the cadence functions of \<^verbatim>\<open>ditto/validator/worker.py\<close>: the window anchored on the chain's
  epoch boundary, the fallback on the last update, the chain's floor on the cadence and the local
  guard after a submission. A chain read that is not available is \<open>None\<close>. The last part is a step
  relation of one validator on a chain that produces blocks, with the commits it makes.
\<close>

definition BLOCK_SECONDS :: pyfloat where "BLOCK_SECONDS = Fin 12"
definition BOUNDARY_INCLUSION_MARGIN_BLOCKS :: int where "BOUNDARY_INCLUSION_MARGIN_BLOCKS = 6"
definition WEIGHT_COMMIT_OFFSET_BLOCKS :: int where "WEIGHT_COMMIT_OFFSET_BLOCKS = 270"

subsection \<open>The window\<close>

text \<open>The block of the next commit, or \<open>None\<close> when the anchor cannot be used.\<close>

definition anchored_target :: "int option \<Rightarrow> int option \<Rightarrow> int option \<Rightarrow> int \<Rightarrow> int \<Rightarrow> int option" where
  "anchored_target last_epoch_block tempo rate_limit last_update observed_block =
     (case (last_epoch_block, tempo) of
        (Some boundary, Some t) \<Rightarrow>
          if t \<le> 0 \<or> boundary > observed_block then None
          else let offset = WEIGHT_COMMIT_OFFSET_BLOCKS; latest_phase = t - BOUNDARY_INCLUSION_MARGIN_BLOCKS in
            if \<not> (0 \<le> offset \<and> offset < latest_phase) then None
            else let anchor = (if last_update \<ge> boundary \<or> observed_block \<ge> boundary + latest_phase
                               then boundary + t + offset else boundary + offset)
                 in Some (case rate_limit of
                      Some limit \<Rightarrow> if last_update > 0 then max anchor (last_update + limit + 1) else anchor
                    | None \<Rightarrow> anchor)
      | _ \<Rightarrow> None)"

definition seconds_until_anchored_window ::
  "int option \<Rightarrow> int option \<Rightarrow> int option \<Rightarrow> int \<Rightarrow> int \<Rightarrow> pyfloat option" where
  "seconds_until_anchored_window last_epoch_block tempo rate_limit last_update observed_block =
     (case anchored_target last_epoch_block tempo rate_limit last_update observed_block of
        None \<Rightarrow> None
      | Some t \<Rightarrow>
          (let remaining_blocks = t - observed_block in
           if remaining_blocks \<le> 0 then Some (Fin 0) else Some (fmul (fint remaining_blocks) BLOCK_SECONDS)))"

definition fceil :: "pyfloat \<Rightarrow> int" where
  "fceil x = \<lceil>fin_val x\<rceil>"

text \<open>The configured period is finite, so the division and \<^verbatim>\<open>math.ceil\<close> do not raise.\<close>

definition seconds_until_weight_window ::
  "pyfloat \<Rightarrow> int option \<Rightarrow> int option \<Rightarrow> int option \<Rightarrow> int option \<Rightarrow> int option \<Rightarrow> pyfloat" where
  "seconds_until_weight_window epoch_seconds last_epoch_block tempo rate_limit last_update observed_block =
     (case (last_update, observed_block) of
        (Some update, Some head) \<Rightarrow>
          (case seconds_until_anchored_window last_epoch_block tempo rate_limit update head of
             Some anchored \<Rightarrow> anchored
           | None \<Rightarrow>
               (let elapsed_blocks = head - update in
                if elapsed_blocks < 0 then Fin 0
                else let remaining_blocks = fceil (fdiv epoch_seconds BLOCK_SECONDS) - elapsed_blocks in
                  if remaining_blocks \<le> 0 then Fin 0 else fmul (fint (remaining_blocks + 1)) BLOCK_SECONDS))
      | _ \<Rightarrow> Fin 0)"

definition chain_min_epoch_seconds :: "int option \<Rightarrow> int option \<Rightarrow> pyfloat" where
  "chain_min_epoch_seconds rate_limit tempo = (case rate_limit of
     None \<Rightarrow> Fin 0
   | Some limit \<Rightarrow> fmul (fint (max limit (case tempo of None \<Rightarrow> 0 | Some t \<Rightarrow> t))) BLOCK_SECONDS)"

definition local_resubmit_guard_seconds :: "int option \<Rightarrow> int option \<Rightarrow> pyfloat \<Rightarrow> pyfloat" where
  "local_resubmit_guard_seconds anchor rate_limit epoch_seconds = (case (anchor, rate_limit) of
     (Some _, Some limit) \<Rightarrow>
       if limit \<le> 0 then epoch_seconds else pmin epoch_seconds (fmul (fint (limit + 1)) BLOCK_SECONDS)
   | _ \<Rightarrow> epoch_seconds)"

subsection \<open>The window is open exactly from its target on\<close>

lemma block_seconds_positive: "0 < n \<Longrightarrow> fmul (fint n) BLOCK_SECONDS \<noteq> Fin 0"
proof -
  assume "0 < n"
  then have ge: "Fin 1 \<le> fint n" unfolding fint_def by (intro b64.rd_ge) auto
  have "fint n \<noteq> NaN" by (simp add: fint_def)
  with ge consider q where "fint n = Fin q" "1 \<le> q" | "fint n = PInf" by (cases "fint n") auto
  then show ?thesis
  proof cases
    case 1
    then have "Fin 1 \<le> rnd64 (q * 12)" by (intro b64.rd_ge) auto
    with 1 show ?thesis by (auto simp: BLOCK_SECONDS_def float_simps)
  qed (simp add: BLOCK_SECONDS_def fmul_def signed_inf_def)
qed

lemma window_open_iff:
  "seconds_until_anchored_window e t r u h = Some (Fin 0) \<longleftrightarrow> (\<exists>b. anchored_target e t r u h = Some b \<and> b \<le> h)"
  using block_seconds_positive [of "_ - h"]
  by (auto simp: seconds_until_anchored_window_def Let_def split: option.split)

lemma anchored_target_Some:
  "anchored_target (Some e) (Some t) r u h = Some b \<Longrightarrow>
     e \<le> h \<and> 270 < t - 6 \<and> (u \<ge> e \<or> h \<ge> e + t - 6 \<longrightarrow> e + t + 270 \<le> b) \<and> e + 270 \<le> b
     \<and> (\<forall>limit. r = Some limit \<and> 0 < u \<longrightarrow> u + limit + 1 \<le> b)"
  by (auto simp: anchored_target_def Let_def WEIGHT_COMMIT_OFFSET_BLOCKS_def BOUNDARY_INCLUSION_MARGIN_BLOCKS_def
      split: if_splits option.splits)

text \<open>Under an open window the validator has not committed in this epoch, the head is between the
  offset and the margin before the boundary, and the chain's rate limit has passed.\<close>

lemma window_open:
  assumes "seconds_until_anchored_window (Some e) (Some t) r u h = Some (Fin 0)" "h < e + t"
  shows "u < e" "e + 270 \<le> h" "h < e + t - 6" "\<And>limit. r = Some limit \<Longrightarrow> 0 < u \<Longrightarrow> u + limit < h"
proof -
  obtain b where b: "anchored_target (Some e) (Some t) r u h = Some b" "b \<le> h" using assms(1) window_open_iff by blast
  note a = anchored_target_Some [OF b(1)]
  show "u < e" "h < e + t - 6" using a b(2) assms(2) by (cases "u \<ge> e \<or> h \<ge> e + t - 6"; linarith)+
  show "e + 270 \<le> h" using a b(2) by linarith
  show "r = Some limit \<Longrightarrow> 0 < u \<Longrightarrow> u + limit < h" for limit using a b(2) by fastforce
qed

subsection \<open>A validator on a chain\<close>

text \<open>The chain produces blocks and moves its epoch boundary every \<open>tempo\<close> blocks; the validator may
  commit at the head whenever its window is open, which the chain records as its last update.\<close>

record schedule =
  sc_head :: int
  sc_boundary :: int
  sc_last_update :: int
  sc_commits :: "int list"

inductive schedule_step :: "int \<Rightarrow> int option \<Rightarrow> schedule \<Rightarrow> schedule \<Rightarrow> bool" for tempo rate_limit where
  block: "schedule_step tempo rate_limit s
     (s\<lparr>sc_head := sc_head s + 1,
        sc_boundary := (if sc_head s + 1 = sc_boundary s + tempo then sc_head s + 1 else sc_boundary s)\<rparr>)"
| commit: "seconds_until_anchored_window (Some (sc_boundary s)) (Some tempo) rate_limit (sc_last_update s) (sc_head s) = Some (Fin 0) \<Longrightarrow>
     schedule_step tempo rate_limit s (s\<lparr>sc_last_update := sc_head s, sc_commits := sc_head s # sc_commits s\<rparr>)"

inductive reachable_schedule :: "int \<Rightarrow> int option \<Rightarrow> schedule \<Rightarrow> schedule \<Rightarrow> bool" for tempo rate_limit s0 where
  start: "reachable_schedule tempo rate_limit s0 s0"
| step: "reachable_schedule tempo rate_limit s0 s \<Longrightarrow> schedule_step tempo rate_limit s s' \<Longrightarrow>
     reachable_schedule tempo rate_limit s0 s'"

text \<open>The epoch and the phase of a block, counted from a boundary.\<close>

definition epoch_of :: "int \<Rightarrow> int \<Rightarrow> int \<Rightarrow> int" where "epoch_of base tempo b = (b - base) div tempo"
definition phase_of :: "int \<Rightarrow> int \<Rightarrow> int \<Rightarrow> int" where "phase_of base tempo b = (b - base) mod tempo"

definition schedule_ok :: "int \<Rightarrow> int \<Rightarrow> schedule \<Rightarrow> bool" where
  "schedule_ok base tempo s \<longleftrightarrow> sc_boundary s \<le> sc_head s \<and> sc_head s < sc_boundary s + tempo
     \<and> (sc_boundary s - base) mod tempo = 0 \<and> base \<le> sc_boundary s
     \<and> sorted_wrt (>) (map (epoch_of base tempo) (sc_commits s))
     \<and> list_all (\<lambda>c. 270 \<le> phase_of base tempo c \<and> phase_of base tempo c < tempo - 6) (sc_commits s)
     \<and> list_all (\<lambda>c. c \<le> sc_last_update s) (sc_commits s)"

lemma epoch_phase:
  assumes "(e - base) mod tempo = 0" "e \<le> b" "b < e + tempo"
  shows "phase_of base tempo b = b - e" and "epoch_of base tempo b = (e - base) div tempo"
proof -
  have t: "0 < tempo" using assms by linarith
  obtain k where k: "e - base = tempo * k" using assms(1) by (auto simp: mod_eq_0_iff_dvd)
  have b: "b - base = (b - e) + tempo * k" using k by simp
  show "phase_of base tempo b = b - e"
    unfolding phase_of_def b using assms t by simp
  show "epoch_of base tempo b = (e - base) div tempo"
    unfolding epoch_of_def b k using assms t by simp
qed

lemma epoch_of_mono: "0 < tempo \<Longrightarrow> c \<le> u \<Longrightarrow> epoch_of base tempo c \<le> epoch_of base tempo u"
  by (simp add: epoch_of_def zdiv_mono1)

lemma schedule_step_ok:
  assumes "schedule_ok base tempo s" "schedule_step tempo rate_limit s s'" "0 < tempo"
  shows "schedule_ok base tempo s'"
  using assms(2)
proof (cases rule: schedule_step.cases)
  case block
  have "(sc_boundary s + tempo - base) mod tempo = 0"
    using assms(1) by (metis (no_types, opaque_lifting) add_diff_eq mod_add_self2 diff_add_eq schedule_ok_def)
  then show ?thesis
    using assms(1,3) unfolding block by (auto simp: schedule_ok_def)
next
  case commit
  let ?e = "sc_boundary s" and ?h = "sc_head s"
  have ok: "?e \<le> ?h" "?h < ?e + tempo" "(?e - base) mod tempo = 0" using assms(1) by (auto simp: schedule_ok_def)
  note w = window_open [OF commit(2) ok(2)]
  note ep = epoch_phase [OF ok(3) ok(1,2)]
  have "epoch_of base tempo c < epoch_of base tempo ?h" if "c \<in> set (sc_commits s)" for c
  proof -
    have "c < ?e" using that assms(1) w(1) by (auto simp: schedule_ok_def list_all_iff)
    then have "epoch_of base tempo c \<le> epoch_of base tempo (?e - 1)" by (intro epoch_of_mono assms(3)) simp
    also have "\<dots> < (?e - base) div tempo"
    proof -
      obtain k where k: "?e - base = tempo * k" using ok(3) by (auto simp: mod_eq_0_iff_dvd)
      then have e: "?e - 1 - base = (tempo - 1) + tempo * (k - 1)" by (simp add: algebra_simps)
      have "(?e - 1 - base) div tempo = k - 1" unfolding e using assms(3) by simp
      then show ?thesis using k assms(3) by (simp add: epoch_of_def)
    qed
    finally show ?thesis by (simp add: ep(2))
  qed
  moreover have "270 \<le> phase_of base tempo ?h" "phase_of base tempo ?h < tempo - 6" using w ep(1) by auto
  moreover have "c \<le> ?h" if "c \<in> set (sc_commits s)" for c
    using that assms(1) w(1) ok(1) by (fastforce simp: schedule_ok_def list_all_iff)
  ultimately show ?thesis
    using assms(1) unfolding commit(1) by (auto simp: schedule_ok_def list_all_iff)
qed

subsection \<open>Properties\<close>


definition example_schedule :: schedule where
  "example_schedule = \<lparr>sc_head = 1300, sc_boundary = 1000, sc_last_update = 900, sc_commits = []\<rparr>"




end
