(* ===== verification/Diagnostics.thy ===== *)
theory Diagnostics
  imports Relay_Safety Epoch_Safety
begin

section \<open>Diagnostics of the relay\<close>

text \<open>
  Models \<^verbatim>\<open>ditto_screening_protocol/receipt_diagnostics.py\<close>, the observation that the relay reports to the
  platform after a sweep (\<^verbatim>\<open>WeightReceiptRelay.recover\<close>, \<^verbatim>\<open>submit_receipt_diagnostics\<close> of
  \<^verbatim>\<open>ditto/validator/platform.py\<close>). The model refuses anything outside its fixed vocabulary, so that no
  text of a rejected receipt can leave the validator; the theorem says that whatever the relay went
  through, what it reports is within that vocabulary. The times of the observations are arguments.
\<close>

definition COUNTER_MAX :: int where "COUNTER_MAX = 2147483647"

definition in_bounds :: "int \<Rightarrow> int \<Rightarrow> int option \<Rightarrow> bool" where
  "in_bounds low high v \<longleftrightarrow> opt_all (\<lambda>n. low \<le> n \<and> n \<le> high) v"

definition check_failure_context :: "failure_context \<Rightarrow> bool" where
  "check_failure_context c \<longleftrightarrow> in_bounds 1 2 (fc_claimed_schema_version c) \<and> in_bounds 1 2147483647 (fc_task_id c)
     \<and> in_bounds 0 COUNTER_MAX (fc_claimed_epoch_index c) \<and> in_bounds 1 4294967295 (fc_claimed_commit_block c)"

subsection \<open>The pattern of a validation code\<close>

definition lower_word :: "char \<Rightarrow> bool" where
  "lower_word c \<longleftrightarrow> CHR ''a'' \<le> c \<and> c \<le> CHR ''z'' \<or> c = CHR ''_''"

definition location_char :: "char \<Rightarrow> bool" where
  "location_char c \<longleftrightarrow> lower_word c \<or> CHR ''0'' \<le> c \<and> c \<le> CHR ''9'' \<or> c = CHR ''.'' \<or> c = CHR ''*''"

definition run_of :: "(char \<Rightarrow> bool) \<Rightarrow> string \<Rightarrow> bool" where
  "run_of ok s \<longleftrightarrow> s \<noteq> [] \<and> list_all ok s"

definition before_colon :: "string \<Rightarrow> string" where "before_colon = takeWhile (\<lambda>c. c \<noteq> CHR '':'')"
definition from_colon :: "string \<Rightarrow> string" where "from_colon = dropWhile (\<lambda>c. c \<noteq> CHR '':'')"

text \<open>The pattern \<^verbatim>\<open>[a-z0-9_.*]+:[a-z_]+(:[a-z_]+)?\<close> of the whole text, at most 512 characters.\<close>

definition validation_code :: "string \<Rightarrow> bool" where
  "validation_code s \<longleftrightarrow> length s \<le> 512 \<and> run_of location_char (before_colon s) \<and> from_colon s \<noteq> []
     \<and> run_of lower_word (before_colon (tl (from_colon s)))
     \<and> (case from_colon (tl (from_colon s)) of [] \<Rightarrow> True | _ # rule \<Rightarrow> run_of lower_word rule)"

definition check_validation_diagnostic :: "nat \<times> string list \<Rightarrow> bool" where
  "check_validation_diagnostic d \<longleftrightarrow> int (fst d) \<le> COUNTER_MAX \<and> list_all validation_code (snd d) \<and> length (snd d) \<le> 5"

subsection \<open>Observations and reports\<close>

record observation =
  ob_submission_status :: string
  ob_submission_observed_at :: "int option"
  ob_recovery_status :: string
  ob_recovery_observed_at :: "int option"
  ob_page_receipts :: nat
  ob_page_finalized :: nat
  ob_page_forwarded :: nat
  ob_page_deferred :: nat
  ob_conflicts_dropped :: nat
  ob_last_validation :: "(nat \<times> string list) option"
  ob_failure_context :: "failure_context option"

definition SUBMISSION_STATUSES :: "string list" where
  "SUBMISSION_STATUSES = [''not_attempted'', ''missing_provenance_or_transport'', ''invalid_provenance'', ''submitting_pylon'',
     ''unsupported'', ''accepted'', ''uncertain'']"

definition RECOVERY_STATUSES :: "string list" where
  "RECOVERY_STATUSES = [''not_attempted'', ''unsupported'', ''reading_pylon'', ''validating_claim'', ''forwarded'', ''page_complete'',
     ''conflict_dropped'', ''reading_pylon_failed'', ''validating_claim_failed'', ''forwarding_platform_failed'',
     ''acknowledging_pylon_failed'', ''validating_page_failed'']"

definition check_observation :: "observation \<Rightarrow> bool" where
  "check_observation ob \<longleftrightarrow> ob_submission_status ob \<in> set SUBMISSION_STATUSES \<and> opt_all (\<lambda>t. 0 \<le> t) (ob_submission_observed_at ob)
     \<and> ob_recovery_status ob \<in> set RECOVERY_STATUSES \<and> opt_all (\<lambda>t. 0 \<le> t) (ob_recovery_observed_at ob)
     \<and> list_all (\<lambda>n. int n \<le> COUNTER_MAX) [ob_page_receipts ob, ob_page_finalized ob, ob_page_forwarded ob, ob_page_deferred ob,
         ob_conflicts_dropped ob]
     \<and> opt_all check_validation_diagnostic (ob_last_validation ob) \<and> opt_all check_failure_context (ob_failure_context ob)"

record diagnostic_report =
  dr_schema_version :: int
  dr_validator_hotkey :: string
  dr_netuid :: int
  dr_timestamp :: int
  dr_observation :: observation

definition check_report :: "diagnostic_report \<Rightarrow> py_error + unit" where
  "check_report r =
     and_then (require (dr_schema_version r \<in> {1, 2, 3} \<and> 1 \<le> length (dr_validator_hotkey r) \<and> length (dr_validator_hotkey r) \<le> 128
       \<and> is_u16 (dr_netuid r) \<and> 0 \<le> dr_timestamp r \<and> check_observation (dr_observation r)) ''diagnostic field'') (\<lambda>_.
     and_then (require (\<not> (dr_schema_version r = 1 \<and> ob_last_validation (dr_observation r) \<noteq> None))
       ''validation diagnostic requires schema version 2'') (\<lambda>_.
     require (\<not> (dr_schema_version r < 3 \<and> ob_failure_context (dr_observation r) \<noteq> None))
       ''receipt failure context requires schema version 3''))"

text \<open>\<^verbatim>\<open>asdict(self.diagnostics)\<close> and the report that the platform client signs.\<close>

definition observation_of :: "string \<Rightarrow> int option \<Rightarrow> int option \<Rightarrow> relay_state \<Rightarrow> observation" where
  "observation_of submission submitted_at observed_at st = \<lparr>ob_submission_status = submission,
     ob_submission_observed_at = submitted_at, ob_recovery_status = rs_status st, ob_recovery_observed_at = observed_at,
     ob_page_receipts = rs_page_receipts st, ob_page_finalized = rs_page_finalized st, ob_page_forwarded = rs_page_forwarded st,
     ob_page_deferred = rs_page_deferred st, ob_conflicts_dropped = rs_conflicts_dropped st,
     ob_last_validation = rs_last_validation st, ob_failure_context = rs_failure_context st\<rparr>"

definition report_of :: "string \<Rightarrow> int \<Rightarrow> int \<Rightarrow> observation \<Rightarrow> diagnostic_report" where
  "report_of hotkey netuid timestamp ob = \<lparr>dr_schema_version = 3, dr_validator_hotkey = hotkey, dr_netuid = netuid,
     dr_timestamp = timestamp, dr_observation = ob\<rparr>"

subsection \<open>Validation codes are within the vocabulary\<close>

lemma before_colon_split [simp]:
  assumes "list_all (\<lambda>c. c \<noteq> CHR '':'') a"
  shows "before_colon (a @ CHR '':'' # r) = a" "from_colon (a @ CHR '':'' # r) = CHR '':'' # r" "before_colon a = a" "from_colon a = []"
  using assms by (induction a) (auto simp: before_colon_def from_colon_def)

lemma word_no_colon:
  "list_all lower_word s \<Longrightarrow> list_all (\<lambda>c. c \<noteq> CHR '':'') s" "list_all location_char s \<Longrightarrow> list_all (\<lambda>c. c \<noteq> CHR '':'') s"
proof -
  have "\<not> location_char (CHR '':'')" "\<not> lower_word (CHR '':'')" by code_simp+
  then show "list_all lower_word s \<Longrightarrow> list_all (\<lambda>c. c \<noteq> CHR '':'') s" "list_all location_char s \<Longrightarrow> list_all (\<lambda>c. c \<noteq> CHR '':'') s"
    by (auto simp: list_all_iff)
qed

lemma validation_codeI:
  assumes "run_of location_char a" "run_of lower_word k" "rule = [] \<or> (\<exists>w. rule = CHR '':'' # w \<and> run_of lower_word w)"
    and "length a + length k + length rule < 512"
  shows "validation_code (a @ CHR '':'' # k @ rule)"
  using assms word_no_colon unfolding validation_code_def run_of_def by auto

lemma join_public:
  assumes "list_all (\<lambda>p. run_of location_char p \<and> length p \<le> n) parts" "parts \<noteq> []"
  shows "run_of location_char (join_with ''.'' parts)" "length (join_with ''.'' parts) \<le> length parts * (n + 1)"
proof -
  have dot: "location_char (CHR ''.'')" by code_simp
  show "run_of location_char (join_with ''.'' parts)" "length (join_with ''.'' parts) \<le> length parts * (n + 1)"
    using assms by (induction "''.''" parts rule: join_with.induct) (auto simp: run_of_def dot)
qed

lemma public_part_word: "run_of location_char (public_part p) \<and> length (public_part p) \<le> 24"
proof -
  have "list_all (\<lambda>n. run_of location_char n \<and> length n \<le> 24) (''*'' # RECEIPT_DIAGNOSTIC_FIELDS)" by code_simp
  then show ?thesis by (cases p) (auto simp: list_all_iff)
qed

lemma location_word:
  assumes "joined = join_with ''.'' (map public_part (take 8 loc))"
  shows "run_of location_char (if joined = [] then ''root'' else joined) \<and> length (if joined = [] then ''root'' else joined) \<le> 200"
proof -
  let ?parts = "map public_part (take 8 loc)"
  have root: "run_of location_char ''root''" by code_simp
  have all: "list_all (\<lambda>p. run_of location_char p \<and> length p \<le> 24) ?parts"
    using public_part_word by (auto simp: list_all_iff)
  have len: "length ?parts * (24 + 1) \<le> 200" by simp
  show ?thesis
  proof (cases "?parts = []")
    case True
    then have "joined = []" unfolding assms by (simp only: join_with.simps)
    with root show ?thesis by simp
  next
    case False
    have "length (join_with ''.'' ?parts) \<le> 200" using join_public(2) [OF all False] len by (rule order_trans)
    with join_public(1) [OF all False] root show ?thesis unfolding assms by simp
  qed
qed

lemma kind_word: "run_of lower_word (if t \<in> set RECEIPT_ERROR_TYPES then t else ''other'')
   \<and> length (if t \<in> set RECEIPT_ERROR_TYPES then t else ''other'') \<le> 24"
proof -
  have "list_all (\<lambda>n. run_of lower_word n \<and> length n \<le> 24) (''other'' # RECEIPT_ERROR_TYPES)" by code_simp
  then show ?thesis by (auto simp: list_all_iff)
qed

lemma rule_word: "dict_get RECEIPT_VALIDATION_RULES m = Some rule \<Longrightarrow> run_of lower_word rule \<and> length rule \<le> 24"
proof -
  have "list_all (\<lambda>(_, n). run_of lower_word n \<and> length n \<le> 24) RECEIPT_VALIDATION_RULES" by code_simp
  moreover assume "dict_get RECEIPT_VALIDATION_RULES m = Some rule"
  then have "(m, rule) \<in> set RECEIPT_VALIDATION_RULES" by (rule map_of_SomeD)
  ultimately show ?thesis by (auto simp: list_all_iff)
qed

lemma validation_field_code: "validation_code (validation_field e)"
proof -
  let ?joined = "join_with ''.'' (map public_part (take 8 (er_loc e)))"
  have "validation_code ((if ?joined = [] then ''root'' else ?joined) @ CHR '':'' # (if er_type e \<in> set RECEIPT_ERROR_TYPES then er_type e else ''other'')
      @ (case dict_get RECEIPT_VALIDATION_RULES (er_msg e) of None \<Rightarrow> [] | Some rule \<Rightarrow> '':'' @ rule))"
    using location_word [OF refl, of "er_loc e"] kind_word [of "er_type e"] rule_word [of "er_msg e"]
    by (intro validation_codeI) (auto split: option.split)
  then show ?thesis by (simp add: validation_field_def Let_def)
qed

lemma validation_fields_code:
  "errors \<noteq> [] \<Longrightarrow> list_all validation_code (receipt_validation_fields errors) \<and> length (receipt_validation_fields errors) \<le> 5"
  by (cases "map validation_field (take 5 errors)")
    (auto simp: receipt_validation_fields_def list_all_iff validation_field_code dest: arg_cong [of _ _ set] arg_cong [of _ _ length])

lemma failure_context_checked: "check_failure_context (receipt_failure_context e a)"
  by (auto simp: check_failure_context_def receipt_failure_context_def in_bounds_def opt_all_def bounded_int_def COUNTER_MAX_def
      split: py_num.split option.split)

subsection \<open>The sweep keeps the diagnostics within the model\<close>

definition RECOVERY_STAGES :: "string list" where
  "RECOVERY_STAGES = [''reading_pylon'', ''validating_claim'', ''forwarding_platform'', ''acknowledging_pylon'']"

definition publishable :: "relay_state \<Rightarrow> bool" where
  "publishable st \<longleftrightarrow> rs_status st \<in> set RECOVERY_STATUSES \<and> opt_all check_validation_diagnostic (rs_last_validation st)
     \<and> opt_all check_failure_context (rs_failure_context st)"

text \<open>Pydantic reports at least one error with a validation error; their number fits the counter.\<close>

definition attempt_errors_reported :: "hash_fun \<Rightarrow> receipt_codec \<Rightarrow> raw_attempt \<Rightarrow> bool" where
  "attempt_errors_reported sha256 codec a \<longleftrightarrow> (case claim_of sha256 codec a of
     Inl (Invalid errors) \<Rightarrow> errors \<noteq> [] \<and> int (length errors) \<le> COUNTER_MAX | _ \<Rightarrow> True)"

definition envelope_errors_reported :: "hash_fun \<Rightarrow> receipt_codec \<Rightarrow> raw_envelope \<Rightarrow> bool" where
  "envelope_errors_reported sha256 codec e \<longleftrightarrow> opt_all (list_all (opt_all (attempt_errors_reported sha256 codec))) (rw_attempts e)"

definition page_errors_reported :: "hash_fun \<Rightarrow> receipt_codec \<Rightarrow> page_read \<Rightarrow> bool" where
  "page_errors_reported sha256 codec page \<longleftrightarrow> (case page of
     Page receipts _ \<Rightarrow> list_all (opt_all (envelope_errors_reported sha256 codec)) receipts | _ \<Rightarrow> True)"

lemma opt_all_simps [simp]: "opt_all P None" "opt_all P (Some x) = P x"
  by (simp_all add: opt_all_def)

lemma stage_members [simp]:
  "''reading_pylon'' \<in> set RECOVERY_STAGES" "''validating_claim'' \<in> set RECOVERY_STAGES"
  "''forwarding_platform'' \<in> set RECOVERY_STAGES" "''acknowledging_pylon'' \<in> set RECOVERY_STAGES"
  "''not_attempted'' \<in> set RECOVERY_STATUSES" "''unsupported'' \<in> set RECOVERY_STATUSES" "''reading_pylon'' \<in> set RECOVERY_STATUSES"
  "''validating_claim'' \<in> set RECOVERY_STATUSES" "''forwarded'' \<in> set RECOVERY_STATUSES" "''page_complete'' \<in> set RECOVERY_STATUSES"
  "''conflict_dropped'' \<in> set RECOVERY_STATUSES" "''reading_pylon_failed'' \<in> set RECOVERY_STATUSES"
  "''validating_page_failed'' \<in> set RECOVERY_STATUSES"
  by (simp_all add: RECOVERY_STAGES_def RECOVERY_STATUSES_def)

lemma publishable_record [simp]: "publishable (record_event e st) = publishable st"
  by (simp add: publishable_def record_event_def)

lemma publishable_counts [simp]: "publishable (st\<lparr>rs_conflict_counts := c\<rparr>) = publishable st"
  by (simp add: publishable_def)

lemma stages_publishable:
  "stage \<in> set RECOVERY_STAGES \<Longrightarrow> stage @ ''_failed'' \<in> set RECOVERY_STATUSES"
  by (auto simp: RECOVERY_STAGES_def RECOVERY_STATUSES_def)

lemma status_publishable [simp]:
  "publishable (st\<lparr>rs_status := s\<rparr>) \<longleftrightarrow> s \<in> set RECOVERY_STATUSES \<and> opt_all check_validation_diagnostic (rs_last_validation st)
     \<and> opt_all check_failure_context (rs_failure_context st)"
  by (simp add: publishable_def)

lemma forward_claim_publishable:
  assumes "publishable st" "forward_claim sha256 codec env a r st = (st', stage, out)"
  shows "publishable st' \<and> stage \<in> set RECOVERY_STAGES \<and> (\<forall>f t c. out = Raised f t c \<longrightarrow> (\<forall>errors. f \<noteq> Invalid errors))"
  using assms by (auto simp: forward_claim_def Let_def publishable_def record_event_def
      split: report_reply.splits ack_reply.splits if_splits)

lemma run_attempts_publishable:
  assumes "publishable st" "stage \<in> set RECOVERY_STAGES" "list_all (opt_all (attempt_errors_reported sha256 codec)) as"
    "run_attempts sha256 codec hotkey netuid env as stage st = (st', stage', out)"
  shows "publishable st' \<and> stage' \<in> set RECOVERY_STAGES
    \<and> (\<forall>errors t c. out = Raised (Invalid errors) t c \<longrightarrow> errors \<noteq> [] \<and> int (length errors) \<le> COUNTER_MAX)"
  using assms
proof (induction sha256 codec hotkey netuid env as stage st rule: run_attempts.induct)
  case (3 sha256 codec hotkey netuid env a as stage st)
  let ?st = "st\<lparr>rs_status := ''validating_claim'', rs_page_finalized := rs_page_finalized st + 1\<rparr>"
  have i: "publishable ?st" "''validating_claim'' \<in> set RECOVERY_STAGES"
    using 3(3) by (simp_all add: publishable_def)
  have e: "attempt_errors_reported sha256 codec a" "list_all (opt_all (attempt_errors_reported sha256 codec)) as" using 3(5) by simp_all
  show ?case
  proof (cases "ra_status a \<noteq> ''finalized''")
    case True
    with 3 e show ?thesis by simp
  next
    case False
    show ?thesis
    proof (cases "\<exists>r. claim_of sha256 codec a = Inr r \<and> rc_validator_hotkey r = hotkey \<and> rc_netuid r = netuid")
      case True
      then obtain r where r: "claim_of sha256 codec a = Inr r" "rc_validator_hotkey r = hotkey" "rc_netuid r = netuid" by blast
      obtain st2 stage2 out2 where f: "forward_claim sha256 codec env a r ?st = (st2, stage2, out2)" by (metis prod_cases3)
      note j = forward_claim_publishable [OF i(1) f]
      show ?thesis
      proof (cases out2)
        case Finished
        with 3(2) [OF _ refl r(1) _ f [symmetric] refl Finished] 3(6) False r f j e show ?thesis by simp
      qed (use 3(6) False r f j in auto)
    next
      case other: False
      from 3(6) False other i e(1) show ?thesis
        by (auto simp: attempt_errors_reported_def split: sum.splits if_splits)
    qed
  qed
qed (auto simp: publishable_def)

lemma drop_conflict_publishable:
  assumes "publishable st" "drop_conflict env r st = (st', stage', cancelled)"
  shows "publishable st' \<and> stage' \<in> set RECOVERY_STAGES"
proof -
  define st1 where "st1 = st\<lparr>rs_conflict_counts := dict_set (receipt_key r)
      ((case dict_get (rs_conflict_counts st) (receipt_key r) of None \<Rightarrow> 0 | Some n \<Rightarrow> n) + 1) (rs_conflict_counts st)\<rparr>"
  define st3 where "st3 a = record_event (Dropped r a) (st1\<lparr>rs_conflict_counts := AList.delete (receipt_key r) (rs_conflict_counts st1)\<rparr>)" for a
  have p: "publishable st1" "publishable (st3 a)" for a using assms(1) by (simp_all add: st1_def st3_def)
  have "(st', stage') \<in> {(st1, ''forwarding_platform''), (st3 AckTimeout, ''acknowledging_pylon''), (st3 AckRaised, ''acknowledging_pylon''),
      ((st3 AckOk)\<lparr>rs_status := ''conflict_dropped'', rs_conflicts_dropped := rs_conflicts_dropped (st3 AckOk) + 1\<rparr>, ''validating_claim'')}"
    using assms(2) unfolding drop_conflict_def Let_def st1_def [symmetric] st3_def [symmetric]
    by (simp add: st1_def [symmetric] st3_def [symmetric] split: if_splits ack_reply.splits)
  moreover have "publishable ((st3 AckOk)\<lparr>rs_status := ''conflict_dropped'', rs_conflicts_dropped := rs_conflicts_dropped (st3 AckOk) + 1\<rparr>)"
    using p(2) [of AckOk] by (simp add: publishable_def)
  ultimately show ?thesis using p by auto
qed

lemma defer_receipt_publishable:
  assumes "publishable st" "stage \<in> set RECOVERY_STAGES"
    "\<And>errors. f = Invalid errors \<Longrightarrow> errors \<noteq> [] \<and> int (length errors) \<le> COUNTER_MAX"
    "defer_receipt env e stage f attempt claim st = (st', stage', cancelled)"
  shows "publishable st' \<and> stage' \<in> set RECOVERY_STAGES"
proof -
  define st2 where "st2 = (let st1 = st\<lparr>rs_status := stage @ ''_failed'', rs_page_deferred := rs_page_deferred st + 1\<rparr> in
      case (f, attempt) of
        (Invalid errors, Some a) \<Rightarrow> if stage = ''validating_claim''
           then st1\<lparr>rs_last_validation := Some (length errors, receipt_validation_fields errors),
                    rs_failure_context := Some (receipt_failure_context e a)\<rparr> else st1
      | _ \<Rightarrow> st1)"
  have "publishable (st\<lparr>rs_status := stage @ ''_failed'', rs_page_deferred := rs_page_deferred st + 1\<rparr>)"
    using assms(1) stages_publishable [OF assms(2)] by (simp add: publishable_def)
  then have i: "publishable st2"
    using assms(3) validation_fields_code failure_context_checked
    by (auto simp: st2_def Let_def publishable_def opt_all_def check_validation_diagnostic_def split: failure.split option.split)
  have "(\<exists>r. drop_conflict env r st2 = (st', stage', cancelled)) \<or> st' = st2 \<and> stage' = stage"
    using assms(4) by (auto simp: defer_receipt_def Let_def st2_def split: failure.splits option.splits if_splits)
  then show ?thesis using i assms(2) drop_conflict_publishable by blast
qed

lemma run_envelopes_publishable:
  assumes "publishable st" "stage \<in> set RECOVERY_STAGES" "opt_all (\<lambda>d. d \<in> set RECOVERY_STATUSES) deferred"
    "list_all (opt_all (envelope_errors_reported sha256 codec)) es"
    "run_envelopes sha256 codec hotkey netuid env es stage deferred st = (st', stage', deferred', cancelled)"
  shows "publishable st' \<and> stage' \<in> set RECOVERY_STAGES \<and> opt_all (\<lambda>d. d \<in> set RECOVERY_STATUSES) deferred'"
  using assms
proof (induction sha256 codec hotkey netuid env es stage deferred st rule: run_envelopes.induct)
  case (3 sha256 codec hotkey netuid env e es stage deferred st)
  show ?case
  proof (cases "rw_acknowledged e")
    case True
    with 3 show ?thesis by simp
  next
    case False
    have v: "''validating_claim'' \<in> set RECOVERY_STAGES" by (simp add: RECOVERY_STAGES_def)
    obtain st1 stage1 out where r: "(case rw_attempts e of
         None \<Rightarrow> (st, ''validating_claim'', Raised OtherFailure None None)
       | Some as \<Rightarrow> run_attempts sha256 codec hotkey netuid env as ''validating_claim'' st) = (st1, stage1, out)"
      by (metis prod_cases3)
    have i: "publishable st1 \<and> stage1 \<in> set RECOVERY_STAGES
        \<and> (\<forall>errors t c. out = Raised (Invalid errors) t c \<longrightarrow> errors \<noteq> [] \<and> int (length errors) \<le> COUNTER_MAX)"
    proof (cases "rw_attempts e")
      case None
      with r 3(4) v show ?thesis by auto
    next
      case (Some as)
      with 3(7) have "list_all (opt_all (attempt_errors_reported sha256 codec)) as" by (simp add: envelope_errors_reported_def)
      with Some r show ?thesis using run_attempts_publishable [OF 3(4) v] by simp
    qed
    show ?thesis
    proof (cases out)
      case Finished
      with 3 False r i show ?thesis by simp
    next
      case (Raised f attempt claim)
      obtain st2 stage2 c where d: "defer_receipt env e stage1 f attempt claim st1 = (st2, stage2, c)" by (metis prod_cases3)
      have "publishable st2 \<and> stage2 \<in> set RECOVERY_STAGES" using defer_receipt_publishable [OF _ _ _ d] i Raised by blast
      moreover have "opt_all (\<lambda>d. d \<in> set RECOVERY_STATUSES) (Some (stage1 @ ''_failed''))"
        using i stages_publishable by (simp add: opt_all_def)
      ultimately show ?thesis using 3(3) [OF False r [symmetric] refl Raised d [symmetric] refl] 3(7,8) False r d Raised
        by (cases c) (simp_all, force)
    next
      case Cancelled
      with 3(6,8) False r i show ?thesis by simp
    qed
  qed
qed auto

lemma recover_sweep_publishable:
  assumes "page_errors_reported sha256 codec (rl_page env (rs_cursor st0))"
  shows "publishable (recover_sweep sha256 codec hotkey netuid env st0)"
proof -
  let ?st = "st0\<lparr>rs_last_validation := None, rs_failure_context := None, rs_status := ''reading_pylon'', rs_page_receipts := 0,
      rs_page_finalized := 0, rs_page_forwarded := 0, rs_page_deferred := 0\<rparr>"
  show ?thesis
  proof (cases "rl_supported env \<and> (\<exists>receipts n. rl_page env (rs_cursor st0) = Page receipts n)")
    case True
    then obtain receipts n where p: "rl_supported env" "rl_page env (rs_cursor st0) = Page receipts n" by blast
    obtain st1 stage deferred c where r: "run_envelopes sha256 codec hotkey netuid env receipts ''reading_pylon'' None
        (?st\<lparr>rs_page_receipts := length receipts\<rparr>) = (st1, stage, deferred, c)" by (metis prod_cases4)
    have "publishable st1 \<and> stage \<in> set RECOVERY_STAGES \<and> opt_all (\<lambda>d. d \<in> set RECOVERY_STATUSES) deferred"
      by (rule run_envelopes_publishable [OF _ _ _ _ r])
        (use assms p(2) in \<open>simp_all add: publishable_def opt_all_def RECOVERY_STATUSES_def RECOVERY_STAGES_def page_errors_reported_def\<close>)
    moreover have "''validating_page_failed'' \<in> set RECOVERY_STATUSES" "''page_complete'' \<in> set RECOVERY_STATUSES"
      by (simp_all add: RECOVERY_STATUSES_def)
    ultimately show ?thesis
      using p r stages_publishable by (auto simp: recover_sweep_def Let_def publishable_def opt_all_def split: next_cursor.split option.split)
  next
    case False
    then show ?thesis
      by (auto simp: recover_sweep_def Let_def publishable_def opt_all_def RECOVERY_STATUSES_def split: page_read.split)
  qed
qed

lemma relay_submit_status: "relay_submit sha256 codec cfg reads weights ledger champ b = (answer, status, rs) \<Longrightarrow> status \<in> set SUBMISSION_STATUSES"
  by (auto simp: relay_submit_def Let_def SUBMISSION_STATUSES_def elim!: relay_answer.elims split: if_splits sum.splits prod.splits)

lemma recover_publishable:
  "publishable st \<Longrightarrow> page_errors_reported sha256 codec (rl_page env (rs_cursor st))
     \<Longrightarrow> publishable (recover sha256 codec hotkey netuid locked env st)"
  using recover_sweep_publishable by (simp add: recover_def)

definition after_sweeps :: "hash_fun \<Rightarrow> receipt_codec \<Rightarrow> string \<Rightarrow> int \<Rightarrow> (bool \<times> relay_env) list \<Rightarrow> relay_state" where
  "after_sweeps sha256 codec hotkey netuid steps =
     foldl (\<lambda>st (locked, env). recover sha256 codec hotkey netuid locked env st) initial_relay steps"

lemma after_sweeps_publishable:
  assumes "list_all (\<lambda>(locked, env). \<forall>c. page_errors_reported sha256 codec (rl_page env c)) steps"
  shows "publishable (after_sweeps sha256 codec hotkey netuid steps)"
  using assms
proof (induction steps rule: rev_induct)
  case Nil
  show ?case by (simp add: after_sweeps_def initial_relay_def publishable_def RECOVERY_STATUSES_def)
next
  case (snoc step steps)
  then show ?case by (cases step) (simp add: after_sweeps_def recover_publishable)
qed


definition rejected_page :: "raw_envelope option list" where
  "rejected_page = [Some \<lparr>rw_acknowledged = False, rw_schema_version = NInt 1, rw_task_id = NInt 0, rw_epoch_index = NOther,
     rw_attempts = Some [Some \<lparr>ra_status = ''finalized'', ra_commit_block = NInt 100, ra_attempt_id = Some (''not a uuid'', None),
       ra_parsed = None, ra_errors = [\<lparr>er_loc = [Name ''weights'', Name ''5Secret''], er_type = ''custom'', er_msg = ''private''\<rparr>]\<rparr>]\<rparr>]"


end
