(* ===== verification/Ledger_Pin.thy ===== *)
theory Ledger_Pin
  imports Koth_Mirror Epoch
begin

section \<open>The epoch pin of the ledger\<close>

text \<open>
  Models the pure half of \<^verbatim>\<open>apps/platform/ditto/api_server/ledger_pin.py\<close>: the ledger that the
  platform freezes once per chain epoch (\<open>build_pin_draft\<close>) and replays to every validator
  (\<open>response_from_pin\<close>), with the reading of the frozen markers. The JSON text that is hashed into the ledger
  digest is an argument \<open>encode\<close>. Stored rows are typed: an entry is a validated ledger row, and a marker that the code inspects
  is a raw number, where \<open>NOther\<close> stands for a value that is missing or that \<^verbatim>\<open>float\<close> refuses. The reading of a
  response is that of \<open>Epoch\<close>; what the response carries for telemetry and planning only (counts, times, the cohort size, the
  eligibility marker, the seed anchors) is not part of it. Times are microseconds.
\<close>

subsection \<open>The stored pin\<close>

record served_context =
  sv_v9_confirmation_mode :: "string option"
  sv_reward_eligibility_mode :: "string option"
  sv_tie_weighting_mode :: "string option"
  sv_dethrone_band_mode :: "string option"
  sv_statistical_band_mode :: "string option"
  sv_crown_mode :: "string option"
  sv_burn_share :: pyfloat
  sv_continual_retest_cohort_size :: int
  sv_crown_gate :: "served_crown_gate option"
  sv_rank_shares :: "py_num list option"
  sv_track_shares_bps :: "(py_key \<times> py_num) list option"
  sv_treasury_pin :: "treasury_pin option"
  sv_provisional_incumbent :: "ledger_entry option"

record pin_row =
  pr_snapshot_id :: nat
  pr_netuid :: int
  pr_epoch_index :: int
  pr_last_epoch_block :: int
  pr_pinned_block :: int
  pr_pinned_block_hash :: string
  pr_pinned_at :: int
  pr_bench_version :: int
  pr_entries :: "ledger_entry list"
  pr_served :: served_context
  pr_ledger_digest :: string
  pr_champion_agent_id :: "nat option"
  pr_champion_owner_root :: "string option"
  pr_incumbent_agent_id :: "nat option"

type_synonym pin_encoder = "ledger_entry list \<Rightarrow> served_context \<Rightarrow> bytes"

definition pin_ledger_digest :: "hash_fun \<Rightarrow> pin_encoder \<Rightarrow> ledger_entry list \<Rightarrow> served_context \<Rightarrow> string" where
  "pin_ledger_digest sha256 encode es served = hex_of (sha256 (encode es served))"

subsection \<open>Reading the frozen markers\<close>

definition served_rank_shares :: "served_context \<Rightarrow> py_error + pyfloat list option" where
  "served_rank_shares served = (case sv_rank_shares served of
     None \<Rightarrow> Inr None
   | Some raw \<Rightarrow>
       if length raw \<noteq> 5 then Inr None
       else (case collect num_float raw of
          Inl err \<Rightarrow> if err = TypeError \<or> value_error err then Inr None else Inl err
        | Inr shares \<Rightarrow>
            if list_ex (\<lambda>s. \<not> isfinite s \<or> fle s (Fin 0)) shares then Inr None
            else if \<not> isclose_abs (py_sum shares) (Fin 1) RECEIPT_TOLERANCE then Inr None
            else Inr (Some shares)))"

definition pin_crown_gate :: "served_context \<Rightarrow> crown_gate option" where
  "pin_crown_gate served = (case sv_crown_gate served of
     None \<Rightarrow> None
   | Some raw \<Rightarrow> (case (sg_min_dethrone_confirmations raw, sg_champion_standing_rank raw) of
        (NInt min_seeds, NInt standing) \<Rightarrow>
          if \<not> (2 \<le> min_seeds \<and> min_seeds \<le> int CONFIRMATION_SEED_CEILING) \<or> \<not> (1 \<le> standing \<and> standing \<le> 5) then None
          else Some \<lparr>min_shared_seeds = min_seeds, standing_rank = standing,
            duel_window = (case sg_duel_window_pairs raw of
               NInt window \<Rightarrow> if 2 \<le> window \<and> window \<le> int CONFIRMATION_SEED_CEILING then Some window else None
             | _ \<Rightarrow> None)\<rparr>
      | _ \<Rightarrow> None))"

fun served_track_loop :: "(py_key \<times> py_num) list \<Rightarrow> (string, int) dict \<Rightarrow> (string, int) dict option" where
  "served_track_loop [] shares = Some shares"
| "served_track_loop ((k, v) # rest) shares = (case (k, v) of
     (KStr track, NInt bps) \<Rightarrow> if track = [] \<or> \<not> (0 \<le> bps \<and> bps \<le> 10000) then None
       else served_track_loop rest (dict_set track bps shares)
   | _ \<Rightarrow> None)"

definition served_track_shares :: "served_context \<Rightarrow> (string, int) dict" where
  "served_track_shares served = (case sv_track_shares_bps served of
     None \<Rightarrow> []
   | Some raw \<Rightarrow> (case served_track_loop raw [] of
        None \<Rightarrow> []
      | Some shares \<Rightarrow>
          if sum_list (dict_values shares) > 10000 then []
          else if dict_get shares ''memory'' = None \<and> list_ex (\<lambda>bps. bps > 0) (dict_values shares) then []
          else shares))"

definition pin_generator_fraction :: "served_context \<Rightarrow> pyfloat" where
  "pin_generator_fraction served =
     (let shares = served_track_shares served;
          generator = (case dict_get shares ''generator'' of None \<Rightarrow> 0 | Some b \<Rightarrow> b);
          memory = (case dict_get shares ''memory'' of None \<Rightarrow> 10000 | Some b \<Rightarrow> b)
      in if generator \<le> 0 \<or> generator + memory \<le> 0 then Fin 0 else itruediv generator (generator + memory))"

definition pin_provisional_incumbent :: "served_context \<Rightarrow> ledger_entry option" where
  "pin_provisional_incumbent served =
     (if sv_crown_mode served \<noteq> Some ''incumbent'' then None else sv_provisional_incumbent served)"

subsection \<open>The treasury evidence of a pin\<close>

definition validated_treasury_pin ::
  "hash_fun \<Rightarrow> treasury_pin \<Rightarrow> int \<Rightarrow> int \<Rightarrow> int \<Rightarrow> int \<Rightarrow> string \<Rightarrow> py_error + treasury_pin" where
  "validated_treasury_pin sha256 raw netuid epoch_index first_block pinned_block pinned_block_hash = (case raw of
     EnforcePin t \<Rightarrow>
       and_then (check_pin sha256 t) (\<lambda>_.
       and_then (require (ep_netuid (xp_policy t) = netuid \<and> xp_epoch_index t = epoch_index \<and> xp_first_block t = first_block
         \<and> xp_pinned_block t = pinned_block \<and> xp_pinned_block_hash t = pinned_block_hash)
           ''enforcing treasury differs from immutable epoch'') (\<lambda>_. Inr raw))
   | ShadowPin t \<Rightarrow>
       and_then (check_ledger_pin sha256 t) (\<lambda>_.
       and_then (require_epoch t netuid first_block pinned_block) (\<lambda>_.
       and_then (require (\<not> (ci_finalized_block (lp_identity t) = pinned_block
           \<and> ci_finalized_block_hash (lp_identity t) \<noteq> pinned_block_hash))
           ''treasury identity block hash differs from ledger pin'') (\<lambda>_. Inr raw))))"

definition treasury_pin_from_context :: "hash_fun \<Rightarrow> pin_encoder \<Rightarrow> pin_row \<Rightarrow> py_error + treasury_pin option" where
  "treasury_pin_from_context sha256 encode pin = (case sv_treasury_pin (pr_served pin) of
     None \<Rightarrow> Inr None
   | Some raw \<Rightarrow>
       and_then (validated_treasury_pin sha256 raw (pr_netuid pin) (pr_epoch_index pin) (pr_last_epoch_block pin)
         (pr_pinned_block pin) (pr_pinned_block_hash pin)) (\<lambda>treasury.
       and_then (require (pin_ledger_digest sha256 encode (pr_entries pin) (pr_served pin) = pr_ledger_digest pin)
         ''treasury ledger digest mismatch'') (\<lambda>_. Inr (Some treasury))))"

subsection \<open>Replaying a pin\<close>

definition pin_gate_marker :: "crown_gate option \<Rightarrow> served_crown_gate option" where
  "pin_gate_marker gate = map_option (\<lambda>g. \<lparr>sg_min_dethrone_confirmations = NInt (min_shared_seeds g),
     sg_champion_standing_rank = NInt (standing_rank g),
     sg_duel_window_pairs = (case duel_window g of None \<Rightarrow> NOther | Some w \<Rightarrow> NInt w)\<rparr>) gate"

text \<open>\<^verbatim>\<open>max(0, int((now - pinned_at).total_seconds()))\<close>.\<close>

definition pin_age :: "int \<Rightarrow> int \<Rightarrow> int" where
  "pin_age pinned_at now = max 0 \<lfloor>fin_val (itruediv (max 0 (now - pinned_at)) 1000000)\<rfloor>"

text \<open>The literal types and ranges of the response's fields.\<close>

definition response_fields_ok :: "pin_row \<Rightarrow> bool" where
  "response_fields_ok pin \<longleftrightarrow> (let served = pr_served pin in
     sv_v9_confirmation_mode served \<in> {None, Some ''enforce''} \<and> sv_reward_eligibility_mode served \<in> {None, Some ''enforce''}
     \<and> sv_tie_weighting_mode served \<in> {None, Some ''pool''} \<and> sv_dethrone_band_mode served \<in> {None, Some ''headroom_capped''}
     \<and> sv_statistical_band_mode served \<in> {None, Some ''capped''} \<and> sv_crown_mode served \<in> {None, Some ''incumbent''}
     \<and> fle (Fin 0) (sv_burn_share served) \<and> fle (sv_burn_share served) (Fin 1) \<and> 5 \<le> sv_continual_retest_cohort_size served
     \<and> 0 \<le> pr_epoch_index pin \<and> 0 \<le> pr_pinned_block pin \<and> is_digest (pr_ledger_digest pin))"

definition response_from_pin :: "hash_fun \<Rightarrow> pin_encoder \<Rightarrow> bool \<Rightarrow> int \<Rightarrow> pin_row \<Rightarrow> py_error + ledger_response" where
  "response_from_pin sha256 encode stale now pin = (let served = pr_served pin in
     and_then (treasury_pin_from_context sha256 encode pin) (\<lambda>treasury.
     and_then (served_rank_shares served) (\<lambda>shares.
     and_then (require (response_fields_ok pin) ''ledger response field'') (\<lambda>_.
     Inr \<lparr>lr_treasury_pin = treasury, lr_entries = pr_entries pin, lr_active_bench_version = Some (pr_bench_version pin),
       lr_v9_confirmation_mode = sv_v9_confirmation_mode served, lr_tie_weighting_mode = sv_tie_weighting_mode served,
       lr_dethrone_band_mode = sv_dethrone_band_mode served, lr_statistical_band_mode = sv_statistical_band_mode served,
       lr_crown_mode = sv_crown_mode served,
       lr_crown_incumbent_agent_id = (if sv_crown_mode served = Some ''incumbent'' then pr_incumbent_agent_id pin else None),
       lr_provisional_incumbent = pin_provisional_incumbent served,
       lr_crown_gate = pin_gate_marker (pin_crown_gate served), lr_rank_shares = shares,
       lr_track_shares_bps = Some (map (\<lambda>(t, b). (KStr t, NInt b)) (served_track_shares served)),
       lr_burn_share = NFloat (sv_burn_share served), lr_stale = stale, lr_age_seconds = NInt (pin_age (pr_pinned_at pin) now),
       lr_epoch_index = Some (pr_epoch_index pin), lr_pinned_block = Some (pr_pinned_block pin),
       lr_ledger_snapshot_id = Some (pr_snapshot_id pin), lr_ledger_digest = Some (pr_ledger_digest pin)\<rparr>))))"

subsection \<open>Freezing a snapshot\<close>

record epoch_schedule =
  es_netuid :: int
  es_subnet_epoch_index :: int
  es_last_epoch_block :: int
  es_block :: int
  es_block_hash :: string

record ledger_snapshot =
  sn_entries :: "ledger_entry list"
  sn_withheld_entries :: "ledger_entry list"
  sn_owner_roots :: "(nat, string) dict"
  sn_active_bench_version :: int
  sn_v9_confirmation_mode :: "string option"
  sn_tie_weighting_mode :: "string option"
  sn_dethrone_band_mode :: "string option"
  sn_statistical_band_mode :: "string option"
  sn_reward_eligibility_mode :: "string option"
  sn_crown_mode :: "string option"
  sn_burn_share :: pyfloat
  sn_continual_retest_cohort_size :: int
  sn_crown_gate :: "crown_gate option"
  sn_rank_shares :: "pyfloat list option"
  sn_track_shares_bps :: "(string, int) dict"
  sn_treasury_pin :: "treasury_pin option"

definition owned_by :: "ledger_snapshot \<Rightarrow> string \<Rightarrow> ledger_entry \<Rightarrow> bool" where
  "owned_by snapshot owner e \<longleftrightarrow> dict_get (sn_owner_roots snapshot) (agent_id e) = Some owner"

text \<open>The previous champion, resolved through its owner, or by its agent in a pin without owners.\<close>

definition draft_incumbent :: "ledger_snapshot \<Rightarrow> string option \<Rightarrow> nat option \<Rightarrow> nat option" where
  "draft_incumbent snapshot previous_owner_root previous_champion = (case previous_owner_root of
     Some owner \<Rightarrow> map_option agent_id (find (owned_by snapshot owner) (sn_entries snapshot))
   | None \<Rightarrow> (case previous_champion of
       None \<Rightarrow> None
     | Some c \<Rightarrow> map_option agent_id (find (\<lambda>e. agent_id e = c) (sn_entries snapshot))))"

definition draft_provisional :: "ledger_snapshot \<Rightarrow> string option \<Rightarrow> nat option \<Rightarrow> ledger_entry option" where
  "draft_provisional snapshot previous_owner_root incumbent = (case previous_owner_root of
     None \<Rightarrow> None
   | Some owner \<Rightarrow>
       if incumbent = None \<and> sn_crown_mode snapshot = Some ''incumbent'' \<and> sn_reward_eligibility_mode snapshot = Some ''enforce''
       then find (owned_by snapshot owner) (sn_withheld_entries snapshot) else None)"

definition draft_served :: "ledger_snapshot \<Rightarrow> treasury_pin option \<Rightarrow> ledger_entry option \<Rightarrow> served_context" where
  "draft_served snapshot treasury provisional = \<lparr>sv_v9_confirmation_mode = sn_v9_confirmation_mode snapshot,
     sv_reward_eligibility_mode = sn_reward_eligibility_mode snapshot,
     sv_tie_weighting_mode = sn_tie_weighting_mode snapshot, sv_dethrone_band_mode = sn_dethrone_band_mode snapshot,
     sv_statistical_band_mode = (if sn_statistical_band_mode snapshot = Some ''capped'' then Some ''capped'' else None),
     sv_crown_mode = sn_crown_mode snapshot, sv_burn_share = sn_burn_share snapshot,
     sv_continual_retest_cohort_size = sn_continual_retest_cohort_size snapshot,
     sv_crown_gate = pin_gate_marker (sn_crown_gate snapshot),
     sv_rank_shares = map_option (map NFloat) (sn_rank_shares snapshot),
     sv_track_shares_bps = (if sn_track_shares_bps snapshot = [] then None
        else Some (map (\<lambda>(t, b). (KStr t, NInt b)) (sn_track_shares_bps snapshot))),
     sv_treasury_pin = treasury, sv_provisional_incumbent = provisional\<rparr>"

text \<open>The row is complete but for its identifier, which the insert draws.\<close>

definition build_pin_draft ::
  "libm \<Rightarrow> hash_fun \<Rightarrow> pin_encoder \<Rightarrow> epoch_schedule \<Rightarrow> ledger_snapshot \<Rightarrow> pin_row option \<Rightarrow> int \<Rightarrow> py_error + (nat \<Rightarrow> pin_row)" where
  "build_pin_draft M sha256 encode schedule snapshot previous now =
     and_then (case sn_treasury_pin snapshot of
         None \<Rightarrow> Inr None
       | Some raw \<Rightarrow> and_then (validated_treasury_pin sha256 raw (es_netuid schedule) (es_subnet_epoch_index schedule)
           (es_last_epoch_block schedule) (es_block schedule) (es_block_hash schedule)) (\<lambda>t. Inr (Some t))) (\<lambda>treasury.
     (let previous_owner_root = Option.bind previous pr_champion_owner_root;
          incumbent = draft_incumbent snapshot previous_owner_root (Option.bind previous pr_champion_agent_id);
          provisional = draft_provisional snapshot previous_owner_root incumbent;
          incumbent' = (case provisional of None \<Rightarrow> incumbent | Some p \<Rightarrow> Some (agent_id p));
          served = draft_served snapshot treasury provisional;
          projection = project_koth M (sn_dethrone_band_mode snapshot = Some ''headroom_capped'')
            (sn_statistical_band_mode snapshot = Some ''capped'') (sn_crown_gate snapshot)
            (sn_tie_weighting_mode snapshot = Some ''pool'')
            (if sn_crown_mode snapshot = Some ''incumbent'' then incumbent' else None)
            (koth_entries_from_ledger (sn_entries snapshot @ (case provisional of None \<Rightarrow> [] | Some p \<Rightarrow> [p])));
          champion_id = map_option (\<lambda>p. ke_agent_id (kp_champion p)) projection
      in Inr (\<lambda>snapshot_id. \<lparr>pr_snapshot_id = snapshot_id, pr_netuid = es_netuid schedule,
           pr_epoch_index = es_subnet_epoch_index schedule, pr_last_epoch_block = es_last_epoch_block schedule,
           pr_pinned_block = es_block schedule, pr_pinned_block_hash = es_block_hash schedule, pr_pinned_at = now,
           pr_bench_version = sn_active_bench_version snapshot, pr_entries = sn_entries snapshot, pr_served = served,
           pr_ledger_digest = pin_ledger_digest sha256 encode (sn_entries snapshot) served, pr_champion_agent_id = champion_id,
           pr_champion_owner_root = Option.bind champion_id (dict_get (sn_owner_roots snapshot)),
           pr_incumbent_agent_id = incumbent'\<rparr>)))"

end
