(* ===== verification/Pin_Replay.thy ===== *)
theory Pin_Replay
  imports Ledger_Pin Epoch_Safety
begin

section \<open>What a validator reads from a pin\<close>

text \<open>
  The platform reads the markers of a pin in its own code and serves them to validators, which read
  them again in theirs. The lemmas show that the two readings agree for every stored pin, and the theorems follow
  the crown around the loop: the champion the platform stores with a pin is the one every validator
  reports after folding the response.
\<close>

subsection \<open>The two readings agree\<close>

lemma pin_gate_served: "pin_crown_gate served = Some g \<Longrightarrow> served_gate g"
  by (auto simp: pin_crown_gate_def served_gate_def CONFIRMATION_SEED_CEILING_def opt_all_def
      split: option.splits py_num.splits if_splits)

lemma marker_read:
  assumes "lr_crown_gate ledger = pin_gate_marker gate" "opt_all served_gate gate"
  shows "ledger_crown_gate ledger = gate"
proof (cases gate)
  case (Some g)
  then have "served_gate g" using assms(2) by (simp add: opt_all_def)
  moreover obtain a b w where "g = \<lparr>min_shared_seeds = a, standing_rank = b, duel_window = w\<rparr>" by (cases g)
  ultimately show ?thesis using Some assms(1)
    by (cases w) (simp_all add: ledger_crown_gate_def pin_gate_marker_def served_gate_def opt_all_def TOP5_MAX_CONFIRMATION_SEEDS_def)
qed (use assms in \<open>simp add: ledger_crown_gate_def pin_gate_marker_def\<close>)

lemma gate_marker_read:
  assumes "lr_crown_gate ledger = pin_gate_marker (pin_crown_gate served)"
  shows "ledger_crown_gate ledger = pin_crown_gate served"
  by (rule marker_read [OF assms]) (auto simp: opt_all_def pin_gate_served split: option.split)

lemma pin_gate_marker_read:
  assumes "opt_all served_gate gate" "sv_crown_gate served = pin_gate_marker gate"
  shows "pin_crown_gate served = gate"
proof -
  have c: "CONFIRMATION_SEED_CEILING = TOP5_MAX_CONFIRMATION_SEEDS"
    by (simp add: CONFIRMATION_SEED_CEILING_def TOP5_MAX_CONFIRMATION_SEEDS_def)
  show ?thesis
    using marker_read [of "undefined\<lparr>lr_crown_gate := pin_gate_marker gate\<rparr>" gate] assms
    unfolding pin_crown_gate_def ledger_crown_gate_def c by simp
qed

lemma rank_shares_read:
  assumes "served_rank_shares served = Inr shares" "lr_rank_shares ledger = shares" "length legacy = 5"
  shows "ledger_rank_shares ledger legacy = (case shares of None \<Rightarrow> legacy | Some s \<Rightarrow> s)"
proof (cases shares)
  case (Some s)
  then obtain raw where r: "sv_rank_shares served = Some raw" "length raw = 5" "collect num_float raw = Inr s"
      "\<not> list_ex (\<lambda>s. \<not> isfinite s \<or> fle s (Fin 0)) s" "isclose_abs (py_sum s) (Fin 1) RECEIPT_TOLERANCE"
    using assms(1) by (auto simp: served_rank_shares_def split: option.splits if_splits sum.splits)
  then have "length s = 5" using list_all2_lengthD by (fastforce simp: collect_Inr)
  then have n: "length s = length legacy" "s \<noteq> []" using assms(3) by auto
  have "feq (py_sum s) (Fin 1) \<or> (isfinite (py_sum s) \<and> fle (fabs (fsub (Fin 1) (py_sum s))) (rnd64 (1 / 10 ^ 12)))"
    using r(5) by (simp only: isclose_abs_def RECEIPT_TOLERANCE_def) blast
  then show ?thesis using Some assms(2) r(4) n unfolding ledger_rank_shares_def Let_def by auto
qed (use assms in \<open>simp add: ledger_rank_shares_def\<close>)

text \<open>A decoded track map is a dictionary of valid shares, and decoding it again changes nothing.\<close>

definition track_map :: "(string, int) dict \<Rightarrow> bool" where
  "track_map shares \<longleftrightarrow> distinct (dict_keys shares) \<and> (\<forall>(t, b)\<in>set shares. t \<noteq> [] \<and> 0 \<le> b \<and> b \<le> 10000)"

lemma track_map_update: "track_map d \<Longrightarrow> t \<noteq> [] \<Longrightarrow> 0 \<le> b \<Longrightarrow> b \<le> 10000 \<Longrightarrow> track_map (dict_set t b d)"
  unfolding track_map_def
  by (induction d) (auto simp: dom_update split: if_splits)

lemma served_track_map: "served_track_loop raw acc = Some shares \<Longrightarrow> track_map acc \<Longrightarrow> track_map shares"
  by (induction raw acc rule: served_track_loop.induct)
    (auto simp: track_map_update split: py_key.splits py_num.splits if_splits)

lemma track_loop_identity:
  assumes "track_map (acc @ shares)"
  shows "track_shares_loop (map (\<lambda>(t, b). (KStr t, NInt b)) shares) acc = Some (acc @ shares)"
  using assms
proof (induction shares arbitrary: acc)
  case (Cons kv shares)
  obtain t b where kv: "kv = (t, b)" by (cases kv)
  from Cons.prems kv have ok: "t \<noteq> []" "0 \<le> b" "b \<le> BASIS_POINT_SCALE" "t \<notin> set (dict_keys acc)"
    by (auto simp: track_map_def BASIS_POINT_SCALE_def)
  then have "dict_set t b acc = acc @ [(t, b)]" by (induction acc) auto
  moreover have "track_shares_loop (map (\<lambda>(t, b). (KStr t, NInt b)) shares) (acc @ [(t, b)]) = Some (acc @ kv # shares)"
    using Cons.IH [of "acc @ [(t, b)]"] Cons.prems kv by simp
  ultimately show ?case using kv ok by simp
qed simp

lemma track_shares_read:
  "resolve_track_shares (Some (map (\<lambda>(t, b). (KStr t, NInt b)) (served_track_shares served))) compiled =
     (if served_track_shares served = [] then compiled else served_track_shares served)"
proof (cases "served_track_shares served = []")
  case False
  then obtain raw where "served_track_loop raw [] = Some (served_track_shares served)"
      and s2: "sum_list (dict_values (served_track_shares served)) \<le> 10000"
    by (auto simp: served_track_shares_def split: option.splits if_splits)
  then have s1: "track_map (served_track_shares served)" using served_track_map [of raw "[]"] by (simp add: track_map_def)
  from track_loop_identity [of "[]"] s1 False s2 show ?thesis
    by (simp add: resolve_track_shares_def BASIS_POINT_SCALE_def)
qed (simp add: resolve_track_shares_def)

lemma response_Inr:
  assumes "response_from_pin sha256 encode stale now pin = Inr ledger"
  shows "served_rank_shares (pr_served pin) = Inr (lr_rank_shares ledger)"
    and "lr_crown_gate ledger = pin_gate_marker (pin_crown_gate (pr_served pin))"
    and "lr_track_shares_bps ledger = Some (map (\<lambda>(t, b). (KStr t, NInt b)) (served_track_shares (pr_served pin)))"
    and "treasury_pin_from_context sha256 encode pin = Inr (lr_treasury_pin ledger)"
    and "lr_entries ledger = pr_entries pin" "lr_crown_mode ledger = sv_crown_mode (pr_served pin)"
    and "lr_crown_incumbent_agent_id ledger = (if sv_crown_mode (pr_served pin) = Some ''incumbent'' then pr_incumbent_agent_id pin else None)"
    and "lr_provisional_incumbent ledger = pin_provisional_incumbent (pr_served pin)"
    and "lr_tie_weighting_mode ledger = sv_tie_weighting_mode (pr_served pin)"
    and "lr_dethrone_band_mode ledger = sv_dethrone_band_mode (pr_served pin)"
    and "lr_statistical_band_mode ledger = sv_statistical_band_mode (pr_served pin)"
    and "lr_v9_confirmation_mode ledger = sv_v9_confirmation_mode (pr_served pin)"
    and "lr_epoch_index ledger = Some (pr_epoch_index pin)" "lr_ledger_digest ledger = Some (pr_ledger_digest pin)"
    and "lr_ledger_snapshot_id ledger = Some (pr_snapshot_id pin)" "lr_stale ledger = stale"
    and "lr_burn_share ledger = NFloat (sv_burn_share (pr_served pin))"
  using assms by (auto simp: response_from_pin_def Let_def and_then_Inr)

subsection \<open>The crown around the loop\<close>

text \<open>A provisional incumbent is withheld from the entries, and the response names it as the incumbent.\<close>

lemma draft_fields:
  assumes "build_pin_draft M sha256 encode schedule snapshot previous now = Inr draft" "pin = draft i"
    "distinct (map agent_id (sn_entries snapshot @ sn_withheld_entries snapshot))"
  obtains provisional incumbent treasury where
    "pr_served pin = draft_served snapshot treasury provisional" "pr_entries pin = sn_entries snapshot"
    "pr_incumbent_agent_id pin = incumbent" "set (case provisional of None \<Rightarrow> [] | Some p \<Rightarrow> [p]) \<subseteq> set (sn_withheld_entries snapshot)"
    "\<And>p. provisional = Some p \<Longrightarrow> sn_crown_mode snapshot = Some ''incumbent'' \<and> incumbent = Some (agent_id p)
        \<and> \<not> list_ex (\<lambda>e. agent_id e = agent_id p) (sn_entries snapshot)"
    "pr_champion_agent_id pin = map_option (\<lambda>p. ke_agent_id (kp_champion p))
       (project_koth M (sn_dethrone_band_mode snapshot = Some ''headroom_capped'') (sn_statistical_band_mode snapshot = Some ''capped'')
          (sn_crown_gate snapshot) (sn_tie_weighting_mode snapshot = Some ''pool'')
          (if sn_crown_mode snapshot = Some ''incumbent'' then incumbent else None)
          (koth_entries_from_ledger (sn_entries snapshot @ (case provisional of None \<Rightarrow> [] | Some p \<Rightarrow> [p]))))"
proof -
  define owner where "owner = Option.bind previous pr_champion_owner_root"
  define incumbent0 where "incumbent0 = draft_incumbent snapshot owner (Option.bind previous pr_champion_agent_id)"
  define provisional where "provisional = draft_provisional snapshot owner incumbent0"
  define incumbent where "incumbent = (case provisional of None \<Rightarrow> incumbent0 | Some p \<Rightarrow> Some (agent_id p))"
  obtain treasury where d: "pin = (let projection = project_koth M (sn_dethrone_band_mode snapshot = Some ''headroom_capped'')
            (sn_statistical_band_mode snapshot = Some ''capped'') (sn_crown_gate snapshot)
            (sn_tie_weighting_mode snapshot = Some ''pool'') (if sn_crown_mode snapshot = Some ''incumbent'' then incumbent else None)
            (koth_entries_from_ledger (sn_entries snapshot @ (case provisional of None \<Rightarrow> [] | Some p \<Rightarrow> [p])));
          champion_id = map_option (\<lambda>p. ke_agent_id (kp_champion p)) projection; served = draft_served snapshot treasury provisional
      in \<lparr>pr_snapshot_id = i, pr_netuid = es_netuid schedule,
           pr_epoch_index = es_subnet_epoch_index schedule, pr_last_epoch_block = es_last_epoch_block schedule,
           pr_pinned_block = es_block schedule, pr_pinned_block_hash = es_block_hash schedule, pr_pinned_at = now,
           pr_bench_version = sn_active_bench_version snapshot, pr_entries = sn_entries snapshot, pr_served = served,
           pr_ledger_digest = pin_ledger_digest sha256 encode (sn_entries snapshot) served, pr_champion_agent_id = champion_id,
           pr_champion_owner_root = Option.bind champion_id (dict_get (sn_owner_roots snapshot)),
           pr_incumbent_agent_id = incumbent\<rparr>)"
    using assms(1,2) unfolding build_pin_draft_def and_then_Inr Let_def incumbent_def provisional_def incumbent0_def owner_def by auto
  have p: "p \<in> set (sn_withheld_entries snapshot) \<and> sn_crown_mode snapshot = Some ''incumbent''" if "provisional = Some p" for p
    using that by (auto simp: provisional_def draft_provisional_def find_Some_iff split: option.splits if_splits)
  moreover have "\<not> list_ex (\<lambda>e. agent_id e = agent_id p) (sn_entries snapshot)" if "p \<in> set (sn_withheld_entries snapshot)" for p
    using that assms(3) by (auto simp: list_ex_iff)
  ultimately show ?thesis
    using that [of treasury provisional incumbent] by (auto simp: d Let_def incumbent_def split: option.splits)
qed

lemma response_rows:
  assumes "pr_served pin = draft_served snapshot treasury provisional" "pr_entries pin = sn_entries snapshot"
    "pr_incumbent_agent_id pin = incumbent"
    "\<And>p. provisional = Some p \<Longrightarrow> sn_crown_mode snapshot = Some ''incumbent'' \<and> incumbent = Some (agent_id p)
        \<and> \<not> list_ex (\<lambda>e. agent_id e = agent_id p) (sn_entries snapshot)"
    "response_from_pin sha256 encode stale now pin = Inr ledger"
    "sn_v9_confirmation_mode snapshot = None \<or> (\<forall>e\<in>set rows. entry_version e \<notin> RECEIPT_CONTRACT_VERSIONS)"
    "rows = sn_entries snapshot @ (case provisional of None \<Rightarrow> [] | Some p \<Rightarrow> [p])"
  shows "ledger_weight_entries ledger = rows"
    and "ledger_crown_incumbent ledger = (if sn_crown_mode snapshot = Some ''incumbent'' then incumbent else None)"
proof -
  note r = response_Inr [OF assms(5)]
  have s: "sv_crown_mode (pr_served pin) = sn_crown_mode snapshot" "sv_provisional_incumbent (pr_served pin) = provisional"
    "sv_v9_confirmation_mode (pr_served pin) = sn_v9_confirmation_mode snapshot"
    by (simp_all add: assms(1) draft_served_def)
  show i: "ledger_crown_incumbent ledger = (if sn_crown_mode snapshot = Some ''incumbent'' then incumbent else None)"
    using r(6,7) s(1) assms(3) by (simp add: ledger_crown_incumbent_def)
  have "ledger_provisional_incumbent ledger = provisional"
    using r(5,8) s assms(2,4) i by (auto simp: ledger_provisional_incumbent_def pin_provisional_incumbent_def split: option.splits)
  then have "ledger_weight_entries ledger = filter_weight_confirmed rows (sn_v9_confirmation_mode snapshot = Some ''enforce'')"
    using r(5,12) s(3) assms(2,7) by (simp add: ledger_weight_entries_def)
  then show "ledger_weight_entries ledger = rows"
    using assms(6) by (auto simp: filter_weight_confirmed_def intro!: filter_True)
qed

lemma projected_champion:
  assumes "\<forall>e\<in>set es. mirrored M e" "distinct (map agent_id es)" "opt_all served_gate gate"
  shows "map_option (\<lambda>p. ke_agent_id (kp_champion p)) (project_koth M clamp cap gate tie inc (koth_entries_from_ledger es))
    = map_option agent_id (select_champion M (koth_rules clamp cap gate) inc es)"
proof -
  obtain ranks where ranks: "koth_entries_from_ledger es = map (lift_with ranks) es" using koth_entries_lifted by blast
  show ?thesis
  proof (cases "project_koth M clamp cap gate tie inc (map (lift_with ranks) es)")
    case None
    then show ?thesis using lift_project_None [OF assms None] ranks by simp
  next
    case (Some p)
    then obtain c where "select_champion M (koth_rules clamp cap gate) inc es = Some c" "kp_champion p = lift_with ranks c"
      by (rule lift_project [OF assms])
    then show ?thesis using Some ranks by simp
  qed
qed

lemma pin_rules:
  assumes "response_from_pin sha256 encode stale now pin = Inr ledger" "pr_served pin = draft_served snapshot treasury provisional"
    "opt_all served_gate (sn_crown_gate snapshot)" "vc_koth_margin cfg = KOTH_MARGIN" "vc_koth_dethrone_z cfg = KOTH_DETHRONE_Z"
  shows "params_rules (epoch_params cfg ledger) = koth_rules (sn_dethrone_band_mode snapshot = Some ''headroom_capped'')
     (sn_statistical_band_mode snapshot = Some ''capped'') (sn_crown_gate snapshot)"
proof -
  note r = response_Inr [OF assms(1)]
  have "pin_crown_gate (pr_served pin) = sn_crown_gate snapshot"
    by (rule pin_gate_marker_read [OF assms(3)]) (simp add: assms(2) draft_served_def)
  then have "ledger_crown_gate ledger = sn_crown_gate snapshot" using gate_marker_read [OF r(2)] by simp
  then show ?thesis
    using r(10,11) assms(2,4,5) by (simp add: params_rules_def epoch_params_def koth_rules_def ledger_ceiling_band_clamp_def
        ledger_statistical_band_cap_def draft_served_def)
qed

text \<open>The fold that an epoch reports names the champion of the rows it folded.\<close>

lemma reported_fold:
  assumes "update_weights M sha256 verify codec cfg reads st = Inr (out, st', sent)" "sent \<noteq> []" "rd_ledger reads = Some ledger"
    and "\<forall>e\<in>set (ledger_weight_entries ledger). opt_all (\<lambda>p. miner_hotkey e \<noteq> ep_collector_hotkey (xp_policy p)) (enforcing_pin_of ledger)"
    and "case rd_neurons reads of Neurons hks \<Rightarrow> \<forall>e\<in>set (ledger_weight_entries ledger). miner_hotkey e \<in> set hks | _ \<Rightarrow> True"
  obtains f where "wo_fold out = Some f" "wf_ledger_digest f = lr_ledger_digest ledger" "wf_epoch_index f = lr_epoch_index ledger"
    "wf_champion_agent_id f = map_option agent_id (select_champion M (params_rules (epoch_params cfg ledger)) (ledger_crown_incumbent ledger)
        (ledger_weight_entries ledger))"
proof -
  obtain auth registered hotkeys st1 where u: "run_treasury_gate sha256 verify cfg reads ledger = GateOpen auth"
    "registered_ledger_entries (rd_neurons reads)
       (filter (\<lambda>e. not_collector auth (miner_hotkey e)) (ledger_weight_entries ledger)) = Some (registered, hotkeys)"
    "fold_epoch M sha256 verify codec cfg reads ledger auth registered st1 = Inr (out, st', sent)"
    by (rule update_sent [OF assms(1,2)]) (use assms(3) in auto)
  have "not_collector auth (miner_hotkey e)" if "e \<in> set (ledger_weight_entries ledger)" for e
    using that assms(4) gate_enforcing [OF u(1), symmetric] by (cases auth) (auto simp: not_collector_def opt_all_def)
  then have "filter (\<lambda>e. not_collector auth (miner_hotkey e)) (ledger_weight_entries ledger) = ledger_weight_entries ledger" by simp
  with u(2) assms(5) have "registered = ledger_weight_entries ledger"
    by (auto simp: registered_ledger_entries_def split: neuron_read.splits)
  moreover obtain mw paid alloc where "pay_epoch M sha256 verify codec cfg reads ledger auth registered mw paid alloc st1 = Inr (out, st', sent)"
    by (rule fold_sent [OF u(3) assms(2)])
  then obtain weights st2 where "dispatch_weights M sha256 codec cfg reads ledger registered weights st2 = Inr (out, st', sent)"
    by (rule pay_sent [OF _ assms(2)])
  then obtain b lb st3 where "submit_weights sha256 codec cfg reads ledger
      (select_champion M (params_rules (epoch_params cfg ledger)) (ledger_crown_incumbent ledger) registered) b lb weights st3 = (out, st', sent)"
    using assms(2) by (auto simp: dispatch_weights_def Let_def unchanged_def split: if_splits option.splits)
  ultimately show ?thesis
    by (intro that [of "the (wo_fold out)"]) (auto simp: submit_weights_def Let_def split: prod.splits)
qed


subsection \<open>A concrete pin\<close>

definition example_snapshot :: ledger_snapshot where
  "example_snapshot = \<lparr>sn_entries = [alice, bob], sn_withheld_entries = [], sn_owner_roots = [], sn_active_bench_version = 12,
     sn_v9_confirmation_mode = None, sn_tie_weighting_mode = None, sn_dethrone_band_mode = Some ''headroom_capped'',
     sn_statistical_band_mode = Some ''capped'', sn_reward_eligibility_mode = None, sn_crown_mode = None, sn_burn_share = Fin (1 / 2),
     sn_continual_retest_cohort_size = 5, sn_crown_gate = None, sn_rank_shares = None, sn_track_shares_bps = [], sn_treasury_pin = None\<rparr>"

definition example_schedule :: epoch_schedule where
  "example_schedule = \<lparr>es_netuid = 118, es_subnet_epoch_index = 7, es_last_epoch_block = 100, es_block = 110, es_block_hash = ''0xab''\<rparr>"

definition pinned_example :: "nat \<Rightarrow> pin_row" where
  "pinned_example = projr (build_pin_draft example_libm example_hash (\<lambda>_ _. []) example_schedule example_snapshot None 0)"

definition example_response :: ledger_response where
  "example_response = projr (response_from_pin example_hash (\<lambda>_ _. []) False 5000000 (pinned_example 5))"

lemma pinned_example_built:
  "build_pin_draft example_libm example_hash (\<lambda>_ _. []) example_schedule example_snapshot None 0 = Inr pinned_example"
proof -
  have "sn_treasury_pin example_snapshot = None" by (simp add: example_snapshot_def)
  then have "\<exists>d. build_pin_draft example_libm example_hash (\<lambda>_ _. []) example_schedule example_snapshot None 0 = Inr d"
    by (simp add: build_pin_draft_def Let_def)
  then show ?thesis by (auto simp: pinned_example_def)
qed

lemma example_served: "pr_served (pinned_example i) = draft_served example_snapshot None None" "pr_entries (pinned_example i) = [alice, bob]"
  "pr_ledger_digest (pinned_example i) = pin_ledger_digest example_hash (\<lambda>_ _. []) [alice, bob] (draft_served example_snapshot None None)"
  "pr_epoch_index (pinned_example i) = 7" "pr_pinned_block (pinned_example i) = 110"
proof -
  have s: "sn_treasury_pin example_snapshot = None" "sn_entries example_snapshot = [alice, bob]"
    "es_subnet_epoch_index example_schedule = 7" "es_block example_schedule = 110"
    "draft_provisional example_snapshot None inc = None" for inc
    by (simp_all add: example_snapshot_def example_schedule_def draft_provisional_def)
  have "pinned_example i = projr (build_pin_draft example_libm example_hash (\<lambda>_ _. []) example_schedule example_snapshot None 0) i"
    by (simp add: pinned_example_def)
  then show "pr_served (pinned_example i) = draft_served example_snapshot None None" "pr_entries (pinned_example i) = [alice, bob]"
    "pr_ledger_digest (pinned_example i) = pin_ledger_digest example_hash (\<lambda>_ _. []) [alice, bob] (draft_served example_snapshot None None)"
    "pr_epoch_index (pinned_example i) = 7" "pr_pinned_block (pinned_example i) = 110"
    by (simp_all add: build_pin_draft_def s Let_def)
qed

lemma example_response_served:
  "response_from_pin example_hash (\<lambda>_ _. []) False 5000000 (pinned_example 5) = Inr example_response" "plain_ledger example_response"
proof -
  have "is_digest (hex_of (example_hash []))" by code_simp
  then have ok: "response_fields_ok (pinned_example 5)"
    unfolding response_fields_ok_def Let_def example_served
    by (simp add: draft_served_def example_snapshot_def pin_ledger_digest_def example_hash_def)
  have t: "treasury_pin_from_context example_hash (\<lambda>_ _. []) (pinned_example 5) = Inr None"
    by (simp add: treasury_pin_from_context_def example_served draft_served_def)
  have r: "served_rank_shares (pr_served (pinned_example 5)) = Inr None"
    by (simp add: served_rank_shares_def example_served draft_served_def example_snapshot_def)
  have "\<exists>l. response_from_pin example_hash (\<lambda>_ _. []) False 5000000 (pinned_example 5) = Inr l"
    unfolding response_from_pin_def Let_def t r using ok by simp
  then show e: "response_from_pin example_hash (\<lambda>_ _. []) False 5000000 (pinned_example 5) = Inr example_response"
    by (auto simp: example_response_def)
  have "lr_treasury_pin example_response = None" "lr_rank_shares example_response = None"
    using response_Inr(1,4) [OF e] t r by simp_all
  then show "plain_ledger example_response"
    using response_Inr(2,3,5-12,16,17) [OF e] unfolding example_served
    by (simp add: plain_ledger_def draft_served_def example_snapshot_def pin_provisional_incumbent_def pin_crown_gate_def
        pin_gate_marker_def served_track_shares_def)
qed


end
