(* ===== verification/Pin_Store.thy ===== *)
theory Pin_Store
  imports Ledger_Pin
begin

section \<open>One pin per epoch\<close>

text \<open>
  Models the stateful half of \<^verbatim>\<open>apps/platform/ditto/api_server/ledger_pin.py\<close> (\<^verbatim>\<open>LedgerPinMaterializer\<close>), the
  queries of \<^verbatim>\<open>db/queries/ledger_epochs.py\<close> and the serving decision of \<^verbatim>\<open>endpoints/scoring.py\<close>. Several platform
  processes share one table; each keeps the newest pin it has seen and builds a missing pin
  under its own lock. Between reading the table and inserting, any other process may act, so \<open>ensure\<close> is
  two steps, \<open>begin_ensure\<close> and \<open>finish_build\<close>. What a build reads from the chain, the database and the policy
  service is the record \<open>build_reads\<close>. Of the diagnostics, the outcome and the last successful epoch are
  kept; times, metrics and log lines are left out.
\<close>

subsection \<open>The table\<close>

definition get_pin :: "pin_row list \<Rightarrow> int \<Rightarrow> int \<Rightarrow> pin_row option" where
  "get_pin rows netuid epoch_index = find (\<lambda>r. pr_netuid r = netuid \<and> pr_epoch_index r = epoch_index) rows"

definition latest_pin :: "pin_row list \<Rightarrow> int \<Rightarrow> int option \<Rightarrow> pin_row option" where
  "latest_pin rows netuid max_epoch_index =
     (case sort_key (\<lambda>r. - pr_epoch_index r)
        (filter (\<lambda>r. pr_netuid r = netuid \<and> opt_all (\<lambda>m. pr_epoch_index r \<le> m) max_epoch_index) rows) of
        [] \<Rightarrow> None | r # _ \<Rightarrow> Some r)"

text \<open>The unique key on subnet and epoch and the primary key; \<open>None\<close> is \<^verbatim>\<open>IntegrityError\<close>.\<close>

definition insert_pin :: "pin_row \<Rightarrow> pin_row list \<Rightarrow> pin_row list option" where
  "insert_pin row rows =
     (if list_ex (\<lambda>r. pr_snapshot_id r = pr_snapshot_id row
          \<or> pr_netuid r = pr_netuid row \<and> pr_epoch_index r = pr_epoch_index row) rows
      then None else Some (rows @ [row]))"

subsection \<open>Materializing a pin\<close>

record gamma_runtime =
  gr_treasury_weight_enforcement :: bool
  gr_activation_epoch :: "int option"

text \<open>What a build reads: the snapshot (\<open>Inl\<close> when a read of it raised), the observed treasury, its authorization by the
  signed approval and the fleet, and whether the controls read again inside the transaction are the ones it started from.\<close>

record build_reads =
  br_snapshot :: "py_error + ledger_snapshot"
  br_observed :: "py_error + treasury_pin option"
  br_authorized :: "treasury_pin \<Rightarrow> py_error + enforcing_pin"
  br_runtime_unchanged :: bool
  br_allocations_unchanged :: bool
  br_emission_unchanged :: bool
  br_snapshot_id :: nat

definition enforcing_at :: "gamma_runtime \<Rightarrow> int \<Rightarrow> bool" where
  "enforcing_at runtime epoch_index \<longleftrightarrow> gr_treasury_weight_enforcement runtime
     \<and> opt_all (\<lambda>a. a \<le> epoch_index) (gr_activation_epoch runtime)"

definition with_treasury :: "treasury_pin option \<Rightarrow> ledger_snapshot \<Rightarrow> ledger_snapshot" where
  "with_treasury treasury snapshot = (case treasury of
     None \<Rightarrow> snapshot
   | Some (ShadowPin _) \<Rightarrow> snapshot\<lparr>sn_treasury_pin := treasury\<rparr>
   | Some (EnforcePin pin) \<Rightarrow>
       (let rival = (\<lambda>e. miner_hotkey e \<noteq> ep_collector_hotkey (xp_policy pin)) in
        snapshot\<lparr>sn_treasury_pin := treasury, sn_entries := filter rival (sn_entries snapshot),
          sn_withheld_entries := filter rival (sn_withheld_entries snapshot)\<rparr>))"

definition materialize ::
  "libm \<Rightarrow> hash_fun \<Rightarrow> pin_encoder \<Rightarrow> gamma_runtime \<Rightarrow> build_reads \<Rightarrow> epoch_schedule \<Rightarrow> pin_row option \<Rightarrow> int \<Rightarrow> py_error + pin_row" where
  "materialize M sha256 encode runtime reads schedule previous now =
     and_then (br_snapshot reads) (\<lambda>snapshot.
     and_then (br_observed reads) (\<lambda>observed.
     and_then (if \<not> enforcing_at runtime (es_subnet_epoch_index schedule) then Inr observed
         else (case observed of
             None \<Rightarrow> Inl (ValueError ''enforcing treasury requires finalized observation'')
           | Some t \<Rightarrow> and_then (br_authorized reads t) (\<lambda>pin. Inr (Some (EnforcePin pin))))) (\<lambda>treasury.
     and_then (build_pin_draft M sha256 encode schedule (with_treasury treasury snapshot) previous now) (\<lambda>draft.
     and_then (require (br_runtime_unchanged reads) ''Gamma control changed during epoch materialization'') (\<lambda>_.
     and_then (require (br_allocations_unchanged reads \<or> (case treasury of Some (EnforcePin _) \<Rightarrow> False | _ \<Rightarrow> True))
         ''Gamma allocation changed during epoch materialization'') (\<lambda>_.
     and_then (require (br_emission_unchanged reads) ''emission allocation changed during epoch materialization'') (\<lambda>_.
     Inr (draft (br_snapshot_id reads)))))))))"

subsection \<open>One process\<close>

record materializer =
  mt_current :: "pin_row option"
  mt_building :: "(epoch_schedule \<times> gamma_runtime \<times> pin_row option) option"
  mt_outcome :: string
  mt_last_success_epoch :: "int option"

definition initial_materializer :: materializer where
  "initial_materializer = \<lparr>mt_current = None, mt_building = None, mt_outcome = [], mt_last_success_epoch = None\<rparr>"

definition cached_pin :: "epoch_schedule \<Rightarrow> materializer \<Rightarrow> pin_row option" where
  "cached_pin schedule m = (case mt_current m of
     Some pin \<Rightarrow> if pr_epoch_index pin = es_subnet_epoch_index schedule then Some pin else None
   | None \<Rightarrow> None)"

definition retain :: "pin_row \<Rightarrow> materializer \<Rightarrow> materializer" where
  "retain pin m = (if opt_all (\<lambda>c. pr_epoch_index c \<le> pr_epoch_index pin) (mt_current m) then m\<lparr>mt_current := Some pin\<rparr> else m)"

text \<open>The end of \<open>ensure\<close>: \<open>Inl\<close> for an exception of the build, else the pin or none.\<close>

definition conclude :: "py_error + pin_row option \<Rightarrow> materializer \<Rightarrow> materializer \<times> pin_row option" where
  "conclude result m0 = (let m = m0\<lparr>mt_building := None\<rparr> in case result of
     Inl _ \<Rightarrow> (m\<lparr>mt_outcome := ''error''\<rparr>, None)
   | Inr None \<Rightarrow> (m\<lparr>mt_outcome := ''unavailable''\<rparr>, None)
   | Inr (Some pin) \<Rightarrow> (retain pin (m\<lparr>mt_outcome := ''pinned'', mt_last_success_epoch := Some (pr_epoch_index pin)\<rparr>), Some pin))"

datatype ensured = Answered "pin_row option" | Pending

text \<open>\<open>ensure\<close> up to the insert; \<open>db\<close> is the runtime control read with the table, or none when the database raised. A call
  that finds the lock taken waits and is repeated when it is free.\<close>

definition begin_ensure ::
  "gamma_runtime option \<Rightarrow> epoch_schedule option \<Rightarrow> pin_row list \<Rightarrow> materializer \<Rightarrow> materializer \<times> ensured" where
  "begin_ensure db schedule rows m = (case schedule of
     None \<Rightarrow> (m, Answered None)
   | Some s \<Rightarrow> (case cached_pin s m of
       Some pin \<Rightarrow> (m, Answered (Some pin))
     | None \<Rightarrow>
         if mt_building m \<noteq> None then (m, Pending)
         else (case db of
             None \<Rightarrow> (case conclude (Inl (ValueError ''database'')) m of (m', answer) \<Rightarrow> (m', Answered answer))
           | Some runtime \<Rightarrow> (case get_pin rows (es_netuid s) (es_subnet_epoch_index s) of
               Some row \<Rightarrow> (case conclude (Inr (Some row)) m of (m', answer) \<Rightarrow> (m', Answered answer))
             | None \<Rightarrow> (m\<lparr>mt_building := Some (s, runtime, latest_pin rows (es_netuid s) (Some (es_subnet_epoch_index s - 1)))\<rparr>, Pending)))))"

text \<open>The rest of the build: the draft, the insert, and the winner's row when another process was first.\<close>

definition finish_build ::
  "libm \<Rightarrow> hash_fun \<Rightarrow> pin_encoder \<Rightarrow> build_reads \<Rightarrow> int \<Rightarrow> pin_row list \<Rightarrow> materializer \<Rightarrow> pin_row list \<times> materializer \<times> pin_row option" where
  "finish_build M sha256 encode reads now rows m = (case mt_building m of
     None \<Rightarrow> (rows, m, None)
   | Some (s, runtime, previous) \<Rightarrow> (case materialize M sha256 encode runtime reads s previous now of
       Inl err \<Rightarrow> (rows, conclude (Inl err) m)
     | Inr row \<Rightarrow> (case insert_pin row rows of
         Some rows' \<Rightarrow> (rows', conclude (Inr (Some row)) m)
       | None \<Rightarrow> (rows, conclude (Inr (get_pin rows (es_netuid s) (es_subnet_epoch_index s))) m))))"

text \<open>\<open>latest\<close>: the newest stored pin, or the newest known when the database raised or has none.\<close>

definition latest_known :: "bool \<Rightarrow> int \<Rightarrow> pin_row list \<Rightarrow> materializer \<Rightarrow> materializer \<times> pin_row option" where
  "latest_known db_ok netuid rows m = (case (if db_ok then latest_pin rows netuid None else None) of
     None \<Rightarrow> (m, mt_current m)
   | Some row \<Rightarrow> (let m' = retain row m in (m', mt_current m')))"

subsection \<open>Serving\<close>

datatype served = ServePin pin_row | ServeStale pin_row | ServeLive | Refuse

text \<open>The scoring endpoint: the mode of the ledger, whether the process can pin at all, the treasury enforcement read before
  and after \<open>ensure\<close> (none when its verification failed), what \<open>ensure\<close> answered with the treasury its response carries, and the
  answer of \<open>latest\<close>, which is only asked for when \<open>ensure\<close> has no pin.\<close>

definition serve_epoch_pin ::
  "bool \<Rightarrow> bool \<Rightarrow> bool option \<Rightarrow> bool option \<Rightarrow> (pin_row \<times> treasury_pin option) option \<Rightarrow> pin_row option \<Rightarrow> served" where
  "serve_epoch_pin epoch_mode available enforcing_before enforcing_after ensured latest = (case enforcing_before of
     None \<Rightarrow> Refuse
   | Some before \<Rightarrow>
       if \<not> epoch_mode \<or> \<not> available then (if before then Refuse else ServeLive)
       else (case enforcing_after of
         None \<Rightarrow> Refuse
       | Some after \<Rightarrow>
           if after \<and> (case ensured of Some (_, Some (EnforcePin _)) \<Rightarrow> False | _ \<Rightarrow> True) then Refuse
           else (case ensured of
             Some (pin, _) \<Rightarrow> ServePin pin
           | None \<Rightarrow> (case latest of Some pin \<Rightarrow> ServeStale pin | None \<Rightarrow> ServeLive))))"

text \<open>Under enforcement a validator is never served a ledger without an enforcing treasury pin.\<close>

lemma enforcing_serves_pinned:
  assumes "serve_epoch_pin epoch_mode available before (Some True) ensured latest = answer" "before \<noteq> Some False"
  shows "answer = Refuse \<or> (\<exists>pin t. ensured = Some (pin, Some (EnforcePin t)) \<and> answer = ServePin pin)"
proof (cases "\<exists>pin t. ensured = Some (pin, Some (EnforcePin t))")
  case True
  then show ?thesis using assms by (auto simp: serve_epoch_pin_def split: option.splits if_splits)
next
  case False
  then have "case ensured of Some (_, Some (EnforcePin _)) \<Rightarrow> False | _ \<Rightarrow> True"
    by (auto split: option.splits prod.splits treasury_pin.splits)
  then have "answer = Refuse" using assms by (auto simp: serve_epoch_pin_def split: option.splits if_splits)
  then show ?thesis ..
qed

end
