(* ===== verification/Pin_Agreement.thy ===== *)
theory Pin_Agreement
  imports Pin_Store Pin_Replay "HOL-Library.Sublist"
begin

section \<open>Every validator folds the same pin\<close>

text \<open>
  Runs of the platform: any number of processes ensure, build, lose races, fail, are cancelled and serve
  stale pins in any order. The interface of the table to the processes is the locale
  \<open>immutable_store\<close>: rows are only added, and one key has one row. From it follows that all answers for an epoch are the same pin.
\<close>

subsection \<open>The interface of the table\<close>

locale immutable_store =
  fixes valid :: "'s \<Rightarrow> bool" and stored :: "'s \<Rightarrow> 'r set" and key :: "'r \<Rightarrow> 'k"
    and lookup :: "'s \<Rightarrow> 'k \<Rightarrow> 'r option" and add :: "'r \<Rightarrow> 's \<Rightarrow> 's option"
  assumes key_unique: "valid s \<Longrightarrow> a \<in> stored s \<Longrightarrow> b \<in> stored s \<Longrightarrow> key a = key b \<Longrightarrow> a = b"
    and lookup_Some: "lookup s k = Some r \<Longrightarrow> r \<in> stored s \<and> key r = k"
    and lookup_None: "lookup s k = None \<Longrightarrow> r \<in> stored s \<Longrightarrow> key r \<noteq> k"
    and add_valid: "valid s \<Longrightarrow> add r s = Some s' \<Longrightarrow> valid s'"
    and add_stored: "add r s = Some s' \<Longrightarrow> stored s' = insert r (stored s)"
begin

lemma lookup_stored: "valid s \<Longrightarrow> r \<in> stored s \<Longrightarrow> lookup s (key r) = Some r"
  using lookup_Some lookup_None key_unique by (cases "lookup s (key r)") metis+

lemma lookup_stable: "valid s \<Longrightarrow> add r s = Some s' \<Longrightarrow> lookup s k = Some x \<Longrightarrow> lookup s' k = Some x"
  using lookup_Some [of s k x] add_valid [of s r s'] add_stored [of r s s'] lookup_stored [of s' x] by simp

lemma answers_agree:
  "valid s \<Longrightarrow> set answers \<subseteq> stored s \<Longrightarrow> a \<in> set answers \<Longrightarrow> b \<in> set answers \<Longrightarrow> key a = key b \<Longrightarrow> a = b"
  using key_unique by blast

end

definition pin_key :: "pin_row \<Rightarrow> int \<times> int" where
  "pin_key r = (pr_netuid r, pr_epoch_index r)"

interpretation pins: immutable_store "\<lambda>rows. distinct (map pin_key rows)" set pin_key
    "\<lambda>rows k. get_pin rows (fst k) (snd k)" insert_pin
proof
  fix rows a b
  assume "distinct (map pin_key rows)" "a \<in> set rows" "b \<in> set rows" "pin_key a = pin_key b"
  then show "a = b" by (metis distinct_map inj_onD)
next
  fix rows k r
  show "get_pin rows (fst k) (snd k) = Some r \<Longrightarrow> r \<in> set rows \<and> pin_key r = k"
    by (auto simp: get_pin_def find_Some_iff pin_key_def)
  show "get_pin rows (fst k) (snd k) = None \<Longrightarrow> r \<in> set rows \<Longrightarrow> pin_key r \<noteq> k"
    by (auto simp: get_pin_def find_None_iff pin_key_def)
next
  fix rows rows' r
  show "distinct (map pin_key rows) \<Longrightarrow> insert_pin r rows = Some rows' \<Longrightarrow> distinct (map pin_key rows')"
    by (fastforce simp: insert_pin_def pin_key_def list_ex_iff split: if_splits)
  show "insert_pin r rows = Some rows' \<Longrightarrow> set rows' = insert r (set rows)"
    by (auto simp: insert_pin_def split: if_splits)
qed

subsection \<open>Runs of the platform\<close>

text \<open>An answer: the process, the epoch that was asked for (none for a stale answer), and the pin.\<close>

record pin_world =
  pw_rows :: "pin_row list"
  pw_procs :: "nat \<Rightarrow> materializer"
  pw_answers :: "(nat \<times> int option \<times> pin_row) list"

definition initial_world :: pin_world where
  "initial_world = \<lparr>pw_rows = [], pw_procs = (\<lambda>_. initial_materializer), pw_answers = []\<rparr>"

definition log_answer :: "nat \<Rightarrow> int option \<Rightarrow> pin_row option \<Rightarrow> pin_world \<Rightarrow> pin_world" where
  "log_answer p epoch answer w =
     w\<lparr>pw_answers := pw_answers w @ (case answer of None \<Rightarrow> [] | Some pin \<Rightarrow> [(p, epoch, pin)])\<rparr>"

definition set_proc :: "nat \<Rightarrow> materializer \<Rightarrow> pin_world \<Rightarrow> pin_world" where
  "set_proc p m w = w\<lparr>pw_procs := (pw_procs w)(p := m)\<rparr>"

text \<open>A build that is cancelled releases the lock and caches nothing; its row may already be committed.\<close>

inductive pin_step :: "libm \<Rightarrow> hash_fun \<Rightarrow> pin_encoder \<Rightarrow> int \<Rightarrow> pin_world \<Rightarrow> pin_world \<Rightarrow> bool" for M sha256 encode netuid where
  ensure: "es_netuid s = netuid \<Longrightarrow> begin_ensure db (Some s) (pw_rows w) (pw_procs w p) = (m, Answered answer) \<Longrightarrow>
    pin_step M sha256 encode netuid w (log_answer p (Some (es_subnet_epoch_index s)) answer (set_proc p m w))"
| start: "es_netuid s = netuid \<Longrightarrow> begin_ensure db (Some s) (pw_rows w) (pw_procs w p) = (m, Pending) \<Longrightarrow>
    pin_step M sha256 encode netuid w (set_proc p m w)"
| finish: "mt_building (pw_procs w p) = Some (s, runtime, previous) \<Longrightarrow>
    finish_build M sha256 encode reads now (pw_rows w) (pw_procs w p) = (rows, m, answer) \<Longrightarrow>
    pin_step M sha256 encode netuid w (log_answer p (Some (es_subnet_epoch_index s)) answer (set_proc p m (w\<lparr>pw_rows := rows\<rparr>)))"
| cancel: "mt_building (pw_procs w p) \<noteq> None \<Longrightarrow>
    rows = (if committed then fst (finish_build M sha256 encode reads now (pw_rows w) (pw_procs w p)) else pw_rows w) \<Longrightarrow>
    pin_step M sha256 encode netuid w
      (set_proc p ((pw_procs w p)\<lparr>mt_building := None, mt_outcome := ''cancelled''\<rparr>) (w\<lparr>pw_rows := rows\<rparr>))"
| latest: "latest_known db_ok netuid (pw_rows w) (pw_procs w p) = (m, answer) \<Longrightarrow>
    pin_step M sha256 encode netuid w (log_answer p None answer (set_proc p m w))"

inductive pin_run :: "libm \<Rightarrow> hash_fun \<Rightarrow> pin_encoder \<Rightarrow> int \<Rightarrow> pin_world \<Rightarrow> bool" for M sha256 encode netuid where
  begin_run: "pin_run M sha256 encode netuid initial_world"
| step: "pin_run M sha256 encode netuid w \<Longrightarrow> pin_step M sha256 encode netuid w w' \<Longrightarrow> pin_run M sha256 encode netuid w'"

subsection \<open>The invariant\<close>

definition proc_ok :: "int \<Rightarrow> pin_row list \<Rightarrow> materializer \<Rightarrow> bool" where
  "proc_ok netuid rows m \<longleftrightarrow> opt_all (\<lambda>r. r \<in> set rows) (mt_current m) \<and> opt_all (\<lambda>(s, _). es_netuid s = netuid) (mt_building m)"

definition answer_ok :: "pin_row list \<Rightarrow> nat \<times> int option \<times> pin_row \<Rightarrow> bool" where
  "answer_ok rows a \<longleftrightarrow> (case a of (p, epoch, pin) \<Rightarrow> pin \<in> set rows \<and> opt_all (\<lambda>e. pr_epoch_index pin = e) epoch)"

definition world_ok :: "int \<Rightarrow> pin_world \<Rightarrow> bool" where
  "world_ok netuid w \<longleftrightarrow> distinct (map pin_key (pw_rows w)) \<and> (\<forall>r\<in>set (pw_rows w). pr_netuid r = netuid)
     \<and> (\<forall>p. proc_ok netuid (pw_rows w) (pw_procs w p)) \<and> (\<forall>a\<in>set (pw_answers w). answer_ok (pw_rows w) a)"

lemma proc_ok_mono: "proc_ok netuid rows m \<Longrightarrow> set rows \<subseteq> set rows' \<Longrightarrow> proc_ok netuid rows' m"
  by (auto simp: proc_ok_def opt_all_def split: option.splits)

lemma answer_ok_mono: "answer_ok rows a \<Longrightarrow> set rows \<subseteq> set rows' \<Longrightarrow> answer_ok rows' a"
  by (auto simp: answer_ok_def)

lemma retain_ok: "proc_ok netuid rows m \<Longrightarrow> r \<in> set rows \<Longrightarrow> proc_ok netuid rows (retain r m)"
  by (simp add: proc_ok_def retain_def opt_all_def)

lemma conclude_ok:
  assumes "conclude result m = (m', answer)" "proc_ok netuid rows m" "\<And>r. result = Inr (Some r) \<Longrightarrow> r \<in> set rows"
  shows "proc_ok netuid rows m'" "answer = (case result of Inl _ \<Rightarrow> None | Inr a \<Rightarrow> a)"
proof -
  have m0: "proc_ok netuid rows (m\<lparr>mt_building := None, mt_outcome := x, mt_last_success_epoch := y\<rparr>)"
    "proc_ok netuid rows (m\<lparr>mt_building := None, mt_outcome := x\<rparr>)" for x y
    using assms(2) by (simp_all add: proc_ok_def opt_all_def)
  show "proc_ok netuid rows m'"
    using assms(1,3) m0 retain_ok by (auto simp: conclude_def Let_def split: sum.splits option.splits)
  show "answer = (case result of Inl _ \<Rightarrow> None | Inr a \<Rightarrow> a)"
    using assms(1) by (auto simp: conclude_def Let_def split: sum.splits option.splits)
qed

lemma latest_stored: "latest_pin rows netuid bound = Some r \<Longrightarrow> r \<in> set rows"
proof -
  let ?xs = "filter (\<lambda>r. pr_netuid r = netuid \<and> opt_all (\<lambda>m. pr_epoch_index r \<le> m) bound) rows"
  assume "latest_pin rows netuid bound = Some r"
  then obtain rest where "sort_key (\<lambda>r. - pr_epoch_index r) ?xs = r # rest" by (auto simp: latest_pin_def split: list.splits)
  then have "r \<in> set (sort_key (\<lambda>r. - pr_epoch_index r) ?xs)" by (metis list.set_intros(1))
  then show ?thesis by simp
qed

lemma begin_ensure_ok:
  assumes "begin_ensure db (Some s) rows m = (m', e)" "proc_ok netuid rows m" "es_netuid s = netuid"
  shows "proc_ok netuid rows m'"
    and "e = Answered (Some pin) \<Longrightarrow> pin \<in> set rows \<and> pr_epoch_index pin = es_subnet_epoch_index s"
proof -
  have get: "r \<in> set rows \<and> pr_epoch_index r = es_subnet_epoch_index s"
    if "get_pin rows (es_netuid s) (es_subnet_epoch_index s) = Some r" for r
    using that by (auto simp: get_pin_def find_Some_iff)
  have fail: "proc_ok netuid rows (m\<lparr>mt_building := None, mt_outcome := x\<rparr>)" for x
    using assms(2) by (simp add: proc_ok_def opt_all_def)
  show "proc_ok netuid rows m'"
    using assms fail get conclude_ok(1) [OF _ assms(2)]
    by (auto simp: begin_ensure_def conclude_def Let_def proc_ok_def opt_all_def retain_def
        split: option.splits if_splits prod.splits)
  show "e = Answered (Some pin) \<Longrightarrow> pin \<in> set rows \<and> pr_epoch_index pin = es_subnet_epoch_index s"
    using assms(1,2) get by (auto simp: begin_ensure_def conclude_def Let_def cached_pin_def proc_ok_def opt_all_def
        split: option.splits if_splits prod.splits)
qed

lemma materialize_key:
  "materialize M sha256 encode runtime reads s previous now = Inr row \<Longrightarrow> pr_netuid row = es_netuid s \<and> pr_epoch_index row = es_subnet_epoch_index s"
  by (auto simp: materialize_def and_then_Inr build_pin_draft_def Let_def)

lemma finish_build_ok:
  assumes "finish_build M sha256 encode reads now rows m = (rows', m', answer)" "mt_building m = Some (s, runtime, previous)"
    and "proc_ok netuid rows m" "distinct (map pin_key rows)" "\<forall>r\<in>set rows. pr_netuid r = netuid"
  shows "distinct (map pin_key rows')" "\<forall>r\<in>set rows'. pr_netuid r = netuid" "prefix rows rows'" "proc_ok netuid rows' m'"
    and "answer = Some pin \<Longrightarrow> pin \<in> set rows' \<and> pr_epoch_index pin = es_subnet_epoch_index s"
proof -
  have s: "es_netuid s = netuid" using assms(2,3) by (simp add: proc_ok_def opt_all_def)
  consider (failed) err where "materialize M sha256 encode runtime reads s previous now = Inl err"
    | (lost) row where "materialize M sha256 encode runtime reads s previous now = Inr row" "insert_pin row rows = None"
    | (won) row rows2 where "materialize M sha256 encode runtime reads s previous now = Inr row" "insert_pin row rows = Some rows2"
    by (metis obj_sumE option.exhaust)
  then have "distinct (map pin_key rows') \<and> (\<forall>r\<in>set rows'. pr_netuid r = netuid) \<and> prefix rows rows' \<and> proc_ok netuid rows' m'
      \<and> (\<forall>pin. answer = Some pin \<longrightarrow> pin \<in> set rows' \<and> pr_epoch_index pin = es_subnet_epoch_index s)"
  proof cases
    case failed
    then have "rows' = rows" "conclude (Inl err) m = (m', answer)" using assms(1,2) by (simp_all add: finish_build_def)
    with conclude_ok [OF this(2) assms(3)] assms(4,5) show ?thesis by simp
  next
    case lost
    then have r: "rows' = rows" "conclude (Inr (get_pin rows (es_netuid s) (es_subnet_epoch_index s))) m = (m', answer)"
      using assms(1,2) by (auto simp: finish_build_def)
    have "pin \<in> set rows \<and> pr_epoch_index pin = es_subnet_epoch_index s"
      if "get_pin rows (es_netuid s) (es_subnet_epoch_index s) = Some pin" for pin
      using that by (auto simp: get_pin_def find_Some_iff)
    with conclude_ok [OF r(2) assms(3)] assms(4,5) r(1) show ?thesis by simp
  next
    case won
    then have r: "rows' = rows2" "conclude (Inr (Some row)) m = (m', answer)" using assms(1,2) by (simp_all add: finish_build_def)
    have a: "rows2 = rows @ [row]" using won(2) by (simp add: insert_pin_def split: if_splits)
    have "distinct (map pin_key rows2)" using pins.add_valid [OF assms(4) won(2)] .
    moreover have "proc_ok netuid rows2 m" by (rule proc_ok_mono [OF assms(3)]) (auto simp: a)
    from conclude_ok [OF r(2) this] have "proc_ok netuid rows2 m'" "answer = Some row" by (simp_all add: a)
    ultimately show ?thesis using materialize_key [OF won(1)] assms(5) s r(1) a by auto
  qed
  then show "distinct (map pin_key rows')" "\<forall>r\<in>set rows'. pr_netuid r = netuid" "prefix rows rows'" "proc_ok netuid rows' m'"
    "answer = Some pin \<Longrightarrow> pin \<in> set rows' \<and> pr_epoch_index pin = es_subnet_epoch_index s" by auto
qed

lemma latest_known_ok:
  assumes "latest_known db_ok netuid rows m = (m', answer)" "proc_ok netuid' rows m"
  shows "proc_ok netuid' rows m'" "answer = Some pin \<Longrightarrow> pin \<in> set rows"
proof -
  show p: "proc_ok netuid' rows m'"
    using assms latest_stored retain_ok by (auto simp: latest_known_def Let_def split: option.splits if_splits)
  have "answer = mt_current m'" using assms(1) by (auto simp: latest_known_def Let_def split: option.splits)
  with p show "answer = Some pin \<Longrightarrow> pin \<in> set rows" by (simp add: proc_ok_def opt_all_def)
qed

lemma world_change:
  assumes "world_ok netuid w" "distinct (map pin_key rows)" "\<forall>r\<in>set rows. pr_netuid r = netuid" "set (pw_rows w) \<subseteq> set rows"
    "proc_ok netuid rows m" "opt_all (\<lambda>pin. pin \<in> set rows \<and> opt_all (\<lambda>e. pr_epoch_index pin = e) epoch) answer"
  shows "world_ok netuid (log_answer p epoch answer (set_proc p m (w\<lparr>pw_rows := rows\<rparr>)))"
    "world_ok netuid (set_proc p m (w\<lparr>pw_rows := rows\<rparr>))"
proof -
  have a: "\<forall>a\<in>set (pw_answers w). answer_ok rows a" using assms(1) answer_ok_mono [OF _ assms(4)] by (auto simp: world_ok_def)
  have q: "\<forall>q. proc_ok netuid rows (pw_procs w q)" using assms(1) proc_ok_mono [OF _ assms(4)] by (auto simp: world_ok_def)
  show "world_ok netuid (set_proc p m (w\<lparr>pw_rows := rows\<rparr>))"
    using assms(2,3,5) a q by (simp add: world_ok_def set_proc_def)
  moreover have "\<forall>a\<in>set (case answer of None \<Rightarrow> [] | Some pin \<Rightarrow> [(p, epoch, pin)]). answer_ok rows a"
    using assms(6) by (cases answer) (simp_all add: answer_ok_def opt_all_def)
  ultimately show "world_ok netuid (log_answer p epoch answer (set_proc p m (w\<lparr>pw_rows := rows\<rparr>)))"
    by (auto simp: world_ok_def log_answer_def set_proc_def)
qed

text \<open>Every step keeps the invariant and the rows that were there.\<close>

lemma pin_step_ok:
  assumes "pin_step M sha256 encode netuid w w'" "world_ok netuid w"
  shows "world_ok netuid w' \<and> prefix (pw_rows w) (pw_rows w')"
  using assms
proof (induction rule: pin_step.induct)
  case (ensure s db w p m answer)
  have w: "distinct (map pin_key (pw_rows w))" "\<forall>r\<in>set (pw_rows w). pr_netuid r = netuid" "proc_ok netuid (pw_rows w) (pw_procs w p)"
    using ensure(3) by (auto simp: world_ok_def)
  note b = begin_ensure_ok [OF ensure(2) w(3) ensure(1)]
  have "opt_all (\<lambda>pin. pin \<in> set (pw_rows w) \<and> opt_all (\<lambda>e. pr_epoch_index pin = e) (Some (es_subnet_epoch_index s))) answer"
    using b(2) by (cases answer) (simp_all add: opt_all_def)
  from world_change(1) [OF ensure(3) w(1,2) subset_refl b(1) this, of p] show ?case
    by (simp add: log_answer_def set_proc_def)
next
  case (start s db w p m)
  have w: "distinct (map pin_key (pw_rows w))" "\<forall>r\<in>set (pw_rows w). pr_netuid r = netuid" "proc_ok netuid (pw_rows w) (pw_procs w p)"
    using start(3) by (auto simp: world_ok_def)
  from world_change(2) [OF start(3) w(1,2) subset_refl begin_ensure_ok(1) [OF start(2) w(3) start(1)], of None None p] show ?case
    by (simp add: set_proc_def opt_all_def)
next
  case (finish w p s runtime previous reads now rows m answer)
  have w: "distinct (map pin_key (pw_rows w))" "\<forall>r\<in>set (pw_rows w). pr_netuid r = netuid" "proc_ok netuid (pw_rows w) (pw_procs w p)"
    using finish(3) by (auto simp: world_ok_def)
  note b = finish_build_ok [OF finish(2,1) w(3,1,2)]
  have "opt_all (\<lambda>pin. pin \<in> set rows \<and> opt_all (\<lambda>e. pr_epoch_index pin = e) (Some (es_subnet_epoch_index s))) answer"
    using b(5) by (cases answer) (simp_all add: opt_all_def)
  from world_change(1) [OF finish(3) b(1,2) set_mono_prefix [OF b(3)] b(4) this] b(3) show ?case
    by (simp add: log_answer_def set_proc_def)
next
  case (cancel w p rows committed reads now)
  have w: "distinct (map pin_key (pw_rows w))" "\<forall>r\<in>set (pw_rows w). pr_netuid r = netuid" "proc_ok netuid (pw_rows w) (pw_procs w p)"
    using cancel(3) by (auto simp: world_ok_def)
  obtain s runtime previous where s: "mt_building (pw_procs w p) = Some (s, runtime, previous)" using cancel(1) by auto
  obtain rows2 m2 answer where f: "finish_build M sha256 encode reads now (pw_rows w) (pw_procs w p) = (rows2, m2, answer)" by (metis prod_cases3)
  have r: "distinct (map pin_key rows)" "\<forall>r\<in>set rows. pr_netuid r = netuid" "prefix (pw_rows w) rows"
    using finish_build_ok(1-3) [OF f s w(3,1,2)] w f cancel(2) by (auto split: if_splits)
  have "proc_ok netuid rows ((pw_procs w p)\<lparr>mt_building := None, mt_outcome := ''cancelled''\<rparr>)"
    using proc_ok_mono [OF w(3) set_mono_prefix [OF r(3)]] by (simp add: proc_ok_def opt_all_def)
  from world_change(2) [OF cancel(3) r(1,2) set_mono_prefix [OF r(3)] this, of None None] r(3) show ?case
    by (simp add: set_proc_def opt_all_def)
next
  case (latest db_ok w p m answer)
  have w: "distinct (map pin_key (pw_rows w))" "\<forall>r\<in>set (pw_rows w). pr_netuid r = netuid" "proc_ok netuid (pw_rows w) (pw_procs w p)"
    using latest(2) by (auto simp: world_ok_def)
  note b = latest_known_ok [OF latest(1) w(3)]
  have "opt_all (\<lambda>pin. pin \<in> set (pw_rows w) \<and> opt_all (\<lambda>e. pr_epoch_index pin = e) None) answer"
    using b(2) by (cases answer) (simp_all add: opt_all_def)
  from world_change(1) [OF latest(2) w(1,2) subset_refl b(1) this, of p] show ?case
    by (simp add: log_answer_def set_proc_def)
qed

lemma pin_run_ok: "pin_run M sha256 encode netuid w \<Longrightarrow> world_ok netuid w"
proof (induction rule: pin_run.induct)
  case begin_run
  show ?case by (simp add: world_ok_def initial_world_def initial_materializer_def proc_ok_def opt_all_def)
next
  case (step w w')
  then show ?case using pin_step_ok by blast
qed

text \<open>C5: Every validator folds the same pin. In every run of the platform, with any number of processes that
  build, race for the insert, fail, are cancelled or serve stale pins in any order, two answers for the
  same epoch are the same row, whichever process gave them and whether fresh or stale; a fresh answer is a pin of
  the epoch that was asked for; every answer is a stored row, and a stored row is never changed or removed.\<close>

theorem pins_never_mix:
  assumes "pin_run M sha256 encode netuid w" and "(p, asked, a) \<in> set (pw_answers w)" and "(q, asked', b) \<in> set (pw_answers w)"
  shows "(pr_epoch_index a = pr_epoch_index b \<longrightarrow> a = b) \<and> (asked \<noteq> None \<longrightarrow> asked = Some (pr_epoch_index a))
    \<and> get_pin (pw_rows w) netuid (pr_epoch_index a) = Some a
    \<and> (\<forall>w'. pin_step M sha256 encode netuid w w' \<longrightarrow> prefix (pw_rows w) (pw_rows w'))"
proof -
  have i: "world_ok netuid w" by (rule pin_run_ok [OF assms(1)])
  then have v: "distinct (map pin_key (pw_rows w))" by (simp add: world_ok_def)
  have "answer_ok (pw_rows w) (p, asked, a)" "answer_ok (pw_rows w) (q, asked', b)" using i assms(2,3) by (auto simp: world_ok_def)
  then have ab: "a \<in> set (pw_rows w)" "b \<in> set (pw_rows w)" "asked \<noteq> None \<longrightarrow> asked = Some (pr_epoch_index a)"
    by (auto simp: answer_ok_def opt_all_def split: option.splits)
  then have k: "pin_key a = (netuid, pr_epoch_index a)" "pin_key b = (netuid, pr_epoch_index b)"
    using i by (auto simp: pin_key_def world_ok_def)
  have "pr_epoch_index a = pr_epoch_index b \<Longrightarrow> a = b" using pins.key_unique [OF v ab(1,2)] k by simp
  moreover have "get_pin (pw_rows w) netuid (pr_epoch_index a) = Some a" using pins.lookup_stored [OF v ab(1)] k by simp
  ultimately show ?thesis using ab(3) pin_step_ok [OF _ i] by blast
qed

text \<open>Without the database, a process that has not seen a pin yet has none to serve, whatever is stored: the
  endpoint then falls through to the live read.\<close>

lemma database_error_serves_live:
  "begin_ensure db None rows m = (m, Answered None)"
  "latest_known False netuid rows initial_materializer = (initial_materializer, None)"
  "serve_epoch_pin True True (Some False) (Some False) None None = ServeLive"
  by (simp_all add: begin_ensure_def latest_known_def initial_materializer_def serve_epoch_pin_def)

subsection \<open>A concrete race\<close>

definition calm_runtime :: gamma_runtime where
  "calm_runtime = \<lparr>gr_treasury_weight_enforcement = False, gr_activation_epoch = None\<rparr>"

definition race_reads :: "nat \<Rightarrow> build_reads" where
  "race_reads i = \<lparr>br_snapshot = Inr example_snapshot, br_observed = Inr None, br_authorized = (\<lambda>_. Inl TypeError),
     br_runtime_unchanged = True, br_allocations_unchanged = True, br_emission_unchanged = True, br_snapshot_id = i\<rparr>"

lemma race_built:
  "materialize example_libm example_hash (\<lambda>_ _. []) calm_runtime (race_reads i) example_schedule None 0 = Inr (pinned_example i)"
  by (simp add: materialize_def race_reads_def enforcing_at_def calm_runtime_def with_treasury_def pinned_example_built)

lemma pinned_example_key:
  "pr_netuid (pinned_example i) = 118" "pr_epoch_index (pinned_example i) = 7" "pr_snapshot_id (pinned_example i) = i"
proof -
  show "pr_epoch_index (pinned_example i) = 7" by (rule example_served)
  have "sn_treasury_pin example_snapshot = None" "es_netuid example_schedule = 118"
    by (simp_all add: example_snapshot_def example_schedule_def)
  then show "pr_netuid (pinned_example i) = 118" "pr_snapshot_id (pinned_example i) = i"
    by (simp_all add: pinned_example_def build_pin_draft_def Let_def)
qed

theorem pins_never_mix_witness:
  "\<exists>w a b. pin_run example_libm example_hash (\<lambda>_ _. []) 118 w \<and> (0, Some 7, a) \<in> set (pw_answers w) \<and> (2, Some 7, b) \<in> set (pw_answers w)
     \<and> a = b \<and> get_pin (pw_rows w) 118 7 = Some a"
proof -
  let ?run = "pin_run example_libm example_hash (\<lambda>_ _. []) 118"
  let ?step = "pin_step example_libm example_hash (\<lambda>_ _. []) 118"
  let ?m = "initial_materializer\<lparr>mt_building := Some (example_schedule, calm_runtime, None)\<rparr>"
  have sch: "es_netuid example_schedule = 118" "es_subnet_epoch_index example_schedule = 7" by (simp_all add: example_schedule_def)
  have b: "begin_ensure (Some calm_runtime) (Some example_schedule) [] initial_materializer = (?m, Pending)"
    by (simp add: begin_ensure_def cached_pin_def initial_materializer_def get_pin_def latest_pin_def)
  define w1 where "w1 = set_proc 0 ?m initial_world"
  define w2 where "w2 = set_proc 2 ?m w1"
  have p2: "pw_rows w2 = []" "pw_procs w2 0 = ?m" "pw_procs w2 2 = ?m" "pw_answers w2 = []" "pw_rows w1 = []" "pw_procs w1 2 = initial_materializer"
    by (simp_all add: w1_def w2_def set_proc_def initial_world_def)
  have s1: "?step initial_world w1"
    unfolding w1_def by (rule pin_step.start [OF sch(1), where db = "Some calm_runtime"]) (simp add: initial_world_def b)
  have s2: "?step w1 w2" unfolding w2_def by (rule pin_step.start [OF sch(1), where db = "Some calm_runtime"]) (simp add: p2 b)
  obtain m0 where f0: "finish_build example_libm example_hash (\<lambda>_ _. []) (race_reads 10) 0 [] ?m = ([pinned_example 10], m0, Some (pinned_example 10))"
    by (cases "conclude (Inr (Some (pinned_example 10))) ?m")
      (auto simp: finish_build_def race_built insert_pin_def conclude_def Let_def)
  define w3 where "w3 = log_answer 0 (Some 7) (Some (pinned_example 10)) (set_proc 0 m0 (w2\<lparr>pw_rows := [pinned_example 10]\<rparr>))"
  have s3: "?step w2 w3"
    unfolding w3_def sch(2) [symmetric] by (rule pin_step.finish [where reads = "race_reads 10" and now = 0]) (simp_all add: p2 f0)
  have p3: "pw_rows w3 = [pinned_example 10]" "pw_procs w3 2 = ?m" "pw_answers w3 = [(0, Some 7, pinned_example 10)]"
    by (simp_all add: w3_def log_answer_def set_proc_def p2)
  obtain m1 where f1: "finish_build example_libm example_hash (\<lambda>_ _. []) (race_reads 11) 0 [pinned_example 10] ?m
      = ([pinned_example 10], m1, Some (pinned_example 10))"
    by (cases "conclude (Inr (Some (pinned_example 10))) ?m")
      (auto simp: finish_build_def race_built insert_pin_def get_pin_def pinned_example_key sch conclude_def Let_def)
  define w4 where "w4 = log_answer 2 (Some 7) (Some (pinned_example 10)) (set_proc 2 m1 (w3\<lparr>pw_rows := [pinned_example 10]\<rparr>))"
  have s4: "?step w3 w4"
    unfolding w4_def sch(2) [symmetric] by (rule pin_step.finish [where reads = "race_reads 11" and now = 0]) (simp_all add: p3 f1)
  have run: "?run w4" using s1 s2 s3 s4 by (meson pin_run.intros)
  have a: "(0, Some 7, pinned_example 10) \<in> set (pw_answers w4)" "(2, Some 7, pinned_example 10) \<in> set (pw_answers w4)"
    by (simp_all add: w4_def log_answer_def set_proc_def p3)
  from pins_never_mix [OF run a] have "get_pin (pw_rows w4) 118 7 = Some (pinned_example 10)" by (simp add: pinned_example_key)
  with run a show ?thesis by blast
qed

end
