(* ===== verification/Efficiency.thy ===== *)
theory Efficiency
  imports Koth Confirmation_Plan Service_Weights
begin

section \<open>The relative efficiency adjustment\<close>

text \<open>
  Models the pure half of \<^verbatim>\<open>apps/platform/ditto/api_server/efficiency.py\<close>: the audited token cost of a
  submission, the cohort that is frozen once per efficiency epoch (one entry per owner and per
  lineage), its robust reference cost, and the bonus or factor a submission is assigned against it. The
  factor is what the ledger serves and the validators apply (\<open>Weights_Score\<close>); the code's
  \<^verbatim>\<open>bounded_efficiency_factor\<close> is \<open>clamped_efficiency_factor\<close> here, since the validator has a function of the same name. A typed view of the stored
  evidence is the input: \<open>None\<close> is evidence that is missing or does not validate, and a raw number is a \<open>py_num\<close>. Scores are
  finite numbers, so sorting by them is a total order. The power function is the C library's.
\<close>

subsection \<open>Policy constants\<close>

definition MEMORY_FLOOR_FRACTION :: pyfloat where "MEMORY_FLOOR_FRACTION = rnd64 (8 / 10)"
definition FRONTIER_QUANTILE :: pyfloat where "FRONTIER_QUANTILE = Fin (1 / 4)"
definition CURVE_VERSION_SINGLE_TIER :: int where "CURVE_VERSION_SINGLE_TIER = 1"
definition CURVE_VERSION_TWO_TIER :: int where "CURVE_VERSION_TWO_TIER = 2"
definition BOUNDED_FACTOR_BENCH_VERSION :: int where "BOUNDED_FACTOR_BENCH_VERSION = 9"
definition V9_TOKEN_COST_QUORUM :: nat where "V9_TOKEN_COST_QUORUM = 3"

definition V9_SCORE_CONTRACT_REVISION :: string where "V9_SCORE_CONTRACT_REVISION = ''v9-base-enforce-efficiency-v1''"
definition V9_SCORE_CONTRACT_MANIFEST_SHA256 :: string where
  "V9_SCORE_CONTRACT_MANIFEST_SHA256 = ''861d161cd031d5c40a4c50f0ae0c3d4a4f99a8513ff7fc87239f22104ebe3bb8''"

definition is_factor_curve_opt :: "int option \<Rightarrow> bool" where
  "is_factor_curve_opt v \<longleftrightarrow> (case v of Some version \<Rightarrow> is_factor_curve version | None \<Rightarrow> False)"

subsection \<open>Audited cost\<close>

definition lineage_key :: "string option \<Rightarrow> string \<Rightarrow> string" where
  "lineage_key normalized_source_hash sha256 = (case normalized_source_hash of
     Some h \<Rightarrow> if h = [] then ''sha:'' @ sha256 else ''nsh:'' @ h
   | None \<Rightarrow> ''sha:'' @ sha256)"

text \<open>\<^verbatim>\<open>float(median(xs))\<close> of integers: the middle one, or half the sum of the middle two. Either
  conversion overflows beyond the binary64 range.\<close>

definition int_median :: "int list \<Rightarrow> py_error + pyfloat" where
  "int_median xs = (let ordered = sort xs; middle = length ordered div 2;
       m = (if odd (length ordered) then fint (ordered ! middle)
            else itruediv (ordered ! (middle - 1) + ordered ! middle) 2)
     in if isfinite m then Inr m else Inl OverflowError)"

record token_usage =
  tu_status :: "string option"
  tu_usage_unavailable :: py_num
  tu_total_tokens :: py_num

definition usage_total :: "token_usage \<Rightarrow> int option" where
  "usage_total u = (if tu_status u \<noteq> Some ''complete'' then None
     else case (tu_usage_unavailable u, tu_total_tokens u) of
       (NInt unavailable, NInt tokens) \<Rightarrow> if unavailable \<noteq> 0 \<or> tokens < 0 then None else Some tokens
     | _ \<Rightarrow> None)"

definition audited_token_total :: "token_usage option list \<Rightarrow> py_error + pyfloat option" where
  "audited_token_total blobs = (let totals = List.map_filter (\<lambda>b. Option.bind b usage_total) blobs in
     if totals = [] then Inr None else and_then (int_median totals) (\<lambda>m. Inr (Some m)))"

record v9_evidence =
  ve_digest :: string
  ve_bound_digest :: "string option"
  ve_revision :: string
  ve_manifest_sha256 :: string
  ve_profile_id :: string
  ve_profile_manifest_sha256 :: string
  ve_rollout_mode :: string
  ve_result :: string
  ve_factor_bps :: int
  ve_semantic_gate_factor_bps :: int
  ve_applied_gate_factor_bps :: int
  ve_successful_requests :: int
  ve_eligible_cases :: int
  ve_case_attribution_complete :: bool
  ve_successful_inference_cases :: int
  ve_prompt_tokens :: int
  ve_completion_tokens :: int

definition audited_v9_run_token_total :: "v9_evidence option \<Rightarrow> string option \<Rightarrow> int option" where
  "audited_v9_run_token_total details base_evidence_sha256 = (case details of
     None \<Rightarrow> None
   | Some e \<Rightarrow>
      (let expected = (case base_evidence_sha256 of Some d \<Rightarrow> if d = [] then ve_bound_digest e else Some d | None \<Rightarrow> ve_bound_digest e) in
       if expected \<noteq> Some (ve_digest e) then None
       else if ve_revision e \<noteq> V9_SCORE_CONTRACT_REVISION \<or> ve_manifest_sha256 e \<noteq> V9_SCORE_CONTRACT_MANIFEST_SHA256
         \<or> ve_profile_id e \<noteq> V9_SCORE_CONTRACT_REVISION \<or> ve_profile_manifest_sha256 e \<noteq> V9_SCORE_CONTRACT_MANIFEST_SHA256
         \<or> ve_rollout_mode e \<noteq> ''enforce'' \<or> ve_result e \<noteq> ''passed'' \<or> ve_factor_bps e \<noteq> 10000
         \<or> ve_semantic_gate_factor_bps e \<noteq> 10000 \<or> ve_applied_gate_factor_bps e \<noteq> 10000 \<or> ve_successful_requests e \<le> 0 then None
       else if ve_eligible_cases e \<le> 0 \<or> \<not> ve_case_attribution_complete e
         \<or> ve_successful_inference_cases e * 2 < ve_eligible_cases e \<or> ve_prompt_tokens e < ve_eligible_cases e * 200
         \<or> ve_prompt_tokens e < ve_successful_requests e * 300 then None
       else let tokens = ve_prompt_tokens e + ve_completion_tokens e in if tokens > 0 then Some tokens else None))"

fun continual_totals :: "py_num list \<Rightarrow> py_error + pyfloat list option" where
  "continual_totals [] = Inr (Some [])"
| "continual_totals (t # ts) = (case t of
     NBool _ \<Rightarrow> Inr None
   | NOther \<Rightarrow> Inr None
   | _ \<Rightarrow> and_then (num_float t) (\<lambda>x.
       if \<not> isfinite x \<or> fle x (Fin 0) then Inr None
       else and_then (continual_totals ts) (\<lambda>rest. Inr (map_option (\<lambda>xs. x # xs) rest))))"

definition audited_v9_token_total :: "v9_evidence option list \<Rightarrow> py_num list \<Rightarrow> bool \<Rightarrow> py_error + pyfloat option" where
  "audited_v9_token_total blobs continual_seed_token_totals continual_cost_evidence_valid =
     (let quorum = map (\<lambda>d. audited_v9_run_token_total d None) blobs in
      if length blobs \<noteq> V9_TOKEN_COST_QUORUM \<or> list_ex (\<lambda>t. t = None) quorum \<or> \<not> continual_cost_evidence_valid then Inr None
      else and_then (int_median (List.map_filter (\<lambda>t. t) quorum)) (\<lambda>quorum_cost.
        and_then (continual_totals continual_seed_token_totals) (\<lambda>totals. Inr (map_option (\<lambda>ts.
          let observations = quorum_cost # ts
          in fdiv (fsum observations) (fint (int (length observations)))) totals))))"

subsection \<open>The cohort\<close>

record efficiency_candidate =
  ec_agent_id :: nat
  ec_miner_hotkey :: string
  ec_lineage_key :: string
  ec_composite :: pyfloat
  ec_memory_mean :: pyfloat
  ec_token_total :: "pyfloat option"
  ec_first_seen :: int
  ec_owner_key :: "string option"
  ec_collapsed_agent_ids :: "nat list"

record cohort_member =
  cm_agent_id :: nat
  cm_miner_hotkey :: string
  cm_lineage_key :: string
  cm_composite :: pyfloat
  cm_memory_mean :: pyfloat
  cm_token_total :: pyfloat
  cm_collapsed_agent_ids :: "nat list"
  cm_first_seen :: int

datatype cohort_error = AssertionError | PercentileIndexError

definition candidate_key :: "efficiency_candidate \<Rightarrow> order_key" where
  "candidate_key c = score_order_key True (ec_composite c) (ec_first_seen c) (ec_agent_id c) None None"

definition member_key :: "cohort_member \<Rightarrow> order_key" where
  "member_key c = score_order_key True (cm_composite c) (cm_first_seen c) (cm_agent_id c) None None"

text \<open>\<^verbatim>\<open>dict.fromkeys\<close>: the distinct ids in the order of their first occurrence.\<close>

definition fromkeys :: "nat list \<Rightarrow> nat list" where
  "fromkeys = keep_first (\<lambda>x. x) {}"

definition lineage_member :: "string \<Rightarrow> efficiency_candidate list \<Rightarrow> cohort_error + cohort_member" where
  "lineage_member lineage grp = (case sort_key candidate_key grp of
     [] \<Rightarrow> Inl AssertionError
   | best # rest \<Rightarrow> (case ec_token_total best of
        None \<Rightarrow> Inl AssertionError
      | Some tokens \<Rightarrow> Inr \<lparr>cm_agent_id = ec_agent_id best, cm_miner_hotkey = ec_miner_hotkey best, cm_lineage_key = lineage,
          cm_composite = ec_composite best, cm_memory_mean = ec_memory_mean best, cm_token_total = tokens,
          cm_collapsed_agent_ids = fromkeys (ec_collapsed_agent_ids best @ map ec_agent_id rest @ concat (map ec_collapsed_agent_ids rest)),
          cm_first_seen = ec_first_seen best\<rparr>))"

definition dedupe_lineages :: "efficiency_candidate list \<Rightarrow> cohort_error + cohort_member list" where
  "dedupe_lineages candidates =
     and_then (collect (\<lambda>(lineage, grp). lineage_member lineage grp)
       (group_pairs [] (map (\<lambda>c. (ec_lineage_key c, c)) candidates))) (\<lambda>members. Inr (sort_key member_key members))"

definition owner_of :: "efficiency_candidate \<Rightarrow> string" where
  "owner_of c = (case ec_owner_key c of
     Some k \<Rightarrow> if k = [] then ''agent:'' @ uuid_str (ec_agent_id c) else k
   | None \<Rightarrow> ''agent:'' @ uuid_str (ec_agent_id c))"

definition owner_reference_key :: "efficiency_candidate \<Rightarrow> pyfloat \<times> pyfloat \<times> int \<times> string" where
  "owner_reference_key c = (fneg (ec_composite c), (case ec_token_total c of None \<Rightarrow> PInf | Some t \<Rightarrow> t), ec_first_seen c,
     uuid_str (ec_agent_id c))"

definition owner_choice :: "efficiency_candidate list \<Rightarrow> efficiency_candidate" where
  "owner_choice grp = (case sort_key owner_reference_key grp of
     [] \<Rightarrow> hd grp
   | best # rest \<Rightarrow> best\<lparr>ec_collapsed_agent_ids := fromkeys (ec_collapsed_agent_ids best @ map ec_agent_id rest)\<rparr>)"

definition dedupe_owners :: "efficiency_candidate list \<Rightarrow> efficiency_candidate list" where
  "dedupe_owners candidates = map (\<lambda>(owner, grp). owner_choice grp) (group_pairs [] (map (\<lambda>c. (owner_of c, c)) candidates))"

definition nearest_rank_percentile :: "pyfloat list \<Rightarrow> pyfloat \<Rightarrow> cohort_error + pyfloat" where
  "nearest_rank_percentile values fraction =
     (let ordered = sort values; n = int (length ordered);
          rank = min n (max 1 \<lceil>fin_val (fmul fraction (fint n))\<rceil>)
      in if ordered = [] then Inl PercentileIndexError else Inr (ordered ! nat (rank - 1)))"

definition qualifies :: "pyfloat \<Rightarrow> pyfloat \<Rightarrow> pyfloat option \<Rightarrow> pyfloat \<Rightarrow> pyfloat \<Rightarrow> bool" where
  "qualifies quality memory_mean token_total quality_floor memory_floor \<longleftrightarrow>
     token_total \<noteq> None \<and> fle quality_floor quality \<and> fle memory_floor memory_mean"

record cohort_policy =
  cp_bench_version :: int
  cp_run_size :: string
  cp_epoch_index :: int
  cp_cohort_limit :: nat
  cp_n_min :: nat
  cp_bonus_cap :: pyfloat
  cp_quality_floor :: pyfloat
  cp_memory_floor :: pyfloat
  cp_deep_bonus_cap :: "pyfloat option"
  cp_deep_frontier_ratio :: "pyfloat option"
  cp_factor_alpha :: "pyfloat option"
  cp_minimum_factor :: "pyfloat option"
  cp_maximum_factor :: "pyfloat option"

text \<open>The frozen snapshot: the policy it was built under, with the knobs its curve does not use cleared.\<close>

record cohort_reference = cohort_policy +
  cr_active :: bool
  cr_reference_p25_tokens :: "pyfloat option"
  cr_reference_median_tokens :: "pyfloat option"
  cr_members :: "cohort_member list"
  cr_curve_version :: int

definition qualified_candidates :: "cohort_policy \<Rightarrow> efficiency_candidate list \<Rightarrow> efficiency_candidate list" where
  "qualified_candidates policy candidates =
     filter (\<lambda>c. qualifies (ec_composite c) (ec_memory_mean c) (ec_token_total c) (cp_quality_floor policy) (cp_memory_floor policy)) candidates"

definition frozen_curve :: "cohort_policy \<Rightarrow> int option \<Rightarrow> int" where
  "frozen_curve policy curve_version = (case curve_version of
     Some v \<Rightarrow> v
   | None \<Rightarrow> if cp_deep_bonus_cap policy \<noteq> None \<and> cp_deep_frontier_ratio policy \<noteq> None then CURVE_VERSION_TWO_TIER else CURVE_VERSION_SINGLE_TIER)"

text \<open>The record the freeze returns: a knob is kept only by the curve that reads it.\<close>

definition frozen_reference ::
  "cohort_policy \<Rightarrow> int \<Rightarrow> cohort_member list \<Rightarrow> bool \<Rightarrow> pyfloat option \<Rightarrow> pyfloat option \<Rightarrow> cohort_reference" where
  "frozen_reference policy curve members active p25 med =
     (let tier = (\<lambda>v :: pyfloat option. if curve = CURVE_VERSION_TWO_TIER then v else None);
          factor = (\<lambda>v :: pyfloat option. if is_factor_curve_opt (Some curve) then v else None)
      in \<lparr>cp_bench_version = cp_bench_version policy, cp_run_size = cp_run_size policy, cp_epoch_index = cp_epoch_index policy,
          cp_cohort_limit = cp_cohort_limit policy, cp_n_min = cp_n_min policy, cp_bonus_cap = cp_bonus_cap policy,
          cp_quality_floor = cp_quality_floor policy, cp_memory_floor = cp_memory_floor policy,
          cp_deep_bonus_cap = tier (cp_deep_bonus_cap policy), cp_deep_frontier_ratio = tier (cp_deep_frontier_ratio policy),
          cp_factor_alpha = factor (cp_factor_alpha policy), cp_minimum_factor = factor (cp_minimum_factor policy),
          cp_maximum_factor = factor (cp_maximum_factor policy), cr_active = active, cr_reference_p25_tokens = p25,
          cr_reference_median_tokens = med, cr_members = members, cr_curve_version = curve\<rparr>)"

definition build_cohort_snapshot ::
  "cohort_policy \<Rightarrow> int option \<Rightarrow> efficiency_candidate list \<Rightarrow> cohort_error + cohort_reference" where
  "build_cohort_snapshot policy curve_version candidates =
     and_then (dedupe_lineages (dedupe_owners (qualified_candidates policy candidates))) (\<lambda>ranked.
     (let members = take (cp_cohort_limit policy) ranked;
          active = (cp_n_min policy \<le> length members);
          totals = map cm_token_total members
      in and_then (if active then and_then (nearest_rank_percentile totals FRONTIER_QUANTILE) (\<lambda>p. Inr (Some p)) else Inr None) (\<lambda>p25.
         Inr (frozen_reference policy (frozen_curve policy curve_version) members active p25
           (if active then Some (median totals) else None)))))"

subsection \<open>Factors and bonuses\<close>

definition clamped_efficiency_factor ::
  "libm \<Rightarrow> pyfloat \<Rightarrow> pyfloat \<Rightarrow> pyfloat \<Rightarrow> pyfloat \<Rightarrow> pyfloat \<Rightarrow> py_error + pyfloat" where
  "clamped_efficiency_factor M agent_cost reference_cost alpha minimum_factor maximum_factor =
     (if list_ex (\<lambda>v. \<not> isfinite v) [agent_cost, reference_cost, alpha, minimum_factor, maximum_factor] then Inr (Fin 1)
      else if fle agent_cost (Fin 0) \<or> fle reference_cost (Fin 0) \<or> \<not> (flt (Fin 0) alpha \<and> fle alpha (Fin 1))
        \<or> \<not> (fle (rnd64 (85 / 100)) minimum_factor \<and> fle minimum_factor (Fin 1))
        \<or> \<not> (fle (Fin 1) maximum_factor \<and> fle maximum_factor (rnd64 (11 / 10))) then Inr (Fin 1)
      else and_then (fpow M (fdiv reference_cost agent_cost) alpha) (\<lambda>raw.
        Inr (pmin (pmax raw minimum_factor) maximum_factor)))"

definition unbounded_efficiency_factor :: "libm \<Rightarrow> pyfloat \<Rightarrow> pyfloat \<Rightarrow> pyfloat \<Rightarrow> py_error + pyfloat" where
  "unbounded_efficiency_factor M agent_cost reference_cost alpha =
     (if list_ex (\<lambda>v. \<not> isfinite v) [agent_cost, reference_cost, alpha] then Inr (Fin 1)
      else if fle agent_cost (Fin 0) \<or> fle reference_cost (Fin 0) \<or> \<not> (flt (Fin 0) alpha \<and> fle alpha (Fin 1)) then Inr (Fin 1)
      else fpow M (fdiv reference_cost agent_cost) alpha)"

definition factor_for_submission ::
  "libm \<Rightarrow> pyfloat \<Rightarrow> pyfloat \<Rightarrow> pyfloat option \<Rightarrow> cohort_reference \<Rightarrow> py_error + pyfloat option" where
  "factor_for_submission M quality memory_mean token_total ref =
     (if \<not> is_factor_curve_opt (Some (cr_curve_version ref)) \<or> cp_bench_version ref < BOUNDED_FACTOR_BENCH_VERSION then Inr None
      else if \<not> cr_active ref then Inr None
      else case (token_total, cr_reference_p25_tokens ref, cp_factor_alpha ref) of
        (Some cost, Some p25, Some alpha) \<Rightarrow>
          and_then (if cr_curve_version ref = CURVE_VERSION_UNBOUNDED_FACTOR
               then and_then (unbounded_efficiency_factor M cost p25 alpha) (\<lambda>f. Inr (Some f))
               else (case (cp_minimum_factor ref, cp_maximum_factor ref) of
                   (Some lo, Some hi) \<Rightarrow> and_then (clamped_efficiency_factor M cost p25 alpha lo hi) (\<lambda>f. Inr (Some f))
                 | _ \<Rightarrow> Inr None)) (\<lambda>factor.
           Inr (map_option (\<lambda>f. if \<not> qualifies quality memory_mean token_total (cp_quality_floor ref) (cp_memory_floor ref)
                then pmin f (Fin 1) else f) factor))
      | _ \<Rightarrow> Inr None)"

definition bonus_fraction :: "pyfloat \<Rightarrow> pyfloat \<Rightarrow> pyfloat \<Rightarrow> pyfloat \<Rightarrow> pyfloat option \<Rightarrow> pyfloat option \<Rightarrow> pyfloat" where
  "bonus_fraction token_total p25 med cap deep_cap deep_frontier_ratio =
     (if fle token_total p25
      then (case (deep_cap, deep_frontier_ratio) of
          (Some deep, Some ratio) \<Rightarrow>
            (let deep_frontier = fmul ratio p25 in
             if fle token_total deep_frontier then deep
             else let span = fsub p25 deep_frontier in
               if fle span (Fin 0) then deep
               else fadd cap (fdiv (fmul (fsub deep cap) (fsub p25 token_total)) span))
        | _ \<Rightarrow> cap)
      else if fle med token_total then Fin 0
      else let span = fsub med p25 in
        if fle span (Fin 0) then Fin 0 else fdiv (fmul cap (fsub med token_total)) span)"

definition bonus_for_submission :: "pyfloat \<Rightarrow> pyfloat \<Rightarrow> pyfloat option \<Rightarrow> cohort_reference \<Rightarrow> pyfloat" where
  "bonus_for_submission quality memory_mean token_total ref =
     (case (cr_active ref, cr_reference_p25_tokens ref, cr_reference_median_tokens ref, token_total) of
        (True, Some p25, Some med, Some tokens) \<Rightarrow>
          if \<not> qualifies quality memory_mean token_total (cp_quality_floor ref) (cp_memory_floor ref) then Fin 0
          else let two_tier = (cr_curve_version ref = CURVE_VERSION_TWO_TIER) in
            bonus_fraction tokens p25 med (cp_bonus_cap ref) (if two_tier then cp_deep_bonus_cap ref else None)
              (if two_tier then cp_deep_frontier_ratio ref else None)
      | _ \<Rightarrow> Fin 0)"

subsection \<open>Floors of the next epoch\<close>

definition raw_numbers :: "py_num list \<Rightarrow> py_error + pyfloat list" where
  "raw_numbers raws = collect num_float (filter (\<lambda>v. v \<noteq> NOther) raws)"

definition floors_from_previous ::
  "(py_num \<times> py_num) list \<Rightarrow> pyfloat \<Rightarrow> pyfloat \<Rightarrow> int option \<Rightarrow> int option \<Rightarrow> py_error + (pyfloat \<times> pyfloat)" where
  "floors_from_previous previous_members quality_floor memory_floor previous_curve_version current_curve_version =
     (if is_factor_curve_opt current_curve_version \<and> \<not> is_factor_curve_opt previous_curve_version \<or> previous_members = []
      then Inr (quality_floor, memory_floor)
      else and_then (raw_numbers (map fst previous_members)) (\<lambda>composites.
        and_then (raw_numbers (map snd previous_members)) (\<lambda>memory_means.
        Inr (if composites = [] then quality_floor else pmax quality_floor (median composites),
             if memory_means = [] then memory_floor else pmax memory_floor (fmul MEMORY_FLOOR_FRACTION (median memory_means))))))"

subsection \<open>One entry per group\<close>

text \<open>
  Both dedupes have one shape: group the entries by a key in the order of first occurrence, then keep one result per group. The
  interface asks that the result of a group is named after one of its entries and does not depend on the
  order inside the group. Then the results are distinct and the order of arrival moves none of them.
\<close>

definition groups_by :: "('a \<Rightarrow> 'k) \<Rightarrow> 'a list \<Rightarrow> ('k, 'a list) dict" where
  "groups_by key xs = group_pairs [] (map (\<lambda>x. (key x, x)) xs)"

lemma groups_by_set: "set (groups_by key xs) = (\<lambda>j. (j, filter (\<lambda>x. key x = j) xs)) ` key ` set xs"
proof -
  have get: "map_of (groups_by key xs) j = (let g = filter (\<lambda>x. key x = j) xs in if g = [] then None else Some g)" for j
    by (simp add: groups_by_def group_pairs_get filter_map comp_def)
  have "p \<in> set (groups_by key xs) \<longleftrightarrow> map_of (groups_by key xs) (fst p) = Some (snd p)" for p
    by (cases p) (simp add: groups_by_def)
  then show ?thesis by (auto simp: get Let_def filter_empty_conv split: if_splits)
qed

lemma groups_by_distinct: "distinct (map fst (groups_by key xs))"
  by (simp add: groups_by_def)

lemma groups_by_perm: "mset xs = mset ys \<Longrightarrow> mset (map fst (groups_by key xs)) = mset (map fst (groups_by key ys))"
proof -
  assume "mset xs = mset ys"
  then have "set xs = set ys" by (rule mset_eq_setD)
  then have "set (map fst (groups_by key xs)) = set (map fst (groups_by key ys))"
    by (simp add: groups_by_set image_image)
  then show ?thesis using groups_by_distinct by (metis set_eq_iff_mset_eq_distinct)
qed

lemma groups_by_map:
  "map (\<lambda>(j, g). f j g) (groups_by key xs) = map (\<lambda>j. f j (filter (\<lambda>x. key x = j) xs)) (map fst (groups_by key xs))"
  by (auto simp: groups_by_set)

definition pick_groups :: "('a \<Rightarrow> 'k) \<Rightarrow> ('k \<Rightarrow> 'a list \<Rightarrow> 'b) \<Rightarrow> 'a list \<Rightarrow> 'b list" where
  "pick_groups key pick xs = map (\<lambda>(j, g). pick j g) (groups_by key xs)"

lemma pick_groups_eq: "pick_groups key pick xs = map (\<lambda>j. pick j (filter (\<lambda>x. key x = j) xs)) (map fst (groups_by key xs))"
  unfolding pick_groups_def by (rule groups_by_map)

lemma pick_groups_set: "set (pick_groups key pick xs) = (\<lambda>j. pick j (filter (\<lambda>x. key x = j) xs)) ` key ` set xs"
  by (auto simp: pick_groups_def groups_by_set)

locale group_choice =
  fixes key :: "'a \<Rightarrow> 'k" and pick :: "'k \<Rightarrow> 'a list \<Rightarrow> 'b" and ident :: "'a \<Rightarrow> 'i" and result_ident :: "'b \<Rightarrow> 'i"
  assumes pick_member: "g \<noteq> [] \<Longrightarrow> result_ident (pick j g) \<in> ident ` set g"
    and pick_perm: "mset g = mset h \<Longrightarrow> distinct (map ident g) \<Longrightarrow> pick j g = pick j h"
begin

lemma chosen_member:
  assumes "j \<in> key ` set xs"
  obtains x where "x \<in> set xs" "key x = j" "result_ident (pick j (filter (\<lambda>x. key x = j) xs)) = ident x"
proof -
  have "filter (\<lambda>x. key x = j) xs \<noteq> []" using assms by (auto simp: filter_empty_conv)
  from pick_member [OF this, of j] show ?thesis using that by auto
qed

lemma chosen_distinct:
  assumes "distinct (map ident xs)" shows "distinct (map result_ident (pick_groups key pick xs))"
proof -
  have "inj_on (\<lambda>j. result_ident (pick j (filter (\<lambda>x. key x = j) xs))) (key ` set xs)"
  proof (rule inj_onI)
    fix i j assume ij: "i \<in> key ` set xs" "j \<in> key ` set xs"
      and eq: "result_ident (pick i (filter (\<lambda>x. key x = i) xs)) = result_ident (pick j (filter (\<lambda>x. key x = j) xs))"
    obtain x y where x: "x \<in> set xs" "key x = i" "result_ident (pick i (filter (\<lambda>x. key x = i) xs)) = ident x"
      and y: "y \<in> set xs" "key y = j" "result_ident (pick j (filter (\<lambda>x. key x = j) xs)) = ident y"
      using ij by (metis chosen_member)
    then have "ident x = ident y" using eq by simp
    then have "x = y" using x(1) y(1) assms by (auto simp: distinct_map dest: inj_onD)
    then show "i = j" using x(2) y(2) by simp
  qed
  moreover have "map result_ident (pick_groups key pick xs)
      = map (\<lambda>j. result_ident (pick j (filter (\<lambda>x. key x = j) xs))) (map fst (groups_by key xs))"
    by (simp only: pick_groups_eq) simp
  moreover have "set (map fst (groups_by key xs)) = key ` set xs" by (simp add: groups_by_set image_image)
  ultimately show ?thesis using groups_by_distinct [of key xs] by (metis distinct_map)
qed

lemma chosen_perm:
  assumes "mset xs = mset ys" "distinct (map ident xs)" shows "mset (pick_groups key pick xs) = mset (pick_groups key pick ys)"
proof -
  have "pick j (filter P xs) = pick j (filter P ys)" for j P
    using assms by (intro pick_perm) (simp_all add: distinct_map_filter)
  moreover have "mset (map f (map fst (groups_by key xs))) = mset (map f (map fst (groups_by key ys)))" for f :: "'k \<Rightarrow> 'b"
    using groups_by_perm [OF assms(1), of key] by (metis mset_map)
  ultimately show ?thesis by (simp only: pick_groups_eq)
qed

end

lemma distinct_uuid_str:
  assumes "distinct (map f xs)" "\<forall>x\<in>set xs. f x < 2 ^ 128" shows "distinct (map (\<lambda>x. uuid_str (f x)) xs)"
proof -
  have "x = y" if "x \<in> set xs" "y \<in> set xs" "uuid_str (f x) = uuid_str (f y)" for x y
    using that assms uuid_str_inj [of "f x" "f y"] by (auto simp: distinct_map dest: inj_onD)
  then show ?thesis using assms(1) by (auto simp: distinct_map inj_on_def)
qed

lemma sort_key_hd_mem: "sort_key f g = b # r \<Longrightarrow> b \<in> set g"
  by (metis list.set_intros(1) set_sort)

abbreviation candidate_uuid :: "efficiency_candidate \<Rightarrow> string" where
  "candidate_uuid c \<equiv> uuid_str (ec_agent_id c)"

abbreviation member_uuid :: "cohort_member \<Rightarrow> string" where
  "member_uuid m \<equiv> uuid_str (cm_agent_id m)"

interpretation candidate_rank: canonical_order candidate_key candidate_uuid
  by unfold_locales (simp add: candidate_key_def score_order_key_def Let_def)

interpretation member_rank: canonical_order member_key member_uuid
  by unfold_locales (simp add: member_key_def score_order_key_def Let_def)

interpretation owner_rank: canonical_order owner_reference_key candidate_uuid
  by unfold_locales (simp add: owner_reference_key_def)

text \<open>The member a lineage contributes when its entries carry a cost, as a total function.\<close>

definition best_member :: "string \<Rightarrow> efficiency_candidate list \<Rightarrow> cohort_member" where
  "best_member lineage grp = (let ordered = sort_key candidate_key grp; best = hd ordered; rest = tl ordered in
     \<lparr>cm_agent_id = ec_agent_id best, cm_miner_hotkey = ec_miner_hotkey best, cm_lineage_key = lineage,
      cm_composite = ec_composite best, cm_memory_mean = ec_memory_mean best, cm_token_total = the (ec_token_total best),
      cm_collapsed_agent_ids = fromkeys (ec_collapsed_agent_ids best @ map ec_agent_id rest @ concat (map ec_collapsed_agent_ids rest)),
      cm_first_seen = ec_first_seen best\<rparr>)"

lemma sort_key_Nil_iff: "sort_key f g = [] \<longleftrightarrow> g = []"
  by (metis length_0_conv length_sort)

lemma lineage_member_best:
  assumes "g \<noteq> []" "\<forall>c\<in>set g. ec_token_total c \<noteq> None"
  shows "lineage_member lineage g = Inr (best_member lineage g)"
proof -
  obtain b r where sg: "sort_key candidate_key g = b # r" using assms(1) by (metis sort_key_Nil_iff neq_Nil_conv)
  then obtain t where "ec_token_total b = Some t" using assms(2) sort_key_hd_mem by (metis option.exhaust)
  then show ?thesis by (simp add: lineage_member_def best_member_def sg)
qed

lemma best_member_from:
  assumes "g \<noteq> []"
  shows "\<exists>c\<in>set g. cm_agent_id (best_member l g) = ec_agent_id c \<and> cm_composite (best_member l g) = ec_composite c
    \<and> cm_memory_mean (best_member l g) = ec_memory_mean c \<and> cm_token_total (best_member l g) = the (ec_token_total c)"
proof -
  obtain b r where sg: "sort_key candidate_key g = b # r" using assms(1) by (metis sort_key_Nil_iff neq_Nil_conv)
  then show ?thesis using sort_key_hd_mem [OF sg] by (intro bexI [of _ b]) (simp_all add: best_member_def)
qed

lemma owner_choice_from:
  assumes "g \<noteq> []"
  shows "\<exists>c\<in>set g. \<exists>ids. owner_choice g = c\<lparr>ec_collapsed_agent_ids := ids\<rparr>"
proof -
  obtain b r where sg: "sort_key owner_reference_key g = b # r" using assms(1) by (metis sort_key_Nil_iff neq_Nil_conv)
  then show ?thesis using sort_key_hd_mem [OF sg] by (auto simp: owner_choice_def)
qed

interpretation owners: group_choice owner_of "\<lambda>_. owner_choice" candidate_uuid candidate_uuid
proof unfold_locales
  fix g :: "efficiency_candidate list" assume "g \<noteq> []"
  then show "candidate_uuid (owner_choice g) \<in> candidate_uuid ` set g" using owner_choice_from [of g] by auto
next
  fix g h :: "efficiency_candidate list" assume gh: "mset g = mset h" "distinct (map candidate_uuid g)"
  show "owner_choice g = owner_choice h"
  proof (cases g)
    case Nil
    then show ?thesis using gh(1) by simp
  next
    case (Cons c cs)
    then have "sort_key owner_reference_key g \<noteq> []" by (simp only: sort_key_Nil_iff) simp
    then show ?thesis using owner_rank.order_free [OF gh] by (auto simp: owner_choice_def split: list.split)
  qed
qed

interpretation lineages: group_choice ec_lineage_key best_member candidate_uuid member_uuid
proof unfold_locales
  fix g :: "efficiency_candidate list" and l assume "g \<noteq> []"
  then show "member_uuid (best_member l g) \<in> candidate_uuid ` set g" using best_member_from [of g l] by auto
next
  fix g h :: "efficiency_candidate list" and l assume gh: "mset g = mset h" "distinct (map candidate_uuid g)"
  show "best_member l g = best_member l h" by (simp add: best_member_def candidate_rank.order_free [OF gh])
qed

lemma dedupe_owners_pick: "dedupe_owners cs = pick_groups owner_of (\<lambda>_. owner_choice) cs"
  by (simp add: dedupe_owners_def pick_groups_def groups_by_def)

lemma dedupe_lineages_pick:
  assumes "\<forall>c\<in>set cs. ec_token_total c \<noteq> None"
  shows "dedupe_lineages cs = Inr (sort_key member_key (pick_groups ec_lineage_key best_member cs))"
proof -
  have "collect (\<lambda>(l, g). lineage_member l g) (groups_by ec_lineage_key cs)
      = Inr (map (\<lambda>(l, g). best_member l g) (groups_by ec_lineage_key cs))"
    using assms by (intro collect_total) (auto simp: groups_by_set filter_empty_conv intro!: lineage_member_best)
  then show ?thesis by (simp add: dedupe_lineages_def pick_groups_def flip: groups_by_def)
qed

lemma dedupe_owners_tokens:
  assumes "\<forall>c\<in>set cs. ec_token_total c \<noteq> None" "d \<in> set (dedupe_owners cs)" shows "ec_token_total d \<noteq> None"
proof -
  obtain j where j: "j \<in> owner_of ` set cs" "d = owner_choice (filter (\<lambda>c. owner_of c = j) cs)"
    using assms(2) by (auto simp: dedupe_owners_pick pick_groups_set)
  then have "filter (\<lambda>c. owner_of c = j) cs \<noteq> []" by (auto simp: filter_empty_conv)
  from owner_choice_from [OF this] j(2) assms(1) show ?thesis by auto
qed

subsection \<open>The frozen cohort\<close>

definition cohort_ranking :: "cohort_policy \<Rightarrow> efficiency_candidate list \<Rightarrow> cohort_member list" where
  "cohort_ranking policy cs =
     sort_key member_key (pick_groups ec_lineage_key best_member (dedupe_owners (qualified_candidates policy cs)))"

lemma qualified_tokens: "\<forall>c\<in>set (qualified_candidates policy cs). ec_token_total c \<noteq> None"
  by (simp add: qualified_candidates_def qualifies_def)

lemma dedupe_ranking: "dedupe_lineages (dedupe_owners (qualified_candidates policy cs)) = Inr (cohort_ranking policy cs)"
  using dedupe_owners_tokens [OF qualified_tokens]
  by (subst dedupe_lineages_pick) (auto simp: cohort_ranking_def)

lemma snapshot_cong: "cohort_ranking policy cs = cohort_ranking policy ds \<Longrightarrow>
  build_cohort_snapshot policy v cs = build_cohort_snapshot policy v ds"
  by (simp add: build_cohort_snapshot_def dedupe_ranking)

lemma qualified_distinct: "distinct (map candidate_uuid cs) \<Longrightarrow> distinct (map candidate_uuid (qualified_candidates policy cs))"
  by (simp add: qualified_candidates_def distinct_map_filter)

lemma ranking_perm:
  assumes "mset cs = mset ds" "distinct (map candidate_uuid cs)"
  shows "cohort_ranking policy cs = cohort_ranking policy ds"
proof -
  let ?q = "qualified_candidates policy"
  have q: "mset (?q cs) = mset (?q ds)" using assms(1) by (simp add: qualified_candidates_def)
  note d = qualified_distinct [OF assms(2), of policy]
  have o: "mset (dedupe_owners (?q cs)) = mset (dedupe_owners (?q ds))" "distinct (map candidate_uuid (dedupe_owners (?q cs)))"
    unfolding dedupe_owners_pick by (rule owners.chosen_perm [OF q d], rule owners.chosen_distinct [OF d])
  show ?thesis unfolding cohort_ranking_def
    by (rule member_rank.order_free [OF lineages.chosen_perm [OF o] lineages.chosen_distinct [OF o(2)]])
qed

text \<open>The member at a rank of the sorted costs: how many costs are at most, and below, its own.\<close>

lemma sorted_rank_counts:
  assumes "sorted ys" "i < length ys"
  shows "i < length (filter (\<lambda>y. y \<le> ys ! i) ys)" "length (filter (\<lambda>y. y < ys ! i) ys) \<le> i"
proof -
  have "length (filter (\<lambda>y. y \<le> ys ! i) ys) = card {k. k < length ys \<and> ys ! k \<le> ys ! i}" by (rule length_filter_conv_card)
  moreover have "{..i} \<subseteq> {k. k < length ys \<and> ys ! k \<le> ys ! i}" using assms by (auto intro: sorted_nth_mono)
  ultimately show "i < length (filter (\<lambda>y. y \<le> ys ! i) ys)" by (metis (no_types, lifting) card_atMost card_mono finite_nat_set_iff_bounded mem_Collect_eq Suc_le_eq)
  have "length (filter (\<lambda>y. y < ys ! i) ys) = card {k. k < length ys \<and> ys ! k < ys ! i}" by (rule length_filter_conv_card)
  moreover have "{k. k < length ys \<and> ys ! k < ys ! i} \<subseteq> {..<i}"
    using assms by (auto simp: not_le [symmetric] dest: sorted_nth_mono)
  ultimately show "length (filter (\<lambda>y. y < ys ! i) ys) \<le> i" by (metis card_lessThan card_mono finite_lessThan)
qed

lemma quarter_rank:
  assumes "int n \<le> 2 ^ 53" shows "\<lceil>fin_val (fmul FRONTIER_QUANTILE (fint (int n)))\<rceil> = \<lceil>(of_nat n :: rat) / 4\<rceil>"
proof -
  have "fint (int n) = Fin (of_nat n)" using is64_of_int [of "int n"] assms by (simp add: fint_def is64_def)
  moreover have "(of_nat n :: rat) / 4 = of_int (int n) * 2 powi (-2)" by (simp add: power_int_def power2_eq_square)
  then have "is64 (of_nat n / 4)" using is64_scaled [of "int n" "-2"] assms by (simp del: power_int_minus)
  ultimately show ?thesis by (simp add: FRONTIER_QUANTILE_def arith_Fin is64_def fin_val_def)
qed

lemma frontier_percentile:
  assumes "values \<noteq> []" "int (length values) \<le> 2 ^ 53"
  obtains t where "nearest_rank_percentile values FRONTIER_QUANTILE = Inr t" "t \<in> set values"
    "length values \<le> 4 * length (filter (\<lambda>v. v \<le> t) values)" "4 * length (filter (\<lambda>v. v < t) values) < length values"
proof -
  define n where "n = length values"
  define r where "r = nat (\<lceil>(of_nat n :: rat) / 4\<rceil> - 1)"
  have n: "0 < n" using assms(1) by (simp add: n_def)
  have r: "r < n" "n \<le> 4 * (r + 1)" "4 * r < n" "min (int n) (max 1 \<lceil>(of_nat n :: rat) / 4\<rceil>) = int r + 1"
    using n unfolding r_def by (simp_all add: min_def max_def) linarith+
  let ?ys = "sort values"
  have len: "length (filter P values) = length (filter P ?ys)" for P by (metis filter_sort length_sort)
  have rl: "r < length ?ys" using r(1) by (simp add: n_def)
  have ne: "?ys \<noteq> []" using n by (simp add: n_def flip: length_greater_0_conv)
  have "nearest_rank_percentile values FRONTIER_QUANTILE = Inr (?ys ! r)"
    using quarter_rank [of "length values"] assms(2) ne r(4) by (simp add: nearest_rank_percentile_def Let_def n_def)
  moreover have "?ys ! r \<in> set values" using rl nth_mem [of r ?ys] by simp
  ultimately show ?thesis using that sorted_rank_counts [OF sorted_sort rl] r(2,3) by (auto simp: len n_def)
qed

subsection \<open>Who is in the cohort\<close>

text \<open>A member speaks for its own submission and for those that were collapsed into it.\<close>

definition represents :: "cohort_member \<Rightarrow> nat \<Rightarrow> bool" where
  "represents m i \<longleftrightarrow> i = cm_agent_id m \<or> i \<in> set (cm_collapsed_agent_ids m)"

lemma set_fromkeys [simp]: "set (fromkeys xs) = set xs"
  using keep_first_keys [of "\<lambda>x. x" "{}" xs] by (simp add: fromkeys_def)

lemma sort_key_hd_least:
  assumes "sort_key f g = b # r" "c \<in> set g" shows "f b \<le> f c"
proof -
  have "sorted (map f (b # r))" using assms(1) by (metis sorted_sort_key)
  moreover have "c \<in> set (b # r)" using assms by (metis set_sort)
  ultimately show ?thesis by auto
qed

lemma owner_choice_represents:
  assumes "c \<in> set g"
  shows "ec_agent_id c = ec_agent_id (owner_choice g) \<or> ec_agent_id c \<in> set (ec_collapsed_agent_ids (owner_choice g))"
    and "fneg (ec_composite (owner_choice g)) \<le> fneg (ec_composite c)"
proof -
  obtain b r where sg: "sort_key owner_reference_key g = b # r" using assms by (metis sort_key_Nil_iff neq_Nil_conv empty_iff list.set(1))
  have "c \<in> set (b # r)" using assms sg by (metis set_sort)
  then show "ec_agent_id c = ec_agent_id (owner_choice g) \<or> ec_agent_id c \<in> set (ec_collapsed_agent_ids (owner_choice g))"
    by (auto simp: owner_choice_def sg)
  show "fneg (ec_composite (owner_choice g)) \<le> fneg (ec_composite c)"
    using sort_key_hd_least [OF sg assms] by (auto simp: owner_choice_def sg owner_reference_key_def less_eq_prod_def)
qed

lemma best_member_represents:
  assumes "d \<in> set g"
  shows "represents (best_member l g) (ec_agent_id d)" "i \<in> set (ec_collapsed_agent_ids d) \<Longrightarrow> represents (best_member l g) i"
    and "fneg (cm_composite (best_member l g)) \<le> fneg (ec_composite d)"
proof -
  obtain b r where sg: "sort_key candidate_key g = b # r" using assms by (metis sort_key_Nil_iff neq_Nil_conv empty_iff list.set(1))
  have d: "d \<in> set (b # r)" using assms sg by (metis set_sort)
  then show "represents (best_member l g) (ec_agent_id d)" "i \<in> set (ec_collapsed_agent_ids d) \<Longrightarrow> represents (best_member l g) i"
    by (auto simp: represents_def best_member_def sg)
  show "fneg (cm_composite (best_member l g)) \<le> fneg (ec_composite d)"
    using sort_key_hd_least [OF sg assms]
    by (auto simp: best_member_def sg candidate_key_def score_order_key_def Let_def less_eq_prod_def)
qed

lemma ranking_represents:
  assumes "c \<in> set (qualified_candidates policy cs)"
  shows "\<exists>m\<in>set (cohort_ranking policy cs). represents m (ec_agent_id c) \<and> fneg (cm_composite m) \<le> fneg (ec_composite c)"
proof -
  let ?q = "qualified_candidates policy cs"
  define d where "d = owner_choice (filter (\<lambda>x. owner_of x = owner_of c) ?q)"
  have d: "d \<in> set (dedupe_owners ?q)" using assms by (auto simp: d_def dedupe_owners_pick pick_groups_set)
  note cd = owner_choice_represents [of c "filter (\<lambda>x. owner_of x = owner_of c) ?q", folded d_def]
  define m where "m = best_member (ec_lineage_key d) (filter (\<lambda>x. ec_lineage_key x = ec_lineage_key d) (dedupe_owners ?q))"
  have "m \<in> set (cohort_ranking policy cs)" using d by (auto simp: m_def cohort_ranking_def pick_groups_set)
  moreover note dm = best_member_represents [where d = d and l = "ec_lineage_key d"
    and g = "filter (\<lambda>x. ec_lineage_key x = ec_lineage_key d) (dedupe_owners ?q)", folded m_def]
  have "represents m (ec_agent_id c)" using cd(1) assms dm(1,2) d by (auto simp del: filter_filter)
  moreover have "fneg (cm_composite m) \<le> fneg (ec_composite c)" using cd(2) assms dm(3) d by (auto simp del: filter_filter)
  ultimately show ?thesis by blast
qed

lemma ranking_from:
  assumes "m \<in> set (cohort_ranking policy cs)"
  shows "\<exists>d\<in>set (dedupe_owners (qualified_candidates policy cs)). \<exists>c\<in>set (qualified_candidates policy cs).
    (\<exists>ids. d = c\<lparr>ec_collapsed_agent_ids := ids\<rparr>) \<and> cm_agent_id m = ec_agent_id c \<and> cm_composite m = ec_composite c
    \<and> cm_memory_mean m = ec_memory_mean c \<and> ec_token_total c = Some (cm_token_total m)"
proof -
  let ?q = "qualified_candidates policy cs"
  obtain l where l: "l \<in> ec_lineage_key ` set (dedupe_owners ?q)"
      "m = best_member l (filter (\<lambda>x. ec_lineage_key x = l) (dedupe_owners ?q))"
    using assms by (auto simp: cohort_ranking_def pick_groups_set)
  then have "filter (\<lambda>x. ec_lineage_key x = l) (dedupe_owners ?q) \<noteq> []" by (auto simp: filter_empty_conv)
  from best_member_from [OF this, of l] l(2) obtain d where d: "d \<in> set (dedupe_owners ?q)" "cm_agent_id m = ec_agent_id d"
      "cm_composite m = ec_composite d" "cm_memory_mean m = ec_memory_mean d" "cm_token_total m = the (ec_token_total d)"
    by auto
  then obtain j where j: "j \<in> owner_of ` set ?q" "d = owner_choice (filter (\<lambda>x. owner_of x = j) ?q)"
    by (auto simp: dedupe_owners_pick pick_groups_set)
  then have "filter (\<lambda>x. owner_of x = j) ?q \<noteq> []" by (auto simp: filter_empty_conv)
  from owner_choice_from [OF this] j(2) obtain c ids where c: "c \<in> set ?q" "d = c\<lparr>ec_collapsed_agent_ids := ids\<rparr>" by auto
  moreover have "ec_token_total c \<noteq> None" using qualified_tokens c(1) by blast
  ultimately show ?thesis using d by (intro bexI [of _ d] bexI [of _ c]) auto
qed

lemma ranking_distinct:
  shows "distinct (map cm_lineage_key (cohort_ranking policy cs))"
    and "distinct (map candidate_uuid cs) \<Longrightarrow> distinct (map member_uuid (cohort_ranking policy cs))"
proof -
  let ?p = "pick_groups ec_lineage_key best_member (dedupe_owners (qualified_candidates policy cs))"
  have eq: "distinct (map f (cohort_ranking policy cs)) \<longleftrightarrow> distinct (map f ?p)" for f :: "cohort_member \<Rightarrow> string"
    by (rule distinct_map_perm) (simp add: cohort_ranking_def)
  have "map cm_lineage_key ?p = map fst (groups_by ec_lineage_key (dedupe_owners (qualified_candidates policy cs)))"
    by (simp add: pick_groups_def best_member_def Let_def split_def)
  then show "distinct (map cm_lineage_key (cohort_ranking policy cs))" unfolding eq by (simp only: groups_by_distinct)
  assume "distinct (map candidate_uuid cs)"
  then show "distinct (map member_uuid (cohort_ranking policy cs))"
    unfolding eq dedupe_owners_pick by (intro lineages.chosen_distinct owners.chosen_distinct qualified_distinct)
qed

subsection \<open>What a snapshot promises\<close>

lemma frozen_reference_simps [simp]:
  "cr_members (frozen_reference policy curve ms active p25 med) = ms"
  "cr_active (frozen_reference policy curve ms active p25 med) = active"
  "cr_reference_p25_tokens (frozen_reference policy curve ms active p25 med) = p25"
  "cr_curve_version (frozen_reference policy curve ms active p25 med) = curve"
  "cp_bench_version (frozen_reference policy curve ms active p25 med) = cp_bench_version policy"
  by (simp_all add: frozen_reference_def Let_def)

lemma snapshot_result:
  assumes "0 < cp_n_min policy" "cp_cohort_limit policy \<le> 2 ^ 53"
  obtains ref where "build_cohort_snapshot policy v cs = Inr ref" "cr_members ref = take (cp_cohort_limit policy) (cohort_ranking policy cs)"
    "cr_active ref \<longleftrightarrow> cp_n_min policy \<le> length (cr_members ref)"
    "cr_active ref \<Longrightarrow> \<exists>t. cr_reference_p25_tokens ref = Some t \<and> t \<in> cm_token_total ` set (cr_members ref)
       \<and> length (cr_members ref) \<le> 4 * length (filter (\<lambda>m. cm_token_total m \<le> t) (cr_members ref))
       \<and> 4 * length (filter (\<lambda>m. cm_token_total m < t) (cr_members ref)) < length (cr_members ref)"
proof (cases "cp_n_min policy \<le> length (take (cp_cohort_limit policy) (cohort_ranking policy cs))")
  case False
  then show ?thesis by (intro that) (auto simp: build_cohort_snapshot_def dedupe_ranking Let_def)
next
  case True
  let ?ms = "take (cp_cohort_limit policy) (cohort_ranking policy cs)"
  have "map cm_token_total ?ms \<noteq> []" using True assms(1) by auto
  moreover have "int (length (map cm_token_total ?ms)) \<le> 2 ^ 53"
    using assms(2) by (simp add: min_le_iff_disj)
  ultimately obtain t where t: "nearest_rank_percentile (map cm_token_total ?ms) FRONTIER_QUANTILE = Inr t" "t \<in> set (map cm_token_total ?ms)"
      "length (map cm_token_total ?ms) \<le> 4 * length (filter (\<lambda>v. v \<le> t) (map cm_token_total ?ms))"
      "4 * length (filter (\<lambda>v. v < t) (map cm_token_total ?ms)) < length (map cm_token_total ?ms)"
    by (rule frontier_percentile)
  then show ?thesis using True
    by (intro that) (auto simp: build_cohort_snapshot_def dedupe_ranking Let_def filter_map comp_def)
qed

lemma owner_of_collapsed [simp]: "owner_of (c\<lparr>ec_collapsed_agent_ids := ids\<rparr>) = owner_of c"
  by (simp add: owner_of_def split: option.splits)

lemma owners_distinct:
  assumes "d \<in> set (dedupe_owners cs)" "e \<in> set (dedupe_owners cs)" "owner_of d = owner_of e" shows "d = e"
proof -
  have "owner_of (owner_choice (filter (\<lambda>c. owner_of c = j) cs)) = j" if "j \<in> owner_of ` set cs" for j
  proof -
    have "filter (\<lambda>c. owner_of c = j) cs \<noteq> []" using that by (auto simp: filter_empty_conv)
    from owner_choice_from [OF this] show ?thesis by auto
  qed
  then show ?thesis using assms by (auto simp: dedupe_owners_pick pick_groups_set)
qed

lemma ranking_owners_distinct:
  assumes "distinct (map candidate_uuid cs)" "m \<in> set (cohort_ranking policy cs)" "n \<in> set (cohort_ranking policy cs)"
    and "c \<in> set cs" "ec_agent_id c = cm_agent_id m" "d \<in> set cs" "ec_agent_id d = cm_agent_id n" "owner_of c = owner_of d"
  shows "m = n"
proof -
  have sub: "set (qualified_candidates policy cs) \<subseteq> set cs" by (auto simp: qualified_candidates_def)
  have same: "x = y" if "x \<in> set cs" "y \<in> set cs" "ec_agent_id x = ec_agent_id y" for x y
    using assms(1) that by (auto simp: distinct_map inj_on_def)
  obtain i where i: "c\<lparr>ec_collapsed_agent_ids := i\<rparr> \<in> set (dedupe_owners (qualified_candidates policy cs))"
    using ranking_from [OF assms(2)] same assms(4,5) sub by (metis subsetD)
  obtain j where j: "d\<lparr>ec_collapsed_agent_ids := j\<rparr> \<in> set (dedupe_owners (qualified_candidates policy cs))"
    using ranking_from [OF assms(3)] same assms(6,7) sub by (metis subsetD)
  have "owner_of (c\<lparr>ec_collapsed_agent_ids := i\<rparr>) = owner_of (d\<lparr>ec_collapsed_agent_ids := j\<rparr>)"
    using assms(8) by simp
  then have "c\<lparr>ec_collapsed_agent_ids := i\<rparr> = d\<lparr>ec_collapsed_agent_ids := j\<rparr>" by (rule owners_distinct [OF i j])
  then have "ec_agent_id (c\<lparr>ec_collapsed_agent_ids := i\<rparr>) = ec_agent_id (d\<lparr>ec_collapsed_agent_ids := j\<rparr>)" by (rule arg_cong)
  then have "member_uuid m = member_uuid n" using assms(5,7) by simp
  then show ?thesis using ranking_distinct(2) [OF assms(1)] assms(2,3) by (auto simp: distinct_map dest: inj_onD)
qed

definition sample_candidate :: "nat \<Rightarrow> efficiency_candidate" where
  "sample_candidate i = \<lparr>ec_agent_id = i, ec_miner_hotkey = ''hk'', ec_lineage_key = lineage_key None ''aa'', ec_composite = Fin (1 / 2),
     ec_memory_mean = Fin (1 / 2), ec_token_total = Some (fint 1000), ec_first_seen = int i, ec_owner_key = None, ec_collapsed_agent_ids = []\<rparr>"

definition sample_policy :: cohort_policy where
  "sample_policy = \<lparr>cp_bench_version = 9, cp_run_size = ''full'', cp_epoch_index = 0, cp_cohort_limit = 20, cp_n_min = 1, cp_bonus_cap = Fin 0,
     cp_quality_floor = Fin 0, cp_memory_floor = Fin 0, cp_deep_bonus_cap = None, cp_deep_frontier_ratio = None,
     cp_factor_alpha = Some (Fin (1 / 2)), cp_minimum_factor = Some (Fin 1), cp_maximum_factor = Some (Fin 1)\<rparr>"

text \<open>the frozen snapshot does not depend on the order in which the database returns the submissions: for any
  reordering of submissions with distinct ids, \<^verbatim>\<open>build_cohort_snapshot\<close> yields the same members in the same order, with the same collapsed
  ids, reference costs and activation (or the same error), so replaying the freeze reproduces it.\<close>

theorem cohort_order_free:
  assumes "mset cs = mset ds" "distinct (map ec_agent_id cs)" "\<forall>c\<in>set cs. ec_agent_id c < 2 ^ 128"
  shows "build_cohort_snapshot policy curve_version cs = build_cohort_snapshot policy curve_version ds"
  using assms by (intro snapshot_cong ranking_perm distinct_uuid_str)

theorem cohort_order_free_witness:
  "build_cohort_snapshot sample_policy (Some 4) [sample_candidate 1, sample_candidate 2]
     = build_cohort_snapshot sample_policy (Some 4) [sample_candidate 2, sample_candidate 1]"
  by (rule cohort_order_free) (simp_all add: sample_candidate_def)

text \<open>C19: with at least one required member the freeze never raises, and the cohort is sound: no more members than the limit, at most one per
  source lineage and at most one per owner, every member a submission that cleared both quality floors and carries an audited cost, copied
  unchanged. When the cohort is active its reference is a cost some member really had, at most a quarter of the members are strictly
  below it and at least a quarter at or below it: one lineage or one owner cannot set the frontier.\<close>

theorem cohort_sound:
  assumes "distinct (map ec_agent_id cs)" "\<forall>c\<in>set cs. ec_agent_id c < 2 ^ 128" "0 < cp_n_min policy" "cp_cohort_limit policy \<le> 2 ^ 53"
  shows "\<exists>ref. build_cohort_snapshot policy curve_version cs = Inr ref \<and> length (cr_members ref) \<le> cp_cohort_limit policy
    \<and> distinct (map cm_lineage_key (cr_members ref))
    \<and> (\<forall>m\<in>set (cr_members ref). \<forall>n\<in>set (cr_members ref). \<forall>c\<in>set cs. \<forall>d\<in>set cs.
         ec_agent_id c = cm_agent_id m \<and> ec_agent_id d = cm_agent_id n \<and> owner_of c = owner_of d \<longrightarrow> m = n)
    \<and> (\<forall>m\<in>set (cr_members ref). \<exists>c\<in>set cs. cm_agent_id m = ec_agent_id c \<and> cm_composite m = ec_composite c
         \<and> cm_memory_mean m = ec_memory_mean c \<and> ec_token_total c = Some (cm_token_total m)
         \<and> fle (cp_quality_floor policy) (ec_composite c) \<and> fle (cp_memory_floor policy) (ec_memory_mean c))
    \<and> (cr_active ref \<longleftrightarrow> cp_n_min policy \<le> length (cr_members ref))
    \<and> (cr_active ref \<longrightarrow> (\<exists>t. cr_reference_p25_tokens ref = Some t \<and> t \<in> cm_token_total ` set (cr_members ref)
         \<and> length (cr_members ref) \<le> 4 * length (filter (\<lambda>m. cm_token_total m \<le> t) (cr_members ref))
         \<and> 4 * length (filter (\<lambda>m. cm_token_total m < t) (cr_members ref)) < length (cr_members ref)))"
proof -
  obtain ref where ref: "build_cohort_snapshot policy curve_version cs = Inr ref"
      "cr_members ref = take (cp_cohort_limit policy) (cohort_ranking policy cs)"
      "cr_active ref \<longleftrightarrow> cp_n_min policy \<le> length (cr_members ref)"
    and p25: "cr_active ref \<Longrightarrow> \<exists>t. cr_reference_p25_tokens ref = Some t \<and> t \<in> cm_token_total ` set (cr_members ref)
       \<and> length (cr_members ref) \<le> 4 * length (filter (\<lambda>m. cm_token_total m \<le> t) (cr_members ref))
       \<and> 4 * length (filter (\<lambda>m. cm_token_total m < t) (cr_members ref)) < length (cr_members ref)"
    using snapshot_result [OF assms(3,4)] by metis
  have sub: "m \<in> set (cohort_ranking policy cs)" if "m \<in> set (cr_members ref)" for m
    using that ref(2) by (metis in_set_takeD)
  have "distinct (map cm_lineage_key (cr_members ref))"
    unfolding ref(2) take_map [symmetric] by (intro distinct_take ranking_distinct(1))
  moreover have "\<forall>m\<in>set (cr_members ref). \<forall>n\<in>set (cr_members ref). \<forall>c\<in>set cs. \<forall>d\<in>set cs.
         ec_agent_id c = cm_agent_id m \<and> ec_agent_id d = cm_agent_id n \<and> owner_of c = owner_of d \<longrightarrow> m = n"
    using ranking_owners_distinct [OF distinct_uuid_str [OF assms(1,2)] sub sub] by blast
  moreover have "\<exists>c\<in>set cs. cm_agent_id m = ec_agent_id c \<and> cm_composite m = ec_composite c
         \<and> cm_memory_mean m = ec_memory_mean c \<and> ec_token_total c = Some (cm_token_total m)
         \<and> fle (cp_quality_floor policy) (ec_composite c) \<and> fle (cp_memory_floor policy) (ec_memory_mean c)"
    if "m \<in> set (cr_members ref)" for m
    using ranking_from [OF sub [OF that]] by (force simp: qualified_candidates_def qualifies_def)
  moreover have "length (cr_members ref) \<le> cp_cohort_limit policy" using ref(2) by simp
  ultimately show ?thesis using ref(1,3) p25 by blast
qed

theorem cohort_sound_witness:
  "\<exists>ref. build_cohort_snapshot sample_policy (Some 4) [sample_candidate 1, sample_candidate 2] = Inr ref
     \<and> distinct (map cm_lineage_key (cr_members ref))"
  using cohort_sound [of "[sample_candidate 1, sample_candidate 2]" sample_policy "Some 4"]
  by (auto simp: sample_candidate_def sample_policy_def)

text \<open>C20: no qualified submission vanishes from the reference. Each one that clears both floors with an audited cost is either in the cohort,
  in person or listed among the collapsed ids of a member of at least its quality, or the cohort is full and every member's quality is at
  least its own.\<close>

theorem cohort_complete:
  assumes "0 < cp_n_min policy" "cp_cohort_limit policy \<le> 2 ^ 53" "c \<in> set cs"
    and "qualifies (ec_composite c) (ec_memory_mean c) (ec_token_total c) (cp_quality_floor policy) (cp_memory_floor policy)"
  shows "\<exists>ref. build_cohort_snapshot policy curve_version cs = Inr ref
    \<and> ((\<exists>m\<in>set (cr_members ref). represents m (ec_agent_id c) \<and> fle (ec_composite c) (cm_composite m))
       \<or> length (cr_members ref) = cp_cohort_limit policy \<and> (\<forall>m\<in>set (cr_members ref). fle (ec_composite c) (cm_composite m)))"
proof -
  let ?r = "cohort_ranking policy cs" and ?k = "cp_cohort_limit policy"
  obtain ref where ref: "build_cohort_snapshot policy curve_version cs = Inr ref" "cr_members ref = take ?k ?r"
    using snapshot_result [OF assms(1,2)] by metis
  have quality: "fle (ec_composite c) (cm_composite m)" if "m \<in> set ?r" "fneg (cm_composite m) \<le> fneg (ec_composite c)" for m
  proof -
    have "cm_composite m \<noteq> NaN" using ranking_from [OF that(1)] by (auto simp: qualified_candidates_def qualifies_def)
    moreover have "ec_composite c \<noteq> NaN" using assms(4) by (auto simp: qualifies_def)
    ultimately show ?thesis using that(2) by (simp add: fneg_mono fle_def)
  qed
  obtain m where m: "m \<in> set ?r" "represents m (ec_agent_id c)" "fneg (cm_composite m) \<le> fneg (ec_composite c)"
    using ranking_represents [of c policy cs] assms(3,4) by (auto simp: qualified_candidates_def)
  show ?thesis
  proof (cases "m \<in> set (take ?k ?r)")
    case True
    then show ?thesis using ref m quality by auto
  next
    case False
    then obtain i where i: "i < length ?r" "?r ! i = m" "?k \<le> i" using m(1) by (auto simp: in_set_conv_nth not_less [symmetric])
    have "fle (ec_composite c) (cm_composite n)" if n: "n \<in> set (take ?k ?r)" for n
    proof -
      obtain j where j: "j < ?k" "j < length ?r" "n = ?r ! j" using n by (auto simp: in_set_conv_nth)
      have "sorted (map member_key ?r)" by (simp add: cohort_ranking_def)
      then have "member_key n \<le> member_key m" using i j sorted_nth_mono [of "map member_key ?r" j i] by auto
      then have "fneg (cm_composite n) \<le> fneg (cm_composite m)"
        by (auto simp: member_key_def score_order_key_def Let_def less_eq_prod_def)
      then show ?thesis using m(3) n by (intro quality) (auto dest: in_set_takeD)
    qed
    then show ?thesis using ref i by auto
  qed
qed

theorem cohort_complete_witness:
  "\<exists>ref. build_cohort_snapshot sample_policy (Some 4) [sample_candidate 1, sample_candidate 2] = Inr ref
     \<and> ((\<exists>m\<in>set (cr_members ref). represents m (ec_agent_id (sample_candidate 2)) \<and> fle (ec_composite (sample_candidate 2)) (cm_composite m))
       \<or> length (cr_members ref) = cp_cohort_limit sample_policy
         \<and> (\<forall>m\<in>set (cr_members ref). fle (ec_composite (sample_candidate 2)) (cm_composite m)))"
  by (rule cohort_complete) (simp_all add: sample_candidate_def sample_policy_def qualifies_def)

subsection \<open>From the assigned factor to the validator\<close>

text \<open>What the C library documents of \<^verbatim>\<open>pow\<close> at the exponents of the curve, which lie in \<open>(0, 1]\<close>: of a base that is not negative
  it is not negative, it is zero only of zero, it overflows only on an infinite base, and it is exactly one of one.\<close>

definition pow_root :: "libm \<Rightarrow> bool" where
  "pow_root M \<longleftrightarrow> (\<forall>x y. flt (Fin 0) y \<and> fle y (Fin 1) \<longrightarrow> lm_pow M (Fin 1) y = Fin 1
     \<and> (flt (Fin 0) x \<longrightarrow> flt (Fin 0) (lm_pow M x y)) \<and> (isfinite x \<longrightarrow> isfinite (lm_pow M x y)))"

definition linear_libm :: libm where
  "linear_libm = \<lparr>lm_exp = (\<lambda>x. Fin 1), lm_pow = (\<lambda>x y. x)\<rparr>"

lemma pow_root_linear: "pow_root linear_libm"
  by (simp add: pow_root_def linear_libm_def)

definition plausible_cost :: "rat \<Rightarrow> bool" where
  "plausible_cost a \<longleftrightarrow> 1 \<le> a \<and> a \<le> 2 ^ 64"

lemma cost_ratio:
  assumes "plausible_cost a" "plausible_cost b"
  obtains v where "fdiv (Fin b) (Fin a) = Fin v" "0 < v" "a = b \<Longrightarrow> v = 1"
proof -
  have ab: "1 \<le> a" "a \<le> 2 ^ 64" "1 \<le> b" "b \<le> 2 ^ 64" using assms by (simp_all add: plausible_cost_def)
  have "is64 (1 / 2 ^ 64)" "is64 (2 ^ 64)"
    using is64_scaled [of 1 "-64"] is64_scaled [of 1 64] by (simp_all add: power_int_def power_one_over)
  moreover have "1 / 2 ^ 64 \<le> b / a" using ab by (intro frac_le) auto
  moreover have "b / a \<le> 2 ^ 64 / 1" using ab by (intro frac_le) auto
  ultimately obtain v where v: "rnd64 (b / a) = Fin v" "1 / 2 ^ 64 \<le> v" using b64.rd_between [of "1 / 2 ^ 64" "2 ^ 64" "b / a"] by auto
  have "0 < v" by (rule less_le_trans [OF _ v(2)]) simp
  moreover have "v = 1" if "a = b" using that v(1) ab is64_numerals(2) by (simp add: is64_def)
  ultimately show ?thesis using that v(1) ab by (auto simp: arith_Fin)
qed

text \<open>The raw curve value is a positive float, one at the reference cost.\<close>

lemma curve_power:
  assumes "pow_root M" "plausible_cost a" "plausible_cost b" "flt (Fin 0) alpha" "fle alpha (Fin 1)"
  obtains v where "fpow M (fdiv (Fin b) (Fin a)) alpha = Inr (Fin v)" "0 < v" "a = b \<Longrightarrow> v = 1"
proof -
  obtain r where r: "fdiv (Fin b) (Fin a) = Fin r" "0 < r" "a = b \<Longrightarrow> r = 1" using cost_ratio [OF assms(2,3)] by metis
  have p: "lm_pow M (Fin 1) alpha = Fin 1" "flt (Fin 0) (lm_pow M (Fin r) alpha)" "isfinite (lm_pow M (Fin r) alpha)"
    using assms(1,4,5) r(2) by (auto simp: pow_root_def)
  then obtain v where v: "lm_pow M (Fin r) alpha = Fin v" by (auto simp: isfinite_iff)
  have "v = 1" if "a = b" using r(3) [OF that] p(1) v by simp
  then show ?thesis using that [of v] r p v by (auto simp: fpow_def Let_def)
qed

lemma clamp_range:
  assumes "lo \<le> 1" "1 \<le> hi"
  shows "\<exists>w. pmin (pmax (Fin v) (Fin lo)) (Fin hi) = Fin w \<and> lo \<le> w \<and> w \<le> hi \<and> (v = 1 \<longrightarrow> w = 1)"
  using assms by (auto simp: pmin_def pmax_def)

lemma curve_bounds: obtains l h where "rnd64 (85 / 100) = Fin l" "0 < l" "l \<le> 1" "rnd64 (11 / 10) = Fin h" "1 \<le> h"
proof -
  obtain l where l: "rnd64 (85 / 100) = Fin l" "1 / 2 \<le> l" "l \<le> 1" using b64.rd_between [of "1 / 2" 1 "85 / 100"] by auto
  obtain h where "rnd64 (11 / 10) = Fin h" "1 \<le> h" using b64.rd_between [of 1 2 "11 / 10"] by auto
  with l show ?thesis using that by auto
qed

lemma clamped_factor_result:
  assumes "pow_root M" "plausible_cost a" "plausible_cost b"
  shows "\<exists>w. clamped_efficiency_factor M (Fin a) (Fin b) alpha lo hi = Inr (Fin w) \<and> fle (rnd64 (85 / 100)) (Fin w) \<and> fle (Fin w) (rnd64 (11 / 10))
    \<and> (a = b \<longrightarrow> w = 1)"
proof -
  obtain l h where lh: "rnd64 (85 / 100) = Fin l" "0 < l" "l \<le> 1" "rnd64 (11 / 10) = Fin h" "1 \<le> h" by (rule curve_bounds)
  have pos: "0 < a" "0 < b" using assms(2,3) by (auto simp: plausible_cost_def)
  consider (neutral) "clamped_efficiency_factor M (Fin a) (Fin b) alpha lo hi = Inr (Fin 1)"
    | (curve) p q where "lo = Fin p" "hi = Fin q" "flt (Fin 0) alpha" "fle alpha (Fin 1)" "l \<le> p" "p \<le> 1" "1 \<le> q" "q \<le> h"
      "clamped_efficiency_factor M (Fin a) (Fin b) alpha lo hi
         = and_then (fpow M (fdiv (Fin b) (Fin a)) alpha) (\<lambda>raw. Inr (pmin (pmax raw lo) hi))"
  proof (cases "clamped_efficiency_factor M (Fin a) (Fin b) alpha lo hi = Inr (Fin 1)")
    case False
    then have "isfinite lo" "isfinite hi" "flt (Fin 0) alpha" "fle alpha (Fin 1)" "fle (rnd64 (85 / 100)) lo" "fle lo (Fin 1)"
        "fle (Fin 1) hi" "fle hi (rnd64 (11 / 10))"
        "clamped_efficiency_factor M (Fin a) (Fin b) alpha lo hi
           = and_then (fpow M (fdiv (Fin b) (Fin a)) alpha) (\<lambda>raw. Inr (pmin (pmax raw lo) hi))"
      unfolding clamped_efficiency_factor_def by (auto split: if_splits)
    then show ?thesis using lh(1,4) curve [of "fin_val lo" "fin_val hi"] by (auto simp: isfinite_iff fin_val_def)
  qed
  then show ?thesis
  proof cases
    case neutral
    then show ?thesis using lh by simp
  next
    case curve
    obtain v where v: "fpow M (fdiv (Fin b) (Fin a)) alpha = Inr (Fin v)" "a = b \<Longrightarrow> v = 1"
      using curve_power [OF assms curve(3,4)] by metis
    obtain w where "pmin (pmax (Fin v) (Fin p)) (Fin q) = Fin w" "p \<le> w" "w \<le> q" "v = 1 \<longrightarrow> w = 1"
      using clamp_range [OF curve(6,7)] by metis
    then show ?thesis using curve v lh by auto
  qed
qed

lemma unbounded_factor_result:
  assumes "pow_root M" "plausible_cost a" "plausible_cost b"
  shows "\<exists>w. unbounded_efficiency_factor M (Fin a) (Fin b) alpha = Inr (Fin w) \<and> 0 < w \<and> (a = b \<longrightarrow> w = 1)"
proof -
  have pos: "0 < a" "0 < b" using assms(2,3) by (auto simp: plausible_cost_def)
  show ?thesis
  proof (cases "flt (Fin 0) alpha \<and> fle alpha (Fin 1)")
    case True
    moreover have "isfinite alpha" using True by (cases alpha) (auto simp: flt_def fle_def)
    ultimately show ?thesis using pos curve_power [OF assms, of alpha] by (simp add: unbounded_efficiency_factor_def) metis
  next
    case False
    then show ?thesis using pos by (auto simp: unbounded_efficiency_factor_def)
  qed
qed



end
