(* ===== verification/Json.thy ===== *)
theory Json
  imports Treasury
begin

section \<open>Canonical JSON\<close>

text \<open>
  \<^verbatim>\<open>json.dumps(value, sort_keys=True, separators=(",", ":"))\<close>, the text every treasury journal hashes. Values are
  modelled as the tree \<^verbatim>\<open>json\<close> walks; the text of a tree determines it, so a digest over the text is a digest over the value.
\<close>

datatype json = JNull | JBool bool | JInt int | JString string | JArray "json list" | JObject "(string \<times> json) list"

subsection \<open>Printing\<close>

text \<open>\<^verbatim>\<open>ensure_ascii\<close>: quotes, backslashes and everything outside the printable ASCII range are escaped.\<close>

definition backslash :: char where "backslash = CHR 0x5C"

definition escape :: "char \<Rightarrow> string" where
  "escape c = (let n = of_char c :: nat in
     if n = 34 then [backslash, CHR 0x22] else if n = 92 then [backslash, backslash]
     else if n = 10 then [backslash, CHR ''n''] else if n = 13 then [backslash, CHR ''r'']
     else if n = 9 then [backslash, CHR ''t''] else if n = 12 then [backslash, CHR ''f'']
     else if n = 8 then [backslash, CHR ''b''] else if 32 \<le> n \<and> n \<le> 126 then [c]
     else [backslash, CHR ''u'', CHR ''0'', CHR ''0'', hex_digit (n div 16), hex_digit (n mod 16)])"

definition json_quote :: "string \<Rightarrow> string" where
  "json_quote s = CHR 0x22 # concat (map escape s) @ [CHR 0x22]"

definition json_member :: "string \<times> string \<Rightarrow> string" where
  "json_member p = json_quote (fst p) @ CHR '':'' # snd p"

primrec json_text :: "json \<Rightarrow> string" where
  "json_text JNull = ''null''"
| "json_text (JBool b) = (if b then ''true'' else ''false'')"
| "json_text (JInt i) = dec_int i"
| "json_text (JString s) = json_quote s"
| "json_text (JArray xs) = CHR ''['' # json_join (map json_text xs) @ '']''"
| "json_text (JObject kvs) = CHR ''{'' # json_join (map json_member (map (map_prod id json_text) kvs)) @ ''}''"

primrec json_sort :: "json \<Rightarrow> json" where
  "json_sort JNull = JNull"
| "json_sort (JBool b) = JBool b"
| "json_sort (JInt i) = JInt i"
| "json_sort (JString s) = JString s"
| "json_sort (JArray xs) = JArray (map json_sort xs)"
| "json_sort (JObject kvs) = JObject (sort_key fst (map (map_prod id json_sort) kvs))"

definition canonical :: "json \<Rightarrow> string" where
  "canonical j = json_text (json_sort j)"

definition json_opt_string :: "string option \<Rightarrow> json" where
  "json_opt_string s = (case s of None \<Rightarrow> JNull | Some t \<Rightarrow> JString t)"

definition json_opt_int :: "int option \<Rightarrow> json" where
  "json_opt_int n = (case n of None \<Rightarrow> JNull | Some i \<Rightarrow> JInt i)"

text \<open>\<^verbatim>\<open>hashlib.sha256(text.encode()).hexdigest()\<close>.\<close>

definition hexdigest :: "hash_fun \<Rightarrow> string \<Rightarrow> string" where
  "hexdigest sha256 message = hex_of (sha256 (utf8 message))"

subsection \<open>Reading a character back\<close>

fun unescape :: "string \<Rightarrow> (char \<times> string) option" where
  "unescape [] = None"
| "unescape (c # r) = (if c \<noteq> backslash then Some (c, r) else (case r of
     [] \<Rightarrow> None
   | e # t \<Rightarrow> if e = CHR ''n'' then Some (char_of (10 :: nat), t) else if e = CHR ''r'' then Some (char_of (13 :: nat), t)
       else if e = CHR ''t'' then Some (char_of (9 :: nat), t) else if e = CHR ''f'' then Some (char_of (12 :: nat), t)
       else if e = CHR ''b'' then Some (char_of (8 :: nat), t)
       else if e = CHR ''u'' then (case t of _ # _ # x # y # z \<Rightarrow> Some (char_of (16 * hex_val x + hex_val y), z) | _ \<Rightarrow> None)
       else Some (e, t)))"

lemma hex_val_digit: "n < 16 \<Longrightarrow> hex_val (hex_digit n) = n"
  by (simp add: hex_digit_def hex_val_def less_Suc_eq numeral_eq_Suc) (elim disjE; simp)

lemma unescape_escape: "unescape (escape c @ r) = Some (c, r)"
proof -
  define n where "n = (of_char c :: nat)"
  have c: "c = char_of n" and n: "n < 256" by (simp_all add: n_def)
  have marks: "CHR 0x22 = char_of (34 :: nat)" "CHR 0x5C = char_of (92 :: nat)"
    by (simp_all add: char_of_eq_iff take_bit_eq_mod eq_commute [of _ "char_of _"])
  show ?thesis
  proof (cases "n \<in> {34, 92, 10, 13, 9, 12, 8}")
    case True
    then show ?thesis
      by (elim insertE emptyE) (simp_all add: c escape_def backslash_def char_of_eq_iff take_bit_eq_mod, simp_all add: marks)
  next
    case False
    show ?thesis
    proof (cases "32 \<le> n \<and> n \<le> 126")
      case True
      have "c \<noteq> backslash" using False by (auto simp: n_def backslash_def)
      then show ?thesis using True False by (simp add: escape_def flip: n_def)
    next
      case o: False
      have "char_of (16 * (n div 16) + n mod 16) = c" by (simp add: c)
      then show ?thesis using False o n
        by (auto simp: escape_def hex_val_digit backslash_def simp flip: n_def)
    qed
  qed
qed

lemma escape_split: "escape c @ r = escape d @ u \<Longrightarrow> c = d \<and> r = u"
  by (metis unescape_escape option.inject prod.inject)

lemma escape_first: "escape c @ r \<noteq> CHR 0x22 # u"
  by (auto simp: escape_def backslash_def Let_def)

lemma json_quote_split: "json_quote s @ r = json_quote t @ u \<Longrightarrow> s = t \<and> r = u"
proof -
  assume "json_quote s @ r = json_quote t @ u"
  then have "concat (map escape s) @ CHR 0x22 # r = concat (map escape t) @ CHR 0x22 # u" by (simp add: json_quote_def)
  then show ?thesis
  proof (induction s arbitrary: t)
    case Nil
    then show ?case by (cases t) (auto dest: escape_first [THEN notE, OF sym])
  next
    case (Cons c s)
    then obtain d t' where t: "t = d # t'" by (cases t) (auto dest: escape_first [THEN notE])
    then have "c = d \<and> concat (map escape s) @ CHR 0x22 # r = concat (map escape t') @ CHR 0x22 # u"
      using Cons.prems escape_split [of c "concat (map escape s) @ CHR 0x22 # r" d "concat (map escape t') @ CHR 0x22 # u"] by simp
    then show ?case using Cons.IH t by blast
  qed
qed

subsection \<open>The text determines the value\<close>

definition json_stop :: "char \<Rightarrow> bool" where
  "json_stop c \<longleftrightarrow> c = CHR '','' \<or> c = CHR ''}'' \<or> c = CHR '']''"

lemma stop_not_num: "json_stop c \<Longrightarrow> \<not> num_char c"
  by (auto simp: json_stop_def num_char_def)

lemma json_member_split:
  assumes "delimited_code enc ok json_stop"
  shows "delimited_code (\<lambda>p. json_member (map_prod id enc p)) (\<lambda>p. ok (snd p)) json_stop"
proof
  fix p q :: "string \<times> 'a" and c d r u
  assume a: "ok (snd p)" "ok (snd q)" "json_stop c" "json_stop d"
    "json_member (map_prod id enc p) @ c # r = json_member (map_prod id enc q) @ d # u"
  then have "fst p = fst q \<and> enc (snd p) @ c # r = enc (snd q) @ d # u"
    using json_quote_split [of "fst p" "CHR '':'' # enc (snd p) @ c # r" "fst q" "CHR '':'' # enc (snd q) @ d # u"]
    by (simp add: json_member_def)
  then show "p = q \<and> c = d \<and> r = u"
    using delimited_code.code_split [OF assms a(1-4)] by (cases p; cases q) auto
qed

lemma join_bracket:
  assumes "delimited_code enc ok json_stop" "list_all ok xs" "list_all ok ys" "close \<noteq> CHR '',''" "json_stop close"
    and "\<And>x. enc x \<noteq> []" "\<And>x. hd (enc x) \<noteq> close"
    and "json_join (map enc xs) @ close # r = json_join (map enc ys) @ close # u"
  shows "xs = ys \<and> r = u"
proof -
  have first: "json_join (map enc zs) @ close # v \<noteq> close # w" if "zs \<noteq> []" for zs v w
  proof -
    have "hd (json_join (map enc zs) @ close # v) = hd (enc (hd zs))"
      using that assms(6) by (cases "map enc zs" rule: json_join.cases) (auto simp: Cons_eq_map_conv)
    then show ?thesis using assms(7) by (metis list.sel(1))
  qed
  show ?thesis
  proof (cases "xs = [] \<or> ys = []")
    case True
    then show ?thesis using assms(8) first [of xs r u] first [of ys u r] by (cases xs; cases ys) (auto dest: sym)
  next
    case False
    then show ?thesis
      using delimited_code.join_split [OF assms(1-3) _ _ _ assms(5,5,4,4,8)] by (auto simp: json_stop_def)
  qed
qed

lemma dec_int_first: obtains c s where "dec_int i = c # s" "num_char c"
proof -
  have "dec_nat n \<noteq> []" for n by (subst dec_nat.simps) simp
  then have "dec_int i \<noteq> []" by (simp add: dec_int_def)
  then show ?thesis using that dec_int_chars [of i] by (cases "dec_int i") auto
qed

text \<open>The first character tells the kind of a value.\<close>

fun json_kind :: "json \<Rightarrow> nat" where
  "json_kind JNull = 0" | "json_kind (JBool b) = (if b then 1 else 2)" | "json_kind (JInt _) = 3" | "json_kind (JString _) = 4"
| "json_kind (JArray _) = 5" | "json_kind (JObject _) = 6"

definition char_kind :: "char \<Rightarrow> nat" where
  "char_kind c = (if c = CHR ''n'' then 0 else if c = CHR ''t'' then 1 else if c = CHR ''f'' then 2 else if num_char c then 3
     else if c = CHR 0x22 then 4 else if c = CHR ''['' then 5 else if c = CHR ''{'' then 6 else 7)"

lemma json_text_kind: obtains c s where "json_text j = c # s" "char_kind c = json_kind j"
proof (cases j)
  case (JInt i)
  obtain c s where "dec_int i = c # s" "num_char c" by (rule dec_int_first)
  moreover have "c \<noteq> CHR ''n'' \<and> c \<noteq> CHR ''t'' \<and> c \<noteq> CHR ''f''" using \<open>num_char c\<close> by (auto simp: num_char_def)
  ultimately show ?thesis using that JInt by (simp add: char_kind_def)
next
  case (JBool b)
  then show ?thesis using that by (cases b) (auto simp: char_kind_def num_char_def)
qed (use that in \<open>auto simp: char_kind_def num_char_def json_quote_def\<close>)

lemma json_text_nonempty: "json_text j \<noteq> []"
  by (rule json_text_kind [of j]) simp

lemma json_text_open: "hd (json_text j) \<noteq> CHR '']''"
proof
  assume "hd (json_text j) = CHR '']''"
  moreover obtain c s where "json_text j = c # s" "char_kind c = json_kind j" by (rule json_text_kind)
  moreover have "char_kind (CHR '']'') = 7" by (simp add: char_kind_def num_char_def)
  ultimately have "json_kind j = 7" by simp
  then show False by (cases j) (auto split: if_splits)
qed

lemma json_member_open: "json_member p \<noteq> []" "hd (json_member p) \<noteq> CHR ''}''"
  by (simp_all add: json_member_def json_quote_def)

lemma same_kind: "json_text x @ r = json_text y @ u \<Longrightarrow> json_kind x = json_kind y"
  by (rule json_text_kind [of x]; rule json_text_kind [of y]; simp)

lemma json_text_sized: "delimited_code json_text (\<lambda>j. size j < n) json_stop"
proof (induction n)
  case 0
  show ?case by unfold_locales simp
next
  case (Suc n)
  show ?case
  proof
    fix x y c d r u
    assume a: "size x < Suc n" "size y < Suc n" "json_stop c" "json_stop d" and eq: "json_text x @ c # r = json_text y @ d # u"
    note kind = same_kind [OF eq]
    show "x = y \<and> c = d \<and> r = u"
    proof (cases x)
      case (JInt i)
      with kind obtain k where "y = JInt k" by (cases y) (auto split: if_splits)
      with JInt eq show ?thesis using dec_int_split [of c d i r k u] stop_not_num a(3,4) by simp
    next
      case (JString s)
      with kind obtain t where "y = JString t" by (cases y) (auto split: if_splits)
      with JString eq show ?thesis using json_quote_split [of s "c # r" t "d # u"] by simp
    next
      case (JArray xs)
      with kind obtain ys where y: "y = JArray ys" by (cases y) (auto split: if_splits)
      have small: "list_all (\<lambda>j. size j < n) zs" if "size (JArray zs) < Suc n" for zs
        using that by (induction zs) (auto simp: list_all_iff)
      have "xs = ys \<and> c # r = d # u"
        using eq a(1,2) y JArray by (intro join_bracket [OF Suc.IH small small _ _ json_text_nonempty json_text_open])
          (simp_all add: json_stop_def)
      then show ?thesis using JArray y by simp
    next
      case (JObject kvs)
      with kind obtain ls where y: "y = JObject ls" by (cases y) (auto split: if_splits)
      have small: "list_all (\<lambda>p. size (snd p) < n) zs" if "size (JObject zs) < Suc n" for zs
        using that by (induction zs) (auto simp: list_all_iff)
      have "kvs = ls \<and> c # r = d # u"
        using eq a(1,2) y JObject
        by (intro join_bracket [OF json_member_split [OF Suc.IH] small small _ _ json_member_open])
          (simp_all add: json_stop_def comp_def)
      then show ?thesis using JObject y by simp
    qed (use kind eq in \<open>cases y; auto split: if_splits\<close>)+
  qed
qed

interpretation json_code: delimited_code json_text "\<lambda>_. True" json_stop
proof
  fix x y c d r u
  assume "json_stop c" "json_stop d" "json_text x @ c # r = json_text y @ d # u"
  then show "x = y \<and> c = d \<and> r = u"
    using delimited_code.code_split [OF json_text_sized [of "Suc (max (size x) (size y))"], of x y c d r u] by simp
qed

lemma json_text_inj: "json_text x = json_text y \<Longrightarrow> x = y"
  using json_code.code_split [where x = x and y = y and c = "CHR '',''" and d = "CHR '',''" and r = "[]" and u = "[]"] by (simp add: json_stop_def)

definition ascii :: "string \<Rightarrow> bool" where
  "ascii s \<longleftrightarrow> (\<forall>c\<in>set s. (of_char c :: nat) < 128)"

lemma ascii_append [simp]: "ascii (s @ t) \<longleftrightarrow> ascii s \<and> ascii t" "ascii (c # s) \<longleftrightarrow> (of_char c :: nat) < 128 \<and> ascii s" "ascii []"
  by (auto simp: ascii_def)

lemma ascii_join: "list_all ascii ss \<Longrightarrow> ascii (json_join ss)"
  by (induction ss rule: json_join.induct) auto

lemma ascii_quote: "ascii (json_quote s)"
proof -
  have "(of_char (hex_digit n) :: nat) < 128" if "n < 16" for n
    using hex_digit_set [OF that] uuid_chars_code by blast
  moreover have "(of_char c :: nat) div 16 < 16" for c by (simp add: less_mult_imp_div_less)
  ultimately have "ascii (escape c)" for c
    by (simp add: escape_def Let_def backslash_def)
  then show ?thesis by (induction s) (auto simp: json_quote_def)
qed

lemma json_text_ascii: "ascii (json_text j)"
proof (induction j)
  case (JInt i)
  have "(of_char c :: nat) < 128" if "num_char c" for c using that by (auto simp: num_char_def)
  then show ?case using dec_int_chars [of i] by (simp add: ascii_def list_all_iff)
next
  case (JArray xs)
  then show ?case by (auto intro!: ascii_join simp: list_all_iff)
next
  case (JObject kvs)
  then show ?case by (force intro!: ascii_join simp: list_all_iff json_member_def ascii_quote)
qed (auto simp: ascii_quote)

lemma hexdigest_text:
  "hexdigest sha256 (json_text x) = hex_of (sha256 (json_text x))"
  using json_text_ascii [of x] by (simp add: hexdigest_def ascii_def utf8_ascii)

lemma digest_determines:
  assumes "hexdigest sha256 (json_text x) = hexdigest sha256 (json_text y)" "inj_on sha256 S" "json_text x \<in> S" "json_text y \<in> S"
  shows "x = y"
  using assms by (intro json_text_inj) (auto simp: hexdigest_text dest!: hex_of_inj dest: inj_onD)

end
