(* ===== verification/Topup.thy ===== *)
theory Topup
  imports Json
begin

section \<open>The journal of treasury top-ups\<close>

text \<open>
  Models \<^verbatim>\<open>ditto/treasury/store.py\<close> and \<^verbatim>\<open>ditto/treasury/preflight.py\<close>: the durable journal of the isolated signer.
  A payment is planned, approved by a second person, dispatched leg by leg and reconciled; every operation is one
  \<^verbatim>\<open>BEGIN IMMEDIATE\<close> transaction, so it is a function from the stored tables to an error (nothing is changed) or to the new tables
  and the result. The tables are the state: \<^verbatim>\<open>control\<close>, \<^verbatim>\<open>plans\<close>, \<^verbatim>\<open>allocations\<close> and the hash-chained \<^verbatim>\<open>events\<close>.

  A datetime is its UTC instant in microseconds and whether it carries a time zone; the instant of one without is read in the host's
  zone, as \<^verbatim>\<open>astimezone\<close> does. A timestamp column holds the instant of the ISO text the code writes and parses back. SQLite
  integers have 64 bits: a larger value cannot be bound and a larger sum is an error. The check that the file is private is not
  modelled.
\<close>

subsection \<open>Errors, times and patterns\<close>

datatype store_error = Raised py_error | RuntimeError string | IntegrityError | SqlOverflow

abbreviation refuse :: "string \<Rightarrow> store_error + 'a" where
  "refuse message \<equiv> Inl (Raised (ValueError message))"

definition ensure :: "bool \<Rightarrow> string \<Rightarrow> store_error + unit" where
  "ensure ok message = (if ok then Inr () else refuse message)"

lemma ensure_Inr [simp]: "ensure ok message = Inr u \<longleftrightarrow> ok"
  by (cases u) (simp add: ensure_def)

record py_datetime =
  dt_utc :: int
  dt_aware :: bool

definition seconds :: "int \<Rightarrow> int" where "seconds n = n * 1000000"
definition minutes :: "int \<Rightarrow> int" where "minutes n = seconds (60 * n)"

text \<open>\<^verbatim>\<open>timedelta(0) <= later - earlier <= limit\<close>.\<close>

definition fresh_within :: "int \<Rightarrow> int \<Rightarrow> int \<Rightarrow> bool" where
  "fresh_within limit later earlier \<longleftrightarrow> 0 \<le> later - earlier \<and> later - earlier \<le> limit"

definition day_of :: "int \<Rightarrow> int" where
  "day_of t = t div seconds 86400"

text \<open>\<^verbatim>\<open>astimezone(UTC).isoformat()\<close>: the proleptic Gregorian date of a day number (days since 1970-01-01) and the time of day.\<close>

definition civil_date :: "int \<Rightarrow> int \<times> int \<times> int" where
  "civil_date days = (let z = days + 719468; era = z div 146097; doe = z mod 146097;
     yoe = (doe - doe div 1460 + doe div 36524 - doe div 146096) div 365;
     doy = doe - (365 * yoe + yoe div 4 - yoe div 100); mp = (5 * doy + 2) div 153;
     d = doy - (153 * mp + 2) div 5 + 1; m = (if mp < 10 then mp + 3 else mp - 9)
   in (yoe + era * 400 + (if m \<le> 2 then 1 else 0), m, d))"

definition pad :: "nat \<Rightarrow> int \<Rightarrow> string" where
  "pad width n = (let s = dec_int n in replicate (width - length s) CHR ''0'' @ s)"

definition isoformat :: "int \<Rightarrow> string" where
  "isoformat t = (let (y, m, d) = civil_date (day_of t); us = t mod seconds 86400; s = us div 1000000; f = us mod 1000000
     in pad 4 y @ ''-'' @ pad 2 m @ ''-'' @ pad 2 d @ ''T'' @ pad 2 (s div 3600) @ '':'' @ pad 2 (s div 60 mod 60) @ '':'' @ pad 2 (s mod 60)
        @ (if f = 0 then [] else ''.'' @ pad 6 f) @ ''+00:00'')"

definition timestamp :: "py_datetime \<Rightarrow> store_error + int" where
  "timestamp value = (if \<not> dt_aware value then refuse ''timezone required'' else Inr (dt_utc value))"

definition key_char :: "char \<Rightarrow> bool" where
  "key_char c \<longleftrightarrow> c \<in> set ''ABCDEFGHIJKLMNOPQRSTUVWXYZabcdefghijklmnopqrstuvwxyz0123456789_-''"

definition is_idempotency_key :: "string \<Rightarrow> bool" where
  "is_idempotency_key s \<longleftrightarrow> 8 \<le> length s \<and> length s \<le> 96 \<and> list_all key_char s"

definition sql_int :: "int \<Rightarrow> store_error + int" where
  "sql_int n = (if - (2 ^ 63) \<le> n \<and> n < 2 ^ 63 then Inr n else Inl (Raised OverflowError))"

text \<open>\<^verbatim>\<open>COALESCE(SUM(x),0)\<close> over a column whose values are not negative.\<close>

definition sql_sum :: "int list \<Rightarrow> store_error + int" where
  "sql_sum ns = (if sum_list ns < 2 ^ 63 then Inr (sum_list ns) else Inl SqlOverflow)"

subsection \<open>Intents, bounds and the preflight\<close>

record top_up_intent =
  ti_route :: string
  ti_policy_revision :: int
  ti_quote_block_hash :: string
  ti_quoted_at :: py_datetime
  ti_source_alpha_rao :: int
  ti_tao_value_rao :: int
  ti_price_impact_bps :: int
  ti_linked_wallet :: string
  ti_payment_instructions_sha256 :: string
  ti_idempotency_key :: string

record top_up_bounds =
  tb_max_source_alpha_rao :: int
  tb_max_single_topup_rao :: int
  tb_max_daily_outflow_rao :: int
  tb_max_slippage_bps :: int
  tb_daily_spent_rao :: int
  tb_expected_linked_wallet :: string
  tb_expected_payment_instructions_sha256 :: string
  tb_reconciled :: bool

definition preflight :: "top_up_intent \<Rightarrow> top_up_bounds \<Rightarrow> py_datetime \<Rightarrow> store_error + unit" where
  "preflight intent bounds now =
     and_then (ensure (ti_route intent \<in> {''tao'', ''gm_alpha''}) ''unsupported GM deposit asset'') (\<lambda>_.
     and_then (ensure (ti_policy_revision intent > 0 \<and> ti_idempotency_key intent \<noteq> []) ''revision and idempotency key are required'') (\<lambda>_.
     and_then (ensure (is_hash (ti_quote_block_hash intent)) ''finalized quote block hash is required'') (\<lambda>_.
     and_then (ensure (dt_aware (ti_quoted_at intent) \<and> dt_aware now) ''quote times must carry a timezone'') (\<lambda>_.
     and_then (ensure (fresh_within (seconds 120) (dt_utc now) (dt_utc (ti_quoted_at intent))) ''quote is stale or from the future'') (\<lambda>_.
     and_then (ensure (tb_reconciled bounds) ''treasury or GM balance has not reconciled'') (\<lambda>_.
     and_then (ensure (0 < ti_source_alpha_rao intent \<and> ti_source_alpha_rao intent \<le> tb_max_source_alpha_rao bounds)
       ''source amount exceeds limit'') (\<lambda>_.
     and_then (ensure (0 < ti_tao_value_rao intent \<and> ti_tao_value_rao intent \<le> tb_max_single_topup_rao bounds)
       ''single top-up exceeds limit'') (\<lambda>_.
     and_then (ensure (tb_daily_spent_rao bounds + ti_tao_value_rao intent \<le> tb_max_daily_outflow_rao bounds)
       ''daily outflow exceeds limit'') (\<lambda>_.
     and_then (ensure (0 \<le> ti_price_impact_bps intent \<and> ti_price_impact_bps intent \<le> tb_max_slippage_bps bounds
         \<and> tb_max_slippage_bps bounds \<le> 500) ''price impact exceeds limit'') (\<lambda>_.
     and_then (ensure (ti_linked_wallet intent \<noteq> [] \<and> ti_linked_wallet intent = tb_expected_linked_wallet bounds)
       ''sender is not the reviewed GM-linked wallet'') (\<lambda>_.
     ensure (sha256_pattern (ti_payment_instructions_sha256 intent)
         \<and> ti_payment_instructions_sha256 intent = tb_expected_payment_instructions_sha256 bounds)
       ''GM payment instructions are not current'')))))))))))"

subsection \<open>Plans and tables\<close>

record payment_plan =
  pp_intent :: top_up_intent
  pp_destination_coldkey :: string
  pp_treasury_hotkey :: string
  pp_gm_hotkey :: string
  pp_gm_account_ref :: string
  pp_operator :: string
  pp_instructions_observed_at :: py_datetime
  pp_gm_balance_before_nano_usd :: int
  pp_min_tao_proceeds_rao :: int
  pp_min_gm_alpha_rao :: int
  pp_max_slippage_bps :: int

definition GENESIS :: string where "GENESIS = replicate 64 CHR ''0''"
definition MAX_SOURCE_ALPHA_RAO :: int where "MAX_SOURCE_ALPHA_RAO = 10000000000"

definition LEGS :: "string \<Rightarrow> string list" where
  "LEGS route = (if route = ''tao'' then [''unstake'', ''deposit_tao''] else [''unstake'', ''stake_gm'', ''deposit_gm''])"

datatype plan_state = Planned | Approved | Dispatching | AwaitingReview | AwaitingGm | Reconciled | Cancelled

text \<open>\<open>pl_plan\<close> is the value of the \<^verbatim>\<open>plan_json\<close> column, which every reader parses.\<close>

record plan_row =
  pl_idempotency_key :: string
  pl_day :: int
  pl_route :: string
  pl_policy_revision :: int
  pl_source_alpha_rao :: int
  pl_reserved_tao_rao :: int
  pl_plan :: payment_plan
  pl_plan_hash :: string
  pl_state :: plan_state
  pl_leg_index :: nat
  pl_amount_for_next_leg_rao :: "int option"
  pl_instructions_checked_at :: int
  pl_quote_checked_at :: int
  pl_created_at :: int

record allocation_row =
  al_epoch :: int
  al_policy_revision :: int
  al_source_block_hash :: string
  al_gm_alpha_rao :: int
  al_maintenance_alpha_rao :: int
  al_operator :: string
  al_reviewer :: string

record event_row =
  ev_sequence :: nat
  ev_plan_key :: "string option"
  ev_kind :: string
  ev_body_json :: string
  ev_previous_hash :: string
  ev_hash :: string
  ev_recorded_at :: string

record top_up_store =
  ts_paused :: bool
  ts_reason :: string
  ts_plans :: "plan_row list"
  ts_allocations :: "allocation_row list"
  ts_events :: "event_row list"

definition initial_store :: top_up_store where
  "initial_store = \<lparr>ts_paused = True, ts_reason = ''initial fail-closed pause'', ts_plans = [], ts_allocations = [], ts_events = []\<rparr>"

subsection \<open>The event chain\<close>

definition event_digest :: "hash_fun \<Rightarrow> string option \<Rightarrow> string \<Rightarrow> string \<Rightarrow> string \<Rightarrow> string \<Rightarrow> string" where
  "event_digest sha256 key kind body previous recorded_at = hexdigest sha256 (canonical (JArray
     [json_opt_string key, JString kind, JString body, JString previous, JString recorded_at]))"

definition last_hash :: "event_row list \<Rightarrow> string" where
  "last_hash rows = (if rows = [] then GENESIS else ev_hash (last rows))"

definition append_event ::
  "hash_fun \<Rightarrow> string option \<Rightarrow> string \<Rightarrow> json \<Rightarrow> py_datetime \<Rightarrow> top_up_store \<Rightarrow> store_error + top_up_store" where
  "append_event sha256 key kind body now s = and_then (timestamp now) (\<lambda>t.
     let previous = last_hash (ts_events s); text = canonical body in
     Inr (s\<lparr>ts_events := ts_events s @ [\<lparr>ev_sequence = length (ts_events s) + 1, ev_plan_key = key, ev_kind = kind, ev_body_json = text,
       ev_previous_hash = previous, ev_hash = event_digest sha256 key kind text previous (isoformat t), ev_recorded_at = isoformat t\<rparr>]\<rparr>))"

definition break_message :: "nat \<Rightarrow> string" where
  "break_message n = ''treasury journal breaks at event '' @ dec_nat n"

fun verify_loop :: "hash_fun \<Rightarrow> string \<Rightarrow> nat \<Rightarrow> event_row list \<Rightarrow> store_error + nat" where
  "verify_loop sha256 previous n [] = Inr n"
| "verify_loop sha256 previous n (row # rows) =
     (let expected = event_digest sha256 (ev_plan_key row) (ev_kind row) (ev_body_json row) previous (ev_recorded_at row) in
      if ev_sequence row \<noteq> n + 1 \<or> ev_previous_hash row \<noteq> previous \<or> ev_hash row \<noteq> expected
      then refuse (break_message (n + 1)) else verify_loop sha256 expected (n + 1) rows)"

definition verify :: "hash_fun \<Rightarrow> top_up_store \<Rightarrow> store_error + nat" where
  "verify sha256 s = verify_loop sha256 GENESIS 0 (ts_events s)"

subsection \<open>Allocations and the pause switch\<close>

definition plan_of :: "top_up_store \<Rightarrow> string \<Rightarrow> plan_row option" where
  "plan_of s key = find (\<lambda>p. pl_idempotency_key p = key) (ts_plans s)"

definition set_plan :: "string \<Rightarrow> (plan_row \<Rightarrow> plan_row) \<Rightarrow> top_up_store \<Rightarrow> top_up_store" where
  "set_plan key f s = s\<lparr>ts_plans := map (\<lambda>p. if pl_idempotency_key p = key then f p else p) (ts_plans s)\<rparr>"

definition stored_plan :: "hash_fun \<Rightarrow> string \<Rightarrow> top_up_store \<Rightarrow> store_error + payment_plan" where
  "stored_plan sha256 key s = and_then (verify sha256 s) (\<lambda>_.
     case plan_of s key of None \<Rightarrow> refuse ''unknown treasury plan'' | Some row \<Rightarrow> Inr (pl_plan row))"

definition record_allocation ::
  "hash_fun \<Rightarrow> allocation_row \<Rightarrow> py_datetime \<Rightarrow> top_up_store \<Rightarrow> store_error + top_up_store" where
  "record_allocation sha256 a now s =
     and_then (ensure (al_epoch a \<ge> 0 \<and> al_policy_revision a > 0) ''finalized epoch and policy revision are required'') (\<lambda>_.
     and_then (ensure (is_hash (al_source_block_hash a)) ''finalized source block hash is required'') (\<lambda>_.
     and_then (ensure (al_gm_alpha_rao a \<ge> 0 \<and> al_maintenance_alpha_rao a \<ge> 0
         \<and> (al_gm_alpha_rao a \<noteq> 0 \<or> al_maintenance_alpha_rao a \<noteq> 0)) ''nonnegative distinct allocations are required'') (\<lambda>_.
     and_then (ensure (al_operator a \<noteq> [] \<and> al_reviewer a \<noteq> [] \<and> al_reviewer a \<noteq> al_operator a)
       ''independent allocation reviewer is required'') (\<lambda>_.
     and_then (sql_int (al_epoch a)) (\<lambda>_. and_then (sql_int (al_policy_revision a)) (\<lambda>_.
     and_then (sql_int (al_gm_alpha_rao a)) (\<lambda>_. and_then (sql_int (al_maintenance_alpha_rao a)) (\<lambda>_.
     if list_ex (\<lambda>b. al_epoch b = al_epoch a) (ts_allocations s) then Inl IntegrityError
     else append_event sha256 None ''allocation'' (JObject
       [(''epoch'', JInt (al_epoch a)), (''policy_revision'', JInt (al_policy_revision a)),
        (''source_block_hash'', JString (al_source_block_hash a)), (''gm_alpha_rao'', JInt (al_gm_alpha_rao a)),
        (''maintenance_alpha_rao'', JInt (al_maintenance_alpha_rao a)), (''operator'', JString (al_operator a)),
        (''reviewer'', JString (al_reviewer a))]) now (s\<lparr>ts_allocations := ts_allocations s @ [a]\<rparr>)))))))))"

definition set_pause ::
  "hash_fun \<Rightarrow> bool \<Rightarrow> string \<Rightarrow> string \<Rightarrow> string option \<Rightarrow> py_datetime \<Rightarrow> top_up_store \<Rightarrow> store_error + top_up_store" where
  "set_pause sha256 paused operator reason reviewer now s =
     and_then (ensure (operator \<noteq> [] \<and> 12 \<le> length (strip reason)) ''operator and a specific reason are required'') (\<lambda>_.
     and_then (if paused then Inr 0
        else and_then (ensure (reviewer \<noteq> None \<and> reviewer \<noteq> Some [] \<and> reviewer \<noteq> Some operator)
           ''independent reviewer is required to unpause'') (\<lambda>_. verify sha256 s)) (\<lambda>_.
     and_then (ensure (paused \<or> \<not> list_ex (\<lambda>p. pl_state p \<in> {Dispatching, AwaitingGm}) (ts_plans s)) ''unresolved plans block unpause'') (\<lambda>_.
     append_event sha256 None (if paused then ''pause'' else ''unpause'') (JObject
       [(''operator'', JString operator), (''reviewer'', json_opt_string reviewer), (''reason'', JString reason)]) now
       (s\<lparr>ts_paused := paused, ts_reason := reason\<rparr>))))"

subsection \<open>Planning\<close>

definition intent_json :: "top_up_intent \<Rightarrow> json" where
  "intent_json i = JObject [(''route'', JString (ti_route i)), (''policy_revision'', JInt (ti_policy_revision i)),
     (''quote_block_hash'', JString (ti_quote_block_hash i)), (''quoted_at'', JString (isoformat (dt_utc (ti_quoted_at i)))),
     (''source_alpha_rao'', JInt (ti_source_alpha_rao i)), (''tao_value_rao'', JInt (ti_tao_value_rao i)),
     (''price_impact_bps'', JInt (ti_price_impact_bps i)), (''linked_wallet'', JString (ti_linked_wallet i)),
     (''payment_instructions_sha256'', JString (ti_payment_instructions_sha256 i)), (''idempotency_key'', JString (ti_idempotency_key i))]"

definition plan_json :: "payment_plan \<Rightarrow> json" where
  "plan_json p = JObject [(''intent'', intent_json (pp_intent p)), (''destination_coldkey'', JString (pp_destination_coldkey p)),
     (''treasury_hotkey'', JString (pp_treasury_hotkey p)), (''gm_hotkey'', JString (pp_gm_hotkey p)),
     (''gm_account_ref'', JString (pp_gm_account_ref p)), (''operator'', JString (pp_operator p)),
     (''instructions_observed_at'', JString (isoformat (dt_utc (pp_instructions_observed_at p)))),
     (''gm_balance_before_nano_usd'', JInt (pp_gm_balance_before_nano_usd p)), (''min_tao_proceeds_rao'', JInt (pp_min_tao_proceeds_rao p)),
     (''min_gm_alpha_rao'', JInt (pp_min_gm_alpha_rao p)), (''max_slippage_bps'', JInt (pp_max_slippage_bps p))]"

definition plan_digest :: "hash_fun \<Rightarrow> payment_plan \<Rightarrow> string" where
  "plan_digest sha256 p = hexdigest sha256 (canonical (plan_json p))"

text \<open>The checks before the transaction.\<close>

definition check_plan :: "payment_plan \<Rightarrow> top_up_bounds \<Rightarrow> py_datetime \<Rightarrow> store_error + unit" where
  "check_plan plan bounds now = (let intent = pp_intent plan in
     and_then (ensure (pp_operator plan \<noteq> [] \<and> pp_destination_coldkey plan \<noteq> [] \<and> pp_treasury_hotkey plan \<noteq> [] \<and> pp_gm_account_ref plan \<noteq> [])
       ''operator and reviewed chain identities are required'') (\<lambda>_.
     and_then (ensure (ti_route intent \<noteq> ''gm_alpha'' \<or> pp_gm_hotkey plan \<noteq> []) ''GM alpha route needs the exact linked hotkey'') (\<lambda>_.
     and_then (ensure (ti_source_alpha_rao intent \<le> MAX_SOURCE_ALPHA_RAO \<and> tb_max_source_alpha_rao bounds \<le> MAX_SOURCE_ALPHA_RAO)
       ''source alpha exceeds the 10 DITTO prototype ceiling'') (\<lambda>_.
     and_then (ensure (pp_gm_balance_before_nano_usd plan \<ge> 0) ''GM credit balance must be nonnegative'') (\<lambda>_.
     and_then (ensure (0 < pp_min_tao_proceeds_rao plan \<and> pp_min_tao_proceeds_rao plan \<le> ti_tao_value_rao intent)
       ''minimum TAO proceeds must fit the reserved quote'') (\<lambda>_.
     and_then (ensure (ti_route intent \<noteq> ''gm_alpha'' \<or> pp_min_gm_alpha_rao plan > 0) ''minimum GM alpha output is required'') (\<lambda>_.
     and_then (ensure (0 \<le> pp_max_slippage_bps plan \<and> pp_max_slippage_bps plan \<le> tb_max_slippage_bps bounds)
       ''signer price tolerance exceeds policy'') (\<lambda>_.
     and_then (ensure (dt_aware (pp_instructions_observed_at plan) \<and> dt_aware now) ''instruction and current times need a timezone'') (\<lambda>_.
     and_then (ensure (fresh_within (minutes 30) (dt_utc now) (dt_utc (pp_instructions_observed_at plan))) ''GM payment instructions are stale'') (\<lambda>_.
     and_then (ensure (is_idempotency_key (ti_idempotency_key intent)) ''invalid idempotency key'') (\<lambda>_.
     and_then (timestamp (ti_quoted_at intent)) (\<lambda>_. Inr ()))))))))))))"

definition resolved :: "plan_row \<Rightarrow> bool" where
  "resolved p \<longleftrightarrow> pl_state p \<in> {Reconciled, Cancelled}"

definition live :: "plan_row \<Rightarrow> bool" where
  "live p \<longleftrightarrow> pl_state p \<noteq> Cancelled"

definition new_plan_row :: "hash_fun \<Rightarrow> payment_plan \<Rightarrow> int \<Rightarrow> plan_row" where
  "new_plan_row sha256 plan now = (let intent = pp_intent plan in
     \<lparr>pl_idempotency_key = ti_idempotency_key intent, pl_day = day_of now, pl_route = ti_route intent, pl_policy_revision = ti_policy_revision intent,
      pl_source_alpha_rao = ti_source_alpha_rao intent, pl_reserved_tao_rao = ti_tao_value_rao intent, pl_plan = plan,
      pl_plan_hash = plan_digest sha256 plan, pl_state = Planned, pl_leg_index = 0, pl_amount_for_next_leg_rao = None,
      pl_instructions_checked_at = dt_utc (pp_instructions_observed_at plan), pl_quote_checked_at = dt_utc (ti_quoted_at intent),
      pl_created_at = now\<rparr>)"

definition create_plan ::
  "hash_fun \<Rightarrow> payment_plan \<Rightarrow> top_up_bounds \<Rightarrow> py_datetime \<Rightarrow> top_up_store \<Rightarrow> store_error + top_up_store \<times> string" where
  "create_plan sha256 plan bounds now s = (let intent = pp_intent plan; digest = plan_digest sha256 plan in
     and_then (check_plan plan bounds now) (\<lambda>_.
     and_then (ensure (\<not> ts_paused s) ''treasury execution is paused'') (\<lambda>_.
     case plan_of s (ti_idempotency_key intent) of
       Some existing \<Rightarrow> if pl_plan_hash existing \<noteq> digest then refuse ''idempotency key reused with a different plan'' else Inr (s, digest)
     | None \<Rightarrow>
     and_then (ensure (list_all resolved (ts_plans s)) ''another treasury payment is unresolved'') (\<lambda>_.
     and_then (sql_sum (map pl_reserved_tao_rao (filter (\<lambda>p. pl_day p = day_of (dt_utc now) \<and> live p) (ts_plans s)))) (\<lambda>spent.
     and_then (preflight intent (bounds\<lparr>tb_daily_spent_rao := spent\<rparr>) now) (\<lambda>_.
     and_then (sql_int (ti_policy_revision intent)) (\<lambda>_.
     and_then (sql_sum (map al_gm_alpha_rao (filter (\<lambda>a. al_policy_revision a \<le> ti_policy_revision intent) (ts_allocations s)))) (\<lambda>allocated.
     and_then (sql_sum (map pl_source_alpha_rao (filter live (ts_plans s)))) (\<lambda>reserved.
     and_then (ensure (ti_source_alpha_rao intent \<le> allocated - reserved) ''GM budget lacks finalized allocated alpha'') (\<lambda>_.
     and_then (sql_int (ti_tao_value_rao intent)) (\<lambda>_.
     and_then (append_event sha256 (Some (ti_idempotency_key intent)) ''planned''
         (JObject [(''plan_hash'', JString digest), (''operator'', JString (pp_operator plan))]) now
         (s\<lparr>ts_plans := ts_plans s @ [new_plan_row sha256 plan (dt_utc now)]\<rparr>)) (\<lambda>s'. Inr (s', digest)))))))))))))"

subsection \<open>Approval\<close>

definition approve ::
  "hash_fun \<Rightarrow> string \<Rightarrow> string \<Rightarrow> string \<Rightarrow> py_datetime \<Rightarrow> top_up_store \<Rightarrow> store_error + top_up_store" where
  "approve sha256 key reviewer expected_plan_hash now s = (case plan_of s key of
     None \<Rightarrow> refuse ''exact pending plan hash is required''
   | Some row \<Rightarrow>
     and_then (ensure (pl_state row = Planned \<and> pl_plan_hash row = expected_plan_hash) ''exact pending plan hash is required'') (\<lambda>_.
     and_then (ensure (reviewer \<noteq> [] \<and> reviewer \<noteq> pp_operator (pl_plan row)) ''independent reviewer is required'') (\<lambda>_.
     and_then (ensure (fresh_within (minutes 30) (dt_utc now) (dt_utc (pp_instructions_observed_at (pl_plan row))))
       ''GM payment instructions expired'') (\<lambda>_.
     append_event sha256 (Some key) ''approved'' (JObject [(''reviewer'', JString reviewer), (''plan_hash'', JString expected_plan_hash)]) now
       (set_plan key (\<lambda>p. p\<lparr>pl_state := Approved\<rparr>) s)))))"

definition approve_next_leg ::
  "hash_fun \<Rightarrow> string \<Rightarrow> string \<Rightarrow> string \<Rightarrow> string \<Rightarrow> string \<Rightarrow> py_datetime \<Rightarrow> py_datetime \<Rightarrow> top_up_store \<Rightarrow> store_error + top_up_store" where
  "approve_next_leg sha256 key reviewer expected_plan_hash instructions_sha256 quote_block_hash quote_observed_at now s =
     and_then (ensure (is_hash quote_block_hash) ''fresh finalized quote hash is required'') (\<lambda>_.
     and_then (ensure (dt_aware quote_observed_at \<and> dt_aware now) ''quote time requires a timezone'') (\<lambda>_.
     and_then (ensure (fresh_within (seconds 120) (dt_utc now) (dt_utc quote_observed_at)) ''next-leg quote is stale'') (\<lambda>_.
     case plan_of s key of
       None \<Rightarrow> refuse ''exact next-leg plan is required''
     | Some row \<Rightarrow>
       and_then (ensure (pl_state row = AwaitingReview \<and> pl_plan_hash row = expected_plan_hash) ''exact next-leg plan is required'') (\<lambda>_.
       and_then (ensure (reviewer \<noteq> [] \<and> reviewer \<noteq> pp_operator (pl_plan row)) ''independent reviewer is required'') (\<lambda>_.
       and_then (ensure (instructions_sha256 = ti_payment_instructions_sha256 (pp_intent (pl_plan row))) ''GM payment instructions changed'') (\<lambda>_.
       and_then (if pl_leg_index row < length (LEGS (pl_route row)) then Inr () else Inl (Raised IndexError)) (\<lambda>_.
       append_event sha256 (Some key) ''next_leg_approved'' (JObject
         [(''reviewer'', JString reviewer), (''leg'', JString (LEGS (pl_route row) ! pl_leg_index row)),
          (''quote_block_hash'', JString quote_block_hash), (''instructions_sha256'', JString instructions_sha256)]) now
         (set_plan key (\<lambda>p. p\<lparr>pl_state := Approved, pl_instructions_checked_at := dt_utc now, pl_quote_checked_at := dt_utc quote_observed_at\<rparr>) s))))))))"

subsection \<open>Dispatch\<close>

definition claim_leg ::
  "hash_fun \<Rightarrow> string \<Rightarrow> py_datetime \<Rightarrow> top_up_store \<Rightarrow> store_error + top_up_store \<times> (string \<times> int \<times> payment_plan)" where
  "claim_leg sha256 key now s =
     and_then (ensure (\<not> ts_paused s) ''treasury execution is paused'') (\<lambda>_.
     case plan_of s key of
       None \<Rightarrow> refuse ''leg is not approved or prior dispatch is unresolved''
     | Some row \<Rightarrow>
       and_then (ensure (pl_state row = Approved) ''leg is not approved or prior dispatch is unresolved'') (\<lambda>_.
       and_then (if pl_leg_index row < length (LEGS (pl_route row)) then Inr (LEGS (pl_route row) ! pl_leg_index row)
          else Inl (Raised IndexError)) (\<lambda>leg.
       and_then (ensure (fresh_within (minutes 30) (dt_utc now) (pl_instructions_checked_at row)) ''GM payment instructions expired'') (\<lambda>_.
       and_then (ensure (fresh_within (seconds 120) (dt_utc now) (pl_quote_checked_at row)) ''approved leg quote expired'') (\<lambda>_.
       case (if pl_leg_index row = 0 then Some (pl_source_alpha_rao row) else pl_amount_for_next_leg_rao row) of
         None \<Rightarrow> refuse ''next leg amount has not reconciled''
       | Some amount \<Rightarrow>
         and_then (ensure (amount > 0) ''next leg amount has not reconciled'') (\<lambda>_.
         and_then (append_event sha256 (Some key) ''dispatch_started'' (JObject [(''leg'', JString leg), (''amount_rao'', JInt amount)]) now
           (set_plan key (\<lambda>p. p\<lparr>pl_state := Dispatching\<rparr>) s)) (\<lambda>s'. Inr (s', (leg, amount, pl_plan row)))))))))"

definition finalize_leg ::
  "hash_fun \<Rightarrow> string \<Rightarrow> string \<Rightarrow> string \<Rightarrow> string \<Rightarrow> int option \<Rightarrow> py_datetime \<Rightarrow> top_up_store \<Rightarrow> store_error + top_up_store" where
  "finalize_leg sha256 key leg extrinsic_hash block_hash next_amount now s =
     and_then (ensure (is_hash extrinsic_hash \<and> is_hash block_hash) ''finalized extrinsic and block hashes are required'') (\<lambda>_.
     case plan_of s key of
       None \<Rightarrow> refuse ''no matching in-flight leg''
     | Some row \<Rightarrow>
       and_then (ensure (pl_state row = Dispatching) ''no matching in-flight leg'') (\<lambda>_.
       and_then (if pl_leg_index row < length (LEGS (pl_route row)) then Inr () else Inl (Raised IndexError)) (\<lambda>_.
       and_then (ensure (LEGS (pl_route row) ! pl_leg_index row = leg) ''no matching in-flight leg'') (\<lambda>_.
       let final = (pl_leg_index row + 1 = length (LEGS (pl_route row))) in
       and_then (ensure (final \<or> (case next_amount of Some n \<Rightarrow> n > 0 | None \<Rightarrow> False)) ''reconciled next-leg amount is required'') (\<lambda>_.
       and_then (ensure (\<not> final \<or> next_amount = None) ''deposit leg cannot produce another payment'') (\<lambda>_.
       and_then (ensure (leg \<noteq> ''unstake'' \<or> (case next_amount of Some n \<Rightarrow> n \<le> pl_reserved_tao_rao row | None \<Rightarrow> True))
         ''unstake proceeds exceed reserved top-up'') (\<lambda>_.
       and_then (case next_amount of Some n \<Rightarrow> sql_int n | None \<Rightarrow> Inr 0) (\<lambda>_.
       append_event sha256 (Some key) ''leg_finalized'' (JObject
         [(''leg'', JString leg), (''extrinsic_hash'', JString extrinsic_hash), (''block_hash'', JString block_hash),
          (''next_amount_rao'', json_opt_int next_amount)]) now
         (set_plan key (\<lambda>p. p\<lparr>pl_state := (if final then AwaitingGm else AwaitingReview), pl_leg_index := pl_leg_index p + 1,
            pl_amount_for_next_leg_rao := next_amount\<rparr>) s)))))))))"

definition reconcile_gm ::
  "hash_fun \<Rightarrow> string \<Rightarrow> int \<Rightarrow> int \<Rightarrow> int \<Rightarrow> int \<Rightarrow> string \<Rightarrow> string \<Rightarrow> py_datetime \<Rightarrow> top_up_store \<Rightarrow> store_error + top_up_store" where
  "reconcile_gm sha256 key before after deposit intervening_usage deposit_reference reviewer now s =
     and_then (ensure (deposit_reference \<noteq> [] \<and> reviewer \<noteq> [] \<and> deposit > 0 \<and> intervening_usage \<ge> 0 \<and> after \<ge> 0
        \<and> after = before + deposit - intervening_usage) ''GM deposit, usage, and final balance must reconcile'') (\<lambda>_.
     case plan_of s key of
       None \<Rightarrow> refuse ''finalized deposit is required''
     | Some row \<Rightarrow>
       and_then (ensure (pl_state row = AwaitingGm) ''finalized deposit is required'') (\<lambda>_.
       and_then (ensure (before = pp_gm_balance_before_nano_usd (pl_plan row) \<and> reviewer \<noteq> pp_operator (pl_plan row))
         ''independent matching credit observation is required'') (\<lambda>_.
       append_event sha256 (Some key) ''gm_reconciled'' (JObject
         [(''before_nano_usd'', JInt before), (''after_nano_usd'', JInt after), (''deposit_nano_usd'', JInt deposit),
          (''intervening_usage_nano_usd'', JInt intervening_usage), (''deposit_reference'', JString deposit_reference),
          (''reviewer'', JString reviewer)]) now (set_plan key (\<lambda>p. p\<lparr>pl_state := Reconciled\<rparr>) s))))"

definition cancel ::
  "hash_fun \<Rightarrow> string \<Rightarrow> string \<Rightarrow> string \<Rightarrow> py_datetime \<Rightarrow> top_up_store \<Rightarrow> store_error + top_up_store" where
  "cancel sha256 key operator reason now s =
     and_then (ensure (operator \<noteq> [] \<and> 12 \<le> length (strip reason)) ''operator and specific reason are required'') (\<lambda>_.
     case plan_of s key of
       None \<Rightarrow> refuse ''only an undispatched, unapproved plan may be cancelled''
     | Some row \<Rightarrow>
       and_then (ensure (pl_state row = Planned) ''only an undispatched, unapproved plan may be cancelled'') (\<lambda>_.
       append_event sha256 (Some key) ''cancelled'' (JObject [(''operator'', JString operator), (''reason'', JString reason)]) now
         (set_plan key (\<lambda>p. p\<lparr>pl_state := Cancelled\<rparr>) s)))"

end
