(* ===== verification/Topup_Safety.thy ===== *)
theory Topup_Safety
  imports Topup
begin

section \<open>One payment at a time, each leg once\<close>

text \<open>
  Runs of the top-up journal: any number of operators and reviewers call its operations in any order, with any arguments; a call
  that raises changes nothing. \<open>life\<close> is the abstract life of one payment. The event chain, read by it, reproduces the state of every
  plan, so what was dispatched, how often and after whose approval is in the chain, and the chain cannot be rewritten unnoticed.
\<close>

subsection \<open>Runs\<close>

datatype top_up_command =
    Allocate allocation_row
  | Pause bool string string "string option"
  | Create payment_plan top_up_bounds
  | Approve string string string
  | Approve_Next string string string string string py_datetime
  | Claim string
  | Finalize string string string string "int option"
  | Reconcile string int int int int string string
  | Cancel string string string

fun run_command :: "hash_fun \<Rightarrow> top_up_command \<Rightarrow> py_datetime \<Rightarrow> top_up_store \<Rightarrow> store_error + top_up_store" where
  "run_command H (Allocate a) now s = record_allocation H a now s"
| "run_command H (Pause paused operator reason reviewer) now s = set_pause H paused operator reason reviewer now s"
| "run_command H (Create plan bounds) now s = and_then (create_plan H plan bounds now s) (\<lambda>r. Inr (fst r))"
| "run_command H (Approve key reviewer digest) now s = approve H key reviewer digest now s"
| "run_command H (Approve_Next key reviewer digest instructions quote quoted) now s = approve_next_leg H key reviewer digest instructions quote quoted now s"
| "run_command H (Claim key) now s = and_then (claim_leg H key now s) (\<lambda>r. Inr (fst r))"
| "run_command H (Finalize key leg extrinsic block_hash amount) now s = finalize_leg H key leg extrinsic block_hash amount now s"
| "run_command H (Reconcile key before after deposit usage reference reviewer) now s = reconcile_gm H key before after deposit usage reference reviewer now s"
| "run_command H (Cancel key operator reason) now s = cancel H key operator reason now s"

inductive journal_run :: "hash_fun \<Rightarrow> (top_up_command \<Rightarrow> bool) \<Rightarrow> top_up_store \<Rightarrow> bool" for H allowed where
  start: "journal_run H allowed initial_store"
| step: "journal_run H allowed s \<Longrightarrow> allowed c \<Longrightarrow> run_command H c now s = Inr s' \<Longrightarrow> journal_run H allowed s'"

subsection \<open>The life of a payment\<close>

text \<open>The state and leg of a payment with a given number of legs, moved by the kind of an event.\<close>

definition life :: "nat \<Rightarrow> plan_state \<times> nat \<Rightarrow> string \<Rightarrow> (plan_state \<times> nat) option" where
  "life legs x kind = (case x of (state, i) \<Rightarrow>
     if kind = ''approved'' \<and> state = Planned then Some (Approved, i)
     else if kind = ''next_leg_approved'' \<and> state = AwaitingReview then Some (Approved, i)
     else if kind = ''dispatch_started'' \<and> state = Approved then Some (Dispatching, i)
     else if kind = ''leg_finalized'' \<and> state = Dispatching then Some (if i + 1 = legs then AwaitingGm else AwaitingReview, i + 1)
     else if kind = ''gm_reconciled'' \<and> state = AwaitingGm then Some (Reconciled, i)
     else if kind = ''cancelled'' \<and> state = Planned then Some (Cancelled, i)
     else None)"

fun relive :: "nat \<Rightarrow> plan_state \<times> nat \<Rightarrow> string list \<Rightarrow> (plan_state \<times> nat) option" where
  "relive legs x [] = Some x"
| "relive legs x (k # ks) = Option.bind (life legs x k) (\<lambda>y. relive legs y ks)"

definition replay :: "nat \<Rightarrow> string list \<Rightarrow> (plan_state \<times> nat) option" where
  "replay legs kinds = (case kinds of k # ks \<Rightarrow> if k = ''planned'' then relive legs (Planned, 0) ks else None | [] \<Rightarrow> None)"

definition kinds_of :: "string \<Rightarrow> event_row list \<Rightarrow> string list" where
  "kinds_of key rows = map ev_kind (filter (\<lambda>e. ev_plan_key e = Some key) rows)"

definition life_of :: "plan_row \<Rightarrow> plan_state \<times> nat" where
  "life_of p = (pl_state p, pl_leg_index p)"

definition legs_of :: "plan_row \<Rightarrow> nat" where
  "legs_of p = length (LEGS (pl_route p))"

lemma relive_snoc: "relive legs x (ks @ [k]) = Option.bind (relive legs x ks) (\<lambda>y. life legs y k)"
  by (induction ks arbitrary: x) (auto split: bind_splits)

lemma replay_snoc: "replay legs ks = Some x \<Longrightarrow> replay legs (ks @ [k]) = life legs x k"
  by (auto simp: replay_def relive_snoc split: list.splits if_splits)

lemma replay_prefix: "replay legs (ks @ [k]) = Some y \<Longrightarrow> ks \<noteq> [] \<Longrightarrow> \<exists>x. replay legs ks = Some x \<and> life legs x k = Some y"
  by (cases ks) (auto simp: replay_def relive_snoc split: if_splits bind_splits)

subsection \<open>What an operation did\<close>

definition event_of :: "hash_fun \<Rightarrow> string option \<Rightarrow> string \<Rightarrow> json \<Rightarrow> int \<Rightarrow> event_row list \<Rightarrow> event_row" where
  "event_of H key kind body t rows = \<lparr>ev_sequence = length rows + 1, ev_plan_key = key, ev_kind = kind, ev_body_json = canonical body,
     ev_previous_hash = last_hash rows, ev_hash = event_digest H key kind (canonical body) (last_hash rows) (isoformat t),
     ev_recorded_at = isoformat t\<rparr>"

lemma append_event_Inr:
  "append_event H key kind body now s = Inr s' \<longleftrightarrow>
     dt_aware now \<and> s' = s\<lparr>ts_events := ts_events s @ [event_of H key kind body (dt_utc now) (ts_events s)]\<rparr>"
  by (auto simp: append_event_def timestamp_def and_then_Inr Let_def event_of_def)

text \<open>A move of one plan: the event says how the life goes on, and the amounts never grow.\<close>

definition moved :: "plan_row \<Rightarrow> string \<Rightarrow> plan_row \<Rightarrow> bool" where
  "moved p kind q \<longleftrightarrow> life (legs_of p) (life_of p) kind = Some (life_of q)
     \<and> pl_idempotency_key q = pl_idempotency_key p \<and> pl_route q = pl_route p \<and> pl_plan q = pl_plan p \<and> pl_plan_hash q = pl_plan_hash p
     \<and> pl_source_alpha_rao q = pl_source_alpha_rao p \<and> pl_reserved_tao_rao q = pl_reserved_tao_rao p \<and> pl_day q = pl_day p"

definition second_person :: "plan_row \<Rightarrow> string \<Rightarrow> json \<Rightarrow> bool" where
  "second_person p kind body \<longleftrightarrow> (kind \<in> {''approved'', ''next_leg_approved'', ''gm_reconciled''} \<longrightarrow>
     (\<exists>fields reviewer. body = JObject fields \<and> (''reviewer'', JString reviewer) \<in> set fields \<and> reviewer \<noteq> [] \<and> reviewer \<noteq> pp_operator (pl_plan p)))"

inductive effect :: "hash_fun \<Rightarrow> (top_up_command \<Rightarrow> bool) \<Rightarrow> top_up_store \<Rightarrow> top_up_store \<Rightarrow> bool" for H allowed where
  same: "effect H allowed s s"
| allocated: "0 \<le> al_gm_alpha_rao a \<Longrightarrow> effect H allowed s
    (s\<lparr>ts_allocations := ts_allocations s @ [a], ts_events := ts_events s @ [event_of H None ''allocation'' body t (ts_events s)]\<rparr>)"
| switched: "paused \<or> \<not> list_ex (\<lambda>p. pl_state p \<in> {Dispatching, AwaitingGm}) (ts_plans s) \<Longrightarrow> effect H allowed s
    (s\<lparr>ts_paused := paused, ts_reason := r, ts_events := ts_events s @ [event_of H None (if paused then ''pause'' else ''unpause'') body t (ts_events s)]\<rparr>)"
| created: "allowed (Create plan bounds) \<Longrightarrow> \<not> ts_paused s \<Longrightarrow> p = new_plan_row H plan t \<Longrightarrow> plan_of s (pl_idempotency_key p) = None \<Longrightarrow>
    list_all resolved (ts_plans s) \<Longrightarrow> pl_route p \<in> {''tao'', ''gm_alpha''} \<Longrightarrow> 0 < pl_source_alpha_rao p \<Longrightarrow> 0 < pl_reserved_tao_rao p \<Longrightarrow>
    pl_source_alpha_rao p \<le> MAX_SOURCE_ALPHA_RAO \<Longrightarrow>
    pl_source_alpha_rao p + sum_list (map pl_source_alpha_rao (filter live (ts_plans s))) \<le> sum_list (map al_gm_alpha_rao (filter (\<lambda>a. al_policy_revision a \<le> pl_policy_revision p) (ts_allocations s))) \<Longrightarrow>
    pl_reserved_tao_rao p + sum_list (map pl_reserved_tao_rao (filter (\<lambda>q. pl_day q = pl_day p \<and> live q) (ts_plans s))) \<le> tb_max_daily_outflow_rao bounds \<Longrightarrow>
    effect H allowed s
    (s\<lparr>ts_plans := ts_plans s @ [p], ts_events := ts_events s @ [event_of H (Some (pl_idempotency_key p)) ''planned'' body t (ts_events s)]\<rparr>)"
| advanced: "plan_of s key = Some p \<Longrightarrow> moved p kind (f p) \<Longrightarrow> second_person p kind body \<Longrightarrow> (kind = ''dispatch_started'' \<Longrightarrow> \<not> ts_paused s) \<Longrightarrow>
    effect H allowed s
    (set_plan key f s\<lparr>ts_events := ts_events s @ [event_of H (Some key) kind body t (ts_events s)]\<rparr>)"

lemma plan_of_key: "plan_of s key = Some p \<Longrightarrow> p \<in> set (ts_plans s) \<and> pl_idempotency_key p = key"
  by (auto simp: plan_of_def find_Some_iff)

lemma set_plan_events: "ts_events (set_plan key f s) = ts_events s"
  by (simp add: set_plan_def)

lemmas op_simps = and_then_Inr append_event_Inr set_plan_events

lemma allocation_effect:
  assumes "record_allocation H a now s = Inr s'" shows "effect H allowed s s'"
proof -
  obtain body where "0 \<le> al_gm_alpha_rao a"
      "append_event H None ''allocation'' body now (s\<lparr>ts_allocations := ts_allocations s @ [a]\<rparr>) = Inr s'"
    using assms by (auto simp: record_allocation_def and_then_Inr split: if_splits)
  then show ?thesis using effect.allocated [of a H allowed s body "dt_utc now"] by (simp add: append_event_Inr)
qed

lemma pause_effect:
  assumes "set_pause H paused operator reason reviewer now s = Inr s'" shows "effect H allowed s s'"
proof -
  obtain body where "paused \<or> \<not> list_ex (\<lambda>p. pl_state p \<in> {Dispatching, AwaitingGm}) (ts_plans s)"
      "append_event H None (if paused then ''pause'' else ''unpause'') body now (s\<lparr>ts_paused := paused, ts_reason := reason\<rparr>) = Inr s'"
    using assms unfolding set_pause_def and_then_Inr ensure_Inr by blast
  then show ?thesis using effect.switched [where paused = paused and s = s and r = reason and body = body and t = "dt_utc now"]
    by (simp only: append_event_Inr) simp
qed

lemma sql_sum_Inr: "sql_sum ns = Inr n \<longleftrightarrow> n = sum_list ns \<and> sum_list ns < 2 ^ 63"
  by (auto simp: sql_sum_def)

lemma sql_int_Inr: "sql_int n = Inr m \<longleftrightarrow> m = n \<and> - (2 ^ 63) \<le> n \<and> n < 2 ^ 63"
  by (auto simp: sql_int_def)

lemma preflight_Inr:
  assumes "preflight intent bounds now = Inr u"
  shows "ti_route intent \<in> {''tao'', ''gm_alpha''}" "0 < ti_source_alpha_rao intent" "0 < ti_tao_value_rao intent"
    "tb_daily_spent_rao bounds + ti_tao_value_rao intent \<le> tb_max_daily_outflow_rao bounds"
    "fresh_within (seconds 120) (dt_utc now) (dt_utc (ti_quoted_at intent))"
  using assms unfolding preflight_def and_then_Inr ensure_Inr by blast+

lemma check_plan_Inr:
  assumes "check_plan plan bounds now = Inr u" shows "ti_source_alpha_rao (pp_intent plan) \<le> MAX_SOURCE_ALPHA_RAO"
  using assms unfolding check_plan_def Let_def and_then_Inr ensure_Inr by blast

lemma create_effect:
  assumes "create_plan H plan bounds now s = Inr (s', digest)" "allowed (Create plan bounds)" shows "effect H allowed s s'"
proof (cases "plan_of s (ti_idempotency_key (pp_intent plan))")
  case (Some existing)
  then have "s' = s" using assms(1) by (auto simp: create_plan_def and_then_Inr Let_def split: if_splits)
  then show ?thesis by (simp add: effect.same)
next
  case None
  let ?p = "new_plan_row H plan (dt_utc now)" and ?i = "pp_intent plan"
  have p: "pl_idempotency_key ?p = ti_idempotency_key ?i" "pl_route ?p = ti_route ?i" "pl_source_alpha_rao ?p = ti_source_alpha_rao ?i"
      "pl_reserved_tao_rao ?p = ti_tao_value_rao ?i" "pl_day ?p = day_of (dt_utc now)" "pl_policy_revision ?p = ti_policy_revision ?i"
    by (simp_all add: new_plan_row_def Let_def)
  obtain u v w body where c: "check_plan plan bounds now = Inr u" "\<not> ts_paused s" "list_all resolved (ts_plans s)"
      and pre: "preflight ?i (bounds\<lparr>tb_daily_spent_rao := sum_list (map pl_reserved_tao_rao
         (filter (\<lambda>q. pl_day q = day_of (dt_utc now) \<and> live q) (ts_plans s)))\<rparr>) now = Inr v"
      and budget: "ti_source_alpha_rao ?i \<le> sum_list (map al_gm_alpha_rao (filter (\<lambda>a. al_policy_revision a \<le> ti_policy_revision ?i) (ts_allocations s)))
         - sum_list (map pl_source_alpha_rao (filter live (ts_plans s)))"
      and ev: "append_event H (Some (ti_idempotency_key ?i)) ''planned'' body now (s\<lparr>ts_plans := ts_plans s @ [?p]\<rparr>) = Inr s'"
    using assms(1) unfolding create_plan_def Let_def None option.case and_then_Inr ensure_Inr sql_sum_Inr sql_int_Inr by blast
  note pf = preflight_Inr [OF pre]
  show ?thesis
    using effect.created [where p = ?p and s = s and H = H and allowed = allowed and body = body and t = "dt_utc now" and bounds = bounds, OF assms(2) c(2) refl]
      None c(3) pf check_plan_Inr [OF c(1)] budget ev
    by (simp add: p append_event_Inr)
qed

text \<open>An operation on one plan advances it when the event and the update agree with its life.\<close>

lemma advance_effect:
  assumes "append_event H (Some key) kind body now (set_plan key f s) = Inr s'" "plan_of s key = Some p" "moved p kind (f p)"
    and "second_person p kind body" "kind = ''dispatch_started'' \<Longrightarrow> \<not> ts_paused s"
  shows "effect H allowed s s'"
  using effect.advanced [where f = f and s = s and key = key and p = p and kind = kind and body = body and t = "dt_utc now" and H = H
      and allowed = allowed] assms by (simp add: append_event_Inr set_plan_events)

lemmas move_simps = moved_def life_def life_of_def legs_of_def second_person_def

lemma approve_effect:
  assumes "approve H key reviewer digest now s = Inr s'" shows "effect H allowed s s'"
proof -
  obtain p where p: "plan_of s key = Some p" using assms by (cases "plan_of s key") (auto simp: approve_def)
  let ?body = "JObject [(''reviewer'', JString reviewer), (''plan_hash'', JString digest)]"
  have "pl_state p = Planned \<and> reviewer \<noteq> [] \<and> reviewer \<noteq> pp_operator (pl_plan p)
      \<and> append_event H (Some key) ''approved'' ?body now (set_plan key (\<lambda>p. p\<lparr>pl_state := Approved\<rparr>) s) = Inr s'"
    using assms unfolding approve_def p option.case and_then_Inr ensure_Inr by blast
  then show ?thesis by (elim conjE) (erule advance_effect, auto simp: p move_simps)
qed

lemma approve_next_effect:
  assumes "approve_next_leg H key reviewer digest instructions quote quoted now s = Inr s'" shows "effect H allowed s s'"
proof -
  obtain p where p: "plan_of s key = Some p" using assms by (cases "plan_of s key") (auto simp: approve_next_leg_def and_then_Inr)
  let ?body = "JObject [(''reviewer'', JString reviewer), (''leg'', JString (LEGS (pl_route p) ! pl_leg_index p)),
          (''quote_block_hash'', JString quote), (''instructions_sha256'', JString instructions)]"
  have "pl_state p = AwaitingReview \<and> reviewer \<noteq> [] \<and> reviewer \<noteq> pp_operator (pl_plan p)
      \<and> append_event H (Some key) ''next_leg_approved'' ?body now
         (set_plan key (\<lambda>p. p\<lparr>pl_state := Approved, pl_instructions_checked_at := dt_utc now, pl_quote_checked_at := dt_utc quoted\<rparr>) s) = Inr s'"
    using assms unfolding approve_next_leg_def p option.case and_then_Inr ensure_Inr by blast
  then show ?thesis by (elim conjE) (erule advance_effect, auto simp: p move_simps)
qed

lemma claim_leg_Inr:
  assumes "claim_leg H key now s = Inr (s', leg, amount, plan)"
  obtains p where "plan_of s key = Some p" "pl_state p = Approved" "\<not> ts_paused s" "pl_leg_index p < length (LEGS (pl_route p))"
    "leg = LEGS (pl_route p) ! pl_leg_index p" "plan = pl_plan p" "0 < amount"
    "(if pl_leg_index p = 0 then Some (pl_source_alpha_rao p) else pl_amount_for_next_leg_rao p) = Some amount"
    "fresh_within (minutes 30) (dt_utc now) (pl_instructions_checked_at p)" "fresh_within (seconds 120) (dt_utc now) (pl_quote_checked_at p)"
    "append_event H (Some key) ''dispatch_started'' (JObject [(''leg'', JString leg), (''amount_rao'', JInt amount)]) now
           (set_plan key (\<lambda>p. p\<lparr>pl_state := Dispatching\<rparr>) s) = Inr s'"
proof -
  obtain p where p: "plan_of s key = Some p" using assms by (cases "plan_of s key") (auto simp: claim_leg_def and_then_Inr)
  have legs: "(if b then Inr v else Inl (Raised IndexError)) = (Inr w :: store_error + string) \<longleftrightarrow> b \<and> w = v" for b v w by auto
  show ?thesis
    using assms that p unfolding claim_leg_def p option.case(2) and_then_Inr ensure_Inr legs
    by (auto simp: and_then_Inr split: option.splits)
qed

lemma claim_effect:
  assumes "claim_leg H key now s = Inr (s', r)" shows "effect H allowed s s'"
proof -
  obtain leg amount plan where "r = (leg, amount, plan)" by (cases r)
  with assms obtain p where "plan_of s key = Some p" "pl_state p = Approved" "\<not> ts_paused s"
    "append_event H (Some key) ''dispatch_started'' (JObject [(''leg'', JString leg), (''amount_rao'', JInt amount)]) now
           (set_plan key (\<lambda>p. p\<lparr>pl_state := Dispatching\<rparr>) s) = Inr s'"
    by (auto elim: claim_leg_Inr)
  then show ?thesis by (intro advance_effect) (assumption, assumption, auto simp: move_simps)
qed

lemma finalize_effect:
  assumes "finalize_leg H key leg extrinsic block_hash amount now s = Inr s'" shows "effect H allowed s s'"
proof -
  obtain p where p: "plan_of s key = Some p" using assms by (cases "plan_of s key") (auto simp: finalize_leg_def and_then_Inr)
  let ?final = "pl_leg_index p + 1 = length (LEGS (pl_route p))"
  obtain body where "pl_state p = Dispatching"
      "append_event H (Some key) ''leg_finalized'' body now (set_plan key (\<lambda>q. q\<lparr>pl_state := (if ?final then AwaitingGm else AwaitingReview),
         pl_leg_index := pl_leg_index q + 1, pl_amount_for_next_leg_rao := amount\<rparr>) s) = Inr s'"
    using assms unfolding finalize_leg_def p option.case Let_def and_then_Inr ensure_Inr by blast
  then show ?thesis by (intro advance_effect) (assumption, rule p, auto simp: move_simps)
qed

lemma reconcile_effect:
  assumes "reconcile_gm H key before after deposit usage reference reviewer now s = Inr s'" shows "effect H allowed s s'"
proof -
  obtain p where p: "plan_of s key = Some p" using assms by (cases "plan_of s key") (auto simp: reconcile_gm_def and_then_Inr)
  let ?body = "JObject [(''before_nano_usd'', JInt before), (''after_nano_usd'', JInt after), (''deposit_nano_usd'', JInt deposit),
          (''intervening_usage_nano_usd'', JInt usage), (''deposit_reference'', JString reference), (''reviewer'', JString reviewer)]"
  have "pl_state p = AwaitingGm \<and> reviewer \<noteq> [] \<and> reviewer \<noteq> pp_operator (pl_plan p)
      \<and> append_event H (Some key) ''gm_reconciled'' ?body now (set_plan key (\<lambda>p. p\<lparr>pl_state := Reconciled\<rparr>) s) = Inr s'"
    using assms unfolding reconcile_gm_def p option.case and_then_Inr ensure_Inr by blast
  then show ?thesis by (elim conjE) (erule advance_effect, auto simp: p move_simps)
qed

lemma cancel_effect:
  assumes "cancel H key operator reason now s = Inr s'" shows "effect H allowed s s'"
proof -
  obtain p where p: "plan_of s key = Some p" using assms by (cases "plan_of s key") (auto simp: cancel_def and_then_Inr)
  obtain body where "pl_state p = Planned" "append_event H (Some key) ''cancelled'' body now (set_plan key (\<lambda>p. p\<lparr>pl_state := Cancelled\<rparr>) s) = Inr s'"
    using assms unfolding cancel_def p option.case and_then_Inr ensure_Inr by blast
  then show ?thesis by (intro advance_effect) (assumption, rule p, auto simp: move_simps)
qed

lemma command_effect:
  assumes "run_command H c now s = Inr s'" "allowed c" shows "effect H allowed s s'"
  using assms
  by (cases c) (auto simp: and_then_Inr intro: allocation_effect pause_effect create_effect approve_effect approve_next_effect
      claim_effect finalize_effect reconcile_effect cancel_effect)

text \<open>The induction rule of the runs: a property kept by every effect holds on every run.\<close>

lemma journal_invariant [consumes 1, case_names start effect]:
  assumes "journal_run H allowed s" "P initial_store" "\<And>s s'. P s \<Longrightarrow> effect H allowed s s' \<Longrightarrow> P s'"
  shows "P s"
  using assms(1)
proof (induction rule: journal_run.induct)
  case (step s c now s')
  then show ?case using assms(3) [of s s'] command_effect [of H c now s s' allowed] by simp
qed (rule assms(2))

subsection \<open>The chain tells the life of every plan\<close>

definition chain_ok :: "top_up_store \<Rightarrow> bool" where
  "chain_ok s \<longleftrightarrow> distinct (map pl_idempotency_key (ts_plans s))
     \<and> (\<forall>e\<in>set (ts_events s). \<forall>k. ev_plan_key e = Some k \<longrightarrow> k \<in> pl_idempotency_key ` set (ts_plans s))
     \<and> (\<forall>p\<in>set (ts_plans s). replay (legs_of p) (kinds_of (pl_idempotency_key p) (ts_events s)) = Some (life_of p))"

lemma event_of_sel [simp]: "ev_plan_key (event_of H k kind b t r) = k" "ev_kind (event_of H k kind b t r) = kind"
    "ev_body_json (event_of H k kind b t r) = canonical b"
  by (simp_all add: event_of_def)

lemma kinds_of_append [simp]: "kinds_of k (evs @ [e]) = kinds_of k evs @ (if ev_plan_key e = Some k then [ev_kind e] else [])"
  by (simp add: kinds_of_def)

lemma set_plan_plans: "ts_plans (set_plan key f s) = map (\<lambda>p. if pl_idempotency_key p = key then f p else p) (ts_plans s)"
  by (simp add: set_plan_def)

lemma plan_unique:
  "distinct (map pl_idempotency_key (ts_plans s)) \<Longrightarrow> plan_of s key = Some p \<Longrightarrow> q \<in> set (ts_plans s) \<Longrightarrow> pl_idempotency_key q = key \<Longrightarrow> q = p"
  using plan_of_key [of s key p] by (auto simp: distinct_map dest: inj_onD)

lemma plan_of_None: "plan_of s key = None \<longleftrightarrow> key \<notin> pl_idempotency_key ` set (ts_plans s)"
  by (auto simp: plan_of_def find_None_iff)

lemma set_plan_keys:
  assumes "plan_of s key = Some p" "distinct (map pl_idempotency_key (ts_plans s))" "pl_idempotency_key (f p) = pl_idempotency_key p"
  shows "map pl_idempotency_key (ts_plans (set_plan key f s)) = map pl_idempotency_key (ts_plans s)"
  using plan_unique [OF assms(2,1)] assms(3) plan_of_key [OF assms(1)] by (auto simp: set_plan_plans)

lemma effect_chain_ok:
  assumes "chain_ok s" "effect H allowed s s'" shows "chain_ok s'"
  using assms(2)
proof cases
  case (advanced key p kind f body t)
  have d: "distinct (map pl_idempotency_key (ts_plans s))" using assms(1) by (simp add: chain_ok_def)
  note key = plan_of_key [OF advanced(2)]
  have keys: "map pl_idempotency_key (ts_plans (set_plan key f s)) = map pl_idempotency_key (ts_plans s)"
    using advanced(2,3) d by (intro set_plan_keys) (auto simp: moved_def)
  then have keys': "pl_idempotency_key ` set (ts_plans (set_plan key f s)) = pl_idempotency_key ` set (ts_plans s)" by (metis set_map)
  have "replay (legs_of q) (kinds_of (pl_idempotency_key q) (ts_events s')) = Some (life_of q)" if q: "q \<in> set (ts_plans s')" for q
  proof (cases "pl_idempotency_key q = key")
    case True
    then have "q = f p" using q d plan_unique [OF d advanced(2)] advanced(1,3) key by (auto simp: set_plan_plans moved_def split: if_splits)
    moreover have "legs_of (f p) = legs_of p" "pl_idempotency_key (f p) = key" using advanced(3) key by (simp_all add: moved_def legs_of_def)
    moreover have "replay (legs_of p) (kinds_of key (ts_events s)) = Some (life_of p)" using assms(1) key by (auto simp: chain_ok_def)
    ultimately show ?thesis using advanced(1,3) by (simp add: replay_snoc moved_def)
  next
    case False
    then have "q \<in> set (ts_plans s)" using q advanced(1,3) d key plan_unique [OF d advanced(2)]
      by (auto simp: set_plan_plans moved_def split: if_splits)
    then show ?thesis using assms(1) False advanced(1) by (simp add: chain_ok_def)
  qed
  then show ?thesis using assms(1) d keys keys' key advanced(1) by (auto simp: chain_ok_def)
next
  case (created plan bounds p t body)
  have fresh: "pl_idempotency_key p \<notin> pl_idempotency_key ` set (ts_plans s)" using created(5) by (simp add: plan_of_None)
  then have "kinds_of (pl_idempotency_key p) (ts_events s) = []"
    using assms(1) by (auto simp: chain_ok_def kinds_of_def filter_empty_conv)
  moreover have "life_of p = (Planned, 0)" using created(4) by (simp add: life_of_def new_plan_row_def Let_def)
  moreover have "replay (legs_of q) (kinds_of (pl_idempotency_key q) (ts_events s')) = Some (life_of q)" if "q \<in> set (ts_plans s)" for q
    using that fresh assms(1) created(1) by (auto simp: chain_ok_def)
  ultimately show ?thesis using assms(1) fresh created(1) by (auto simp: chain_ok_def replay_def)
qed (use assms(1) in \<open>auto simp: chain_ok_def\<close>)

lemma journal_chain_ok: "journal_run H allowed s \<Longrightarrow> chain_ok s"
  by (induction rule: journal_invariant) (simp add: chain_ok_def initial_store_def, rule effect_chain_ok)

subsection \<open>Limits\<close>

lemma length_filter_map_le:
  "(\<And>x. x \<in> set xs \<Longrightarrow> P (g x) \<Longrightarrow> P x) \<Longrightarrow> length (filter P (map g xs)) \<le> length (filter P xs)"
  by (induction xs) (auto simp: le_SucI)

lemma sum_filter_map_le:
  fixes w :: "'a \<Rightarrow> int"
  shows "(\<And>x. x \<in> set xs \<Longrightarrow> 0 \<le> w x \<and> (P (g x) \<longrightarrow> P x \<and> w (g x) = w x)) \<Longrightarrow>
    sum_list (map w (filter P (map g xs))) \<le> sum_list (map w (filter P xs))"
proof (induction xs)
  case (Cons x xs)
  have "0 \<le> w x \<and> (P (g x) \<longrightarrow> P x \<and> w (g x) = w x)" using Cons.prems [of x] by simp
  moreover have "sum_list (map w (filter P (map g xs))) \<le> sum_list (map w (filter P xs))" using Cons by simp
  ultimately show ?case by (auto split: if_splits)
qed simp

lemma sum_filter_le:
  fixes w :: "'a \<Rightarrow> int"
  shows "(\<And>x. x \<in> set xs \<Longrightarrow> 0 \<le> w x) \<Longrightarrow> sum_list (map w (filter P xs)) \<le> sum_list (map w xs)"
  by (induction xs) (auto simp: add_increasing)

definition limits_ok :: "top_up_store \<Rightarrow> bool" where
  "limits_ok s \<longleftrightarrow> length (filter (\<lambda>p. \<not> resolved p) (ts_plans s)) \<le> 1
     \<and> (\<forall>a\<in>set (ts_allocations s). 0 \<le> al_gm_alpha_rao a)
     \<and> (\<forall>p\<in>set (ts_plans s). 0 < pl_source_alpha_rao p \<and> pl_source_alpha_rao p \<le> MAX_SOURCE_ALPHA_RAO \<and> 0 < pl_reserved_tao_rao p
          \<and> pl_route p \<in> {''tao'', ''gm_alpha''})
     \<and> sum_list (map pl_source_alpha_rao (filter live (ts_plans s))) \<le> sum_list (map al_gm_alpha_rao (ts_allocations s))"

definition daily_outflow :: "int \<Rightarrow> top_up_store \<Rightarrow> int" where
  "daily_outflow day s = sum_list (map pl_reserved_tao_rao (filter (\<lambda>p. pl_day p = day \<and> live p) (ts_plans s)))"

definition daily_bound :: "int \<Rightarrow> top_up_command \<Rightarrow> bool" where
  "daily_bound D c \<longleftrightarrow> (case c of Create plan bounds \<Rightarrow> tb_max_daily_outflow_rao bounds \<le> D | _ \<Rightarrow> True)"

lemma moved_open: "moved p kind q \<Longrightarrow> \<not> resolved p" "moved p kind q \<Longrightarrow> live p"
  by (auto simp: moved_def life_def life_of_def resolved_def live_def split: if_splits)

text \<open>An advanced plan is its old self up to state, leg and freshness; the other plans stay.\<close>

lemma advanced_rows:
  assumes "chain_ok s" "plan_of s key = Some p" "x \<in> set (ts_plans s)"
  shows "(if pl_idempotency_key x = key then f x else x) = x \<or> x = p \<and> (if pl_idempotency_key x = key then f x else x) = f p"
  using assms plan_unique [of s key p x] by (auto simp: chain_ok_def)

lemma effect_limits_ok:
  assumes "chain_ok s" "limits_ok s" "effect H allowed s s'" shows "limits_ok s'"
  using assms(3)
proof cases
  case (advanced key p kind f body t)
  let ?g = "\<lambda>x. if pl_idempotency_key x = key then f x else x"
  note row = advanced_rows [OF assms(1) advanced(2), where f = f] and mv = moved_open [OF advanced(3)]
  have plans: "ts_plans s' = map ?g (ts_plans s)" using advanced(1) by (simp add: set_plan_plans)
  have "length (filter (\<lambda>p. \<not> resolved p) (ts_plans s')) \<le> length (filter (\<lambda>p. \<not> resolved p) (ts_plans s))"
    unfolding plans by (rule length_filter_map_le) (metis row mv(1))
  moreover have "sum_list (map pl_source_alpha_rao (filter live (ts_plans s'))) \<le> sum_list (map pl_source_alpha_rao (filter live (ts_plans s)))"
    unfolding plans
  proof (rule sum_filter_map_le)
    fix x assume x: "x \<in> set (ts_plans s)"
    have "0 \<le> pl_source_alpha_rao x" using assms(2) x by (auto simp: limits_ok_def)
    moreover have "pl_source_alpha_rao (f p) = pl_source_alpha_rao p" using advanced(3) by (simp add: moved_def)
    ultimately show "0 \<le> pl_source_alpha_rao x \<and> (live (?g x) \<longrightarrow> live x \<and> pl_source_alpha_rao (?g x) = pl_source_alpha_rao x)"
      using row [OF x] mv(2) by auto
  qed
  moreover have "0 < pl_source_alpha_rao q \<and> pl_source_alpha_rao q \<le> MAX_SOURCE_ALPHA_RAO \<and> 0 < pl_reserved_tao_rao q \<and> pl_route q \<in> {''tao'', ''gm_alpha''}"
    if q: "q \<in> set (ts_plans s')" for q
  proof -
    obtain x where x: "x \<in> set (ts_plans s)" "q = ?g x" using q plans by auto
    then have "q = x \<or> x = p \<and> q = f p" using row by blast
    then show ?thesis using assms(2) x(1) advanced(3) by (auto simp: limits_ok_def moved_def)
  qed
  moreover have "ts_allocations s' = ts_allocations s" using advanced(1) by (simp add: set_plan_def)
  ultimately show ?thesis using assms(2) by (simp add: limits_ok_def)
next
  case (created plan bounds p t body)
  have "sum_list (map al_gm_alpha_rao (filter (\<lambda>a. al_policy_revision a \<le> pl_policy_revision p) (ts_allocations s)))
      \<le> sum_list (map al_gm_alpha_rao (ts_allocations s))"
    using assms(2) by (intro sum_filter_le) (simp add: limits_ok_def)
  from order_trans [OF created(11) this]
  have "pl_source_alpha_rao p + sum_list (map pl_source_alpha_rao (filter live (ts_plans s))) \<le> sum_list (map al_gm_alpha_rao (ts_allocations s))" .
  moreover have "filter (\<lambda>p. \<not> resolved p) (ts_plans s) = []" using created(6) by (simp add: filter_empty_conv list_all_iff)
  moreover have "live p" using created(4) by (simp add: live_def new_plan_row_def Let_def)
  ultimately show ?thesis using assms(2) created(1,7-10) by (auto simp: limits_ok_def)
qed (use assms(2) in \<open>auto simp: limits_ok_def\<close>)

lemma effect_daily:
  assumes "chain_ok s" "limits_ok s" "daily_outflow day s \<le> D" "effect H (daily_bound D) s s'"
  shows "daily_outflow day s' \<le> D"
  using assms(4)
proof cases
  case (advanced key p kind f body t)
  let ?g = "\<lambda>x. if pl_idempotency_key x = key then f x else x"
  have plans: "ts_plans s' = map ?g (ts_plans s)" using advanced(1) by (simp add: set_plan_plans)
  have "daily_outflow day s' \<le> daily_outflow day s"
    unfolding daily_outflow_def plans
  proof (rule sum_filter_map_le)
    fix x assume x: "x \<in> set (ts_plans s)"
    have "0 \<le> pl_reserved_tao_rao x" using assms(2) x by (auto simp: limits_ok_def)
    then show "0 \<le> pl_reserved_tao_rao x \<and> (pl_day (?g x) = day \<and> live (?g x) \<longrightarrow> (pl_day x = day \<and> live x) \<and> pl_reserved_tao_rao (?g x) = pl_reserved_tao_rao x)"
      using advanced_rows [OF assms(1) advanced(2) x, where f = f] moved_open [OF advanced(3)] advanced(3) by (auto simp: moved_def)
  qed
  then show ?thesis using assms(3) by simp
next
  case (created plan bounds p t body)
  then show ?thesis using assms(3) by (auto simp: daily_outflow_def daily_bound_def)
qed (use assms(3) in \<open>auto simp: daily_outflow_def\<close>)

subsection \<open>The chain verifies\<close>

lemma verify_loop_append:
  assumes "verify_loop H previous n rows = Inr m"
  shows "m = n + length rows \<and> verify_loop H previous n (rows @ rest) = verify_loop H (if rows = [] then previous else ev_hash (last rows)) m rest"
  using assms by (induction H previous n rows rule: verify_loop.induct) (auto simp: Let_def split: if_splits)

lemma effect_verify:
  assumes "verify H s = Inr (length (ts_events s))" "effect H allowed s s'" shows "verify H s' = Inr (length (ts_events s'))"
proof -
  have one: "verify_loop H GENESIS 0 (ts_events s @ [event_of H key kind body t (ts_events s)]) = Inr (length (ts_events s) + 1)" for key kind body t
    using verify_loop_append [of H GENESIS 0 "ts_events s" "length (ts_events s)" "[event_of H key kind body t (ts_events s)]"] assms(1)
    by (auto simp: verify_def event_of_def last_hash_def split: if_splits)
  from assms(2) show ?thesis
    by cases (use assms(1) one in \<open>auto simp: verify_def set_plan_events\<close>)
qed

lemma journal_verifies: "journal_run H allowed s \<Longrightarrow> verify H s = Inr (length (ts_events s))"
  by (induction rule: journal_invariant) (simp add: verify_def initial_store_def, rule effect_verify)

subsection \<open>The trail of a dispatch\<close>

text \<open>The pause switch as the chain tells it; a new journal is paused.\<close>

definition switch :: "bool \<Rightarrow> event_row \<Rightarrow> bool" where
  "switch paused e = (if ev_plan_key e \<noteq> None then paused else if ev_kind e = ''pause'' then True
     else if ev_kind e = ''unpause'' then False else paused)"

definition paused_after :: "event_row list \<Rightarrow> bool" where
  "paused_after rows = foldl switch True rows"

definition trail_ok :: "top_up_store \<Rightarrow> bool" where
  "trail_ok s \<longleftrightarrow> ts_paused s = paused_after (ts_events s)
     \<and> (\<forall>pre e post. ts_events s = pre @ e # post \<and> ev_kind e = ''dispatch_started'' \<longrightarrow> \<not> paused_after pre)
     \<and> (\<forall>e\<in>set (ts_events s). \<forall>k. ev_plan_key e = Some k \<longrightarrow>
          (\<exists>p\<in>set (ts_plans s). \<exists>body. pl_idempotency_key p = k \<and> ev_body_json e = canonical body \<and> second_person p (ev_kind e) body))"

lemma snoc_split: "xs @ [x] = pre @ e # post \<longleftrightarrow> (post = [] \<and> pre = xs \<and> e = x) \<or> (\<exists>post'. post = post' @ [x] \<and> xs = pre @ e # post')"
  by (cases post rule: rev_cases) auto

lemma dispatch_snoc:
  assumes "\<forall>pre e post. evs = pre @ e # post \<and> ev_kind e = ''dispatch_started'' \<longrightarrow> \<not> paused_after pre"
    and "ev_kind x = ''dispatch_started'' \<Longrightarrow> \<not> paused_after evs"
  shows "\<forall>pre e post. evs @ [x] = pre @ e # post \<and> ev_kind e = ''dispatch_started'' \<longrightarrow> \<not> paused_after pre"
  using assms by (auto simp: snoc_split)

lemma effect_trail_ok:
  assumes "chain_ok s" "trail_ok s" "effect H allowed s s'" shows "trail_ok s'"
  using assms(3)
proof cases
  case (advanced key p kind f body t)
  let ?e = "event_of H (Some key) kind body t (ts_events s)"
  have ev: "ts_events s' = ts_events s @ [?e]" using advanced(1) by simp
  have rows: "\<exists>r\<in>set (ts_plans s'). pl_idempotency_key r = pl_idempotency_key q \<and> pl_plan r = pl_plan q" if q: "q \<in> set (ts_plans s)" for q
  proof -
    let ?r = "if pl_idempotency_key q = key then f q else q"
    have "?r = q \<or> q = p \<and> ?r = f p" by (rule advanced_rows [OF assms(1) advanced(2) q])
    then have "pl_idempotency_key ?r = pl_idempotency_key q \<and> pl_plan ?r = pl_plan q"
      using advanced(3) unfolding moved_def by metis
    moreover have "?r \<in> set (ts_plans s')" using advanced(1) q by (simp add: set_plan_plans)
    ultimately show ?thesis by blast
  qed
  have "\<exists>q\<in>set (ts_plans s'). \<exists>b. pl_idempotency_key q = k \<and> ev_body_json e = canonical b \<and> second_person q (ev_kind e) b"
    if e: "e \<in> set (ts_events s')" "ev_plan_key e = Some k" for e k
  proof -
    have "\<exists>q\<in>set (ts_plans s). \<exists>b. pl_idempotency_key q = k \<and> ev_body_json e = canonical b \<and> second_person q (ev_kind e) b"
    proof (cases "e = ?e")
      case True
      then show ?thesis using e(2) advanced(4) plan_of_key [OF advanced(2)] by (intro bexI [of _ p] exI [of _ body]) auto
    next
      case False
      then show ?thesis using e assms(2) unfolding ev trail_ok_def by simp
    qed
    then show ?thesis using rows by (metis second_person_def)
  qed
  moreover have "\<forall>pre e post. ts_events s' = pre @ e # post \<and> ev_kind e = ''dispatch_started'' \<longrightarrow> \<not> paused_after pre"
    unfolding ev using assms(2) advanced(5) by (intro dispatch_snoc) (auto simp: trail_ok_def)
  moreover have "ts_paused s' = paused_after (ts_events s')"
    using assms(2) advanced(1) by (simp add: trail_ok_def paused_after_def switch_def set_plan_def)
  ultimately show ?thesis by (simp add: trail_ok_def)
next
  case (created plan bounds p t body)
  let ?e = "event_of H (Some (pl_idempotency_key p)) ''planned'' body t (ts_events s)"
  have ev: "ts_events s' = ts_events s @ [?e]" and plans: "ts_plans s' = ts_plans s @ [p]" using created(1) by simp_all
  have "\<exists>q\<in>set (ts_plans s'). \<exists>b. pl_idempotency_key q = k \<and> ev_body_json e = canonical b \<and> second_person q (ev_kind e) b"
    if "e \<in> set (ts_events s')" "ev_plan_key e = Some k" for e k
    using that assms(2) unfolding ev plans trail_ok_def by (auto simp: second_person_def)
  moreover have "\<forall>pre e post. ts_events s' = pre @ e # post \<and> ev_kind e = ''dispatch_started'' \<longrightarrow> \<not> paused_after pre"
    unfolding ev using assms(2) by (intro dispatch_snoc) (auto simp: trail_ok_def)
  moreover have "ts_paused s' = paused_after (ts_events s')"
    using assms(2) created(1) by (simp add: trail_ok_def paused_after_def switch_def)
  ultimately show ?thesis by (simp add: trail_ok_def)
next
  case (switched paused body t r)
  have "\<forall>pre e post. ts_events s @ [event_of H None (if paused then ''pause'' else ''unpause'') body t (ts_events s)] = pre @ e # post
      \<and> ev_kind e = ''dispatch_started'' \<longrightarrow> \<not> paused_after pre"
    using assms(2) by (intro dispatch_snoc) (auto simp: trail_ok_def split: if_splits)
  then show ?thesis using assms(2) switched(1) by (auto simp: trail_ok_def paused_after_def switch_def)
next
  case (allocated a body t)
  have "\<forall>pre e post. ts_events s @ [event_of H None ''allocation'' body t (ts_events s)] = pre @ e # post
      \<and> ev_kind e = ''dispatch_started'' \<longrightarrow> \<not> paused_after pre"
    using assms(2) by (intro dispatch_snoc) (auto simp: trail_ok_def)
  then show ?thesis using assms(2) allocated(1) by (auto simp: trail_ok_def paused_after_def switch_def)
qed (use assms(2) in simp)

subsection \<open>Counting a life\<close>

definition approvals :: "string list \<Rightarrow> nat" where
  "approvals ks = count_list ks ''approved'' + count_list ks ''next_leg_approved''"

definition dispatches :: "string list \<Rightarrow> nat" where
  "dispatches ks = count_list ks ''dispatch_started''"

definition finalizations :: "string list \<Rightarrow> nat" where
  "finalizations ks = count_list ks ''leg_finalized''"

lemma replay_counts:
  assumes "replay legs ks = Some (state, i)" "0 < legs"
  shows "finalizations ks = i" "dispatches ks = i + (if state = Dispatching then 1 else 0)"
    "approvals ks = i + (if state \<in> {Approved, Dispatching} then 1 else 0)"
    "i \<le> legs" "i = legs \<longleftrightarrow> state \<in> {AwaitingGm, Reconciled}"
proof -
  have "finalizations ks = i \<and> dispatches ks = i + (if state = Dispatching then 1 else 0)
      \<and> approvals ks = i + (if state \<in> {Approved, Dispatching} then 1 else 0) \<and> i \<le> legs \<and> (i = legs \<longleftrightarrow> state \<in> {AwaitingGm, Reconciled})"
    using assms(1)
  proof (induction ks arbitrary: state i rule: rev_induct)
    case (snoc k ks)
    show ?case
    proof (cases "ks = []")
      case True
      then show ?thesis using snoc.prems assms(2)
        by (auto simp: replay_def finalizations_def dispatches_def approvals_def split: if_splits)
    next
      case False
      then obtain x where x: "replay legs ks = Some x" "life legs x k = Some (state, i)" using replay_prefix snoc.prems by blast
      then show ?thesis using snoc.IH [of "fst x" "snd x"] x(2)
        by (cases x) (auto simp: life_def finalizations_def dispatches_def approvals_def split: if_splits)
    qed
  qed (simp add: replay_def)
  then show "finalizations ks = i" "dispatches ks = i + (if state = Dispatching then 1 else 0)"
    "approvals ks = i + (if state \<in> {Approved, Dispatching} then 1 else 0)"
    "i \<le> legs" "i = legs \<longleftrightarrow> state \<in> {AwaitingGm, Reconciled}" by blast+
qed

lemma replay_of_prefix: "replay legs (ks @ ls) = Some x \<Longrightarrow> ks = [] \<or> (\<exists>y. replay legs ks = Some y)"
proof (induction ls arbitrary: x rule: rev_induct)
  case (snoc l ls)
  show ?case
  proof (cases "ks @ ls = []")
    case False
    then show ?thesis using replay_prefix [of legs "ks @ ls" l x] snoc by auto
  qed simp
qed auto

lemma prefix_counts:
  assumes "replay legs (ks @ ls) = Some x" "0 < legs"
  shows "finalizations ks \<le> dispatches ks \<and> dispatches ks \<le> finalizations ks + 1 \<and> dispatches ks \<le> approvals ks \<and> dispatches ks \<le> legs"
proof (cases "ks = []")
  case True
  then show ?thesis by (simp add: finalizations_def dispatches_def approvals_def)
next
  case False
  then obtain state i where r: "replay legs ks = Some (state, i)" using replay_of_prefix [OF assms(1)] by auto
  note c = replay_counts [OF r assms(2)]
  have "dispatches ks \<le> legs"
  proof (cases "state = Dispatching")
    case True
    then have "i \<noteq> legs" using c(5) by simp
    then show ?thesis using c(2,4) by simp
  qed (use c in simp)
  then show ?thesis using c(1-3) by auto
qed

lemma legs_positive: "0 < legs_of p"
  by (simp add: legs_of_def LEGS_def)

lemma journal_limits_ok: "journal_run H allowed s \<Longrightarrow> chain_ok s \<and> limits_ok s"
proof (induction rule: journal_invariant)
  case start
  then show ?case by (simp add: chain_ok_def limits_ok_def initial_store_def)
next
  case (effect s s')
  then show ?case using effect_chain_ok effect_limits_ok by blast
qed

lemma journal_trail_ok: "journal_run H allowed s \<Longrightarrow> chain_ok s \<and> trail_ok s"
proof (induction rule: journal_invariant)
  case start
  then show ?case by (simp add: chain_ok_def trail_ok_def initial_store_def paused_after_def)
next
  case (effect s s')
  then show ?case using effect_chain_ok effect_trail_ok by blast
qed

lemma journal_daily: "journal_run H (daily_bound D) s \<Longrightarrow> 0 \<le> D \<Longrightarrow> (chain_ok s \<and> limits_ok s) \<and> daily_outflow day s \<le> D"
proof (induction rule: journal_invariant)
  case start
  then show ?case by (simp add: chain_ok_def limits_ok_def initial_store_def daily_outflow_def)
next
  case (effect s s')
  then show ?case using effect_chain_ok effect_limits_ok effect_daily by blast
qed

lemma single_open: "length (filter Q xs) \<le> 1 \<Longrightarrow> p \<in> set xs \<Longrightarrow> q \<in> set xs \<Longrightarrow> Q p \<Longrightarrow> Q q \<Longrightarrow> p = q"
proof (induction xs)
  case (Cons x xs)
  then show ?case by (cases "Q x") (auto simp: filter_empty_conv)
qed simp

subsection \<open>Two chains with one end\<close>

definition event_message :: "event_row \<Rightarrow> string" where
  "event_message e = canonical (JArray [json_opt_string (ev_plan_key e), JString (ev_kind e), JString (ev_body_json e), JString (ev_previous_hash e),
     JString (ev_recorded_at e)])"

lemma event_message_inj:
  assumes "event_message e = event_message d"
  shows "ev_plan_key e = ev_plan_key d \<and> ev_kind e = ev_kind d \<and> ev_body_json e = ev_body_json d \<and> ev_previous_hash e = ev_previous_hash d
    \<and> ev_recorded_at e = ev_recorded_at d"
proof -
  have "json_sort (json_opt_string x) = json_opt_string x" for x by (simp add: json_opt_string_def split: option.split)
  then have "JArray [json_opt_string (ev_plan_key e), JString (ev_kind e), JString (ev_body_json e), JString (ev_previous_hash e), JString (ev_recorded_at e)]
      = JArray [json_opt_string (ev_plan_key d), JString (ev_kind d), JString (ev_body_json d), JString (ev_previous_hash d), JString (ev_recorded_at d)]"
    using assms by (intro json_text_inj) (simp add: event_message_def canonical_def)
  then show ?thesis by (simp add: json_opt_string_def split: option.splits)
qed

lemma verify_prefix: "verify_loop H previous n (xs @ ys) = Inr m \<Longrightarrow> \<exists>k. verify_loop H previous n xs = Inr k"
  by (induction H previous n xs rule: verify_loop.induct) (auto simp: Let_def split: if_splits)

lemma verify_snoc:
  assumes "verify_loop H GENESIS 0 (xs @ [e]) = Inr m"
  shows "verify_loop H GENESIS 0 xs = Inr (length xs)" "ev_sequence e = length xs + 1" "ev_previous_hash e = last_hash xs"
    "ev_hash e = hex_of (H (event_message e))"
proof -
  obtain k where k: "verify_loop H GENESIS 0 xs = Inr k" using verify_prefix [OF assms] by blast
  note a = verify_loop_append [OF k, of "[e]"]
  then show "verify_loop H GENESIS 0 xs = Inr (length xs)" using k by simp
  have "ev_hash e = event_digest H (ev_plan_key e) (ev_kind e) (ev_body_json e) (ev_previous_hash e) (ev_recorded_at e)"
    and "ev_sequence e = length xs + 1" "ev_previous_hash e = last_hash xs"
    using a assms by (auto simp: last_hash_def Let_def split: if_splits)
  moreover have "event_digest H (ev_plan_key e) (ev_kind e) (ev_body_json e) (ev_previous_hash e) (ev_recorded_at e) = hex_of (H (event_message e))"
    by (simp only: event_digest_def event_message_def canonical_def hexdigest_text)
  ultimately show "ev_sequence e = length xs + 1" "ev_previous_hash e = last_hash xs" "ev_hash e = hex_of (H (event_message e))" by simp_all
qed

lemma chains_agree:
  assumes "verify_loop H GENESIS 0 xs = Inr m" "verify_loop H GENESIS 0 ys = Inr n" "last_hash xs = last_hash ys"
    and "inj_on H (event_message ` (set xs \<union> set ys))" "\<forall>e\<in>set xs \<union> set ys. hex_of (H (event_message e)) \<noteq> GENESIS"
  shows "xs = ys"
  using assms
proof (induction xs arbitrary: ys m n rule: rev_induct)
  case Nil
  show ?case
  proof (cases ys rule: rev_cases)
    case (snoc zs d)
    then show ?thesis using Nil.prems verify_snoc(4) [of H zs d n] by (simp add: last_hash_def)
  qed simp
next
  case (snoc e xs)
  note e = verify_snoc [OF snoc.prems(1)]
  have "ys \<noteq> []" using snoc.prems(3,5) e(4) by (auto simp: last_hash_def)
  then obtain zs d where ys: "ys = zs @ [d]" by (metis rev_exhaust)
  note d = verify_snoc [OF snoc.prems(2) [unfolded ys]]
  have "H (event_message e) = H (event_message d)" using snoc.prems(3) e(4) d(4) by - (rule hex_of_inj, simp add: last_hash_def ys)
  then have msg: "event_message e = event_message d" by (rule inj_onD [OF snoc.prems(4)]) (simp_all add: ys)
  note same = event_message_inj [OF msg]
  have "last_hash xs = last_hash zs" using same e(3) d(3) by simp
  moreover have "inj_on H (event_message ` (set xs \<union> set zs))" by (rule inj_on_subset [OF snoc.prems(4)]) (auto simp: ys)
  ultimately have "xs = zs" using snoc.prems(5) ys by (intro snoc.IH [OF e(1) d(1)]) simp_all
  moreover have "e = d" using \<open>xs = zs\<close> same msg e(2-4) d(2-4) by (intro event_row.equality) simp_all
  ultimately show ?case by (simp add: ys)
qed

subsection \<open>A concrete run\<close>

definition fixed_hash :: hash_fun where
  "fixed_hash m = replicate 32 (CHR ''x'')"

definition noon :: "int \<Rightarrow> py_datetime" where
  "noon n = \<lparr>dt_utc = seconds (1700000000 + n), dt_aware = True\<rparr>"

definition sample_hash :: string where
  "sample_hash = ''0x'' @ replicate 64 (CHR ''a'')"

definition sample_intent :: top_up_intent where
  "sample_intent = \<lparr>ti_route = ''tao'', ti_policy_revision = 1, ti_quote_block_hash = sample_hash, ti_quoted_at = noon 0, ti_source_alpha_rao = 500,
     ti_tao_value_rao = 40, ti_price_impact_bps = 10, ti_linked_wallet = ''wallet'', ti_payment_instructions_sha256 = replicate 64 (CHR ''b''),
     ti_idempotency_key = ''gm-topup-1''\<rparr>"

definition sample_plan :: payment_plan where
  "sample_plan = \<lparr>pp_intent = sample_intent, pp_destination_coldkey = ''dest'', pp_treasury_hotkey = ''hot'', pp_gm_hotkey = [], pp_gm_account_ref = ''acct'',
     pp_operator = ''ann'', pp_instructions_observed_at = noon 0, pp_gm_balance_before_nano_usd = 7, pp_min_tao_proceeds_rao = 30, pp_min_gm_alpha_rao = 0,
     pp_max_slippage_bps = 50\<rparr>"

definition sample_bounds :: top_up_bounds where
  "sample_bounds = \<lparr>tb_max_source_alpha_rao = 1000, tb_max_single_topup_rao = 100, tb_max_daily_outflow_rao = 100, tb_max_slippage_bps = 50,
     tb_daily_spent_rao = 0, tb_expected_linked_wallet = ''wallet'', tb_expected_payment_instructions_sha256 = replicate 64 (CHR ''b''), tb_reconciled = True\<rparr>"

definition sample_allocation :: allocation_row where
  "sample_allocation = \<lparr>al_epoch = 3, al_policy_revision = 1, al_source_block_hash = sample_hash, al_gm_alpha_rao = 900, al_maintenance_alpha_rao = 0,
     al_operator = ''ann'', al_reviewer = ''bob''\<rparr>"

lemma append_event_ok:
  "dt_aware now \<Longrightarrow> append_event H key kind body now s = Inr (s\<lparr>ts_events := ts_events s @ [event_of H key kind body (dt_utc now) (ts_events s)]\<rparr>)"
  by (simp add: append_event_Inr)

lemma sample_patterns: "is_hash sample_hash" "sha256_pattern (replicate 64 (CHR ''b''))" "is_idempotency_key ''gm-topup-1''"
    "12 \<le> length (strip ''first rehearsal run'')"
  by code_simp+

lemmas sample_simps = append_event_ok ensure_def noon_def seconds_def minutes_def fresh_within_def sql_int_def sql_sum_def

text \<open>Ann plans a payment, Bob approves it, and its first leg is in flight.\<close>

lemma sample_dispatching:
  assumes "allowed (Allocate sample_allocation)" "allowed (Pause False ''ann'' ''first rehearsal run'' (Some ''bob''))"
    "allowed (Create sample_plan sample_bounds)" "allowed (Approve ''gm-topup-1'' ''bob'' (plan_digest H sample_plan))" "allowed (Claim ''gm-topup-1'')"
  obtains s p where "journal_run H allowed s" "ts_plans s = [p]" "pl_state p = Dispatching" "pl_idempotency_key p = ''gm-topup-1''"
proof -
  obtain s1 where s1: "run_command H (Allocate sample_allocation) (noon 0) initial_store = Inr s1" and a1: "ts_allocations s1 = [sample_allocation]" "ts_plans s1 = []"
    by (simp add: record_allocation_def sample_allocation_def sample_patterns sample_simps initial_store_def)
  note r1 = journal_run.step [where allowed = allowed, OF journal_run.start assms(1) s1]
  obtain s2 where s2: "run_command H (Pause False ''ann'' ''first rehearsal run'' (Some ''bob'')) (noon 1) s1 = Inr s2"
      and a2: "ts_allocations s2 = [sample_allocation]" "ts_plans s2 = []" "\<not> ts_paused s2"
    using journal_verifies [OF r1] a1 sample_patterns(4) by (simp add: set_pause_def sample_simps)
  note r2 = journal_run.step [OF r1 assms(2) s2]
  obtain s3 where s3: "run_command H (Create sample_plan sample_bounds) (noon 2) s2 = Inr s3"
      and a3: "ts_plans s3 = [new_plan_row H sample_plan (dt_utc (noon 2))]" "\<not> ts_paused s3"
    using a2 sample_patterns
    by (simp add: create_plan_def check_plan_def preflight_def plan_of_def timestamp_def sample_plan_def sample_intent_def sample_bounds_def
        sample_allocation_def MAX_SOURCE_ALPHA_RAO_def sample_simps Let_def)
  note r3 = journal_run.step [OF r2 assms(3) s3]
  obtain s4 where s4: "run_command H (Approve ''gm-topup-1'' ''bob'' (plan_digest H sample_plan)) (noon 3) s3 = Inr s4"
      and a4: "ts_plans s4 = [(new_plan_row H sample_plan (dt_utc (noon 2)))\<lparr>pl_state := Approved\<rparr>]" "\<not> ts_paused s4"
    using a3 by (simp add: approve_def plan_of_def set_plan_def new_plan_row_def sample_plan_def sample_intent_def sample_simps Let_def)
  note r4 = journal_run.step [OF r3 assms(4) s4]
  obtain s5 where s5: "run_command H (Claim ''gm-topup-1'') (noon 4) s4 = Inr s5"
      and a5: "ts_plans s5 = [(new_plan_row H sample_plan (dt_utc (noon 2)))\<lparr>pl_state := Dispatching\<rparr>]"
    using a4 by (simp add: claim_leg_def plan_of_def set_plan_def new_plan_row_def LEGS_def sample_plan_def sample_intent_def sample_simps Let_def)
  show ?thesis
    by (rule that [OF journal_run.step [OF r4 assms(5) s5] a5]) (simp_all add: new_plan_row_def sample_plan_def sample_intent_def Let_def)
qed

subsection \<open>Properties\<close>

text \<open>C11: whatever operators and reviewers do in whatever order, if every plan was created under a daily bound of at most \<open>D\<close>, the journal
  keeps its limits: idempotency keys are unique, at most one payment is unresolved, the source alpha of all plans that were not cancelled
  is covered by recorded allocations and at most 10 DITTO each, the TAO reserved on a day stays within \<open>D\<close>, and \<^verbatim>\<open>verify\<close>
  accepts the whole event chain.\<close>

theorem top_up_limits:
  assumes "journal_run sha256 (daily_bound D) s" "0 \<le> D"
  shows "distinct (map pl_idempotency_key (ts_plans s)) \<and> length (filter (\<lambda>p. \<not> resolved p) (ts_plans s)) \<le> 1
    \<and> sum_list (map pl_source_alpha_rao (filter live (ts_plans s))) \<le> sum_list (map al_gm_alpha_rao (ts_allocations s))
    \<and> (\<forall>p\<in>set (ts_plans s). 0 < pl_source_alpha_rao p \<and> pl_source_alpha_rao p \<le> MAX_SOURCE_ALPHA_RAO)
    \<and> (\<forall>day. daily_outflow day s \<le> D) \<and> verify sha256 s = Inr (length (ts_events s))"
  using journal_daily [OF assms] journal_verifies [OF assms(1)] by (auto simp: chain_ok_def limits_ok_def)

theorem top_up_limits_witness: "\<exists>s :: top_up_store. ts_plans s \<noteq> [] \<and> (\<forall>day. daily_outflow day s \<le> 100) \<and> verify fixed_hash s = Inr (length (ts_events s))"
proof -
  obtain s p where s: "journal_run fixed_hash (daily_bound 100) s" "ts_plans s = [p]"
    by (rule sample_dispatching [where H = fixed_hash and allowed = "daily_bound 100"]) (simp_all add: daily_bound_def sample_bounds_def)
  from top_up_limits [OF s(1)] s(2) show ?thesis by (intro exI [of _ s]) simp
qed

text \<open>C10: the journal refines the life of a payment and its chain is the proof. For every plan of a run, replaying the kinds of its events
  gives its stored state and leg. In every prefix of the chain a leg is dispatched only after one more approval and never again before
  the last dispatch was finalized, so no leg is dispatched twice and there are at most as many dispatches as the route has legs. A dispatch
  happens only while the journal is not paused, and every approval and reconciliation carries a reviewer who is not the plan's operator.\<close>

theorem top_up_refines_life:
  assumes "journal_run sha256 allowed s" "p \<in> set (ts_plans s)"
  shows "replay (legs_of p) (kinds_of (pl_idempotency_key p) (ts_events s)) = Some (pl_state p, pl_leg_index p)
    \<and> (\<forall>pre post. ts_events s = pre @ post \<longrightarrow> (let ks = kinds_of (pl_idempotency_key p) pre in
         finalizations ks \<le> dispatches ks \<and> dispatches ks \<le> finalizations ks + 1 \<and> dispatches ks \<le> approvals ks \<and> dispatches ks \<le> legs_of p))
    \<and> (\<forall>pre e post. ts_events s = pre @ e # post \<and> ev_kind e = ''dispatch_started'' \<longrightarrow> \<not> paused_after pre)
    \<and> (\<forall>e\<in>set (ts_events s). ev_plan_key e = Some (pl_idempotency_key p) \<longrightarrow>
         (\<exists>body. ev_body_json e = canonical body \<and> second_person p (ev_kind e) body))"
proof -
  have ok: "chain_ok s" "trail_ok s" using journal_trail_ok [OF assms(1)] by simp_all
  have life: "replay (legs_of p) (kinds_of (pl_idempotency_key p) (ts_events s)) = Some (life_of p)" using ok(1) assms(2) by (simp add: chain_ok_def)
  have "kinds_of (pl_idempotency_key p) (pre @ post) = kinds_of (pl_idempotency_key p) pre @ kinds_of (pl_idempotency_key p) post" for pre post
    by (simp add: kinds_of_def)
  then have "finalizations ks \<le> dispatches ks \<and> dispatches ks \<le> finalizations ks + 1 \<and> dispatches ks \<le> approvals ks \<and> dispatches ks \<le> legs_of p"
    if "ts_events s = pre @ post" "ks = kinds_of (pl_idempotency_key p) pre" for pre post ks
    using prefix_counts [of "legs_of p" ks "kinds_of (pl_idempotency_key p) post"] life that legs_positive by simp
  moreover have "\<exists>body. ev_body_json e = canonical body \<and> second_person p (ev_kind e) body"
    if "e \<in> set (ts_events s)" "ev_plan_key e = Some (pl_idempotency_key p)" for e
    using that ok assms(2) unfolding trail_ok_def chain_ok_def by (metis distinct_map inj_onD)
  ultimately show ?thesis using life ok(2) unfolding trail_ok_def life_of_def Let_def by blast
qed

theorem top_up_refines_life_witness:
  "\<exists>(s :: top_up_store) p. p \<in> set (ts_plans s) \<and> pl_state p = Dispatching
     \<and> replay (legs_of p) (kinds_of (pl_idempotency_key p) (ts_events s)) = Some (Dispatching, pl_leg_index p)"
proof -
  obtain s p where s: "journal_run fixed_hash (\<lambda>_. True) s" "ts_plans s = [p]" "pl_state p = Dispatching" 
    by (rule sample_dispatching [where H = fixed_hash and allowed = "\<lambda>_. True"]) simp_all
  have p: "p \<in> set (ts_plans s)" using s(2) by simp
  from top_up_refines_life [OF s(1) p] p s(3) show ?thesis by (intro exI [of _ s] exI [of _ p]) simp
qed

text \<open>C12: a leg in flight blocks everything else. While a plan is dispatching (the call may have been interrupted, its result is unknown), no
  operation of the journal can claim a leg, create, approve or cancel a plan or lift the pause; the only way on is a finalization of that
  very leg.\<close>

theorem in_flight_blocks:
  assumes "journal_run sha256 allowed s" "p \<in> set (ts_plans s)" "pl_state p = Dispatching" "run_command sha256 c now s = Inr s'"
  shows "ts_plans s' = ts_plans s \<and> (ts_paused s \<longrightarrow> ts_paused s')
    \<or> (\<exists>e. ts_events s' = ts_events s @ [e] \<and> ev_plan_key e = Some (pl_idempotency_key p) \<and> ev_kind e = ''leg_finalized'')"
proof -
  have ok: "chain_ok s" "limits_ok s" using journal_limits_ok [OF assms(1)] by simp_all
  have open_p: "\<not> resolved p" using assms(3) by (simp add: resolved_def)
  have "effect sha256 (\<lambda>_. True) s s'" using command_effect [OF assms(4)] by simp
  then show ?thesis
  proof cases
    case (switched paused body t r)
    then show ?thesis using assms(2,3) by (auto simp: list_ex_iff)
  next
    case (created plan bounds q t body)
    then show ?thesis using assms(2) open_p by (auto simp: list_all_iff)
  next
    case (advanced key q kind f body t)
    have "q \<in> set (ts_plans s)" "pl_idempotency_key q = key" using plan_of_key [OF advanced(2)] by simp_all
    moreover have "\<not> resolved q" using moved_open(1) [OF advanced(3)] .
    ultimately have "q = p" using ok(2) assms(2) open_p single_open unfolding limits_ok_def by metis
    then have "kind = ''leg_finalized''" using advanced(3) assms(3) by (auto simp: moved_def life_def life_of_def split: if_splits)
    then show ?thesis using advanced(1) \<open>q = p\<close> \<open>pl_idempotency_key q = key\<close> by auto
  qed auto
qed

theorem in_flight_blocks_witness:
  "\<exists>s. (\<exists>p\<in>set (ts_plans s). pl_state p = Dispatching) \<and> (\<forall>key now s'. run_command fixed_hash (Claim key) now s = Inr s' \<longrightarrow> ts_plans s' \<noteq> ts_plans s \<longrightarrow>
     (\<exists>e. ts_events s' = ts_events s @ [e] \<and> ev_kind e = ''leg_finalized''))"
proof -
  obtain s p where s: "journal_run fixed_hash (\<lambda>_. True) s" "ts_plans s = [p]" "pl_state p = Dispatching" 
    by (rule sample_dispatching [where H = fixed_hash and allowed = "\<lambda>_. True"]) simp_all
  have p: "p \<in> set (ts_plans s)" using s(2) by simp
  show ?thesis using in_flight_blocks [OF s(1) p s(3)] p s(3) by blast
qed

text \<open>C14: the journal is tamper evident. Two event tables that both pass \<^verbatim>\<open>verify\<close> and end in the same hash are equal row by row, as
  long as SHA-256 has no collision among the messages they hash and none of them hashes to the genesis value: changing, dropping or
  inserting any event of an accepted journal changes its last hash.\<close>

theorem journal_tamper_evident:
  assumes "verify sha256 s = Inr m" "verify sha256 s' = Inr n" "last_hash (ts_events s) = last_hash (ts_events s')"
    and "inj_on sha256 (event_message ` (set (ts_events s) \<union> set (ts_events s')))"
    and "\<forall>e\<in>set (ts_events s) \<union> set (ts_events s'). hex_of (sha256 (event_message e)) \<noteq> GENESIS"
  shows "ts_events s = ts_events s'"
  using assms by (intro chains_agree [where H = sha256]) (simp_all add: verify_def)

theorem journal_tamper_evident_witness:
  "\<exists>s :: top_up_store. ts_events s \<noteq> [] \<and> (\<forall>s' n. verify id s' = Inr n \<and> last_hash (ts_events s') = last_hash (ts_events s)
     \<and> (\<forall>e\<in>set (ts_events s'). hex_of (event_message e) \<noteq> GENESIS) \<longrightarrow> ts_events s = ts_events s')"
proof -
  let ?e = "event_of id None ''allocation'' JNull 0 []"
  let ?s = "initial_store\<lparr>ts_events := [?e]\<rparr>"
  have v: "verify id ?s = Inr 1" by (simp add: verify_def event_of_def last_hash_def)
  have "hex_of (event_message ?e) ! 0 = CHR ''5''" by (simp add: event_message_def canonical_def hex_digit_def)
  then have "hex_of (event_message ?e) \<noteq> GENESIS" by (auto simp: GENESIS_def)
  then have "ts_events ?s = ts_events s'" if "verify id s' = Inr n" "last_hash (ts_events s') = last_hash (ts_events ?s)"
      "\<forall>e\<in>set (ts_events s'). hex_of (event_message e) \<noteq> GENESIS" for s' n
    using that by (intro journal_tamper_evident [OF v that(1)]) auto
  then show ?thesis by (intro exI [of _ ?s]) auto
qed

end
