(* ===== verification/Topup_Execution.thy ===== *)
theory Topup_Execution
  imports Topup_Safety
begin

section \<open>Dispatching a leg\<close>

text \<open>
  Models \<^verbatim>\<open>ditto/treasury/execution.py\<close>: the adapter between the top-up journal and the chain. The Bittensor SDK is a parameter: the
  balances it reports and its answer to one submitted call, which may be an exception. Loading the signing key is not modelled; the
  wallet is its address. \<^verbatim>\<open>execute_one_leg\<close> raises on its first line, as the source does; what follows that line there is the body
  \<open>dispatch_claimed\<close>.
\<close>

definition MIN_FEE_RESERVE_RAO :: int where "MIN_FEE_RESERVE_RAO = 1000000"

record finalized_leg =
  fl_extrinsic_hash :: string
  fl_block_hash :: string
  fl_next_amount_rao :: "int option"

subsection \<open>The SDK\<close>

datatype chain_call =
    Unstake int string int pyfloat
  | Add_Stake int string int pyfloat
  | Transfer string int
  | Transfer_Stake string string int int int

record extrinsic_receipt =
  xr_finalized :: bool
  xr_extrinsic_hash :: "string option"
  xr_block_hash :: "string option"

text \<open>\<open>cr_data\<close> holds the balances of a response by name; \<open>None\<close> is a response without a dictionary. A balance whose \<^verbatim>\<open>rao\<close> is not an
  int is left out of it, which \<^verbatim>\<open>_balance_delta\<close> treats alike.\<close>

record chain_response =
  cr_success :: bool
  cr_receipt :: "extrinsic_receipt option"
  cr_data :: "(string, int) dict option"

record signer_chain =
  sc_balance :: "string \<Rightarrow> int"
  sc_stake :: "string \<Rightarrow> string \<Rightarrow> int \<Rightarrow> int"
  sc_submit :: "chain_call \<Rightarrow> store_error + chain_response"

subsection \<open>Instructions\<close>

record gm_instructions =
  gi_asset :: string
  gi_source :: string
  gi_destination :: string
  gi_hotkey :: string
  gi_account_ref :: string

definition instructions_json :: "gm_instructions \<Rightarrow> json" where
  "instructions_json b = JObject [(''asset'', JString (gi_asset b)), (''source'', JString (gi_source b)), (''destination'', JString (gi_destination b)),
     (''hotkey'', JString (gi_hotkey b)), (''account_ref'', JString (gi_account_ref b))]"

definition expected_instructions :: "payment_plan \<Rightarrow> gm_instructions" where
  "expected_instructions plan = (let intent = pp_intent plan in
     \<lparr>gi_asset = ti_route intent, gi_source = ti_linked_wallet intent, gi_destination = pp_destination_coldkey plan,
      gi_hotkey = (if ti_route intent = ''gm_alpha'' then pp_gm_hotkey plan else []), gi_account_ref = pp_gm_account_ref plan\<rparr>)"

text \<open>The parsed body: \<open>None\<close> is JSON that is not an object with exactly the five fields.\<close>

definition validate_instructions :: "hash_fun \<Rightarrow> gm_instructions option \<Rightarrow> payment_plan \<Rightarrow> store_error + unit" where
  "validate_instructions sha256 body plan = (case body of
     None \<Rightarrow> refuse ''exact GM payment instruction fields are required''
   | Some b \<Rightarrow>
     and_then (ensure (b = expected_instructions plan) ''GM instructions differ from reviewed route or address'') (\<lambda>_.
     ensure (hexdigest sha256 (canonical (instructions_json b)) = ti_payment_instructions_sha256 (pp_intent plan))
       ''GM payment instructions digest differs from approved plan''))"

subsection \<open>One leg\<close>

definition fail_run :: "string \<Rightarrow> store_error + 'a" where
  "fail_run message = Inl (RuntimeError message)"

definition receipt_of :: "chain_response \<Rightarrow> int option \<Rightarrow> store_error + finalized_leg" where
  "receipt_of response next_amount = (case (cr_success response, cr_receipt response) of
     (True, Some receipt) \<Rightarrow>
       if \<not> xr_finalized receipt then fail_run ''chain submission is not finalized''
       else (case xr_extrinsic_hash receipt of
          None \<Rightarrow> fail_run ''finalized receipt lacks extrinsic hash''
        | Some x \<Rightarrow> if \<not> is_hash x then fail_run ''finalized receipt lacks extrinsic hash''
          else (case xr_block_hash receipt of
             None \<Rightarrow> fail_run ''finalized receipt lacks block hash''
           | Some b \<Rightarrow> if \<not> is_hash b then fail_run ''finalized receipt lacks block hash''
             else Inr \<lparr>fl_extrinsic_hash = x, fl_block_hash = b, fl_next_amount_rao = next_amount\<rparr>))
   | _ \<Rightarrow> fail_run ''chain submission failed or has no receipt'')"

definition balance_delta :: "(string, int) dict option \<Rightarrow> string \<Rightarrow> string \<Rightarrow> bool \<Rightarrow> store_error + int" where
  "balance_delta data before after increasing = (case data of
     None \<Rightarrow> fail_run ''SDK did not report finalized balance observations''
   | Some d \<Rightarrow> (case (dict_get d before, dict_get d after) of
        (Some a, Some b) \<Rightarrow>
          (let delta = (if increasing then b - a else a - b) in
           if delta \<le> 0 then fail_run ''finalized balance did not move in expected direction'' else Inr delta)
      | _ \<Rightarrow> fail_run ''SDK did not report integer finalized balances''))"

definition dispatch_chain_leg ::
  "signer_chain \<Rightarrow> string \<Rightarrow> int \<Rightarrow> payment_plan \<Rightarrow> string \<Rightarrow> store_error + finalized_leg" where
  "dispatch_chain_leg chain leg amount plan source = (let intent = pp_intent plan; tolerance = itruediv (pp_max_slippage_bps plan) 10000 in
     and_then (ensure (source = ti_linked_wallet intent) ''signer address differs from the GM-linked sender'') (\<lambda>_.
     and_then (ensure (amount > 0) ''positive leg amount is required'') (\<lambda>_.
     let free = sc_balance chain source in
     and_then (ensure (free \<ge> MIN_FEE_RESERVE_RAO) ''treasury signer lacks its reserved TAO fee balance'') (\<lambda>_.
     if leg = ''unstake'' then
       and_then (ensure (sc_stake chain source (pp_treasury_hotkey plan) 118 \<ge> amount) ''finalized SN118 stake is insufficient'') (\<lambda>_.
       and_then (sc_submit chain (Unstake 118 (pp_treasury_hotkey plan) amount tolerance)) (\<lambda>response.
       and_then (balance_delta (cr_data response) ''balance_before'' ''balance_after'' True) (\<lambda>proceeds.
       if proceeds < pp_min_tao_proceeds_rao plan then fail_run ''unstake proceeds fell below approved floor''
       else receipt_of response (Some (min proceeds (ti_tao_value_rao intent))))))
     else if leg = ''stake_gm'' then
       and_then (ensure (free - amount \<ge> MIN_FEE_RESERVE_RAO) ''TAO balance lacks a fee reserve'') (\<lambda>_.
       and_then (sc_submit chain (Add_Stake 28 (pp_gm_hotkey plan) amount tolerance)) (\<lambda>response.
       and_then (balance_delta (cr_data response) ''stake_before'' ''stake_after'' True) (\<lambda>received.
       if received < pp_min_gm_alpha_rao plan then fail_run ''GM alpha output fell below approved floor''
       else receipt_of response (Some received))))
     else if leg = ''deposit_tao'' then
       and_then (ensure (ti_route intent = ''tao'') ''TAO deposit mismatches the route'') (\<lambda>_.
       and_then (ensure (free - amount \<ge> MIN_FEE_RESERVE_RAO) ''TAO deposit would consume the fee reserve'') (\<lambda>_.
       and_then (sc_submit chain (Transfer (pp_destination_coldkey plan) amount)) (\<lambda>response. receipt_of response None)))
     else if leg = ''deposit_gm'' then
       and_then (ensure (ti_route intent = ''gm_alpha'') ''GM alpha deposit mismatches the route'') (\<lambda>_.
       and_then (sc_submit chain (Transfer_Stake (pp_destination_coldkey plan) (pp_gm_hotkey plan) 28 28 amount)) (\<lambda>response. receipt_of response None))
     else refuse ''unsupported treasury leg''))))"

definition execute_one_leg :: "top_up_store \<Rightarrow> top_up_store \<times> (store_error + finalized_leg)" where
  "execute_one_leg s = (s, fail_run
     ''live treasury dispatch is blocked pending verified allocation, reviewer identity, and signer-side quote authorization'')"

text \<open>The body behind the block: claim, dispatch and finalize; any failure after the claim pauses the journal and is raised again. \<open>t\<close> is
  the signer's clock.\<close>

definition finish_claimed ::
  "hash_fun \<Rightarrow> signer_chain \<Rightarrow> string \<Rightarrow> py_datetime \<Rightarrow> string \<Rightarrow> string \<times> int \<times> payment_plan \<Rightarrow> top_up_store \<Rightarrow> top_up_store \<times> (store_error + finalized_leg)" where
  "finish_claimed sha256 chain wallet t key claimed s = (case claimed of (leg, amount, plan) \<Rightarrow>
     (case and_then (dispatch_chain_leg chain leg amount plan wallet) (\<lambda>result.
        and_then (finalize_leg sha256 key leg (fl_extrinsic_hash result) (fl_block_hash result) (fl_next_amount_rao result) t s) (\<lambda>s'. Inr (s', result))) of
       Inr (s', result) \<Rightarrow> (s', Inr result)
     | Inl err \<Rightarrow> (case set_pause sha256 True ''signer''
            ''ambiguous or failed chain dispatch; inspect finalized chain before any recovery'' None t s of
          Inr s' \<Rightarrow> (s', Inl err)
        | Inl err' \<Rightarrow> (s, Inl err'))))"

definition dispatch_claimed ::
  "hash_fun \<Rightarrow> signer_chain \<Rightarrow> string \<Rightarrow> gm_instructions option \<Rightarrow> py_datetime \<Rightarrow> py_datetime \<Rightarrow> string \<Rightarrow> top_up_store \<Rightarrow> top_up_store \<times> (store_error + finalized_leg)" where
  "dispatch_claimed sha256 chain wallet instructions now t key s =
     (case and_then (stored_plan sha256 key s) (\<lambda>plan. and_then (validate_instructions sha256 instructions plan) (\<lambda>_.
        and_then (ensure (wallet = ti_linked_wallet (pp_intent plan)) ''signer address differs from the reviewed GM-linked wallet'') (\<lambda>_.
        claim_leg sha256 key now s))) of
      Inl err \<Rightarrow> (s, Inl err)
    | Inr (s', claimed) \<Rightarrow> finish_claimed sha256 chain wallet t key claimed s')"

subsection \<open>The stored row and its plan\<close>

definition row_faithful :: "plan_row \<Rightarrow> bool" where
  "row_faithful p \<longleftrightarrow> pl_route p = ti_route (pp_intent (pl_plan p)) \<and> pl_reserved_tao_rao p = ti_tao_value_rao (pp_intent (pl_plan p))"

lemma journal_rows_faithful: "journal_run H allowed s \<Longrightarrow> chain_ok s \<and> (\<forall>p\<in>set (ts_plans s). row_faithful p)"
proof (induction rule: journal_invariant)
  case start
  then show ?case by (simp add: chain_ok_def initial_store_def)
next
  case (effect s s')
  have "\<forall>p\<in>set (ts_plans s'). row_faithful p" using effect(2)
  proof cases
    case (advanced key p kind f body t)
    have "row_faithful (f p)" if "p \<in> set (ts_plans s)" using that effect(1) advanced(3) by (auto simp: row_faithful_def moved_def)
    then have "row_faithful (if pl_idempotency_key q = key then f q else q)" if "q \<in> set (ts_plans s)" for q
      using that effect(1) advanced_rows [where s = s and f = f, OF _ advanced(2) that] by metis
    then have "list_all row_faithful (ts_plans (set_plan key f s))" unfolding set_plan_plans list_all_iff set_map by blast
    then show ?thesis unfolding advanced(1) by (simp add: list_all_iff)
  next
    case (created plan bounds p t body)
    then show ?thesis using effect(1) by (auto simp: row_faithful_def new_plan_row_def Let_def)
  qed (use effect(1) in auto)
  then show ?case using effect effect_chain_ok by blast
qed

lemma plan_of_set:
  assumes "plan_of s key = Some p" "pl_idempotency_key (f p) = key"
  shows "plan_of (set_plan key f s) key = Some (f p)"
proof -
  have "find (\<lambda>q. pl_idempotency_key q = key) (map (\<lambda>q. if pl_idempotency_key q = key then f q else q) ps) = Some (f p)"
    if "find (\<lambda>q. pl_idempotency_key q = key) ps = Some p" for ps
    using that assms(2) by (induction ps) (auto split: if_splits)
  then show ?thesis using assms(1) by (simp add: plan_of_def set_plan_def)
qed

lemma plan_of_events [simp]: "plan_of (s\<lparr>ts_events := es\<rparr>) key = plan_of s key"
  by (simp add: plan_of_def)

lemma claimed_row:
  assumes "claim_leg H key now s = Inr (s1, leg, amount, plan)"
  obtains p where "plan_of s key = Some p" "plan_of s1 key = Some (p\<lparr>pl_state := Dispatching\<rparr>)" "pl_leg_index p < legs_of p"
    "leg = LEGS (pl_route p) ! pl_leg_index p" "plan = pl_plan p" "0 < amount"
proof -
  from assms obtain p where p: "plan_of s key = Some p" "pl_leg_index p < length (LEGS (pl_route p))" "leg = LEGS (pl_route p) ! pl_leg_index p"
      "plan = pl_plan p" "0 < amount"
      "append_event H (Some key) ''dispatch_started'' (JObject [(''leg'', JString leg), (''amount_rao'', JInt amount)]) now
           (set_plan key (\<lambda>p. p\<lparr>pl_state := Dispatching\<rparr>) s) = Inr s1"
    by (rule claim_leg_Inr) blast
  moreover have "plan_of s1 key = Some (p\<lparr>pl_state := Dispatching\<rparr>)"
    using p(6) plan_of_set [OF p(1), of "\<lambda>p. p\<lparr>pl_state := Dispatching\<rparr>"] plan_of_key [OF p(1)] by (auto simp: append_event_Inr)
  ultimately show ?thesis using that by (simp add: legs_of_def)
qed

subsection \<open>A finalized dispatch is recorded\<close>

lemma receipt_of_Inr: "receipt_of response n = Inr r \<Longrightarrow> is_hash (fl_extrinsic_hash r) \<and> is_hash (fl_block_hash r) \<and> fl_next_amount_rao r = n"
  by (auto simp: receipt_of_def fail_run_def split: if_splits option.splits bool.splits)

lemma balance_delta_Inr: "balance_delta data before after inc = Inr n \<Longrightarrow> 0 < n"
  by (auto simp: balance_delta_def fail_run_def Let_def split: if_splits option.splits)

lemma dispatch_result:
  assumes "dispatch_chain_leg chain leg amount plan source = Inr r"
  shows "is_hash (fl_extrinsic_hash r)" "is_hash (fl_block_hash r)"
    "leg = ''unstake'' \<Longrightarrow> \<exists>n. fl_next_amount_rao r = Some (min n (ti_tao_value_rao (pp_intent plan))) \<and> 0 < n"
    "leg = ''stake_gm'' \<Longrightarrow> \<exists>n. fl_next_amount_rao r = Some n \<and> 0 < n"
    "leg \<in> {''deposit_tao'', ''deposit_gm''} \<Longrightarrow> fl_next_amount_rao r = None"
proof -
  have "\<exists>response. receipt_of response (fl_next_amount_rao r) = Inr r"
    using assms receipt_of_Inr
    by (force simp: dispatch_chain_leg_def Let_def and_then_Inr fail_run_def split: if_splits)
  then show "is_hash (fl_extrinsic_hash r)" "is_hash (fl_block_hash r)" using receipt_of_Inr by blast+
  show "leg = ''unstake'' \<Longrightarrow> \<exists>n. fl_next_amount_rao r = Some (min n (ti_tao_value_rao (pp_intent plan))) \<and> 0 < n"
    using assms by (auto simp: dispatch_chain_leg_def Let_def and_then_Inr fail_run_def split: if_splits dest!: receipt_of_Inr balance_delta_Inr)
  show "leg = ''stake_gm'' \<Longrightarrow> \<exists>n. fl_next_amount_rao r = Some n \<and> 0 < n"
    using assms by (auto simp: dispatch_chain_leg_def Let_def and_then_Inr fail_run_def split: if_splits dest!: receipt_of_Inr balance_delta_Inr)
  show "leg \<in> {''deposit_tao'', ''deposit_gm''} \<Longrightarrow> fl_next_amount_rao r = None"
    using assms by (auto simp: dispatch_chain_leg_def Let_def and_then_Inr dest!: receipt_of_Inr)
qed

lemma legs_known: "pl_route p \<in> {''tao'', ''gm_alpha''} \<Longrightarrow> i < legs_of p \<Longrightarrow>
    LEGS (pl_route p) ! i \<in> {''unstake'', ''stake_gm''} \<and> i + 1 < legs_of p
    \<or> LEGS (pl_route p) ! i \<in> {''deposit_tao'', ''deposit_gm''} \<and> i + 1 = legs_of p"
  by (auto simp: legs_of_def LEGS_def less_Suc_eq numeral_eq_Suc split: if_splits)

lemma finalize_accepts:
  assumes "journal_run H allowed s" "plan_of s key = Some p" "pl_state p = Dispatching" "pl_leg_index p < legs_of p"
    and "dispatch_chain_leg chain (LEGS (pl_route p) ! pl_leg_index p) amount (pl_plan p) source = Inr r"
    and "\<forall>n. fl_next_amount_rao r = Some n \<longrightarrow> n < 2 ^ 63" "dt_aware t"
  shows "\<exists>s'. finalize_leg H key (LEGS (pl_route p) ! pl_leg_index p) (fl_extrinsic_hash r) (fl_block_hash r) (fl_next_amount_rao r) t s = Inr s'"
proof -
  let ?leg = "LEGS (pl_route p) ! pl_leg_index p"
  have p: "p \<in> set (ts_plans s)" using plan_of_key [OF assms(2)] by simp
  have lim: "0 < pl_reserved_tao_rao p" "pl_route p \<in> {''tao'', ''gm_alpha''}" using journal_limits_ok [OF assms(1)] p by (auto simp: limits_ok_def)
  have res: "ti_tao_value_rao (pp_intent (pl_plan p)) = pl_reserved_tao_rao p" using journal_rows_faithful [OF assms(1)] p by (simp add: row_faithful_def)
  note d = dispatch_result [OF assms(5)]
  consider (mid) n where "fl_next_amount_rao r = Some n" "0 < n" "pl_leg_index p + 1 < legs_of p" "?leg = ''unstake'' \<longrightarrow> n \<le> pl_reserved_tao_rao p"
    | (last) "fl_next_amount_rao r = None" "pl_leg_index p + 1 = legs_of p"
    using legs_known [OF lim(2) assms(4)] d(3-5) res lim(1) by fastforce
  then show ?thesis
  proof cases
    case mid
    then show ?thesis using assms(2-4,6,7) d(1,2) by (simp add: finalize_leg_def ensure_def legs_of_def Let_def sql_int_def append_event_ok)
  next
    case last
    then show ?thesis using assms(2-4,7) d(1,2) by (simp add: finalize_leg_def ensure_def legs_of_def Let_def append_event_ok)
  qed
qed

lemma signer_pauses: "dt_aware t \<Longrightarrow> \<exists>s'. set_pause H True ''signer'' ''ambiguous or failed chain dispatch; inspect finalized chain before any recovery'' None t s = Inr s'
    \<and> ts_paused s' \<and> ts_plans s' = ts_plans s"
proof -
  have "12 \<le> length (strip ''ambiguous or failed chain dispatch; inspect finalized chain before any recovery'')" by code_simp
  then show "dt_aware t \<Longrightarrow> ?thesis" by (simp add: set_pause_def ensure_def append_event_ok)
qed

lemma finalize_row:
  assumes "finalize_leg H key leg x b n t s = Inr s'" "plan_of s key = Some q"
  shows "\<exists>q'. plan_of s' key = Some q' \<and> pl_leg_index q' = pl_leg_index q + 1"
proof -
  let ?final = "pl_leg_index q + 1 = length (LEGS (pl_route q))"
  let ?f = "\<lambda>p. p\<lparr>pl_state := (if ?final then AwaitingGm else AwaitingReview), pl_leg_index := pl_leg_index p + 1, pl_amount_for_next_leg_rao := n\<rparr>"
  obtain body where "append_event H (Some key) ''leg_finalized'' body t (set_plan key ?f s) = Inr s'"
    using assms(1) unfolding finalize_leg_def assms(2) option.case Let_def and_then_Inr ensure_Inr by blast
  then show ?thesis using plan_of_set [OF assms(2), of ?f] plan_of_key [OF assms(2)] by (auto simp: append_event_Inr)
qed

text \<open>After a claim the leg is recorded, or the journal is paused with the leg in flight.\<close>

lemma finish_claimed_outcome:
  assumes "journal_run H (\<lambda>_. True) s" "plan_of s key = Some p" "pl_state p = Dispatching" "pl_leg_index p < legs_of p" "dt_aware t"
    and "finish_claimed H chain wallet t key (LEGS (pl_route p) ! pl_leg_index p, amount, pl_plan p) s = (s', outcome)"
  shows "journal_run H (\<lambda>_. True) s' \<and> (\<exists>q. plan_of s' key = Some q
      \<and> (if \<exists>r. outcome = Inr r then pl_leg_index q = pl_leg_index p + 1 else pl_state q = Dispatching \<and> ts_paused s'))
    \<and> (\<forall>r. dispatch_chain_leg chain (LEGS (pl_route p) ! pl_leg_index p) amount (pl_plan p) wallet = Inr r
        \<and> (\<forall>n. fl_next_amount_rao r = Some n \<longrightarrow> n < 2 ^ 63) \<longrightarrow> outcome = Inr r)"
proof -
  let ?leg = "LEGS (pl_route p) ! pl_leg_index p"
  let ?attempt = "and_then (dispatch_chain_leg chain ?leg amount (pl_plan p) wallet) (\<lambda>result.
        and_then (finalize_leg H key ?leg (fl_extrinsic_hash result) (fl_block_hash result) (fl_next_amount_rao result) t s) (\<lambda>s'. Inr (s', result)))"
  have accepted: "\<exists>s2. ?attempt = Inr (s2, r)" if "dispatch_chain_leg chain ?leg amount (pl_plan p) wallet = Inr r" "\<forall>n. fl_next_amount_rao r = Some n \<longrightarrow> n < 2 ^ 63" for r
    using finalize_accepts [OF assms(1-4) that(1,2) assms(5)] that(1) by auto
  show ?thesis
  proof (cases ?attempt)
    case (Inr fin)
    then obtain s2 r where fin: "fin = (s2, r)" "dispatch_chain_leg chain ?leg amount (pl_plan p) wallet = Inr r"
        "finalize_leg H key ?leg (fl_extrinsic_hash r) (fl_block_hash r) (fl_next_amount_rao r) t s = Inr s2"
      by (auto simp: and_then_Inr)
    have "s' = s2" "outcome = Inr r" using assms(6) Inr fin(1) by (simp_all add: finish_claimed_def)
    moreover have "journal_run H (\<lambda>_. True) s2"
      using journal_run.step [OF assms(1), of "Finalize key ?leg (fl_extrinsic_hash r) (fl_block_hash r) (fl_next_amount_rao r)" t s2] fin(3) by simp
    ultimately show ?thesis using finalize_row [OF fin(3) assms(2)] fin(2) by auto
  next
    case (Inl err)
    obtain s2 where s2: "set_pause H True ''signer'' ''ambiguous or failed chain dispatch; inspect finalized chain before any recovery'' None t s = Inr s2"
        "ts_paused s2" "ts_plans s2 = ts_plans s"
      using signer_pauses [OF assms(5), of H s] by metis
    have "s' = s2" "outcome = Inl err" using assms(6) Inl s2(1) by (simp_all add: finish_claimed_def)
    moreover have "journal_run H (\<lambda>_. True) s2"
      using journal_run.step [OF assms(1), of "Pause True ''signer'' ''ambiguous or failed chain dispatch; inspect finalized chain before any recovery'' None" t s2] s2(1) by simp
    moreover have "plan_of s2 key = Some p" using assms(2) s2(3) by (simp add: plan_of_def)
    moreover have "\<not> (dispatch_chain_leg chain ?leg amount (pl_plan p) wallet = Inr r \<and> (\<forall>n. fl_next_amount_rao r = Some n \<longrightarrow> n < 2 ^ 63))" for r
      using accepted [of r] Inl by (metis Inr_not_Inl)
    ultimately show ?thesis using s2(2) assms(3) by (intro conjI) (simp, simp, blast)
  qed
qed


definition silent_chain :: signer_chain where
  "silent_chain = \<lparr>sc_balance = (\<lambda>_. 2000000), sc_stake = (\<lambda>_ _ _. 500), sc_submit = (\<lambda>_. fail_run ''connection lost'')\<rparr>"


end
