(* ===== verification/Collector.thy ===== *)
theory Collector
  imports Service_Weights Topup
begin

section \<open>The collector journal\<close>

text \<open>
  Models \<^verbatim>\<open>ditto/treasury/collector.py\<close>, \<^verbatim>\<open>manual_batch.py\<close> and \<^verbatim>\<open>manual_expiry.py\<close>, with the policy transition of
  \<^verbatim>\<open>collector_migration.py\<close> and the manual limits of the screening protocol: the signed policy, the tables of the journal, and what
  the recorded history says about the canary, its replacement and the manual intents. The operations that write are in
  \<open>Collector_Tick\<close>.

  The tables are the state. A row's id is its position from one: ids are \<^verbatim>\<open>INTEGER PRIMARY KEY\<close> and no row is ever deleted. A JSON
  column holds the value its text encodes (the text determines the value, see \<open>Json\<close>), so the journal is one that this code wrote:
  checks that a payload has the expected keys and types hold by typing, and what they guard (bounds, order, identity) is written out.
  Every Python function that runs in a transaction is a function to an error, after which nothing is changed, or to the new tables
  and the result. The chain adapter (\<^verbatim>\<open>CollectorChain\<close>), SHA-256 and the signature check are arguments.
\<close>

subsection \<open>Errors\<close>

datatype collector_error = Stored store_error | ManualIntentChanged string | ManualIntentRefused string | Adapter string

type_synonym 'a collected = "collector_error + 'a"

definition need :: "bool \<Rightarrow> string \<Rightarrow> unit collected" where
  "need ok message = (if ok then Inr () else Inl (Stored (Raised (ValueError message))))"

definition intend :: "bool \<Rightarrow> string \<Rightarrow> unit collected" where
  "intend ok message = (if ok then Inr () else Inl (ManualIntentRefused message))"

fun of_py :: "py_error + 'a \<Rightarrow> 'a collected" where
  "of_py (Inl e) = Inl (Stored (Raised e))"
| "of_py (Inr a) = Inr a"

fun of_store :: "store_error + 'a \<Rightarrow> 'a collected" where
  "of_store (Inl e) = Inl (Stored e)"
| "of_store (Inr a) = Inr a"

text \<open>A subscript or attribute of \<^verbatim>\<open>None\<close>.\<close>

definition present :: "'a option \<Rightarrow> 'a collected" where
  "present a = (case a of None \<Rightarrow> Inl (Stored (Raised TypeError)) | Some x \<Rightarrow> Inr x)"

text \<open>Binding a Python integer to an SQL parameter.\<close>

definition bind_int :: "int \<Rightarrow> int collected" where
  "bind_int n = of_store (sql_int n)"

lemma of_py_Inr [simp]: "of_py r = Inr x \<longleftrightarrow> r = Inr x"
  by (cases r) simp_all

lemma of_store_Inr [simp]: "of_store r = Inr x \<longleftrightarrow> r = Inr x"
  by (cases r) simp_all

lemma collected_Inr [simp]:
  "need ok message = Inr u \<longleftrightarrow> ok" "intend ok message = Inr u \<longleftrightarrow> ok" "present a = Inr z \<longleftrightarrow> a = Some z"
  by (simp_all add: need_def intend_def present_def split: option.split)

subsection \<open>The policy\<close>

record collector_policy =
  kp_genesis_hash :: string
  kp_runtime_code_hash :: string
  kp_collector_coldkey :: string
  kp_collector_hotkey :: string
  kp_registration_delegate :: string
  kp_transfer_delegate :: string
  kp_revision :: int
  kp_start_block :: int
  kp_destinations :: "service_destination list"
  kp_max_registration_burn_rao :: int
  kp_registration_budget_rao :: int
  kp_max_fee_rao :: int
  kp_fee_reserve_rao :: int
  kp_recovery_cooldown_blocks :: int
  kp_distribution_interval_blocks :: int
  kp_max_distribution_rao :: int
  kp_gcp_project :: string
  kp_registration_service_account :: string
  kp_transfer_service_account :: string
  kp_registration_secret_version :: int
  kp_transfer_secret_version :: int
  kp_enabled :: bool
  kp_netuid :: int

definition ascii_space :: "char \<Rightarrow> bool" where
  "ascii_space c \<longleftrightarrow> (of_char c :: nat) \<in> {9, 10, 11, 12, 13, 32}"

text \<open>\<^verbatim>\<open>bytes.fromhex\<close>: pairs of digits in either case, with ASCII white space between pairs.\<close>

fun fromhex :: "string \<Rightarrow> bytes option" where
  "fromhex [] = Some []"
| "fromhex [c] = (if ascii_space c then Some [] else None)"
| "fromhex (c # d # s) = (if ascii_space c then fromhex (d # s)
     else if is_hex (lower_char c) \<and> is_hex (lower_char d)
     then map_option ((#) (char_of (16 * hex_val (lower_char c) + hex_val (lower_char d)))) (fromhex s) else None)"

definition bounded :: "int \<Rightarrow> bool" where
  "bounded n \<longleftrightarrow> 0 < n \<and> n < 2 ^ 63"

definition signer_keys :: "collector_policy \<Rightarrow> string list" where
  "signer_keys p = [kp_collector_coldkey p, kp_collector_hotkey p, kp_registration_delegate p, kp_transfer_delegate p]"

definition hash_field :: "string \<Rightarrow> string \<Rightarrow> unit collected" where
  "hash_field name value =
     and_then (need (length value = 66 \<and> take 2 value = ''0x'') (''invalid '' @ name)) (\<lambda>_.
     need (fromhex (drop 2 value) \<noteq> None) ''non-hexadecimal number found in fromhex() arg'')"

definition signer_account :: "string \<Rightarrow> bool" where
  "signer_account s \<longleftrightarrow> suffix ''.iam.gserviceaccount.com'' s"

definition check_collector_policy :: "collector_policy \<Rightarrow> unit collected" where
  "check_collector_policy p =
     and_then (hash_field ''genesis_hash'' (kp_genesis_hash p)) (\<lambda>_.
     and_then (hash_field ''runtime_code_hash'' (kp_runtime_code_hash p)) (\<lambda>_.
     and_then (need (distinct (signer_keys p) \<and> [] \<notin> set (signer_keys p))
       ''four distinct collector and delegate identities required'') (\<lambda>_.
     and_then (need (kp_netuid p = 118) ''only SN118 and explicit boolean activation supported'') (\<lambda>_.
     and_then (need (list_all bounded [kp_revision p, kp_start_block p, kp_max_registration_burn_rao p, kp_registration_budget_rao p,
         kp_max_fee_rao p, kp_fee_reserve_rao p, kp_recovery_cooldown_blocks p, kp_distribution_interval_blocks p,
         kp_max_distribution_rao p, kp_registration_secret_version p, kp_transfer_secret_version p])
       ''positive bounded integer required'') (\<lambda>_.
     and_then (need (kp_gcp_project p \<noteq> [] \<and> signer_account (kp_registration_service_account p)
         \<and> signer_account (kp_transfer_service_account p)
         \<and> kp_registration_service_account p \<noteq> kp_transfer_service_account p)
       ''distinct dedicated GCP signer principals required'') (\<lambda>_.
     and_then (need (kp_max_fee_rao p \<le> kp_fee_reserve_rao p) ''fee reserve must cover maximum fee'') (\<lambda>_.
     and_then (need (0 < sum_list (map sd_allocation_bps (kp_destinations p)) \<and> sum_list (map sd_allocation_bps (kp_destinations p)) \<le> 10000)
       ''combined service pool must be between 1 and 10000 bps'') (\<lambda>_.
     and_then (of_py (plan_service_distribution 1 1 (kp_collector_coldkey p) (kp_destinations p))) (\<lambda>_.
     need (\<not> list_ex (\<lambda>d. sd_holding_coldkey d \<in> set (signer_keys p)) (kp_destinations p))
       ''holding wallets must be distinct from signer roles'')))))))))"

definition destination_json :: "service_destination \<Rightarrow> json" where
  "destination_json d = JObject [(''bucket_id'', JString (sd_bucket_id d)), (''allocation_bps'', JInt (sd_allocation_bps d)),
     (''holding_coldkey'', JString (sd_holding_coldkey d))]"

definition policy_json :: "collector_policy \<Rightarrow> json" where
  "policy_json p = JObject [
     (''genesis_hash'', JString (kp_genesis_hash p)), (''runtime_code_hash'', JString (kp_runtime_code_hash p)),
     (''collector_coldkey'', JString (kp_collector_coldkey p)), (''collector_hotkey'', JString (kp_collector_hotkey p)),
     (''registration_delegate'', JString (kp_registration_delegate p)), (''transfer_delegate'', JString (kp_transfer_delegate p)),
     (''revision'', JInt (kp_revision p)), (''start_block'', JInt (kp_start_block p)),
     (''destinations'', JArray (map destination_json (kp_destinations p))),
     (''max_registration_burn_rao'', JInt (kp_max_registration_burn_rao p)),
     (''registration_budget_rao'', JInt (kp_registration_budget_rao p)), (''max_fee_rao'', JInt (kp_max_fee_rao p)),
     (''fee_reserve_rao'', JInt (kp_fee_reserve_rao p)), (''recovery_cooldown_blocks'', JInt (kp_recovery_cooldown_blocks p)),
     (''distribution_interval_blocks'', JInt (kp_distribution_interval_blocks p)),
     (''max_distribution_rao'', JInt (kp_max_distribution_rao p)), (''gcp_project'', JString (kp_gcp_project p)),
     (''registration_service_account'', JString (kp_registration_service_account p)),
     (''transfer_service_account'', JString (kp_transfer_service_account p)),
     (''registration_secret_version'', JInt (kp_registration_secret_version p)),
     (''transfer_secret_version'', JInt (kp_transfer_secret_version p)),
     (''enabled'', JBool (kp_enabled p)), (''netuid'', JInt (kp_netuid p))]"

definition collector_digest :: "hash_fun \<Rightarrow> collector_policy \<Rightarrow> string" where
  "collector_digest H p = hexdigest H (canonical (policy_json p))"

text \<open>\<^verbatim>\<open>plan_service_distribution\<close> of a whole receipt, which both amounts are.\<close>

definition receipt_parts :: "collector_policy \<Rightarrow> int \<Rightarrow> service_distribution list collected" where
  "receipt_parts p amount = of_py (plan_service_distribution amount amount (kp_collector_coldkey p) (kp_destinations p))"

subsection \<open>Manual transfers\<close>

record source_claim =
  sc_source_block :: int
  sc_amount_rao :: int

text \<open>\<^verbatim>\<open>ManualLimitPolicy\<close> and \<^verbatim>\<open>ManualLimitApproval\<close>; the literal fields are in the text that is hashed.\<close>

record manual_limit =
  ml_collector_policy_digest :: string
  ml_collector_coldkey :: string
  ml_revision :: int
  ml_max_amount_rao :: int

record limit_approval =
  la_policy :: manual_limit
  la_signature :: string

definition MANUAL_LIMIT_DOMAIN :: string where
  "MANUAL_LIMIT_DOMAIN = ''ditto-treasury-manual-limit-v1:''"

definition MAX_MANUAL_ALPHA_RAO :: int where "MAX_MANUAL_ALPHA_RAO = 2500000000000"

definition limit_json :: "manual_limit \<Rightarrow> json" where
  "limit_json l = JObject [(''version'', JInt 1), (''scope'', JString ''manual_once''),
     (''collector_policy_digest'', JString (ml_collector_policy_digest l)), (''collector_coldkey'', JString (ml_collector_coldkey l)),
     (''revision'', JInt (ml_revision l)), (''min_amount_rao'', JInt 1), (''max_amount_rao'', JInt (ml_max_amount_rao l)),
     (''max_sources'', JInt 512)]"

definition limit_digest :: "hash_fun \<Rightarrow> manual_limit \<Rightarrow> string" where
  "limit_digest H l = hexdigest H (MANUAL_LIMIT_DOMAIN @ canonical (limit_json l))"

definition check_limit :: "limit_approval \<Rightarrow> unit collected" where
  "check_limit a = (let l = la_policy a in
     need (is_digest (ml_collector_policy_digest l) \<and> is_address (ml_collector_coldkey l) \<and> 0 < ml_revision l \<and> ml_revision l \<le> 2 ^ 53 - 1
       \<and> 0 < ml_max_amount_rao l \<and> ml_max_amount_rao l \<le> MAX_MANUAL_ALPHA_RAO \<and> is_signature (la_signature a)) ''manual limit approval'')"

definition verify_limit :: "hash_fun \<Rightarrow> signature_verifier \<Rightarrow> limit_approval \<Rightarrow> string \<Rightarrow> string \<Rightarrow> manual_limit collected" where
  "verify_limit H V a digest coldkey =
     and_then (need (ml_collector_policy_digest (la_policy a) = digest \<and> ml_collector_coldkey (la_policy a) = coldkey
         \<and> V coldkey (utf8 (MANUAL_LIMIT_DOMAIN @ limit_digest H (la_policy a))) (bytes_fromhex (drop 2 (la_signature a))))
       ''manual limit lacks exact collector cold approval'') (\<lambda>_. Inr (la_policy a))"

text \<open>\<^verbatim>\<open>ManualTransfer\<close>; the subclass \<^verbatim>\<open>ManualBatchTransfer\<close> has its sources and its approval.\<close>

record manual_transfer =
  mq_request_id :: string
  mq_after_operation :: int
  mq_source_block :: int
  mq_bucket_id :: string
  mq_amount_rao :: int
  mq_retained_alpha_rao :: int
  mq_expires_block :: int
  mq_reason :: string
  mq_batch :: "(source_claim list \<times> limit_approval) option"

definition is_uuid :: "string \<Rightarrow> bool" where
  "is_uuid s \<longleftrightarrow> length s = 36 \<and> list_all (\<lambda>i. s ! i = CHR ''-'') [8, 13, 18, 23]
     \<and> list_all (\<lambda>i. i \<in> {8, 13, 18, 23} \<or> is_hex (s ! i)) [0..<36]"

definition bounded_reason :: "string \<Rightarrow> bool" where
  "bounded_reason r \<longleftrightarrow> 8 \<le> length (strip r) \<and> length (strip r) \<le> 240"

definition positive53 :: "int \<Rightarrow> bool" where
  "positive53 n \<longleftrightarrow> 0 < n \<and> n \<le> 2 ^ 53 - 1"

definition is_bucket :: "string \<Rightarrow> bool" where
  "is_bucket s \<longleftrightarrow> 2 \<le> length s \<and> length s \<le> 48 \<and> s ! 0 \<in> set ''abcdefghijklmnopqrstuvwxyz''
     \<and> list_all (\<lambda>c. c \<in> set ''abcdefghijklmnopqrstuvwxyz0123456789_'') s"

text \<open>\<^verbatim>\<open>ManualBatchRequest.model_validate\<close>: the field types and \<^verbatim>\<open>exact_sources\<close>.\<close>

definition check_batch_request :: "manual_transfer \<Rightarrow> source_claim list \<Rightarrow> unit collected" where
  "check_batch_request r sources =
     and_then (need (is_uuid (mq_request_id r) \<and> list_all positive53 [mq_after_operation r, mq_source_block r, mq_amount_rao r,
           mq_retained_alpha_rao r, mq_expires_block r] \<and> is_bucket (mq_bucket_id r)
         \<and> 8 \<le> length (mq_reason r) \<and> length (mq_reason r) \<le> 240 \<and> mq_reason r = strip (mq_reason r)
         \<and> 1 \<le> length sources \<and> length sources \<le> 512
         \<and> list_all (\<lambda>s. positive53 (sc_source_block s) \<and> positive53 (sc_amount_rao s)) sources) ''manual batch request'') (\<lambda>_.
     need (sorted_wrt (<) (map sc_source_block sources) \<and> mq_source_block r = sc_source_block (hd sources)
         \<and> sum_list (map sc_amount_rao sources) = mq_amount_rao r) ''manual sources must be ordered, unique and conserve amount'')"

definition check_manual :: "manual_transfer \<Rightarrow> unit collected" where
  "check_manual r =
     and_then (need (is_uuid (mq_request_id r)) ''canonical manual request UUID required'') (\<lambda>_.
     and_then (need (list_all bounded [mq_after_operation r, mq_source_block r, mq_amount_rao r, mq_retained_alpha_rao r, mq_expires_block r])
       ''positive bounded manual transfer integer required'') (\<lambda>_.
     and_then (need (mq_bucket_id r \<noteq> []) ''manual bucket required'') (\<lambda>_.
     and_then (need (bounded_reason (mq_reason r)) ''bounded manual operator reason required'') (\<lambda>_.
     case mq_batch r of None \<Rightarrow> Inr () | Some (sources, _) \<Rightarrow> check_batch_request r sources))))"

definition approval_json :: "limit_approval \<Rightarrow> json" where
  "approval_json a = JObject [(''policy'', limit_json (la_policy a)), (''signature'', JString (la_signature a))]"

definition manual_json :: "manual_transfer \<Rightarrow> json" where
  "manual_json r = JObject ([(''request_id'', JString (mq_request_id r)), (''after_operation'', JInt (mq_after_operation r)),
     (''source_block'', JInt (mq_source_block r)), (''bucket_id'', JString (mq_bucket_id r)), (''amount_rao'', JInt (mq_amount_rao r)),
     (''retained_alpha_rao'', JInt (mq_retained_alpha_rao r)), (''expires_block'', JInt (mq_expires_block r)),
     (''reason'', JString (mq_reason r))] @ (case mq_batch r of None \<Rightarrow> [] | Some (sources, a) \<Rightarrow>
     [(''sources'', JArray (map (\<lambda>s. JObject [(''source_block'', JInt (sc_source_block s)), (''amount_rao'', JInt (sc_amount_rao s))]) sources)),
      (''manual_approval'', approval_json a)]))"

definition request_digest :: "hash_fun \<Rightarrow> manual_transfer \<Rightarrow> string" where
  "request_digest H r = hexdigest H (canonical (manual_json r))"

definition manual_maximum ::
  "hash_fun \<Rightarrow> signature_verifier \<Rightarrow> collector_policy \<Rightarrow> manual_transfer \<Rightarrow> string option \<Rightarrow> int collected" where
  "manual_maximum H V p r digest = (case mq_batch r of
     None \<Rightarrow> Inr (kp_max_distribution_rao p)
   | Some (_, a) \<Rightarrow> and_then (check_limit a) (\<lambda>_.
       and_then (verify_limit H V a (case digest of Some (c # d) \<Rightarrow> c # d | _ \<Rightarrow> collector_digest H p) (kp_collector_coldkey p)) (\<lambda>l.
       Inr (ml_max_amount_rao l))))"

definition allocated_bucket :: "collector_policy \<Rightarrow> string \<Rightarrow> bool" where
  "allocated_bucket p b \<longleftrightarrow> list_ex (\<lambda>d. sd_bucket_id d = b \<and> sd_allocation_bps d > 0) (kp_destinations p)"

subsection \<open>The tables\<close>

text \<open>What the adapter reports: an observation of the finalized head, a signed transaction, attributed earnings, a settlement.\<close>

record chain_observation =
  ov_block :: int
  ov_block_hash :: string
  ov_uid :: "int option"
  ov_burn_rao :: int
  ov_collector_free_rao :: int
  ov_delegate_free_rao :: int
  ov_alpha_rao :: int

record signed_operation =
  sg_encoded :: string
  sg_extrinsic_hash :: string
  sg_start_block :: int
  sg_expires_block :: int
  sg_fee_rao :: int

record finalized_earnings =
  fz_amount_rao :: int
  fz_block_hash :: string
  fz_event_digest :: string

record settlement =
  sl_status :: string
  sl_block :: "int option"
  sl_block_hash :: "string option"
  sl_uid :: "int option"
  sl_scanned_through :: "int option"
  sl_extrinsic_index :: "int option"
  sl_extrinsic_hash :: "string option"

text \<open>The two calls of \<^verbatim>\<open>SubtensorModule\<close> on subnet 118: hotkey and limit price, or destination, hotkey and amount.\<close>

datatype chain_call = Register_Limit string int | Transfer_Stake string string int

record canary =
  tc_max_alpha_rao :: int
  tc_after_operation :: int

record canary_replaced =
  cr_policy :: string
  cr_canary :: canary
  cr_source_block :: int
  cr_proof :: settlement
  cr_reason :: string

record unsigned_expiry =
  ue_policy :: string
  ue_request_id :: string
  ue_request_digest :: string
  ue_after_operation :: int
  ue_finalized_block :: int
  ue_finalized_block_hash :: string
  ue_reason :: string

record runtime_migration =
  rm_manifest :: json
  rm_signature :: string
  rm_from_policy :: collector_policy
  rm_to_policy :: collector_policy

record receipt_reserved =
  rr_source_block :: int
  rr_source_hash :: string
  rr_source_event_digest :: string
  rr_source_amount :: int
  rr_bucket :: string
  rr_bucket_remaining_before :: int
  rr_canary_amount :: int
  rr_receipt_remaining_after :: int

text \<open>The rows of \<^verbatim>\<open>events\<close>, one constructor for each event name.\<close>

datatype collector_event =
    Transfer_Canary_Armed string canary
  | Transfer_Canary_Replaced canary_replaced
  | Manual_Transfer_Armed string manual_transfer
  | Manual_Unsigned_Expired unsigned_expiry
  | Runtime_Migration runtime_migration
  | Settled int settlement
  | Collector_Uid_Rebound settlement
  | Distribution_Complete int int
  | Canary_Receipt_Reserved receipt_reserved
  | Dispatch_Reserved string string string
  | Emission_Attributed int string finalized_earnings
  | Manual_Source_Probed string int

record earning_row =
  er_block :: int
  er_earned :: finalized_earnings
  er_completed :: bool

record operation_row =
  op_state :: string
  op_role :: string
  op_amount :: int
  op_source_block :: "int option"
  op_bucket :: "string option"
  op_destination :: "string option"
  op_call :: chain_call
  op_signed :: signed_operation
  op_at_block :: int
  op_settlement :: "settlement option"
  op_reconciled_through :: int

record collector_journal =
  cj_pin :: "(string \<times> string) option"
  cj_cursor :: int
  cj_earnings :: "earning_row list"
  cj_operations :: "operation_row list"
  cj_events :: "collector_event list"

text \<open>Rows with their ids, one row by its id, and \<^verbatim>\<open>COALESCE(MAX(id),0)\<close>.\<close>

definition numbered :: "'a list \<Rightarrow> (int \<times> 'a) list" where
  "numbered rows = zip (map int [1..<length rows + 1]) rows"

definition row_at :: "'a list \<Rightarrow> int \<Rightarrow> 'a option" where
  "row_at rows i = (if 1 \<le> i \<and> i \<le> int (length rows) then Some (rows ! nat (i - 1)) else None)"

definition max_id :: "collector_journal \<Rightarrow> int" where
  "max_id j = int (length (cj_operations j))"

definition rows_between :: "'a list \<Rightarrow> int \<Rightarrow> int \<Rightarrow> 'a list" where
  "rows_between rows lower upper = map snd (filter (\<lambda>(i, _). lower < i \<and> i \<le> upper) (numbered rows))"

definition add_event :: "collector_event \<Rightarrow> collector_journal \<Rightarrow> collector_journal" where
  "add_event e j = j\<lparr>cj_events := cj_events j @ [e]\<rparr>"

text \<open>Creating a journal (\<^verbatim>\<open>initialize=True\<close>, which refuses an existing file) and opening one.\<close>

definition create_journal :: "hash_fun \<Rightarrow> collector_policy \<Rightarrow> string \<Rightarrow> collector_journal collected" where
  "create_journal H p role =
     and_then (need (role \<in> {''registration'', ''transfer''}) ''unknown signer role'') (\<lambda>_.
     Inr \<lparr>cj_pin = Some (collector_digest H p, role), cj_cursor = kp_start_block p - 1, cj_earnings = [], cj_operations = [], cj_events = []\<rparr>)"

definition open_journal :: "hash_fun \<Rightarrow> collector_policy \<Rightarrow> string \<Rightarrow> collector_journal \<Rightarrow> collector_journal collected" where
  "open_journal H p role j =
     and_then (need (role \<in> {''registration'', ''transfer''}) ''unknown signer role'') (\<lambda>_.
     and_then (need (cj_pin j = Some (collector_digest H p, role)) ''existing journal pin unavailable or changed'') (\<lambda>_. Inr j))"

definition require_pin :: "hash_fun \<Rightarrow> collector_policy \<Rightarrow> string \<Rightarrow> string \<Rightarrow> collector_journal \<Rightarrow> unit collected" where
  "require_pin H p role message j =
     and_then (present (cj_pin j)) (\<lambda>pin. need (pin = (collector_digest H p, role)) message)"

subsection \<open>Runtime migrations of the policy\<close>

text \<open>\<^verbatim>\<open>policy_transition\<close>: the fields that may change, and the audited pairs of runtime hashes.\<close>

definition changed_fields :: "collector_policy \<Rightarrow> collector_policy \<Rightarrow> string set" where
  "changed_fields a b = (case (policy_json a, policy_json b) of
     (JObject xs, JObject ys) \<Rightarrow> set (map fst (filter (\<lambda>(k, v). map_of ys k \<noteq> Some v) xs)) | _ \<Rightarrow> {})"

definition audited_transitions :: "(string \<times> string) list" where
  "audited_transitions =
     (let historical = ''0x43bc67be9df30636d7e948e7bdb1ed065f2fb92029458cc939abf89d76d8ada3'';
          v473 = ''0x7773f5c0a6d6e9ea9ff347edcc491246eec08a5cf441d964ee96f40d7fa65a08'';
          v478 = ''0x7e722b3aa5c9192c98665a5d65fa91364bf9055e21fc90efce6d59bf4ef414e1'';
          v481 = ''0x5fb504c1c793a3ddb5456f189ddef98b5146853aea6ff998501f1b6c6eb720bc'';
          v482 = ''0x37d83888085e2f1b7c9c36c1341cfb6c0d6689f8efd6e0c6128e3666eb5d8b62'';
          audited = ''0x99856ec64a61eb8011999a803bd336979512275214a173fea583abd5c89952d2''
      in [(historical, v473), (historical, v478), (v473, v478), (historical, v482), (v473, v482), (historical, v481), (v473, v481),
          (v478, v481), (v478, v482), (v481, v482), (v482, audited)])"

definition isolated_account :: "string \<Rightarrow> string" where
  "isolated_account role = ''sn118-collector-'' @ role @ ''@sn118-gamma-custody.iam.gserviceaccount.com''"

definition isolated_accounts :: "collector_policy \<Rightarrow> bool" where
  "isolated_accounts p \<longleftrightarrow> kp_registration_service_account p = isolated_account ''registration''
     \<and> kp_transfer_service_account p = isolated_account ''transfer''"

definition policy_transition :: "collector_policy \<Rightarrow> collector_policy \<Rightarrow> unit collected" where
  "policy_transition a b =
     (if changed_fields a b = {''revision'', ''runtime_code_hash''} \<and> kp_gcp_project a = kp_gcp_project b
         \<and> kp_gcp_project b = ''sn118-gamma-custody'' \<and> kp_revision b = kp_revision a + 1
         \<and> (kp_runtime_code_hash a, kp_runtime_code_hash b) \<in> set audited_transitions \<and> isolated_accounts b
      then Inr ()
      else and_then (need (changed_fields a b = {''revision'', ''gcp_project'', ''registration_delegate'', ''transfer_delegate'',
               ''registration_service_account'', ''transfer_service_account''}
             \<and> kp_gcp_project a = ''ditto-app-dev'' \<and> kp_gcp_project b = ''sn118-gamma-custody'' \<and> kp_revision b = kp_revision a + 1)
           ''unsupported custody-only policy transition'') (\<lambda>_.
         and_then (need (isolated_accounts b) ''new signer account not isolated'') (\<lambda>_.
         need ({kp_registration_delegate a, kp_transfer_delegate a} \<inter> {kp_registration_delegate b, kp_transfer_delegate b} = {})
           ''fresh delegates required'')))"

definition json_get :: "string \<Rightarrow> json \<Rightarrow> json collected" where
  "json_get key v = (case v of
     JObject kvs \<Rightarrow> (case map_of kvs key of None \<Rightarrow> Inl (Stored (Raised KeyError)) | Some w \<Rightarrow> Inr w)
   | _ \<Rightarrow> Inl (Stored (Raised TypeError)))"

definition CUSTODY_MIGRATION :: string where
  "CUSTODY_MIGRATION = ''ditto-collector-custody-migration-v1''"

text \<open>One step of the ancestry: the event at \<open>row_id\<close> leads from an earlier policy to \<open>current\<close>, with the cold key's approval.\<close>

definition migration_step ::
  "hash_fun \<Rightarrow> signature_verifier \<Rightarrow> collector_policy \<Rightarrow> int \<Rightarrow> runtime_migration \<Rightarrow> collector_policy collected" where
  "migration_step H V current row_id m = (let a = rm_from_policy m; b = rm_to_policy m; proof = rm_manifest m;
       message = ''runtime migration ancestry differs from current pin'' in
     and_then (check_collector_policy a) (\<lambda>_.
     and_then (check_collector_policy b) (\<lambda>_.
     and_then (need (b = current \<and> kp_runtime_code_hash a \<noteq> kp_runtime_code_hash b) message) (\<lambda>_.
     and_then (json_get ''schema'' proof) (\<lambda>v. and_then (need (v = JString CUSTODY_MIGRATION) message) (\<lambda>_.
     and_then (json_get ''role'' proof) (\<lambda>v. and_then (need (v = JString ''transfer'') message) (\<lambda>_.
     and_then (json_get ''from_policy_digest'' proof) (\<lambda>v. and_then (need (v = JString (collector_digest H a)) message) (\<lambda>_.
     and_then (json_get ''to_policy_digest'' proof) (\<lambda>v. and_then (need (v = JString (collector_digest H b)) message) (\<lambda>_.
     and_then (json_get ''counts'' proof) (\<lambda>c. and_then (json_get ''events'' c) (\<lambda>v.
     and_then (need (v = JInt (row_id - 1)) message) (\<lambda>_.
     and_then (policy_transition a b) (\<lambda>_.
     case fromhex (let s = rm_signature m in if take 2 s = ''0x'' then drop 2 s else s) of
       None \<Rightarrow> Inl (Stored (Raised (ValueError ''non-hexadecimal number found in fromhex() arg'')))
     | Some signature \<Rightarrow>
       and_then (need (V (kp_collector_coldkey current) (utf8 (CUSTODY_MIGRATION @ '':'' @ hexdigest H (canonical proof))) signature)
         ''runtime migration ancestry lacks cold approval'') (\<lambda>_. Inr a)))))))))))))))))"

fun policy_ancestry ::
  "hash_fun \<Rightarrow> signature_verifier \<Rightarrow> collector_policy \<Rightarrow> (int \<times> runtime_migration) list \<Rightarrow> (string, int option) dict
     \<Rightarrow> (string, int option) dict collected" where
  "policy_ancestry H V current [] limits = Inr limits"
| "policy_ancestry H V current ((row_id, m) # rest) limits =
     and_then (migration_step H V current row_id m) (\<lambda>a.
     policy_ancestry H V a rest (dict_set (collector_digest H a) (Some row_id) limits))"

definition migrations :: "collector_journal \<Rightarrow> (int \<times> runtime_migration) list" where
  "migrations j = List.map_filter (\<lambda>(i, e). case e of Runtime_Migration m \<Rightarrow> Some (i, m) | _ \<Rightarrow> None) (numbered (cj_events j))"

definition historical_policy_limits ::
  "hash_fun \<Rightarrow> signature_verifier \<Rightarrow> collector_journal \<Rightarrow> collector_policy \<Rightarrow> (string, int option) dict collected" where
  "historical_policy_limits H V j p =
     (let rows = take 17 (rev (migrations j)) in
      and_then (need (length rows \<le> 16) ''runtime migration ancestry exceeds bound'') (\<lambda>_.
      policy_ancestry H V p rows [(collector_digest H p, None)]))"

definition historical_policy_matches ::
  "hash_fun \<Rightarrow> signature_verifier \<Rightarrow> collector_journal \<Rightarrow> collector_policy \<Rightarrow> string \<Rightarrow> int \<Rightarrow> bool collected" where
  "historical_policy_matches H V j p digest event_id =
     (if digest = collector_digest H p then Inr True
      else and_then (historical_policy_limits H V j p) (\<lambda>limits.
        Inr (case map_of limits digest of Some (Some limit) \<Rightarrow> event_id < limit | _ \<Rightarrow> False)))"

end
