(* ===== verification/Collector_History.thy ===== *)
theory Collector_History
  imports Collector
begin

section \<open>What the collector journal says\<close>

text \<open>
  The reading half of \<^verbatim>\<open>collector.py\<close> and \<^verbatim>\<open>manual_batch.py\<close>: manual intents and how each was spent or retired, the canary and its
  replacement, which operations drew on a receipt and what is left of it. \<open>collector_chain\<close> is the adapter during one call: what
  each of its methods returns or raises (\<open>ch_observe n\<close> is the answer to the \<open>n\<close>-th observation of the call).
\<close>

record collector_chain =
  ch_observe :: "nat \<Rightarrow> string \<Rightarrow> chain_observation collected"
  ch_earnings :: "int \<Rightarrow> finalized_earnings option collected"
  ch_prepare :: "string \<Rightarrow> chain_call \<Rightarrow> chain_observation \<Rightarrow> signed_operation collected"
  ch_prepare_manual :: "chain_call \<Rightarrow> chain_observation \<Rightarrow> manual_transfer \<Rightarrow> signed_operation collected"
  ch_reconcile :: "int \<times> operation_row \<Rightarrow> chain_observation \<Rightarrow> settlement collected"
  ch_retryable_transfer_failure :: "int \<times> operation_row \<Rightarrow> settlement collected"
  ch_manual_approval :: "limit_approval option"

subsection \<open>Manual intents\<close>

definition armed_rows :: "collector_journal \<Rightarrow> (int \<times> string \<times> manual_transfer) list" where
  "armed_rows j = List.map_filter (\<lambda>(i, e). case e of Manual_Transfer_Armed d r \<Rightarrow> Some (i, d, r) | _ \<Rightarrow> None) (numbered (cj_events j))"

definition expired_rows :: "collector_journal \<Rightarrow> (int \<times> unsigned_expiry) list" where
  "expired_rows j = List.map_filter (\<lambda>(i, e). case e of Manual_Unsigned_Expired x \<Rightarrow> Some (i, x) | _ \<Rightarrow> None) (numbered (cj_events j))"

definition is_dispatch_reserved :: "collector_event \<Rightarrow> bool" where
  "is_dispatch_reserved e \<longleftrightarrow> (case e of Dispatch_Reserved _ _ _ \<Rightarrow> True | _ \<Rightarrow> False)"

definition dispatch_between :: "collector_journal \<Rightarrow> int \<Rightarrow> int \<Rightarrow> bool" where
  "dispatch_between j lower upper \<longleftrightarrow> list_ex (\<lambda>(i, e). lower < i \<and> i < upper \<and> is_dispatch_reserved e) (numbered (cj_events j))"

definition limit_admits :: "(string, int option) dict \<Rightarrow> string \<Rightarrow> int \<Rightarrow> bool" where
  "limit_admits limits digest event_id \<longleftrightarrow>
     (case map_of limits digest of None \<Rightarrow> False | Some None \<Rightarrow> True | Some (Some limit) \<Rightarrow> event_id < limit)"

text \<open>The expiry that closes an intent repeats it exactly, follows its expiry block and its arming, and nothing was signed between.\<close>

definition closes :: "hash_fun \<Rightarrow> collector_journal \<Rightarrow> int \<Rightarrow> string \<Rightarrow> manual_transfer \<Rightarrow> int \<times> unsigned_expiry \<Rightarrow> bool" where
  "closes H j event_id digest r closure = (case closure of (closed_at, x) \<Rightarrow>
     ue_policy x = digest \<and> ue_request_digest x = request_digest H r \<and> ue_after_operation x = mq_after_operation r
     \<and> mq_expires_block r \<le> ue_finalized_block x \<and> event_id < closed_at \<and> \<not> dispatch_between j event_id closed_at)"

fun history_loop ::
  "hash_fun \<Rightarrow> signature_verifier \<Rightarrow> collector_journal \<Rightarrow> collector_policy \<Rightarrow> (string, int option) dict
     \<Rightarrow> (int \<times> string \<times> manual_transfer) list \<Rightarrow> string list \<Rightarrow> int \<Rightarrow> bool \<Rightarrow> int \<Rightarrow> (string, int \<times> unsigned_expiry) dict
     \<Rightarrow> ((string, int \<times> unsigned_expiry) dict \<times> manual_transfer list) collected" where
  "history_loop H V j p limits [] ids previous previous_expired closed_before expired = Inr (expired, [])"
| "history_loop H V j p limits ((event_id, digest, r) # rest) ids previous previous_expired closed_before expired =
     and_then (need (closed_before < event_id) ''manual intent advanced before unsigned expiry'') (\<lambda>_.
     and_then (need (limit_admits limits digest event_id) ''manual transfer policy changed'') (\<lambda>_.
     and_then (check_manual r) (\<lambda>_.
     and_then (need (mq_request_id r \<notin> set ids \<and> previous \<le> mq_after_operation r \<and> (mq_after_operation r = previous \<longrightarrow> previous_expired))
       ''manual transfer history reset or reused'') (\<lambda>_.
     and_then (manual_maximum H V p r (Some digest)) (\<lambda>maximum.
     and_then (need (mq_amount_rao r \<le> maximum \<and> allocated_bucket p (mq_bucket_id r) \<and> kp_start_block p \<le> mq_source_block r)
       ''manual intent exceeds signed policy'') (\<lambda>_.
     case map_of expired (mq_request_id r) of
       Some closure \<Rightarrow>
         and_then (need (closes H j event_id digest r closure) ''unsigned expiry differs from unspent exact intent'') (\<lambda>_.
         history_loop H V j p limits rest (mq_request_id r # ids) (mq_after_operation r) True (fst closure)
           (AList.delete (mq_request_id r) expired))
     | None \<Rightarrow>
         and_then (history_loop H V j p limits rest (mq_request_id r # ids) (mq_after_operation r) False closed_before expired)
           (\<lambda>(left, requests). Inr (left, r # requests))))))))"

text \<open>The destination of a bucket is the first with that name: \<^verbatim>\<open>next(...)\<close>.\<close>

definition claim_differs :: "collector_policy \<Rightarrow> manual_transfer \<Rightarrow> operation_row \<Rightarrow> bool" where
  "claim_differs p r c \<longleftrightarrow> op_role c \<noteq> ''transfer'' \<or> op_amount c \<noteq> mq_amount_rao r \<or> op_source_block c \<noteq> Some (mq_source_block r)
     \<or> op_bucket c \<noteq> Some (mq_bucket_id r)
     \<or> op_destination c \<noteq> map_option sd_holding_coldkey (find (\<lambda>d. sd_bucket_id d = mq_bucket_id r) (kp_destinations p))"

fun check_claims :: "collector_policy \<Rightarrow> operation_row list \<Rightarrow> manual_transfer list \<Rightarrow> unit collected" where
  "check_claims p rows [] = Inr ()"
| "check_claims p rows (r # rest) =
     (let claims = rows_between rows (mq_after_operation r) (case rest of [] \<Rightarrow> 2 ^ 63 - 1 | s # _ \<Rightarrow> mq_after_operation s) in
      and_then (need (length claims \<le> 1 \<and> \<not> list_ex (claim_differs p r) claims) ''manual transfer claim differs from exact request'') (\<lambda>_.
      and_then (need (rest = [] \<or> (length claims = 1 \<and> op_state (hd claims) = ''finalized''))
        ''manual history advanced without finalized claim'') (\<lambda>_.
      check_claims p rows rest)))"

definition manual_transfer_history ::
  "hash_fun \<Rightarrow> signature_verifier \<Rightarrow> collector_journal \<Rightarrow> collector_policy \<Rightarrow> manual_transfer list collected" where
  "manual_transfer_history H V j p =
     (let rows = armed_rows j; closures = expired_rows j in
      and_then (need (length rows \<le> 100000) ''manual history exceeds explicit bound'') (\<lambda>_.
      and_then (if list_ex (\<lambda>(_, digest, _). digest \<noteq> collector_digest H p) rows then historical_policy_limits H V j p
                else Inr [(collector_digest H p, None)]) (\<lambda>limits.
      and_then (need (distinct (map (ue_request_id \<circ> snd) closures)) ''duplicate unsigned expiry'') (\<lambda>_.
      and_then (history_loop H V j p limits rows [] 0 False 0 (map (\<lambda>(i, x). (ue_request_id x, (i, x))) closures)) (\<lambda>(left, requests).
      and_then (need (left = []) ''unsigned expiry lacks its original manual intent'') (\<lambda>_.
      and_then (check_claims p (cj_operations j) requests) (\<lambda>_. Inr requests)))))))"

subsection \<open>The canary and its replacement\<close>

definition check_canary :: "canary \<Rightarrow> unit collected" where
  "check_canary c = need (bounded (tc_max_alpha_rao c) \<and> 0 \<le> tc_after_operation c \<and> tc_after_operation c < 2 ^ 63) ''invalid transfer canary bounds''"

definition canary_rows :: "collector_journal \<Rightarrow> (int \<times> string \<times> canary) list" where
  "canary_rows j = List.map_filter (\<lambda>(i, e). case e of Transfer_Canary_Armed d c \<Rightarrow> Some (i, d, c) | _ \<Rightarrow> None) (numbered (cj_events j))"

definition replaced_rows :: "collector_journal \<Rightarrow> (int \<times> canary_replaced) list" where
  "replaced_rows j = List.map_filter (\<lambda>(i, e). case e of Transfer_Canary_Replaced b \<Rightarrow> Some (i, b) | _ \<Rightarrow> None) (numbered (cj_events j))"

definition nonnegative_index :: "settlement \<Rightarrow> bool" where
  "nonnegative_index s \<longleftrightarrow> (case sl_extrinsic_index s of None \<Rightarrow> False | Some i \<Rightarrow> 0 \<le> i)"

definition canary_replacement ::
  "hash_fun \<Rightarrow> signature_verifier \<Rightarrow> collector_journal \<Rightarrow> collector_policy \<Rightarrow> canary_replaced option collected" where
  "canary_replacement H V j p = (case replaced_rows j of
     [] \<Rightarrow> Inr None
   | [(event_id, b)] \<Rightarrow>
       and_then (historical_policy_matches H V j p (cr_policy b) event_id) (\<lambda>matches.
       and_then (need (matches \<and> sl_status (cr_proof b) = ''failed'' \<and> nonnegative_index (cr_proof b)
           \<and> sl_extrinsic_hash (cr_proof b) \<noteq> None \<and> kp_start_block p \<le> cr_source_block b \<and> bounded_reason (cr_reason b))
         ''invalid canary replacement history'') (\<lambda>_.
       and_then (check_canary (cr_canary b)) (\<lambda>_. Inr (Some b))))
   | _ \<Rightarrow> Inl (Stored (Raised (ValueError ''only one explicit canary replacement is supported''))))"

definition replacement_fits :: "canary_replaced \<Rightarrow> canary \<Rightarrow> operation_row option \<Rightarrow> unit collected" where
  "replacement_fits b existing row = (let message = ''replacement history differs from failed claim'' in
     and_then (need (row \<noteq> None) message) (\<lambda>_.
     and_then (present row) (\<lambda>o1.
     and_then (need (op_state o1 = ''failed'' \<and> op_role o1 = ''transfer'' \<and> op_source_block o1 = Some (cr_source_block b)
         \<and> tc_after_operation (cr_canary b) = tc_after_operation existing + 1
         \<and> 0 < op_amount o1 \<and> op_amount o1 \<le> tc_max_alpha_rao existing) message) (\<lambda>_.
     and_then (present (op_settlement o1)) (\<lambda>s.
     need (sl_block (cr_proof b) = sl_block s \<and> sl_block_hash (cr_proof b) = sl_block_hash s
         \<and> sl_extrinsic_hash (cr_proof b) = Some (sg_extrinsic_hash (op_signed o1))) message)))))"

text \<open>The canary in force: what the history records, replaced where it was.\<close>

definition existing_canary ::
  "hash_fun \<Rightarrow> signature_verifier \<Rightarrow> collector_journal \<Rightarrow> collector_policy \<Rightarrow> canary option collected" where
  "existing_canary H V j p = (case canary_rows j of
     [] \<Rightarrow> and_then (canary_replacement H V j p) (\<lambda>b.
       and_then (need (b = None) ''replacement lacks original canary history'') (\<lambda>_. Inr None))
   | [(event_id, digest, c)] \<Rightarrow>
       and_then (historical_policy_matches H V j p digest event_id) (\<lambda>matches.
       and_then (need matches ''transfer canary policy changed'') (\<lambda>_.
       and_then (check_canary c) (\<lambda>_.
       and_then (canary_replacement H V j p) (\<lambda>r.
       case r of None \<Rightarrow> Inr (Some c)
       | Some b \<Rightarrow> and_then (replacement_fits b c (row_at (cj_operations j) (tc_after_operation (cr_canary b)))) (\<lambda>_.
           Inr (Some (cr_canary b)))))))
   | _ \<Rightarrow> Inl (Stored (Raised (ValueError ''ambiguous transfer canary history''))))"

definition manual_canary :: "manual_transfer \<Rightarrow> canary" where
  "manual_canary r = \<lparr>tc_max_alpha_rao = mq_amount_rao r, tc_after_operation = mq_after_operation r\<rparr>"

definition transfer_canary ::
  "hash_fun \<Rightarrow> signature_verifier \<Rightarrow> collector_journal \<Rightarrow> collector_policy \<Rightarrow> string \<Rightarrow> canary option
     \<Rightarrow> (collector_journal \<times> canary option) collected" where
  "transfer_canary H V j p role requested =
     and_then (existing_canary H V j p) (\<lambda>existing.
     and_then (need (existing = None \<or> requested = None \<or> requested = existing) ''transfer canary cannot be reset or widened'') (\<lambda>_.
     case (if existing = None then requested else existing) of
       None \<Rightarrow> Inr (j, None)
     | Some c \<Rightarrow>
       and_then (need (role = ''transfer'' \<and> tc_max_alpha_rao c \<le> kp_max_distribution_rao p)
         ''canary requires transfer role within signed ceiling'') (\<lambda>_.
       and_then (if existing \<noteq> None then Inr j
                 else and_then (need (max_id j = tc_after_operation c \<and> \<not> list_ex (\<lambda>o1. op_state o1 = ''dispatching'') (cj_operations j))
                     ''canary baseline must equal quiesced current journal'') (\<lambda>_.
                   Inr (add_event (Transfer_Canary_Armed (collector_digest H p) c) j))) (\<lambda>j1.
       and_then (manual_transfer_history H V j1 p) (\<lambda>manual.
       (let claimed = rows_between (cj_operations j1) (tc_after_operation c) (case manual of [] \<Rightarrow> 2 ^ 63 - 1 | r # _ \<Rightarrow> mq_after_operation r) in
        and_then (need (length claimed \<le> 1 \<and> list_all (\<lambda>o1. op_role o1 = ''transfer'' \<and> 0 < op_amount o1 \<and> op_amount o1 \<le> tc_max_alpha_rao c) claimed)
          ''transfer canary claim exceeds approved bound'') (\<lambda>_.
        Inr (j1, Some (if manual = [] then c else manual_canary (last manual))))))))))"

subsection \<open>What is left of a receipt\<close>

text \<open>\<^verbatim>\<open>remaining_distribution\<close>: every operation on the receipt is finalized, to the bucket's wallet and within its entitlement.\<close>

fun settle_paid ::
  "(string, service_distribution) dict \<Rightarrow> operation_row list \<Rightarrow> (string \<Rightarrow> int) \<Rightarrow> (string \<Rightarrow> int) collected" where
  "settle_paid expected [] paid = Inr paid"
| "settle_paid expected (o1 # rest) paid =
     (case Option.bind (op_bucket o1) (\<lambda>b. map_option (Pair b) (map_of expected b)) of
        None \<Rightarrow> Inl (Stored (Raised (ValueError ''invalid finalized receipt distribution history'')))
      | Some (b, part) \<Rightarrow>
        and_then (need (op_role o1 = ''transfer'' \<and> op_state o1 = ''finalized'' \<and> op_destination o1 = Some (dn_holding_coldkey part)
            \<and> 0 < op_amount o1) ''invalid finalized receipt distribution history'') (\<lambda>_.
        and_then (need (paid b + op_amount o1 \<le> dn_alpha_rao part) ''finalized distribution exceeds receipt bucket'') (\<lambda>_.
        settle_paid expected rest (paid(b := paid b + op_amount o1)))))"

definition remaining_distribution ::
  "service_distribution list \<Rightarrow> operation_row list \<Rightarrow> service_distribution list collected" where
  "remaining_distribution parts operations =
     and_then (settle_paid (dict_of (map (\<lambda>d. (dn_bucket_id d, d)) parts)) operations (\<lambda>_. 0)) (\<lambda>paid.
     Inr (map (\<lambda>d. d\<lparr>dn_alpha_rao := dn_alpha_rao d - paid (dn_bucket_id d)\<rparr>)
       (filter (\<lambda>d. paid (dn_bucket_id d) < dn_alpha_rao d) parts)))"

text \<open>\<^verbatim>\<open>source_operations\<close>: an operation that a batch intent explains counts for each of its sources, any other for its own.\<close>

definition expired_ids :: "collector_journal \<Rightarrow> string set" where
  "expired_ids j = set (map (ue_request_id \<circ> snd) (expired_rows j))"

definition open_batches :: "collector_journal \<Rightarrow> manual_transfer list" where
  "open_batches j = filter (\<lambda>r. mq_batch r \<noteq> None \<and> mq_request_id r \<notin> expired_ids j) (map (snd \<circ> snd) (armed_rows j))"

fun claims_by_operation :: "manual_transfer list \<Rightarrow> (int, manual_transfer) dict \<Rightarrow> (int, manual_transfer) dict collected" where
  "claims_by_operation [] claims = Inr claims"
| "claims_by_operation (r # rest) claims =
     and_then (check_manual r) (\<lambda>_.
     and_then (need (mq_after_operation r + 1 \<notin> set (dict_keys claims)) ''ambiguous aggregate operation attribution'') (\<lambda>_.
     claims_by_operation rest (dict_set (mq_after_operation r + 1) r claims)))"

definition batch_sources :: "manual_transfer \<Rightarrow> source_claim list" where
  "batch_sources r = (case mq_batch r of None \<Rightarrow> [] | Some (sources, _) \<Rightarrow> sources)"

definition explains :: "manual_transfer \<Rightarrow> operation_row \<Rightarrow> bool" where
  "explains r o1 \<longleftrightarrow> op_role o1 = ''transfer'' \<and> op_amount o1 = mq_amount_rao r \<and> op_bucket o1 = Some (mq_bucket_id r)
     \<and> op_source_block o1 = Some (mq_source_block r)"

definition attributed :: "(int, manual_transfer) dict \<Rightarrow> int \<Rightarrow> int \<times> operation_row \<Rightarrow> operation_row list" where
  "attributed claims block row = (case row of (i, o1) \<Rightarrow> (case map_of claims i of
     Some r \<Rightarrow> map (\<lambda>c. o1\<lparr>op_amount := sc_amount_rao c\<rparr>) (filter (\<lambda>c. sc_source_block c = block) (batch_sources r))
   | None \<Rightarrow> if op_source_block o1 = Some block then [o1] else []))"

definition explained :: "(int, manual_transfer) dict \<Rightarrow> int \<times> operation_row \<Rightarrow> bool" where
  "explained claims row = (case row of (i, o1) \<Rightarrow> (case map_of claims i of Some r \<Rightarrow> explains r o1 | None \<Rightarrow> True))"

definition source_operations :: "collector_journal \<Rightarrow> int \<Rightarrow> int \<Rightarrow> operation_row list collected" where
  "source_operations j block exclude =
     and_then (claims_by_operation (open_batches j) []) (\<lambda>claims.
     and_then (collect (\<lambda>row. and_then (need (explained claims row) ''aggregate operation differs from durable intent'') (\<lambda>_.
         Inr (attributed claims block row))) (filter (\<lambda>(i, _). i \<noteq> exclude) (numbered (cj_operations j)))) (\<lambda>rows.
     Inr (concat rows)))"

definition excluded_id :: "canary_replaced option \<Rightarrow> int" where
  "excluded_id r = (case r of None \<Rightarrow> - 1 | Some b \<Rightarrow> tc_after_operation (cr_canary b))"

definition remaining_source ::
  "hash_fun \<Rightarrow> signature_verifier \<Rightarrow> collector_journal \<Rightarrow> collector_policy \<Rightarrow> earning_row \<Rightarrow> bool \<Rightarrow> service_distribution list collected" where
  "remaining_source H V j p row manual =
     and_then (need (manual \<or> fz_amount_rao (er_earned row) \<le> kp_max_distribution_rao p) ''source exceeds unchanged signed receipt batch'') (\<lambda>_.
     and_then (receipt_parts p (fz_amount_rao (er_earned row))) (\<lambda>parts.
     and_then (canary_replacement H V j p) (\<lambda>replacement.
     and_then (source_operations j (er_block row) (excluded_id replacement)) (\<lambda>operations.
     remaining_distribution parts operations))))"

definition open_earning :: "collector_journal \<Rightarrow> int \<Rightarrow> earning_row option" where
  "open_earning j block = find (\<lambda>e. er_block e = block \<and> \<not> er_completed e) (cj_earnings j)"

fun check_sources ::
  "hash_fun \<Rightarrow> signature_verifier \<Rightarrow> collector_journal \<Rightarrow> collector_policy \<Rightarrow> collector_chain \<Rightarrow> string \<Rightarrow> string \<Rightarrow> int
     \<Rightarrow> source_claim list \<Rightarrow> unit collected" where
  "check_sources H V j p chain bucket destination head [] = Inr ()"
| "check_sources H V j p chain bucket destination head (c # rest) =
     and_then (intend (kp_start_block p \<le> sc_source_block c \<and> sc_source_block c + kp_distribution_interval_blocks p \<le> head)
       ''aggregate source is immature or unapproved'') (\<lambda>_.
     case open_earning j (sc_source_block c) of
       None \<Rightarrow> Inl (ManualIntentRefused ''aggregate source receipt absent'')
     | Some row \<Rightarrow>
       and_then (ch_earnings chain (sc_source_block c)) (\<lambda>earned.
       and_then (need (earned = Some (er_earned row)) ''aggregate source proof changed or unavailable'') (\<lambda>_.
       and_then (remaining_source H V j p row True) (\<lambda>remaining.
       and_then (intend (list_ex (\<lambda>d. dn_bucket_id d = bucket \<and> dn_holding_coldkey d = destination \<and> sc_amount_rao c \<le> dn_alpha_rao d) remaining)
         ''aggregate source entitlement exceeded'') (\<lambda>_.
       check_sources H V j p chain bucket destination head rest)))))"

definition validate_batch ::
  "hash_fun \<Rightarrow> signature_verifier \<Rightarrow> collector_journal \<Rightarrow> collector_policy \<Rightarrow> collector_chain \<Rightarrow> manual_transfer
     \<Rightarrow> source_claim list \<times> limit_approval \<Rightarrow> chain_observation \<Rightarrow> string collected" where
  "validate_batch H V j p chain r batch observed = (case batch of (sources, a) \<Rightarrow>
     and_then (check_batch_request r sources) (\<lambda>_.
     and_then (check_limit a) (\<lambda>_.
     and_then (verify_limit H V a (collector_digest H p) (kp_collector_coldkey p)) (\<lambda>l.
     and_then (intend (ch_manual_approval chain = Some a) ''manual approval differs from deployed exact pin'') (\<lambda>_.
     and_then (intend (mq_amount_rao r \<le> ml_max_amount_rao l) ''manual amount exceeds cold-approved range'') (\<lambda>_.
     and_then (intend (mq_amount_rao r + mq_retained_alpha_rao r \<le> ov_alpha_rao observed) ''manual request would consume retained stake'') (\<lambda>_.
     case filter (\<lambda>d. sd_bucket_id d = mq_bucket_id r \<and> sd_allocation_bps d > 0) (kp_destinations p) of
       [d] \<Rightarrow> and_then (check_sources H V j p chain (mq_bucket_id r) (sd_holding_coldkey d) (ov_block observed) sources) (\<lambda>_.
         Inr (sd_holding_coldkey d))
     | _ \<Rightarrow> Inl (ManualIntentRefused ''manual bucket must have one signed destination''))))))))"

end
