(* ===== verification/Collector_Tick.thy ===== *)
theory Collector_Tick
  imports Collector_History
begin

section \<open>The operations of the collector\<close>

text \<open>
  Every entry point of \<^verbatim>\<open>collector.py\<close> and \<^verbatim>\<open>manual_expiry.py\<close>: scanning finalized earnings, arming, retiring and reading manual
  intents, replacing a failed canary, and \<^verbatim>\<open>tick\<close>. Each is one transaction; only \<^verbatim>\<open>tick\<close> sends, and what it sends leaves after its
  transaction committed.
\<close>

subsection \<open>Earnings\<close>

definition record_earning ::
  "hash_fun \<Rightarrow> collector_policy \<Rightarrow> int \<Rightarrow> finalized_earnings option \<Rightarrow> collector_journal \<Rightarrow> collector_journal collected" where
  "record_earning H p block earned j =
     and_then (bind_int block) (\<lambda>_.
     case find (\<lambda>e. er_block e = block) (cj_earnings j) of
       Some previous \<Rightarrow> and_then (need (earned = Some (er_earned previous)) ''previously proved earning changed'') (\<lambda>_. Inr j)
     | None \<Rightarrow> (case earned of
         None \<Rightarrow> Inr j
       | Some e \<Rightarrow> and_then (need (bounded (fz_amount_rao e)) ''invalid finalized emission'') (\<lambda>_.
           Inr (add_event (Emission_Attributed block (collector_digest H p) e)
             (j\<lparr>cj_earnings := cj_earnings j @ [\<lparr>er_block = block, er_earned = e, er_completed = False\<rparr>]\<rparr>)))))"

fun scan_blocks ::
  "hash_fun \<Rightarrow> collector_policy \<Rightarrow> collector_chain \<Rightarrow> int list \<Rightarrow> collector_journal \<Rightarrow> collector_journal collected" where
  "scan_blocks H p chain [] j = Inr j"
| "scan_blocks H p chain (block # blocks) j =
     and_then (ch_earnings chain block) (\<lambda>earned.
     and_then (record_earning H p block earned j) (\<lambda>j1.
     scan_blocks H p chain blocks (j1\<lparr>cj_cursor := block\<rparr>)))"

definition scan_finalized_earnings ::
  "hash_fun \<Rightarrow> collector_policy \<Rightarrow> collector_chain \<Rightarrow> int \<Rightarrow> int \<Rightarrow> collector_journal \<Rightarrow> collector_journal collected" where
  "scan_finalized_earnings H p chain finalized max_blocks j =
     scan_blocks H p chain [cj_cursor j + 1..min finalized (cj_cursor j + max_blocks)] j"

definition observe_earnings ::
  "hash_fun \<Rightarrow> collector_policy \<Rightarrow> collector_chain \<Rightarrow> int \<Rightarrow> collector_journal \<Rightarrow> (collector_journal \<times> string) collected" where
  "observe_earnings H p chain max_blocks j =
     and_then (need (1 \<le> max_blocks \<and> max_blocks \<le> 32) ''receipt chunk must be between one and 32 blocks'') (\<lambda>_.
     if \<not> kp_enabled p then Inr (j, ''disabled'') else
     and_then (require_pin H p ''transfer'' ''earnings scan requires pinned transfer journal'' j) (\<lambda>_.
     and_then (ch_observe chain 0 ''transfer'') (\<lambda>observed.
     and_then (scan_finalized_earnings H p chain (ov_block observed) max_blocks j) (\<lambda>j1. Inr (j1, ''observed'')))))"

definition observe_earning_source ::
  "hash_fun \<Rightarrow> signature_verifier \<Rightarrow> collector_policy \<Rightarrow> collector_chain \<Rightarrow> int \<Rightarrow> collector_journal \<Rightarrow> collector_journal collected" where
  "observe_earning_source H V p chain block j =
     and_then (need (cj_pin j = Some (collector_digest H p, ''transfer'')) ''source proof requires pinned transfer journal'') (\<lambda>_.
     case ch_manual_approval chain of
       None \<Rightarrow> Inl (Stored (Raised (ValueError ''recent source proof requires active manual approval'')))
     | Some approval \<Rightarrow>
       and_then (need (kp_enabled p) ''recent source proof requires active manual approval'') (\<lambda>_.
       and_then (verify_limit H V approval (collector_digest H p) (kp_collector_coldkey p)) (\<lambda>_.
       and_then (ch_observe chain 0 ''transfer'') (\<lambda>observed.
       and_then (need (kp_start_block p \<le> block \<and> block \<le> ov_block observed - kp_distribution_interval_blocks p)
         ''candidate source is not mature'') (\<lambda>_.
       and_then (ch_earnings chain block) (\<lambda>earned.
       and_then (record_earning H p block earned j) (\<lambda>j1.
       Inr (add_event (Manual_Source_Probed (collector_digest H p) block) j1))))))))"

subsection \<open>Arming a manual intent\<close>

text \<open>The last operation is finalized, and the chain proves it again, exactly as recorded.\<close>

definition exact_finality :: "settlement \<Rightarrow> operation_row \<Rightarrow> unit collected" where
  "exact_finality proof row =
     and_then (present (op_settlement row)) (\<lambda>saved.
     need (sl_status proof = ''finalized'' \<and> nonnegative_index proof
         \<and> sl_block proof = sl_block saved \<and> sl_block_hash proof = sl_block_hash saved
         \<and> sl_extrinsic_index proof = sl_extrinsic_index saved \<and> sl_extrinsic_hash proof = sl_extrinsic_hash saved
         \<and> sl_extrinsic_hash proof = Some (sg_extrinsic_hash (op_signed row)))
       ''prior claim lacks exact independently finalized proof'')"

definition arm_event :: "hash_fun \<Rightarrow> collector_policy \<Rightarrow> manual_transfer \<Rightarrow> bool \<Rightarrow> collector_journal \<Rightarrow> collector_journal \<times> string" where
  "arm_event H p r recorded j =
     (if recorded then (add_event (Manual_Transfer_Armed (collector_digest H p) r) j, ''armed'') else (j, ''ready_not_armed''))"

definition check_single_source ::
  "hash_fun \<Rightarrow> signature_verifier \<Rightarrow> collector_policy \<Rightarrow> collector_chain \<Rightarrow> manual_transfer \<Rightarrow> chain_observation \<Rightarrow> collector_journal \<Rightarrow> unit collected" where
  "check_single_source H V p chain r observed j =
     and_then (need (kp_start_block p \<le> mq_source_block r \<and> mq_source_block r + kp_distribution_interval_blocks p \<le> ov_block observed)
       ''manual source is not mature approved earnings'') (\<lambda>_.
     and_then (intend (mq_amount_rao r + mq_retained_alpha_rao r \<le> ov_alpha_rao observed) ''manual request would consume retained stake'') (\<lambda>_.
     case open_earning j (mq_source_block r) of
       None \<Rightarrow> Inl (Stored (Raised (ValueError ''manual source receipt absent or exceeds signed batch'')))
     | Some row \<Rightarrow>
       and_then (need (fz_amount_rao (er_earned row) \<le> kp_max_distribution_rao p) ''manual source receipt absent or exceeds signed batch'') (\<lambda>_.
       and_then (ch_earnings chain (mq_source_block r)) (\<lambda>earned.
       and_then (need (earned = Some (er_earned row)) ''manual source receipt changed'') (\<lambda>_.
       and_then (canary_replacement H V j p) (\<lambda>replacement.
       and_then (receipt_parts p (fz_amount_rao (er_earned row))) (\<lambda>split.
       and_then (source_operations j (mq_source_block r) (excluded_id replacement)) (\<lambda>operations.
       and_then (remaining_distribution split operations) (\<lambda>remaining.
       intend (list_ex (\<lambda>d. dn_bucket_id d = mq_bucket_id r \<and> mq_amount_rao r \<le> dn_alpha_rao d) remaining)
         ''manual amount exceeds remaining exact bucket entitlement'')))))))))"

definition arm_manual_transfer ::
  "hash_fun \<Rightarrow> signature_verifier \<Rightarrow> collector_policy \<Rightarrow> collector_chain \<Rightarrow> manual_transfer \<Rightarrow> bool \<Rightarrow> collector_journal
     \<Rightarrow> (collector_journal \<times> string) collected" where
  "arm_manual_transfer H V p chain r recorded j =
     and_then (intend (kp_enabled p) ''manual request requires enabled signed policy'') (\<lambda>_.
     and_then (manual_maximum H V p r None) (\<lambda>limit.
     and_then (intend (mq_amount_rao r \<le> limit) ''manual request requires enabled signed policy'') (\<lambda>_.
     and_then (intend (mq_request_id r \<notin> expired_ids j) ''expired unsigned request cannot be rearmed'') (\<lambda>_.
     and_then (require_pin H p ''transfer'' ''manual request requires pinned transfer journal'' j) (\<lambda>_.
     and_then (manual_transfer_history H V j p) (\<lambda>history.
     case find (\<lambda>q. mq_request_id q = mq_request_id r) history of
       Some q \<Rightarrow> and_then (intend (q = r) ''manual idempotency key changed'') (\<lambda>_. Inr (j, ''already_armed''))
     | None \<Rightarrow>
       and_then (transfer_canary H V j p ''transfer'' None) (\<lambda>(j1, existing).
       case existing of
         None \<Rightarrow> Inl (Stored (Raised (ValueError ''manual request requires a reconciled canary'')))
       | Some c \<Rightarrow>
         and_then (intend (max_id j1 = mq_after_operation r) ''manual request requires current exact operation'') (\<lambda>_.
         and_then (need (max_id j1 = tc_after_operation c + 1) ''manual request requires exact spent canary/current claim'') (\<lambda>_.
         and_then (present (row_at (cj_operations j1) (max_id j1))) (\<lambda>row.
         and_then (need (op_state row = ''finalized'' \<and> op_role row = ''transfer'') ''prior claim must be finalized, not unknown/failed/expired'') (\<lambda>_.
         and_then (ch_observe chain 0 ''transfer'') (\<lambda>observed.
         and_then (ch_reconcile chain (max_id j1, row) observed) (\<lambda>proof.
         and_then (exact_finality proof row) (\<lambda>_.
         and_then (intend (ov_block observed < mq_expires_block r \<and> mq_expires_block r \<le> ov_block observed + 7200)
           ''manual request expiry must be within one bounded day'') (\<lambda>_.
         and_then (intend (allocated_bucket p (mq_bucket_id r)) ''manual request bucket is not allocated'') (\<lambda>_.
         case mq_batch r of
           Some batch \<Rightarrow> and_then (validate_batch H V j1 p chain r batch observed) (\<lambda>_. Inr (arm_event H p r recorded j1))
         | None \<Rightarrow> and_then (check_single_source H V p chain r observed j1) (\<lambda>_. Inr (arm_event H p r recorded j1))))))))))))))))))"

definition expire_unsigned_manual ::
  "hash_fun \<Rightarrow> signature_verifier \<Rightarrow> collector_policy \<Rightarrow> collector_chain \<Rightarrow> string \<Rightarrow> string \<Rightarrow> collector_journal
     \<Rightarrow> (collector_journal \<times> unsigned_expiry) collected" where
  "expire_unsigned_manual H V p chain request_id reason j =
     and_then (need (bounded_reason reason) ''bounded operator recovery reason required'') (\<lambda>_.
     and_then (need (cj_pin j = Some (collector_digest H p, ''transfer'')) ''recovery requires current pinned transfer journal'') (\<lambda>_.
     and_then (manual_transfer_history H V j p) (\<lambda>history.
     and_then (need (history \<noteq> [] \<and> mq_request_id (last history) = request_id) ''recovery requires exact latest armed request'') (\<lambda>_.
     case find (\<lambda>(_, _, q). mq_request_id q = request_id) (armed_rows j) of
       None \<Rightarrow> Inl (Stored (Raised (ValueError ''recovery cannot cross a policy migration'')))
     | Some (armed_id, digest, _) \<Rightarrow> (let r = last history; message = ''signed or unresolved claim requires chain reconciliation'' in
       and_then (need (digest = collector_digest H p) ''recovery cannot cross a policy migration'') (\<lambda>_.
       and_then (need (max_id j = mq_after_operation r
           \<and> (case row_at (cj_operations j) (max_id j) of None \<Rightarrow> False | Some o1 \<Rightarrow> op_role o1 = ''transfer'' \<and> op_state o1 = ''finalized'')
           \<and> \<not> list_ex (\<lambda>(i, e). armed_id < i \<and> is_dispatch_reserved e) (numbered (cj_events j))) message) (\<lambda>_.
       and_then (ch_observe chain 0 ''transfer'') (\<lambda>observed.
       and_then (need (mq_expires_block r \<le> ov_block observed) ''request has not reached finalized expiry'') (\<lambda>_.
       (let closure = \<lparr>ue_policy = collector_digest H p, ue_request_id = request_id, ue_request_digest = request_digest H r,
              ue_after_operation = max_id j, ue_finalized_block = ov_block observed, ue_finalized_block_hash = ov_block_hash observed,
              ue_reason = strip reason\<rparr>;
            j1 = add_event (Manual_Unsigned_Expired closure) j in
        and_then (manual_transfer_history H V j1 p) (\<lambda>_. Inr (j1, closure))))))))))))"

subsection \<open>Replacing a failed canary\<close>

definition replace_failed_canary ::
  "hash_fun \<Rightarrow> signature_verifier \<Rightarrow> collector_policy \<Rightarrow> collector_chain \<Rightarrow> canary \<Rightarrow> string \<Rightarrow> collector_journal
     \<Rightarrow> collector_journal collected" where
  "replace_failed_canary H V p chain requested reason j =
     and_then (need (kp_enabled p \<and> bounded_reason reason) ''enabled policy and bounded operator reason required'') (\<lambda>_.
     and_then (require_pin H p ''transfer'' ''replacement requires pinned transfer journal'' j) (\<lambda>_.
     and_then (canary_replacement H V j p) (\<lambda>replacement.
     and_then (need (replacement = None) ''canary already replaced'') (\<lambda>_.
     and_then (transfer_canary H V j p ''transfer'' None) (\<lambda>(j1, existing).
     (let message = ''replacement requires exactly one spent canary within signed ceiling'' in
      case existing of None \<Rightarrow> Inl (Stored (Raised (ValueError message)))
      | Some c \<Rightarrow>
        and_then (need (tc_after_operation requested = max_id j1 \<and> max_id j1 = tc_after_operation c + 1
            \<and> tc_max_alpha_rao requested \<le> kp_max_distribution_rao p) message) (\<lambda>_.
        and_then (present (row_at (cj_operations j1) (max_id j1))) (\<lambda>row.
        and_then (need (op_state row = ''failed'' \<and> op_role row = ''transfer'') ''replacement requires failed transfer, not unknown or paid'') (\<lambda>_.
        and_then (ch_retryable_transfer_failure chain (max_id j1, row)) (\<lambda>proof.
        and_then (present (op_settlement row)) (\<lambda>saved.
        and_then (need (sl_status proof = ''failed'' \<and> sl_block proof = sl_block saved \<and> sl_block_hash proof = sl_block_hash saved
            \<and> sl_extrinsic_hash proof = Some (sg_extrinsic_hash (op_signed row)) \<and> nonnegative_index proof)
          ''replacement lacks exact finalized failure proof'') (\<lambda>_.
        case find (\<lambda>e. Some (er_block e) = op_source_block row) (cj_earnings j1) of
          None \<Rightarrow> Inl (Stored (Raised (ValueError ''replacement requires untouched same-source receipt'')))
        | Some e \<Rightarrow>
          and_then (need (\<not> er_completed e \<and> length (filter (\<lambda>o1. op_source_block o1 = Some (er_block e)) (cj_operations j1)) = 1)
            ''replacement requires untouched same-source receipt'') (\<lambda>_.
          and_then (ch_earnings chain (er_block e)) (\<lambda>earned.
          and_then (need (earned = Some (er_earned e)) ''replacement earnings changed or unavailable'') (\<lambda>_.
          Inr (add_event (Transfer_Canary_Replaced \<lparr>cr_policy = collector_digest H p, cr_canary = requested, cr_source_block = er_block e,
            cr_proof = proof, cr_reason = strip reason\<rparr>) j1))))))))))))))))"

subsection \<open>The readiness report\<close>

record manual_readiness =
  mr_policy :: string
  mr_after_operation :: int
  mr_previous_state :: "string option"
  mr_unsigned_intent :: "(string \<times> int \<times> int) option"
  mr_bounded_claim_available :: bool
  mr_finalized_block :: int
  mr_available_alpha_rao :: int
  mr_transfer_delegate :: string
  mr_delegate_free_rao :: int
  mr_required_delegate_free_rao :: int
  mr_max_distribution_rao :: int
  mr_sources :: "(int \<times> service_distribution list) list"
  mr_manual_approval :: "limit_approval option"

definition mature :: "collector_policy \<Rightarrow> chain_observation \<Rightarrow> earning_row \<Rightarrow> bool" where
  "mature p observed e \<longleftrightarrow> \<not> er_completed e \<and> er_block e + kp_distribution_interval_blocks p \<le> ov_block observed"

text \<open>The loop over mature receipts, which stops once \<open>limit\<close> sources are listed.\<close>

fun ready_sources ::
  "hash_fun \<Rightarrow> signature_verifier \<Rightarrow> collector_policy \<Rightarrow> collector_journal \<Rightarrow> bool \<Rightarrow> nat \<Rightarrow> earning_row list
     \<Rightarrow> (int \<times> service_distribution list) list collected" where
  "ready_sources H V p j manual limit [] = Inr []"
| "ready_sources H V p j manual limit (row # rows) =
     (if \<not> manual \<and> kp_max_distribution_rao p < fz_amount_rao (er_earned row) then ready_sources H V p j manual limit rows
      else and_then (remaining_source H V j p row manual) (\<lambda>remaining.
        if remaining = [] then ready_sources H V p j manual limit rows
        else if limit \<le> 1 then Inr [(er_block row, remaining)]
        else and_then (ready_sources H V p j manual (limit - 1) rows) (\<lambda>sources. Inr ((er_block row, remaining) # sources))))"

definition manual_transfer_readiness ::
  "hash_fun \<Rightarrow> signature_verifier \<Rightarrow> collector_policy \<Rightarrow> collector_chain \<Rightarrow> collector_journal \<Rightarrow> manual_readiness collected" where
  "manual_transfer_readiness H V p chain j =
     and_then (require_pin H p ''transfer'' ''manual readiness requires pinned transfer journal'' j) (\<lambda>_.
     and_then (transfer_canary H V j p ''transfer'' None) (\<lambda>(j1, bound).
     and_then (ch_observe chain 0 ''transfer'') (\<lambda>observed.
     and_then (manual_transfer_history H V j1 p) (\<lambda>history.
     and_then (case ch_manual_approval chain of None \<Rightarrow> Inr ()
        | Some a \<Rightarrow> and_then (verify_limit H V a (collector_digest H p) (kp_collector_coldkey p)) (\<lambda>_. Inr ())) (\<lambda>_.
     and_then (bind_int (ov_block observed)) (\<lambda>_.
     (let manual = ch_manual_approval chain \<noteq> None; maximum = max_id j1;
          previous = map_option op_state (row_at (cj_operations j1) maximum) in
      and_then (ready_sources H V p j1 manual (if manual then 512 else 100)
          (sort_key er_block (filter (mature p observed) (cj_earnings j1)))) (\<lambda>sources.
      Inr \<lparr>mr_policy = collector_digest H p, mr_after_operation = maximum, mr_previous_state = previous,
        mr_unsigned_intent = (if history \<noteq> [] \<and> maximum = mq_after_operation (last history)
          then Some (mq_request_id (last history), mq_after_operation (last history), mq_expires_block (last history)) else None),
        mr_bounded_claim_available = (case bound of None \<Rightarrow> False
          | Some c \<Rightarrow> maximum = tc_after_operation c + 1 \<and> previous = Some ''finalized''),
        mr_finalized_block = ov_block observed, mr_available_alpha_rao = ov_alpha_rao observed,
        mr_transfer_delegate = kp_transfer_delegate p, mr_delegate_free_rao = ov_delegate_free_rao observed,
        mr_required_delegate_free_rao = kp_max_fee_rao p + kp_fee_reserve_rao p,
        mr_max_distribution_rao = kp_max_distribution_rao p, mr_sources = sources,
        mr_manual_approval = ch_manual_approval chain\<rparr>))))))))"

subsection \<open>One tick\<close>

text \<open>What a tick decided before signing: it is over with a status, or it reserves a claim.\<close>

record claim =
  cl_amount :: int
  cl_bucket :: "string option"
  cl_destination :: "string option"
  cl_source_block :: "int option"
  cl_call :: chain_call
  cl_observed :: chain_observation

datatype tick_step = Over collector_journal string | Reserve collector_journal claim

definition set_operation :: "int \<Rightarrow> (operation_row \<Rightarrow> operation_row) \<Rightarrow> collector_journal \<Rightarrow> collector_journal" where
  "set_operation i f j = j\<lparr>cj_operations := (cj_operations j)[nat (i - 1) := f (cj_operations j ! nat (i - 1))]\<rparr>"

definition pending_operation :: "collector_journal \<Rightarrow> (int \<times> operation_row) option" where
  "pending_operation j = find (\<lambda>(_, o1). op_state o1 = ''dispatching'') (numbered (cj_operations j))"

definition tick_pending ::
  "collector_chain \<Rightarrow> chain_observation \<Rightarrow> int \<times> operation_row \<Rightarrow> collector_journal \<Rightarrow> tick_step collected" where
  "tick_pending chain observed pending j =
     and_then (ch_reconcile chain pending observed) (\<lambda>result.
     and_then (need (sl_status result \<in> {''finalized'', ''failed'', ''expired'', ''pending''}) ''invalid settlement'') (\<lambda>_.
     if sl_status result = ''pending'' then
       (case sl_scanned_through result of
          None \<Rightarrow> Inr (Over j ''pending'')
        | Some n \<Rightarrow>
          and_then (need (op_reconciled_through (snd pending) \<le> n \<and> n \<le> ov_block observed) ''invalid reconciliation progress'') (\<lambda>_.
          and_then (bind_int n) (\<lambda>_.
          Inr (Over (set_operation (fst pending) (\<lambda>o1. o1\<lparr>op_reconciled_through := n\<rparr>) j) ''pending''))))
     else (let j1 = add_event (Settled (fst pending) result)
              (set_operation (fst pending) (\<lambda>o1. o1\<lparr>op_state := sl_status result, op_settlement := Some result\<rparr>) j) in
       if op_role (snd pending) = ''registration'' \<and> sl_status result = ''finalized''
       then and_then (need (sl_uid result \<noteq> None) ''registration receipt lacks finalized UID binding'') (\<lambda>_.
         Inr (Over (add_event (Collector_Uid_Rebound result) j1) (sl_status result)))
       else Inr (Over j1 (sl_status result)))))"

definition max_at_block :: "operation_row list \<Rightarrow> int option" where
  "max_at_block rows = (if rows = [] then None else Some (Max (set (map op_at_block rows))))"

definition sooner :: "int option \<Rightarrow> int \<Rightarrow> int \<Rightarrow> bool" where
  "sooner since head limit \<longleftrightarrow> (case since of None \<Rightarrow> False | Some b \<Rightarrow> head - b < limit)"

definition tick_registration :: "collector_policy \<Rightarrow> chain_observation \<Rightarrow> collector_journal \<Rightarrow> tick_step collected" where
  "tick_registration p observed j =
     (if ov_uid observed \<noteq> None then Inr (Over j ''registered'')
      else if sooner (max_at_block (cj_operations j)) (ov_block observed) (kp_recovery_cooldown_blocks p) then Inr (Over j ''cooldown'')
      else and_then (of_store (sql_sum (map op_amount (cj_operations j)))) (\<lambda>spent.
        (let amount = kp_max_registration_burn_rao p in
         and_then (need (ov_burn_rao observed \<le> amount \<and> amount + kp_max_fee_rao p + spent \<le> kp_registration_budget_rao p)
           ''registration burn or lifetime budget exceeded'') (\<lambda>_.
         and_then (need (amount + kp_fee_reserve_rao p \<le> ov_collector_free_rao observed) ''collector registration reserve insufficient'') (\<lambda>_.
         Inr (Reserve j \<lparr>cl_amount = amount, cl_bucket = None, cl_destination = None, cl_source_block = None,
           cl_call = Register_Limit (kp_collector_hotkey p) amount, cl_observed = observed\<rparr>))))))"

definition transfer_claim :: "collector_policy \<Rightarrow> int \<Rightarrow> string \<Rightarrow> string \<Rightarrow> int \<Rightarrow> chain_observation \<Rightarrow> claim" where
  "transfer_claim p amount bucket destination source observed =
     \<lparr>cl_amount = amount, cl_bucket = Some bucket, cl_destination = Some destination, cl_source_block = Some source,
      cl_call = Transfer_Stake destination (kp_collector_hotkey p) amount, cl_observed = observed\<rparr>"

text \<open>A batch intent: its sources are proved, then the head is observed again.\<close>

definition tick_batch ::
  "hash_fun \<Rightarrow> signature_verifier \<Rightarrow> collector_policy \<Rightarrow> collector_chain \<Rightarrow> string option \<Rightarrow> manual_transfer
     \<Rightarrow> source_claim list \<times> limit_approval \<Rightarrow> chain_observation \<Rightarrow> collector_journal \<Rightarrow> tick_step collected" where
  "tick_batch H V p chain request_id intent batch observed j =
     (if request_id = None then Inr (Over j ''manual_ready'')
      else if mq_expires_block intent < ov_block observed + 128 then Inr (Over j ''manual_expired'')
      else and_then (validate_batch H V j p chain intent batch observed) (\<lambda>destination.
        and_then (ch_observe chain 1 ''transfer'') (\<lambda>again.
        and_then (need (ov_uid again \<noteq> None) ''collector absent after source verification'') (\<lambda>_.
        if mq_expires_block intent < ov_block again + 128 then Inr (Over j ''manual_expired'')
        else and_then (need (mq_amount_rao intent + mq_retained_alpha_rao intent \<le> ov_alpha_rao again)
            ''manual retained stake changed during source proof'') (\<lambda>_.
          Inr (Reserve j (transfer_claim p (mq_amount_rao intent) (mq_bucket_id intent) destination (mq_source_block intent) again)))))))"

text \<open>The receipt of this tick: the source of the intent or of the replacement, else the oldest mature one that no open or
  unresolved operation names.\<close>

definition select_receipt ::
  "collector_policy \<Rightarrow> chain_observation \<Rightarrow> manual_transfer option \<Rightarrow> canary_replaced option \<Rightarrow> collector_journal \<Rightarrow> earning_row option collected" where
  "select_receipt p observed intent replacement j =
     (let selected = (case intent of Some r \<Rightarrow> Some (mq_source_block r) | None \<Rightarrow> map_option cr_source_block replacement) in
      case selected of
        Some block \<Rightarrow> (case find (\<lambda>e. er_block e = block \<and> mature p observed e) (cj_earnings j) of
            None \<Rightarrow> Inl (Stored (Raised (ValueError ''replacement same-source receipt unavailable'')))
          | Some e \<Rightarrow> Inr (Some e))
      | None \<Rightarrow> Inr (case sort_key er_block (filter (\<lambda>e. mature p observed e
            \<and> \<not> list_ex (\<lambda>o1. op_source_block o1 = Some (er_block e) \<and> op_state o1 \<in> {''dispatching'', ''failed'', ''expired''}) (cj_operations j))
            (cj_earnings j)) of [] \<Rightarrow> None | e # _ \<Rightarrow> Some e))"

definition complete_receipt :: "earning_row \<Rightarrow> collector_journal \<Rightarrow> collector_journal" where
  "complete_receipt row j = add_event (Distribution_Complete (er_block row) (fz_amount_rao (er_earned row)))
     (j\<lparr>cj_earnings := map (\<lambda>e. if er_block e = er_block row then e\<lparr>er_completed := True\<rparr> else e) (cj_earnings j)\<rparr>)"

definition canary_event :: "earning_row \<Rightarrow> service_distribution \<Rightarrow> service_distribution list \<Rightarrow> int \<Rightarrow> collector_event" where
  "canary_event row part remaining amount = Canary_Receipt_Reserved
     \<lparr>rr_source_block = er_block row, rr_source_hash = fz_block_hash (er_earned row), rr_source_event_digest = fz_event_digest (er_earned row),
      rr_source_amount = fz_amount_rao (er_earned row), rr_bucket = dn_bucket_id part, rr_bucket_remaining_before = dn_alpha_rao part,
      rr_canary_amount = amount, rr_receipt_remaining_after = sum_list (map dn_alpha_rao remaining) - amount\<rparr>"

text \<open>Distributing one leg of a receipt.\<close>

definition tick_leg ::
  "collector_policy \<Rightarrow> chain_observation \<Rightarrow> canary option \<Rightarrow> manual_transfer option \<Rightarrow> earning_row \<Rightarrow> service_distribution list
     \<Rightarrow> collector_journal \<Rightarrow> tick_step collected" where
  "tick_leg p observed canary intent row remaining j =
     and_then (need (sum_list (map dn_alpha_rao remaining) \<le> ov_alpha_rao observed) ''remaining attributed earnings exceed finalized stake'') (\<lambda>_.
     case find (\<lambda>d. case intent of None \<Rightarrow> True | Some r \<Rightarrow> dn_bucket_id d = mq_bucket_id r) remaining of
       None \<Rightarrow> and_then (need (intent = None) ''manual amount exceeds exact remaining bucket entitlement'') (\<lambda>_.
         Inr (Over (complete_receipt row j) ''distributed''))
     | Some part \<Rightarrow>
       and_then (need (case intent of None \<Rightarrow> True | Some r \<Rightarrow> mq_amount_rao r \<le> dn_alpha_rao part)
         ''manual amount exceeds exact remaining bucket entitlement'') (\<lambda>_.
       (let capped = (case canary of None \<Rightarrow> dn_alpha_rao part | Some c \<Rightarrow> min (dn_alpha_rao part) (tc_max_alpha_rao c));
            amount = (case intent of None \<Rightarrow> capped | Some r \<Rightarrow> mq_amount_rao r) in
        and_then (need (case intent of None \<Rightarrow> True | Some r \<Rightarrow> mq_retained_alpha_rao r \<le> ov_alpha_rao observed - amount)
          ''manual retained stake floor changed'') (\<lambda>_.
        Inr (Reserve (if canary = None then j else add_event (canary_event row part remaining amount) j)
          (transfer_claim p amount (dn_bucket_id part) (dn_holding_coldkey part) (er_block row) observed))))))"

definition tick_receipt ::
  "hash_fun \<Rightarrow> signature_verifier \<Rightarrow> collector_policy \<Rightarrow> collector_chain \<Rightarrow> string option \<Rightarrow> canary option
     \<Rightarrow> manual_transfer option \<Rightarrow> chain_observation \<Rightarrow> collector_journal \<Rightarrow> tick_step collected" where
  "tick_receipt H V p chain request_id canary intent observed j =
     and_then (canary_replacement H V j p) (\<lambda>replacement.
     if intent \<noteq> None \<and> request_id = None then Inr (Over j ''manual_ready'')
     else if (case intent of None \<Rightarrow> False | Some r \<Rightarrow> mq_expires_block r < ov_block observed + 128) then Inr (Over j ''manual_expired'')
     else and_then (bind_int (ov_block observed)) (\<lambda>_.
       and_then (select_receipt p observed intent replacement j) (\<lambda>selected.
       case selected of
         None \<Rightarrow> and_then (scan_finalized_earnings H p chain (ov_block observed) 32 j) (\<lambda>j1. Inr (Over j1 ''observing''))
       | Some row \<Rightarrow>
         if sooner (max_at_block (filter (\<lambda>o1. op_source_block o1 \<noteq> None \<and> op_source_block o1 \<noteq> Some (er_block row)) (cj_operations j)))
             (ov_block observed) (kp_distribution_interval_blocks p)
         then Inr (Over j ''interval'')
         else and_then (need (fz_amount_rao (er_earned row) \<le> kp_max_distribution_rao p)
             ''distribution ceiling exceeded; no partial unreviewed split'') (\<lambda>_.
           and_then (receipt_parts p (fz_amount_rao (er_earned row))) (\<lambda>parts.
           and_then (source_operations j (er_block row) (excluded_id replacement)) (\<lambda>operations.
           and_then (remaining_distribution parts operations) (\<lambda>remaining.
           tick_leg p observed canary intent row remaining j)))))))"

definition tick_transfer ::
  "hash_fun \<Rightarrow> signature_verifier \<Rightarrow> collector_policy \<Rightarrow> collector_chain \<Rightarrow> string option \<Rightarrow> canary option
     \<Rightarrow> manual_transfer list \<Rightarrow> chain_observation \<Rightarrow> collector_journal \<Rightarrow> tick_step collected" where
  "tick_transfer H V p chain request_id canary manual observed j =
     and_then (need (ov_uid observed \<noteq> None) ''collector absent; service transfers halted'') (\<lambda>_.
     case (if manual = [] then None else mq_batch (last manual)) of
       Some batch \<Rightarrow> tick_batch H V p chain request_id (last manual) batch observed j
     | None \<Rightarrow> tick_receipt H V p chain request_id canary (if manual = [] then None else Some (last manual)) observed j)"

text \<open>Signing and reserving the claim; the bytes that are broadcast once the transaction committed.\<close>

definition reserve ::
  "hash_fun \<Rightarrow> collector_policy \<Rightarrow> collector_chain \<Rightarrow> string \<Rightarrow> manual_transfer list \<Rightarrow> claim \<Rightarrow> collector_journal
     \<Rightarrow> (collector_journal \<times> string) collected" where
  "reserve H p chain role manual c j = (let observed = cl_observed c in
     and_then (need (kp_max_fee_rao p + kp_fee_reserve_rao p \<le> ov_delegate_free_rao observed) ''delegate fee reserve insufficient'') (\<lambda>_.
     and_then (if manual \<noteq> [] \<and> mq_batch (last manual) \<noteq> None then ch_prepare_manual chain (cl_call c) observed (last manual)
               else ch_prepare chain role (cl_call c) observed) (\<lambda>signed.
     and_then (need (0 \<le> sg_fee_rao signed \<and> sg_fee_rao signed \<le> kp_max_fee_rao p) ''quoted fee exceeds ceiling'') (\<lambda>_.
     and_then (need (sg_start_block signed = ov_block observed \<and> ov_block observed < sg_expires_block signed
         \<and> sg_expires_block signed \<le> ov_block observed + 128) ''invalid transaction mortality'') (\<lambda>_.
     and_then (bind_int (ov_block observed)) (\<lambda>_.
     Inr (add_event (Dispatch_Reserved (sg_extrinsic_hash signed) (collector_digest H p) role)
       (j\<lparr>cj_operations := cj_operations j @ [\<lparr>op_state = ''dispatching'', op_role = role,
           op_amount = (if role = ''registration'' then cl_amount c + kp_max_fee_rao p else cl_amount c),
           op_source_block = cl_source_block c, op_bucket = cl_bucket c, op_destination = cl_destination c, op_call = cl_call c,
           op_signed = signed, op_at_block = ov_block observed, op_settlement = None, op_reconciled_through = 0\<rparr>]\<rparr>), sg_encoded signed)))))))"

text \<open>\<^verbatim>\<open>tick\<close>: the new tables, the status and what is handed to \<^verbatim>\<open>chain.broadcast\<close> after the commit.\<close>

definition tick ::
  "hash_fun \<Rightarrow> signature_verifier \<Rightarrow> collector_policy \<Rightarrow> collector_chain \<Rightarrow> string \<Rightarrow> canary option \<Rightarrow> string option
     \<Rightarrow> collector_journal \<Rightarrow> (collector_journal \<times> string \<times> string option) collected" where
  "tick H V p chain role canary request_id j =
     (if \<not> kp_enabled p then Inr (j, ''disabled'', None) else
      and_then (require_pin H p role ''policy or role changed'' j) (\<lambda>_.
      and_then (transfer_canary H V j p role canary) (\<lambda>(j1, bound).
      and_then (manual_transfer_history H V j1 p) (\<lambda>manual.
      and_then (if request_id \<noteq> None \<and> (manual = [] \<or> Some (mq_request_id (last manual)) \<noteq> request_id)
          then Inl (ManualIntentChanged ''manual execute request differs from current exact intent'') else Inr ()) (\<lambda>_.
      if (case bound of None \<Rightarrow> False | Some c \<Rightarrow>
            list_ex (\<lambda>(i, o1). tc_after_operation c < i \<and> op_state o1 \<noteq> ''dispatching'') (numbered (cj_operations j1)))
      then Inr (j1, ''canary_spent'', None)
      else and_then (ch_observe chain 0 role) (\<lambda>observed.
        and_then (case pending_operation j1 of
            Some pending \<Rightarrow> tick_pending chain observed pending j1
          | None \<Rightarrow> if role = ''registration'' then tick_registration p observed j1
                    else tick_transfer H V p chain request_id bound manual observed j1) (\<lambda>step.
        case step of
          Over j2 status \<Rightarrow> Inr (j2, status, None)
        | Reserve j2 c \<Rightarrow> and_then (reserve H p chain role manual c j2) (\<lambda>(j3, encoded). Inr (j3, ''dispatching'', Some encoded)))))))))"

end
