(* ===== verification/Collector_Ledger.thy ===== *)
theory Collector_Ledger
  imports Collector_Tick
begin

section \<open>Receipts and what was drawn from them\<close>

text \<open>
  The accounting behind the collector: the operations of a journal, the open intents and the receipts as plain lists, what each
  operation draws from which receipt, and \<open>conserved\<close>, that no bucket of a receipt is drawn beyond its entitlement by operations that
  were paid or may still be. The lemmas say which changes of the lists keep it.
\<close>

subsection \<open>Numbered rows\<close>

lemma length_numbered [simp]: "length (numbered xs) = length xs"
  by (simp add: numbered_def del: upt_Suc)

lemma nth_numbered: "k < length xs \<Longrightarrow> numbered xs ! k = (int k + 1, xs ! k)"
  by (simp add: numbered_def add.commute del: upt_Suc)

lemma numbered_snoc: "numbered (xs @ [x]) = numbered xs @ [(int (length xs) + 1, x)]"
  by (rule nth_equalityI) (auto simp: nth_numbered nth_append less_Suc_eq)

lemma numbered_Nil [simp]: "numbered [] = []"
  by (simp add: numbered_def)

lemma in_numbered: "(i, x) \<in> set (numbered xs) \<longleftrightarrow> row_at xs i = Some x"
proof
  assume "(i, x) \<in> set (numbered xs)"
  then obtain k where "k < length xs" "numbered xs ! k = (i, x)" by (metis in_set_conv_nth length_numbered)
  then show "row_at xs i = Some x" by (auto simp: nth_numbered row_at_def)
next
  assume "row_at xs i = Some x"
  then have "nat (i - 1) < length xs" "numbered xs ! nat (i - 1) = (i, x)" by (auto simp: row_at_def nth_numbered split: if_splits)
  then show "(i, x) \<in> set (numbered xs)" by (metis nth_mem length_numbered)
qed

lemma sum_numbered: "sum_list (map f (numbered xs)) = (\<Sum>k<length xs. f (int k + 1, xs ! k))"
  by (simp add: sum_list_sum_nth nth_numbered atLeast0LessThan)

subsection \<open>What an operation draws\<close>

definition claim_map :: "manual_transfer list \<Rightarrow> (int, manual_transfer) dict" where
  "claim_map intents = map (\<lambda>r. (mq_after_operation r + 1, r)) (filter (\<lambda>r. mq_batch r \<noteq> None) intents)"

definition drawn :: "operation_row list \<Rightarrow> manual_transfer list \<Rightarrow> int \<Rightarrow> operation_row list" where
  "drawn ops intents block = concat (map (attributed (claim_map intents) block) (numbered ops))"

definition live_op :: "operation_row \<Rightarrow> bool" where
  "live_op o1 \<longleftrightarrow> op_state o1 = ''finalized'' \<or> op_state o1 = ''dispatching''"

definition live_sum :: "string \<Rightarrow> operation_row list \<Rightarrow> int" where
  "live_sum bucket rows = sum_list (map op_amount (filter (\<lambda>o1. live_op o1 \<and> op_bucket o1 = Some bucket) rows))"

definition entitlement :: "collector_policy \<Rightarrow> int \<Rightarrow> string \<Rightarrow> int" where
  "entitlement p amount bucket = (case receipt_parts p amount of
     Inl _ \<Rightarrow> 0
   | Inr parts \<Rightarrow> (case find (\<lambda>d. dn_bucket_id d = bucket) parts of None \<Rightarrow> 0 | Some d \<Rightarrow> dn_alpha_rao d))"

definition conserved :: "collector_policy \<Rightarrow> operation_row list \<Rightarrow> manual_transfer list \<Rightarrow> earning_row list \<Rightarrow> bool" where
  "conserved p ops intents earnings \<longleftrightarrow>
     distinct (map er_block earnings)
     \<and> (\<forall>block. drawn ops intents block \<noteq> [] \<longrightarrow> block \<in> er_block ` set earnings)
     \<and> (\<forall>e\<in>set earnings. \<forall>bucket. live_sum bucket (drawn ops intents (er_block e)) \<le> entitlement p (fz_amount_rao (er_earned e)) bucket)"

lemma live_sum_Nil [simp]: "live_sum b [] = 0"
  by (simp add: live_sum_def)

lemma live_sum_append [simp]: "live_sum b (xs @ ys) = live_sum b xs + live_sum b ys"
  by (simp add: live_sum_def)

lemma live_sum_concat: "live_sum b (concat xss) = sum_list (map (live_sum b) xss)"
  by (induction xss) auto

lemma drawn_sum: "live_sum b (drawn ops intents block) = (\<Sum>k<length ops. live_sum b (attributed (claim_map intents) block (int k + 1, ops ! k)))"
  by (simp add: drawn_def live_sum_concat comp_def sum_numbered [where f = "\<lambda>row. live_sum b (attributed (claim_map intents) block row)"])

lemma drawn_snoc: "drawn (ops @ [o1]) intents block = drawn ops intents block @ attributed (claim_map intents) block (int (length ops) + 1, o1)"
  by (simp add: drawn_def numbered_snoc)

lemma drawn_cong:
  assumes "\<And>i. 1 \<le> i \<Longrightarrow> i \<le> int (length ops) \<Longrightarrow> map_of (claim_map intents) i = map_of (claim_map intents') i"
  shows "drawn ops intents block = drawn ops intents' block"
proof -
  have "attributed (claim_map intents) block row = attributed (claim_map intents') block row" if "row \<in> set (numbered ops)" for row
  proof -
    obtain i o1 where row: "row = (i, o1)" by (cases row)
    then have "1 \<le> i" "i \<le> int (length ops)" using that by (auto simp: in_numbered row_at_def split: if_splits)
    then show ?thesis using assms row by (simp add: attributed_def)
  qed
  then have "map (attributed (claim_map intents) block) (numbered ops) = map (attributed (claim_map intents') block) (numbered ops)" by simp
  then show ?thesis by (simp only: drawn_def)
qed

lemma claim_map_miss: "i \<notin> (\<lambda>r. mq_after_operation r + 1) ` set intents \<Longrightarrow> map_of (claim_map intents) i = None"
  by (auto simp: claim_map_def map_of_eq_None_iff image_iff)

lemma claim_map_append: "claim_map (xs @ ys) = claim_map xs @ claim_map ys"
  by (simp add: claim_map_def)

lemma drawn_new_intent:
  assumes "mq_after_operation r = int (length ops)"
  shows "drawn ops (intents @ [r]) block = drawn ops intents block"
proof (rule drawn_cong)
  fix i assume "i \<le> int (length ops)"
  then have "map_of (claim_map [r]) i = None" using assms by (intro claim_map_miss) auto
  then show "map_of (claim_map (intents @ [r])) i = map_of (claim_map intents) i"
    by (simp add: claim_map_append map_add_def split: option.split)
qed

text \<open>The amount one operation draws from a receipt depends on its intent, or on its own source and amount.\<close>

definition draw :: "(int, manual_transfer) dict \<Rightarrow> int \<Rightarrow> int \<Rightarrow> operation_row \<Rightarrow> int" where
  "draw claims block i o1 = (case map_of claims i of
     Some r \<Rightarrow> sum_list (map sc_amount_rao (filter (\<lambda>c. sc_source_block c = block) (batch_sources r)))
   | None \<Rightarrow> if op_source_block o1 = Some block then op_amount o1 else 0)"

lemma live_attributed:
  "live_sum b (attributed claims block (i, o1)) = (if live_op o1 \<and> op_bucket o1 = Some b then draw claims block i o1 else 0)"
  by (auto simp: attributed_def draw_def live_sum_def live_op_def comp_def filter_map split: option.split)

definition sound_intents :: "manual_transfer list \<Rightarrow> bool" where
  "sound_intents intents \<longleftrightarrow> (\<forall>r\<in>set intents. check_manual r = Inr ())"

lemma sound_batch:
  assumes "check_manual r = Inr ()"
  shows "0 < mq_after_operation r" "0 < mq_amount_rao r" "\<forall>c\<in>set (batch_sources r). 0 < sc_amount_rao c"
    "distinct (map sc_source_block (batch_sources r))"
  using assms by (auto simp: check_manual_def and_then_Inr bounded_def batch_sources_def check_batch_request_def list_all_iff positive53_def
      strict_sorted_iff split: option.splits)

lemma draw_nonneg:
  assumes "sound_intents intents" "0 \<le> op_amount o1"
  shows "0 \<le> draw (claim_map intents) block i o1"
proof -
  have "0 \<le> sum_list (map sc_amount_rao (filter (\<lambda>c. sc_source_block c = block) (batch_sources r)))"
    if "map_of (claim_map intents) i = Some r" for r
  proof -
    have "r \<in> set intents" using map_of_SomeD [OF that] by (auto simp: claim_map_def)
    then show ?thesis using assms(1) sound_batch(3) [of r] by (intro sum_list_nonneg) (auto simp: sound_intents_def)
  qed
  then show ?thesis using assms(2) by (auto simp: draw_def split: option.split)
qed

lemma attributed_empty_iff:
  assumes "op_source_block o1 = op_source_block o2"
  shows "attributed claims block (i, o1) = [] \<longleftrightarrow> attributed claims block (i, o2) = []"
  using assms by (auto simp: attributed_def split: option.split)

lemma drawn_empty: "drawn ops intents block = [] \<longleftrightarrow> (\<forall>k<length ops. attributed (claim_map intents) block (int k + 1, ops ! k) = [])"
  by (force simp: drawn_def in_set_conv_nth nth_numbered)

text \<open>Changing the state of an operation never adds to what is drawn, unless it comes back to life.\<close>

lemma conserved_update:
  assumes "conserved p ops intents earnings" "sound_intents intents" "k < length ops"
    "op_bucket o1 = op_bucket (ops ! k)" "op_source_block o1 = op_source_block (ops ! k)"
    "op_amount o1 = op_amount (ops ! k)" "live_op o1 \<Longrightarrow> live_op (ops ! k)" "0 \<le> op_amount (ops ! k)"
  shows "conserved p (ops[k := o1]) intents earnings"
proof -
  have "live_sum b (attributed (claim_map intents) block (i, o1)) \<le> live_sum b (attributed (claim_map intents) block (i, ops ! k))" for b block i
  proof -
    have "draw (claim_map intents) block i o1 = draw (claim_map intents) block i (ops ! k)" using assms(5,6) by (simp add: draw_def split: option.split)
    then show ?thesis using assms(4,7) draw_nonneg [OF assms(2,8), of block i] by (auto simp: live_attributed)
  qed
  then have le: "live_sum b (drawn (ops[k := o1]) intents block) \<le> live_sum b (drawn ops intents block)" for b block
    unfolding drawn_sum length_list_update using assms(3) by (intro sum_mono) (auto simp: nth_list_update)
  have "drawn (ops[k := o1]) intents block = [] \<longleftrightarrow> drawn ops intents block = []" for block
    unfolding drawn_empty length_list_update using assms(3) attributed_empty_iff [OF assms(5)] by (auto simp: nth_list_update)
  then show ?thesis using assms(1) order_trans [OF le] unfolding conserved_def by blast
qed

lemma conserved_new_intent:
  "conserved p ops intents earnings \<Longrightarrow> mq_after_operation r = int (length ops) \<Longrightarrow> conserved p ops (intents @ [r]) earnings"
  by (simp add: conserved_def drawn_new_intent)

lemma conserved_drop_intent:
  "conserved p ops (intents @ [r]) earnings \<Longrightarrow> mq_after_operation r = int (length ops) \<Longrightarrow> conserved p ops intents earnings"
  by (simp add: conserved_def drawn_new_intent)

lemma conserved_marked:
  assumes "conserved p ops intents earnings" "\<And>e. er_block (f e) = er_block e" "\<And>e. er_earned (f e) = er_earned e"
  shows "conserved p ops intents (map f earnings)"
  using assms by (simp add: conserved_def comp_def image_image)

subsection \<open>The entitlements of a receipt\<close>

lemma plan_ok:
  assumes "plan_service_distribution a v c ds = Inr rows"
  shows "sum_list (map dn_alpha_rao rows) = a" "sorted_wrt (<) (map dn_bucket_id rows)" "\<forall>d\<in>set rows. 0 < dn_alpha_rao d"
  using plan_rows [OF assms] by (auto simp: list_all_iff)

lemma parts_ok:
  assumes "receipt_parts p amount = Inr parts"
  shows "distinct (map dn_bucket_id parts)" "\<forall>d\<in>set parts. 0 < dn_alpha_rao d \<and> dn_alpha_rao d \<le> amount"
proof -
  note ok = plan_ok [OF assms [unfolded receipt_parts_def of_py_Inr]]
  show "distinct (map dn_bucket_id parts)" using ok(2) by (simp add: strict_sorted_iff)
  show "\<forall>d\<in>set parts. 0 < dn_alpha_rao d \<and> dn_alpha_rao d \<le> amount"
    using ok(1,3) member_le_sum_list [of _ "map dn_alpha_rao parts"] by fastforce
qed

lemma entitlement_of:
  assumes "receipt_parts p amount = Inr parts" "d \<in> set parts"
  shows "entitlement p amount (dn_bucket_id d) = dn_alpha_rao d"
proof -
  have "find (\<lambda>x. dn_bucket_id x = dn_bucket_id d) parts = Some d"
    using parts_ok(1) [OF assms(1)] assms(2) by (induction parts) auto
  then show ?thesis by (simp add: entitlement_def assms(1))
qed

lemma entitlement_nonneg: "0 \<le> entitlement p amount bucket"
  using parts_ok(2) [of p amount]
  by (auto simp: entitlement_def find_Some_iff split: sum.split option.split dest!: nth_mem) force

lemma conserved_earned:
  assumes "conserved p ops intents earnings" "er_block e \<notin> er_block ` set earnings"
  shows "conserved p ops intents (earnings @ [e])"
proof -
  have "drawn ops intents (er_block e) = []" using assms by (auto simp: conserved_def)
  then show ?thesis using assms by (auto simp: conserved_def entitlement_nonneg)
qed

subsection \<open>The remaining distribution\<close>

definition bucket_sum :: "string \<Rightarrow> operation_row list \<Rightarrow> int" where
  "bucket_sum b rows = sum_list (map op_amount (filter (\<lambda>o1. op_bucket o1 = Some b) rows))"

lemma settle_paid_Inr:
  assumes "settle_paid expected rows paid = Inr paid'"
  shows "paid' = (\<lambda>b. paid b + bucket_sum b rows)" "\<forall>o1\<in>set rows. op_state o1 = ''finalized''"
  using assms
proof (induction rows arbitrary: paid)
  case Nil
  { case 1 then show ?case by (simp add: bucket_sum_def) }
  { case 2 then show ?case by simp }
next
  case (Cons o1 rows)
  { case 1
    then obtain b where "op_bucket o1 = Some b" "settle_paid expected rows (paid(b := paid b + op_amount o1)) = Inr paid'"
      by (auto simp: and_then_Inr split: option.splits bind_splits)
    then show ?case using Cons.IH(1) by (auto simp: bucket_sum_def fun_eq_iff) }
  { case 2
    then show ?case using Cons.IH(2) by (auto simp: and_then_Inr split: option.splits bind_splits) }
qed

text \<open>A part that is left over leaves room for its amount in the bucket of the receipt.\<close>

lemma remaining_room:
  assumes "receipt_parts p amount = Inr parts" "remaining_distribution parts rows = Inr remaining" "d \<in> set remaining"
  shows "bucket_sum (dn_bucket_id d) rows + dn_alpha_rao d = entitlement p amount (dn_bucket_id d)"
    "0 < dn_alpha_rao d" "\<forall>o1\<in>set rows. op_state o1 = ''finalized''"
proof -
  obtain paid where paid: "settle_paid (dict_of (map (\<lambda>d. (dn_bucket_id d, d)) parts)) rows (\<lambda>_. 0) = Inr paid"
    and rem: "remaining = map (\<lambda>d. d\<lparr>dn_alpha_rao := dn_alpha_rao d - paid (dn_bucket_id d)\<rparr>)
      (filter (\<lambda>d. paid (dn_bucket_id d) < dn_alpha_rao d) parts)"
    using assms(2) by (auto simp: remaining_distribution_def and_then_Inr)
  obtain e where e: "e \<in> set parts" "paid (dn_bucket_id e) < dn_alpha_rao e" "d = e\<lparr>dn_alpha_rao := dn_alpha_rao e - paid (dn_bucket_id e)\<rparr>"
    using assms(3) by (auto simp: rem)
  show "bucket_sum (dn_bucket_id d) rows + dn_alpha_rao d = entitlement p amount (dn_bucket_id d)" "0 < dn_alpha_rao d"
    using e entitlement_of [OF assms(1) e(1)] settle_paid_Inr(1) [OF paid] by simp_all
  show "\<forall>o1\<in>set rows. op_state o1 = ''finalized''" by (rule settle_paid_Inr(2) [OF paid])
qed

subsection \<open>Reading the journal's attribution\<close>

definition open_intents :: "collector_journal \<Rightarrow> manual_transfer list" where
  "open_intents j = filter (\<lambda>r. mq_request_id r \<notin> expired_ids j) (map (snd \<circ> snd) (armed_rows j))"

lemma open_batches_of: "open_batches j = filter (\<lambda>r. mq_batch r \<noteq> None) (open_intents j)"
  by (simp add: open_batches_def open_intents_def conj_commute)

lemma claims_by_operation_Inr:
  "claims_by_operation rs claims = Inr claims' \<Longrightarrow> claims' = claims @ map (\<lambda>r. (mq_after_operation r + 1, r)) rs"
proof (induction rs arbitrary: claims)
  case (Cons r rs)
  then have "claims_by_operation rs (claims @ [(mq_after_operation r + 1, r)]) = Inr claims'" by (auto simp: and_then_Inr update_new)
  then show ?case using Cons.IH by fastforce
qed simp

lemma claims_by_operation_total:
  "\<forall>r\<in>set rs. check_manual r = Inr () \<Longrightarrow> distinct (map mq_after_operation rs)
     \<Longrightarrow> (\<lambda>r. mq_after_operation r + 1) ` set rs \<inter> set (dict_keys claims) = {} \<Longrightarrow> \<exists>c. claims_by_operation rs claims = Inr c"
proof (induction rs arbitrary: claims)
  case (Cons r rs)
  then have "\<exists>c. claims_by_operation rs (dict_set (mq_after_operation r + 1) r claims) = Inr c"
    by (intro Cons.IH) (auto simp: update_new)
  then show ?case using Cons.prems by (auto simp: and_then_Inr)
qed simp

lemma source_operations_Inr:
  assumes "source_operations j block x = Inr rows"
  shows "rows = concat (map (attributed (claim_map (open_intents j)) block) (filter (\<lambda>(i, _). i \<noteq> x) (numbered (cj_operations j))))"
proof -
  obtain claims parts where c: "claims_by_operation (open_batches j) [] = Inr claims" and r: "rows = concat parts"
    and l: "list_all2 (\<lambda>row part. explained claims row \<and> attributed claims block row = part) (filter (\<lambda>(i, _). i \<noteq> x) (numbered (cj_operations j))) parts"
    using assms by (auto simp: source_operations_def and_then_Inr collect_Inr)
  have "claims = claim_map (open_intents j)"
    using claims_by_operation_Inr [OF c] by (simp add: claim_map_def open_batches_of)
  moreover have "parts = map (attributed claims block) (filter (\<lambda>(i, _). i \<noteq> x) (numbered (cj_operations j)))"
    using l by (simp add: list_all2_conv_all_nth nth_equalityI)
  ultimately show ?thesis using r by simp
qed

lemma source_operations_total:
  assumes "sound_intents (open_intents j)" "distinct (map mq_after_operation (open_intents j))"
    "\<forall>row\<in>set (numbered (cj_operations j)). explained (claim_map (open_intents j)) row"
  shows "source_operations j block (- 1) = Inr (drawn (cj_operations j) (open_intents j) block)"
proof -
  let ?rows = "numbered (cj_operations j)" and ?cm = "claim_map (open_intents j)"
  obtain c where c: "claims_by_operation (open_batches j) [] = Inr c"
    using claims_by_operation_total [of "open_batches j" "[]"] assms(1,2)
    by (auto simp: open_batches_of sound_intents_def distinct_map_filter)
  then have cm: "c = ?cm" using claims_by_operation_Inr [OF c] by (simp add: claim_map_def open_batches_of)
  have "filter (\<lambda>(i, _). i \<noteq> - 1) ?rows = ?rows"
    by (rule filter_True) (auto simp: in_numbered row_at_def split: if_splits)
  moreover have "collect (\<lambda>row. and_then (need (explained ?cm row) m) (\<lambda>_. Inr (attributed ?cm block row))) ?rows
      = Inr (map (attributed ?cm block) ?rows)" for m
    by (rule collect_total) (use assms(3) in \<open>simp add: need_def\<close>)
  ultimately show ?thesis by (simp add: source_operations_def c cm drawn_def)
qed

text \<open>When everything the reader returned is finalized and the row it leaves out is dead, it saw all that is drawn.\<close>

lemma drawn_read:
  assumes "source_operations j block x = Inr rows" "\<forall>o1\<in>set rows. op_state o1 = ''finalized''"
    "\<And>o1. row_at (cj_operations j) x = Some o1 \<Longrightarrow> \<not> live_op o1"
  shows "live_sum b (drawn (cj_operations j) (open_intents j) block) = bucket_sum b rows"
proof -
  let ?at = "attributed (claim_map (open_intents j)) block" and ?rows = "numbered (cj_operations j)"
  have rows: "rows = concat (map ?at (filter (\<lambda>(i, _). i \<noteq> x) ?rows))" by (rule source_operations_Inr [OF assms(1)])
  have "live_sum b (concat (map ?at rs)) = live_sum b (concat (map ?at (filter (\<lambda>(i, _). i \<noteq> x) rs)))" if "set rs \<subseteq> set ?rows" for rs
    using that
  proof (induction rs)
    case (Cons row rs)
    obtain i o1 where row: "row = (i, o1)" by (cases row)
    have "live_sum b (?at row) = 0" if "i = x" using that assms(3) [of o1] Cons.prems by (simp add: row live_attributed in_numbered)
    then show ?case using Cons by (auto simp: row)
  qed simp
  from this [OF order_refl] have "live_sum b (drawn (cj_operations j) (open_intents j) block) = live_sum b rows"
    by (simp only: drawn_def rows)
  moreover have "filter (\<lambda>o1. live_op o1 \<and> op_bucket o1 = Some b) rows = filter (\<lambda>o1. op_bucket o1 = Some b) rows"
    using assms(2) by (intro filter_cong) (simp_all add: live_op_def)
  ultimately show ?thesis by (simp add: live_sum_def bucket_sum_def)
qed

text \<open>A new operation may be recorded when each receipt it draws on has room for it.\<close>

lemma conserved_reserve:
  assumes "conserved p ops intents earnings" "op_bucket o1 = Some b"
    "\<And>block. attributed (claim_map intents) block (int (length ops) + 1, o1) \<noteq> [] \<Longrightarrow> \<exists>e\<in>set earnings. er_block e = block
       \<and> live_sum b (drawn ops intents block) + draw (claim_map intents) block (int (length ops) + 1) o1 \<le> entitlement p (fz_amount_rao (er_earned e)) b"
  shows "conserved p (ops @ [o1]) intents earnings"
proof -
  let ?at = "\<lambda>block. attributed (claim_map intents) block (int (length ops) + 1, o1)"
  have "live_sum b' (drawn (ops @ [o1]) intents (er_block e)) \<le> entitlement p (fz_amount_rao (er_earned e)) b'" if "e \<in> set earnings" for e b'
  proof (cases "?at (er_block e) = [] \<or> b' \<noteq> b")
    case True
    then have "live_sum b' (?at (er_block e)) = 0" by (elim disjE) (simp, simp add: live_attributed assms(2))
    then show ?thesis using assms(1) that by (simp add: conserved_def drawn_snoc)
  next
    case False
    then obtain e' where e': "e' \<in> set earnings" "er_block e' = er_block e"
      "live_sum b (drawn ops intents (er_block e)) + draw (claim_map intents) (er_block e) (int (length ops) + 1) o1 \<le> entitlement p (fz_amount_rao (er_earned e')) b"
      using assms(3) by blast
    then have "e' = e" using assms(1) that by (auto simp: conserved_def distinct_map dest: inj_onD)
    moreover have "live_sum b (?at (er_block e)) \<le> max 0 (draw (claim_map intents) (er_block e) (int (length ops) + 1) o1)"
      using assms(2) by (auto simp: live_attributed)
    moreover have "live_sum b (drawn ops intents (er_block e)) \<le> entitlement p (fz_amount_rao (er_earned e)) b"
      using assms(1) that by (simp add: conserved_def)
    ultimately show ?thesis using e'(3) False by (auto simp: drawn_snoc)
  qed
  moreover have "block \<in> er_block ` set earnings" if "drawn (ops @ [o1]) intents block \<noteq> []" for block
    using that assms(1) assms(3) [of block] by (force simp: conserved_def drawn_snoc)
  ultimately show ?thesis using assms(1) unfolding conserved_def by blast
qed

end
