(* ===== verification/Collector_Safety.thy ===== *)
theory Collector_Safety
  imports Collector_Ledger
begin

section \<open>The collector pays each entitlement once\<close>

text \<open>
  Runs of a collector journal: any sequence of ticks, manual intents, expiries, replacements and scans, by any number of processes,
  with any answers of the chain adapter; a call that raises changes nothing. The invariant \<open>journal_ok\<close> holds along every run.
\<close>

subsection \<open>Events\<close>

lemma map_filter_snoc: "List.map_filter f (xs @ [x]) = List.map_filter f xs @ (case f x of None \<Rightarrow> [] | Some y \<Rightarrow> [y])"
  by (simp add: List.map_filter_def split: option.split)

lemma event_tables [simp]:
  "cj_operations (add_event e j) = cj_operations j" "cj_earnings (add_event e j) = cj_earnings j" "cj_pin (add_event e j) = cj_pin j"
  "cj_cursor (add_event e j) = cj_cursor j" "max_id (add_event e j) = max_id j"
  by (simp_all add: add_event_def max_id_def)

definition event_id :: "collector_journal \<Rightarrow> int" where
  "event_id j = int (length (cj_events j)) + 1"

lemma rows_add_event:
  "armed_rows (add_event e j) = armed_rows j @ (case e of Manual_Transfer_Armed d r \<Rightarrow> [(event_id j, d, r)] | _ \<Rightarrow> [])"
  "expired_rows (add_event e j) = expired_rows j @ (case e of Manual_Unsigned_Expired x \<Rightarrow> [(event_id j, x)] | _ \<Rightarrow> [])"
  "canary_rows (add_event e j) = canary_rows j @ (case e of Transfer_Canary_Armed d c \<Rightarrow> [(event_id j, d, c)] | _ \<Rightarrow> [])"
  "replaced_rows (add_event e j) = replaced_rows j @ (case e of Transfer_Canary_Replaced b \<Rightarrow> [(event_id j, b)] | _ \<Rightarrow> [])"
  by (simp_all add: armed_rows_def expired_rows_def canary_rows_def replaced_rows_def add_event_def numbered_snoc map_filter_snoc event_id_def
      split: collector_event.split)

lemma rows_other_tables [simp]:
  "armed_rows (j\<lparr>cj_operations := x\<rparr>) = armed_rows j" "armed_rows (j\<lparr>cj_earnings := y\<rparr>) = armed_rows j" "armed_rows (j\<lparr>cj_cursor := z\<rparr>) = armed_rows j"
  "expired_rows (j\<lparr>cj_operations := x\<rparr>) = expired_rows j" "expired_rows (j\<lparr>cj_earnings := y\<rparr>) = expired_rows j"
  "expired_rows (j\<lparr>cj_cursor := z\<rparr>) = expired_rows j"
  "canary_rows (j\<lparr>cj_operations := x\<rparr>) = canary_rows j" "canary_rows (j\<lparr>cj_earnings := y\<rparr>) = canary_rows j"
  "canary_rows (j\<lparr>cj_cursor := z\<rparr>) = canary_rows j"
  by (simp_all add: armed_rows_def expired_rows_def canary_rows_def)

lemma intents_other_tables [simp]:
  "open_intents (j\<lparr>cj_operations := x\<rparr>) = open_intents j" "open_intents (j\<lparr>cj_earnings := y\<rparr>) = open_intents j"
  "open_intents (j\<lparr>cj_cursor := z\<rparr>) = open_intents j"
  by (simp_all add: open_intents_def expired_ids_def)

definition neutral :: "collector_event \<Rightarrow> bool" where
  "neutral e \<longleftrightarrow> (case e of Manual_Transfer_Armed _ _ \<Rightarrow> False | Manual_Unsigned_Expired _ \<Rightarrow> False | _ \<Rightarrow> True)"

lemma intents_neutral: "neutral e \<Longrightarrow> open_intents (add_event e j) = open_intents j \<and> armed_rows (add_event e j) = armed_rows j"
  by (cases e) (simp_all add: neutral_def open_intents_def expired_ids_def rows_add_event)

subsection \<open>The history read back\<close>

text \<open>When the manual history is accepted, it is the open intents in order, and no request id is used twice.\<close>

lemma history_loop_Inr:
  "history_loop H V j p limits rows ids previous pe cb expired = Inr (left, requests) \<Longrightarrow>
     requests = filter (\<lambda>r. mq_request_id r \<notin> set (dict_keys expired)) (map (snd \<circ> snd) rows)
     \<and> distinct (map (\<lambda>row. mq_request_id (snd (snd row))) rows) \<and> (\<lambda>row. mq_request_id (snd (snd row))) ` set rows \<inter> set ids = {}"
proof (induction rows arbitrary: ids previous pe cb expired left requests)
  case (Cons row rows)
  obtain i digest r where row: "row = (i, digest, r)" by (cases row) auto
  from Cons.prems have new: "mq_request_id r \<notin> set ids" by (auto simp: row and_then_Inr)
  show ?case
  proof (cases "map_of expired (mq_request_id r)")
    case None
    then obtain l rs where h: "history_loop H V j p limits rows (mq_request_id r # ids) (mq_after_operation r) False cb expired = Inr (l, rs)"
      and "requests = r # rs" using Cons.prems by (auto simp: row and_then_Inr)
    then show ?thesis using Cons.IH [OF h] new None by (auto simp: row map_of_eq_None_iff)
  next
    case (Some closure)
    then have h: "history_loop H V j p limits rows (mq_request_id r # ids) (mq_after_operation r) True (fst closure)
        (AList.delete (mq_request_id r) expired) = Inr (left, requests)" using Cons.prems by (auto simp: row and_then_Inr)
    have "mq_request_id r \<in> set (dict_keys expired)" using map_of_SomeD [OF Some] by force
    moreover have "set (dict_keys (AList.delete (mq_request_id r) expired)) = set (dict_keys expired) - {mq_request_id r}"
      by (simp add: AList.delete_keys [unfolded AList.delete_eq] AList.delete_eq)
    ultimately show ?thesis using Cons.IH [OF h] new by (auto simp: row intro!: filter_cong) (force simp: image_iff)
  qed
qed simp

lemma manual_history_Inr:
  assumes "manual_transfer_history H V j p = Inr manual"
  shows "manual = open_intents j" "distinct (map (\<lambda>row. mq_request_id (snd (snd row))) (armed_rows j))"
proof -
  obtain limits left where h: "history_loop H V j p limits (armed_rows j) [] 0 False 0 (map (\<lambda>(i, x). (ue_request_id x, (i, x))) (expired_rows j)) = Inr (left, manual)"
    using assms by (auto simp: manual_transfer_history_def and_then_Inr Let_def)
  have "set (dict_keys (map (\<lambda>(i, x). (ue_request_id x, (i, x))) (expired_rows j))) = expired_ids j"
    by (force simp: expired_ids_def)
  then show "manual = open_intents j" "distinct (map (\<lambda>row. mq_request_id (snd (snd row))) (armed_rows j))"
    using history_loop_Inr [OF h] by (simp_all add: open_intents_def)
qed

subsection \<open>The canary read back\<close>

lemma canary_replacement_None: "canary_replacement H V j p = Inr None \<longleftrightarrow> replaced_rows j = []"
  by (auto simp: canary_replacement_def and_then_Inr split: list.splits)

text \<open>The operation a replacement leaves out of the accounts failed on chain.\<close>

definition excluded_dead :: "hash_fun \<Rightarrow> signature_verifier \<Rightarrow> collector_policy \<Rightarrow> collector_journal \<Rightarrow> bool" where
  "excluded_dead H V p j \<longleftrightarrow> (\<forall>b o1. canary_replacement H V j p = Inr b \<longrightarrow> row_at (cj_operations j) (excluded_id b) = Some o1 \<longrightarrow> \<not> live_op o1)"

lemma excluded_dead_None: "replaced_rows j = [] \<Longrightarrow> excluded_dead H V p j"
  by (auto simp: excluded_dead_def canary_replacement_def excluded_id_def row_at_def)

lemma existing_canary_Inr:
  assumes "existing_canary H V j p = Inr x"
  shows "x = None \<longleftrightarrow> canary_rows j = []" "x = None \<Longrightarrow> replaced_rows j = []" "excluded_dead H V p j"
proof -
  show 1: "x = None \<longleftrightarrow> canary_rows j = []"
    using assms by (auto simp: existing_canary_def and_then_Inr split: list.splits option.splits)
  show 2: "replaced_rows j = []" if "x = None"
    using assms that 1 by (auto simp: existing_canary_def and_then_Inr canary_replacement_None split: list.splits)
  show "excluded_dead H V p j"
  proof (cases "canary_replacement H V j p")
    case (Inr b)
    then show ?thesis
    proof (cases b)
      case (Some rep)
      then have "canary_rows j \<noteq> []" using 1 2 Inr canary_replacement_None [of H V j p] by (auto simp: canary_replacement_def)
      then obtain row c where "canary_rows j = [row]" "replacement_fits rep c (row_at (cj_operations j) (tc_after_operation (cr_canary rep))) = Inr ()"
        using assms Inr Some by (auto simp: existing_canary_def and_then_Inr split: list.splits)
      then show ?thesis using Inr Some by (auto simp: excluded_dead_def excluded_id_def replacement_fits_def and_then_Inr Let_def live_op_def)
    qed (simp add: excluded_dead_None canary_replacement_None)
  qed (simp add: excluded_dead_def)
qed

lemma transfer_canary_Inr:
  assumes "transfer_canary H V j p role requested = Inr (j1, bound)"
  shows "j1 = j \<or> (\<exists>c. j1 = add_event (Transfer_Canary_Armed (collector_digest H p) c) j)"
    "bound = None \<Longrightarrow> canary_rows j = []" "bound = Some c \<Longrightarrow> open_intents j1 \<noteq> [] \<Longrightarrow> c = manual_canary (last (open_intents j1))"
    "excluded_dead H V p j1" "requested = None \<Longrightarrow> j1 = j"
proof -
  obtain x where x: "existing_canary H V j p = Inr x" using assms by (auto simp: transfer_canary_def and_then_Inr)
  let ?c = "if x = None then requested else x"
  note rest = assms [unfolded transfer_canary_def x, simplified, simplified and_then_Inr, simplified]
  show j1: "j1 = j \<or> (\<exists>c. j1 = add_event (Transfer_Canary_Armed (collector_digest H p) c) j)"
    using rest by (auto simp: and_then_Inr Let_def split: option.splits if_splits)
  show "canary_rows j = []" if "bound = None"
    using rest that existing_canary_Inr(1) [OF x] by (auto simp: and_then_Inr Let_def split: option.splits if_splits)
  show "c = manual_canary (last (open_intents j1))" if "bound = Some c" "open_intents j1 \<noteq> []"
    using rest that by (auto simp: and_then_Inr Let_def dest!: manual_history_Inr(1) split: option.splits if_splits)
  show "requested = None \<Longrightarrow> j1 = j" using rest by (auto simp: and_then_Inr Let_def split: option.splits if_splits)
  have "x \<noteq> None \<Longrightarrow> j1 = j" using rest by (auto simp: and_then_Inr Let_def split: option.splits if_splits)
  then show "excluded_dead H V p j1"
    using existing_canary_Inr(2,3) [OF x] j1 by (cases "x = None") (auto intro!: excluded_dead_None simp: rows_add_event)
qed

subsection \<open>The invariant\<close>

definition journal_ok :: "hash_fun \<Rightarrow> collector_policy \<Rightarrow> string \<Rightarrow> collector_journal \<Rightarrow> bool" where
  "journal_ok H p role j \<longleftrightarrow>
     cj_pin j = Some (collector_digest H p, role) \<and> (role = ''transfer'' \<or> armed_rows j = []) \<and> (armed_rows j \<noteq> [] \<longrightarrow> canary_rows j \<noteq> [])
     \<and> sound_intents (open_intents j) \<and> sorted_wrt (<) (map mq_after_operation (open_intents j))
     \<and> (\<forall>r\<in>set (open_intents j). mq_after_operation r \<le> max_id j)
     \<and> (\<forall>row\<in>set (numbered (cj_operations j)). explained (claim_map (open_intents j)) row)
     \<and> (\<forall>o1\<in>set (cj_operations j). 0 \<le> op_amount o1)
     \<and> length (filter (\<lambda>o1. op_state o1 = ''dispatching'') (cj_operations j)) \<le> 1
     \<and> (role = ''registration'' \<longrightarrow> sum_list (map op_amount (cj_operations j)) \<le> kp_registration_budget_rao p)
     \<and> conserved p (cj_operations j) (open_intents j) (cj_earnings j)"

lemma ok_neutral: "journal_ok H p role j \<Longrightarrow> neutral e \<Longrightarrow> journal_ok H p role (add_event e j)"
  by (auto simp: journal_ok_def intents_neutral rows_add_event(3))

lemma ok_canary_armed: "journal_ok H p role j \<Longrightarrow> transfer_canary H V j p r requested = Inr (j1, bound) \<Longrightarrow> journal_ok H p role j1"
  using transfer_canary_Inr(1) [of H V j p r requested j1 bound] by (auto intro!: ok_neutral simp: neutral_def)

lemma ok_cursor: "journal_ok H p role j \<Longrightarrow> journal_ok H p role (j\<lparr>cj_cursor := n\<rparr>)"
  by (simp add: journal_ok_def max_id_def)

lemma ok_completed: "journal_ok H p role j \<Longrightarrow> journal_ok H p role (complete_receipt row j)"
  unfolding complete_receipt_def by (rule ok_neutral) (auto simp: journal_ok_def max_id_def neutral_def intro!: conserved_marked)

lemma ok_earning:
  assumes "journal_ok H p role j" "record_earning H p block earned j = Inr j1"
  shows "journal_ok H p role j1"
proof -
  have "j1 = j \<or> (\<exists>e. block \<notin> er_block ` set (cj_earnings j) \<and> j1 = add_event (Emission_Attributed block (collector_digest H p) e)
      (j\<lparr>cj_earnings := cj_earnings j @ [\<lparr>er_block = block, er_earned = e, er_completed = False\<rparr>]\<rparr>))"
    using assms(2) by (auto simp: record_earning_def and_then_Inr find_None_iff split: option.splits)
  moreover have "journal_ok H p role (j\<lparr>cj_earnings := cj_earnings j @ [e]\<rparr>)" if "er_block e \<notin> er_block ` set (cj_earnings j)" for e
    using assms(1) that by (simp add: journal_ok_def max_id_def conserved_earned)
  ultimately show ?thesis using assms(1) by (elim disjE exE conjE) (simp, simp add: ok_neutral neutral_def)
qed

lemma ok_scan: "journal_ok H p role j \<Longrightarrow> scan_blocks H p chain blocks j = Inr j1 \<Longrightarrow> journal_ok H p role j1"
  by (induction blocks arbitrary: j) (auto simp: and_then_Inr intro: ok_cursor ok_earning)

text \<open>A settlement or its progress: an operation keeps what it draws and does not come back to life.\<close>

lemma numbered_update: "k < length xs \<Longrightarrow> set (numbered (xs[k := x])) \<subseteq> insert (int k + 1, x) (set (numbered xs))"
  by (auto simp: in_numbered row_at_def nth_list_update split: if_splits)

lemma find_in: "find P xs = Some x \<Longrightarrow> x \<in> set xs \<and> P x"
  by (induction xs) (auto split: if_splits)

lemma pending_row:
  assumes "pending_operation j = Some (i, o1)"
  shows "(i, o1) \<in> set (numbered (cj_operations j))" "op_state o1 = ''dispatching''"
    "nat (i - 1) < length (cj_operations j)" "cj_operations j ! nat (i - 1) = o1" "int (nat (i - 1)) + 1 = i"
proof -
  show r: "(i, o1) \<in> set (numbered (cj_operations j))" "op_state o1 = ''dispatching''"
    using find_in [OF assms [unfolded pending_operation_def]] by auto
  show "nat (i - 1) < length (cj_operations j)" "cj_operations j ! nat (i - 1) = o1" "int (nat (i - 1)) + 1 = i"
    using r(1) by (auto simp: in_numbered row_at_def split: if_splits)
qed

lemma length_filter_update:
  assumes "k < length xs" "P y \<Longrightarrow> P (xs ! k)"
  shows "length (filter P (xs[k := y])) \<le> length (filter P xs)"
proof -
  have "length (filter P xs) = length (filter P (take k xs @ xs ! k # drop (Suc k) xs))" using id_take_nth_drop [OF assms(1)] by simp
  then show ?thesis using assms by (auto simp: upd_conv_take_nth_drop)
qed

lemma ok_settle:
  assumes "journal_ok H p role j" "pending_operation j = Some (i, o1)"
    "\<And>x. op_bucket (f x) = op_bucket x \<and> op_source_block (f x) = op_source_block x \<and> op_amount (f x) = op_amount x \<and> op_role (f x) = op_role x"
  shows "journal_ok H p role (set_operation i f j)"
proof -
  note row = pending_row [OF assms(2)]
  let ?I = "open_intents j" and ?ops = "cj_operations j"
  have ok: "sound_intents ?I" "conserved p ?ops ?I (cj_earnings j)" "\<forall>x\<in>set ?ops. 0 \<le> op_amount x"
      "\<forall>x\<in>set (numbered ?ops). explained (claim_map ?I) x" "length (filter (\<lambda>x. op_state x = ''dispatching'') ?ops) \<le> 1"
    using assms(1) by (simp_all add: journal_ok_def)
  have o1: "o1 \<in> set ?ops" using row(3,4) by force
  have live: "live_op o1" using row(2) by (simp add: live_op_def)
  have "conserved p (?ops[nat (i - 1) := f o1]) ?I (cj_earnings j)"
    using row(3,4) ok(3) o1 assms(3) live by (intro conserved_update [OF ok(2,1)]) auto
  moreover have "explained (claim_map ?I) x" if "x \<in> set (numbered (?ops[nat (i - 1) := f o1]))" for x
  proof -
    have "explained (claim_map ?I) (i, o1)" using ok(4) row(1) by blast
    then have "explained (claim_map ?I) (i, f o1)" using assms(3) [of o1] by (auto simp: explained_def explains_def split: option.splits)
    then show ?thesis using numbered_update [OF row(3), of "f o1"] that ok(4) row(5) by auto
  qed
  moreover have "\<forall>x\<in>set (?ops[nat (i - 1) := f o1]). 0 \<le> op_amount x"
    using ok(3) o1 assms(3) set_update_subset_insert [of ?ops "nat (i - 1)" "f o1"] by fastforce
  moreover have "length (filter (\<lambda>x. op_state x = ''dispatching'') (?ops[nat (i - 1) := f o1])) \<le> 1"
    using length_filter_update [OF row(3), of "\<lambda>x. op_state x = ''dispatching''" "f o1"] row(2,4) ok(5) by simp
  moreover have "map op_amount (?ops[nat (i - 1) := f o1]) = map op_amount ?ops"
    using row(3,4) assms(3) [of o1] by (simp add: map_update list_update_same_conv)
  ultimately show ?thesis using assms(1) by (simp add: journal_ok_def set_operation_def row(4) max_id_def)
qed

subsection \<open>Recording an operation\<close>

lemma map_snd_numbered [simp]: "map snd (numbered xs) = xs"
  by (simp add: numbered_def del: upt_Suc)

lemma pending_None: "pending_operation j = None \<longleftrightarrow> (\<forall>o1\<in>set (cj_operations j). op_state o1 \<noteq> ''dispatching'')"
proof -
  have "set (cj_operations j) = snd ` set (numbered (cj_operations j))" by (metis map_snd_numbered set_map)
  then show ?thesis by (auto simp: pending_operation_def find_None_iff)
qed

lemma ok_reserve:
  assumes "journal_ok H p role j" "pending_operation j = None" "0 \<le> op_amount o1"
    "explained (claim_map (open_intents j)) (max_id j + 1, o1)" "conserved p (cj_operations j @ [o1]) (open_intents j) (cj_earnings j)"
    "role = ''registration'' \<Longrightarrow> sum_list (map op_amount (cj_operations j)) + op_amount o1 \<le> kp_registration_budget_rao p"
  shows "journal_ok H p role (j\<lparr>cj_operations := cj_operations j @ [o1]\<rparr>)"
proof -
  have "filter (\<lambda>x. op_state x = ''dispatching'') (cj_operations j) = []"
    using assms(2) by (simp add: pending_None filter_empty_conv)
  then show ?thesis using assms by (auto simp: journal_ok_def max_id_def numbered_snoc)
qed

text \<open>The claim of a tick: recording it keeps the invariant, and its amount is positive.\<close>

definition fits :: "collector_policy \<Rightarrow> collector_journal \<Rightarrow> claim \<Rightarrow> bool" where
  "fits p j c \<longleftrightarrow> 0 < cl_amount c \<and> (\<forall>o1. op_role o1 = ''transfer'' \<longrightarrow> op_bucket o1 = cl_bucket c \<longrightarrow> op_source_block o1 = cl_source_block c
      \<longrightarrow> op_amount o1 = cl_amount c \<longrightarrow> explained (claim_map (open_intents j)) (max_id j + 1, o1)
        \<and> conserved p (cj_operations j @ [o1]) (open_intents j) (cj_earnings j))"

lemma receipt_room:
  assumes "excluded_dead H V p j" "receipt_parts p amount = Inr parts" "canary_replacement H V j p = Inr rep"
    "source_operations j block (excluded_id rep) = Inr rows" "remaining_distribution parts rows = Inr remaining" "d \<in> set remaining"
  shows "live_sum (dn_bucket_id d) (drawn (cj_operations j) (open_intents j) block) + dn_alpha_rao d = entitlement p amount (dn_bucket_id d)"
    "0 < dn_alpha_rao d"
proof -
  note room = remaining_room [OF assms(2,5,6)]
  have "live_sum (dn_bucket_id d) (drawn (cj_operations j) (open_intents j) block) = bucket_sum (dn_bucket_id d) rows"
    using assms(1,3) by (intro drawn_read [OF assms(4) room(3)]) (simp add: excluded_dead_def)
  then show "live_sum (dn_bucket_id d) (drawn (cj_operations j) (open_intents j) block) + dn_alpha_rao d = entitlement p amount (dn_bucket_id d)"
    "0 < dn_alpha_rao d" using room by simp_all
qed

lemma open_earning_in: "open_earning j block = Some e \<Longrightarrow> e \<in> set (cj_earnings j) \<and> er_block e = block"
  using find_in by (fastforce simp: open_earning_def)

lemma check_sources_room:
  "excluded_dead H V p j \<Longrightarrow> check_sources H V j p chain bucket destination head sources = Inr u \<Longrightarrow> c \<in> set sources \<Longrightarrow>
     \<exists>e\<in>set (cj_earnings j). er_block e = sc_source_block c
       \<and> live_sum bucket (drawn (cj_operations j) (open_intents j) (sc_source_block c)) + sc_amount_rao c \<le> entitlement p (fz_amount_rao (er_earned e)) bucket"
proof (induction sources)
  case (Cons x sources)
  from Cons.prems(2) obtain e remaining d where e: "open_earning j (sc_source_block x) = Some e"
    and r: "remaining_source H V j p e True = Inr remaining"
    and d: "d \<in> set remaining" "dn_bucket_id d = bucket" "sc_amount_rao x \<le> dn_alpha_rao d"
    and rest: "check_sources H V j p chain bucket destination head sources = Inr u"
    by (auto simp: and_then_Inr list_ex_iff split: option.splits)
  note row = open_earning_in [OF e]
  obtain parts rep rows where p: "receipt_parts p (fz_amount_rao (er_earned e)) = Inr parts" "canary_replacement H V j p = Inr rep"
    "source_operations j (er_block e) (excluded_id rep) = Inr rows" "remaining_distribution parts rows = Inr remaining"
    using r by (auto simp: remaining_source_def and_then_Inr)
  have "live_sum bucket (drawn (cj_operations j) (open_intents j) (sc_source_block x)) + sc_amount_rao x \<le> entitlement p (fz_amount_rao (er_earned e)) bucket"
    using receipt_room(1) [OF Cons.prems(1) p d(1)] d(2,3) row by simp
  then show ?case using Cons.IH [OF Cons.prems(1) rest] Cons.prems(3) row by auto
qed simp

lemma ok_intents:
  assumes "journal_ok H p role j"
  shows "sound_intents (open_intents j)" "sorted_wrt (<) (map mq_after_operation (open_intents j))" "\<forall>r\<in>set (open_intents j). mq_after_operation r \<le> max_id j"
  using assms by (simp_all add: journal_ok_def)

text \<open>The last intent is unspent exactly when it names the last operation.\<close>

lemma intent_position:
  assumes "journal_ok H p role j" "open_intents j \<noteq> []" "pending_operation j = None"
    "\<not> list_ex (\<lambda>(i, o1). mq_after_operation (last (open_intents j)) < i \<and> op_state o1 \<noteq> ''dispatching'') (numbered (cj_operations j))"
  shows "mq_after_operation (last (open_intents j)) = max_id j"
proof (rule ccontr)
  assume ne: "mq_after_operation (last (open_intents j)) \<noteq> max_id j"
  have "mq_after_operation (last (open_intents j)) \<le> max_id j" "0 < mq_after_operation (last (open_intents j))"
    using ok_intents(1,3) [OF assms(1)] assms(2) by (simp_all add: sound_intents_def sound_batch(1))
  with ne have m: "mq_after_operation (last (open_intents j)) < max_id j" "0 < max_id j" by auto
  then have o1: "(max_id j, last (cj_operations j)) \<in> set (numbered (cj_operations j))"
    by (auto simp: in_numbered row_at_def max_id_def last_conv_nth nat_diff_distrib Suc_le_eq)
  moreover have "last (cj_operations j) \<in> set (cj_operations j)" using m(2) by (intro last_in_set) (auto simp: max_id_def)
  ultimately show False using assms(3,4) m(1) by (auto simp: pending_None list_ex_iff)
qed

lemma last_claim:
  assumes "sorted_wrt (<) (map mq_after_operation intents)" "intents \<noteq> []"
  shows "map_of (claim_map intents) (mq_after_operation (last intents) + 1) = (if mq_batch (last intents) = None then None else Some (last intents))"
proof -
  obtain xs r where i: "intents = xs @ [r]" using assms(2) by (metis rev_exhaust)
  have "map_of (claim_map xs) (mq_after_operation r + 1) = None"
    using assms(1) by (intro claim_map_miss) (auto simp: i sorted_wrt_append)
  then show ?thesis by (simp add: i claim_map_append map_add_def claim_map_def)
qed

lemma filter_unique: "distinct (map f xs) \<Longrightarrow> x \<in> set xs \<Longrightarrow> filter (\<lambda>y. f y = f x) xs = [x]"
  by (induction xs) (auto simp: filter_empty_conv, metis imageI)

lemma validate_batch_Inr:
  assumes "validate_batch H V j p chain r (sources, a) observed = Inr destination"
  shows "check_sources H V j p chain (mq_bucket_id r) destination (ov_block observed) sources = Inr ()"
    "ch_manual_approval chain = Some a \<and> (\<exists>l. verify_limit H V a (collector_digest H p) (kp_collector_coldkey p) = Inr l \<and> mq_amount_rao r \<le> ml_max_amount_rao l)"
proof -
  obtain l where l: "verify_limit H V a (collector_digest H p) (kp_collector_coldkey p) = Inr l" "ch_manual_approval chain = Some a" "mq_amount_rao r \<le> ml_max_amount_rao l"
    and d: "(case filter (\<lambda>d. sd_bucket_id d = mq_bucket_id r \<and> sd_allocation_bps d > 0) (kp_destinations p) of
       [d] \<Rightarrow> and_then (check_sources H V j p chain (mq_bucket_id r) (sd_holding_coldkey d) (ov_block observed) sources) (\<lambda>_. Inr (sd_holding_coldkey d))
     | _ \<Rightarrow> Inl (ManualIntentRefused ''manual bucket must have one signed destination'')) = Inr destination"
    using assms by (simp add: validate_batch_def and_then_Inr) blast
  then show "ch_manual_approval chain = Some a \<and> (\<exists>l. verify_limit H V a (collector_digest H p) (kp_collector_coldkey p) = Inr l \<and> mq_amount_rao r \<le> ml_max_amount_rao l)" by blast
  show "check_sources H V j p chain (mq_bucket_id r) destination (ov_block observed) sources = Inr ()"
    using d by (auto simp: and_then_Inr split: list.splits)
qed

lemma tick_batch_Reserve:
  assumes "tick_batch H V p chain rid intent batch observed j = Inr (Reserve j2 c)"
  shows "j2 = j" "\<exists>destination again. validate_batch H V j p chain intent batch observed = Inr destination
     \<and> c = transfer_claim p (mq_amount_rao intent) (mq_bucket_id intent) destination (mq_source_block intent) again"
  using assms by (auto simp: tick_batch_def and_then_Inr split: if_splits)

lemma batch_fits:
  assumes "journal_ok H p role j" "open_intents j \<noteq> []" "intent = last (open_intents j)" "mq_after_operation intent = max_id j"
    "mq_batch intent = Some batch" "excluded_dead H V p j" "tick_batch H V p chain rid intent batch observed j = Inr (Reserve j2 c)"
  shows "j2 = j" "fits p j c"
proof -
  obtain sources a where batch: "batch = (sources, a)" by (cases batch)
  obtain destination head where c: "c = transfer_claim p (mq_amount_rao intent) (mq_bucket_id intent) destination (mq_source_block intent) head"
    and v: "check_sources H V j p chain (mq_bucket_id intent) destination (ov_block observed) sources = Inr ()" and j2: "j2 = j"
    using tick_batch_Reserve [OF assms(7)] validate_batch_Inr(1) unfolding batch by blast
  show "j2 = j" by (rule j2)
  have sound: "check_manual intent = Inr ()" using ok_intents(1) [OF assms(1)] assms(2,3) by (simp add: sound_intents_def)
  have bs: "batch_sources intent = sources" by (simp add: batch_sources_def assms(5) batch)
  let ?I = "open_intents j" and ?n = "max_id j + 1"
  have claim: "map_of (claim_map ?I) ?n = Some intent"
    using last_claim [OF ok_intents(2) [OF assms(1)] assms(2)] assms(3-5) by simp
  have "conserved p (cj_operations j @ [o1]) ?I (cj_earnings j)" if "op_bucket o1 = Some (mq_bucket_id intent)" for o1
  proof (rule conserved_reserve [OF _ that])
    show "conserved p (cj_operations j) ?I (cj_earnings j)" using assms(1) by (simp add: journal_ok_def)
    fix block assume "attributed (claim_map ?I) block (int (length (cj_operations j)) + 1, o1) \<noteq> []"
    then obtain x where x: "x \<in> set sources" "block = sc_source_block x"
      using claim by (auto simp: attributed_def max_id_def bs filter_empty_conv)
    have "draw (claim_map ?I) block (int (length (cj_operations j)) + 1) o1 = sc_amount_rao x"
      using claim filter_unique [OF sound_batch(4) [OF sound, unfolded bs] x(1)] by (simp add: draw_def max_id_def bs x(2))
    then show "\<exists>e\<in>set (cj_earnings j). er_block e = block
       \<and> live_sum (mq_bucket_id intent) (drawn (cj_operations j) ?I block) + draw (claim_map ?I) block (int (length (cj_operations j)) + 1) o1
          \<le> entitlement p (fz_amount_rao (er_earned e)) (mq_bucket_id intent)"
      using check_sources_room [OF assms(6) v x(1)] x(2) by simp
  qed
  then show "fits p j c" using claim sound_batch(2) [OF sound] by (simp add: fits_def c transfer_claim_def explained_def explains_def)
qed

lemma tick_leg_Reserve:
  assumes "tick_leg p observed canary intent row remaining j = Inr (Reserve j2 c)"
  shows "j2 = j \<or> (\<exists>x. j2 = add_event (Canary_Receipt_Reserved x) j)"
    "\<exists>d\<in>set remaining. \<exists>amount\<le>dn_alpha_rao d. c = transfer_claim p amount (dn_bucket_id d) (dn_holding_coldkey d) (er_block row) observed
       \<and> ((\<forall>r. intent = Some r \<longrightarrow> 0 < mq_amount_rao r) \<longrightarrow> (\<forall>b. canary = Some b \<longrightarrow> 0 < tc_max_alpha_rao b) \<longrightarrow> 0 < dn_alpha_rao d \<longrightarrow> 0 < amount)"
proof -
  let ?cap = "\<lambda>d. case canary of None \<Rightarrow> dn_alpha_rao d | Some b \<Rightarrow> min (dn_alpha_rao d) (tc_max_alpha_rao b)"
  let ?amount = "\<lambda>d. case intent of None \<Rightarrow> ?cap d | Some r \<Rightarrow> mq_amount_rao r"
  obtain d where d: "d \<in> set remaining" "case intent of None \<Rightarrow> True | Some r \<Rightarrow> mq_amount_rao r \<le> dn_alpha_rao d"
    and c: "c = transfer_claim p (?amount d) (dn_bucket_id d) (dn_holding_coldkey d) (er_block row) observed"
    and j2: "j2 = (if canary = None then j else add_event (canary_event row d remaining (?amount d)) j)"
    using assms by (auto simp: tick_leg_def and_then_Inr Let_def dest!: find_in split: option.splits)
  show "j2 = j \<or> (\<exists>x. j2 = add_event (Canary_Receipt_Reserved x) j)" using j2 by (auto simp: canary_event_def)
  have "?amount d \<le> dn_alpha_rao d" using d(2) by (auto split: option.splits)
  then show "\<exists>d\<in>set remaining. \<exists>amount\<le>dn_alpha_rao d. c = transfer_claim p amount (dn_bucket_id d) (dn_holding_coldkey d) (er_block row) observed
       \<and> ((\<forall>r. intent = Some r \<longrightarrow> 0 < mq_amount_rao r) \<longrightarrow> (\<forall>b. canary = Some b \<longrightarrow> 0 < tc_max_alpha_rao b) \<longrightarrow> 0 < dn_alpha_rao d \<longrightarrow> 0 < amount)"
    using d(1) c by (intro bexI [of _ d] exI [of _ "?amount d"]) (auto split: option.splits)
qed

lemma select_receipt_in:
  assumes "select_receipt p observed intent rep j = Inr (Some row)"
  shows "row \<in> set (cj_earnings j)"
proof -
  have first: "x \<in> set (cj_earnings j)" if "sort_key er_block (filter P (cj_earnings j)) = x # xs" for P x xs
  proof -
    have "x \<in> set (sort_key er_block (filter P (cj_earnings j)))" by (simp add: that)
    then show ?thesis by simp
  qed
  show ?thesis
    using assms unfolding select_receipt_def Let_def by (auto simp del: sort_key_simps dest: find_in first split: option.splits list.splits)
qed

lemma tick_receipt_Reserve:
  assumes "tick_receipt H V p chain rid canary intent observed j = Inr (Reserve j2 c)"
  obtains row rep parts rows remaining where "row \<in> set (cj_earnings j)" "canary_replacement H V j p = Inr rep"
    "fz_amount_rao (er_earned row) \<le> kp_max_distribution_rao p" "receipt_parts p (fz_amount_rao (er_earned row)) = Inr parts"
    "source_operations j (er_block row) (excluded_id rep) = Inr rows" "remaining_distribution parts rows = Inr remaining"
    "tick_leg p observed canary intent row remaining j = Inr (Reserve j2 c)"
proof -
  obtain rep selected where rep: "canary_replacement H V j p = Inr rep" and sel: "select_receipt p observed intent rep j = Inr selected"
    using assms by (auto simp: tick_receipt_def and_then_Inr split: if_splits)
  show thesis
  proof (cases selected)
    case None
    then show ?thesis using assms rep sel by (auto simp: tick_receipt_def and_then_Inr split: if_splits)
  next
    case (Some row)
    then show ?thesis using assms rep sel that [OF select_receipt_in [OF sel [unfolded Some]] rep]
      by (auto simp: tick_receipt_def and_then_Inr split: if_splits)
  qed
qed

lemma receipt_fits:
  assumes "journal_ok H p role j" "excluded_dead H V p j" "\<And>b. canary = Some b \<Longrightarrow> 0 < tc_max_alpha_rao b"
    "\<And>r. intent = Some r \<Longrightarrow> 0 < mq_amount_rao r" "map_of (claim_map (open_intents j)) (max_id j + 1) = None"
    "tick_receipt H V p chain rid canary intent observed j = Inr (Reserve j2 c)"
  shows "j2 = j \<or> (\<exists>x. j2 = add_event (Canary_Receipt_Reserved x) j)" "fits p j c"
proof -
  obtain row rep parts rows remaining where row: "row \<in> set (cj_earnings j)" and rep: "canary_replacement H V j p = Inr rep"
    and parts: "receipt_parts p (fz_amount_rao (er_earned row)) = Inr parts"
    and rows: "source_operations j (er_block row) (excluded_id rep) = Inr rows" and rem: "remaining_distribution parts rows = Inr remaining"
    and leg: "tick_leg p observed canary intent row remaining j = Inr (Reserve j2 c)"
    using tick_receipt_Reserve [OF assms(6)] .
  show "j2 = j \<or> (\<exists>x. j2 = add_event (Canary_Receipt_Reserved x) j)" by (rule tick_leg_Reserve(1) [OF leg])
  obtain d amount where d: "d \<in> set remaining" "amount \<le> dn_alpha_rao d"
    and c: "c = transfer_claim p amount (dn_bucket_id d) (dn_holding_coldkey d) (er_block row) observed" and pos: "0 < dn_alpha_rao d \<Longrightarrow> 0 < amount"
    using tick_leg_Reserve(2) [OF leg] assms(3,4) by blast
  note room = receipt_room [OF assms(2) parts rep rows rem d(1)]
  let ?I = "open_intents j"
  have "conserved p (cj_operations j @ [o1]) ?I (cj_earnings j)"
    if o1: "op_bucket o1 = Some (dn_bucket_id d)" "op_source_block o1 = Some (er_block row)" "op_amount o1 = amount" for o1
  proof (rule conserved_reserve [OF _ o1(1)])
    show "conserved p (cj_operations j) ?I (cj_earnings j)" using assms(1) by (simp add: journal_ok_def)
    fix block assume "attributed (claim_map ?I) block (int (length (cj_operations j)) + 1, o1) \<noteq> []"
    then have block: "block = er_block row" using assms(5) o1(2) by (auto simp: attributed_def max_id_def split: if_splits)
    have "draw (claim_map ?I) block (int (length (cj_operations j)) + 1) o1 = amount" using assms(5) o1 by (simp add: draw_def max_id_def block)
    then show "\<exists>e\<in>set (cj_earnings j). er_block e = block
       \<and> live_sum (dn_bucket_id d) (drawn (cj_operations j) ?I block) + draw (claim_map ?I) block (int (length (cj_operations j)) + 1) o1
          \<le> entitlement p (fz_amount_rao (er_earned e)) (dn_bucket_id d)"
      using row room(1) d(2) block by (intro bexI [of _ row]) simp_all
  qed
  then show "fits p j c" using pos [OF room(2)] assms(5) by (simp add: fits_def c transfer_claim_def explained_def)
qed

lemma canary_positive:
  assumes "transfer_canary H V j p role requested = Inr (j1, Some c)" "sound_intents (open_intents j1)"
    "\<And>r. requested = Some r \<Longrightarrow> 0 < tc_max_alpha_rao r"
  shows "0 < tc_max_alpha_rao c"
proof (cases "open_intents j1 = []")
  case False
  then show ?thesis using transfer_canary_Inr(3) [OF assms(1) refl] assms(2) by (simp add: manual_canary_def sound_intents_def sound_batch(2))
next
  case True
  obtain x where x: "existing_canary H V j p = Inr x" using assms(1) by (auto simp: transfer_canary_def and_then_Inr)
  have "x = Some b \<Longrightarrow> 0 < tc_max_alpha_rao b" for b
    using x by (auto simp: existing_canary_def canary_replacement_def and_then_Inr check_canary_def bounded_def split: list.splits option.splits)
  moreover have "x = Some c \<or> requested = Some c"
    using assms(1) x True by (auto simp: transfer_canary_def and_then_Inr Let_def dest!: manual_history_Inr(1) split: option.splits if_splits)
  ultimately show ?thesis using assms(3) by blast
qed

subsection \<open>A tick keeps the invariant\<close>

lemma tick_pending_Inr:
  assumes "tick_pending chain observed (i, o1) j = Inr step"
  shows "\<exists>j1 status. step = Over j1 status \<and> (j1 = j \<or> (\<exists>n. j1 = set_operation i (\<lambda>x. x\<lparr>op_reconciled_through := n\<rparr>) j)
    \<or> (\<exists>st s es. j1 = fold add_event es (set_operation i (\<lambda>x. x\<lparr>op_state := st, op_settlement := Some s\<rparr>) j) \<and> list_all neutral es))"
proof -
  obtain result where r: "ch_reconcile chain (i, o1) observed = Inr result" using assms by (auto simp: tick_pending_def and_then_Inr)
  let ?j = "set_operation i (\<lambda>x. x\<lparr>op_state := sl_status result, op_settlement := Some result\<rparr>) j"
  show ?thesis
  proof (cases "sl_status result = ''pending''")
    case True
    then show ?thesis using assms r by (auto simp: tick_pending_def and_then_Inr split: option.splits)
  next
    case False
    then have "step = Over (fold add_event [Settled i result] ?j) (sl_status result)
        \<or> step = Over (fold add_event [Settled i result, Collector_Uid_Rebound result] ?j) (sl_status result)"
      using assms r by (auto simp: tick_pending_def and_then_Inr Let_def split: if_splits)
    moreover have "list_all neutral [Settled i result]" "list_all neutral [Settled i result, Collector_Uid_Rebound result]"
      by (simp_all add: neutral_def)
    ultimately show ?thesis by blast
  qed
qed

lemma ok_neutrals: "journal_ok H p role j \<Longrightarrow> list_all neutral es \<Longrightarrow> journal_ok H p role (fold add_event es j)"
  by (induction es arbitrary: j) (auto intro: ok_neutral)

lemma tick_pending_ok:
  assumes "journal_ok H p role j" "pending_operation j = Some pending" "tick_pending chain observed pending j = Inr step"
  shows "\<exists>j1 status. step = Over j1 status \<and> journal_ok H p role j1"
proof -
  obtain i o1 where p: "pending = (i, o1)" by (cases pending)
  note row = ok_settle [OF assms(1) assms(2) [unfolded p]]
  have "journal_ok H p role (set_operation i (\<lambda>x. x\<lparr>op_reconciled_through := n\<rparr>) j)" for n by (rule row) simp
  moreover have "journal_ok H p role (set_operation i (\<lambda>x. x\<lparr>op_state := st, op_settlement := Some s\<rparr>) j)" for st s by (rule row) simp
  ultimately show ?thesis using tick_pending_Inr [OF assms(3) [unfolded p]] assms(1) ok_neutrals by blast
qed

lemma tick_receipt_over:
  assumes "journal_ok H p role j" "tick_receipt H V p chain rid canary intent observed j = Inr (Over j1 status)"
  shows "journal_ok H p role j1"
proof -
  have leg: "j1 = complete_receipt row j" if "tick_leg p observed canary x row remaining j = Inr (Over j1 status)" for x row remaining
    using that by (auto simp: tick_leg_def and_then_Inr Let_def split: option.splits)
  have "j1 = j \<or> scan_finalized_earnings H p chain (ov_block observed) 32 j = Inr j1 \<or> (\<exists>row. j1 = complete_receipt row j)"
    using assms(2) by (auto simp: tick_receipt_def and_then_Inr dest: leg split: if_splits option.splits)
  then show ?thesis using assms(1) by (auto simp: scan_finalized_earnings_def intro: ok_scan ok_completed)
qed

lemma tick_transfer_step:
  assumes "tick_transfer H V p chain rid canary manual observed j = Inr step"
  shows "(\<exists>batch. manual \<noteq> [] \<and> mq_batch (last manual) = Some batch \<and> tick_batch H V p chain rid (last manual) batch observed j = Inr step)
    \<or> (manual = [] \<or> mq_batch (last manual) = None)
      \<and> tick_receipt H V p chain rid canary (if manual = [] then None else Some (last manual)) observed j = Inr step"
  using assms by (auto simp: tick_transfer_def and_then_Inr split: if_splits option.splits)

lemma tick_batch_over: "tick_batch H V p chain rid intent batch observed j = Inr (Over j1 status) \<Longrightarrow> j1 = j"
  by (auto simp: tick_batch_def and_then_Inr split: if_splits)

lemma reserve_Inr:
  assumes "reserve H p chain role manual c j = Inr (j', encoded)"
  obtains o1 where "j' = add_event (Dispatch_Reserved (sg_extrinsic_hash (op_signed o1)) (collector_digest H p) role) (j\<lparr>cj_operations := cj_operations j @ [o1]\<rparr>)"
    "sg_encoded (op_signed o1) = encoded" "op_state o1 = ''dispatching''" "op_role o1 = role"
    "op_amount o1 = (if role = ''registration'' then cl_amount c + kp_max_fee_rao p else cl_amount c)"
    "op_source_block o1 = cl_source_block c" "op_bucket o1 = cl_bucket c" "op_destination o1 = cl_destination c" "op_call o1 = cl_call c"
    "0 \<le> sg_fee_rao (op_signed o1)" "sg_fee_rao (op_signed o1) \<le> kp_max_fee_rao p" "op_at_block o1 = sg_start_block (op_signed o1)"
    "sg_start_block (op_signed o1) < sg_expires_block (op_signed o1)" "sg_expires_block (op_signed o1) \<le> sg_start_block (op_signed o1) + 128"
proof -
  obtain signed where "0 \<le> sg_fee_rao signed" "sg_fee_rao signed \<le> kp_max_fee_rao p" "sg_start_block signed = ov_block (cl_observed c)"
    "ov_block (cl_observed c) < sg_expires_block signed" "sg_expires_block signed \<le> ov_block (cl_observed c) + 128" "sg_encoded signed = encoded"
    and j': "j' = add_event (Dispatch_Reserved (sg_extrinsic_hash signed) (collector_digest H p) role)
       (j\<lparr>cj_operations := cj_operations j @ [\<lparr>op_state = ''dispatching'', op_role = role,
           op_amount = (if role = ''registration'' then cl_amount c + kp_max_fee_rao p else cl_amount c),
           op_source_block = cl_source_block c, op_bucket = cl_bucket c, op_destination = cl_destination c, op_call = cl_call c,
           op_signed = signed, op_at_block = ov_block (cl_observed c), op_settlement = None, op_reconciled_through = 0\<rparr>]\<rparr>)"
    using assms unfolding reserve_def Let_def and_then_Inr by auto
  then show thesis
    using that [of "\<lparr>op_state = ''dispatching'', op_role = role,
           op_amount = (if role = ''registration'' then cl_amount c + kp_max_fee_rao p else cl_amount c),
           op_source_block = cl_source_block c, op_bucket = cl_bucket c, op_destination = cl_destination c, op_call = cl_call c,
           op_signed = signed, op_at_block = ov_block (cl_observed c), op_settlement = None, op_reconciled_through = 0\<rparr>"] by simp
qed

lemma tick_Inr:
  assumes "tick H V p chain role canary rid j = Inr (j', status, sent)"
  obtains (idle) "j' = j" "sent = None"
  | (spent) bound where "transfer_canary H V j p role canary = Inr (j', bound)" "sent = None"
  | (step) j1 bound observed st where "transfer_canary H V j p role canary = Inr (j1, bound)" "cj_pin j = Some (collector_digest H p, role)"
    "\<And>c. bound = Some c \<Longrightarrow> \<not> list_ex (\<lambda>(i, o1). tc_after_operation c < i \<and> op_state o1 \<noteq> ''dispatching'') (numbered (cj_operations j1))"
    "(case pending_operation j1 of Some pending \<Rightarrow> tick_pending chain observed pending j1
      | None \<Rightarrow> if role = ''registration'' then tick_registration p observed j1
                else tick_transfer H V p chain rid bound (open_intents j1) observed j1) = Inr st"
    "case st of Over j2 _ \<Rightarrow> j' = j2 \<and> sent = None
      | Reserve j2 c \<Rightarrow> \<exists>encoded. sent = Some encoded \<and> reserve H p chain role (open_intents j1) c j2 = Inr (j', encoded)"
proof (cases "kp_enabled p")
  case False
  then show ?thesis using assms idle by (simp add: tick_def)
next
  case True
  obtain j1 bound manual where pin: "cj_pin j = Some (collector_digest H p, role)" and c: "transfer_canary H V j p role canary = Inr (j1, bound)"
    and h: "manual_transfer_history H V j1 p = Inr manual"
    using assms True by (auto simp: tick_def require_pin_def and_then_Inr)
  note m = manual_history_Inr(1) [OF h]
  let ?spent = "case bound of None \<Rightarrow> False | Some c \<Rightarrow>
            list_ex (\<lambda>(i, o1). tc_after_operation c < i \<and> op_state o1 \<noteq> ''dispatching'') (numbered (cj_operations j1))"
  show ?thesis
  proof (cases ?spent)
    case t: True
    have "j' = j1 \<and> sent = None" using assms True c h t by (auto simp: tick_def and_then_Inr)
    then show ?thesis using spent c by blast
  next
    case f: False
    obtain observed st where st: "(case pending_operation j1 of Some pending \<Rightarrow> tick_pending chain observed pending j1
        | None \<Rightarrow> if role = ''registration'' then tick_registration p observed j1
                else tick_transfer H V p chain rid bound manual observed j1) = Inr st"
      and e: "(case st of Over j2 status \<Rightarrow> Inr (j2, status, None)
        | Reserve j2 c \<Rightarrow> and_then (reserve H p chain role manual c j2) (\<lambda>(j3, encoded). Inr (j3, ''dispatching'', Some encoded))) = Inr (j', status, sent)"
      using assms True c h f by (auto simp: tick_def and_then_Inr)
    have "case st of Over j2 _ \<Rightarrow> j' = j2 \<and> sent = None
      | Reserve j2 c \<Rightarrow> \<exists>encoded. sent = Some encoded \<and> reserve H p chain role manual c j2 = Inr (j', encoded)"
      using e by (cases st) (auto simp: and_then_Inr)
    then show ?thesis using step [OF c pin] f st unfolding m by (auto split: option.splits)
  qed
qed

end
