(* ===== verification/Collector_Runs.thy ===== *)
theory Collector_Runs
  imports Collector_Safety
begin

section \<open>Runs of the collector\<close>

text \<open>
  The commands a process may issue against a journal, each with the answers of the chain adapter during that call, and what holds
  after any sequence of them. A canary or an intent reaches the journal only through its constructor, which checks it.
\<close>

datatype collector_command =
    Tick string "canary option" "string option"
  | Arm manual_transfer bool
  | Expire_Unsigned string string
  | Replace_Canary canary string
  | Probe_Source int
  | Scan_Earnings int

fun collector_step ::
  "hash_fun \<Rightarrow> signature_verifier \<Rightarrow> collector_policy \<Rightarrow> collector_chain \<Rightarrow> collector_command \<Rightarrow> collector_journal
     \<Rightarrow> (collector_journal \<times> string option) collected" where
  "collector_step H V p chain (Tick role canary request_id) j =
     and_then (case canary of None \<Rightarrow> Inr () | Some c \<Rightarrow> check_canary c) (\<lambda>_.
     and_then (tick H V p chain role canary request_id j) (\<lambda>(j1, _, sent). Inr (j1, sent)))"
| "collector_step H V p chain (Arm r recorded) j =
     and_then (check_manual r) (\<lambda>_. and_then (arm_manual_transfer H V p chain r recorded j) (\<lambda>(j1, _). Inr (j1, None)))"
| "collector_step H V p chain (Expire_Unsigned request_id reason) j =
     and_then (expire_unsigned_manual H V p chain request_id reason j) (\<lambda>(j1, _). Inr (j1, None))"
| "collector_step H V p chain (Replace_Canary c reason) j =
     and_then (check_canary c) (\<lambda>_. and_then (replace_failed_canary H V p chain c reason j) (\<lambda>j1. Inr (j1, None)))"
| "collector_step H V p chain (Probe_Source block) j =
     and_then (observe_earning_source H V p chain block j) (\<lambda>j1. Inr (j1, None))"
| "collector_step H V p chain (Scan_Earnings max_blocks) j =
     and_then (observe_earnings H p chain max_blocks j) (\<lambda>(j1, _). Inr (j1, None))"

inductive collector_run :: "hash_fun \<Rightarrow> signature_verifier \<Rightarrow> collector_policy \<Rightarrow> string \<Rightarrow> collector_journal \<Rightarrow> bool" for H V p role where
  start: "check_collector_policy p = Inr () \<Longrightarrow> create_journal H p role = Inr j \<Longrightarrow> collector_run H V p role j"
| step: "collector_run H V p role j \<Longrightarrow> collector_step H V p chain command j = Inr (j', sent) \<Longrightarrow> collector_run H V p role j'"

subsection \<open>Each command keeps the invariant\<close>

lemma ok_registration_reserve:
  assumes "journal_ok H p ''registration'' j" "pending_operation j = None" "tick_registration p observed j = Inr (Reserve j2 c)"
    "reserve H p chain ''registration'' manual c j2 = Inr (j', encoded)" "0 \<le> kp_max_registration_burn_rao p" "0 \<le> kp_max_fee_rao p"
  shows "journal_ok H p ''registration'' j'"
proof -
  have c: "j2 = j" "cl_amount c = kp_max_registration_burn_rao p" "cl_source_block c = None" "cl_bucket c = None"
    "kp_max_registration_burn_rao p + kp_max_fee_rao p + sum_list (map op_amount (cj_operations j)) \<le> kp_registration_budget_rao p"
    using assms(3) by (auto simp: tick_registration_def and_then_Inr Let_def sql_sum_def split: if_splits)
  obtain o1 where o1: "j' = add_event (Dispatch_Reserved (sg_extrinsic_hash (op_signed o1)) (collector_digest H p) ''registration'') (j\<lparr>cj_operations := cj_operations j @ [o1]\<rparr>)"
    "op_amount o1 = kp_max_registration_burn_rao p + kp_max_fee_rao p" "op_source_block o1 = None"
    using reserve_Inr [OF assms(4)] c by auto
  have i: "open_intents j = []" using assms(1) by (simp add: journal_ok_def open_intents_def)
  have "attributed (claim_map []) block (k, o1) = []" for block k using o1(3) by (simp add: attributed_def claim_map_def)
  then have "conserved p (cj_operations j @ [o1]) [] (cj_earnings j)"
    using assms(1) by (simp add: journal_ok_def i conserved_def drawn_snoc)
  then have "journal_ok H p ''registration'' (j\<lparr>cj_operations := cj_operations j @ [o1]\<rparr>)"
    using c(5) o1(2) assms(5,6) by (intro ok_reserve [OF assms(1,2)]) (simp_all add: i explained_def claim_map_def)
  then show ?thesis unfolding o1(1) by (rule ok_neutral) (simp add: neutral_def)
qed

lemma fits_neutral: "neutral e \<Longrightarrow> fits p (add_event e j) c = fits p j c"
  by (simp add: fits_def intents_neutral)

lemma pending_event [simp]: "pending_operation (add_event e j) = pending_operation j"
  by (simp add: pending_operation_def)

lemma ok_transfer_reserve:
  assumes "journal_ok H p ''transfer'' j" "pending_operation j = None" "fits p j c"
    "reserve H p chain ''transfer'' manual c j = Inr (j', encoded)"
  shows "journal_ok H p ''transfer'' j'"
proof -
  obtain o1 where o1: "j' = add_event (Dispatch_Reserved (sg_extrinsic_hash (op_signed o1)) (collector_digest H p) ''transfer'') (j\<lparr>cj_operations := cj_operations j @ [o1]\<rparr>)"
    "op_role o1 = ''transfer''" "op_amount o1 = cl_amount c" "op_source_block o1 = cl_source_block c" "op_bucket o1 = cl_bucket c"
    using reserve_Inr [OF assms(4)] by auto
  have "journal_ok H p ''transfer'' (j\<lparr>cj_operations := cj_operations j @ [o1]\<rparr>)"
    using assms(3) o1(2-5) by (intro ok_reserve [OF assms(1,2)]) (auto simp: fits_def)
  then show ?thesis unfolding o1(1) by (rule ok_neutral) (simp add: neutral_def)
qed

lemma transfer_fits:
  assumes "journal_ok H p role j" "pending_operation j = None" "excluded_dead H V p j"
    "\<And>c. bound = Some c \<Longrightarrow> 0 < tc_max_alpha_rao c \<and> (open_intents j \<noteq> [] \<longrightarrow> c = manual_canary (last (open_intents j)))
        \<and> \<not> list_ex (\<lambda>(i, o1). tc_after_operation c < i \<and> op_state o1 \<noteq> ''dispatching'') (numbered (cj_operations j))"
    "bound = None \<Longrightarrow> open_intents j = []"
    "tick_transfer H V p chain rid bound (open_intents j) observed j = Inr (Reserve j2 c)"
  shows "j2 = j \<or> (\<exists>x. j2 = add_event (Canary_Receipt_Reserved x) j)" "fits p j c"
proof -
  let ?I = "open_intents j"
  have at: "mq_after_operation (last ?I) = max_id j" if "?I \<noteq> []"
  proof -
    obtain b where "bound = Some b" using assms(5) \<open>?I \<noteq> []\<close> by blast
    then show ?thesis using assms(4) [of b] \<open>?I \<noteq> []\<close> by (intro intent_position [OF assms(1) _ assms(2)]) (auto simp: manual_canary_def)
  qed
  note sound = ok_intents(1) [OF assms(1), unfolded sound_intents_def]
  let ?intent = "if ?I = [] then None else Some (last ?I)"
  have pos: "0 < tc_max_alpha_rao b" if "bound = Some b" for b using assms(4) that by blast
  have amount: "0 < mq_amount_rao r" if "?intent = Some r" for r using that sound sound_batch(2) by (auto split: if_splits)
  have "(j2 = j \<or> (\<exists>x. j2 = add_event (Canary_Receipt_Reserved x) j)) \<and> fits p j c"
  proof (rule disjE [OF tick_transfer_step [OF assms(6)]])
    assume "\<exists>batch. ?I \<noteq> [] \<and> mq_batch (last ?I) = Some batch \<and> tick_batch H V p chain rid (last ?I) batch observed j = Inr (Reserve j2 c)"
    then show ?thesis using batch_fits [OF assms(1) _ refl at _ assms(3)] by blast
  next
    assume "(?I = [] \<or> mq_batch (last ?I) = None) \<and> tick_receipt H V p chain rid bound ?intent observed j = Inr (Reserve j2 c)"
    then have receipt: "?I = [] \<or> mq_batch (last ?I) = None" "tick_receipt H V p chain rid bound ?intent observed j = Inr (Reserve j2 c)" by simp_all
    have "map_of (claim_map ?I) (max_id j + 1) = None"
    proof (cases "?I = []")
      case False
      then show ?thesis using last_claim [OF ok_intents(2) [OF assms(1)] False] at [OF False] receipt(1) by simp
    qed (simp add: claim_map_def)
    then show ?thesis using receipt_fits [OF assms(1,3) pos amount _ receipt(2)] by blast
  qed
  then show "j2 = j \<or> (\<exists>x. j2 = add_event (Canary_Receipt_Reserved x) j)" "fits p j c" by blast+
qed

lemma tick_ok:
  assumes "journal_ok H p role j" "check_collector_policy p = Inr ()" "\<And>c. canary = Some c \<Longrightarrow> check_canary c = Inr ()"
    "role \<in> {''registration'', ''transfer''}" "tick H V p chain r canary rid j = Inr (j', status, sent)"
  shows "journal_ok H p role j'"
  using assms(5)
proof (cases rule: tick_Inr)
  case idle
  then show ?thesis using assms(1) by simp
next
  case (spent bound)
  then show ?thesis using ok_canary_armed [OF assms(1)] by blast
next
  case (step j1 bound observed st)
  have r: "r = role" using step(2) assms(1) by (simp add: journal_ok_def)
  note canary = step(1) [unfolded r]
  have ok: "journal_ok H p role j1" by (rule ok_canary_armed [OF assms(1) canary])
  show ?thesis
  proof (cases "pending_operation j1")
    case (Some pending)
    then have "tick_pending chain observed pending j1 = Inr st" using step(4) by simp
    then obtain j2 s where "st = Over j2 s" "journal_ok H p role j2" using tick_pending_ok [OF ok Some] by blast
    then show ?thesis using step(5) by simp
  next
    case None
    show ?thesis
    proof (cases "role = ''registration''")
      case True
      have t: "tick_registration p observed j1 = Inr st" using step(4) None True r by simp
      have pos: "0 \<le> kp_max_registration_burn_rao p" "0 \<le> kp_max_fee_rao p"
        using assms(2) by (auto simp: check_collector_policy_def and_then_Inr bounded_def)
      show ?thesis
      proof (cases st)
        case (Over j2 s)
        then show ?thesis using t step(5) ok by (auto simp: tick_registration_def and_then_Inr Let_def split: if_splits)
      next
        case (Reserve j2 c)
        then show ?thesis using ok_registration_reserve [OF ok [unfolded True] None t [unfolded Reserve] _ pos] step(5) r True by auto
      qed
    next
      case False
      then have role: "role = ''transfer''" using assms(4) by simp
      have t: "tick_transfer H V p chain rid bound (open_intents j1) observed j1 = Inr st" using step(4) None False r by simp
      show ?thesis
      proof (cases st)
        case (Over j2 s)
        then show ?thesis using t step(5) ok tick_transfer_step [OF t] tick_batch_over tick_receipt_over by fastforce
      next
        case (Reserve j2 c)
        have sound: "sound_intents (open_intents j1)" by (rule ok_intents(1) [OF ok])
        have "0 < tc_max_alpha_rao b" if "bound = Some b" for b
          using canary_positive [OF canary [unfolded that] sound] assms(3) by (auto simp: check_canary_def bounded_def)
        moreover have "open_intents j1 = []" if "bound = None"
        proof -
          have "canary_rows j = []" by (rule transfer_canary_Inr(2) [OF canary that])
          then have "armed_rows j = []" using assms(1) by (simp add: journal_ok_def)
          then show ?thesis using transfer_canary_Inr(1) [OF canary] by (auto simp: open_intents_def rows_add_event)
        qed
        ultimately have f: "j2 = j1 \<or> (\<exists>x. j2 = add_event (Canary_Receipt_Reserved x) j1)" "fits p j1 c"
          using transfer_fits [OF ok None transfer_canary_Inr(4) [OF canary] _ _ t [unfolded Reserve]] transfer_canary_Inr(3) [OF canary] step(3)
          by blast+
        have "journal_ok H p role j2 \<and> fits p j2 c \<and> pending_operation j2 = None"
          using f None ok by (auto simp: fits_neutral neutral_def intro: ok_neutral)
        then show ?thesis using step(5) Reserve r role ok_transfer_reserve by fastforce
      qed
    qed
  qed
qed

lemma arm_Inr:
  assumes "arm_manual_transfer H V p chain r recorded j = Inr (j', s)" "j' \<noteq> j"
  shows "j' = add_event (Manual_Transfer_Armed (collector_digest H p) r) j" "mq_request_id r \<notin> expired_ids j"
    "cj_pin j = Some (collector_digest H p, ''transfer'')"
    "\<exists>c. transfer_canary H V j p ''transfer'' None = Inr (j, Some c) \<and> max_id j = mq_after_operation r \<and> max_id j = tc_after_operation c + 1"
proof -
  obtain history where front: "mq_request_id r \<notin> expired_ids j" "cj_pin j = Some (collector_digest H p, ''transfer'')"
    and h: "manual_transfer_history H V j p = Inr history" "find (\<lambda>q. mq_request_id q = mq_request_id r) history = None"
    using assms by (auto simp: arm_manual_transfer_def require_pin_def and_then_Inr split: option.splits)
  obtain j1 c where c: "transfer_canary H V j p ''transfer'' None = Inr (j1, Some c)"
    "max_id j1 = mq_after_operation r" "max_id j1 = tc_after_operation c + 1" and e: "(j', s) = arm_event H p r recorded j1"
    using assms(1) h by (auto simp: arm_manual_transfer_def and_then_Inr split: option.splits)
  have "j1 = j" by (rule transfer_canary_Inr(5) [OF c(1) refl])
  then show "j' = add_event (Manual_Transfer_Armed (collector_digest H p) r) j" "mq_request_id r \<notin> expired_ids j"
    "cj_pin j = Some (collector_digest H p, ''transfer'')"
    "\<exists>c. transfer_canary H V j p ''transfer'' None = Inr (j, Some c) \<and> max_id j = mq_after_operation r \<and> max_id j = tc_after_operation c + 1"
    using front c e assms(2) by (auto simp: arm_event_def split: if_splits)
qed

lemma sorted_wrt_map_last: "sorted_wrt (<) (map f xs) \<Longrightarrow> x \<in> set xs \<Longrightarrow> f x \<le> (f (last xs) :: int)"
  by (induction xs) (auto, metis last_in_set less_imp_le)

lemma explained_new_intent:
  assumes "mq_after_operation r = int (length ops)"
  shows "(\<forall>row\<in>set (numbered ops). explained (claim_map (intents @ [r])) row) \<longleftrightarrow> (\<forall>row\<in>set (numbered ops). explained (claim_map intents) row)"
proof (rule ball_cong [OF refl])
  fix row assume "row \<in> set (numbered ops)"
  moreover obtain i o1 where row: "row = (i, o1)" by (cases row)
  ultimately have "i \<le> int (length ops)" by (auto simp: in_numbered row_at_def split: if_splits)
  then have "map_of (claim_map [r]) i = None" using assms by (intro claim_map_miss) auto
  then show "explained (claim_map (intents @ [r])) row = explained (claim_map intents) row"
    by (simp add: row explained_def claim_map_append map_add_def split: option.split)
qed

lemma arm_ok:
  assumes "journal_ok H p role j" "check_manual r = Inr ()" "arm_manual_transfer H V p chain r recorded j = Inr (j', s)"
  shows "journal_ok H p role j'"
proof (cases "j' = j")
  case False
  note arm = arm_Inr [OF assms(3) False]
  obtain c where c: "transfer_canary H V j p ''transfer'' None = Inr (j, Some c)" "max_id j = mq_after_operation r" "max_id j = tc_after_operation c + 1"
    using arm(4) by blast
  have role: "role = ''transfer''" using arm(3) assms(1) by (simp add: journal_ok_def)
  obtain x where "existing_canary H V j p = Inr x" "x \<noteq> None" using c(1) by (auto simp: transfer_canary_def and_then_Inr split: option.splits if_splits)
  then have rows: "canary_rows j \<noteq> []" using existing_canary_Inr(1) by blast
  let ?I = "open_intents j"
  have new: "open_intents j' = ?I @ [r]" "canary_rows j' = canary_rows j"
    using arm(1,2) by (simp_all add: open_intents_def expired_ids_def rows_add_event)
  have tables: "cj_operations j' = cj_operations j" "cj_earnings j' = cj_earnings j" "cj_pin j' = cj_pin j" "max_id j' = max_id j" by (simp_all add: arm(1))
  have "mq_after_operation q < mq_after_operation r" if "q \<in> set ?I" for q
  proof -
    have "mq_after_operation (last ?I) < max_id j" using transfer_canary_Inr(3) [OF c(1) refl] c(3) that by (force simp: manual_canary_def)
    moreover have "mq_after_operation q \<le> mq_after_operation (last ?I)"
      using sorted_wrt_map_last [OF ok_intents(2) [OF assms(1)] that] .
    ultimately show ?thesis using c(2) by simp
  qed
  moreover have "conserved p (cj_operations j) (?I @ [r]) (cj_earnings j)"
    using assms(1) c(2) by (intro conserved_new_intent) (simp_all add: journal_ok_def max_id_def)
  moreover have "\<forall>row\<in>set (numbered (cj_operations j)). explained (claim_map (?I @ [r])) row"
    using assms(1) c(2) by (subst explained_new_intent) (simp_all add: journal_ok_def max_id_def)
  ultimately show ?thesis
    using assms(1,2) rows c(2) unfolding journal_ok_def new tables role by (auto simp: sound_intents_def sorted_wrt_append)
qed (use assms(1) in simp)

lemma expire_Inr:
  assumes "expire_unsigned_manual H V p chain rid reason j = Inr (j', x)"
  shows "j' = add_event (Manual_Unsigned_Expired x) j" "ue_request_id x = rid" "open_intents j \<noteq> []"
    "mq_request_id (last (open_intents j)) = rid" "mq_after_operation (last (open_intents j)) = max_id j"
    "distinct (map (\<lambda>row. mq_request_id (snd (snd row))) (armed_rows j))"
proof -
  obtain history where h: "manual_transfer_history H V j p = Inr history" "history \<noteq> []" "mq_request_id (last history) = rid"
    using assms by (auto simp: expire_unsigned_manual_def and_then_Inr)
  note m = manual_history_Inr [OF h(1)]
  show "distinct (map (\<lambda>row. mq_request_id (snd (snd row))) (armed_rows j))" by (rule m(2))
  show "open_intents j \<noteq> []" "mq_request_id (last (open_intents j)) = rid" using h(2,3) by (simp_all add: m(1))
  show "j' = add_event (Manual_Unsigned_Expired x) j" "ue_request_id x = rid" "mq_after_operation (last (open_intents j)) = max_id j"
    using assms h by (auto simp: expire_unsigned_manual_def and_then_Inr Let_def m(1) split: option.splits prod.splits)
qed

lemma expire_ok:
  assumes "journal_ok H p role j" "expire_unsigned_manual H V p chain rid reason j = Inr (j', x)"
  shows "journal_ok H p role j'"
proof -
  note ex = expire_Inr [OF assms(2)]
  let ?I = "open_intents j"
  obtain xs r where i: "?I = xs @ [r]" using ex(3) by (metis rev_exhaust)
  have ids: "distinct (map mq_request_id ?I)"
    unfolding open_intents_def using ex(6) by (intro distinct_map_filter) (simp add: comp_def)
  have "open_intents j' = filter (\<lambda>q. mq_request_id q \<noteq> rid) ?I"
    using ex(1,2) by (auto simp: open_intents_def expired_ids_def rows_add_event intro!: filter_cong)
  then have new: "open_intents j' = xs" using ex(4) ids by (auto simp: i filter_id_conv, metis imageI)
  have rows: "armed_rows j' = armed_rows j" "canary_rows j' = canary_rows j" "cj_operations j' = cj_operations j" "cj_earnings j' = cj_earnings j"
    "cj_pin j' = cj_pin j" "max_id j' = max_id j" by (simp_all add: ex(1) rows_add_event)
  have r: "mq_after_operation r = int (length (cj_operations j))" using ex(5) by (simp add: i max_id_def)
  have "conserved p (cj_operations j) xs (cj_earnings j)" "\<forall>row\<in>set (numbered (cj_operations j)). explained (claim_map xs) row"
    using assms(1) conserved_drop_intent [OF _ r] explained_new_intent [OF r] unfolding journal_ok_def i by blast+
  then show ?thesis using assms(1) unfolding journal_ok_def new rows i by (auto simp: sound_intents_def sorted_wrt_append)
qed

lemma replace_ok:
  assumes "journal_ok H p role j" "replace_failed_canary H V p chain c reason j = Inr j'"
  shows "journal_ok H p role j'"
proof -
  obtain j1 bound where t: "transfer_canary H V j p ''transfer'' None = Inr (j1, bound)" and e: "\<exists>b. j' = add_event (Transfer_Canary_Replaced b) j1"
    using assms(2) by (auto simp: replace_failed_canary_def and_then_Inr Let_def split: option.splits)
  then show ?thesis using ok_canary_armed [OF assms(1) t] by (auto simp: neutral_def intro: ok_neutral)
qed

lemma call_ok:
  assumes "journal_ok H p role j" "check_collector_policy p = Inr ()" "role \<in> {''registration'', ''transfer''}"
    "collector_step H V p chain command j = Inr (j', sent)"
  shows "journal_ok H p role j'"
proof (cases command)
  case (Tick r canary rid)
  have "\<And>c. canary = Some c \<Longrightarrow> check_canary c = Inr ()" using assms(4) Tick by (auto simp: and_then_Inr)
  moreover obtain status where "tick H V p chain r canary rid j = Inr (j', status, sent)" using assms(4) Tick by (auto simp: and_then_Inr)
  ultimately show ?thesis using tick_ok [OF assms(1,2) _ assms(3)] by blast
next
  case (Arm r recorded)
  then show ?thesis using assms(4) arm_ok [OF assms(1)] by (auto simp: and_then_Inr)
next
  case (Expire_Unsigned rid reason)
  then show ?thesis using assms(4) expire_ok [OF assms(1)] by (auto simp: and_then_Inr)
next
  case (Replace_Canary c reason)
  then show ?thesis using assms(4) replace_ok [OF assms(1)] by (auto simp: and_then_Inr)
next
  case (Probe_Source block)
  then obtain j1 earned where "record_earning H p block earned j = Inr j1" "j' = add_event (Manual_Source_Probed (collector_digest H p) block) j1"
    using assms(4) by (auto simp: observe_earning_source_def and_then_Inr split: option.splits)
  then show ?thesis using ok_earning [OF assms(1)] by (auto simp: neutral_def intro: ok_neutral)
next
  case (Scan_Earnings n)
  then show ?thesis using assms ok_scan [OF assms(1)]
    by (auto simp: observe_earnings_def scan_finalized_earnings_def and_then_Inr split: if_splits)
qed

lemma create_ok:
  assumes "check_collector_policy p = Inr ()" "create_journal H p role = Inr j"
  shows "journal_ok H p role j" "role \<in> {''registration'', ''transfer''}"
proof -
  have "0 \<le> kp_registration_budget_rao p" using assms(1) by (auto simp: check_collector_policy_def and_then_Inr bounded_def)
  then show "journal_ok H p role j" using assms(2)
    by (auto simp: create_journal_def and_then_Inr journal_ok_def armed_rows_def open_intents_def sound_intents_def conserved_def drawn_def List.map_filter_simps)
  show "role \<in> {''registration'', ''transfer''}" using assms(2) by (auto simp: create_journal_def and_then_Inr)
qed

lemma run_ok: "collector_run H V p role j \<Longrightarrow> journal_ok H p role j \<and> check_collector_policy p = Inr () \<and> role \<in> {''registration'', ''transfer''}"
proof (induction rule: collector_run.induct)
  case (start j)
  then show ?case using create_ok by blast
next
  case (step j chain command j' sent)
  then show ?case using call_ok by blast
qed

subsection \<open>What a tick sends\<close>

lemma settle_paid_positive: "settle_paid expected rows paid = Inr paid' \<Longrightarrow> \<forall>o1\<in>set rows. 0 < op_amount o1"
  by (induction rows arbitrary: paid) (auto simp: and_then_Inr split: option.splits bind_splits)

lemma remaining_le:
  assumes "receipt_parts p amount = Inr parts" "remaining_distribution parts rows = Inr remaining" "d \<in> set remaining"
  shows "dn_alpha_rao d \<le> amount"
proof -
  obtain e where "e \<in> set parts" "dn_bucket_id e = dn_bucket_id d"
    using assms(2,3) by (auto simp: remaining_distribution_def and_then_Inr)
  then have "entitlement p amount (dn_bucket_id d) \<le> amount" using entitlement_of [OF assms(1)] parts_ok(2) [OF assms(1)] by force
  moreover have "0 \<le> bucket_sum b rows" for b
  proof -
    have "\<forall>o1\<in>set rows. 0 < op_amount o1" using assms(2) settle_paid_positive by (auto simp: remaining_distribution_def and_then_Inr)
    then show ?thesis unfolding bucket_sum_def by (intro sum_list_nonneg) (auto intro: less_imp_le)
  qed
  ultimately show ?thesis using remaining_room(1) [OF assms] by (metis add.commute add_le_same_cancel1 dual_order.trans le_add_same_cancel1 order.trans)
qed

definition approved_amount :: "hash_fun \<Rightarrow> signature_verifier \<Rightarrow> collector_policy \<Rightarrow> collector_chain \<Rightarrow> int \<Rightarrow> bool" where
  "approved_amount H V p chain amount \<longleftrightarrow> amount \<le> kp_max_distribution_rao p
     \<or> (\<exists>a l. ch_manual_approval chain = Some a \<and> verify_limit H V a (collector_digest H p) (kp_collector_coldkey p) = Inr l \<and> amount \<le> ml_max_amount_rao l)"

lemma transfer_amount:
  assumes "tick_transfer H V p chain rid canary manual observed j = Inr (Reserve j2 c)"
  shows "cj_operations j2 = cj_operations j" "approved_amount H V p chain (cl_amount c)"
proof -
  have "cj_operations j2 = cj_operations j \<and> approved_amount H V p chain (cl_amount c)"
  proof (rule disjE [OF tick_transfer_step [OF assms]])
    assume "\<exists>batch. manual \<noteq> [] \<and> mq_batch (last manual) = Some batch \<and> tick_batch H V p chain rid (last manual) batch observed j = Inr (Reserve j2 c)"
    then obtain batch where b: "tick_batch H V p chain rid (last manual) batch observed j = Inr (Reserve j2 c)" by blast
    obtain sources a where "batch = (sources, a)" by (cases batch)
    then show ?thesis using tick_batch_Reserve [OF b] validate_batch_Inr(2) [of H V j p chain "last manual" sources a observed]
      by (auto simp: approved_amount_def transfer_claim_def)
  next
    assume "(manual = [] \<or> mq_batch (last manual) = None)
      \<and> tick_receipt H V p chain rid canary (if manual = [] then None else Some (last manual)) observed j = Inr (Reserve j2 c)"
    then obtain row parts rows remaining where r: "fz_amount_rao (er_earned row) \<le> kp_max_distribution_rao p"
      "receipt_parts p (fz_amount_rao (er_earned row)) = Inr parts" "remaining_distribution parts rows = Inr remaining"
      "tick_leg p observed canary (if manual = [] then None else Some (last manual)) row remaining j = Inr (Reserve j2 c)"
      by (auto elim: tick_receipt_Reserve)
    obtain d amount where "d \<in> set remaining" "amount \<le> dn_alpha_rao d"
      "c = transfer_claim p amount (dn_bucket_id d) (dn_holding_coldkey d) (er_block row) observed" using tick_leg_Reserve(2) [OF r(4)] by blast
    moreover from this(3) have "cl_amount c = amount" by (simp add: transfer_claim_def)
    ultimately show ?thesis using tick_leg_Reserve(1) [OF r(4)] remaining_le [OF r(2,3)] r(1) by (force simp: approved_amount_def)
  qed
  then show "cj_operations j2 = cj_operations j" "approved_amount H V p chain (cl_amount c)" by simp_all
qed

subsection \<open>Examples\<close>

definition example_wallet :: "char \<Rightarrow> string" where
  "example_wallet c = replicate 48 c"

definition collector_example :: collector_policy where
  "collector_example = \<lparr>kp_genesis_hash = ''0x'' @ replicate 64 CHR ''0'', kp_runtime_code_hash = ''0x'' @ replicate 64 CHR ''1'',
     kp_collector_coldkey = example_wallet CHR ''A'', kp_collector_hotkey = example_wallet CHR ''B'',
     kp_registration_delegate = example_wallet CHR ''C'', kp_transfer_delegate = example_wallet CHR ''D'', kp_revision = 1, kp_start_block = 5,
     kp_destinations = [\<lparr>sd_bucket_id = ''gm'', sd_allocation_bps = 300, sd_holding_coldkey = example_wallet CHR ''E''\<rparr>,
       \<lparr>sd_bucket_id = ''ops'', sd_allocation_bps = 100, sd_holding_coldkey = example_wallet CHR ''F''\<rparr>],
     kp_max_registration_burn_rao = 50, kp_registration_budget_rao = 200, kp_max_fee_rao = 10, kp_fee_reserve_rao = 20,
     kp_recovery_cooldown_blocks = 5, kp_distribution_interval_blocks = 3, kp_max_distribution_rao = 1000, kp_gcp_project = ''example'',
     kp_registration_service_account = ''r.iam.gserviceaccount.com'', kp_transfer_service_account = ''t.iam.gserviceaccount.com'',
     kp_registration_secret_version = 1, kp_transfer_secret_version = 1, kp_enabled = True, kp_netuid = 118\<rparr>"

definition example_signed :: "int \<Rightarrow> signed_operation" where
  "example_signed head = \<lparr>sg_encoded = ''bytes'', sg_extrinsic_hash = ''hash'', sg_start_block = head, sg_expires_block = head + 64, sg_fee_rao = 1\<rparr>"

text \<open>An adapter at a given head: it attributes 100 to block 5, signs what it is asked to and reports a given status.\<close>

definition chain_example :: "int \<Rightarrow> int option \<Rightarrow> string \<Rightarrow> collector_chain" where
  "chain_example head uid status =
     \<lparr>ch_observe = (\<lambda>_ _. Inr \<lparr>ov_block = head, ov_block_hash = ''head'', ov_uid = uid, ov_burn_rao = 1, ov_collector_free_rao = 1000,
       ov_delegate_free_rao = 1000, ov_alpha_rao = 1000\<rparr>),
      ch_earnings = (\<lambda>block. Inr (if block = 5 then Some \<lparr>fz_amount_rao = 100, fz_block_hash = ''h5'', fz_event_digest = ''e5''\<rparr> else None)),
      ch_prepare = (\<lambda>_ _ _. Inr (example_signed head)), ch_prepare_manual = (\<lambda>_ _ _. Inr (example_signed head)),
      ch_reconcile = (\<lambda>_ _. Inr \<lparr>sl_status = status, sl_block = Some head, sl_block_hash = Some ''head'', sl_uid = Some 7,
        sl_scanned_through = None, sl_extrinsic_index = Some 0, sl_extrinsic_hash = Some ''hash''\<rparr>),
      ch_retryable_transfer_failure = (\<lambda>_. Inl (Adapter ''not failed'')), ch_manual_approval = None\<rparr>"

fun collector_calls ::
  "hash_fun \<Rightarrow> signature_verifier \<Rightarrow> collector_policy \<Rightarrow> (collector_chain \<times> collector_command) list \<Rightarrow> collector_journal \<Rightarrow> collector_journal collected" where
  "collector_calls H V p [] j = Inr j"
| "collector_calls H V p ((chain, command) # rest) j =
     and_then (collector_step H V p chain command j) (\<lambda>(j1, _). collector_calls H V p rest j1)"

lemma collector_calls_run: "collector_run H V p role j \<Longrightarrow> collector_calls H V p calls j = Inr j' \<Longrightarrow> collector_run H V p role j'"
proof (induction calls arbitrary: j)
  case (Cons call calls)
  obtain chain command where call: "call = (chain, command)" by (cases call)
  then obtain j1 sent where "collector_step H V p chain command j = Inr (j1, sent)" "collector_calls H V p calls j1 = Inr j'"
    using Cons.prems(2) by (auto simp: and_then_Inr)
  then show ?case using Cons.IH [OF collector_run.step] Cons.prems(1) by blast
qed simp

text \<open>A receipt of 100 is found in block 5; then its first leg is in flight.\<close>

definition example_start :: "string \<Rightarrow> collector_journal" where
  "example_start role = \<lparr>cj_pin = Some ([], role), cj_cursor = 4, cj_earnings = [], cj_operations = [], cj_events = []\<rparr>"

definition example_row :: earning_row where
  "example_row = \<lparr>er_block = 5, er_earned = \<lparr>fz_amount_rao = 100, fz_block_hash = ''h5'', fz_event_digest = ''e5''\<rparr>, er_completed = False\<rparr>"

definition example_scanned :: collector_journal where
  "example_scanned = \<lparr>cj_pin = Some ([], ''transfer''), cj_cursor = 6, cj_earnings = [example_row], cj_operations = [],
     cj_events = [Emission_Attributed 5 [] (er_earned example_row)]\<rparr>"

definition example_leg :: operation_row where
  "example_leg = \<lparr>op_state = ''dispatching'', op_role = ''transfer'', op_amount = 75, op_source_block = Some 5, op_bucket = Some ''gm'',
     op_destination = Some (example_wallet CHR ''E''),
     op_call = Transfer_Stake (example_wallet CHR ''E'') (example_wallet CHR ''B'') 75, op_signed = example_signed 10, op_at_block = 10,
     op_settlement = None, op_reconciled_through = 0\<rparr>"

definition example_sent :: collector_journal where
  "example_sent = example_scanned\<lparr>cj_operations := [example_leg], cj_events := cj_events example_scanned @ [Dispatch_Reserved ''hash'' [] ''transfer'']\<rparr>"

lemma collector_example_ok: "check_collector_policy collector_example = Inr ()"
  by code_simp

lemma example_digest [simp]: "collector_digest (\<lambda>_. []) p = []"
  by (simp add: collector_digest_def hexdigest_def)

lemma example_starts:
  assumes "role \<in> {''registration'', ''transfer''}"
  shows "collector_run (\<lambda>_. []) V collector_example role (example_start role)"
proof (rule collector_run.start [OF collector_example_ok])
  show "create_journal (\<lambda>_. []) collector_example role = Inr (example_start role)"
    using assms by (simp add: create_journal_def need_def example_start_def) (simp add: collector_example_def)
qed

lemma collector_fields [simp]:
  "kp_enabled collector_example" "kp_distribution_interval_blocks collector_example = 3" "kp_max_distribution_rao collector_example = 1000"
  "kp_max_fee_rao collector_example = 10" "kp_fee_reserve_rao collector_example = 20" "kp_recovery_cooldown_blocks collector_example = 5"
  "kp_max_registration_burn_rao collector_example = 50" "kp_registration_budget_rao collector_example = 200"
  "kp_collector_hotkey collector_example = example_wallet CHR ''B''"
  by (simp_all add: collector_example_def)

lemma example_parts: "receipt_parts collector_example 100
    = Inr [\<lparr>dn_bucket_id = ''gm'', dn_holding_coldkey = example_wallet CHR ''E'', dn_alpha_rao = 75\<rparr>,
           \<lparr>dn_bucket_id = ''ops'', dn_holding_coldkey = example_wallet CHR ''F'', dn_alpha_rao = 25\<rparr>]"
  by code_simp

lemmas example_defs = tick_def require_pin_def transfer_canary_def existing_canary_def canary_rows_def canary_replacement_def replaced_rows_def
  manual_transfer_history_def armed_rows_def expired_rows_def numbered_def List.map_filter_simps pending_operation_def need_def present_def bind_int_def sql_int_def
  chain_example_def Let_def

lemma example_observing:
  "tick (\<lambda>_. []) V collector_example (chain_example 6 (Some 7) ''pending'') ''transfer'' None None (example_start ''transfer'')
     = Inr (example_scanned, ''observing'', None)"
  by (simp add: example_defs example_start_def tick_transfer_def tick_receipt_def select_receipt_def scan_finalized_earnings_def
      record_earning_def add_event_def bounded_def example_scanned_def example_row_def upto.simps)

lemma example_dispatch:
  "tick (\<lambda>_. []) V collector_example (chain_example 10 (Some 7) ''pending'') ''transfer'' None None example_scanned
     = Inr (example_sent, ''dispatching'', Some ''bytes'')"
  by (simp add: example_defs tick_transfer_def tick_receipt_def select_receipt_def example_scanned_def example_row_def mature_def sooner_def max_at_block_def
      example_parts source_operations_def open_batches_def remaining_distribution_def tick_leg_def transfer_claim_def reserve_def Let_def add_event_def
      example_sent_def example_leg_def example_signed_def)

definition example_registered :: collector_journal where
  "example_registered = (example_start ''registration'')\<lparr>cj_operations := [\<lparr>op_state = ''dispatching'', op_role = ''registration'', op_amount = 60,
     op_source_block = None, op_bucket = None, op_destination = None, op_call = Register_Limit (example_wallet CHR ''B'') 50,
     op_signed = example_signed 10, op_at_block = 10, op_settlement = None, op_reconciled_through = 0\<rparr>],
     cj_events := [Dispatch_Reserved ''hash'' [] ''registration'']\<rparr>"

lemma example_register:
  "tick (\<lambda>_. []) V collector_example (chain_example 10 None ''pending'') ''registration'' None None (example_start ''registration'')
     = Inr (example_registered, ''dispatching'', Some ''bytes'')"
  by (simp add: example_defs example_start_def tick_registration_def sooner_def max_at_block_def sql_sum_def reserve_def add_event_def
      example_registered_def example_signed_def)

lemma example_runs:
  "collector_run (\<lambda>_. []) V collector_example ''transfer'' example_sent" "collector_run (\<lambda>_. []) V collector_example ''registration'' example_registered"
proof -
  have "collector_run (\<lambda>_. []) V collector_example ''transfer'' example_scanned"
    by (rule collector_run.step [OF example_starts, where chain = "chain_example 6 (Some 7) ''pending''" and command = "Tick ''transfer'' None None"
          and sent = None]) (simp_all add: example_observing)
  then show "collector_run (\<lambda>_. []) V collector_example ''transfer'' example_sent"
    by (rule collector_run.step [where chain = "chain_example 10 (Some 7) ''pending''" and command = "Tick ''transfer'' None None" and sent = "Some ''bytes''"])
      (simp add: example_dispatch)
  show "collector_run (\<lambda>_. []) V collector_example ''registration'' example_registered"
    by (rule collector_run.step [OF example_starts, where chain = "chain_example 10 None ''pending''" and command = "Tick ''registration'' None None"
          and sent = "Some ''bytes''"]) (simp_all add: example_register)
qed

subsection \<open>Properties\<close>

text \<open>C15: No receipt is paid twice or beyond its split: in every journal that ticks, manual intents, batches, expiries, canary replacements
  and scans can produce, whatever the chain adapter answers, the operations attributed to a receipt can be read back, and for each bucket those
  that were paid or may still be on their way sum to at most the bucket's entitlement in that receipt.\<close>

theorem receipts_never_overpaid:
  assumes "collector_run H V p role j" "e \<in> set (cj_earnings j)"
  shows "\<exists>rows. source_operations j (er_block e) (- 1) = Inr rows
     \<and> (\<forall>bucket. live_sum bucket rows \<le> entitlement p (fz_amount_rao (er_earned e)) bucket)"
proof -
  have ok: "journal_ok H p role j" using run_ok [OF assms(1)] by blast
  have "distinct (map mq_after_operation (open_intents j))" using ok_intents(2) [OF ok] by (simp add: strict_sorted_iff)
  then have "source_operations j (er_block e) (- 1) = Inr (drawn (cj_operations j) (open_intents j) (er_block e))"
    using ok by (intro source_operations_total) (simp_all add: journal_ok_def)
  then show ?thesis using ok assms(2) by (auto simp: journal_ok_def conserved_def)
qed

theorem receipts_never_overpaid_witness:
  "\<exists>rows. source_operations example_sent 5 (- 1) = Inr rows \<and> rows \<noteq> []
     \<and> (\<forall>bucket. live_sum bucket rows \<le> entitlement collector_example 100 bucket)"
proof -
  have "source_operations example_sent 5 (- 1) = Inr [example_leg]"
    by (simp add: source_operations_def open_batches_def example_sent_def example_scanned_def armed_rows_def numbered_def List.map_filter_simps
        need_def explained_def attributed_def example_leg_def)
  moreover have "example_row \<in> set (cj_earnings example_sent)" by (simp add: example_sent_def example_scanned_def)
  ultimately show ?thesis using receipts_never_overpaid [OF example_runs(1), of example_row] by (simp add: example_row_def)
qed

text \<open>C16: A transaction is durable before it is sent, and it is the only one in flight: when a call hands bytes to the chain, the committed
  journal is the old one with exactly one new operation, which holds these bytes, is the single operation marked as dispatching and is announced
  by the last event; its fee is within the signed ceiling, it is mortal within 128 blocks, and a transfer is within the signed maximum or a
  verified cold approval of a larger manual amount.\<close>

theorem persisted_before_broadcast:
  assumes "collector_step H V p chain command j = Inr (j', Some encoded)"
  shows "\<exists>o1. cj_operations j' = cj_operations j @ [o1] \<and> sg_encoded (op_signed o1) = encoded
     \<and> filter (\<lambda>x. op_state x = ''dispatching'') (cj_operations j') = [o1]
     \<and> last (cj_events j') = Dispatch_Reserved (sg_extrinsic_hash (op_signed o1)) (collector_digest H p) (op_role o1)
     \<and> sg_fee_rao (op_signed o1) \<le> kp_max_fee_rao p
     \<and> op_at_block o1 < sg_expires_block (op_signed o1) \<and> sg_expires_block (op_signed o1) \<le> op_at_block o1 + 128
     \<and> (op_role o1 \<noteq> ''registration'' \<longrightarrow> approved_amount H V p chain (op_amount o1))"
proof -
  obtain role canary rid status where t: "tick H V p chain role canary rid j = Inr (j', status, Some encoded)"
    using assms by (cases command) (auto simp: and_then_Inr)
  from t show ?thesis
  proof (cases rule: tick_Inr)
    case (step j1 bound observed st)
    obtain j2 c where st: "st = Reserve j2 c" and r: "reserve H p chain role (open_intents j1) c j2 = Inr (j', encoded)"
      using step(5) by (auto split: tick_step.splits)
    have none: "pending_operation j1 = None"
      using step(4) st tick_pending_Inr by (fastforce split: option.splits)
    have j1: "cj_operations j1 = cj_operations j" using transfer_canary_Inr(1) [OF step(1)] by auto
    have j2: "cj_operations j2 = cj_operations j1" "role \<noteq> ''registration'' \<Longrightarrow> approved_amount H V p chain (cl_amount c)"
    proof -
      have reg: "cj_operations j2 = cj_operations j1" if "tick_registration p observed j1 = Inr (Reserve j2 c)"
        using that by (auto simp: tick_registration_def and_then_Inr Let_def split: if_splits)
      show "cj_operations j2 = cj_operations j1" "role \<noteq> ''registration'' \<Longrightarrow> approved_amount H V p chain (cl_amount c)"
        using step(4) none st reg transfer_amount by (auto split: if_splits)
    qed
    have "filter (\<lambda>x. op_state x = ''dispatching'') (cj_operations j) = []" using none by (simp add: pending_None j1 filter_empty_conv)
    moreover obtain o1 where
      o1: "j' = add_event (Dispatch_Reserved (sg_extrinsic_hash (op_signed o1)) (collector_digest H p) role) (j2\<lparr>cj_operations := cj_operations j2 @ [o1]\<rparr>)"
        "sg_encoded (op_signed o1) = encoded" "op_state o1 = ''dispatching''" "op_role o1 = role"
        "op_amount o1 = (if role = ''registration'' then cl_amount c + kp_max_fee_rao p else cl_amount c)"
        "sg_fee_rao (op_signed o1) \<le> kp_max_fee_rao p" "op_at_block o1 = sg_start_block (op_signed o1)"
        "sg_start_block (op_signed o1) < sg_expires_block (op_signed o1)" "sg_expires_block (op_signed o1) \<le> sg_start_block (op_signed o1) + 128"
      using reserve_Inr [OF r] by metis
    ultimately show ?thesis using j1 j2 by (intro exI [of _ o1]) (auto simp: add_event_def)
  qed simp_all
qed

theorem persisted_before_broadcast_witness:
  "\<exists>o1. cj_operations example_sent = [o1] \<and> sg_encoded (op_signed o1) = ''bytes''
     \<and> (op_role o1 \<noteq> ''registration'' \<longrightarrow> approved_amount (\<lambda>_. []) (\<lambda>_ _ _. True) collector_example (chain_example 10 (Some 7) ''pending'') (op_amount o1))"
proof -
  have "collector_step (\<lambda>_. []) (\<lambda>_ _ _. True) collector_example (chain_example 10 (Some 7) ''pending'') (Tick ''transfer'' None None) example_scanned
      = Inr (example_sent, Some ''bytes'')" by (simp add: example_dispatch)
  from persisted_before_broadcast [OF this] show ?thesis by (auto simp: example_scanned_def)
qed

text \<open>C17: The collector never spends beyond its registration budget: over the whole life of a registration journal the charged attempts, each
  counted with its burn limit and its maximum fee whether it succeeded, failed or expired, sum to at most the signed lifetime budget, and at most one
  attempt is in flight.\<close>

theorem registration_budget_kept:
  assumes "collector_run H V p ''registration'' j"
  shows "sum_list (map op_amount (cj_operations j)) \<le> kp_registration_budget_rao p
     \<and> length (filter (\<lambda>x. op_state x = ''dispatching'') (cj_operations j)) \<le> 1"
  using run_ok [OF assms] by (simp add: journal_ok_def)

theorem registration_budget_kept_witness:
  "sum_list (map op_amount (cj_operations example_registered)) \<le> kp_registration_budget_rao collector_example
     \<and> length (cj_operations example_registered) = 1"
  using registration_budget_kept [OF example_runs(2)] by (simp add: example_registered_def)

end
