(* ===== verification/Spec2Isabelle.thy ===== *)
theory Spec2Isabelle
  imports Prelude Binary64 Dueling Title_Duel Ledger Weights_Score Weights_Dethrone Weights_Fold
    Weights_Tracks Crn Confirmation_Plan Koth Koth_Fold Koth_Mirror Tracks Service_Weights Conservation
    Treasury Treasury_Pin Receipts Relay Relay_Safety Epoch Epoch_Safety Epoch_Receipts Cadence
    Diagnostics Ledger_Pin Pin_Replay Pin_Store Pin_Agreement Efficiency Json Topup Topup_Safety Topup_Execution
    Collector Collector_History Collector_Tick Collector_Ledger Collector_Safety Collector_Runs
begin

text \<open>
  A verification library for the emission logic of the Ditto subnet (SN118): how a validator turns
  the platform's public score ledger into the weight vector it commits on chain, how the platform
  explains and audits that vector, and how a share of the emission is routed to a treasury under a
  signed policy. Validators must agree bit for bit and the chain pays what they submit, so the model
  keeps what the agreement rests on: binary64 arithmetic with its rounding, dictionary order,
  unbounded integers, and exceptions as values.

  \<^bold>\<open>The program and how its parts interact.\<close> The platform scores submissions and serves a ledger of
  rows. Once per chain epoch, in a window before the boundary (\<^verbatim>\<open>worker.py\<close>, cadence), a validator
  reads the ledger and runs \<^verbatim>\<open>_update_weights\<close>: it checks the treasury pin of the ledger, filters the
  rows to registered miners, folds every competition track to a vector (\<^verbatim>\<open>tracks.py\<close>, \<^verbatim>\<open>weights.py\<close>),
  blends the vectors by the tracks' shares, caps the miners' share or splits off the treasury's
  (\<^verbatim>\<open>treasury_weights.py\<close>), and submits the result through the receipt relay (\<^verbatim>\<open>weight_receipts.py\<close>) or
  directly. The relay later forwards the finalized receipts to the platform, which validates them
  (\<^verbatim>\<open>weight_receipt.py\<close>). The platform re-implements the fold to show the leaderboard (\<^verbatim>\<open>koth.py\<close>) and
  plans the seeds of confirmation runs (\<^verbatim>\<open>crn.py\<close>), which the validator plans for itself.

  \<^bold>\<open>Theories and the code they model\<close> (paths under \<^verbatim>\<open>src/\<close>; SP is
  \<^verbatim>\<open>packages/ditto-screening-protocol/ditto_screening_protocol\<close>):

  \<^item> \<open>Prelude\<close>: Python's dictionaries (association lists in insertion order), numbers, errors and
    stable sorting; the locale \<open>canonical_order\<close> says that sorting by a key that ends in an identifier
    does not depend on the input order, and is interpreted at every sort of the program.
  \<^item> \<open>Binary64\<close>: floats as rationals rounded to binary64, with \<^verbatim>\<open>math.fsum\<close>, \<^verbatim>\<open>statistics\<close> and division; the locale
    \<open>rounding\<close> states monotone rounding, interpreted for round-to-nearest-even.
  \<^item> \<open>Dueling\<close>, \<open>Title_Duel\<close>: SP\<^verbatim>\<open>/dueling.py\<close>, SP\<^verbatim>\<open>/title_duel.py\<close>: masked composites and the paired test of a duel.
  \<^item> \<open>Ledger\<close>: the rows of \<^verbatim>\<open>ditto/api_models/validator.py\<close> with their field constraints.
  \<^item> \<open>Weights_Score\<close>, \<open>Weights_Dethrone\<close>, \<open>Weights_Fold\<close>, \<open>Weights_Tracks\<close>, \<open>Confirmation_Plan\<close>:
    \<^verbatim>\<open>ditto/validator/weights.py\<close>, every function: one row, two rows, the whole ledger, the tracks and
    the emission cap, the confirmation planner. The locale \<open>crown_contest\<close> is the interface of the
    champion walk to the dethrone test. \<open>Confirmation_Plan\<close> also has the platform's planner
    (\<^verbatim>\<open>apps/platform/ditto/api_server/crn.py\<close>).
  \<^item> \<open>Crn\<close>: \<^verbatim>\<open>ditto/validator/crn.py\<close> and SP\<^verbatim>\<open>/crn_block_binding.py\<close>: seeds bound to a block hash.
  \<^item> \<open>Koth\<close>, \<open>Koth_Fold\<close>, \<open>Koth_Mirror\<close>: \<^verbatim>\<open>apps/platform/ditto/api_server/koth.py\<close> and \<^verbatim>\<open>score_order.py\<close>: the platform's
    copy of the fold, and the rows for which the two copies agree.
  \<^item> \<open>Tracks\<close>: \<^verbatim>\<open>ditto/validator/tracks.py\<close>: the track registry.
  \<^item> \<open>Service_Weights\<close>, \<open>Conservation\<close>: SP\<^verbatim>\<open>/treasury_weight_math.py\<close>: the service-first vector and the
    distribution of earnings; the rounding error of the vector's sum.
  \<^item> \<open>Treasury\<close>, \<open>Treasury_Pin\<close>: SP\<^verbatim>\<open>/treasury.py\<close>, SP\<^verbatim>\<open>/treasury_approval.py\<close>, SP\<^verbatim>\<open>/treasury_enforcement.py\<close>,
    \<^verbatim>\<open>ditto/validator/treasury_weights.py\<close>: signed policies, their canonical bytes, enforcing pins and the
    authority to fold under them. The locale \<open>delimited_code\<close> is the interface of the JSON encoders,
    from which the injectivity of the canonical bytes is composed.
  \<^item> \<open>Receipts\<close>, \<open>Relay\<close>, \<open>Relay_Safety\<close>: SP\<^verbatim>\<open>/weight_receipt.py\<close> and \<^verbatim>\<open>ditto/validator/weight_receipts.py\<close>: the receipt
    model and the recovery of receipts.
  \<^item> \<open>Diagnostics\<close>: SP\<^verbatim>\<open>/receipt_diagnostics.py\<close>: the observations a relay reports.
  \<^item> \<open>Ledger_Pin\<close>, \<open>Pin_Replay\<close>: the pure half of \<^verbatim>\<open>apps/platform/ditto/api_server/ledger_pin.py\<close>: a snapshot frozen for an epoch
    and replayed to validators, and what they read from it.
  \<^item> \<open>Pin_Store\<close>, \<open>Pin_Agreement\<close>: its stateful half, \<^verbatim>\<open>db/queries/ledger_epochs.py\<close> and the decision of
    \<^verbatim>\<open>endpoints/scoring.py\<close>: processes that build, race for and serve the pins, as a step relation. The locale \<open>immutable_store\<close>
    is the interface of the table to them.
  \<^item> \<open>Efficiency\<close>: the pure half of \<^verbatim>\<open>apps/platform/ditto/api_server/efficiency.py\<close>: audited cost, the cohort frozen per
    efficiency epoch, and the factor or bonus assigned against it. The locale \<open>group_choice\<close> is the shape of its two dedupes.
  \<^item> \<open>Json\<close>: canonical JSON text, the bytes the treasury journals hash.
  \<^item> \<open>Topup\<close>, \<open>Topup_Safety\<close>: \<^verbatim>\<open>ditto/treasury/store.py\<close> and \<^verbatim>\<open>preflight.py\<close>: the signer's journal of top-up payments, its runs and
    the life of a payment they refine. \<open>Topup_Execution\<close>: \<^verbatim>\<open>ditto/treasury/execution.py\<close>, the dispatch of one leg.
  \<^item> \<open>Collector\<close>, \<open>Collector_History\<close>, \<open>Collector_Tick\<close>: \<^verbatim>\<open>ditto/treasury/collector.py\<close>, \<^verbatim>\<open>manual_batch.py\<close> and \<^verbatim>\<open>manual_expiry.py\<close>, with SP\<^verbatim>\<open>/treasury_manual_limit.py\<close>:
    the journal of the collector that distributes earned stake to the service wallets. \<open>Collector_Ledger\<close>, \<open>Collector_Safety\<close>, \<open>Collector_Runs\<close>:
    its accounts, its invariant and its runs against an arbitrary chain adapter (\<open>collector_chain\<close>).
  \<^item> \<open>Epoch\<close>, \<open>Epoch_Safety\<close>, \<open>Epoch_Receipts\<close>: \<^verbatim>\<open>ValidatorWorker._update_weights\<close> of \<^verbatim>\<open>ditto/validator/worker.py\<close> with everything
    it calls, and the properties that span the components.
  \<^item> \<open>Cadence\<close>: the window functions of \<^verbatim>\<open>worker.py\<close> and the runs of a validator on a chain.

  A Python class is a record, its pydantic constraints and validators a \<open>check_\<close> function returning
  \<^verbatim>\<open>Inl\<close> of the exception or \<^verbatim>\<open>Inr\<close>; a method or function is a definition of the same name without the
  leading underscore; mutable state is passed and returned, and requests to other services are
  returned as lists of events.

  \<^bold>\<open>What the lemmas show.\<close> Agreement: the fold does not depend on the order of the rows, the platform's
  copy names the same champion, tail and shares, and both planners compute the same seeds. Safety of
  the crown: a champion falls only to a measured, strictly positive lead on enough comparable
  evidence, never to a copy of its own evidence. Safety of an epoch: nothing is submitted unless every read
  allows it, only registered keys are paid, and an enforcing epoch never falls back to an
  unverified submission. Treasury: the collector's share is the signed one, distributions
  pay out exactly what was earned, a digest identifies its policy. Receipts: none is acknowledged before the platform
  stored it, a bad one does not hold up the others, and the platform accepts what an honest epoch
  sent. Cadence: exactly one commit window per epoch. Error paths: which inputs raise, and that no
  served ledger can make the fold raise.
  Pins: all answers for an epoch are one stored row, and the champion stored with a pin is the one every validator reports.
  Diagnostics: no text of a rejected receipt leaves the validator.
  Efficiency: a frozen cohort is bounded, one entry per owner and lineage, represents every qualified submission and does not depend on
  arrival order; the factor assigned against it reaches the validator's fold unchanged.
  Top-ups: one payment at a time within allocations and daily bounds, each leg dispatched once after a second person's approval, an
  interrupted dispatch stops everything, and the event chain tells it all and cannot be rewritten unnoticed.
  Collector: no bucket of a receipt is paid beyond its entitlement by any mix of automatic, manual and batch transfers; a transaction is in the
  journal before it is sent and alone in flight; registrations stay within their lifetime budget.

  \<^bold>\<open>Parameters.\<close> Code outside the repository is an argument of the definitions that use it: the C
  library's \<^verbatim>\<open>exp\<close> and \<^verbatim>\<open>pow\<close> (record \<open>libm\<close>; what the proofs use of it are named hypotheses that IEEE
  implementations document, such as the range of \<^verbatim>\<open>exp\<close>), SHA-256 (\<open>hash_fun\<close>), the signature verifier, and
  \<open>receipt_codec\<close> with the bytes pydantic and \<^verbatim>\<open>json.dumps\<close> write for a receipt, BLAKE2b and UUID version 5. The replies of
  the platform, the chain and the transport are the records \<open>epoch_reads\<close> and \<open>relay_env\<close>, arbitrary in every theorem.

  \<^bold>\<open>Bounds and termination.\<close> Every definition is total. The loops over rows are structural; the round
  schedule of \<open>Koth_Fold\<close> and the binary64 rounding have measures; the retry loop runs over the list of its attempts. No fuel is
  used. Word sizes occur only where the code has them (eight-byte hash prefixes, 16-bit chain weights).

  \<^bold>\<open>Not modelled.\<close> HTTP handlers, SQL queries and tables of the platform, whose behaviour is that of the database;
  signing keys, chain clients and process supervision; log lines and timestamps of diagnostics; pydantic's coercion of raw JSON
  to typed fields (the models start from typed values, and say so where a raw value is read);
  the screener's review of source code by language models; the miner's command line; the benchmark services in Go, Rust
  and TypeScript; infrastructure. Of the worker, scoring jobs, heartbeats and leases are left out.
  Of the platform's ledger, the assembly of a snapshot from the database is an input of the model.
\<close>

end
